(* ===== verification/Harmony_Prelude.thy ===== *)
theory Harmony_Prelude
  imports Main "HOL-Library.Word"
begin

text \<open>
  What the components of the Harmony development share: the names of Rust's
  integer types, its saturating and wrapping arithmetic on \<open>i64\<close>, results as
  sums, and the collections of rewrite rules the component proofs use.

  A Rust \<open>Result<T, E>\<close> is the sum \<open>E + T\<close>, with \<open>Inl\<close> for \<open>Err\<close> and
  \<open>Inr\<close> for \<open>Ok\<close>. A \<open>usize\<close> or \<open>u64\<close> count that the code bounds is a
  \<open>nat\<close>; an \<open>i64\<close> is an \<open>int\<close>, with \<open>in_i64\<close> for its range.
\<close>

named_theorems room_simps \<open>effects of the Room operations\<close>
named_theorems wf_intros \<open>preservation of well-formedness\<close>
named_theorems parse_simps \<open>unfolding of the byte parsers\<close>

subsection \<open>Signed 64-bit integers\<close>

definition i64_min :: int where "i64_min = - (2 ^ 63)"
definition i64_max :: int where "i64_max = 2 ^ 63 - 1"

definition in_i64 :: "int \<Rightarrow> bool" where
  "in_i64 x \<longleftrightarrow> i64_min \<le> x \<and> x \<le> i64_max"

definition clamp_i64 :: "int \<Rightarrow> int" where
  "clamp_i64 x = max i64_min (min i64_max x)"

definition saturating_add :: "int \<Rightarrow> int \<Rightarrow> int" where
  "saturating_add a b = clamp_i64 (a + b)"

definition saturating_sub :: "int \<Rightarrow> int \<Rightarrow> int" where
  "saturating_sub a b = clamp_i64 (a - b)"

text \<open>\<open>+=\<close> on an \<open>i64\<close> in a release build: two's complement wrap-around.\<close>

definition wrapping_add :: "int \<Rightarrow> int \<Rightarrow> int" where
  "wrapping_add a b = (a + b + 2 ^ 63) mod 2 ^ 64 - 2 ^ 63"

lemmas i64_defs = i64_min_def i64_max_def in_i64_def clamp_i64_def
  saturating_add_def saturating_sub_def wrapping_add_def

lemma saturating_add_in_i64 [simp]: "in_i64 (saturating_add a b)"
  by (simp add: i64_defs)

lemma saturating_sub_in_i64 [simp]: "in_i64 (saturating_sub a b)"
  by (simp add: i64_defs)

lemma saturating_add_nonneg: "0 \<le> a \<Longrightarrow> 0 \<le> b \<Longrightarrow> 0 \<le> saturating_add a b"
  by (simp add: i64_defs)

lemma saturating_add_exact: "in_i64 (a + b) \<Longrightarrow> saturating_add a b = a + b"
  by (simp add: i64_defs)

lemma saturating_add_zero [simp]: "in_i64 a \<Longrightarrow> saturating_add a 0 = a"
  by (simp add: i64_defs)

lemma saturating_sub_self [simp]: "saturating_sub a a = 0"
  by (simp add: i64_defs)

lemma saturating_sub_mono: "a \<le> b \<Longrightarrow> saturating_sub a c \<le> saturating_sub b c"
  by (auto simp: i64_defs)

lemma saturating_add_mono: "a \<le> b \<Longrightarrow> saturating_add c a \<le> saturating_add c b"
  by (auto simp: i64_defs)

lemma wrapping_add_exact: "in_i64 (a + b) \<Longrightarrow> wrapping_add a b = a + b"
  by (simp add: i64_defs)

lemma wrapping_add_in_i64 [simp]: "in_i64 (wrapping_add a b)"
proof -
  have "0 \<le> (a + b + 2 ^ 63) mod (2 ^ 64 :: int)" and "(a + b + 2 ^ 63) mod (2 ^ 64 :: int) < 2 ^ 64"
    by simp_all
  then show ?thesis by (simp add: i64_defs)
qed

lemma in_i64_zero [simp]: "in_i64 0"
  by (simp add: i64_defs)

subsection \<open>Results\<close>

fun is_ok :: "'e + 'a \<Rightarrow> bool" where
  "is_ok (Inl e) = False"
| "is_ok (Inr x) = True"

text \<open>Rust's \<open>?\<close> operator: stop at the first error.\<close>

definition and_then :: "'e + 'a \<Rightarrow> ('a \<Rightarrow> 'e + 'b) \<Rightarrow> 'e + 'b" where
  "and_then r f = (case r of Inl e \<Rightarrow> Inl e | Inr x \<Rightarrow> f x)"

definition map_err :: "('e \<Rightarrow> 'f) \<Rightarrow> 'e + 'a \<Rightarrow> 'f + 'a" where
  "map_err f r = (case r of Inl e \<Rightarrow> Inl (f e) | Inr x \<Rightarrow> Inr x)"

definition ok_or :: "'e \<Rightarrow> 'a option \<Rightarrow> 'e + 'a" where
  "ok_or e x = (case x of None \<Rightarrow> Inl e | Some y \<Rightarrow> Inr y)"

lemma and_then_simps [simp]:
  "and_then (Inl e) f = Inl e"
  "and_then (Inr x) f = f x"
  by (simp_all add: and_then_def)

lemma and_then_Inr_iff: "and_then r f = Inr y \<longleftrightarrow> (\<exists>x. r = Inr x \<and> f x = Inr y)"
  by (cases r) auto

lemma map_err_simps [simp]:
  "map_err f (Inl e) = Inl (f e)"
  "map_err f (Inr x) = Inr x"
  by (simp_all add: map_err_def)

lemma map_err_Inr_iff [simp]: "map_err f r = Inr y \<longleftrightarrow> r = Inr y"
  by (cases r) auto

lemma ok_or_simps [simp]:
  "ok_or e None = Inl e"
  "ok_or e (Some x) = Inr x"
  by (simp_all add: ok_or_def)

lemma ok_or_Inr_iff [simp]: "ok_or e x = Inr y \<longleftrightarrow> x = Some y"
  by (cases x) auto

end
