(* ===== verification/F64_Rounding.thy ===== *)
theory F64_Rounding
  imports Complex_Main "HOL-Library.Log_Nat" Harmony_Prelude
begin

text \<open>
  Rust's \<open>f64\<close> on the values the request budgets use: the finite, non-negative
  numbers of IEEE 754 binary64. Each operation of the code is the exact
  operation on rationals followed by \<open>f64_round\<close>, rounding to 53 significant
  bits with ties to even. The budgets stay between 1e-9 and 1e21, so neither
  subnormal numbers nor overflow to infinity occur and the model has no
  exponent bounds.

  What the clients of this arithmetic use is the locale \<open>rounding\<close>: monotone,
  and exact on the integers below \<open>2 ^ 53\<close>.
\<close>

subsection \<open>Rounding to nearest, ties to even\<close>

definition round_half_even :: "rat \<Rightarrow> int" where
  "round_half_even y =
     (let f = \<lfloor>y\<rfloor>; r = y - of_int f in
      if r < 1 / 2 then f
      else if 1 / 2 < r then f + 1
      else if even f then f else f + 1)"

text \<open>The exponent \<open>k\<close> with \<open>2 ^ k \<le> x < 2 ^ (k + 1)\<close>, from the bit lengths of the
  numerator and the denominator.\<close>

definition exponent2 :: "rat \<Rightarrow> int" where
  "exponent2 x =
     (let (n, d) = quotient_of x; k = int (floorlog 2 (nat n)) - int (floorlog 2 (nat d)) in
      if 2 powi k \<le> x then k else k - 1)"

definition f64_round :: "rat \<Rightarrow> rat" where
  "f64_round x =
     (if x = 0 then 0
      else let q = 2 powi (exponent2 x - 52) in q * of_int (round_half_even (x / q)))"

subsection \<open>Properties of the integer rounding\<close>

lemma round_half_even_bounds:
  "\<lfloor>y\<rfloor> \<le> round_half_even y" "round_half_even y \<le> \<lfloor>y\<rfloor> + 1"
  by (simp_all add: round_half_even_def Let_def)

lemma round_half_even_of_int [simp]: "round_half_even (of_int z) = z"
  by (simp add: round_half_even_def)

lemma round_half_even_mono:
  assumes "x \<le> y"
  shows "round_half_even x \<le> round_half_even y"
proof (cases "\<lfloor>x\<rfloor> = \<lfloor>y\<rfloor>")
  case True
  with assms show ?thesis
    by (auto simp: round_half_even_def Let_def)
next
  case False
  from assms have "\<lfloor>x\<rfloor> \<le> \<lfloor>y\<rfloor>" by (rule floor_mono)
  with False have "\<lfloor>x\<rfloor> + 1 \<le> \<lfloor>y\<rfloor>" by simp
  with round_half_even_bounds [of x] round_half_even_bounds [of y] show ?thesis
    by linarith
qed

subsection \<open>The binary exponent\<close>

lemma floorlog2_bounds:
  assumes "0 < n"
  shows "2 powi (int (floorlog 2 n) - 1) \<le> (of_nat n :: rat)"
    and "(of_nat n :: rat) < 2 powi int (floorlog 2 n)"
proof -
  from assms have b: "2 ^ (floorlog 2 n - 1) \<le> n" "n < 2 ^ floorlog 2 n" and pos: "0 < floorlog 2 n"
    using floorlog_bounds [of n 2] by (auto intro: gr0I)
  from b(1) have "(2 :: rat) ^ (floorlog 2 n - 1) \<le> of_nat n"
    by (metis of_nat_le_iff of_nat_numeral of_nat_power)
  moreover have "int (floorlog 2 n) - 1 = int (floorlog 2 n - 1)" using pos by simp
  ultimately show "2 powi (int (floorlog 2 n) - 1) \<le> (of_nat n :: rat)"
    by (simp only: power_int_of_nat)
  from b(2) have "(of_nat n :: rat) < 2 ^ floorlog 2 n"
    by (metis of_nat_less_iff of_nat_numeral of_nat_power)
  then show "(of_nat n :: rat) < 2 powi int (floorlog 2 n)"
    by (simp only: power_int_of_nat)
qed

lemma exponent2_bounds:
  assumes "0 < x"
  shows "2 powi exponent2 x \<le> x" and "x < 2 powi (exponent2 x + 1)"
proof -
  obtain n d where q: "quotient_of x = (n, d)" by fastforce
  then have d: "0 < d" and x: "x = of_int n / of_int d"
    using quotient_of_denom_pos quotient_of_div by blast+
  with assms have n: "0 < n" by (simp add: zero_less_divide_iff)
  let ?n = "nat n" and ?d = "nat d"
  let ?k = "int (floorlog 2 ?n) - int (floorlog 2 ?d)"
  have eq: "x = of_nat ?n / of_nat ?d" using x n d by simp
  have bn: "2 powi (int (floorlog 2 ?n) - 1) \<le> (of_nat ?n :: rat)"
    "(of_nat ?n :: rat) < 2 powi int (floorlog 2 ?n)"
    using n by (intro floorlog2_bounds; simp)+
  have bd: "2 powi (int (floorlog 2 ?d) - 1) \<le> (of_nat ?d :: rat)"
    "(of_nat ?d :: rat) < 2 powi int (floorlog 2 ?d)"
    using d by (intro floorlog2_bounds; simp)+
  have pd: "(0 :: rat) < of_nat ?d" using d by simp
  have "2 powi (?k - 1) * of_nat ?d \<le> (2 powi (?k - 1) * 2 powi int (floorlog 2 ?d) :: rat)"
    using bd(2) by (intro mult_left_mono) simp_all
  also have "\<dots> = 2 powi ((?k - 1) + int (floorlog 2 ?d))"
    by (simp only: power_int_add [of 2] simp_thms zero_neq_numeral [symmetric] not_False_eq_True)
  also have "\<dots> = 2 powi (int (floorlog 2 ?n) - 1)"
    by (rule arg_cong [where f = "\<lambda>k. 2 powi k"]) simp
  finally have low: "2 powi (?k - 1) \<le> x"
    using bn(1) pd by (simp add: eq le_divide_eq)
  have "of_nat ?n < (2 powi (?k + 1) * 2 powi (int (floorlog 2 ?d) - 1) :: rat)"
    using bn(2) by (simp add: power_int_add [symmetric])
  also have "\<dots> \<le> 2 powi (?k + 1) * of_nat ?d"
    using bd(1) by (intro mult_left_mono) simp_all
  finally have high: "x < 2 powi (?k + 1)"
    using pd by (simp add: eq divide_less_eq)
  show "2 powi exponent2 x \<le> x" "x < 2 powi (exponent2 x + 1)"
    using low high by (auto simp: exponent2_def q Let_def)
qed

lemma exponent2_mono:
  assumes "0 < x" and "x \<le> y"
  shows "exponent2 x \<le> exponent2 y"
proof (rule ccontr)
  assume "\<not> ?thesis"
  then have "2 powi (exponent2 y + 1) \<le> (2 powi exponent2 x :: rat)"
    by (intro power_int_increasing) auto
  with exponent2_bounds [of x] exponent2_bounds [of y] assms show False by linarith
qed

subsection \<open>Properties of the rounding\<close>

abbreviation f64_ulp :: "rat \<Rightarrow> rat" where
  "f64_ulp x \<equiv> 2 powi (exponent2 x - 52)"

lemma f64_round_pos: "0 < x \<Longrightarrow> f64_round x = f64_ulp x * of_int (round_half_even (x / f64_ulp x))"
  by (simp add: f64_round_def Let_def)

lemma f64_round_zero [simp]: "f64_round 0 = 0"
  by (simp add: f64_round_def)

lemma power_of_two_multiple:
  assumes "0 < x"
  shows "2 powi exponent2 x = f64_ulp x * of_int (2 ^ 52)"
    and "2 powi (exponent2 x + 1) = f64_ulp x * of_int (2 ^ 53)"
  by (simp_all add: power_int_diff power_int_add)

text \<open>Rounding stays inside the closed binade of its argument.\<close>

lemma f64_round_binade:
  assumes "0 < x"
  shows "2 powi exponent2 x \<le> f64_round x" and "f64_round x \<le> 2 powi (exponent2 x + 1)"
proof -
  let ?q = "f64_ulp x"
  have q: "0 < ?q" by simp
  have "of_int (2 ^ 52) \<le> x / ?q" "x / ?q \<le> of_int (2 ^ 53)"
    using exponent2_bounds [OF assms] power_of_two_multiple [OF assms] q
    by (simp_all add: le_divide_eq divide_le_eq mult.commute less_imp_le)
  then have "2 ^ 52 \<le> round_half_even (x / ?q)" "round_half_even (x / ?q) \<le> 2 ^ 53"
    by (metis round_half_even_mono round_half_even_of_int)+
  then have "(of_int (2 ^ 52) :: rat) \<le> of_int (round_half_even (x / ?q))"
    "(of_int (round_half_even (x / ?q)) :: rat) \<le> of_int (2 ^ 53)"
    by (simp_all only: of_int_le_iff)
  with q show "2 powi exponent2 x \<le> f64_round x" "f64_round x \<le> 2 powi (exponent2 x + 1)"
    unfolding power_of_two_multiple [OF assms] f64_round_pos [OF assms]
    by (simp_all only: mult_le_cancel_left_pos)
qed

lemma f64_round_mono:
  assumes "0 \<le> x" and "x \<le> y"
  shows "f64_round x \<le> f64_round y"
proof (cases "x = 0")
  case True
  have "0 \<le> f64_round y"
  proof (cases "y = 0")
    case False
    with assms True have "0 < y" by simp
    from f64_round_binade(1) [OF this] show ?thesis
      by (meson order_trans zero_le_power_int zero_le_numeral)
  qed simp
  with True show ?thesis by simp
next
  case False
  with assms have x: "0 < x" and y: "0 < y" by simp_all
  show ?thesis
  proof (cases "exponent2 x = exponent2 y")
    case True
    have "round_half_even (x / f64_ulp y) \<le> round_half_even (y / f64_ulp y)"
      using assms by (intro round_half_even_mono divide_right_mono) simp_all
    with True show ?thesis
      by (simp add: f64_round_pos [OF x] f64_round_pos [OF y])
  next
    case False
    with exponent2_mono [OF x assms(2)] have "exponent2 x + 1 \<le> exponent2 y" by simp
    then have "2 powi (exponent2 x + 1) \<le> (2 powi exponent2 y :: rat)"
      by (intro power_int_increasing) auto
    with f64_round_binade [OF x] f64_round_binade [OF y] show ?thesis by linarith
  qed
qed

text \<open>A multiple of the unit in the last place is representable.\<close>

lemma f64_round_multiple:
  assumes "0 < y" and y: "y = 2 powi k * of_int z" and "exponent2 y - 52 \<le> k"
  shows "f64_round y = y"
proof -
  from assms(3) obtain j where j: "k - (exponent2 y - 52) = int j"
    by (metis diff_ge_0_iff_ge nonneg_int_cases)
  then have k: "k = exponent2 y - 52 + int j" by simp
  have "2 powi k = f64_ulp y * (2 ^ j :: rat)"
    by (subst k, subst power_int_add) simp_all
  with y have e: "y = f64_ulp y * of_int (2 ^ j * z)" by simp
  moreover have "f64_ulp y \<noteq> 0" by simp
  ultimately have "y / f64_ulp y = of_int (2 ^ j * z)"
    by (metis nonzero_mult_div_cancel_left)
  then have "round_half_even (y / f64_ulp y) = 2 ^ j * z"
    by (metis round_half_even_of_int)
  then show ?thesis
    unfolding f64_round_pos [OF assms(1)] using e [symmetric] by (simp only:)
qed

lemma exponent2_less:
  assumes "0 < x" and "x < 2 powi k"
  shows "exponent2 x < k"
proof (rule ccontr)
  assume "\<not> ?thesis"
  then have "2 powi k \<le> (2 powi exponent2 x :: rat)"
    by (intro power_int_increasing) auto
  with assms exponent2_bounds(1) [OF assms(1)] show False by linarith
qed

lemma f64_round_integer:
  assumes "n < 2 ^ 53"
  shows "f64_round (of_nat n) = of_nat n"
proof (cases "n = 0")
  case False
  then have x: "0 < (of_nat n :: rat)" by simp
  have "(of_nat n :: rat) < of_nat (2 ^ 53)" using assms by (simp only: of_nat_less_iff)
  then have "(of_nat n :: rat) < 2 powi 53" by simp
  with x have "exponent2 (of_nat n) < 53" by (rule exponent2_less)
  with x show ?thesis by (intro f64_round_multiple [where k = 0 and z = "int n"]) simp_all
qed simp

lemma f64_round_idem:
  assumes "0 \<le> x"
  shows "f64_round (f64_round x) = f64_round x"
proof (cases "x = 0")
  case False
  with assms have x: "0 < x" by simp
  have pos: "0 < f64_round x"
    using f64_round_binade(1) [OF x] by (rule less_le_trans [rotated]) simp
  show ?thesis
  proof (cases "f64_round x = 2 powi (exponent2 x + 1)")
    case True
    have "exponent2 (f64_round x) < exponent2 x + 2"
      using pos by (rule exponent2_less) (simp add: True power_int_strict_increasing)
    with pos True show ?thesis
      by (intro f64_round_multiple [where k = "exponent2 x + 1" and z = 1]) simp_all
  next
    case False
    with f64_round_binade(2) [OF x] have "exponent2 (f64_round x) < exponent2 x + 1"
      using pos by (intro exponent2_less) simp_all
    with pos show ?thesis
      by (intro f64_round_multiple [where k = "exponent2 x - 52"
            and z = "round_half_even (x / f64_ulp x)"]) (simp_all add: f64_round_pos [OF x])
  qed
qed simp

text \<open>Taking one off a number is exact: the difference is a multiple of the same unit.\<close>

lemma f64_round_pred:
  assumes x: "f64_round x = x" "1 \<le> x" "x < 2 ^ 53"
  shows "f64_round (x - 1) = x - 1"
proof (cases "x = 1")
  case False
  with x have pos: "0 < x" "0 < x - 1" by simp_all
  have "x < 2 powi 53" using x(3) by simp
  with pos(1) have "exponent2 x < 53" by (rule exponent2_less)
  then have "0 \<le> 52 - exponent2 x" by simp
  then obtain j where j: "52 - exponent2 x = int j" by (rule nonneg_int_cases)
  let ?m = "round_half_even (x / f64_ulp x)"
  have m: "x = f64_ulp x * of_int ?m" using x(1) f64_round_pos [OF pos(1)] by simp
  have "exponent2 x - 52 = - int j" using j by simp
  then have one: "f64_ulp x * of_int (2 ^ j) = 1" by (simp add: power_int_minus)
  have "x - 1 = f64_ulp x * of_int (?m - 2 ^ j)"
    using m one by (simp add: algebra_simps)
  moreover have "exponent2 (x - 1) - 52 \<le> exponent2 x - 52"
    using pos exponent2_mono [of "x - 1" x] by simp
  ultimately show ?thesis
    by (rule f64_round_multiple [OF pos(2)])
qed simp

subsection \<open>The interface of the arithmetic\<close>

text \<open>What the request budgets rely on of a rounding of the non-negative numbers.\<close>

locale rounding =
  fixes rnd :: "rat \<Rightarrow> rat"
  assumes rnd_mono: "0 \<le> x \<Longrightarrow> x \<le> y \<Longrightarrow> rnd x \<le> rnd y"
    and rnd_integer: "n < 2 ^ 53 \<Longrightarrow> rnd (of_nat n) = of_nat n"
    and rnd_idem: "0 \<le> x \<Longrightarrow> rnd (rnd x) = rnd x"
    and rnd_pred: "rnd x = x \<Longrightarrow> 1 \<le> x \<Longrightarrow> x < 2 ^ 53 \<Longrightarrow> rnd (x - 1) = x - 1"
begin

lemma rnd_zero: "rnd 0 = 0"
  using rnd_integer [of 0] by simp

lemma rnd_one: "rnd 1 = 1"
  using rnd_integer [of 1] by simp

lemma rnd_nonneg: "0 \<le> x \<Longrightarrow> 0 \<le> rnd x"
  using rnd_mono [of 0 x] rnd_zero by simp

lemma rnd_min:
  assumes "rnd b = b" and "0 \<le> x"
  shows "rnd (min (rnd x) b) = min (rnd x) b"
  using assms by (simp add: min_def rnd_idem)

end

interpretation f64: rounding f64_round
  by unfold_locales
    (rule f64_round_mono f64_round_integer f64_round_idem f64_round_pred; assumption)+

lemmas f64_simps [simp] = f64.rnd_zero f64.rnd_one

end
