(* ===== verification/Guest_Limits.thy ===== *)
theory Guest_Limits
  imports F64_Rounding
begin

text \<open>
  The request budgets of the Guest Listener
  (\<open>server/src/modules/listen_together/limits.rs\<close>): a token bucket per kind of
  request. An \<open>Instant\<close> and a \<open>Duration\<close> are nanoseconds as \<open>nat\<close>; the token
  counts are \<open>f64\<close>, computed with the rounding of \<open>F64_Rounding\<close>.
\<close>

subsection \<open>Rates and budgets\<close>

type_synonym instant = nat
type_synonym duration = nat

record rate =
  burst :: rat
  per_second :: rat

definition COMMANDS :: rate where "COMMANDS = \<lparr>burst = 20, per_second = 20\<rparr>"
definition JOINS :: rate where "JOINS = \<lparr>burst = 20, per_second = f64_round (1 / 5)\<rparr>"
definition LIBRARY :: rate where "LIBRARY = \<lparr>burst = 1000, per_second = 60\<rparr>"
definition PHOTOS :: rate where "PHOTOS = \<lparr>burst = 120, per_second = 10\<rparr>"
definition LOOKUPS :: rate where "LOOKUPS = \<lparr>burst = 40, per_second = 2\<rparr>"
definition ROOM :: rate where "ROOM = COMMANDS"

definition MAX_AUDIO_STREAMS :: nat where "MAX_AUDIO_STREAMS = 4"

datatype budget = Library | Photos | Lookups | Room

subsection \<open>The token bucket\<close>

record token_bucket =
  bucket_rate :: rate
  tokens :: rat
  refilled_at :: instant

definition bucket_new :: "rate \<Rightarrow> instant \<Rightarrow> token_bucket" where
  "bucket_new r now = \<lparr>bucket_rate = r, tokens = burst r, refilled_at = now\<rparr>"

text \<open>\<open>Duration::as_secs_f64\<close>: whole seconds plus the nanoseconds over a billion.\<close>

definition as_secs_f64 :: "duration \<Rightarrow> rat" where
  "as_secs_f64 d =
     f64_round (f64_round (of_nat (d div 10 ^ 9)) + f64_round (of_nat (d mod 10 ^ 9) / 10 ^ 9))"

definition bucket_take :: "instant \<Rightarrow> token_bucket \<Rightarrow> bool \<times> token_bucket" where
  "bucket_take now b =
     (let elapsed = now - refilled_at b;
          filled = min (f64_round (tokens b +
                         f64_round (as_secs_f64 elapsed * per_second (bucket_rate b))))
                       (burst (bucket_rate b));
          b' = b\<lparr>tokens := filled, refilled_at := now\<rparr>
      in if 1 \<le> filled then (True, b'\<lparr>tokens := f64_round (filled - 1)\<rparr>) else (False, b'))"

record read_budgets =
  library :: token_bucket
  photos :: token_bucket
  lookups :: token_bucket
  room_reads :: token_bucket

definition budgets_new :: "instant \<Rightarrow> read_budgets" where
  "budgets_new now =
     \<lparr>library = bucket_new LIBRARY now, photos = bucket_new PHOTOS now,
      lookups = bucket_new LOOKUPS now, room_reads = bucket_new ROOM now\<rparr>"

fun budgets_take :: "budget \<Rightarrow> instant \<Rightarrow> read_budgets \<Rightarrow> bool \<times> read_budgets" where
  "budgets_take Library now r = (let (ok, b) = bucket_take now (library r) in (ok, r\<lparr>library := b\<rparr>))"
| "budgets_take Photos now r = (let (ok, b) = bucket_take now (photos r) in (ok, r\<lparr>photos := b\<rparr>))"
| "budgets_take Lookups now r = (let (ok, b) = bucket_take now (lookups r) in (ok, r\<lparr>lookups := b\<rparr>))"
| "budgets_take Room now r = (let (ok, b) = bucket_take now (room_reads r) in (ok, r\<lparr>room_reads := b\<rparr>))"

subsection \<open>Well-formed buckets\<close>

definition rate_ok :: "rate \<Rightarrow> bool" where
  "rate_ok r \<longleftrightarrow> 1 \<le> burst r \<and> burst r < 2 ^ 53 \<and> burst r = of_int \<lfloor>burst r\<rfloor> \<and> 0 \<le> per_second r"

definition bucket_ok :: "token_bucket \<Rightarrow> bool" where
  "bucket_ok b \<longleftrightarrow> rate_ok (bucket_rate b) \<and> 0 \<le> tokens b \<and> tokens b \<le> burst (bucket_rate b)
     \<and> f64_round (tokens b) = tokens b"

definition budgets_ok :: "read_budgets \<Rightarrow> bool" where
  "budgets_ok r \<longleftrightarrow> bucket_ok (library r) \<and> bucket_ok (photos r) \<and> bucket_ok (lookups r)
     \<and> bucket_ok (room_reads r)"

lemma rates_ok [simp]: "rate_ok COMMANDS" "rate_ok JOINS" "rate_ok LIBRARY" "rate_ok PHOTOS"
  "rate_ok LOOKUPS" "rate_ok ROOM"
  by (simp_all add: rate_ok_def COMMANDS_def JOINS_def LIBRARY_def PHOTOS_def LOOKUPS_def ROOM_def
      f64.rnd_nonneg)

lemma rate_ok_burst:
  assumes "rate_ok r"
  obtains n where "burst r = of_nat n" and "1 \<le> n" and "n < 2 ^ 53"
proof -
  from assms have b: "burst r = of_int \<lfloor>burst r\<rfloor>" "1 \<le> burst r" "burst r < 2 ^ 53"
    by (simp_all add: rate_ok_def)
  then have z: "1 \<le> \<lfloor>burst r\<rfloor>" "\<lfloor>burst r\<rfloor> < 2 ^ 53"
    by (simp_all add: le_floor_iff floor_less_iff)
  let ?n = "nat \<lfloor>burst r\<rfloor>"
  have "burst r = of_nat ?n" using b(1) z(1) by simp
  moreover have "1 \<le> ?n" using z(1) by linarith
  moreover have "?n < nat (2 ^ 53)" by (subst nat_mono_iff) (simp, rule z(2))
  ultimately show thesis by (intro that) simp_all
qed

lemma burst_representable: "rate_ok r \<Longrightarrow> f64_round (burst r) = burst r"
  by (erule rate_ok_burst) (simp add: f64.rnd_integer)

lemma bucket_new_ok [simp, wf_intros]: "rate_ok r \<Longrightarrow> bucket_ok (bucket_new r now)"
  by (auto simp: bucket_ok_def bucket_new_def burst_representable) (simp add: rate_ok_def)

lemma budgets_new_ok [simp, wf_intros]: "budgets_ok (budgets_new now)"
  by (simp add: budgets_ok_def budgets_new_def)

lemma as_secs_f64_nonneg [simp]: "0 \<le> as_secs_f64 d"
  by (simp add: as_secs_f64_def f64.rnd_nonneg)

lemma as_secs_f64_zero [simp]: "as_secs_f64 0 = 0"
  by (simp add: as_secs_f64_def)

text \<open>The number of tokens a take at \<open>now\<close> finds.\<close>

definition filled_tokens :: "instant \<Rightarrow> token_bucket \<Rightarrow> rat" where
  "filled_tokens now b =
     min (f64_round (tokens b + f64_round (as_secs_f64 (now - refilled_at b) * per_second (bucket_rate b))))
         (burst (bucket_rate b))"

lemma bucket_take_eq:
  "bucket_take now b =
     (if 1 \<le> filled_tokens now b
      then (True, b\<lparr>tokens := f64_round (filled_tokens now b - 1), refilled_at := now\<rparr>)
      else (False, b\<lparr>tokens := filled_tokens now b, refilled_at := now\<rparr>))"
  by (simp add: bucket_take_def filled_tokens_def Let_def)

lemma refill_nonneg:
  "bucket_ok b \<Longrightarrow> 0 \<le> f64_round (as_secs_f64 d * per_second (bucket_rate b))"
  by (simp add: bucket_ok_def rate_ok_def f64.rnd_nonneg)

lemma filled_tokens_bounds:
  assumes "bucket_ok b"
  shows "0 \<le> filled_tokens now b" "filled_tokens now b \<le> burst (bucket_rate b)"
    "f64_round (filled_tokens now b) = filled_tokens now b"
proof -
  have n: "0 \<le> tokens b + f64_round (as_secs_f64 (now - refilled_at b) * per_second (bucket_rate b))"
    using assms refill_nonneg [OF assms] by (simp add: bucket_ok_def)
  show "0 \<le> filled_tokens now b" "filled_tokens now b \<le> burst (bucket_rate b)"
    using n assms by (simp_all add: filled_tokens_def f64.rnd_nonneg bucket_ok_def rate_ok_def)
  show "f64_round (filled_tokens now b) = filled_tokens now b"
    unfolding filled_tokens_def
    using assms n by (intro f64.rnd_min) (simp_all add: bucket_ok_def burst_representable)
qed

lemma filled_minus_one:
  assumes "bucket_ok b" and "1 \<le> filled_tokens now b"
  shows "f64_round (filled_tokens now b - 1) = filled_tokens now b - 1"
proof (rule f64.rnd_pred)
  show "filled_tokens now b < 2 ^ 53"
    using filled_tokens_bounds(2) [OF assms(1), of now] assms(1)
    by (simp add: bucket_ok_def rate_ok_def)
qed (use assms filled_tokens_bounds in auto)

lemma bucket_take_ok [wf_intros]:
  assumes "bucket_ok b"
  shows "bucket_ok (snd (bucket_take now b))"
  using assms filled_tokens_bounds [OF assms, of now] filled_minus_one [OF assms, of now]
  by (auto simp: bucket_take_eq bucket_ok_def)

lemma bucket_take_rate [simp]: "bucket_rate (snd (bucket_take now b)) = bucket_rate b"
  by (simp add: bucket_take_eq)

lemma budgets_take_ok [wf_intros]: "budgets_ok r \<Longrightarrow> budgets_ok (snd (budgets_take k now r))"
  by (cases k) (auto simp: budgets_ok_def split_beta wf_intros)

subsection \<open>The interface of a limiter\<close>

text \<open>
  What a client of a limiter relies on: at one instant it holds a whole number
  of passes, a grant costs one and a refusal means none is left.
\<close>

locale limiter =
  fixes take_pass :: "instant \<Rightarrow> 'b \<Rightarrow> bool \<times> 'b"
    and passes :: "instant \<Rightarrow> 'b \<Rightarrow> nat"
    and ok :: "'b \<Rightarrow> bool"
  assumes grant: "ok b \<Longrightarrow> fst (take_pass now b) \<longleftrightarrow> 0 < passes now b"
    and spend: "ok b \<Longrightarrow> passes now (snd (take_pass now b)) = passes now b - 1"
    and keep_ok: "ok b \<Longrightarrow> ok (snd (take_pass now b))"
begin

text \<open>The answers of \<open>n\<close> requests in a row, and how many were granted.\<close>

fun answers :: "instant \<Rightarrow> nat \<Rightarrow> 'b \<Rightarrow> bool list" where
  "answers now 0 b = []"
| "answers now (Suc n) b = fst (take_pass now b) # answers now n (snd (take_pass now b))"

lemma answers_prefix:
  "ok b \<Longrightarrow> answers now n b = replicate (min n (passes now b)) True @ replicate (n - passes now b) False"
proof (induction n arbitrary: b)
  case (Suc n)
  from Suc.IH [OF keep_ok [OF Suc.prems]] have IH:
    "answers now n (snd (take_pass now b)) =
       replicate (min n (passes now b - 1)) True @ replicate (n - (passes now b - 1)) False"
    by (simp add: spend [OF Suc.prems])
  show ?case
    using grant [OF Suc.prems, of now] by (cases "passes now b") (simp_all add: IH)
qed simp

end

definition bucket_passes :: "instant \<Rightarrow> token_bucket \<Rightarrow> nat" where
  "bucket_passes now b = nat \<lfloor>filled_tokens now b\<rfloor>"

lemma filled_after_take:
  assumes "bucket_ok b"
  shows "filled_tokens now (snd (bucket_take now b)) =
    (if 1 \<le> filled_tokens now b then filled_tokens now b - 1 else filled_tokens now b)"
  using filled_tokens_bounds [OF assms, of now] filled_minus_one [OF assms, of now]
  by (auto simp: bucket_take_eq filled_tokens_def [of now "b\<lparr>tokens := _, refilled_at := _\<rparr>"])

interpretation bucket: limiter bucket_take bucket_passes bucket_ok
proof unfold_locales
  fix b now assume b: "bucket_ok b"
  have fl: "0 < nat \<lfloor>filled_tokens now b\<rfloor> \<longleftrightarrow> 1 \<le> filled_tokens now b" by simp
  then show "fst (bucket_take now b) \<longleftrightarrow> 0 < bucket_passes now b"
    by (simp add: bucket_take_eq bucket_passes_def)
  show "bucket_passes now (snd (bucket_take now b)) = bucket_passes now b - 1"
    using fl by (auto simp: bucket_passes_def filled_after_take [OF b] nat_diff_distrib)
  show "bucket_ok (snd (bucket_take now b))" using b by (rule bucket_take_ok)
qed

text \<open>\<open>n\<close> takes in a row at one instant: the answers and the bucket left.\<close>

fun takes :: "instant \<Rightarrow> nat \<Rightarrow> token_bucket \<Rightarrow> bool list \<times> token_bucket" where
  "takes now 0 b = ([], b)"
| "takes now (Suc n) b =
     (let (ok, b1) = bucket_take now b; (oks, b2) = takes now n b1 in (ok # oks, b2))"

lemma takes_answers: "fst (takes now n b) = bucket.answers now n b"
  by (induction n arbitrary: b) (simp_all add: split_beta)

lemma as_secs_f64_mono:
  assumes "d \<le> e" and "e < 2 ^ 53 * 10 ^ 9"
  shows "as_secs_f64 d \<le> as_secs_f64 e"
proof -
  let ?N = "10 ^ 9 :: nat"
  have big: "e div ?N < 2 ^ 53" using assms(2) by (simp add: less_mult_imp_div_less)
  have le: "d div ?N \<le> e div ?N" using assms(1) by (rule div_le_mono)
  have ints: "f64_round (of_nat (d div ?N)) = of_nat (d div ?N)"
    "f64_round (of_nat (e div ?N)) = of_nat (e div ?N)"
    using big le by (simp_all only: f64.rnd_integer le_less_trans)
  let ?f = "\<lambda>x :: nat. f64_round (of_nat (x mod ?N) / 10 ^ 9)"
  have "of_nat (d div ?N) + ?f d \<le> of_nat (e div ?N) + ?f e"
  proof (cases "d div ?N = e div ?N")
    case True
    have "d mod ?N \<le> e mod ?N"
      using assms(1) True by (metis add_le_cancel_left div_mult_mod_eq)
    then have "(of_nat (d mod ?N) :: rat) / 10 ^ 9 \<le> of_nat (e mod ?N) / 10 ^ 9"
      by (simp add: divide_right_mono)
    with True show ?thesis by (simp add: f64.rnd_mono)
  next
    case False
    with le have "d div ?N + 1 \<le> e div ?N" by simp
    then have "(of_nat (d div ?N + 1) :: rat) \<le> of_nat (e div ?N)" by (simp only: of_nat_le_iff)
    moreover have "?f d \<le> f64_round 1"
    proof (rule f64.rnd_mono)
      have "(of_nat (d mod ?N) :: rat) \<le> of_nat ?N" by (simp only: of_nat_le_iff) simp
      then show "(of_nat (d mod ?N) :: rat) / 10 ^ 9 \<le> 1" by simp
    qed simp
    moreover have "0 \<le> ?f e" by (simp add: f64.rnd_nonneg)
    ultimately show ?thesis by simp
  qed
  then show ?thesis
    unfolding as_secs_f64_def ints by (intro f64.rnd_mono) (simp_all add: f64.rnd_nonneg)
qed

lemma filled_tokens_mono:
  assumes "bucket_ok b" and "now \<le> later" and "later - refilled_at b < 2 ^ 53 * 10 ^ 9"
  shows "filled_tokens now b \<le> filled_tokens later b"
proof -
  have "as_secs_f64 (now - refilled_at b) \<le> as_secs_f64 (later - refilled_at b)"
    using assms(2,3) by (intro as_secs_f64_mono) simp_all
  then show ?thesis
    unfolding filled_tokens_def
    using assms(1) refill_nonneg [OF assms(1)]
    by (intro min.mono f64.rnd_mono add_left_mono mult_right_mono add_nonneg_nonneg)
      (simp_all add: bucket_ok_def rate_ok_def)
qed

subsection \<open>Properties\<close>

lemma bucket_passes_new: "rate_ok r \<Longrightarrow> bucket_passes now (bucket_new r now) = nat \<lfloor>burst r\<rfloor>"
  by (simp add: bucket_passes_def filled_tokens_def bucket_new_def burst_representable)

text \<open>a burst is worth exactly its size. Of any number of requests at one instant a fresh
  bucket grants the first \<open>burst\<close> and refuses the rest, with no error from floating point.\<close>

theorem burst_exact:
  assumes "r \<in> {COMMANDS, JOINS, LIBRARY, PHOTOS, LOOKUPS, ROOM}"
  shows "fst (takes now n (bucket_new r now)) =
    replicate (min n (nat \<lfloor>burst r\<rfloor>)) True @ replicate (n - nat \<lfloor>burst r\<rfloor>) False"
proof -
  have r: "rate_ok r" using assms rates_ok by auto
  show ?thesis
    using bucket.answers_prefix [OF bucket_new_ok [OF r], of now n now]
    by (simp add: takes_answers bucket_passes_new [OF r])
qed

theorem burst_exact_witness:
  "fst (takes 7 22 (bucket_new COMMANDS 7)) = replicate 20 True @ [False, False]"
  using burst_exact [of COMMANDS 7 22] by (simp add: COMMANDS_def numeral_2_eq_2)

text \<open>The bucket after takes at any sequence of clock readings.\<close>

primrec takes_at :: "instant list \<Rightarrow> token_bucket \<Rightarrow> token_bucket" where
  "takes_at [] b = b"
| "takes_at (now # nows) b = takes_at nows (snd (bucket_take now b))"

lemma takes_at_ok: "bucket_ok b \<Longrightarrow> bucket_ok (takes_at nows b) \<and> bucket_rate (takes_at nows b) = bucket_rate b"
  by (induction nows arbitrary: b) (simp_all add: bucket_take_ok)

text \<open>a bucket never holds a negative number of tokens or more than its burst, whatever
  the clock does and however the floating-point sums round; and a request is granted exactly when
  at least one whole token is there, waiting longer never turning a grant into a refusal.\<close>

theorem bucket_bounds:
  assumes "rate_ok r"
  shows "let b = takes_at nows (bucket_new r start) in
    0 \<le> tokens b \<and> tokens b \<le> burst r
    \<and> (fst (bucket_take now b) \<longleftrightarrow> 1 \<le> filled_tokens now b)
    \<and> (fst (bucket_take now b) \<and> now \<le> later \<and> later - refilled_at b < 2 ^ 53 * 10 ^ 9
         \<longrightarrow> fst (bucket_take later b))"
proof -
  let ?b = "takes_at nows (bucket_new r start)"
  have ok: "bucket_ok ?b" "bucket_rate ?b = r"
    using takes_at_ok [OF bucket_new_ok [OF assms], of nows start] by (simp_all add: bucket_new_def)
  then show ?thesis
    using filled_tokens_mono [OF ok(1), of now later]
    by (auto simp: Let_def bucket_take_eq) (simp_all add: bucket_ok_def)
qed

theorem bucket_bounds_witness:
  "0 \<le> tokens (takes_at [3, 2, 10 ^ 9] (bucket_new JOINS 0)) \<and> tokens (takes_at [3, 2, 10 ^ 9] (bucket_new JOINS 0)) \<le> 20"
  using bucket_bounds [of JOINS "[3, 2, 10 ^ 9]" 0 0 0] by (simp add: Let_def) (simp add: JOINS_def)

end
