(* ===== verification/Room_State.thy ===== *)
theory Room_State
  imports Harmony_Prelude
begin

text \<open>
  The Room State and what each command does to it
  (\<open>server/src/modules/listen_together/room_state.rs\<close>). The caller passes the
  server time in, so every operation is a function of the state, the command
  and the time in milliseconds. Reading \<open>self.track_ids[index]\<close> past the end
  panics in the source; here such a command gives \<open>None\<close>.
\<close>

subsection \<open>Data\<close>

definition MAX_ROOM_QUEUE_TRACKS :: nat where "MAX_ROOM_QUEUE_TRACKS = 500"

record room_state =
  revision :: int
  track_ids :: "string list"
  current_index :: "nat option"
  playing :: bool
  position_ms :: int
  position_at_ms :: int
  lyrics_open :: bool
  guest_count :: nat
  max_guests :: nat
  expires_at :: string
  invite_url :: "string option"

datatype skip_direction = Next | Previous

datatype command =
    PlayTracks "string list" nat
  | Resume
  | Pause
  | Seek int
  | Skip skip_direction "string option" "nat option"
  | SetLyricsOpen bool

subsection \<open>Operations\<close>

fun validate_command :: "command \<Rightarrow> string + unit" where
  "validate_command (PlayTracks ids i) =
     (if ids = [] then Inl ''trackIds cannot be empty''
      else if MAX_ROOM_QUEUE_TRACKS < length ids then Inl ''trackIds holds too many Tracks''
      else if length ids \<le> i then Inl ''index is outside trackIds''
      else Inr ())"
| "validate_command (Seek p) =
     (if p < 0 then Inl ''positionMs cannot be negative'' else Inr ())"
| "validate_command _ = Inr ()"

definition room_state_new :: "nat \<Rightarrow> string \<Rightarrow> int \<Rightarrow> room_state" where
  "room_state_new guests_limit expires now_ms =
     \<lparr>revision = 1, track_ids = [], current_index = None, playing = False,
      position_ms = 0, position_at_ms = now_ms, lyrics_open = False,
      guest_count = 0, max_guests = guests_limit, expires_at = expires, invite_url = None\<rparr>"

definition playhead :: "room_state \<Rightarrow> int \<Rightarrow> int" where
  "playhead s now_ms =
     (if playing s
      then let elapsed = max (saturating_sub now_ms (position_at_ms s)) 0
           in saturating_add (position_ms s) elapsed
      else position_ms s)"

definition set_position :: "int \<Rightarrow> int \<Rightarrow> room_state \<Rightarrow> room_state" where
  "set_position p now_ms s = s\<lparr>position_ms := p, position_at_ms := now_ms\<rparr>"

definition start_track :: "nat \<Rightarrow> int \<Rightarrow> room_state \<Rightarrow> room_state" where
  "start_track i now_ms s = set_position 0 now_ms (s\<lparr>current_index := Some i\<rparr>)"

text \<open>Whether a report names another Track than the current one; \<open>None\<close> is the
  out-of-range read.\<close>

definition stale_track :: "room_state \<Rightarrow> nat \<Rightarrow> string option \<Rightarrow> bool option" where
  "stale_track s i from_track_id =
     (case from_track_id of
        None \<Rightarrow> Some False
      | Some t \<Rightarrow> if i < length (track_ids s) then Some (track_ids s ! i \<noteq> t) else None)"

definition skip :: "skip_direction \<Rightarrow> string option \<Rightarrow> nat option \<Rightarrow> int \<Rightarrow> room_state
    \<Rightarrow> (bool \<times> room_state) option" where
  "skip direction from_track_id from_index now_ms s =
     (case current_index s of
        None \<Rightarrow> Some (False, s)
      | Some i \<Rightarrow>
          (case stale_track s i from_track_id of
             None \<Rightarrow> None
           | Some stale \<Rightarrow>
               if stale \<or> (case from_index of None \<Rightarrow> False | Some f \<Rightarrow> f \<noteq> i) then Some (False, s)
               else (case direction of
                   Next \<Rightarrow>
                     if i + 1 < length (track_ids s) then Some (True, start_track (i + 1) now_ms s)
                     else if playing s \<or> position_ms s \<noteq> 0
                       then Some (True, set_position 0 now_ms (s\<lparr>playing := False\<rparr>))
                       else Some (False, s)
                 | Previous \<Rightarrow> Some (True, start_track (i - 1) now_ms s))))"

text \<open>The \<open>match\<close> of \<open>apply\<close>: whether the command changed anything.\<close>

fun run_command :: "command \<Rightarrow> int \<Rightarrow> room_state \<Rightarrow> (bool \<times> room_state) option" where
  "run_command (PlayTracks ids i) now_ms s =
     Some (True, (start_track i now_ms (s\<lparr>track_ids := ids\<rparr>))\<lparr>playing := True\<rparr>)"
| "run_command Resume now_ms s =
     Some (if current_index s \<noteq> None \<and> \<not> playing s
           then (True, s\<lparr>position_at_ms := now_ms, playing := True\<rparr>) else (False, s))"
| "run_command Pause now_ms s =
     Some (if playing s
           then (True, (set_position (playhead s now_ms) now_ms s)\<lparr>playing := False\<rparr>)
           else (False, s))"
| "run_command (Seek p) now_ms s =
     Some (if current_index s \<noteq> None then (True, set_position p now_ms s) else (False, s))"
| "run_command (Skip d t f) now_ms s = skip d t f now_ms s"
| "run_command (SetLyricsOpen b) now_ms s =
     Some (if lyrics_open s \<noteq> b then (True, s\<lparr>lyrics_open := b\<rparr>) else (False, s))"

definition bump_revision :: "room_state \<Rightarrow> room_state" where
  "bump_revision s = s\<lparr>revision := wrapping_add (revision s) 1\<rparr>"

definition apply_command :: "command \<Rightarrow> int \<Rightarrow> room_state \<Rightarrow> (bool \<times> room_state) option" where
  "apply_command c now_ms s =
     (case run_command c now_ms s of
        None \<Rightarrow> None
      | Some (changed, s') \<Rightarrow> Some (changed, if changed then bump_revision s' else s'))"

definition set_guest_count :: "nat \<Rightarrow> room_state \<Rightarrow> room_state" where
  "set_guest_count n s = bump_revision (s\<lparr>guest_count := n\<rparr>)"

subsection \<open>Well-formed Rooms\<close>

text \<open>
  The current Track is in the queue, nothing plays without a current Track,
  the queue has at most 500 Tracks and the stored position is a non-negative
  \<open>i64\<close>.
\<close>

definition room_wf :: "room_state \<Rightarrow> bool" where
  "room_wf s \<longleftrightarrow>
     (case current_index s of None \<Rightarrow> \<not> playing s | Some i \<Rightarrow> i < length (track_ids s))
     \<and> length (track_ids s) \<le> MAX_ROOM_QUEUE_TRACKS
     \<and> 0 \<le> position_ms s \<and> in_i64 (position_ms s)"

text \<open>A command as the decoder delivers it: a seek position is an \<open>i64\<close>.\<close>

fun command_i64 :: "command \<Rightarrow> bool" where
  "command_i64 (Seek p) = in_i64 p"
| "command_i64 _ = True"

lemmas room_ops = set_position_def start_track_def stale_track_def bump_revision_def
  set_guest_count_def

lemma room_state_new_wf [simp, wf_intros]: "room_wf (room_state_new g e t)"
  by (simp add: room_wf_def room_state_new_def MAX_ROOM_QUEUE_TRACKS_def)

lemma room_wf_bump [simp]: "room_wf (bump_revision s) = room_wf s"
  by (simp add: room_wf_def bump_revision_def split: option.split)

lemma room_wf_set_guest_count [simp]: "room_wf (set_guest_count n s) = room_wf s"
  by (simp add: set_guest_count_def room_wf_def bump_revision_def split: option.split)

lemma playhead_nonneg: "0 \<le> position_ms s \<Longrightarrow> 0 \<le> playhead s now_ms"
  by (simp add: playhead_def Let_def saturating_add_nonneg)

lemma playhead_in_i64: "in_i64 (position_ms s) \<Longrightarrow> in_i64 (playhead s now_ms)"
  by (simp add: playhead_def Let_def)

lemma skip_no_panic: "room_wf s \<Longrightarrow> skip d t f now_ms s \<noteq> None"
  by (auto simp: skip_def room_wf_def stale_track_def split: option.splits skip_direction.splits)

lemma skip_wf: "room_wf s \<Longrightarrow> skip d t f now_ms s = Some (b, s') \<Longrightarrow> room_wf s'"
  by (auto simp: skip_def room_wf_def stale_track_def start_track_def set_position_def
      split: option.splits skip_direction.splits if_splits)

lemma run_command_no_panic: "room_wf s \<Longrightarrow> run_command c now_ms s \<noteq> None"
  by (cases c) (simp_all add: skip_no_panic)

lemma run_command_wf:
  assumes "room_wf s" and "validate_command c = Inr ()" and "command_i64 c"
    and "run_command c now_ms s = Some (b, s')"
  shows "room_wf s'"
proof (cases c)
  case (PlayTracks ids i)
  with assms show ?thesis
    by (auto simp: room_wf_def start_track_def set_position_def split: if_splits)
next
  case Pause
  with assms show ?thesis
    by (auto simp: room_wf_def set_position_def playhead_nonneg playhead_in_i64
        split: if_splits option.splits)
next
  case (Skip d t f)
  with assms show ?thesis by (auto intro: skip_wf)
qed (use assms in \<open>auto simp: room_wf_def set_position_def split: if_splits option.splits\<close>)

lemma apply_command_no_panic: "room_wf s \<Longrightarrow> apply_command c now_ms s \<noteq> None"
  using run_command_no_panic [of s c now_ms] by (auto simp: apply_command_def)

lemma apply_command_wf [wf_intros]:
  "\<lbrakk>room_wf s; validate_command c = Inr (); command_i64 c; apply_command c now_ms s = Some (b, s')\<rbrakk>
   \<Longrightarrow> room_wf s'"
  by (auto simp: apply_command_def run_command_wf split: option.splits prod.splits if_splits)

subsection \<open>What the commands leave alone\<close>

lemma run_command_unchanged: "run_command c now_ms s = Some (False, s') \<Longrightarrow> s' = s"
  by (cases c) (auto simp: skip_def split: option.splits skip_direction.splits if_splits)

lemma run_command_frame:
  assumes "run_command c now_ms s = Some (b, s')"
  shows "guest_count s' = guest_count s" "max_guests s' = max_guests s"
    "expires_at s' = expires_at s" "invite_url s' = invite_url s" "revision s' = revision s"
  using assms
  by (cases c; auto simp: skip_def room_ops split: option.splits skip_direction.splits if_splits)+

lemma apply_command_frame:
  assumes "apply_command c now_ms s = Some (b, s')"
  shows "guest_count s' = guest_count s" "max_guests s' = max_guests s"
    "expires_at s' = expires_at s" "invite_url s' = invite_url s"
  using assms
  by (auto simp: apply_command_def bump_revision_def dest: run_command_frame
      split: option.splits prod.splits if_splits)

lemma apply_command_unchanged: "apply_command c now_ms s = Some (False, s') \<Longrightarrow> s' = s"
  by (auto simp: apply_command_def dest: run_command_unchanged split: option.splits prod.splits if_splits)

lemma apply_command_revision:
  assumes "apply_command c now_ms s = Some (True, s')"
  shows "revision s' = wrapping_add (revision s) 1"
  using assms
  by (auto simp: apply_command_def bump_revision_def dest: run_command_frame
      split: option.splits prod.splits if_splits)

subsection \<open>The playhead\<close>

lemma playhead_bump [simp]: "playhead (bump_revision s) t = playhead s t"
  by (simp add: playhead_def bump_revision_def)

lemma playhead_mono: "t \<le> t' \<Longrightarrow> playhead s t \<le> playhead s t'"
  by (auto simp: playhead_def Let_def intro!: saturating_add_mono max.mono saturating_sub_mono)

lemma playhead_running:
  assumes "playing s" and "position_at_ms s \<le> t" and "in_i64 (t - position_at_ms s)"
    and "in_i64 (position_ms s + (t - position_at_ms s))"
  shows "playhead s t = position_ms s + (t - position_at_ms s)"
  using assms by (simp add: playhead_def Let_def i64_defs)

text \<open>The commands that neither move to another Track nor seek.\<close>

fun keeps_playhead :: "command \<Rightarrow> bool" where
  "keeps_playhead Resume = True"
| "keeps_playhead Pause = True"
| "keeps_playhead (SetLyricsOpen b) = True"
| "keeps_playhead _ = False"

lemma run_command_playhead:
  assumes "room_wf s" and "keeps_playhead c" and "run_command c t s = Some (b, s')"
  shows "playhead s' t = playhead s t"
  using assms
  by (cases c) (auto simp: playhead_def set_position_def room_wf_def split: if_splits)

lemma skip_report_once:
  assumes "room_wf s" and "skip d t (Some f) now_ms s = Some (True, s')" and "d = Next"
  shows "skip d t (Some f) later s' = Some (False, s')"
  using assms
  by (auto simp: skip_def room_wf_def stale_track_def start_track_def set_position_def
      split: option.splits if_splits)

lemma skip_current_index:
  assumes "skip d t f now_ms s = Some (True, s')" and "current_index s = Some i"
  shows "current_index s' =
    Some (case d of Next \<Rightarrow> min (i + 1) (max i (length (track_ids s) - 1)) | Previous \<Rightarrow> i - 1)"
  using assms
  by (auto simp: skip_def start_track_def set_position_def
      split: option.splits skip_direction.splits if_splits)

subsection \<open>Properties\<close>

text \<open>C40: a validated command never panics and keeps the Room well formed. It answers whether
  it changed anything: if not, the state is the same in every field; if it did, the revision is
  one more and the Guest numbers, the expiry and the Invite Link are untouched.\<close>

theorem apply_command_sound:
  assumes "room_wf s" and "validate_command c = Inr ()" and "command_i64 c"
  shows "\<exists>changed s'. apply_command c now_ms s = Some (changed, s') \<and> room_wf s'
    \<and> (\<not> changed \<longrightarrow> s' = s)
    \<and> (changed \<longrightarrow> revision s' = wrapping_add (revision s) 1)
    \<and> guest_count s' = guest_count s \<and> max_guests s' = max_guests s
    \<and> expires_at s' = expires_at s \<and> invite_url s' = invite_url s"
proof -
  obtain b s' where ap: "apply_command c now_ms s = Some (b, s')"
    using apply_command_no_panic [OF assms(1), of c now_ms] by auto
  show ?thesis
    using ap apply_command_wf [OF assms ap] apply_command_frame [OF ap]
      apply_command_unchanged [of c now_ms s s'] apply_command_revision [of c now_ms s s'] by auto
qed

theorem apply_command_sound_witness:
  "\<exists>s'. apply_command (PlayTracks [''a''] 0) 5 (room_state_new 3 [] 0) = Some (True, s') \<and> room_wf s'"
  using apply_command_sound [OF room_state_new_wf, of "PlayTracks [''a''] 0" 5 3 "[]" 0]
  by (auto simp: MAX_ROOM_QUEUE_TRACKS_def apply_command_def)

text \<open>the playhead does not jump. Resuming, pausing and opening the lyrics leave the
  listening position where it was at that moment, and while a Room plays its position advances by
  exactly the time that passes (short of the ends of \<open>i64\<close>), and never goes back.\<close>

theorem playhead_continuous:
  assumes "room_wf s" and "keeps_playhead c" and "apply_command c t s = Some (b, s')"
  shows "playhead s' t = playhead s t
    \<and> (\<forall>t' \<ge> t. playhead s t \<le> playhead s t')
    \<and> (playing s \<and> position_at_ms s \<le> t \<and> in_i64 (t - position_at_ms s)
         \<and> in_i64 (position_ms s + (t - position_at_ms s))
       \<longrightarrow> playhead s t = position_ms s + (t - position_at_ms s))"
proof -
  from assms(3) obtain s1 where s1: "run_command c t s = Some (b, s1)" "playhead s' t = playhead s1 t"
    by (auto simp: apply_command_def split: option.splits prod.splits if_splits)
  then show ?thesis
    using run_command_playhead [OF assms(1,2) s1(1)] playhead_mono playhead_running by auto
qed

theorem playhead_continuous_witness:
  "\<exists>s'. apply_command Pause 1500 ((room_state_new 3 [] 0)\<lparr>track_ids := [''a''], current_index := Some 0,
       playing := True, position_ms := 100, position_at_ms := 500\<rparr>) = Some (True, s') \<and> playhead s' 1500 = 1100"
proof -
  let ?s = "(room_state_new 3 [] 0)\<lparr>track_ids := [''a''], current_index := Some 0,
       playing := True, position_ms := 100, position_at_ms := 500\<rparr>"
  have wf: "room_wf ?s" by (simp add: room_wf_def room_state_new_def MAX_ROOM_QUEUE_TRACKS_def i64_defs)
  obtain s' where s': "apply_command Pause 1500 ?s = Some (True, s')" by (simp add: apply_command_def)
  from playhead_continuous [OF wf _ s'] have "playhead s' 1500 = 1100"
    by (simp add: room_state_new_def i64_defs)
  with s' show ?thesis by blast
qed

text \<open>one end of a Track moves the Room once. However many clients report that the
  Track at an index has ended, the first report moves on and the repeated ones change nothing; a
  report that counts names the current index.\<close>

theorem skip_counts_once:
  assumes "room_wf s" and "skip Next t (Some f) now_ms s = Some (True, s')"
  shows "skip Next t (Some f) later s' = Some (False, s')
    \<and> current_index s = Some f
    \<and> current_index s' = Some (min (f + 1) (length (track_ids s) - 1))
    \<and> (f + 1 < length (track_ids s) \<longrightarrow> playing s' = playing s)
    \<and> (f + 1 = length (track_ids s) \<longrightarrow> \<not> playing s')
    \<and> position_ms s' = 0"
  using skip_report_once [OF assms refl, of later] assms
  by (auto simp: skip_def room_wf_def stale_track_def start_track_def set_position_def
      split: option.splits if_splits)

theorem skip_counts_once_witness:
  "skip Next (Some ''a'') (Some 0) 9 ((room_state_new 3 [] 0)\<lparr>track_ids := [''a'', ''a''],
     current_index := Some 1, position_at_ms := 7\<rparr>) =
   Some (False, (room_state_new 3 [] 0)\<lparr>track_ids := [''a'', ''a''], current_index := Some 1, position_at_ms := 7\<rparr>)"
  using skip_counts_once [of "(room_state_new 3 [] 0)\<lparr>track_ids := [''a'', ''a''], current_index := Some 0\<rparr>"
      "Some ''a''" 0 7 "(room_state_new 3 [] 0)\<lparr>track_ids := [''a'', ''a''], current_index := Some 1,
        position_at_ms := 7\<rparr>" 9]
  by (simp add: room_wf_def room_state_new_def MAX_ROOM_QUEUE_TRACKS_def i64_defs skip_def room_ops)

end
