(* ===== verification/Room_Service.thy ===== *)
theory Room_Service
  imports Guest_Limits Room_State "HOL-Library.Finite_Map"
begin

text \<open>
  The Room of Listen Together
  (\<open>server/src/modules/listen_together/service.rs\<close>): who is in it, what it plays
  and when it ends.

  Everything lives behind one lock that is never held across an await, so each
  critical section is one atomic function from a service to a result and the
  next service, with the clock reading of that section as an argument. The
  watch and oneshot channels the code hands out are cells of the record
  \<open>shared\<close>: \<open>feeds\<close> holds the latest value of each Room's event channel,
  \<open>revocations\<close> says whether waiting on a Guest's revocation has finished
  (the value turned true or its sender was dropped), \<open>stops\<close> whether an audio
  stream's sender was dropped. Random tokens and the formatted expiry time are
  arguments. HMAC-SHA-256 and the session hash are the parameters \<open>mac\<close> and
  \<open>skey\<close>; the library's lookup is the parameter \<open>lib\<close>.
\<close>

subsection \<open>Data\<close>

type_synonym channel = nat

record timings =
  room_lifetime :: duration
  guest_grace :: duration
  sweep_interval :: duration

definition DEFAULT_LISTEN_TOGETHER_ROOM_HOURS :: nat where
  "DEFAULT_LISTEN_TOGETHER_ROOM_HOURS = 24"

definition seconds :: "nat \<Rightarrow> duration" where
  "seconds n = n * 10 ^ 9"

definition lifetime_of_hours :: "nat \<Rightarrow> duration" where
  "lifetime_of_hours hours = seconds (hours * 60 * 60)"

definition timings_default :: timings where
  "timings_default =
     \<lparr>room_lifetime = lifetime_of_hours DEFAULT_LISTEN_TOGETHER_ROOM_HOURS,
      guest_grace = seconds 60, sweep_interval = seconds 1\<rparr>"

definition timings_for_config :: "nat \<Rightarrow> timings" where
  "timings_for_config room_hours = timings_default\<lparr>room_lifetime := lifetime_of_hours room_hours\<rparr>"

text \<open>\<open>ThreadPanic\<close> is not an error value of the source: it stands for a thread that
  panicked inside its critical section.\<close>

datatype room_error =
    Disabled | AlreadyOpen | NotFound | InviteInvalid | Full | SessionEnded | RateLimited
  | BadCommand string | UnknownTrack | LibraryFailed string | ThreadPanic

datatype feed = FeedState room_state | FeedClosed

record guest_session =
  session_id :: string
  session_revoked :: channel

datatype client = Owner | Guest guest_session

record joined =
  session_token :: string
  joined_state :: room_state

record audio_stream =
  stream_id :: nat
  stream_target :: string

record guest =
  open_streams :: nat
  disconnected_at :: instant
  commands :: token_bucket
  reads :: read_budgets
  audio_streams :: "audio_stream list"
  revoked :: channel

record room =
  generation :: nat
  snapshot :: room_state
  closes_at :: instant
  room_invite_url :: string
  invite_key :: string
  invite_tag :: string
  guests :: "(string, guest) fmap"
  owner_commands :: token_bucket

record shared =
  feeds :: "nat \<Rightarrow> feed"
  revocations :: "channel \<Rightarrow> bool"
  stops :: "nat \<Rightarrow> bool"
  next_channel :: channel
  next_audio_stream :: nat

record service =
  public_origin :: "string option"
  config_max_guests :: nat
  service_timings :: timings
  next_generation :: nat
  joins :: token_bucket
  open_room :: "room option"
  cells :: shared

record subscription =
  sub_generation :: nat
  sub_invite_url :: "string option"
  sub_presence :: "(nat \<times> string) option"

record audio_slot =
  slot_generation :: nat
  slot_key :: string
  slot_id :: nat

subsection \<open>The Room\<close>

definition publish :: "room \<Rightarrow> shared \<Rightarrow> shared" where
  "publish r sh = sh\<lparr>feeds := (feeds sh)(generation r := FeedState (snapshot r))\<rparr>"

definition owner_view :: "room \<Rightarrow> room_state" where
  "owner_view r = (snapshot r)\<lparr>invite_url := Some (room_invite_url r)\<rparr>"

fun view :: "room \<Rightarrow> client \<Rightarrow> room_state" where
  "view r Owner = owner_view r"
| "view r (Guest _) = snapshot r"

fun require :: "room \<Rightarrow> client \<Rightarrow> room_error + unit" where
  "require r (Guest s) = (if session_id s |\<in>| fmdom (guests r) then Inr () else Inl SessionEnded)"
| "require r Owner = Inr ()"

definition set_guest :: "string \<Rightarrow> guest \<Rightarrow> room \<Rightarrow> room" where
  "set_guest k g r = r\<lparr>guests := fmupd k g (guests r)\<rparr>"

fun take_command :: "client \<Rightarrow> instant \<Rightarrow> room \<Rightarrow> (room_error + unit) \<times> room" where
  "take_command Owner now r =
     (let (ok, b) = bucket_take now (owner_commands r)
      in (if ok then Inr () else Inl RateLimited, r\<lparr>owner_commands := b\<rparr>))"
| "take_command (Guest s) now r =
     (case fmlookup (guests r) (session_id s) of
        None \<Rightarrow> (Inl SessionEnded, r)
      | Some g \<Rightarrow>
          let (ok, b) = bucket_take now (commands g)
          in (if ok then Inr () else Inl RateLimited, set_guest (session_id s) (g\<lparr>commands := b\<rparr>) r))"

definition invite_matches :: "(string \<Rightarrow> string \<Rightarrow> string) \<Rightarrow> room \<Rightarrow> string \<Rightarrow> bool" where
  "invite_matches mac r token \<longleftrightarrow> mac (invite_key r) token = invite_tag r"

text \<open>Ending Guests: their revocation fires and their audio streams' senders drop.\<close>

definition drop_guests :: "(string, guest) fmap \<Rightarrow> shared \<Rightarrow> shared" where
  "drop_guests m sh = sh\<lparr>
     revocations := (\<lambda>c. revocations sh c \<or> fBex (fmran m) (\<lambda>g. revoked g = c)),
     stops := (\<lambda>i. stops sh i \<or> fBex (fmran m) (\<lambda>g. i \<in> stream_id ` set (audio_streams g)))\<rparr>"

definition drop_streams :: "audio_stream list \<Rightarrow> shared \<Rightarrow> shared" where
  "drop_streams as sh = sh\<lparr>stops := (\<lambda>i. stops sh i \<or> i \<in> stream_id ` set as)\<rparr>"

definition room_close :: "room \<Rightarrow> shared \<Rightarrow> shared" where
  "room_close r sh = drop_guests (guests r) (sh\<lparr>feeds := (feeds sh)(generation r := FeedClosed)\<rparr>)"

subsection \<open>The service\<close>

definition shared_new :: shared where
  "shared_new = \<lparr>feeds = (\<lambda>_. FeedClosed), revocations = (\<lambda>_. False), stops = (\<lambda>_. False),
     next_channel = 0, next_audio_stream = 1\<rparr>"

definition service_new :: "string option \<Rightarrow> nat \<Rightarrow> timings \<Rightarrow> instant \<Rightarrow> service" where
  "service_new origin guests_limit t now =
     \<lparr>public_origin = origin, config_max_guests = guests_limit, service_timings = t,
      next_generation = 1, joins = bucket_new JOINS now, open_room = None, cells = shared_new\<rparr>"

definition lock :: "instant \<Rightarrow> service \<Rightarrow> service" where
  "lock now s =
     (case open_room s of
        Some r \<Rightarrow> if closes_at r \<le> now then s\<lparr>open_room := None, cells := room_close r (cells s)\<rparr> else s
      | None \<Rightarrow> s)"

definition open_op :: "(string \<Rightarrow> string \<Rightarrow> string) \<Rightarrow> string \<Rightarrow> string \<Rightarrow> string \<Rightarrow> instant \<Rightarrow> int
    \<Rightarrow> service \<Rightarrow> (room_error + room_state) \<times> service" where
  "open_op mac token key expires now now_ms s =
     (case public_origin s of
        None \<Rightarrow> (Inl Disabled, s)
      | Some origin \<Rightarrow>
          let s1 = lock now s in
          (case open_room s1 of
             Some _ \<Rightarrow> (Inl AlreadyOpen, s1)
           | None \<Rightarrow>
               let st = room_state_new (config_max_guests s1) expires now_ms;
                   r = \<lparr>generation = next_generation s1, snapshot = st,
                        closes_at = now + room_lifetime (service_timings s1),
                        room_invite_url = origin @ ''/join#'' @ token,
                        invite_key = key, invite_tag = mac key token, guests = fmempty,
                        owner_commands = bucket_new COMMANDS now\<rparr>
               in (Inr (owner_view r),
                   s1\<lparr>next_generation := next_generation s1 + 1, open_room := Some r,
                      cells := publish r (cells s1)\<rparr>)))"

definition close_op :: "instant \<Rightarrow> service \<Rightarrow> (room_error + unit) \<times> service" where
  "close_op now s =
     (let s1 = lock now s in
      case open_room s1 of
        None \<Rightarrow> (Inl NotFound, s1)
      | Some r \<Rightarrow> (Inr (), s1\<lparr>open_room := None, cells := room_close r (cells s1)\<rparr>))"

type_synonym 'a action = "room \<Rightarrow> shared \<Rightarrow> (room_error + 'a) \<times> room \<times> shared"

definition with_room :: "instant \<Rightarrow> 'a action \<Rightarrow> service \<Rightarrow> (room_error + 'a) \<times> service" where
  "with_room now action s =
     (let s1 = lock now s in
      case open_room s1 of
        None \<Rightarrow> (Inl NotFound, s1)
      | Some r \<Rightarrow>
          let (res, r', sh') = action r (cells s1)
          in (res, s1\<lparr>open_room := Some r', cells := sh'\<rparr>))"

definition view_action :: "client \<Rightarrow> room_state action" where
  "view_action c r sh = (and_then (require r c) (\<lambda>_. Inr (view r c)), r, sh)"

definition room_op :: "client \<Rightarrow> instant \<Rightarrow> service \<Rightarrow> (room_error + room_state) \<times> service" where
  "room_op c now = with_room now (view_action c)"

definition take_join :: "instant \<Rightarrow> service \<Rightarrow> (room_error + unit) \<times> service" where
  "take_join now s =
     (let (ok, b) = bucket_take now (joins s)
      in (if ok then Inr () else Inl RateLimited, s\<lparr>joins := b\<rparr>))"

definition read_action :: "guest_session \<Rightarrow> budget \<Rightarrow> instant \<Rightarrow> unit action" where
  "read_action ses k now r sh =
     (case fmlookup (guests r) (session_id ses) of
        None \<Rightarrow> (Inl SessionEnded, r, sh)
      | Some g \<Rightarrow>
          let (ok, b) = budgets_take k now (reads g)
          in (if ok then Inr () else Inl RateLimited, set_guest (session_id ses) (g\<lparr>reads := b\<rparr>) r, sh))"

definition take_read :: "guest_session \<Rightarrow> budget \<Rightarrow> instant \<Rightarrow> service \<Rightarrow> (room_error + unit) \<times> service" where
  "take_read ses k now = with_room now (read_action ses k now)"

text \<open>\<open>position\<close> and \<open>remove\<close>: the first stream of the target, and the streams without it.\<close>

fun remove_target :: "string \<Rightarrow> audio_stream list \<Rightarrow> (audio_stream \<times> audio_stream list) option" where
  "remove_target t [] = None"
| "remove_target t (a # as) =
     (if stream_target a = t then Some (a, as)
      else (case remove_target t as of None \<Rightarrow> None | Some (x, rest) \<Rightarrow> Some (x, a # rest)))"

definition push_stream :: "string \<Rightarrow> string \<Rightarrow> guest \<Rightarrow> audio_slot action" where
  "push_stream k t g r sh =
     (let i = next_audio_stream sh;
          g' = g\<lparr>audio_streams := audio_streams g @ [\<lparr>stream_id = i, stream_target = t\<rparr>]\<rparr>
      in (Inr \<lparr>slot_generation = generation r, slot_key = k, slot_id = i\<rparr>,
          set_guest k g' r, sh\<lparr>next_audio_stream := i + 1\<rparr>))"

definition audio_action :: "guest_session \<Rightarrow> string \<Rightarrow> audio_slot action" where
  "audio_action ses t r sh =
     (case fmlookup (guests r) (session_id ses) of
        None \<Rightarrow> (Inl SessionEnded, r, sh)
      | Some g \<Rightarrow>
          if MAX_AUDIO_STREAMS \<le> length (audio_streams g)
          then (case remove_target t (audio_streams g) of
                  None \<Rightarrow> (Inl RateLimited, r, sh)
                | Some (a, rest) \<Rightarrow>
                    push_stream (session_id ses) t (g\<lparr>audio_streams := rest\<rparr>) r (drop_streams [a] sh))
          else push_stream (session_id ses) t g r sh)"

definition open_audio_stream :: "guest_session \<Rightarrow> string \<Rightarrow> instant \<Rightarrow> service
    \<Rightarrow> (room_error + audio_slot) \<times> service" where
  "open_audio_stream ses t now = with_room now (audio_action ses t)"

text \<open>The open Room of a generation, when it is still that one and the Guest is in it.\<close>

definition live_guest :: "nat \<Rightarrow> string \<Rightarrow> service \<Rightarrow> (room \<times> guest) option" where
  "live_guest gen k s =
     (case open_room s of
        Some r \<Rightarrow> if generation r = gen then map_option (Pair r) (fmlookup (guests r) k) else None
      | None \<Rightarrow> None)"

definition audio_stream_ended :: "audio_slot \<Rightarrow> instant \<Rightarrow> service \<Rightarrow> service" where
  "audio_stream_ended slot now s =
     (let s1 = lock now s in
      case live_guest (slot_generation slot) (slot_key slot) s1 of
        None \<Rightarrow> s1
      | Some (r, g) \<Rightarrow>
          let gone = filter (\<lambda>a. stream_id a = slot_id slot) (audio_streams g);
              kept = filter (\<lambda>a. stream_id a \<noteq> slot_id slot) (audio_streams g)
          in s1\<lparr>open_room := Some (set_guest (slot_key slot) (g\<lparr>audio_streams := kept\<rparr>) r),
                cells := drop_streams gone (cells s1)\<rparr>)"

definition new_guest :: "instant \<Rightarrow> channel \<Rightarrow> guest" where
  "new_guest now c =
     \<lparr>open_streams = 0, disconnected_at = now, commands = bucket_new COMMANDS now,
      reads = budgets_new now, audio_streams = [], revoked = c\<rparr>"

text \<open>Inserting a Guest under a key that is taken drops the Guest that held it.\<close>

definition admit_guest :: "string \<Rightarrow> instant \<Rightarrow> room \<Rightarrow> shared \<Rightarrow> room \<times> shared" where
  "admit_guest k now r sh =
     (let c = next_channel sh;
          r1 = set_guest k (new_guest now c) r;
          r2 = r1\<lparr>snapshot := set_guest_count (fcard (fmdom (guests r1))) (snapshot r1)\<rparr>
      in (r2, publish r2 (drop_guests (fmrestrict_fset {|k|} (guests r)) (sh\<lparr>next_channel := c + 1\<rparr>))))"

text \<open>The session a browser already holds, when it is live in this Room.\<close>

definition live_session :: "(string \<Rightarrow> string) \<Rightarrow> string option \<Rightarrow> room \<Rightarrow> string option" where
  "live_session skey current r =
     (case current of
        Some c \<Rightarrow> if skey c |\<in>| fmdom (guests r) then Some c else None
      | None \<Rightarrow> None)"

definition join_action :: "(string \<Rightarrow> string \<Rightarrow> string) \<Rightarrow> (string \<Rightarrow> string) \<Rightarrow> string
    \<Rightarrow> string option \<Rightarrow> string \<Rightarrow> instant \<Rightarrow> joined action" where
  "join_action mac skey token current fresh now r sh =
     (if \<not> invite_matches mac r token then (Inl InviteInvalid, r, sh)
      else (case live_session skey current r of
        Some c \<Rightarrow> (Inr \<lparr>session_token = c, joined_state = snapshot r\<rparr>, r, sh)
      | None \<Rightarrow>
          if max_guests (snapshot r) \<le> fcard (fmdom (guests r)) then (Inl Full, r, sh)
          else let (r', sh') = admit_guest (skey fresh) now r sh
               in (Inr \<lparr>session_token = fresh, joined_state = snapshot r'\<rparr>, r', sh')))"

definition join :: "(string \<Rightarrow> string \<Rightarrow> string) \<Rightarrow> (string \<Rightarrow> string) \<Rightarrow> string
    \<Rightarrow> string option \<Rightarrow> string \<Rightarrow> instant \<Rightarrow> service \<Rightarrow> (room_error + joined) \<times> service" where
  "join mac skey token current fresh now s =
     (let (res, s') = with_room now (join_action mac skey token current fresh now) s
      in (map_err (\<lambda>e. if e = NotFound then InviteInvalid else e) res, s'))"

definition authenticate :: "(string \<Rightarrow> string) \<Rightarrow> string \<Rightarrow> instant \<Rightarrow> service
    \<Rightarrow> guest_session option \<times> service" where
  "authenticate skey token now s =
     (let s1 = lock now s; k = skey token in
      (case open_room s1 of
         None \<Rightarrow> None
       | Some r \<Rightarrow> map_option (\<lambda>g. \<lparr>session_id = k, session_revoked = revoked g\<rparr>) (fmlookup (guests r) k),
       s1))"

definition leave_action :: "guest_session \<Rightarrow> unit action" where
  "leave_action ses r sh =
     (case fmlookup (guests r) (session_id ses) of
        None \<Rightarrow> (Inl SessionEnded, r, sh)
      | Some g \<Rightarrow>
          let r1 = r\<lparr>guests := fmdrop (session_id ses) (guests r)\<rparr>;
              r2 = r1\<lparr>snapshot := set_guest_count (fcard (fmdom (guests r1))) (snapshot r1)\<rparr>
          in (Inr (), r2, publish r2 (drop_guests (fmrestrict_fset {|session_id ses|} (guests r)) sh)))"

definition leave :: "guest_session \<Rightarrow> instant \<Rightarrow> service \<Rightarrow> (room_error + unit) \<times> service" where
  "leave ses now = with_room now (leave_action ses)"

text \<open>
  A command has two critical sections: the rate limit first, then, after the
  command was validated and its Tracks were looked up without the lock, the
  change itself.
\<close>

definition admit_action :: "client \<Rightarrow> instant \<Rightarrow> unit action" where
  "admit_action c now r sh = (let (res, r') = take_command c now r in (res, r', sh))"

definition finish_action :: "client \<Rightarrow> command \<Rightarrow> int \<Rightarrow> room_state action" where
  "finish_action c cmd now_ms r sh =
     (case require r c of
        Inl e \<Rightarrow> (Inl e, r, sh)
      | Inr _ \<Rightarrow>
          (case apply_command cmd now_ms (snapshot r) of
             None \<Rightarrow> (Inl ThreadPanic, r, sh)
           | Some (changed, st) \<Rightarrow>
               let r' = r\<lparr>snapshot := st\<rparr>
               in (Inr (view r' c), r', if changed then publish r' sh else sh)))"

datatype track_lookup = TrackFound | TrackMissing | TrackFailed string

text \<open>The loop over the set of ids, in the order the set yields them.\<close>

fun require_tracks :: "(string \<Rightarrow> track_lookup) \<Rightarrow> string list \<Rightarrow> room_error + unit" where
  "require_tracks lib [] = Inr ()"
| "require_tracks lib (t # ts) =
     (case lib t of
        TrackFound \<Rightarrow> require_tracks lib ts
      | TrackMissing \<Rightarrow> Inl UnknownTrack
      | TrackFailed e \<Rightarrow> Inl (LibraryFailed e))"

text \<open>
  \<open>others\<close> is what other requests do to the service while the library is read,
  \<open>order\<close> the iteration order of the hash set of Track ids.
\<close>

definition command :: "(string \<Rightarrow> track_lookup) \<Rightarrow> (string list \<Rightarrow> string list)
    \<Rightarrow> (service \<Rightarrow> service) \<Rightarrow> client \<Rightarrow> command \<Rightarrow> instant \<Rightarrow> instant \<Rightarrow> int \<Rightarrow> service
    \<Rightarrow> (room_error + room_state) \<times> service" where
  "command lib order others c cmd now later now_ms s =
     (let (admitted, s1) = with_room now (admit_action c now) s in
      case admitted of
        Inl e \<Rightarrow> (Inl e, s1)
      | Inr _ \<Rightarrow>
          (case validate_command cmd of
             Inl m \<Rightarrow> (Inl (BadCommand m), s1)
           | Inr _ \<Rightarrow>
               let (known, s2) = (case cmd of
                     PlayTracks ids i \<Rightarrow> (require_tracks lib (order ids), others s1)
                   | _ \<Rightarrow> (Inr (), s1))
               in (case known of
                     Inl e \<Rightarrow> (Inl e, s2)
                   | Inr _ \<Rightarrow> with_room later (finish_action c cmd now_ms) s2)))"

fun subscribe_action :: "client \<Rightarrow> subscription action" where
  "subscribe_action Owner r sh =
     (Inr \<lparr>sub_generation = generation r, sub_invite_url = Some (room_invite_url r), sub_presence = None\<rparr>,
      r, sh)"
| "subscribe_action (Guest ses) r sh =
     (case fmlookup (guests r) (session_id ses) of
        None \<Rightarrow> (Inl SessionEnded, r, sh)
      | Some g \<Rightarrow>
          (Inr \<lparr>sub_generation = generation r, sub_invite_url = None,
                sub_presence = Some (generation r, session_id ses)\<rparr>,
           set_guest (session_id ses) (g\<lparr>open_streams := open_streams g + 1\<rparr>) r, sh))"

definition subscribe :: "client \<Rightarrow> instant \<Rightarrow> service \<Rightarrow> (room_error + subscription) \<times> service" where
  "subscribe c now = with_room now (subscribe_action c)"

text \<open>What a dropped \<open>Presence\<close> calls.\<close>

definition stream_ended :: "nat \<Rightarrow> string \<Rightarrow> instant \<Rightarrow> service \<Rightarrow> service" where
  "stream_ended gen k now s =
     (let s1 = lock now s in
      case live_guest gen k s1 of
        None \<Rightarrow> s1
      | Some (r, g) \<Rightarrow>
          let n = open_streams g - 1;
              g' = (if n = 0 then g\<lparr>open_streams := n, disconnected_at := now\<rparr> else g\<lparr>open_streams := n\<rparr>)
          in s1\<lparr>open_room := Some (set_guest k g' r)\<rparr>)"

definition guest_stays :: "duration \<Rightarrow> instant \<Rightarrow> guest \<Rightarrow> bool" where
  "guest_stays grace now g \<longleftrightarrow> 0 < open_streams g \<or> now - disconnected_at g < grace"

definition staying :: "duration \<Rightarrow> instant \<Rightarrow> (string, guest) fmap \<Rightarrow> string \<Rightarrow> bool" where
  "staying grace now m k = (case fmlookup m k of Some g \<Rightarrow> guest_stays grace now g | None \<Rightarrow> False)"

definition sweep_room :: "duration \<Rightarrow> instant \<Rightarrow> room \<Rightarrow> shared \<Rightarrow> room \<times> shared" where
  "sweep_room grace now r sh =
     (let kept = fmfilter (staying grace now (guests r)) (guests r);
          gone = fmfilter (\<lambda>k. \<not> staying grace now (guests r) k) (guests r);
          r1 = r\<lparr>guests := kept\<rparr>;
          sh1 = drop_guests gone sh
      in if fcard (fmdom kept) \<noteq> fcard (fmdom (guests r))
         then let r2 = r1\<lparr>snapshot := set_guest_count (fcard (fmdom kept)) (snapshot r1)\<rparr>
              in (r2, publish r2 sh1)
         else (r1, sh1))"

definition sweep :: "nat \<Rightarrow> instant \<Rightarrow> service \<Rightarrow> bool \<times> service" where
  "sweep gen now s =
     (let s1 = lock now s in
      case open_room s1 of
        Some r \<Rightarrow>
          if generation r = gen
          then let (r', sh') = sweep_room (guest_grace (service_timings s1)) now r (cells s1)
               in (True, s1\<lparr>open_room := Some r', cells := sh'\<rparr>)
          else (False, s1)
      | None \<Rightarrow> (False, s1))"

end
