(* ===== verification/Room_Invariant.thy ===== *)
theory Room_Invariant
  imports Room_Service
begin

text \<open>
  The invariant of the Room service, that every critical section keeps it, and
  the states any interleaving of requests can reach.

  The contract of a critical section is the locale \<open>room_action\<close>; it is
  interpreted on the action of every operation.
\<close>

subsection \<open>The invariant\<close>

abbreviation stream_ids :: "guest \<Rightarrow> nat set" where
  "stream_ids g \<equiv> stream_id ` set (audio_streams g)"

definition guest_ok :: "guest \<Rightarrow> bool" where
  "guest_ok g \<longleftrightarrow> bucket_ok (commands g) \<and> budgets_ok (reads g)
     \<and> length (audio_streams g) \<le> MAX_AUDIO_STREAMS \<and> distinct (map stream_id (audio_streams g))"

text \<open>
  The Guests and the cells agree: the cells that have not fired are exactly the
  live Guests' revocations and the stops of their streams, and no two Guests
  share one.
\<close>

definition owned :: "('k \<Rightarrow> nat set) \<Rightarrow> nat set \<Rightarrow> bool" where
  "owned v L \<longleftrightarrow> (\<forall>k k'. k \<noteq> k' \<longrightarrow> v k \<inter> v k' = {}) \<and> (\<Union>k. v k) = L"

definition channels_of :: "(string, guest) fmap \<Rightarrow> string \<Rightarrow> channel set" where
  "channels_of m k = (case fmlookup m k of Some g \<Rightarrow> {revoked g} | None \<Rightarrow> {})"

definition streams_of :: "(string, guest) fmap \<Rightarrow> string \<Rightarrow> nat set" where
  "streams_of m k = (case fmlookup m k of Some g \<Rightarrow> stream_ids g | None \<Rightarrow> {})"

definition live_channels :: "shared \<Rightarrow> channel set" where
  "live_channels sh = {c. c < next_channel sh \<and> \<not> revocations sh c}"

definition live_streams :: "shared \<Rightarrow> nat set" where
  "live_streams sh = {i. 0 < i \<and> i < next_audio_stream sh \<and> \<not> stops sh i}"

text \<open>Cells not handed out yet have not fired.\<close>

definition fresh_cells :: "shared \<Rightarrow> bool" where
  "fresh_cells sh \<longleftrightarrow> 0 < next_audio_stream sh \<and> (\<forall>c \<ge> next_channel sh. \<not> revocations sh c)
     \<and> (\<forall>i \<ge> next_audio_stream sh. \<not> stops sh i)"

definition guests_inv :: "(string, guest) fmap \<Rightarrow> shared \<Rightarrow> bool" where
  "guests_inv m sh \<longleftrightarrow> (\<forall>k g. fmlookup m k = Some g \<longrightarrow> guest_ok g)
     \<and> owned (channels_of m) (live_channels sh) \<and> owned (streams_of m) (live_streams sh)
     \<and> fresh_cells sh"

definition room_inv :: "room \<Rightarrow> shared \<Rightarrow> bool" where
  "room_inv r sh \<longleftrightarrow>
     room_wf (snapshot r) \<and> invite_url (snapshot r) = None
   \<and> guest_count (snapshot r) = fcard (fmdom (guests r))
   \<and> fcard (fmdom (guests r)) \<le> max_guests (snapshot r)
   \<and> feeds sh (generation r) = FeedState (snapshot r)
   \<and> bucket_ok (owner_commands r)
   \<and> guests_inv (guests r) sh"

definition service_inv :: "service \<Rightarrow> bool" where
  "service_inv s \<longleftrightarrow> bucket_ok (joins s) \<and>
     (case open_room s of
        None \<Rightarrow> guests_inv fmempty (cells s) \<and> (\<forall>g. feeds (cells s) g = FeedClosed)
      | Some r \<Rightarrow> room_inv r (cells s) \<and> generation r < next_generation s
          \<and> max_guests (snapshot r) = config_max_guests s
          \<and> (\<forall>g. g \<noteq> generation r \<longrightarrow> feeds (cells s) g = FeedClosed))"

subsection \<open>Guests and cells\<close>

lemma owned_restrict:
  "owned v L \<Longrightarrow> owned (\<lambda>k. if P k then v k else {}) (L - (\<Union>k\<in>{k. \<not> P k}. v k))"
  unfolding owned_def by (auto simp: disjoint_iff split: if_splits; metis)

lemma owned_insert: "owned v L \<Longrightarrow> x \<notin> L \<Longrightarrow> owned (v(k := insert x (v k))) (insert x L)"
  unfolding owned_def by (auto split: if_splits)

lemma owned_remove: "owned v L \<Longrightarrow> J \<subseteq> v k \<Longrightarrow> owned (v(k := v k - J)) (L - J)"
  unfolding owned_def by (auto split: if_splits; blast)

lemma owned_member: "owned v L \<Longrightarrow> x \<in> v k \<Longrightarrow> x \<in> L"
  unfolding owned_def by auto

text \<open>Firing a set of cells.\<close>

definition fire :: "channel set \<Rightarrow> nat set \<Rightarrow> shared \<Rightarrow> shared" where
  "fire C I sh = sh\<lparr>revocations := (\<lambda>c. revocations sh c \<or> c \<in> C), stops := (\<lambda>i. stops sh i \<or> i \<in> I)\<rparr>"

lemma fire_live [simp]:
  "live_channels (fire C I sh) = live_channels sh - C"
  "live_streams (fire C I sh) = live_streams sh - I"
  "feeds (fire C I sh) = feeds sh"
  by (auto simp: fire_def live_channels_def live_streams_def)

lemma fresh_cells_fire:
  "fresh_cells sh \<Longrightarrow> C \<subseteq> live_channels sh \<Longrightarrow> I \<subseteq> live_streams sh \<Longrightarrow> fresh_cells (fire C I sh)"
  unfolding fresh_cells_def fire_def live_channels_def live_streams_def by fastforce

lemma channels_of_iff: "c \<in> channels_of m k \<longleftrightarrow> (\<exists>g. fmlookup m k = Some g \<and> c = revoked g)"
  by (auto simp: channels_of_def split: option.splits)

lemma streams_of_iff: "i \<in> streams_of m k \<longleftrightarrow> (\<exists>g. fmlookup m k = Some g \<and> i \<in> stream_ids g)"
  by (auto simp: streams_of_def split: option.splits)

lemma drop_guests_fire:
  "drop_guests m sh = fire (\<Union>k. channels_of m k) (\<Union>k. streams_of m k) sh"
proof -
  have ran: "fBex (fmran m) Q \<longleftrightarrow> (\<exists>k g. fmlookup m k = Some g \<and> Q g)" for Q
    by (metis fmlookup_ran_iff)
  have c: "c \<in> (\<Union>k. channels_of m k) \<longleftrightarrow> fBex (fmran m) (\<lambda>g. revoked g = c)" for c
    unfolding ran by (auto simp: channels_of_iff)
  have i: "i \<in> (\<Union>k. streams_of m k) \<longleftrightarrow> fBex (fmran m) (\<lambda>g. i \<in> stream_ids g)" for i
    unfolding ran by (auto simp: streams_of_iff)
  show ?thesis
    unfolding drop_guests_def fire_def c i ..
qed

lemma drop_streams_fire: "drop_streams as sh = fire {} (stream_id ` set as) sh"
  by (simp add: drop_streams_def fire_def)

lemma guests_inv_feeds [simp]: "guests_inv m (sh\<lparr>feeds := f\<rparr>) = guests_inv m sh"
  by (simp add: guests_inv_def live_channels_def live_streams_def fresh_cells_def)

lemma guests_inv_publish [simp]: "guests_inv m (publish r sh) = guests_inv m sh"
  by (simp add: publish_def)

lemma feeds_drop [simp]: "feeds (drop_guests m sh) = feeds sh" "feeds (drop_streams as sh) = feeds sh"
  by (simp_all add: drop_guests_def drop_streams_def)

lemma feeds_publish [simp]: "feeds (publish r sh) = (feeds sh)(generation r := FeedState (snapshot r))"
  by (simp add: publish_def)

text \<open>Removing Guests and firing their cells, for any split of the map.\<close>

lemma guests_inv_split:
  assumes "guests_inv m sh"
    and kept: "\<And>k. fmlookup kept k = (if P k then fmlookup m k else None)"
    and gone: "\<And>k. fmlookup gone k = (if P k then None else fmlookup m k)"
  shows "guests_inv kept (drop_guests gone sh)"
proof -
  have c: "channels_of kept = (\<lambda>k. if P k then channels_of m k else {})"
    and s: "streams_of kept = (\<lambda>k. if P k then streams_of m k else {})"
    by (auto simp: fun_eq_iff channels_of_def streams_of_def kept)
  have "channels_of gone k = (if P k then {} else channels_of m k)"
    "streams_of gone k = (if P k then {} else streams_of m k)" for k
    by (simp_all add: channels_of_def streams_of_def gone)
  then have cg: "(\<Union>k. channels_of gone k) = (\<Union>k\<in>{k. \<not> P k}. channels_of m k)"
    and sg: "(\<Union>k. streams_of gone k) = (\<Union>k\<in>{k. \<not> P k}. streams_of m k)"
    by auto
  from assms(1) have o: "owned (channels_of m) (live_channels sh)" "owned (streams_of m) (live_streams sh)"
    and f: "fresh_cells sh"
    by (simp_all add: guests_inv_def)
  have "fresh_cells (fire (\<Union>k\<in>{k. \<not> P k}. channels_of m k) (\<Union>k\<in>{k. \<not> P k}. streams_of m k) sh)"
    using f o by (intro fresh_cells_fire) (auto simp: owned_def)
  then show ?thesis
    using assms(1) o owned_restrict [of _ _ P]
    by (simp add: guests_inv_def drop_guests_fire cg sg c s kept)
qed

lemma guests_inv_close: "guests_inv m sh \<Longrightarrow> guests_inv fmempty (drop_guests m sh)"
  by (rule guests_inv_split [where P = "\<lambda>_. False"]) simp_all

lemma guests_inv_drop_one:
  "guests_inv m sh \<Longrightarrow> guests_inv (fmdrop k m) (drop_guests (fmrestrict_fset {|k|} m) sh)"
  by (rule guests_inv_split [where P = "\<lambda>x. x \<noteq> k"]) (auto simp: fmfilter_alt_defs)

text \<open>Changing a Guest without touching its cells.\<close>

lemma channels_of_upd: "channels_of (fmupd k g m) = (channels_of m)(k := {revoked g})"
  by (simp add: fun_eq_iff channels_of_def)

lemma streams_of_upd: "streams_of (fmupd k g m) = (streams_of m)(k := stream_ids g)"
  by (simp add: fun_eq_iff streams_of_def)

lemma guests_inv_update:
  assumes "guests_inv m sh" and "fmlookup m k = Some g" and "guest_ok g'"
    and "revoked g' = revoked g" and "audio_streams g' = audio_streams g"
  shows "guests_inv (fmupd k g' m) sh"
proof -
  have "channels_of (fmupd k g' m) = channels_of m" "streams_of (fmupd k g' m) = streams_of m"
    using assms(2,4,5) by (auto simp: fun_eq_iff channels_of_def streams_of_def)
  with assms(1,3) show ?thesis by (simp add: guests_inv_def)
qed

lemma guests_inv_guest: "guests_inv m sh \<Longrightarrow> fmlookup m k = Some g \<Longrightarrow> guest_ok g"
  by (simp add: guests_inv_def)

lemma guests_inv_admit:
  assumes "guests_inv m sh" and "fmlookup m k = None"
  shows "guests_inv (fmupd k (new_guest now (next_channel sh)) m) (sh\<lparr>next_channel := next_channel sh + 1\<rparr>)"
    (is "guests_inv _ ?sh")
proof -
  from assms(1) have f: "fresh_cells sh" and o: "owned (channels_of m) (live_channels sh)"
    and s: "owned (streams_of m) (live_streams sh)" by (simp_all add: guests_inv_def)
  have "live_channels ?sh = insert (next_channel sh) (live_channels sh)"
    using f by (auto simp: live_channels_def fresh_cells_def less_Suc_eq)
  moreover have "channels_of (fmupd k (new_guest now (next_channel sh)) m)
      = (channels_of m)(k := insert (next_channel sh) (channels_of m k))"
    using assms(2) by (simp add: channels_of_upd new_guest_def) (simp add: channels_of_def)
  moreover have "next_channel sh \<notin> live_channels sh" by (simp add: live_channels_def)
  ultimately have "owned (channels_of (fmupd k (new_guest now (next_channel sh)) m)) (live_channels ?sh)"
    using owned_insert [OF o] by simp
  moreover have "streams_of (fmupd k (new_guest now (next_channel sh)) m) = streams_of m"
    using assms(2) by (auto simp: fun_eq_iff streams_of_def new_guest_def)
  moreover have "live_streams ?sh = live_streams sh" "fresh_cells ?sh"
    using f by (simp_all add: live_streams_def fresh_cells_def)
  ultimately show ?thesis
    using assms(1) s by (simp add: guests_inv_def guest_ok_def new_guest_def)
qed

lemma guests_inv_push:
  assumes "guests_inv m sh" and "fmlookup m k = Some g" and "length (audio_streams g) < MAX_AUDIO_STREAMS"
  shows "guests_inv
    (fmupd k (g\<lparr>audio_streams := audio_streams g @ [\<lparr>stream_id = next_audio_stream sh, stream_target = t\<rparr>]\<rparr>) m)
    (sh\<lparr>next_audio_stream := next_audio_stream sh + 1\<rparr>)"
    (is "guests_inv (fmupd k ?g m) ?sh")
proof -
  from assms(1) have f: "fresh_cells sh" and c: "owned (channels_of m) (live_channels sh)"
    and o: "owned (streams_of m) (live_streams sh)" and g: "guest_ok g"
    using assms(2) by (simp_all add: guests_inv_def)
  have new: "next_audio_stream sh \<notin> live_streams sh" by (simp add: live_streams_def)
  have ids: "stream_ids g \<subseteq> live_streams sh"
    using owned_member [OF o, of _ k] assms(2) by (auto simp: streams_of_def)
  have "live_streams ?sh = insert (next_audio_stream sh) (live_streams sh)"
    using f by (auto simp: live_streams_def fresh_cells_def less_Suc_eq)
  moreover have "streams_of (fmupd k ?g m) = (streams_of m)(k := insert (next_audio_stream sh) (streams_of m k))"
    using assms(2) by (simp add: streams_of_upd) (simp add: streams_of_def)
  ultimately have "owned (streams_of (fmupd k ?g m)) (live_streams ?sh)"
    using owned_insert [OF o new] by simp
  moreover have "channels_of (fmupd k ?g m) = channels_of m"
    using assms(2) by (auto simp: fun_eq_iff channels_of_def)
  moreover have "live_channels ?sh = live_channels sh" "fresh_cells ?sh"
    using f by (simp_all add: live_channels_def fresh_cells_def)
  moreover have "guest_ok ?g"
    using g assms(3) new ids by (auto simp: guest_ok_def)
  ultimately show ?thesis
    using assms(1) c by (simp add: guests_inv_def)
qed

lemma guests_inv_remove:
  assumes "guests_inv m sh" and "fmlookup m k = Some g" and "set as \<subseteq> set (audio_streams g)"
    and "stream_id ` set gone = stream_ids g - stream_id ` set as"
    and "distinct (map stream_id as)" and "length as \<le> MAX_AUDIO_STREAMS"
  shows "guests_inv (fmupd k (g\<lparr>audio_streams := as\<rparr>) m) (drop_streams gone sh)"
proof -
  from assms(1) have f: "fresh_cells sh" and c: "owned (channels_of m) (live_channels sh)"
    and o: "owned (streams_of m) (live_streams sh)" and g: "guest_ok g"
    using assms(2) by (simp_all add: guests_inv_def)
  have sub: "stream_id ` set as \<subseteq> stream_ids g" using assms(3) by blast
  have sk: "streams_of m k = stream_ids g" using assms(2) by (simp add: streams_of_def)
  have "streams_of (fmupd k (g\<lparr>audio_streams := as\<rparr>) m)
      = (streams_of m)(k := streams_of m k - stream_id ` set gone)"
    using sub assms(4) by (simp add: streams_of_upd sk double_diff)
  moreover have "stream_id ` set gone \<subseteq> streams_of m k" using assms(4) sk by auto
  ultimately have "owned (streams_of (fmupd k (g\<lparr>audio_streams := as\<rparr>) m))
      (live_streams (drop_streams gone sh))"
    using owned_remove [OF o] by (simp add: drop_streams_fire)
  moreover have "channels_of (fmupd k (g\<lparr>audio_streams := as\<rparr>) m) = channels_of m"
    using assms(2) by (auto simp: fun_eq_iff channels_of_def)
  moreover have "fresh_cells (drop_streams gone sh)"
    using f owned_member [OF o, of _ k] assms(4) sk
    by (auto simp: drop_streams_fire intro!: fresh_cells_fire)
  moreover have "guest_ok (g\<lparr>audio_streams := as\<rparr>)"
    using g assms(5,6) by (simp add: guest_ok_def)
  ultimately show ?thesis
    using assms(1) c by (simp add: guests_inv_def drop_streams_fire)
qed

subsection \<open>The contract of a critical section\<close>

abbreviation after_room :: "(room_error + 'a) \<times> room \<times> shared \<Rightarrow> room" where
  "after_room x \<equiv> fst (snd x)"

abbreviation after_cells :: "(room_error + 'a) \<times> room \<times> shared \<Rightarrow> shared" where
  "after_cells x \<equiv> snd (snd x)"

text \<open>
  An action on the open Room keeps the invariant, stays in the same Room (its
  generation, closing time, Invite Link and Guest limit) and touches no other
  Room's events.
\<close>

locale room_action =
  fixes action :: "'a action"
  assumes keeps_inv: "room_inv r sh \<Longrightarrow> room_inv (after_room (action r sh)) (after_cells (action r sh))"
    and keeps_room: "generation (after_room (action r sh)) = generation r"
      "closes_at (after_room (action r sh)) = closes_at r"
      "room_invite_url (after_room (action r sh)) = room_invite_url r"
      "max_guests (snapshot (after_room (action r sh))) = max_guests (snapshot r)"
    and keeps_feeds: "g \<noteq> generation r \<Longrightarrow> feeds (after_cells (action r sh)) g = feeds sh g"

lemma lock_inv [wf_intros]: "service_inv s \<Longrightarrow> service_inv (lock now s)"
  by (auto simp: service_inv_def lock_def room_inv_def room_close_def guests_inv_close
      split: option.splits)

lemma lock_frame [simp]:
  "public_origin (lock now s) = public_origin s" "config_max_guests (lock now s) = config_max_guests s"
  "service_timings (lock now s) = service_timings s" "next_generation (lock now s) = next_generation s"
  "joins (lock now s) = joins s"
  by (simp_all add: lock_def split: option.splits)

lemma service_inv_open:
  "\<lbrakk>service_inv s; open_room s = Some r\<rbrakk> \<Longrightarrow> room_inv r (cells s)"
  by (simp add: service_inv_def)

context room_action
begin

lemma with_room_inv: "service_inv s \<Longrightarrow> service_inv (snd (with_room now action s))"
proof -
  assume "service_inv s"
  then have "service_inv (lock now s)" by (rule lock_inv)
  then show ?thesis
    using keeps_inv keeps_room keeps_feeds
    by (auto simp: with_room_def service_inv_def split_beta Let_def split: option.splits)
qed

lemma with_room_generation:
  "snd (with_room now action s) = s' \<Longrightarrow> open_room s' = Some r' \<Longrightarrow>
   \<exists>r. open_room s = Some r \<and> generation r = generation r' \<and> room_invite_url r = room_invite_url r'"
  using keeps_room
  by (auto simp: with_room_def lock_def split_beta Let_def split: option.splits if_splits)

end

subsection \<open>The actions keep the contract\<close>

lemma set_guest_simps [simp]:
  "generation (set_guest k g r) = generation r" "closes_at (set_guest k g r) = closes_at r"
  "room_invite_url (set_guest k g r) = room_invite_url r" "snapshot (set_guest k g r) = snapshot r"
  "owner_commands (set_guest k g r) = owner_commands r" "guests (set_guest k g r) = fmupd k g (guests r)"
  by (simp_all add: set_guest_def)

lemma set_guest_count_frame [simp]:
  "max_guests (set_guest_count n s) = max_guests s" "invite_url (set_guest_count n s) = invite_url s"
  "guest_count (set_guest_count n s) = n" "track_ids (set_guest_count n s) = track_ids s"
  "current_index (set_guest_count n s) = current_index s" "playing (set_guest_count n s) = playing s"
  by (simp_all add: set_guest_count_def bump_revision_def)

lemma room_inv_set_guest:
  assumes "room_inv r sh" and "fmlookup (guests r) k = Some g"
    and "guests_inv (fmupd k g' (guests r)) sh'" and "feeds sh' = feeds sh"
  shows "room_inv (set_guest k g' r) sh'"
proof -
  have "finsert k (fmdom (guests r)) = fmdom (guests r)"
    using assms(2) by (simp add: fmdomI finsert_absorb)
  with assms show ?thesis by (simp add: room_inv_def)
qed

lemma room_inv_update_guest:
  assumes "room_inv r sh" and "fmlookup (guests r) k = Some g" and "guest_ok g'"
    and "revoked g' = revoked g" and "audio_streams g' = audio_streams g"
  shows "room_inv (set_guest k g' r) sh"
  using assms by (intro room_inv_set_guest guests_inv_update) (auto simp: room_inv_def)

lemma room_inv_guest: "room_inv r sh \<Longrightarrow> fmlookup (guests r) k = Some g \<Longrightarrow> guest_ok g"
  by (auto simp: room_inv_def intro: guests_inv_guest)

lemma fcard_finsert_Suc: "fcard (finsert k A) \<le> Suc (fcard A)"
  by (metis fcard_finsert_if le_SucI order_refl)

text \<open>Replacing the Guests and recording their number.\<close>

lemma room_inv_recount:
  assumes "room_inv r sh" and "guests_inv m sh'" and "fcard (fmdom m) \<le> max_guests (snapshot r)"
    and "r' = r\<lparr>guests := m, snapshot := set_guest_count (fcard (fmdom m)) (snapshot r)\<rparr>"
  shows "room_inv r' (publish r' sh')"
  using assms by (simp add: room_inv_def)

interpretation view_act: room_action "view_action c" for c
  by unfold_locales (simp_all add: view_action_def)

interpretation read_act: room_action "read_action ses k now" for ses k now
proof unfold_locales
  fix r sh assume inv: "room_inv r sh"
  show "room_inv (after_room (read_action ses k now r sh)) (after_cells (read_action ses k now r sh))"
  proof (cases "fmlookup (guests r) (session_id ses)")
    case (Some g)
    with inv have "guest_ok (g\<lparr>reads := snd (budgets_take k now (reads g))\<rparr>)"
      by (auto simp: guest_ok_def budgets_take_ok dest: room_inv_guest)
    with inv Some show ?thesis
      by (simp add: read_action_def split_beta room_inv_update_guest)
  qed (use inv in \<open>simp add: read_action_def\<close>)
qed (simp_all add: read_action_def split_beta split: option.split)

interpretation admit_act: room_action "admit_action c now" for c now
proof unfold_locales
  fix r sh assume inv: "room_inv r sh"
  show "room_inv (after_room (admit_action c now r sh)) (after_cells (admit_action c now r sh))"
  proof (cases c)
    case Owner
    with inv show ?thesis by (simp add: admit_action_def split_beta room_inv_def bucket_take_ok)
  next
    case (Guest ses)
    show ?thesis
    proof (cases "fmlookup (guests r) (session_id ses)")
      case None
      with Guest inv show ?thesis by (simp add: admit_action_def)
    next
      case (Some g)
      with inv have "guest_ok (g\<lparr>commands := snd (bucket_take now (commands g))\<rparr>)"
        by (auto simp: guest_ok_def bucket_take_ok dest: room_inv_guest)
      with inv Guest Some show ?thesis
        by (simp add: admit_action_def split_beta room_inv_update_guest)
    qed
  qed
qed (cases c; simp add: admit_action_def split_beta split: option.split)+

lemma after_finish:
  "after_room (finish_action c cmd now_ms r sh) = r \<and> after_cells (finish_action c cmd now_ms r sh) = sh \<or>
   (\<exists>b st. apply_command cmd now_ms (snapshot r) = Some (b, st) \<and>
      after_room (finish_action c cmd now_ms r sh) = r\<lparr>snapshot := st\<rparr> \<and>
      after_cells (finish_action c cmd now_ms r sh) = (if b then publish (r\<lparr>snapshot := st\<rparr>) sh else sh))"
  by (auto simp: finish_action_def Let_def split: sum.split option.split prod.split)

lemma finish_action_inv:
  assumes "room_inv r sh" and "validate_command cmd = Inr ()" and "command_i64 cmd"
  shows "room_inv (after_room (finish_action c cmd now_ms r sh)) (after_cells (finish_action c cmd now_ms r sh))"
  using after_finish [of c cmd now_ms r sh]
proof (elim disjE exE conjE)
  fix b st
  assume st: "apply_command cmd now_ms (snapshot r) = Some (b, st)"
    and r': "after_room (finish_action c cmd now_ms r sh) = r\<lparr>snapshot := st\<rparr>"
    and sh': "after_cells (finish_action c cmd now_ms r sh) = (if b then publish (r\<lparr>snapshot := st\<rparr>) sh else sh)"
  have "room_wf st" using assms st by (auto simp: room_inv_def intro: apply_command_wf)
  moreover have "\<not> b \<Longrightarrow> st = snapshot r" using st by (auto dest: apply_command_unchanged)
  ultimately show ?thesis
    using assms(1) apply_command_frame [OF st] by (auto simp: r' sh' room_inv_def)
qed (use assms in auto)

lemma finish_action_frame:
  "generation (after_room (finish_action c cmd now_ms r sh)) = generation r"
  "closes_at (after_room (finish_action c cmd now_ms r sh)) = closes_at r"
  "room_invite_url (after_room (finish_action c cmd now_ms r sh)) = room_invite_url r"
  "max_guests (snapshot (after_room (finish_action c cmd now_ms r sh))) = max_guests (snapshot r)"
  "g \<noteq> generation r \<Longrightarrow> feeds (after_cells (finish_action c cmd now_ms r sh)) g = feeds sh g"
  using after_finish [of c cmd now_ms r sh] by (auto dest: apply_command_frame)

text \<open>A finished command satisfies the contract when it was validated, as \<open>command\<close> ensures.\<close>

definition valid_finish :: "client \<Rightarrow> command \<Rightarrow> int \<Rightarrow> room_state action" where
  "valid_finish c cmd now_ms r sh =
     (if validate_command cmd = Inr () \<and> command_i64 cmd then finish_action c cmd now_ms r sh
      else (Inl NotFound, r, sh))"

interpretation finish_act: room_action "valid_finish c cmd now_ms" for c cmd now_ms
  by unfold_locales (auto simp: valid_finish_def finish_action_inv finish_action_frame)

lemma remove_target_split:
  "remove_target t as = Some (a, rest) \<Longrightarrow> \<exists>xs ys. as = xs @ a # ys \<and> rest = xs @ ys
     \<and> stream_target a = t \<and> (\<forall>x \<in> set xs. stream_target x \<noteq> t)"
proof (induction as arbitrary: rest)
  case (Cons b as)
  show ?case
  proof (cases "stream_target b = t")
    case True
    with Cons.prems show ?thesis by (intro exI [of _ "[]"] exI [of _ as]) auto
  next
    case False
    with Cons.prems obtain rest' where r: "remove_target t as = Some (a, rest')" "rest = b # rest'"
      by (auto split: option.splits)
    from Cons.IH [OF r(1)] obtain xs ys where "as = xs @ a # ys" "rest' = xs @ ys"
      "stream_target a = t" "\<forall>x \<in> set xs. stream_target x \<noteq> t" by blast
    with False r(2) show ?thesis by (intro exI [of _ "b # xs"] exI [of _ ys]) auto
  qed
qed simp

lemma remove_target_None: "remove_target t as = None \<longleftrightarrow> (\<forall>a \<in> set as. stream_target a \<noteq> t)"
  by (induction as) (auto split: option.splits)

lemma push_stream_inv:
  assumes "room_inv r sh" and "guests_inv (fmupd k g (guests r)) sh'" and "feeds sh' = feeds sh"
    and "fmlookup (guests r) k = Some g0" and "length (audio_streams g) < MAX_AUDIO_STREAMS"
  shows "room_inv (after_room (push_stream k t g r sh')) (after_cells (push_stream k t g r sh'))"
proof -
  have "guests_inv (fmupd k (g\<lparr>audio_streams := audio_streams g @
      [\<lparr>stream_id = next_audio_stream sh', stream_target = t\<rparr>]\<rparr>) (fmupd k g (guests r)))
      (sh'\<lparr>next_audio_stream := next_audio_stream sh' + 1\<rparr>)"
    using assms(2,5) by (intro guests_inv_push) simp_all
  with assms(1,3,4) show ?thesis
    by (auto simp: push_stream_def Let_def intro!: room_inv_set_guest)
qed

lemma fmupd_self: "fmlookup m k = Some v \<Longrightarrow> fmupd k v m = m"
  by (intro fmap_ext) auto

interpretation audio_act: room_action "audio_action ses t" for ses t
proof unfold_locales
  fix r sh assume inv: "room_inv r sh"
  show "room_inv (after_room (audio_action ses t r sh)) (after_cells (audio_action ses t r sh))"
  proof (cases "fmlookup (guests r) (session_id ses)")
    case (Some g)
    with inv have g: "guest_ok g" "guests_inv (guests r) sh"
      by (auto simp: room_inv_def intro: room_inv_guest)
    show ?thesis
    proof (cases "MAX_AUDIO_STREAMS \<le> length (audio_streams g)")
      case True
      show ?thesis
      proof (cases "remove_target t (audio_streams g)")
        case None
        with Some True inv show ?thesis by (simp add: audio_action_def)
      next
        case (Some p)
        obtain a rest where p: "p = (a, rest)" by fastforce
        with Some obtain xs ys where xs: "audio_streams g = xs @ a # ys" "rest = xs @ ys"
          using remove_target_split by blast
        have "guests_inv (fmupd (session_id ses) (g\<lparr>audio_streams := rest\<rparr>) (guests r)) (drop_streams [a] sh)"
          using g \<open>fmlookup (guests r) (session_id ses) = Some g\<close> xs
          by (intro guests_inv_remove) (auto simp: guest_ok_def)
        moreover have "length rest < MAX_AUDIO_STREAMS"
          using g(1) xs by (simp add: guest_ok_def)
        ultimately show ?thesis
          using True Some p inv \<open>fmlookup (guests r) (session_id ses) = Some g\<close>
          by (simp add: audio_action_def push_stream_inv)
      qed
    next
      case False
      have "guests_inv (fmupd (session_id ses) g (guests r)) sh"
        using g(2) by (simp add: fmupd_self [OF Some])
      with False Some inv show ?thesis
        by (simp add: audio_action_def push_stream_inv)
    qed
  qed (use inv in \<open>simp add: audio_action_def\<close>)
qed (simp_all add: audio_action_def push_stream_def Let_def split: option.split prod.split)

lemma admit_guest_eq:
  "admit_guest k now r sh =
    (let m = fmupd k (new_guest now (next_channel sh)) (guests r);
         r' = r\<lparr>guests := m, snapshot := set_guest_count (fcard (fmdom m)) (snapshot r)\<rparr>
     in (r', publish r' (drop_guests (fmrestrict_fset {|k|} (guests r)) (sh\<lparr>next_channel := next_channel sh + 1\<rparr>))))"
  by (simp add: admit_guest_def Let_def set_guest_def)

lemma drop_guests_next: "drop_guests m (sh\<lparr>next_channel := n\<rparr>) = (drop_guests m sh)\<lparr>next_channel := n\<rparr>"
  by (simp add: drop_guests_def)

lemma drop_guests_counters [simp]:
  "next_channel (drop_guests m sh) = next_channel sh"
  "next_audio_stream (drop_guests m sh) = next_audio_stream sh"
  by (simp_all add: drop_guests_def)

lemma fmupd_fmdrop: "fmupd k v (fmdrop k m) = fmupd k v m"
  by (intro fmap_ext) auto

lemma admit_guest_inv:
  assumes "room_inv r sh" and "fcard (fmdom (guests r)) < max_guests (snapshot r)"
  shows "room_inv (fst (admit_guest k now r sh)) (snd (admit_guest k now r sh))"
proof -
  let ?d = "drop_guests (fmrestrict_fset {|k|} (guests r)) sh"
  have "guests_inv (fmdrop k (guests r)) ?d"
    using assms(1) by (intro guests_inv_drop_one) (simp add: room_inv_def)
  then have "guests_inv (fmupd k (new_guest now (next_channel ?d)) (fmdrop k (guests r)))
      (?d\<lparr>next_channel := next_channel ?d + 1\<rparr>)"
    by (rule guests_inv_admit) simp
  moreover have "fcard (finsert k (fmdom (guests r))) \<le> max_guests (snapshot r)"
    using assms(2) fcard_finsert_Suc [of k "fmdom (guests r)"] by simp
  ultimately show ?thesis
    using assms(1)
    by (simp add: admit_guest_eq Let_def drop_guests_next fmupd_fmdrop)
      (rule room_inv_recount [where m = "fmupd k (new_guest now (next_channel sh)) (guests r)"], simp_all)
qed

interpretation join_act: room_action "join_action mac skey token current fresh now"
  for mac skey token current fresh now
  by unfold_locales
    (auto simp: join_action_def split_beta admit_guest_inv split: option.split,
     auto simp: admit_guest_eq Let_def)

interpretation leave_act: room_action "leave_action ses" for ses
proof unfold_locales
  fix r sh assume inv: "room_inv r sh"
  show "room_inv (after_room (leave_action ses r sh)) (after_cells (leave_action ses r sh))"
  proof (cases "fmlookup (guests r) (session_id ses)")
    case (Some g)
    have "fcard (fmdom (guests r) |-| {|session_id ses|}) \<le> fcard (fmdom (guests r))"
      by (intro fcard_mono) auto
    moreover from inv have "fcard (fmdom (guests r)) \<le> max_guests (snapshot r)"
      by (simp add: room_inv_def)
    moreover have "guests_inv (fmdrop (session_id ses) (guests r))
        (drop_guests (fmrestrict_fset {|session_id ses|} (guests r)) sh)"
      using inv by (intro guests_inv_drop_one) (simp add: room_inv_def)
    ultimately show ?thesis
      using inv Some 
      by (simp add: leave_action_def Let_def)
        (rule room_inv_recount [where m = "fmdrop (session_id ses) (guests r)"], simp_all)
  qed (use inv in \<open>simp add: leave_action_def\<close>)
qed (simp_all add: leave_action_def Let_def split: option.split)

interpretation subscribe_act: room_action "subscribe_action c" for c
proof unfold_locales
  fix r sh assume inv: "room_inv r sh"
  show "room_inv (after_room (subscribe_action c r sh)) (after_cells (subscribe_action c r sh))"
  proof (cases c)
    case (Guest ses)
    then show ?thesis
      using inv by (auto simp: guest_ok_def split: option.split dest: room_inv_guest
          intro!: room_inv_update_guest)
  qed (use inv in simp)
qed (cases c; simp split: option.split)+

subsection \<open>The operations keep the invariant\<close>

lemma service_new_inv: "service_inv (service_new origin n t now)"
  by (simp add: service_inv_def service_new_def shared_new_def guests_inv_def owned_def fresh_cells_def
      live_channels_def live_streams_def channels_of_def streams_of_def) auto

lemma open_op_inv: "service_inv s \<Longrightarrow> service_inv (snd (open_op mac token key expires now now_ms s))"
  using lock_inv [of s now]
  by (auto simp: open_op_def Let_def service_inv_def room_inv_def room_state_new_def
      MAX_ROOM_QUEUE_TRACKS_def room_wf_def fcard_fempty split: option.splits)

lemma close_op_inv: "service_inv s \<Longrightarrow> service_inv (snd (close_op now s))"
  using lock_inv [of s now]
  by (auto simp: close_op_def Let_def service_inv_def room_inv_def room_close_def guests_inv_close
      split: option.splits)

lemma take_join_inv: "service_inv s \<Longrightarrow> service_inv (snd (take_join now s))"
  by (auto simp: take_join_def split_beta service_inv_def bucket_take_ok split: option.splits)

lemma live_guest_Some:
  "live_guest gen k s = Some (r, g) \<longleftrightarrow>
     open_room s = Some r \<and> generation r = gen \<and> fmlookup (guests r) k = Some g"
  by (auto simp: live_guest_def split: option.splits if_splits)

text \<open>Replacing a Guest of the open Room, the shape of the two drop handlers.\<close>

lemma service_inv_set_guest:
  assumes "service_inv s" and "open_room s = Some r"
    and "room_inv (set_guest k g r) sh" and "feeds sh = feeds (cells s)"
  shows "service_inv (s\<lparr>open_room := Some (set_guest k g r), cells := sh\<rparr>)"
  using assms by (simp add: service_inv_def)

lemma audio_stream_ended_inv:
  assumes "service_inv s"
  shows "service_inv (audio_stream_ended slot now s)"
proof (cases "live_guest (slot_generation slot) (slot_key slot) (lock now s)")
  case None
  with assms show ?thesis by (simp add: audio_stream_ended_def lock_inv)
next
  case (Some p)
  obtain r g where p: "p = (r, g)" by fastforce
  let ?kept = "filter (\<lambda>a. stream_id a \<noteq> slot_id slot) (audio_streams g)"
  let ?gone = "filter (\<lambda>a. stream_id a = slot_id slot) (audio_streams g)"
  have L: "service_inv (lock now s)" using assms by (rule lock_inv)
  from Some p have o: "open_room (lock now s) = Some r" "fmlookup (guests r) (slot_key slot) = Some g"
    by (simp_all add: live_guest_Some)
  with L have inv: "room_inv r (cells (lock now s))" by (simp add: service_inv_open)
  with o(2) have g: "guest_ok g" by (intro room_inv_guest)
  have split: "stream_id ` set ?gone = stream_ids g - stream_id ` set ?kept" by force
  have "guests_inv (fmupd (slot_key slot) (g\<lparr>audio_streams := ?kept\<rparr>) (guests r))
      (drop_streams ?gone (cells (lock now s)))"
    using inv o(2) g
    by (intro guests_inv_remove split)
      (auto simp: room_inv_def guest_ok_def distinct_map_filter intro: order_trans [OF length_filter_le])
  then have "room_inv (set_guest (slot_key slot) (g\<lparr>audio_streams := ?kept\<rparr>) r)
      (drop_streams ?gone (cells (lock now s)))"
    using inv o(2) by (intro room_inv_set_guest) simp_all
  with L o(1) show ?thesis
    by (simp add: audio_stream_ended_def Some p Let_def service_inv_set_guest)
qed

lemma stream_ended_inv:
  assumes "service_inv s"
  shows "service_inv (stream_ended gen k now s)"
proof (cases "live_guest gen k (lock now s)")
  case None
  with assms show ?thesis by (simp add: stream_ended_def lock_inv)
next
  case (Some p)
  obtain r g where p: "p = (r, g)" by fastforce
  have L: "service_inv (lock now s)" using assms by (rule lock_inv)
  from Some p have o: "open_room (lock now s) = Some r" "fmlookup (guests r) k = Some g"
    by (simp_all add: live_guest_Some)
  with L have inv: "room_inv r (cells (lock now s))" by (simp add: service_inv_open)
  with o(2) have g: "guest_ok g" by (intro room_inv_guest)
  have "room_inv (set_guest k (g\<lparr>open_streams := n, disconnected_at := d\<rparr>) r) (cells (lock now s))"
    "room_inv (set_guest k (g\<lparr>open_streams := n\<rparr>) r) (cells (lock now s))" for n d
    using inv o(2) g by (auto intro!: room_inv_update_guest [where g = g] simp: guest_ok_def)
  with service_inv_set_guest [OF L o(1), of k _ "cells (lock now s)"] show ?thesis
    by (simp add: stream_ended_def Some p Let_def)
qed

lemma staying_filter_eq:
  assumes "fcard (fmdom (fmfilter P m)) = fcard (fmdom m)"
  shows "fmfilter P m = m"
proof -
  have "fmdom (fmfilter P m) |\<subseteq>| fmdom m" by auto
  with assms have eq: "fmdom (fmfilter P m) = fmdom m" by (metis fcard_seteq order_refl)
  have "P k" if "fmlookup m k = Some v" for k v
  proof -
    from that have "k |\<in>| fmdom (fmfilter P m)" unfolding eq by (rule fmdomI)
    then show ?thesis by simp
  qed
  then show ?thesis by (intro fmap_ext) (auto simp: fmlookup_filter split: option.splits)
qed

lemma sweep_room_inv:
  assumes "room_inv r sh"
  shows "room_inv (fst (sweep_room grace now r sh)) (snd (sweep_room grace now r sh))"
proof -
  let ?P = "staying grace now (guests r)"
  let ?kept = "fmfilter ?P (guests r)" and ?gone = "fmfilter (\<lambda>k. \<not> ?P k) (guests r)"
  have inv: "guests_inv ?kept (drop_guests ?gone sh)"
    using assms by (intro guests_inv_split [where P = ?P and m = "guests r"]) (auto simp: room_inv_def)
  have le: "fcard (fmdom ?kept) \<le> fcard (fmdom (guests r))" by (intro fcard_mono) auto
  show ?thesis
  proof (cases "fcard (fmdom ?kept) = fcard (fmdom (guests r))")
    case True
    from staying_filter_eq [OF True] inv assms show ?thesis
      by (simp add: sweep_room_def Let_def room_inv_def)
  next
    case False
    have "fcard (fmdom ?kept) \<le> max_guests (snapshot r)"
      using le assms by (simp add: room_inv_def)
    from room_inv_recount [OF assms inv this refl] False show ?thesis
      by (simp add: sweep_room_def Let_def)
  qed
qed

lemma sweep_room_frame:
  "generation (fst (sweep_room grace now r sh)) = generation r"
  "max_guests (snapshot (fst (sweep_room grace now r sh))) = max_guests (snapshot r)"
  "g \<noteq> generation r \<Longrightarrow> feeds (snd (sweep_room grace now r sh)) g = feeds sh g"
  by (simp_all add: sweep_room_def Let_def)

lemma sweep_inv: "service_inv s \<Longrightarrow> service_inv (snd (sweep gen now s))"
  using lock_inv [of s now]
  by (auto simp: sweep_def Let_def service_inv_def split_beta sweep_room_inv sweep_room_frame
      split: option.splits)

subsection \<open>Every interleaving\<close>

text \<open>
  One step is one critical section of one request, sweep or dropped handle, at
  any clock reading; \<open>step_admit\<close> and \<open>step_finish\<close> are the two halves of a
  command, so other requests may run between them.
\<close>

inductive service_step :: "(string \<Rightarrow> string \<Rightarrow> string) \<Rightarrow> (string \<Rightarrow> string) \<Rightarrow> service \<Rightarrow> service \<Rightarrow> bool"
  for mac skey where
  step_open: "service_step mac skey s (snd (open_op mac token key expires now now_ms s))"
| step_close: "service_step mac skey s (snd (close_op now s))"
| step_room: "service_step mac skey s (snd (room_op c now s))"
| step_take_join: "service_step mac skey s (snd (take_join now s))"
| step_take_read: "service_step mac skey s (snd (take_read ses k now s))"
| step_open_audio: "service_step mac skey s (snd (open_audio_stream ses t now s))"
| step_audio_ended: "service_step mac skey s (audio_stream_ended slot now s)"
| step_join: "service_step mac skey s (snd (join mac skey token current fresh now s))"
| step_authenticate: "service_step mac skey s (snd (authenticate skey token now s))"
| step_leave: "service_step mac skey s (snd (leave ses now s))"
| step_admit: "service_step mac skey s (snd (with_room now (admit_action c now) s))"
| step_finish: "validate_command cmd = Inr () \<Longrightarrow> command_i64 cmd \<Longrightarrow>
     service_step mac skey s (snd (with_room now (finish_action c cmd now_ms) s))"
| step_subscribe: "service_step mac skey s (snd (subscribe c now s))"
| step_stream_ended: "service_step mac skey s (stream_ended gen k now s)"
| step_sweep: "service_step mac skey s (snd (sweep gen now s))"

inductive reachable :: "(string \<Rightarrow> string \<Rightarrow> string) \<Rightarrow> (string \<Rightarrow> string) \<Rightarrow> service \<Rightarrow> bool"
  for mac skey where
  start: "reachable mac skey (service_new origin n t now)"
| step: "reachable mac skey s \<Longrightarrow> service_step mac skey s s' \<Longrightarrow> reachable mac skey s'"

lemma valid_finish_eq:
  "validate_command cmd = Inr () \<Longrightarrow> command_i64 cmd \<Longrightarrow> finish_action c cmd now_ms = valid_finish c cmd now_ms"
  by (simp add: fun_eq_iff valid_finish_def)

lemma service_step_inv: "service_step mac skey s s' \<Longrightarrow> service_inv s \<Longrightarrow> service_inv s'"
  by (induction rule: service_step.induct)
    (simp_all add: open_op_inv close_op_inv take_join_inv audio_stream_ended_inv stream_ended_inv sweep_inv
      room_op_def take_read_def open_audio_stream_def leave_def subscribe_def join_def authenticate_def
      valid_finish_eq split_beta Let_def lock_inv view_act.with_room_inv read_act.with_room_inv
      audio_act.with_room_inv join_act.with_room_inv leave_act.with_room_inv admit_act.with_room_inv
      finish_act.with_room_inv subscribe_act.with_room_inv)

lemma reachable_inv: "reachable mac skey s \<Longrightarrow> service_inv s"
  by (induction rule: reachable.induct) (auto intro: service_new_inv service_step_inv)

end
