(* ===== verification/Room_Properties.thy ===== *)
theory Room_Properties
  imports Room_Invariant
begin

text \<open>
  What Listen Together promises, in every state any interleaving of requests,
  sweeps and dropped handles can reach, and for each operation on its own.
\<close>

subsection \<open>Facts about the open Room\<close>

lemma reachable_open:
  "reachable mac skey s \<Longrightarrow> open_room s = Some r \<Longrightarrow> room_inv r (cells s)"
  by (blast dest: reachable_inv service_inv_open)

lemma lock_open: "open_room s = Some r \<Longrightarrow> now < closes_at r \<Longrightarrow> lock now s = s"
  by (simp add: lock_def)

lemma lock_expired:
  "open_room s = Some r \<Longrightarrow> closes_at r \<le> now \<Longrightarrow>
     lock now s = s\<lparr>open_room := None, cells := room_close r (cells s)\<rparr>"
  by (simp add: lock_def)

lemma with_room_open:
  "open_room s = Some r \<Longrightarrow> now < closes_at r \<Longrightarrow> with_room now action s =
     (fst (action r (cells s)),
      s\<lparr>open_room := Some (after_room (action r (cells s))), cells := after_cells (action r (cells s))\<rparr>)"
  by (simp add: with_room_def lock_open split_beta)

lemma with_room_cases:
  obtains (closed) "open_room (lock now s) = None" "with_room now action s = (Inl NotFound, lock now s)"
  | (opened) r where "open_room (lock now s) = Some r" "lock now s = s" "now < closes_at r"
      "with_room now action s = (fst (action r (cells s)),
        s\<lparr>open_room := Some (after_room (action r (cells s))), cells := after_cells (action r (cells s))\<rparr>)"
proof (cases "open_room (lock now s)")
  case None
  then show thesis using closed by (simp add: with_room_def)
next
  case (Some r)
  then have "open_room s = Some r" "now < closes_at r"
    by (auto simp: lock_def split: option.splits if_splits)
  with Some show thesis by (intro opened [of r]) (simp_all add: with_room_open lock_open)
qed

lemma live_channel_iff:
  assumes "guests_inv m sh" and "c < next_channel sh"
  shows "\<not> revocations sh c \<longleftrightarrow> (\<exists>k g. fmlookup m k = Some g \<and> revoked g = c)"
proof -
  have "\<not> revocations sh c \<longleftrightarrow> c \<in> (\<Union>k. channels_of m k)"
    using assms by (auto simp: guests_inv_def owned_def live_channels_def)
  then show ?thesis by (auto simp: channels_of_iff)
qed

lemma live_stream_iff:
  assumes "guests_inv m sh" and "0 < i" and "i < next_audio_stream sh"
  shows "\<not> stops sh i \<longleftrightarrow> (\<exists>k g. fmlookup m k = Some g \<and> i \<in> stream_ids g)"
proof -
  have "\<not> stops sh i \<longleftrightarrow> i \<in> (\<Union>k. streams_of m k)"
    using assms by (auto simp: guests_inv_def owned_def live_streams_def)
  then show ?thesis by (auto simp: streams_of_iff)
qed

text \<open>The Guests of a service: those of its open Room.\<close>

definition guests_of :: "service \<Rightarrow> (string, guest) fmap" where
  "guests_of s = (case open_room s of None \<Rightarrow> fmempty | Some r \<Rightarrow> guests r)"

lemma service_inv_guests: "service_inv s \<Longrightarrow> guests_inv (guests_of s) (cells s)"
  by (auto simp: service_inv_def guests_of_def room_inv_def split: option.splits)

lemma guest_channel_live:
  assumes "guests_inv m sh" and "fmlookup m k = Some g"
  shows "\<not> revocations sh (revoked g)" "revoked g < next_channel sh"
proof -
  have "revoked g \<in> live_channels sh"
    using assms owned_member [of "channels_of m" "live_channels sh" "revoked g" k]
    by (simp add: guests_inv_def channels_of_iff)
  then show "\<not> revocations sh (revoked g)" "revoked g < next_channel sh"
    by (simp_all add: live_channels_def)
qed

lemma after_admit_eq:
  "fst (admit_guest k now r sh) =
     r\<lparr>guests := fmupd k (new_guest now (next_channel sh)) (guests r),
       snapshot := set_guest_count (fcard (finsert k (fmdom (guests r)))) (snapshot r)\<rparr>"
  by (simp add: admit_guest_eq Let_def)

text \<open>A small world for the witnesses: a toy hash, one open Room, one Guest.\<close>

definition toy_mac :: "string \<Rightarrow> string \<Rightarrow> string" where "toy_mac k t = k @ t"

definition toy_service :: service where
  "toy_service = service_new (Some ''https://h'') 2 timings_default 0"

definition toy_open :: service where
  "toy_open = snd (open_op toy_mac ''tok'' ''key'' ''later'' 0 0 toy_service)"

definition toy_joined :: service where
  "toy_joined = snd (join toy_mac id ''tok'' None ''g1'' 0 toy_open)"

lemma toy_open_reachable: "reachable toy_mac id toy_open"
  unfolding toy_open_def toy_service_def
  by (rule reachable.step [OF reachable.start], rule step_open)

lemma toy_joined_reachable: "reachable toy_mac id toy_joined"
  unfolding toy_joined_def by (rule reachable.step [OF toy_open_reachable], rule step_join)

lemmas toy_defs = toy_mac_def toy_service_def service_new_def open_op_def lock_def room_state_new_def
  owner_view_def publish_def shared_new_def timings_default_def lifetime_of_hours_def seconds_def
  DEFAULT_LISTEN_TOGETHER_ROOM_HOURS_def Let_def

lemma toy_open_eq: "open_room toy_open = Some
   \<lparr>generation = 1, snapshot = room_state_new 2 ''later'' 0, closes_at = 24 * 60 * 60 * 10 ^ 9,
    room_invite_url = ''https://h/join#tok'', invite_key = ''key'', invite_tag = ''keytok'',
    guests = fmempty, owner_commands = bucket_new COMMANDS 0\<rparr>"
  by (simp add: toy_open_def toy_defs)

lemma toy_open_cells: "cells toy_open = shared_new\<lparr>feeds := (feeds shared_new)(1 := FeedState (room_state_new 2 ''later'' 0))\<rparr>"
  by (simp add: toy_open_def toy_defs)

lemma toy_joined_eq:
  "open_room toy_joined = Some (the (open_room toy_open)
     \<lparr>guests := fmupd ''g1'' (new_guest 0 0) fmempty,
      snapshot := set_guest_count 1 (room_state_new 2 ''later'' 0)\<rparr>)"
  unfolding toy_joined_def join_def
  by (simp add: with_room_open toy_open_eq split_beta)
     (simp add: join_action_def invite_matches_def toy_mac_def live_session_def fcard_fempty
       room_state_new_def split_beta after_admit_eq fcard_finsert_if shared_new_def toy_open_cells)

subsection \<open>Every reachable state\<close>

text \<open>C4: in every reachable state the Room holds at most as many Guests as the
  configuration allows, and the number it shows to everyone is exact.\<close>

theorem guests_within_limit:
  assumes "reachable mac skey s" and "open_room s = Some r"
  shows "fcard (fmdom (guests r)) \<le> config_max_guests s
    \<and> guest_count (snapshot r) = fcard (fmdom (guests r))
    \<and> max_guests (snapshot r) = config_max_guests s"
  using reachable_inv [OF assms(1)] assms(2) by (simp add: service_inv_def room_inv_def)

theorem guests_within_limit_witness:
  "\<exists>r. open_room toy_joined = Some r \<and> fcard (fmdom (guests r)) \<le> config_max_guests toy_joined
     \<and> guest_count (snapshot r) = 1"
  using guests_within_limit [OF toy_joined_reachable toy_joined_eq]
  by (simp add: toy_joined_eq toy_open_eq)

text \<open>C6: the signals handed out say exactly who is still in the Room. A session's
  revocation has fired if and only if no Guest of the open Room holds it, and an audio stream
  was told to stop if and only if no Guest of the open Room owns it; so leaving, being swept,
  closing the Room and its expiry all end every stream of the Guest, and nothing else does.\<close>

theorem signals_exact:
  assumes "reachable mac skey s"
  shows "(\<forall>c < next_channel (cells s).
      revocations (cells s) c \<longleftrightarrow> (\<forall>k g. fmlookup (guests_of s) k = Some g \<longrightarrow> revoked g \<noteq> c))
    \<and> (\<forall>i. 0 < i \<and> i < next_audio_stream (cells s) \<longrightarrow>
      (stops (cells s) i \<longleftrightarrow> (\<forall>k g. fmlookup (guests_of s) k = Some g \<longrightarrow> i \<notin> stream_ids g)))"
  using live_channel_iff [OF service_inv_guests [OF reachable_inv [OF assms]]]
    live_stream_iff [OF service_inv_guests [OF reachable_inv [OF assms]]] by blast

theorem signals_exact_witness:
  "revocations (cells toy_joined) 0 \<longleftrightarrow> False"
proof -
  have "next_channel (cells toy_joined) = 1"
    unfolding toy_joined_def join_def
    by (simp add: with_room_open toy_open_eq split_beta)
       (simp add: join_action_def invite_matches_def toy_mac_def live_session_def fcard_fempty
         room_state_new_def split_beta admit_guest_def Let_def publish_def toy_open_cells shared_new_def)
  moreover have "fmlookup (guests_of toy_joined) ''g1'' = Some (new_guest 0 0)"
    by (simp add: guests_of_def toy_joined_eq)
  moreover have "revoked (new_guest 0 0) = 0" by (simp add: new_guest_def)
  ultimately show ?thesis
    using signals_exact [OF toy_joined_reachable] by fastforce
qed

text \<open>event channels follow the Room. In every reachable state the channel of the open
  Room carries exactly its current state, and the channel of every other Room, past or never
  opened, reads closed.\<close>

theorem feed_exact:
  assumes "reachable mac skey s"
  shows "feeds (cells s) gen =
    (case open_room s of
       Some r \<Rightarrow> if generation r = gen then FeedState (snapshot r) else FeedClosed
     | None \<Rightarrow> FeedClosed)"
  using reachable_inv [OF assms] by (auto simp: service_inv_def room_inv_def split: option.splits)

theorem feed_exact_witness:
  "feeds (cells toy_open) 1 = FeedState (room_state_new 2 ''later'' 0) \<and> feeds (cells toy_open) 2 = FeedClosed"
  using feed_exact [OF toy_open_reachable, of 1] feed_exact [OF toy_open_reachable, of 2]
  by (simp add: toy_open_eq)

lemma step_star: "reachable mac skey s \<Longrightarrow> (service_step mac skey)\<^sup>*\<^sup>* s s' \<Longrightarrow> reachable mac skey s'"
  by (rotate_tac, induction rule: rtranclp_induct) (auto intro: reachable.step)

lemma finish_no_panic:
  assumes "reachable mac skey s"
  shows "fst (with_room now (finish_action c cmd now_ms) s) \<noteq> Inl ThreadPanic"
proof (cases rule: with_room_cases [of now s "finish_action c cmd now_ms"])
  case (opened r)
  then have "room_wf (snapshot r)" using reachable_open [OF assms] by (auto simp: room_inv_def)
  then have "apply_command cmd now_ms (snapshot r) \<noteq> None" by (rule apply_command_no_panic)
  then have "fst (finish_action c cmd now_ms r (cells s)) \<noteq> Inl ThreadPanic"
    by (cases c) (auto simp: finish_action_def Let_def split: sum.split option.split prod.split)
  with opened show ?thesis by simp
qed simp

lemma admit_no_panic: "fst (with_room now (admit_action c now) s) \<noteq> Inl ThreadPanic"
  by (cases c) (auto simp: with_room_def admit_action_def split_beta Let_def split: option.split)

lemma require_tracks_no_panic: "require_tracks lib ts \<noteq> Inl ThreadPanic"
  by (induction ts) (auto split: track_lookup.split)



subsection \<open>Secrets and expiry\<close>

text \<open>The Invite Link as a client can read it from an answer.\<close>

lemma guest_views:
  assumes "reachable mac skey s" and "open_room s = Some r"
  shows "invite_url (view r (Guest ses)) = None" "invite_url (snapshot r) = None"
  using reachable_open [OF assms] by (simp_all add: room_inv_def)

lemma finish_guest_view:
  assumes "reachable mac skey s"
    and "fst (with_room now (finish_action (Guest ses) cmd now_ms) s) = Inr st"
  shows "invite_url st = None"
  using assms(2)
  by (cases rule: with_room_cases [of now s "finish_action (Guest ses) cmd now_ms"])
    (auto simp: finish_action_def Let_def guest_views [OF assms(1)] dest: apply_command_frame(4)
      split: sum.splits option.splits prod.splits if_splits)

lemma join_guest_view:
  assumes "reachable mac skey s"
    and "fst (join mac skey token current fresh now s) = Inr j"
  shows "invite_url (joined_state j) = None"
  using assms(2)
  by (cases rule: with_room_cases [of now s "join_action mac skey token current fresh now"])
    (auto simp: join_def split_beta join_action_def after_admit_eq guest_views [OF assms(1)] map_err_def
      split: sum.splits option.splits if_splits)

text \<open>C16: the Invite Link stays with the Owner. Whatever a Guest asks, the state in the
  answer (of a read, a join, a finished command) and on the event channel carries no Invite Link,
  and a Guest's subscription has none to add.\<close>

theorem guest_never_sees_invite:
  assumes "reachable mac skey s"
  shows "(fst (room_op (Guest ses) now s) = Inr st \<longrightarrow> invite_url st = None)
    \<and> (fst (join mac skey token current fresh now s) = Inr j \<longrightarrow> invite_url (joined_state j) = None)
    \<and> (fst (with_room now (finish_action (Guest ses) cmd now_ms) s) = Inr st \<longrightarrow> invite_url st = None)
    \<and> (feeds (cells s) gen = FeedState st \<longrightarrow> invite_url st = None)
    \<and> (fst (subscribe (Guest ses) now s) = Inr sub \<longrightarrow> sub_invite_url sub = None)"
proof (intro conjI impI)
  show "invite_url st = None" if "fst (room_op (Guest ses) now s) = Inr st"
    using that
    by (cases rule: with_room_cases [of now s "view_action (Guest ses)"])
      (auto simp: room_op_def view_action_def guest_views [OF assms] split: if_splits)
  show "invite_url st = None" if "feeds (cells s) gen = FeedState st"
    using that reachable_inv [OF assms]
    by (cases "open_room s") (auto simp: service_inv_def room_inv_def split: if_splits,
        metis feed.distinct(1) feed.inject)
  show "sub_invite_url sub = None" if "fst (subscribe (Guest ses) now s) = Inr sub"
    using that
    by (cases rule: with_room_cases [of now s "subscribe_action (Guest ses)"])
      (auto simp: subscribe_def split: option.splits)
qed (use assms in \<open>auto intro: finish_guest_view join_guest_view\<close>)

theorem guest_never_sees_invite_witness:
  "fst (room_op (Guest \<lparr>session_id = ''g1'', session_revoked = 0\<rparr>) 0 toy_joined)
     = Inr (set_guest_count 1 (room_state_new 2 ''later'' 0))
   \<and> invite_url (set_guest_count 1 (room_state_new 2 ''later'' 0)) = None"
proof -
  have "fst (room_op (Guest \<lparr>session_id = ''g1'', session_revoked = 0\<rparr>) 0 toy_joined)
     = Inr (set_guest_count 1 (room_state_new 2 ''later'' 0))"
    by (simp add: room_op_def with_room_open toy_joined_eq toy_open_eq view_action_def)
  with guest_never_sees_invite [OF toy_joined_reachable] show ?thesis by blast
qed

text \<open>once its closing time has come a Room is never used again. Every operation first
  ends it: the operation answers that there is no Room (a join that the invite is invalid, an
  authentication with no session), its channel reads closed and each of its Guests is revoked.\<close>

theorem expired_room_ends:
  assumes "open_room s = Some r" and "closes_at r \<le> now"
  shows "with_room now action s = (Inl NotFound, lock now s)
    \<and> fst (join mac skey token current fresh now s) = Inl InviteInvalid
    \<and> fst (authenticate skey token now s) = None
    \<and> fst (close_op now s) = Inl NotFound
    \<and> \<not> fst (sweep gen now s)
    \<and> open_room (lock now s) = None
    \<and> feeds (cells (lock now s)) (generation r) = FeedClosed
    \<and> (\<forall>k g. fmlookup (guests r) k = Some g \<longrightarrow> revocations (cells (lock now s)) (revoked g)
         \<and> (\<forall>i \<in> stream_ids g. stops (cells (lock now s)) i))"
  using assms
  by (auto simp: with_room_def join_def authenticate_def close_op_def sweep_def lock_expired map_err_def
      room_close_def drop_guests_fire fire_def channels_of_iff streams_of_iff)

theorem expired_room_ends_witness:
  "fst (join toy_mac id ''tok'' None ''g2'' (24 * 60 * 60 * 10 ^ 9) toy_joined) = Inl InviteInvalid"
proof -
  have "closes_at (the (open_room toy_open)) \<le> 24 * 60 * 60 * 10 ^ 9" by (simp add: toy_open_eq)
  then show ?thesis by (intro expired_room_ends [OF toy_joined_eq, THEN conjunct2, THEN conjunct1]) simp
qed

subsection \<open>Joining and leaving\<close>

lemma join_Inr:
  assumes "join mac skey token current fresh now s = (Inr j, s')"
  obtains r where "open_room s = Some r" "now < closes_at r" "invite_matches mac r token"
    "join_action mac skey token current fresh now r (cells s) = (Inr j, the (open_room s'), cells s')"
    "s' = s\<lparr>open_room := open_room s', cells := cells s'\<rparr>" "open_room s' \<noteq> None"
  using assms
proof (cases rule: with_room_cases [of now s "join_action mac skey token current fresh now"])
  case (opened r)
  with assms have j: "fst (join_action mac skey token current fresh now r (cells s)) = Inr j"
    and s': "s' = s\<lparr>open_room := Some (after_room (join_action mac skey token current fresh now r (cells s))),
      cells := after_cells (join_action mac skey token current fresh now r (cells s))\<rparr>"
    by (simp_all add: join_def)
  then have "invite_matches mac r token" by (auto simp: join_action_def split: if_splits)
  with opened j s' show ?thesis
    by (intro that [of r]) (simp_all add: prod_eq_iff)
qed (simp add: join_def)

lemma join_action_live:
  assumes "join_action mac skey token current fresh now r sh = (Inr j, r', sh')"
  shows "skey (session_token j) |\<in>| fmdom (guests r')" "joined_state j = snapshot r'"
    "invite_key r' = invite_key r" "invite_tag r' = invite_tag r" "closes_at r' = closes_at r"
  using assms
  by (auto simp: join_action_def live_session_def split_beta admit_guest_eq Let_def
      split: if_splits option.splits)

lemma join_live:
  assumes "join mac skey token current fresh now s = (Inr j, s')"
  obtains r' where "open_room s' = Some r'" "skey (session_token j) |\<in>| fmdom (guests r')"
    "joined_state j = snapshot r'" "invite_matches mac r' token"
  using assms
proof (rule join_Inr)
  fix r assume r: "invite_matches mac r token" "open_room s' \<noteq> None"
    "join_action mac skey token current fresh now r (cells s) = (Inr j, the (open_room s'), cells s')"
  then obtain r' where "open_room s' = Some r'" by blast
  with r join_action_live [OF r(3)] show ?thesis
    by (intro that [of r']) (simp_all add: invite_matches_def)
qed

lemma join_reachable:
  "reachable mac skey s \<Longrightarrow> join mac skey token current fresh now s = (res, s') \<Longrightarrow> reachable mac skey s'"
  using reachable.step [OF _ step_join] by (metis snd_conv)

text \<open>a join that succeeds is worth something. Its session token authenticates for as
  long as the Room lasts and nothing else happens, to a session that the Room accepts and whose
  revocation has not fired.\<close>

theorem join_then_authenticate:
  assumes "reachable mac skey s" and "join mac skey token current fresh now s = (Inr j, s')"
    and "open_room s' = Some r'" and "later < closes_at r'"
  shows "\<exists>ses. authenticate skey (session_token j) later s' = (Some ses, s')
    \<and> session_id ses = skey (session_token j) \<and> require r' (Guest ses) = Inr ()
    \<and> \<not> revocations (cells s') (session_revoked ses)"
proof -
  from assms(2,3) have k: "skey (session_token j) |\<in>| fmdom (guests r')" by (auto elim: join_live)
  then obtain g where g: "fmlookup (guests r') (skey (session_token j)) = Some g"
    by (meson fmdomE)
  have "guests_inv (guests r') (cells s')"
    using reachable_open [OF join_reachable [OF assms(1,2)] assms(3)] by (simp add: room_inv_def)
  from guest_channel_live [OF this g] g k show ?thesis
    using assms(3,4) by (simp add: authenticate_def lock_open)
qed

text \<open>The join of the toy world as an equation.\<close>

lemma toy_join: "join toy_mac id ''tok'' None ''g1'' 0 toy_open =
    (Inr \<lparr>session_token = ''g1'', joined_state = set_guest_count 1 (room_state_new 2 ''later'' 0)\<rparr>, toy_joined)"
  unfolding toy_joined_def join_def
  by (simp add: with_room_open toy_open_eq split_beta prod_eq_iff)
     (simp add: join_action_def invite_matches_def toy_mac_def live_session_def fcard_fempty
       room_state_new_def split_beta after_admit_eq fcard_finsert_if)

theorem join_then_authenticate_witness:
  "\<exists>ses. authenticate id ''g1'' 5 toy_joined = (Some ses, toy_joined) \<and> session_id ses = ''g1''"
proof -
  have "5 < closes_at (the (open_room toy_open)\<lparr>guests := fmupd ''g1'' (new_guest 0 0) fmempty,
      snapshot := set_guest_count 1 (room_state_new 2 ''later'' 0)\<rparr>)" by (simp add: toy_open_eq)
  from join_then_authenticate [OF toy_open_reachable toy_join toy_joined_eq this]
  show ?thesis by auto
qed

text \<open>a browser takes one place only. Joining again with the invite and the session it was
  given answers with the same session and the same state and changes nothing at all.\<close>

theorem rejoin_keeps_place:
  assumes "join mac skey token current fresh now s = (Inr j, s')"
    and "open_room s' = Some r'" and "later < closes_at r'"
  shows "join mac skey token (Some (session_token j)) fresh' later s' = (Inr j, s')"
proof -
  from assms(1,2) have "skey (session_token j) |\<in>| fmdom (guests r')" "joined_state j = snapshot r'"
    "invite_matches mac r' token" by (auto elim: join_live)
  then have "join_action mac skey token (Some (session_token j)) fresh' later r' (cells s') = (Inr j, r', cells s')"
    by (simp add: join_action_def live_session_def)
  with assms(2,3) show ?thesis by (simp add: join_def with_room_open)
qed

theorem rejoin_keeps_place_witness:
  "\<exists>j. join toy_mac id ''tok'' (Some ''g1'') ''g2'' 7 toy_joined = (Inr j, toy_joined)"
proof -
  have "7 < closes_at (the (open_room toy_open)\<lparr>guests := fmupd ''g1'' (new_guest 0 0) fmempty,
      snapshot := set_guest_count 1 (room_state_new 2 ''later'' 0)\<rparr>)" by (simp add: toy_open_eq)
  from rejoin_keeps_place [OF toy_join toy_joined_eq this, of "''g2''"] show ?thesis by auto
qed

text \<open>leaving frees the place at once. A Guest who leaves is revoked and can no longer
  authenticate, everyone is told one Guest less, and whoever holds the invite finds a place.\<close>

theorem leave_frees_place:
  assumes "reachable mac skey s" and "open_room s = Some r" and "now < closes_at r"
    and "fmlookup (guests r) (session_id ses) = Some g"
  shows "\<exists>r' s'. leave ses now s = (Inr (), s') \<and> open_room s' = Some r'
    \<and> guest_count (snapshot r') + 1 = guest_count (snapshot r)
    \<and> feeds (cells s') (generation r) = FeedState (snapshot r')
    \<and> revocations (cells s') (revoked g)
    \<and> (\<forall>t. skey t = session_id ses \<longrightarrow> fst (authenticate skey t now s') = None)
    \<and> (\<forall>token current fresh. invite_matches mac r token \<longrightarrow>
         is_ok (fst (join mac skey token current fresh now s')))"
proof -
  have mem: "session_id ses |\<in>| fmdom (guests r)" using assms(4) by (rule fmdomI)
  from reachable_open [OF assms(1,2)] have inv: "guest_count (snapshot r) = fcard (fmdom (guests r))"
    "fcard (fmdom (guests r)) \<le> max_guests (snapshot r)" by (simp_all add: room_inv_def)
  have card: "fcard (fmdom (guests r) |-| {|session_id ses|}) + 1 = fcard (fmdom (guests r))"
    using mem by (metis Suc_eq_plus1 fcard_Suc_fminus1)
  have ran: "fmlookup (fmrestrict_fset {|session_id ses|} (guests r)) (session_id ses) = Some g"
    using assms(4) by (simp add: fmfilter_alt_defs)
  let ?r = "r\<lparr>guests := fmdrop (session_id ses) (guests r),
    snapshot := set_guest_count (fcard (fmdom (guests r) |-| {|session_id ses|})) (snapshot r)\<rparr>"
  let ?sh = "publish ?r (drop_guests (fmrestrict_fset {|session_id ses|} (guests r)) (cells s))"
  let ?s = "s\<lparr>open_room := Some ?r, cells := ?sh\<rparr>"
  have "leave ses now s = (Inr (), ?s)"
    using assms(2-4) by (simp add: leave_def with_room_open leave_action_def Let_def)
  moreover have "revocations ?sh (revoked g)"
    using ran by (auto simp: publish_def drop_guests_fire fire_def channels_of_iff)
  moreover have "fst (authenticate skey t now ?s) = None" if "skey t = session_id ses" for t
    using that assms(3) by (simp add: authenticate_def lock_def Let_def)
  moreover have "is_ok (fst (join mac skey token current fresh now ?s))" if "invite_matches mac r token"
    for token current fresh
    using that assms(3) card inv(2)
    by (simp add: join_def with_room_open split_beta join_action_def invite_matches_def split: option.split)
  ultimately show ?thesis using card inv(1) by auto
qed

theorem leave_frees_place_witness:
  "\<exists>s'. leave \<lparr>session_id = ''g1'', session_revoked = 0\<rparr> 3 toy_joined = (Inr (), s')"
proof -
  have "3 < closes_at (the (open_room toy_open)\<lparr>guests := fmupd ''g1'' (new_guest 0 0) fmempty,
      snapshot := set_guest_count 1 (room_state_new 2 ''later'' 0)\<rparr>)" by (simp add: toy_open_eq)
  from leave_frees_place [OF toy_joined_reachable toy_joined_eq this,
      of "\<lparr>session_id = ''g1'', session_revoked = 0\<rparr>"]
  show ?thesis by auto
qed

subsection \<open>Audio streams and presence\<close>

lemma open_audio_eq:
  assumes "open_room s = Some r" and "now < closes_at r"
  shows "open_audio_stream ses t now s = (fst (audio_action ses t r (cells s)),
    s\<lparr>open_room := Some (after_room (audio_action ses t r (cells s))),
      cells := after_cells (audio_action ses t r (cells s))\<rparr>)"
  using with_room_open [OF assms] by (simp add: open_audio_stream_def)

lemma open_audio_reachable:
  "reachable mac skey s \<Longrightarrow> reachable mac skey (snd (open_audio_stream ses t now s))"
  using reachable.step [OF _ step_open_audio] by blast

text \<open>a Guest holds at most four audio streams and a seek is never refused. Opening one
  more is refused exactly when four are open and none of them plays that target; when four are
  open and one does, the oldest of that target is stopped and gives its place to the new one,
  and every other stream plays on.\<close>

theorem audio_stream_limit:
  assumes "reachable mac skey s" and "open_room s = Some r" and "now < closes_at r"
    and "fmlookup (guests r) (session_id ses) = Some g"
  shows "length (audio_streams g) \<le> 4
    \<and> (fst (open_audio_stream ses t now s) = Inl RateLimited
        \<longleftrightarrow> length (audio_streams g) = 4 \<and> t \<notin> stream_target ` set (audio_streams g))
    \<and> (length (audio_streams g) = 4 \<and> t \<in> stream_target ` set (audio_streams g) \<longrightarrow>
        (\<exists>xs a ys slot s'. audio_streams g = xs @ a # ys \<and> stream_target a = t
           \<and> t \<notin> stream_target ` set xs
           \<and> open_audio_stream ses t now s = (Inr slot, s')
           \<and> fmlookup (guests_of s') (session_id ses) = Some (g\<lparr>audio_streams :=
               xs @ ys @ [\<lparr>stream_id = slot_id slot, stream_target = t\<rparr>]\<rparr>)
           \<and> stops (cells s') = (stops (cells s))(stream_id a := True)))"
proof -
  from reachable_open [OF assms(1,2)] assms(4) have len: "length (audio_streams g) \<le> 4"
    by (auto simp: guest_ok_def MAX_AUDIO_STREAMS_def dest: room_inv_guest)
  note eq = open_audio_eq [OF assms(2,3), of ses t]
  have "fst (open_audio_stream ses t now s) = Inl RateLimited
      \<longleftrightarrow> length (audio_streams g) = 4 \<and> remove_target t (audio_streams g) = None"
    using len assms(4)
    by (auto simp: eq audio_action_def push_stream_def Let_def MAX_AUDIO_STREAMS_def split: option.split)
  moreover have "\<exists>xs a ys slot s'. audio_streams g = xs @ a # ys \<and> stream_target a = t
      \<and> t \<notin> stream_target ` set xs \<and> open_audio_stream ses t now s = (Inr slot, s')
      \<and> fmlookup (guests_of s') (session_id ses) = Some (g\<lparr>audio_streams :=
          xs @ ys @ [\<lparr>stream_id = slot_id slot, stream_target = t\<rparr>]\<rparr>)
      \<and> stops (cells s') = (stops (cells s))(stream_id a := True)"
    if four: "length (audio_streams g) = 4" and tgt: "t \<in> stream_target ` set (audio_streams g)"
  proof -
    from tgt obtain a rest where a: "remove_target t (audio_streams g) = Some (a, rest)"
      using remove_target_None [of t "audio_streams g"] by (cases "remove_target t (audio_streams g)") auto
    from remove_target_split [OF this] obtain xs ys where
      xs: "audio_streams g = xs @ a # ys" "rest = xs @ ys" "stream_target a = t"
        "\<forall>x \<in> set xs. stream_target x \<noteq> t" by blast
    from xs(4) have "t \<notin> stream_target ` set xs" by auto
    moreover have "audio_action ses t r (cells s) =
        push_stream (session_id ses) t (g\<lparr>audio_streams := rest\<rparr>) r (drop_streams [a] (cells s))"
      using four assms(4) a by (simp add: audio_action_def MAX_AUDIO_STREAMS_def)
    ultimately show ?thesis using xs(1-3)
      by (intro exI [of _ xs] exI [of _ a] exI [of _ ys])
        (auto simp: eq push_stream_def Let_def guests_of_def drop_streams_def)
  qed
  ultimately show ?thesis using len remove_target_None [of t "audio_streams g"] by auto
qed

theorem audio_stream_limit_witness:
  "fst (open_audio_stream \<lparr>session_id = ''g1'', session_revoked = 0\<rparr> ''/a'' 0 toy_joined) \<noteq> Inl RateLimited"
proof -
  have "0 < closes_at (the (open_room toy_open)\<lparr>guests := fmupd ''g1'' (new_guest 0 0) fmempty,
      snapshot := set_guest_count 1 (room_state_new 2 ''later'' 0)\<rparr>)" by (simp add: toy_open_eq)
  from audio_stream_limit [OF toy_joined_reachable toy_joined_eq this,
      of "\<lparr>session_id = ''g1'', session_revoked = 0\<rparr>" "new_guest 0 0" "''/a''"]
  show ?thesis by (simp add: new_guest_def)
qed

lemma live_guest_lock: "live_guest gen k s = None \<Longrightarrow> live_guest gen k (lock now s) = None"
  by (auto simp: live_guest_def lock_def split: option.splits if_splits)

text \<open>a handle that outlives its Room does no harm. Ending an audio stream or an event
  stream of an earlier Room, or of a Guest who has gone, only does what taking the lock does.\<close>

theorem stale_handles_harmless:
  assumes "\<And>r. open_room s = Some r \<Longrightarrow> generation r \<noteq> gen \<or> k |\<notin>| fmdom (guests r)"
  shows "audio_stream_ended \<lparr>slot_generation = gen, slot_key = k, slot_id = i\<rparr> now s = lock now s
    \<and> stream_ended gen k now s = lock now s"
proof -
  have "live_guest gen k s = None"
    using assms by (fastforce simp: live_guest_def split: option.split)
  from live_guest_lock [OF this] show ?thesis by (simp add: audio_stream_ended_def stream_ended_def)
qed

theorem stale_handles_harmless_witness:
  "stream_ended 0 ''g1'' 5 toy_joined = lock 5 toy_joined"
  using stale_handles_harmless [of toy_joined 0 "''g1''" 1 5] by (simp add: toy_joined_eq toy_open_eq)

lemma audio_action_open:
  assumes "fmlookup (guests r) (session_id ses) = Some g" and "length (audio_streams g) < 4"
  shows "audio_action ses t r sh = push_stream (session_id ses) t g r sh"
  using assms by (simp add: audio_action_def MAX_AUDIO_STREAMS_def)

text \<open>a stream that ends gives its place back. Opening an audio stream and dropping its
  slot leaves the Guest with the streams it had before, and the dropped stream reads stopped.\<close>

theorem audio_stream_round_trip:
  assumes "reachable mac skey s" and "open_room s = Some r" and "now < closes_at r" and "later < closes_at r"
    and "fmlookup (guests r) (session_id ses) = Some g" and "length (audio_streams g) < 4"
  shows "\<exists>slot s'. open_audio_stream ses t now s = (Inr slot, s')
    \<and> guests_of (audio_stream_ended slot later s') = guests r
    \<and> stops (cells (audio_stream_ended slot later s')) (slot_id slot)"
proof -
  let ?i = "next_audio_stream (cells s)"
  let ?g = "g\<lparr>audio_streams := audio_streams g @ [\<lparr>stream_id = ?i, stream_target = t\<rparr>]\<rparr>"
  let ?slot = "\<lparr>slot_generation = generation r, slot_key = session_id ses, slot_id = ?i\<rparr>"
  let ?s = "s\<lparr>open_room := Some (set_guest (session_id ses) ?g r),
    cells := (cells s)\<lparr>next_audio_stream := Suc ?i\<rparr>\<rparr>"
  have inv: "guests_inv (guests r) (cells s)" using reachable_open [OF assms(1,2)] by (simp add: room_inv_def)
  have old: "x < ?i" if "x \<in> stream_ids g" for x
    using inv owned_member [of "streams_of (guests r)" "live_streams (cells s)" x "session_id ses"] that assms(5)
    by (auto simp: guests_inv_def streams_of_def live_streams_def)
  have kept: "filter (\<lambda>a. stream_id a \<noteq> ?i) (audio_streams g) = audio_streams g"
    using old by (fastforce simp: filter_id_conv)
  have o: "open_audio_stream ses t now s = (Inr ?slot, ?s)"
    using open_audio_eq [OF assms(2,3)] audio_action_open [OF assms(5,6)]
    by (simp add: push_stream_def Let_def)
  have l: "lock later ?s = ?s" using assms(4) by (simp add: lock_def)
  have "live_guest (generation r) (session_id ses) ?s = Some (set_guest (session_id ses) ?g r, ?g)"
    by (simp add: live_guest_Some)
  then have e: "audio_stream_ended ?slot later ?s =
      ?s\<lparr>open_room := Some (set_guest (session_id ses) (?g\<lparr>audio_streams := audio_streams g\<rparr>)
           (set_guest (session_id ses) ?g r)),
         cells := drop_streams (filter (\<lambda>a. stream_id a = ?i) (audio_streams ?g)) (cells ?s)\<rparr>"
    by (simp add: audio_stream_ended_def l Let_def kept)
  have "fmupd (session_id ses) g (fmupd (session_id ses) ?g (guests r)) = guests r"
    using assms(5) by (intro fmap_ext) auto
  then have "guests_of (audio_stream_ended ?slot later ?s) = guests r"
    by (simp add: e guests_of_def)
  moreover have "stops (cells (audio_stream_ended ?slot later ?s)) ?i"
    by (simp add: e drop_streams_def)
  ultimately show ?thesis using o by (metis audio_slot.select_convs(3))
qed

theorem audio_stream_round_trip_witness:
  "\<exists>slot s'. open_audio_stream \<lparr>session_id = ''g1'', session_revoked = 0\<rparr> ''/a'' 0 toy_joined = (Inr slot, s')"
proof -
  have "0 < closes_at (the (open_room toy_open)\<lparr>guests := fmupd ''g1'' (new_guest 0 0) fmempty,
      snapshot := set_guest_count 1 (room_state_new 2 ''later'' 0)\<rparr>)" by (simp add: toy_open_eq)
  from audio_stream_round_trip [OF toy_joined_reachable toy_joined_eq this this,
      of "\<lparr>session_id = ''g1'', session_revoked = 0\<rparr>" "new_guest 0 0" "''/a''"]
  show ?thesis by (auto simp: new_guest_def)
qed

lemma sweep_room_snapshot:
  assumes "room_inv r sh"
  shows "feeds (snd (sweep_room grace now r sh)) (generation r) = FeedState (snapshot (fst (sweep_room grace now r sh)))"
    "guest_count (snapshot (fst (sweep_room grace now r sh))) = fcard (fmdom (guests (fst (sweep_room grace now r sh))))"
  using sweep_room_inv [OF assms, of grace now] sweep_room_frame(1) [of grace now r sh]
  by (simp_all add: room_inv_def)

text \<open>the sweep removes exactly the Guests who are gone. A Guest stays if and only if it
  has an open event stream or disconnected less than the grace period ago; every other Guest is
  revoked, and the Room's channel shows the Guests left. The sweeper goes on while this is its
  Room.\<close>

theorem sweep_exact:
  assumes "reachable mac skey s" and "open_room s = Some r" and "now < closes_at r"
  shows "\<exists>r' s'. sweep (generation r) now s = (True, s') \<and> open_room s' = Some r'
    \<and> (\<forall>k. fmlookup (guests r') k =
        (case fmlookup (guests r) k of
           Some g \<Rightarrow> if 0 < open_streams g \<or> now - disconnected_at g < guest_grace (service_timings s)
                     then Some g else None
         | None \<Rightarrow> None))
    \<and> (\<forall>k g. fmlookup (guests r) k = Some g \<longrightarrow>
         (revocations (cells s') (revoked g) \<longleftrightarrow> k |\<notin>| fmdom (guests r')))
    \<and> feeds (cells s') (generation r) = FeedState (snapshot r')
    \<and> guest_count (snapshot r') = fcard (fmdom (guests r'))"
proof -
  let ?grace = "guest_grace (service_timings s)"
  let ?x = "sweep_room ?grace now r (cells s)"
  let ?P = "staying ?grace now (guests r)"
  have eq: "sweep (generation r) now s = (True, s\<lparr>open_room := Some (fst ?x), cells := snd ?x\<rparr>)"
    using assms(2,3) by (simp add: sweep_def lock_open split_beta)
  have g': "guests (fst ?x) = fmfilter ?P (guests r)"
    by (simp add: sweep_room_def Let_def)
  have rev: "revocations (snd ?x) c \<longleftrightarrow> revocations (cells s) c
      \<or> (\<exists>k g. fmlookup (guests r) k = Some g \<and> \<not> ?P k \<and> revoked g = c)" for c
    by (auto simp: sweep_room_def Let_def publish_def drop_guests_fire fire_def channels_of_iff
        fmlookup_filter split: if_splits)
  have inv: "room_inv r (cells s)" using reachable_open [OF assms(1,2)] .
  then have gi: "guests_inv (guests r) (cells s)" by (simp add: room_inv_def)
  have same: "k = k'" if "fmlookup (guests r) k = Some g" "fmlookup (guests r) k' = Some g'"
    "revoked g = revoked g'" for k k' g g'
  proof (rule ccontr)
    assume "k \<noteq> k'"
    with gi have "channels_of (guests r) k \<inter> channels_of (guests r) k' = {}"
      by (simp add: guests_inv_def owned_def)
    with that show False by (simp add: channels_of_def)
  qed
  have "revocations (snd ?x) (revoked g) \<longleftrightarrow> k |\<notin>| fmdom (fmfilter ?P (guests r))"
    if "fmlookup (guests r) k = Some g" for k g
  proof -
    have "revocations (snd ?x) (revoked g) \<longleftrightarrow> \<not> ?P k"
      unfolding rev using that guest_channel_live(1) [OF gi that] same by metis
    with fmdomI [OF that] show ?thesis by simp
  qed
  moreover have "fmlookup (fmfilter ?P (guests r)) k =
        (case fmlookup (guests r) k of
           Some g \<Rightarrow> if 0 < open_streams g \<or> now - disconnected_at g < ?grace then Some g else None
         | None \<Rightarrow> None)" for k
    by (simp add: fmlookup_filter staying_def guest_stays_def split: option.split)
  ultimately show ?thesis
    using sweep_room_snapshot [OF inv, of ?grace now]
    by (intro exI [of _ "fst ?x"] exI [of _ "s\<lparr>open_room := Some (fst ?x), cells := snd ?x\<rparr>"])
      (simp add: eq g' del: fmlookup_filter fmdom_filter)
qed

theorem sweep_exact_witness:
  "\<exists>r' s'. sweep 1 (60 * 10 ^ 9) toy_joined = (True, s') \<and> open_room s' = Some r' \<and> guest_count (snapshot r') = 0"
proof -
  let ?r = "the (open_room toy_open)\<lparr>guests := fmupd ''g1'' (new_guest 0 0) fmempty,
      snapshot := set_guest_count 1 (room_state_new 2 ''later'' 0)\<rparr>"
  have c: "60 * 10 ^ 9 < closes_at ?r" "generation ?r = 1" by (simp_all add: toy_open_eq)
  from sweep_exact [OF toy_joined_reachable toy_joined_eq c(1)] obtain r' s' where
    s': "sweep 1 (60 * 10 ^ 9) toy_joined = (True, s')" "open_room s' = Some r'"
    and g: "\<forall>k. fmlookup (guests r') k = (case fmlookup (guests ?r) k of
           Some g \<Rightarrow> if 0 < open_streams g \<or> 60 * 10 ^ 9 - disconnected_at g < guest_grace (service_timings toy_joined)
                     then Some g else None
         | None \<Rightarrow> None)"
    and n: "guest_count (snapshot r') = fcard (fmdom (guests r'))"
    unfolding c(2) by blast
  have t: "service_timings toy_joined = timings_default"
    unfolding toy_joined_def join_def
    by (simp add: with_room_open toy_open_eq split_beta) (simp add: toy_open_def toy_defs)
  have "guests r' = fmempty"
    using g by (intro fmap_ext) (simp add: t timings_default_def seconds_def new_guest_def)
  with s' n show ?thesis by (auto simp: fcard_fempty)
qed

text \<open>The library: a Track list is accepted when every Track of it is known.\<close>

lemma require_tracks_ok: "require_tracks lib ts = Inr () \<longleftrightarrow> (\<forall>t \<in> set ts. lib t = TrackFound)"
  by (induction ts) (auto split: track_lookup.split)

text \<open>only known Tracks are played. When a play command succeeds, whatever order the
  Track set is walked in and whatever other requests do meanwhile, the library knows every one of
  its Tracks, there are between one and five hundred, and the Room plays exactly that list from the
  requested index, at position zero.\<close>

theorem play_known_tracks:
  assumes "fst (command lib order others c (PlayTracks ids i) now later now_ms s) = Inr st"
    and "set (order ids) = set ids"
  shows "(\<forall>t \<in> set ids. lib t = TrackFound) \<and> i < length ids \<and> length ids \<le> 500
    \<and> track_ids st = ids \<and> current_index st = Some i \<and> playing st
    \<and> position_ms st = 0 \<and> position_at_ms st = now_ms"
proof -
  let ?s1 = "snd (with_room now (admit_action c now) s)"
  from assms(1) have v: "validate_command (PlayTracks ids i) = Inr ()"
    and k: "require_tracks lib (order ids) = Inr ()"
    and f: "fst (with_room later (finish_action c (PlayTracks ids i) now_ms) (others ?s1)) = Inr st"
    by (auto simp: command_def split_beta Let_def simp del: validate_command.simps split: sum.splits)
  have "track_ids st = ids \<and> current_index st = Some i \<and> playing st
    \<and> position_ms st = 0 \<and> position_at_ms st = now_ms"
    using f
    by (cases rule: with_room_cases [of later "others ?s1" "finish_action c (PlayTracks ids i) now_ms"];
        cases c)
      (auto simp: finish_action_def apply_command_def room_ops owner_view_def Let_def split: if_splits)
  moreover from v have "i < length ids" "length ids \<le> 500"
    by (auto simp: MAX_ROOM_QUEUE_TRACKS_def split: if_splits)
  ultimately show ?thesis using k assms(2) by (auto simp: require_tracks_ok)
qed

lemma toy_owner_bucket: "fst (bucket_take 0 (bucket_new COMMANDS 0))"
  by (simp add: bucket_take_def bucket_new_def COMMANDS_def f64.rnd_integer [of 20, simplified] Let_def)

lemma toy_play: "fst (command (\<lambda>_. TrackFound) rev id Owner (PlayTracks [''a'', ''b''] 1) 0 0 9 toy_open)
    = Inr (owner_view (the (open_room toy_open)\<lparr>snapshot :=
        (room_state_new 2 ''later'' 0)\<lparr>revision := 2, track_ids := [''a'', ''b''], current_index := Some 1,
          playing := True, position_at_ms := 9\<rparr>\<rparr>))"
  using toy_owner_bucket
  by (simp add: command_def with_room_open toy_open_eq admit_action_def split_beta
      MAX_ROOM_QUEUE_TRACKS_def finish_action_def apply_command_def room_ops owner_view_def
      room_state_new_def wrapping_add_exact i64_defs Let_def)

theorem play_known_tracks_witness:
  "current_index (owner_view (the (open_room toy_open)\<lparr>snapshot :=
        (room_state_new 2 ''later'' 0)\<lparr>revision := 2, track_ids := [''a'', ''b''], current_index := Some 1,
          playing := True, position_at_ms := 9\<rparr>\<rparr>)) = Some 1"
  using play_known_tracks [OF toy_play, THEN conjunct2, THEN conjunct2, THEN conjunct2, THEN conjunct2, THEN conjunct1]
  by (simp add: insert_commute)

end
