(* ===== verification/Room_Contract.thy ===== *)
theory Room_Contract
  imports Room_Properties
begin

text \<open>
  What the Room service promises in the words of its documentation: one Room at
  a time, each with an identity of its own, Guests entering one at a time while
  there is a place and going in any number. The detailed service refines this.
\<close>

subsection \<open>The specification\<close>

text \<open>The next Room's identity, and the open Room with the sessions in it.\<close>

type_synonym rooms = "nat \<times> (nat \<times> string set) option"

inductive contract_step :: "nat \<Rightarrow> rooms \<Rightarrow> rooms \<Rightarrow> bool" for limit where
  same: "contract_step limit x x"
| opens: "contract_step limit (n, None) (Suc n, Some (n, {}))"
| ends: "contract_step limit (n, Some x) (n, None)"
| enters: "card S < limit \<Longrightarrow> contract_step limit (n, Some (i, S)) (n, Some (i, insert k S))"
| goes: "T \<subseteq> S \<Longrightarrow> contract_step limit (n, Some (i, S)) (n, Some (i, T))"

definition rooms_of :: "service \<Rightarrow> rooms" where
  "rooms_of s = (next_generation s, map_option (\<lambda>r. (generation r, fset (fmdom (guests r)))) (open_room s))"

subsection \<open>Refinement\<close>

lemma lock_refines: "contract_step n (rooms_of s) (rooms_of (lock now s))"
  by (auto simp: rooms_of_def lock_def intro: contract_step.intros split: option.split)

text \<open>An action refines the contract when it keeps the Room and its Guests enter or go.\<close>

locale contract_action = room_action action for action :: "'a action" +
  assumes moves: "room_inv r sh \<Longrightarrow>
    contract_step (max_guests (snapshot r)) (n, Some (i, fset (fmdom (guests r))))
      (n, Some (i, fset (fmdom (guests (after_room (action r sh))))))"
begin

lemma with_room_refines:
  assumes "service_inv s"
  shows "contract_step (config_max_guests s) (rooms_of (lock now s)) (rooms_of (snd (with_room now action s)))"
proof (cases rule: with_room_cases [of now s action])
  case (opened r)
  with assms have "room_inv r (cells s)" "max_guests (snapshot r) = config_max_guests s"
    by (simp_all add: service_inv_def)
  with moves [of r "cells s"] opened show ?thesis
    by (auto simp: rooms_of_def keeps_room)
qed (auto simp: contract_step.same)

end

lemma guests_same:
  "fmdom (guests r') = fmdom (guests r) \<Longrightarrow>
   contract_step m (n, Some (i, fset (fmdom (guests r)))) (n, Some (i, fset (fmdom (guests r'))))"
  by (simp add: contract_step.same)

lemma finsert_guest: "fmlookup m k = Some g \<Longrightarrow> finsert k (fmdom m) = fmdom m"
  by (simp add: fmdomI finsert_absorb)

interpretation view_con: contract_action "view_action c" for c
  by unfold_locales (rule guests_same, simp add: view_action_def)

interpretation read_con: contract_action "read_action ses k now" for ses k now
  by unfold_locales (rule guests_same, simp add: read_action_def split_beta finsert_guest split: option.split)

interpretation admit_con: contract_action "admit_action c now" for c now
  by unfold_locales
    (rule guests_same, cases c; simp add: admit_action_def split_beta finsert_guest split: option.split)

interpretation finish_con: contract_action "valid_finish c cmd now_ms" for c cmd now_ms
proof unfold_locales
  fix r sh n i
  show "contract_step (max_guests (snapshot r)) (n, Some (i, fset (fmdom (guests r))))
      (n, Some (i, fset (fmdom (guests (after_room (valid_finish c cmd now_ms r sh))))))"
    using after_finish [of c cmd now_ms r sh] by (intro guests_same) (auto simp: valid_finish_def)
qed

interpretation audio_con: contract_action "audio_action ses t" for ses t
  by unfold_locales
    (rule guests_same, simp add: audio_action_def push_stream_def Let_def finsert_guest
      split: option.split prod.split)

interpretation subscribe_con: contract_action "subscribe_action c" for c
  by unfold_locales (rule guests_same, cases c; simp add: finsert_guest split: option.split)

interpretation join_con: contract_action "join_action mac skey token current fresh now"
  for mac skey token current fresh now
  by unfold_locales
    (auto simp: join_action_def split_beta after_admit_eq fcard.rep_eq
      intro: contract_step.intros split: option.split)

interpretation leave_con: contract_action "leave_action ses" for ses
  by unfold_locales
    (auto simp: leave_action_def Let_def intro!: contract_step.goes split: option.split)

lemma open_op_refines:
  "\<exists>m. contract_step n (rooms_of s) m \<and> contract_step n m (rooms_of (snd (open_op mac token key expires now now_ms s)))"
proof (cases "public_origin s = None")
  case True
  then have "rooms_of (snd (open_op mac token key expires now now_ms s)) = rooms_of s"
    by (simp add: open_op_def)
  then show ?thesis by (metis contract_step.same)
next
  case False
  then have "contract_step n (rooms_of (lock now s)) (rooms_of (snd (open_op mac token key expires now now_ms s)))"
    by (auto simp: open_op_def Let_def rooms_of_def intro: contract_step.intros split: option.split)
  with lock_refines show ?thesis by blast
qed

lemma close_op_refines: "contract_step n (rooms_of (lock now s)) (rooms_of (snd (close_op now s)))"
  by (auto simp: close_op_def Let_def rooms_of_def intro: contract_step.intros split: option.split)

lemma handles_refine:
  "rooms_of (audio_stream_ended slot now s) = rooms_of (lock now s)"
  "rooms_of (stream_ended gen k now s) = rooms_of (lock now s)"
  by (auto simp: audio_stream_ended_def stream_ended_def Let_def rooms_of_def live_guest_Some
      dest: finsert_guest split: option.split)

lemma sweep_refines: "contract_step n (rooms_of (lock now s)) (rooms_of (snd (sweep gen now s)))"
  by (auto simp: sweep_def Let_def split_beta rooms_of_def sweep_room_def
      intro!: contract_step.goes contract_step.same split: option.split)

lemma step_config: "service_step mac skey s s' \<Longrightarrow> config_max_guests s' = config_max_guests s"
  by (induction rule: service_step.induct)
    (auto simp: open_op_def close_op_def room_op_def take_join_def take_read_def open_audio_stream_def
      audio_stream_ended_def join_def authenticate_def leave_def subscribe_def stream_ended_def sweep_def
      with_room_def Let_def split_beta split: option.split)

text \<open>C5: the service refines its specification. From any reachable state, one critical
  section is at most two steps of the specification, expiry and then the operation itself: Rooms
  open one at a time and under an identity never used before, Guests enter one at a time and only
  below the limit, and otherwise they only go.\<close>

theorem service_refines:
  assumes "reachable mac skey s" and "service_step mac skey s s'"
  shows "\<exists>m. contract_step (config_max_guests s) (rooms_of s) m
    \<and> contract_step (config_max_guests s) m (rooms_of s')
    \<and> config_max_guests s' = config_max_guests s"
proof -
  have inv: "service_inv s" using assms(1) by (rule reachable_inv)
  have via: "\<exists>m. contract_step n (rooms_of s) m \<and> contract_step n m (rooms_of s')"
    if "contract_step n (rooms_of (lock now s)) (rooms_of s')" for n now s'
    using that lock_refines by blast
  from assms(2) have "\<exists>m. contract_step (config_max_guests s) (rooms_of s) m
    \<and> contract_step (config_max_guests s) m (rooms_of s')"
  proof (cases rule: service_step.cases)
    case step_open
    then show ?thesis using open_op_refines by blast
  next
    case step_take_join
    then have "rooms_of s' = rooms_of s" by (simp add: take_join_def split_beta rooms_of_def)
    then show ?thesis by (metis contract_step.same)
  next
    case (step_finish cmd now c now_ms)
    then show ?thesis using via [OF finish_con.with_room_refines [OF inv]] by (simp add: valid_finish_eq)
  next
    case (step_authenticate token now)
    then have "rooms_of s' = rooms_of (lock now s)" by (simp add: authenticate_def Let_def)
    then show ?thesis using via [of _ now s'] by (simp add: contract_step.same)
  next
    case (step_join token current fresh now)
    then show ?thesis
      using via [OF join_con.with_room_refines [OF inv]] by (simp add: join_def split_beta)
  qed (use via close_op_refines sweep_refines view_con.with_room_refines [OF inv]
      read_con.with_room_refines [OF inv] admit_con.with_room_refines [OF inv]
      audio_con.with_room_refines [OF inv] leave_con.with_room_refines [OF inv]
      subscribe_con.with_room_refines [OF inv] handles_refine contract_step.same
      in \<open>(simp add: room_op_def take_read_def open_audio_stream_def leave_def subscribe_def; metis)+\<close>)
  then show ?thesis using step_config [OF assms(2)] by blast
qed

theorem service_refines_witness:
  "\<exists>m. contract_step (config_max_guests toy_open) (rooms_of toy_open) m
    \<and> contract_step (config_max_guests toy_open) m (rooms_of toy_joined)"
  using service_refines [OF toy_open_reachable, of toy_joined] step_join [of toy_mac id toy_open]
  unfolding toy_joined_def by blast

end
