(* ===== verification/Rust_Text.thy ===== *)
theory Rust_Text
  imports Harmony_Prelude "HOL-Library.Sublist"
begin

text \<open>
  The parts of Rust's \<open>str\<close> and \<open>slice\<close> interfaces the source uses, on lists:
  splitting, prefixes and trimming. Text is a \<open>string\<close>; \<open>trim\<close> removes the
  ASCII white space, which is all there can be in the header values and route
  names it is applied to.
\<close>

definition strip_prefix :: "'a list \<Rightarrow> 'a list \<Rightarrow> 'a list option" where
  "strip_prefix p s = (if prefix p s then Some (drop (length p) s) else None)"

abbreviation starts_with :: "'a list \<Rightarrow> 'a list \<Rightarrow> bool" where
  "starts_with s p \<equiv> prefix p s"

fun split_char :: "'a \<Rightarrow> 'a list \<Rightarrow> 'a list list" where
  "split_char c [] = [[]]"
| "split_char c (x # xs) =
     (if x = c then [] # split_char c xs
      else (case split_char c xs of [] \<Rightarrow> [[x]] | p # ps \<Rightarrow> (x # p) # ps))"

fun split_once :: "'a \<Rightarrow> 'a list \<Rightarrow> ('a list \<times> 'a list) option" where
  "split_once c [] = None"
| "split_once c (x # xs) =
     (if x = c then Some ([], xs)
      else map_option (\<lambda>(a, b). (x # a, b)) (split_once c xs))"

definition is_white :: "char \<Rightarrow> bool" where
  "is_white c \<longleftrightarrow> (of_char c :: nat) \<in> {9, 10, 11, 12, 13, 32}"

definition trim_start :: "string \<Rightarrow> string" where
  "trim_start s = dropWhile is_white s"

definition trim :: "string \<Rightarrow> string" where
  "trim s = rev (dropWhile is_white (rev (trim_start s)))"

text \<open>\<open>to_ascii_lowercase\<close>; bytes outside ASCII stay as they are.\<close>

definition to_ascii_lowercase :: "string \<Rightarrow> string" where
  "to_ascii_lowercase s =
     map (\<lambda>c. if 65 \<le> (of_char c :: nat) \<and> (of_char c :: nat) \<le> 90 then char_of ((of_char c :: nat) + 32) else c) s"

text \<open>\<open>filter_map\<close> followed by \<open>find_map\<close>: the first result there is.\<close>

fun find_map :: "('a \<Rightarrow> 'b option) \<Rightarrow> 'a list \<Rightarrow> 'b option" where
  "find_map f [] = None"
| "find_map f (x # xs) = (case f x of Some y \<Rightarrow> Some y | None \<Rightarrow> find_map f xs)"

lemma find_map_append: "find_map f (xs @ ys) = (case find_map f xs of Some y \<Rightarrow> Some y | None \<Rightarrow> find_map f ys)"
  by (induction xs) (auto split: option.split)

lemma find_map_None: "find_map f xs = None \<longleftrightarrow> (\<forall>x \<in> set xs. f x = None)"
  by (induction xs) (auto split: option.splits)

lemma strip_prefix_append [simp]: "strip_prefix p (p @ s) = Some s"
  by (simp add: strip_prefix_def)

lemma strip_prefix_Some: "strip_prefix p s = Some r \<longleftrightarrow> s = p @ r"
  by (auto simp: strip_prefix_def prefix_def split: if_splits)

lemma split_char_ne [simp]: "split_char c s \<noteq> []"
  by (induction s) (auto split: list.split)

lemma split_char_none: "c \<notin> set s \<Longrightarrow> split_char c s = [s]"
  by (induction s) auto

lemma split_char_append: "c \<notin> set s \<Longrightarrow> split_char c (s @ c # t) = s # split_char c t"
  by (induction s) auto

lemma split_char_pieces: "p \<in> set (split_char c s) \<Longrightarrow> c \<notin> set p"
  by (induction s arbitrary: p) (fastforce split: if_splits list.splits)+

lemma split_once_Some: "split_once c s = Some (a, b) \<longleftrightarrow> s = a @ c # b \<and> c \<notin> set a"
proof (induction s arbitrary: a)
  case (Cons x xs)
  show ?case
    using Cons.IH by (cases a) (auto simp: Cons.IH)
qed simp

lemma split_once_None: "split_once c s = None \<longleftrightarrow> c \<notin> set s"
  by (induction s) auto

lemma trim_start_id: "s \<noteq> [] \<Longrightarrow> \<not> is_white (hd s) \<Longrightarrow> trim_start s = s"
  by (cases s) (simp_all add: trim_start_def)

lemma trim_id:
  assumes "s \<noteq> []" and "\<not> is_white (hd s)" and "\<not> is_white (last s)"
  shows "trim s = s"
proof -
  have "dropWhile is_white (rev s) = rev s"
    using assms(1,3) by (simp add: dropWhile_eq_self_iff hd_rev)
  with assms(1,2) show ?thesis by (simp add: trim_def trim_start_id)
qed

lemma trim_white: "is_white w \<Longrightarrow> trim (w # s) = trim s"
  by (simp add: trim_def trim_start_def)

subsection \<open>Decimal numbers\<close>

text \<open>\<open>Display\<close> and \<open>FromStr\<close> of the integer types.\<close>

fun digits :: "nat \<Rightarrow> string" where
  "digits n = (if n < 10 then [char_of (48 + n)] else digits (n div 10) @ [char_of (48 + n mod 10)])"

definition show_int :: "int \<Rightarrow> string" where
  "show_int i = (if i < 0 then CHR ''-'' # digits (nat (- i)) else digits (nat i))"

definition is_digit :: "char \<Rightarrow> bool" where
  "is_digit c \<longleftrightarrow> 48 \<le> (of_char c :: nat) \<and> (of_char c :: nat) \<le> 57"

definition digits_value :: "string \<Rightarrow> nat" where
  "digits_value s = foldl (\<lambda>n c. 10 * n + (of_char c - 48)) 0 s"

definition parse_nat :: "string \<Rightarrow> nat option" where
  "parse_nat s = (if s \<noteq> [] \<and> list_all is_digit s then Some (digits_value s) else None)"

definition parse_i64 :: "string \<Rightarrow> int option" where
  "parse_i64 s =
     (let v = (case s of
          [] \<Rightarrow> None
        | c # rest \<Rightarrow>
            if c = CHR ''-'' then map_option (\<lambda>n. - int n) (parse_nat rest)
            else if c = CHR ''+'' then map_option int (parse_nat rest)
            else map_option int (parse_nat s))
      in case v of Some i \<Rightarrow> if in_i64 i then Some i else None | None \<Rightarrow> None)"

declare digits.simps [simp del]

lemma digits_induct [case_names small large]:
  assumes "\<And>n. n < 10 \<Longrightarrow> P n" and "\<And>n. 10 \<le> n \<Longrightarrow> P (n div 10) \<Longrightarrow> P n"
  shows "P (n :: nat)"
proof (induction n rule: less_induct)
  case (less n)
  then show ?case using assms by (cases "n < 10") auto
qed

lemma digit_char: "n < 10 \<Longrightarrow> of_char (char_of (48 + n) :: char) = (48 + n :: nat)"
  by simp

lemma digits_ne [simp]: "digits n \<noteq> []"
  by (simp add: digits.simps [of n])

lemma digits_digits: "list_all is_digit (digits n)"
proof (induction n rule: digits_induct)
  case (small n)
  then show ?case by (simp add: digits.simps [of n] is_digit_def)
next
  case (large n)
  then show ?case by (simp add: digits.simps [of n] is_digit_def)
qed

lemma digits_value_digits [simp]: "digits_value (digits n) = n"
proof (induction n rule: digits_induct)
  case (small n)
  then show ?case by (simp add: digits.simps [of n] digits_value_def)
next
  case (large n)
  then show ?case by (simp add: digits.simps [of n] digits_value_def)
qed

lemma parse_nat_digits [simp]: "parse_nat (digits n) = Some n"
  by (simp add: parse_nat_def digits_digits)

lemma digits_hd: "is_digit (hd (digits n))"
  using digits_digits [of n] digits_ne [of n] by (cases "digits n") auto

lemma digit_not:
  assumes "is_digit c"
  shows "c \<noteq> CHR ''-''" "c \<noteq> CHR ''+''" "c \<noteq> CHR '' ''" "c \<noteq> CHR '',''" "c \<noteq> CHR 0x09" "\<not> is_white c"
  using assms by (auto simp: is_digit_def is_white_def)

lemma digits_no: "c \<in> {CHR ''-'', CHR '','', CHR '' '', CHR 0x09} \<Longrightarrow> c \<notin> set (digits n)"
  using digits_digits [of n] digit_not(1,3,4,5) [of c] unfolding list_all_iff by blast

lemma parse_i64_digits: "int n \<le> i64_max \<Longrightarrow> parse_i64 (digits n) = Some (int n)"
proof -
  assume n: "int n \<le> i64_max"
  obtain c cs where d: "digits n = c # cs" using digits_ne by (cases "digits n") auto
  have c: "is_digit c" using digits_hd [of n] d by simp
  have "in_i64 (int n)" using n by (simp add: in_i64_def i64_min_def)
  then show ?thesis
    using parse_nat_digits [of n] digit_not(1,2) [OF c] unfolding parse_i64_def d by simp
qed

subsection \<open>UTF-8\<close>

text \<open>\<open>str::from_utf8\<close>: the well-formed byte sequences of UTF-8.\<close>

definition byte_in :: "nat \<Rightarrow> nat \<Rightarrow> char \<Rightarrow> bool" where
  "byte_in lo hi c \<longleftrightarrow> lo \<le> (of_char c :: nat) \<and> (of_char c :: nat) \<le> hi"

fun utf8_valid :: "string \<Rightarrow> bool" where
  "utf8_valid [] = True"
| "utf8_valid (a # s) =
     (if byte_in 0 0x7F a then utf8_valid s
      else case s of
        [] \<Rightarrow> False
      | b # t \<Rightarrow>
          if byte_in 0xC2 0xDF a then byte_in 0x80 0xBF b \<and> utf8_valid t
          else case t of
            [] \<Rightarrow> False
          | c # u \<Rightarrow>
              if byte_in 0xE0 0xEF a
              then byte_in (if byte_in 0xE0 0xE0 a then 0xA0 else 0x80) (if byte_in 0xED 0xED a then 0x9F else 0xBF) b
                   \<and> byte_in 0x80 0xBF c \<and> utf8_valid u
              else case u of
                [] \<Rightarrow> False
              | d # v \<Rightarrow>
                  byte_in 0xF0 0xF4 a
                  \<and> byte_in (if byte_in 0xF0 0xF0 a then 0x90 else 0x80) (if byte_in 0xF4 0xF4 a then 0x8F else 0xBF) b
                  \<and> byte_in 0x80 0xBF c \<and> byte_in 0x80 0xBF d \<and> utf8_valid v)"

lemma utf8_ascii: "list_all (byte_in 0 0x7F) s \<Longrightarrow> utf8_valid s"
  by (induction s) simp_all

text \<open>
  \<open>String::from_utf8_lossy\<close>: each longest prefix of a character that does not become
  one is replaced by U+FFFD. \<open>utf8_step\<close> is the number of bytes the next character,
  or broken piece, takes, and whether it is a character.
\<close>

definition REPLACEMENT :: string where
  "REPLACEMENT = [CHR 0xEF, CHR 0xBF, CHR 0xBD]"

definition utf8_width :: "char \<Rightarrow> nat" where
  "utf8_width a = (if byte_in 0 0x7F a then 1 else if byte_in 0xC2 0xDF a then 2
     else if byte_in 0xE0 0xEF a then 3 else if byte_in 0xF0 0xF4 a then 4 else 0)"

definition second_ok :: "char \<Rightarrow> char \<Rightarrow> bool" where
  "second_ok a b \<longleftrightarrow>
     byte_in (if byte_in 0xE0 0xE0 a then 0xA0 else if byte_in 0xF0 0xF0 a then 0x90 else 0x80)
       (if byte_in 0xED 0xED a then 0x9F else if byte_in 0xF4 0xF4 a then 0x8F else 0xBF) b"

fun utf8_step :: "string \<Rightarrow> nat \<times> bool" where
  "utf8_step [] = (1, False)"
| "utf8_step (a # s) =
     (let w = utf8_width a;
          more = (case s of
              b # t \<Rightarrow> if 2 \<le> w \<and> second_ok a b
                then 1 + length (takeWhile (byte_in 0x80 0xBF) (take (w - 2) t)) else 0
            | [] \<Rightarrow> 0)
      in (Suc more, Suc more = w))"

lemma utf8_step_pos: "0 < fst (utf8_step s)"
  by (cases s) (simp_all add: Let_def)

function from_utf8_lossy :: "string \<Rightarrow> string" where
  "from_utf8_lossy s =
     (if s = [] then []
      else (if snd (utf8_step s) then take (fst (utf8_step s)) s else REPLACEMENT)
           @ from_utf8_lossy (drop (fst (utf8_step s)) s))"
  by pat_completeness auto

termination
  by (relation "measure length") (simp_all add: utf8_step_pos)

declare from_utf8_lossy.simps [simp del]

lemma byte_in_iff: "byte_in lo hi c \<longleftrightarrow> lo \<le> (of_char c :: nat) \<and> (of_char c :: nat) \<le> hi"
  by (simp add: byte_in_def)

lemma byte_class:
  assumes "\<not> byte_in 0 0x7F a"
  shows "byte_in 0xC2 0xDF a \<Longrightarrow> utf8_width a = 2 \<and> (second_ok a b \<longleftrightarrow> byte_in 0x80 0xBF b)"
    and "byte_in 0xE0 0xEF a \<Longrightarrow> utf8_width a = 3 \<and> \<not> byte_in 0xC2 0xDF a \<and> (second_ok a b \<longleftrightarrow>
      byte_in (if byte_in 0xE0 0xE0 a then 0xA0 else 0x80) (if byte_in 0xED 0xED a then 0x9F else 0xBF) b)"
    and "byte_in 0xF0 0xF4 a \<Longrightarrow> utf8_width a = 4 \<and> \<not> byte_in 0xC2 0xDF a \<and> \<not> byte_in 0xE0 0xEF a \<and> (second_ok a b \<longleftrightarrow>
      byte_in (if byte_in 0xF0 0xF0 a then 0x90 else 0x80) (if byte_in 0xF4 0xF4 a then 0x8F else 0xBF) b)"
  using assms unfolding utf8_width_def second_ok_def byte_in_iff by auto

lemma utf8_valid_step:
  assumes "utf8_valid s" and "s \<noteq> []"
  shows "snd (utf8_step s) \<and> utf8_valid (drop (fst (utf8_step s)) s)"
proof -
  obtain a t where s: "s = a # t" using assms(2) by (cases s) auto
  show ?thesis
  proof (cases "byte_in 0 0x7F a")
    case True
    then have "utf8_step s = (1, True)"
      by (cases t) (simp_all add: s utf8_width_def del: utf8_valid.simps)
    with True assms(1) show ?thesis by (simp add: s)
  next
    case False
    note c = byte_class [OF False]
    with assms(1) False obtain b u where t: "t = b # u" by (cases t) (auto simp: s)
    show ?thesis
    proof (cases "byte_in 0xC2 0xDF a")
      case True
      with assms(1) False c(1) [OF True, of b] show ?thesis by (simp add: s t)
    next
      case n2: False
      with assms(1) False obtain d v where u: "u = d # v" by (cases u) (auto simp: s t)
      show ?thesis
      proof (cases "byte_in 0xE0 0xEF a")
        case True
        with assms(1) False n2 c(2) [OF True, of b] show ?thesis by (simp add: s t u)
      next
        case n3: False
        with assms(1) False n2 obtain e w where v: "v = e # w" by (cases v) (auto simp: s t u)
        have F: "byte_in 0xF0 0xF4 a" using assms(1) False n2 n3 by (simp add: s t u v)
        with assms(1) False n2 n3 c(3) [OF F, of b] show ?thesis by (simp add: s t u v eval_nat_numeral)
      qed
    qed
  qed
qed

lemma from_utf8_lossy_valid: "utf8_valid s \<Longrightarrow> from_utf8_lossy s = s"
proof (induction s rule: from_utf8_lossy.induct)
  case (1 s)
  show ?case
  proof (cases "s = []")
    case False
    with utf8_valid_step [OF 1(2)] 1(1) show ?thesis
      by (subst from_utf8_lossy.simps) simp
  qed (simp add: from_utf8_lossy.simps)
qed

end
