(* ===== verification/Json_Value.thy ===== *)
theory Json_Value
  imports Rust_Text
begin

text \<open>
  \<open>serde_json::Value\<close>, as the server's filter and the Desktop Client read it: a
  number keeps its text, an object its members in order. The accessors are the
  ones the code calls.
\<close>

datatype json =
    JNull | JBool bool | JNumber string | JString string
  | JArray "json list" | JObject "(string \<times> json) list"

fun jget :: "string \<Rightarrow> json \<Rightarrow> json option" where
  "jget k (JObject ms) = map_of ms k"
| "jget k _ = None"

fun as_str :: "json \<Rightarrow> string option" where
  "as_str (JString s) = Some s"
| "as_str _ = None"

fun as_u64 :: "json \<Rightarrow> nat option" where
  "as_u64 (JNumber s) = (case parse_nat s of Some n \<Rightarrow> if n < 2 ^ 64 then Some n else None | None \<Rightarrow> None)"
| "as_u64 _ = None"

fun as_array :: "json \<Rightarrow> json list option" where
  "as_array (JArray vs) = Some vs"
| "as_array _ = None"

fun is_number :: "json \<Rightarrow> bool" where
  "is_number (JNumber _) = True"
| "is_number _ = False"

text \<open>A pointer whose parts are names, never indices.\<close>

fun pointer :: "string list \<Rightarrow> json \<Rightarrow> json option" where
  "pointer [] v = Some v"
| "pointer (k # ks) v = Option.bind (jget k v) (pointer ks)"

definition str_at :: "string list \<Rightarrow> json \<Rightarrow> string option" where
  "str_at ks v = Option.bind (pointer ks v) as_str"

definition value_u32 :: "json \<Rightarrow> nat option" where
  "value_u32 v = (case as_u64 v of Some n \<Rightarrow> if n < 2 ^ 32 then Some n else None | None \<Rightarrow> None)"

definition value_u16 :: "json \<Rightarrow> nat option" where
  "value_u16 v = (case as_u64 v of Some n \<Rightarrow> if n < 2 ^ 16 then Some n else None | None \<Rightarrow> None)"

definition observed_u32 :: "json option \<Rightarrow> string \<Rightarrow> nat option" where
  "observed_u32 container k = Option.bind (Option.bind container (jget k)) value_u32"

definition observed_u16 :: "json option \<Rightarrow> string \<Rightarrow> nat option" where
  "observed_u16 container k = Option.bind (Option.bind container (jget k)) value_u16"

end
