(* ===== verification/Guest_Gate.thy ===== *)
theory Guest_Gate
  imports Json_Value Room_Properties
begin

text \<open>
  The Guest Listener's allowlist
  (\<open>server/src/modules/listen_together/gate.rs\<close>) and the API error values
  (\<open>server/src/respond.rs\<close>).

  What lies behind the gate, the JSON codec and the reading of a response body
  are parameters: \<open>next\<close> answers a request that was let through, \<open>from_slice\<close>
  and \<open>to_vec\<close> are the JSON decoder and encoder, a body is \<open>None\<close> when reading
  it fails. A header value is \<open>None\<close> when it is not visible ASCII.
\<close>

subsection \<open>API errors\<close>

record api_error =
  api_status :: nat
  api_code :: string
  api_message :: string
  api_field :: string

definition api_error_new :: "nat \<Rightarrow> string \<Rightarrow> string \<Rightarrow> api_error" where
  "api_error_new status code message =
     \<lparr>api_status = status, api_code = code, api_message = message, api_field = []\<rparr>"

definition bad_request :: "string \<Rightarrow> api_error" where
  "bad_request message = api_error_new 400 ''bad_request'' message"

definition not_found :: "string \<Rightarrow> api_error" where
  "not_found message = api_error_new 404 ''not_found'' message"

definition internal :: api_error where
  "internal = api_error_new 500 ''internal_error'' ''internal server error''"

fun error_text :: "room_error \<Rightarrow> string" where
  "error_text Disabled = ''Listen Together is not configured''"
| "error_text AlreadyOpen = ''a Room is already open''"
| "error_text NotFound = ''no Room is open''"
| "error_text InviteInvalid = ''the Invite Link is invalid, expired or revoked''"
| "error_text Full = ''the Room is full''"
| "error_text SessionEnded = ''the Guest session has ended''"
| "error_text RateLimited = ''too many requests''"
| "error_text (BadCommand m) = m"
| "error_text UnknownTrack = ''trackIds holds a Track that is not in the library''"
| "error_text (LibraryFailed c) = ''read Tracks: '' @ c"
| "error_text ThreadPanic = []"

fun api_error_of :: "room_error \<Rightarrow> api_error" where
  "api_error_of Disabled = api_error_new 404 ''listen_together_disabled'' (error_text Disabled)"
| "api_error_of AlreadyOpen = api_error_new 409 ''conflict'' (error_text AlreadyOpen)"
| "api_error_of NotFound = not_found (error_text NotFound)"
| "api_error_of InviteInvalid = api_error_new 404 ''invite_invalid'' (error_text InviteInvalid)"
| "api_error_of Full = api_error_new 409 ''room_full'' (error_text Full)"
| "api_error_of SessionEnded = api_error_new 401 ''unauthorized'' (error_text SessionEnded)"
| "api_error_of RateLimited = api_error_new 429 ''rate_limited'' (error_text RateLimited)"
| "api_error_of (BadCommand m) = bad_request m"
| "api_error_of UnknownTrack = (bad_request (error_text UnknownTrack))\<lparr>api_field := ''trackIds''\<rparr>"
| "api_error_of (LibraryFailed c) = internal"
| "api_error_of ThreadPanic = internal"

subsection \<open>The allowlist\<close>

definition PUBLIC_ROUTES :: "(string \<times> string) list" where
  "PUBLIC_ROUTES =
    [(''GET'', ''/api/v1/health''),
     (''GET'', ''/api/v1/listen-together/session''),
     (''POST'', ''/api/v1/listen-together/join'')]"

definition TRACK_STREAM :: string where "TRACK_STREAM = ''/api/v1/tracks/{track_id}/stream''"
definition ARTIST_PHOTO :: string where "ARTIST_PHOTO = ''/api/v1/library/artists/{artist_id}/photo''"

definition LOOKUP_ROUTES :: "string list" where
  "LOOKUP_ROUTES =
    [''/api/v1/library/artists/{artist_id}/biography'',
     ''/api/v1/library/artists/{artist_id}/popular-tracks'',
     ''/api/v1/library/albums/{album_id}/online-genres'',
     ''/api/v1/library/tracks/play-counts'',
     ''/api/v1/library/tracks/{track_id}/lyrics'',
     ''/api/v1/library/tracks/{track_id}/waveform'']"

definition SESSION_ROUTES :: "(string \<times> string) list" where
  "SESSION_ROUTES =
    [(''GET'', ''/api/v1/me''),
     (''GET'', ''/api/v1/preferences''),
     (''GET'', ''/api/v1/library/artists''),
     (''GET'', ''/api/v1/library/artists/{artist_id}''),
     (''GET'', ARTIST_PHOTO),
     (''GET'', ''/api/v1/library/artists/{artist_id}/biography''),
     (''GET'', ''/api/v1/library/artists/{artist_id}/popular-tracks''),
     (''GET'', ''/api/v1/library/albums''),
     (''GET'', ''/api/v1/library/albums/{album_id}''),
     (''GET'', ''/api/v1/library/albums/{album_id}/online-genres''),
     (''GET'', ''/api/v1/library/albums/{album_id}/cover''),
     (''GET'', ''/api/v1/library/tracks''),
     (''GET'', ''/api/v1/library/tracks/play-counts''),
     (''GET'', ''/api/v1/library/tracks/{track_id}''),
     (''GET'', ''/api/v1/library/tracks/{track_id}/lyrics''),
     (''GET'', ''/api/v1/library/tracks/{track_id}/waveform''),
     (''GET'', ''/api/v1/library/search''),
     (''GET'', TRACK_STREAM),
     (''HEAD'', TRACK_STREAM),
     (''GET'', ''/api/v1/listen-together/room''),
     (''GET'', ''/api/v1/listen-together/room/events''),
     (''GET'', ''/api/v1/listen-together/room/clock''),
     (''POST'', ''/api/v1/listen-together/room/commands''),
     (''POST'', ''/api/v1/listen-together/leave'')]"

datatype access = Public | Session | Denied

definition path_under :: "string \<Rightarrow> string \<Rightarrow> bool" where
  "path_under path p =
     (case strip_prefix p path of None \<Rightarrow> False | Some rest \<Rightarrow> rest = [] \<or> starts_with rest ''/'')"

definition is_web_client_path :: "string \<Rightarrow> bool" where
  "is_web_client_path path \<longleftrightarrow> \<not> path_under path ''/api'' \<and> \<not> path_under path ''/docs''"

definition classify :: "string \<Rightarrow> string option \<Rightarrow> string \<Rightarrow> access" where
  "classify meth route path =
     (case route of
        None \<Rightarrow> if (meth = ''GET'' \<or> meth = ''HEAD'') \<and> is_web_client_path path then Public else Denied
      | Some r \<Rightarrow>
          if (meth, r) \<in> set PUBLIC_ROUTES then Public
          else if (meth, r) \<in> set SESSION_ROUTES then Session
          else Denied)"

definition budget :: "string \<Rightarrow> string \<Rightarrow> budget option" where
  "budget meth route =
     (if meth = ''POST'' then None
      else Some (if route = ARTIST_PHOTO then Photos
                 else if route \<in> set LOOKUP_ROUTES then Lookups
                 else if starts_with route ''/api/v1/listen-together/'' then Room
                 else Library))"

subsection \<open>The session cookie\<close>

definition cookie_name :: "bool \<Rightarrow> string" where
  "cookie_name secure = (if secure then ''__Host-harmony_guest'' else ''harmony_guest'')"

text \<open>The values of the Cookie headers, each readable or not.\<close>

definition session_cookie :: "bool \<Rightarrow> string option list \<Rightarrow> string option" where
  "session_cookie secure cookies =
     (let pairs = concat (map (split_char (CHR '';'')) (List.map_filter id cookies));
          kvs = List.map_filter (\<lambda>p. split_once (CHR ''='') (trim p)) pairs
      in find_map (\<lambda>(key, v). if key = cookie_name secure then Some v else None) kvs)"

definition guest_session :: "(string \<Rightarrow> string) \<Rightarrow> bool \<Rightarrow> string option list \<Rightarrow> instant \<Rightarrow> service
    \<Rightarrow> guest_session option \<times> service" where
  "guest_session skey secure cookies now s =
     (case session_cookie secure cookies of
        None \<Rightarrow> (None, s)
      | Some token \<Rightarrow> authenticate skey token now s)"

subsection \<open>File paths\<close>

fun blank_file_paths :: "json \<Rightarrow> json" where
  "blank_file_paths (JArray items) = JArray (map blank_file_paths items)"
| "blank_file_paths (JObject members) =
     JObject (map (\<lambda>(name, v). (name, if name = ''filePath'' then JString [] else blank_file_paths v)) members)"
| "blank_file_paths v = v"

record response =
  status :: nat
  content_type :: "string option"
  content_length :: "nat option"
  body :: "string option"
  until_revoked :: "channel option"
  held_slot :: "audio_slot option"

definition without_file_paths :: "(string \<Rightarrow> json option) \<Rightarrow> (json \<Rightarrow> string) \<Rightarrow> (api_error \<Rightarrow> response)
    \<Rightarrow> response \<Rightarrow> response" where
  "without_file_paths from_slice to_vec error_response resp =
     (let is_json = (case content_type resp of None \<Rightarrow> False | Some t \<Rightarrow> starts_with t ''application/json'')
      in if \<not> is_json then resp
         else (case body resp of
             None \<Rightarrow> error_response internal
           | Some bytes \<Rightarrow>
               (case from_slice bytes of
                  None \<Rightarrow> resp
                | Some v \<Rightarrow> resp\<lparr>content_length := None, body := Some (to_vec (blank_file_paths v))\<rparr>)))"

text \<open>The body of a Track's response goes on until the session's revocation fires or the
  slot's place is given away; it holds the slot.\<close>

definition end_with_session :: "response \<Rightarrow> guest_session \<Rightarrow> audio_slot option \<Rightarrow> response" where
  "end_with_session resp ses slot = resp\<lparr>until_revoked := Some (session_revoked ses), held_slot := slot\<rparr>"

definition body_open :: "shared \<Rightarrow> response \<Rightarrow> bool" where
  "body_open sh resp \<longleftrightarrow>
     (case until_revoked resp of None \<Rightarrow> True | Some c \<Rightarrow> \<not> revocations sh c)
   \<and> (case held_slot resp of None \<Rightarrow> True | Some slot \<Rightarrow> \<not> stops sh (slot_id slot))"

subsection \<open>The gate\<close>

record request =
  req_method :: string
  req_route :: "string option"
  req_path :: string
  req_cookies :: "string option list"

type_synonym handler = "request \<Rightarrow> guest_session option \<Rightarrow> service \<Rightarrow> response \<times> service"

text \<open>What the gate decides before the handler runs: an error, or to run it, with the session
  and the audio place. \<open>others\<close> is what other requests do between the gate's locks.\<close>

datatype verdict = Refuse api_error | Pass | PassSession guest_session "audio_slot option"

definition spend_read :: "request \<Rightarrow> guest_session \<Rightarrow> instant \<Rightarrow> service \<Rightarrow> (room_error + unit) \<times> service" where
  "spend_read req ses now s =
     (case Option.bind (req_route req) (budget (req_method req)) of
        None \<Rightarrow> (Inr (), s)
      | Some b \<Rightarrow> take_read ses b now s)"

definition take_place :: "request \<Rightarrow> guest_session \<Rightarrow> instant \<Rightarrow> service
    \<Rightarrow> (room_error + audio_slot option) \<times> service" where
  "take_place req ses now s =
     (if req_route req = Some TRACK_STREAM \<and> req_method req = ''GET''
      then let (res, s') = open_audio_stream ses (req_path req) now s
           in (and_then res (\<lambda>slot. Inr (Some slot)), s')
      else (Inr None, s))"

definition admit_request :: "(string \<Rightarrow> string) \<Rightarrow> bool \<Rightarrow> (nat \<Rightarrow> service \<Rightarrow> service) \<Rightarrow> (nat \<Rightarrow> instant)
    \<Rightarrow> request \<Rightarrow> service \<Rightarrow> verdict \<times> service" where
  "admit_request skey secure others clock req s =
     (case classify (req_method req) (req_route req) (req_path req) of
        Denied \<Rightarrow> (Refuse (not_found ''not found''), s)
      | Public \<Rightarrow> (Pass, s)
      | Session \<Rightarrow>
          (case guest_session skey secure (req_cookies req) (clock 0) s of
             (None, s1) \<Rightarrow>
               (Refuse (api_error_new 401 ''unauthorized'' ''join the Room through its Invite Link first''), s1)
           | (Some ses, s1) \<Rightarrow>
               (case spend_read req ses (clock 1) (others 0 s1) of
                  (Inl e, s2) \<Rightarrow> (Refuse (api_error_of e), s2)
                | (Inr _, s2) \<Rightarrow>
                    (case take_place req ses (clock 2) (others 1 s2) of
                       (Inl e, s3) \<Rightarrow> (Refuse (api_error_of e), s3)
                     | (Inr slot, s3) \<Rightarrow> (PassSession ses slot, s3)))))"

definition guest_gate :: "(string \<Rightarrow> json option) \<Rightarrow> (json \<Rightarrow> string) \<Rightarrow> (api_error \<Rightarrow> response)
    \<Rightarrow> (string \<Rightarrow> string) \<Rightarrow> bool \<Rightarrow> (nat \<Rightarrow> service \<Rightarrow> service) \<Rightarrow> (nat \<Rightarrow> instant) \<Rightarrow> handler
    \<Rightarrow> request \<Rightarrow> service \<Rightarrow> response \<times> service" where
  "guest_gate from_slice to_vec error_response skey secure others clock next req s =
     (case admit_request skey secure others clock req s of
        (Refuse e, s') \<Rightarrow> (error_response e, s')
      | (Pass, s') \<Rightarrow> next req None s'
      | (PassSession ses slot, s') \<Rightarrow>
          let (resp, s'') = next req (Some ses) s'
          in (case req_route req of
                None \<Rightarrow> (resp, s'')
              | Some route \<Rightarrow>
                  if route = TRACK_STREAM then (end_with_session resp ses slot, s'')
                  else if starts_with route ''/api/v1/library/''
                    then (without_file_paths from_slice to_vec error_response resp, s'')
                  else (resp, s'')))"

subsection \<open>What passes\<close>

lemma session_reads_budgeted:
  "(meth, r) \<in> set SESSION_ROUTES \<Longrightarrow> meth \<noteq> ''POST'' \<Longrightarrow> \<exists>b. budget meth r = Some b"
  by (simp add: budget_def)

lemma spend_read_reachable:
  "reachable mac skey s \<Longrightarrow> reachable mac skey (snd (spend_read req ses now s))"
  by (auto simp: spend_read_def split: option.split intro: reachable.step step_take_read)

lemma take_place_reachable:
  "reachable mac skey s \<Longrightarrow> reachable mac skey (snd (take_place req ses now s))"
  by (auto simp: take_place_def split_beta intro: reachable.step step_open_audio)

lemma guest_session_reachable:
  "reachable mac skey s \<Longrightarrow> reachable mac skey (snd (guest_session skey secure cookies now s))"
  by (auto simp: guest_session_def split: option.split intro: reachable.step step_authenticate)

lemma admit_request_reachable:
  assumes "reachable mac skey s" and "\<And>i x. (service_step mac skey)\<^sup>*\<^sup>* x (others i x)"
  shows "reachable mac skey (snd (admit_request skey secure others clock req s))"
proof -
  let ?g = "guest_session skey secure (req_cookies req) (clock 0) s"
  have 1: "reachable mac skey (others 0 (snd ?g))"
    using step_star [OF guest_session_reachable [OF assms(1)] assms(2)] .
  have 2: "reachable mac skey (others 1 (snd (spend_read req ses (clock 1) (others 0 (snd ?g)))))" for ses
    using step_star [OF spend_read_reachable [OF 1] assms(2)] .
  show ?thesis
    using assms(1) guest_session_reachable [OF assms(1), of secure "req_cookies req" "clock 0"]
      spend_read_reachable [OF 1] take_place_reachable [OF 2]
    by (auto simp: admit_request_def split: access.split prod.split option.split sum.split) (metis snd_conv)+
qed

text \<open>A session is live in a service: the Room accepts it and its revocation has not fired.\<close>

definition session_live :: "guest_session \<Rightarrow> service \<Rightarrow> bool" where
  "session_live ses s \<longleftrightarrow>
     (\<exists>g. fmlookup (guests_of s) (session_id ses) = Some g \<and> revoked g = session_revoked ses)"

lemma authenticate_live:
  assumes "authenticate skey token now s = (Some ses, s')"
  shows "session_live ses s'" "session_id ses = skey token"
  using assms by (auto simp: authenticate_def session_live_def guests_of_def Let_def split: option.splits)

lemma guest_session_live:
  "guest_session skey secure cookies now s = (Some ses, s') \<Longrightarrow> session_live ses s'"
  by (auto simp: guest_session_def dest: authenticate_live split: option.splits)

lemma live_not_revoked:
  "reachable mac skey s \<Longrightarrow> session_live ses s \<Longrightarrow> \<not> revocations (cells s) (session_revoked ses)"
  by (auto simp: session_live_def dest: guest_channel_live(1) [OF service_inv_guests [OF reachable_inv]])

text \<open>Which requests the gate may let through, by their matched route.\<close>

definition allowed :: "request \<Rightarrow> bool" where
  "allowed req \<longleftrightarrow>
     (case req_route req of
        Some r \<Rightarrow> (req_method req, r) \<in> set PUBLIC_ROUTES \<union> set SESSION_ROUTES
      | None \<Rightarrow> (req_method req = ''GET'' \<or> req_method req = ''HEAD'') \<and> is_web_client_path (req_path req))"

lemma classify_Denied: "classify (req_method req) (req_route req) (req_path req) = Denied \<longleftrightarrow> \<not> allowed req"
  by (auto simp: classify_def allowed_def split: option.split)

lemma admit_session_cases:
  assumes "admit_request skey secure others clock req s = (PassSession ses slot, s')"
  obtains s1 r where "classify (req_method req) (req_route req) (req_path req) = Session"
    "guest_session skey secure (req_cookies req) (clock 0) s = (Some ses, s1)"
    "fst (spend_read req ses (clock 1) (others 0 s1)) = Inr ()" "req_route req = Some r"
    "take_place req ses (clock 2) (others 1 (snd (spend_read req ses (clock 1) (others 0 s1)))) = (Inr slot, s')"
proof -
  from assms have cl: "classify (req_method req) (req_route req) (req_path req) = Session"
    by (simp add: admit_request_def split: access.splits)
  then obtain r where "req_route req = Some r"
    by (auto simp: classify_def split: option.splits if_splits)
  moreover from assms cl obtain s1 where g: "guest_session skey secure (req_cookies req) (clock 0) s = (Some ses, s1)"
    by (auto simp: admit_request_def split: prod.splits option.splits sum.splits)
  moreover obtain u s2 where "spend_read req ses (clock 1) (others 0 s1) = (u, s2)" by fastforce
  ultimately show thesis
    using that cl assms by (auto simp: admit_request_def split: prod.splits sum.splits)
qed



text \<open>behind the gate there is always a paying Guest. When the gate runs the handler of a
  session route, the cookie authenticated to a Guest that was live in the Room at that moment; a
  read was granted by its budget; and a Track is only streamed with an audio place held, whose
  stream is live, so that revoking the Guest or giving the place away ends the body.\<close>

theorem gate_session_pays:
  assumes "reachable mac skey s" and "\<And>i x. (service_step mac skey)\<^sup>*\<^sup>* x (others i x)"
    and "admit_request skey secure others clock req s = (PassSession ses slot, s')"
  shows "\<exists>s1. guest_session skey secure (req_cookies req) (clock 0) s = (Some ses, s1)
      \<and> session_live ses s1 \<and> \<not> revocations (cells s1) (session_revoked ses)
    \<and> (req_method req \<noteq> ''POST'' \<longrightarrow>
        (\<exists>r b. req_route req = Some r \<and> budget (req_method req) r = Some b
           \<and> fst (take_read ses b (clock 1) (others 0 s1)) = Inr ()))
    \<and> (req_route req = Some TRACK_STREAM \<and> req_method req = ''GET'' \<longrightarrow>
        (\<exists>a. slot = Some a \<and> slot_key a = session_id ses
           \<and> (\<exists>x. fst (open_audio_stream ses (req_path req) (clock 2) x) = Inr a)))
    \<and> reachable mac skey s'"
proof -
  from assms(3) obtain s1 r where cl: "classify (req_method req) (req_route req) (req_path req) = Session"
    and g: "guest_session skey secure (req_cookies req) (clock 0) s = (Some ses, s1)"
    and sp: "fst (spend_read req ses (clock 1) (others 0 s1)) = Inr ()" and r: "req_route req = Some r"
    and tp: "take_place req ses (clock 2) (others 1 (snd (spend_read req ses (clock 1) (others 0 s1)))) = (Inr slot, s')"
    by (rule admit_session_cases)
  have r1: "reachable mac skey s1"
    using guest_session_reachable [OF assms(1), of secure "req_cookies req" "clock 0"] g by simp
  have live: "session_live ses s1" using g by (rule guest_session_live)
  have "\<exists>b. budget (req_method req) r = Some b \<and> fst (take_read ses b (clock 1) (others 0 s1)) = Inr ()"
    if "req_method req \<noteq> ''POST''"
    using that sp r by (auto simp: spend_read_def budget_def)
  moreover have "\<exists>a. slot = Some a \<and> slot_key a = session_id ses
      \<and> (\<exists>x. fst (open_audio_stream ses (req_path req) (clock 2) x) = Inr a)"
    if "req_route req = Some TRACK_STREAM" "req_method req = ''GET''"
  proof -
    let ?x = "others 1 (snd (spend_read req ses (clock 1) (others 0 s1)))"
    from tp that obtain a where a: "slot = Some a" "fst (open_audio_stream ses (req_path req) (clock 2) ?x) = Inr a"
      by (auto simp: take_place_def split_beta and_then_Inr_iff)
    then have "slot_key a = session_id ses"
      by (auto simp: open_audio_stream_def with_room_def Let_def split_beta audio_action_def push_stream_def
          split: option.splits if_splits)
    with a show ?thesis by blast
  qed
  moreover have "reachable mac skey (snd (admit_request skey secure others clock req s))"
    using assms(1,2) by (rule admit_request_reachable)
  then have "reachable mac skey s'" using assms(3) by simp
  ultimately show ?thesis using g r live live_not_revoked [OF r1 live] by blast
qed

lemma toy_guest_lookup: "fmlookup (guests_of toy_joined) ''g1'' = Some (new_guest 0 0)"
  by (simp add: guests_of_def toy_joined_eq)

lemma toy_auth: "authenticate id ''g1'' 0 toy_joined =
    (Some \<lparr>session_id = ''g1'', session_revoked = 0\<rparr>, toy_joined)"
  by (simp add: authenticate_def lock_open toy_joined_eq toy_open_eq new_guest_def)

theorem gate_session_pays_witness:
  "\<exists>ses. session_live ses toy_joined \<and> \<not> revocations (cells toy_joined) (session_revoked ses)"
proof -
  let ?req = "\<lparr>req_method = ''POST'', req_route = Some ''/api/v1/listen-together/leave'', req_path = ''/'',
    req_cookies = [Some ''a=b; harmony_guest=g1'']\<rparr>"
  have c: "session_cookie False (req_cookies ?req) = Some ''g1''" by code_simp
  have "guest_session id False (req_cookies ?req) 0 toy_joined =
      (Some \<lparr>session_id = ''g1'', session_revoked = 0\<rparr>, toy_joined)"
    unfolding guest_session_def c using toy_auth by simp
  moreover have "classify ''POST'' (Some ''/api/v1/listen-together/leave'') ''/'' = Session" by code_simp
  ultimately have "admit_request id False (\<lambda>_. id) (\<lambda>_. 0) ?req toy_joined =
      (PassSession \<lparr>session_id = ''g1'', session_revoked = 0\<rparr> None, toy_joined)"
    by (simp add: admit_request_def spend_read_def budget_def take_place_def)
  from gate_session_pays [OF toy_joined_reachable _ this] \<open>guest_session id False _ 0 toy_joined = _\<close>
  show ?thesis by auto
qed

subsection \<open>Bodies, cookies and file paths\<close>

text \<open>a Guest who is out hears nothing more. The body of a Track that was let through for a
  session ends in every later state in which that Guest is no longer in the Room, and in every
  state in which its place was taken by another stream.\<close>

theorem revoked_body_ends:
  assumes "reachable mac skey s" and "session_revoked ses < next_channel (cells s)"
    and "body_open (cells s) (end_with_session resp ses slot)"
  shows "(\<exists>k g. fmlookup (guests_of s) k = Some g \<and> revoked g = session_revoked ses)
    \<and> (\<forall>a. slot = Some a \<and> 0 < slot_id a \<and> slot_id a < next_audio_stream (cells s) \<longrightarrow>
         (\<exists>k g. fmlookup (guests_of s) k = Some g \<and> slot_id a \<in> stream_ids g))"
  using assms(2,3) live_channel_iff [OF service_inv_guests [OF reachable_inv [OF assms(1)]]]
    live_stream_iff [OF service_inv_guests [OF reachable_inv [OF assms(1)]]]
  by (auto simp: body_open_def end_with_session_def)

theorem revoked_body_ends_witness:
  "\<exists>k g. fmlookup (guests_of toy_joined) k = Some g \<and> revoked g = 0"
proof -
  have g: "guests_inv (guests_of toy_joined) (cells toy_joined)"
    by (intro service_inv_guests reachable_inv [OF toy_joined_reachable])
  have "body_open (cells toy_joined) (end_with_session \<lparr>status = 200, content_type = None,
      content_length = None, body = None, until_revoked = None, held_slot = None\<rparr>
      \<lparr>session_id = ''g1'', session_revoked = 0\<rparr> None)"
    using guest_channel_live(1) [OF g toy_guest_lookup]
    by (simp add: body_open_def end_with_session_def new_guest_def)
  from revoked_body_ends [OF toy_joined_reachable _ this] guest_channel_live(2) [OF g toy_guest_lookup]
  show ?thesis by (simp add: new_guest_def)
qed

text \<open>Every \<open>filePath\<close> of a value, at any depth, is the empty string.\<close>

fun paths_blank :: "json \<Rightarrow> bool" where
  "paths_blank (JArray items) \<longleftrightarrow> list_all paths_blank items"
| "paths_blank (JObject members) \<longleftrightarrow>
     list_all (\<lambda>(name, v). if name = ''filePath'' then v = JString [] else paths_blank v) members"
| "paths_blank v \<longleftrightarrow> True"

text \<open>Two values agree except for what their \<open>filePath\<close> members hold.\<close>

fun same_but_paths :: "json \<Rightarrow> json \<Rightarrow> bool" where
  "same_but_paths (JArray xs) (JArray ys) \<longleftrightarrow> list_all2 same_but_paths xs ys"
| "same_but_paths (JObject xs) (JObject ys) \<longleftrightarrow>
     list_all2 (\<lambda>(n, v) (m, w). n = m \<and> (n = ''filePath'' \<or> same_but_paths v w)) xs ys"
| "same_but_paths v w \<longleftrightarrow> v = w"

lemma blank_paths_blank: "paths_blank (blank_file_paths v)"
  by (induction v rule: blank_file_paths.induct) (auto simp: list_all_iff)

lemma blank_same: "same_but_paths v (blank_file_paths v)"
  by (induction v rule: blank_file_paths.induct)
    (auto simp: list_all2_map2 list_all2_same split_beta)

lemma paths_blank_fixed: "paths_blank v \<Longrightarrow> blank_file_paths v = v"
proof (induction v rule: blank_file_paths.induct)
  case (1 items)
  then show ?case by (auto simp: list_all_iff intro: map_idI)
next
  case (2 members)
  have "(\<lambda>(name, v). (name, if name = ''filePath'' then JString [] else blank_file_paths v)) m = m"
    if "m \<in> set members" for m
    using that 2 by (fastforce simp: list_all_iff split: if_splits)
  then show ?case by (simp add: map_idI)
qed simp_all

text \<open>no Guest learns where the Owner's files live. A JSON library response that is let
  out has an empty \<open>filePath\<close> at every depth and is the same in everything else, blanking it
  twice changes nothing, and a response that was already blank is the same JSON value.\<close>

theorem library_response_hides_paths:
  assumes "content_type resp = Some t" and "starts_with t ''application/json''"
    and "body resp = Some bytes" and "from_slice bytes = Some v"
    and "from_slice (to_vec (blank_file_paths v)) = Some (blank_file_paths v)"
  shows "\<exists>w. Option.bind (body (without_file_paths from_slice to_vec err resp)) from_slice = Some w
    \<and> paths_blank w \<and> same_but_paths v w
    \<and> status (without_file_paths from_slice to_vec err resp) = status resp
    \<and> without_file_paths from_slice to_vec err (without_file_paths from_slice to_vec err resp)
        = without_file_paths from_slice to_vec err resp
    \<and> (paths_blank v \<longrightarrow> w = v)"
  using assms
  by (auto simp: without_file_paths_def Let_def blank_paths_blank blank_same paths_blank_fixed)

theorem library_response_hides_paths_witness:
  "\<exists>w. paths_blank w \<and> same_but_paths (JObject [(''filePath'', JString ''/a''), (''x'', JBool True)]) w"
  using library_response_hides_paths [of "\<lparr>status = 200, content_type = Some ''application/json'',
      content_length = Some 1, body = Some ''r'', until_revoked = None, held_slot = None\<rparr>" "''application/json''"
      "''r''" "\<lambda>s. if s = ''r'' then Some (JObject [(''filePath'', JString ''/a''), (''x'', JBool True)])
        else Some (JObject [(''filePath'', JString []), (''x'', JBool True)])"
      "JObject [(''filePath'', JString ''/a''), (''x'', JBool True)]" "\<lambda>_. ''b''" undefined]
  by auto

lemma find_cookie:
  assumes "\<And>p. p \<in> set before \<Longrightarrow> (\<forall>v. split_once (CHR ''='') (trim p) \<noteq> Some (n, v))"
    and "split_once (CHR ''='') (trim p) = Some (n, v)"
  shows "find_map (\<lambda>(key, v). if key = n then Some v else None)
    (List.map_filter (\<lambda>p. split_once (CHR ''='') (trim p)) (before @ p # after)) = Some v"
  using assms by (induction before) (auto simp: map_filter_simps split: option.split)

text \<open>What a cookie value must be for a Cookie header to carry it unchanged.\<close>

definition cookie_safe :: "string \<Rightarrow> bool" where
  "cookie_safe v \<longleftrightarrow> CHR '';'' \<notin> set v \<and> v \<noteq> [] \<and> \<not> is_white (last v)"

lemma own_cookie:
  assumes "cookie_safe v"
  shows "trim (cookie_name secure @ ''='' @ v) = cookie_name secure @ ''='' @ v"
    "split_once (CHR ''='') (cookie_name secure @ ''='' @ v) = Some (cookie_name secure, v)"
    "CHR '';'' \<notin> set (cookie_name secure @ ''='' @ v)"
    "session_cookie secure [Some (cookie_name secure @ ''='' @ v)] = Some v"
proof -
  let ?n = "cookie_name secure"
  have n: "CHR '';'' \<notin> set ?n" "CHR ''='' \<notin> set ?n" "?n \<noteq> []" "\<not> is_white (hd ?n)"
    by (simp_all add: cookie_name_def is_white_def)
  show t: "trim (?n @ ''='' @ v) = ?n @ ''='' @ v" using n assms by (intro trim_id) (auto simp: cookie_safe_def)
  show o: "split_once (CHR ''='') (?n @ ''='' @ v) = Some (?n, v)" using n by (simp add: split_once_Some)
  show c: "CHR '';'' \<notin> set (?n @ ''='' @ v)" using n assms by (simp add: cookie_safe_def)
  have "split_char (CHR '';'') (?n @ ''='' @ v) = [?n @ ''='' @ v]" using c by (rule split_char_none)
  with t o show "session_cookie secure [Some (?n @ ''='' @ v)] = Some v"
    by (simp add: session_cookie_def map_filter_simps)
qed

text \<open>the cookie the server sets is the cookie it reads. A Cookie header that carries the
  listener's cookie, alone or after others of other names, gives back the value that was set,
  provided the value has no semicolon and no white space at its ends, as the base64url session
  tokens have none.\<close>

theorem session_cookie_round_trip:
  assumes "cookie_safe v" and "CHR '';'' \<notin> set before"
    and "\<And>w. split_once (CHR ''='') (trim before) \<noteq> Some (cookie_name secure, w)"
  shows "session_cookie secure [Some (cookie_name secure @ ''='' @ v)] = Some v
    \<and> session_cookie secure [None, Some (before @ ''; '' @ cookie_name secure @ ''='' @ v)] = Some v"
proof -
  let ?n = "cookie_name secure" and ?c = "cookie_name secure @ ''='' @ v"
  note own = own_cookie [OF assms(1), of secure]
  have w: "trim (CHR '' '' # ?c) = ?c" using own(1) trim_white [of "CHR '' ''" ?c] by (simp add: is_white_def)
  have "split_char (CHR '';'') (CHR '' '' # ?c) = [CHR '' '' # ?c]"
    using own(3) by (intro split_char_none) simp
  then have "split_char (CHR '';'') (before @ ''; '' @ ?c) = before # [CHR '' '' # ?c]"
    using assms(2) split_char_append [of "CHR '';''" before "CHR '' '' # ?c"] by simp
  then show ?thesis
    using find_cookie [of "[before]" ?n "CHR '' '' # ?c" v "[]"] assms(3) w own
    by (simp add: session_cookie_def map_filter_simps)
qed

theorem session_cookie_round_trip_witness:
  "session_cookie True [None, Some ''a=b; __Host-harmony_guest=tok''] = Some ''tok''"
  using session_cookie_round_trip [of "''tok''" "''a=b''" True]
  by (simp add: is_white_def cookie_name_def trim_def trim_start_def cookie_safe_def)

end
