(* ===== verification/Guest_Handlers.thy ===== *)
theory Guest_Handlers
  imports Guest_Gate
begin

text \<open>
  The HTTP handlers of Listen Together
  (\<open>server/src/modules/listen_together/handlers.rs\<close>): joining and leaving with
  their cookie, and the event stream.

  The decoded body of a join is an argument (an error when it was too large or
  not JSON); the JSON encoding of a Room State is the parameter \<open>encode\<close>. What
  the event stream sees each time it is polled is a record: the cells at that
  moment, whether a snapshot is waiting in the channel, and whether the
  keep-alive timer has ticked.
\<close>

subsection \<open>Joining and leaving\<close>

definition MAX_TOKEN_CHARS :: nat where "MAX_TOKEN_CHARS = 128"

definition set_cookie :: "bool \<Rightarrow> string \<Rightarrow> string \<Rightarrow> string" where
  "set_cookie secure v attributes =
     cookie_name secure @ ''='' @ v @ ''; Path=/; HttpOnly; SameSite=Strict''
       @ (if secure then ''; Secure'' else []) @ attributes"

definition role :: "(string \<Rightarrow> string) \<Rightarrow> bool \<Rightarrow> string option list \<Rightarrow> instant \<Rightarrow> service \<Rightarrow> string \<times> service" where
  "role skey secure cookies now s =
     (let (ses, s') = guest_session skey secure cookies now s
      in (if ses \<noteq> None then ''guest'' else ''none'', s'))"

definition join_handler :: "(string \<Rightarrow> string \<Rightarrow> string) \<Rightarrow> (string \<Rightarrow> string) \<Rightarrow> bool \<Rightarrow> string option list
    \<Rightarrow> api_error + string \<Rightarrow> string \<Rightarrow> (nat \<Rightarrow> instant) \<Rightarrow> service
    \<Rightarrow> (api_error + string \<times> room_state) \<times> service" where
  "join_handler mac skey secure cookies decoded fresh clock s =
     (let (res, s1) = take_join (clock 0) s in
      case res of
        Inl e \<Rightarrow> (Inl (api_error_of e), s1)
      | Inr _ \<Rightarrow>
          (case decoded of
             Inl e \<Rightarrow> (Inl e, s1)
           | Inr token \<Rightarrow>
               if token = [] \<or> MAX_TOKEN_CHARS < length token
               then (Inl ((bad_request ''token has the wrong length'')\<lparr>api_field := ''token''\<rparr>), s1)
               else let (joined, s2) = join mac skey token (session_cookie secure cookies) fresh (clock 1) s1
                    in (case joined of
                          Inl e \<Rightarrow> (Inl (api_error_of e), s2)
                        | Inr j \<Rightarrow> (Inr (set_cookie secure (session_token j) [], joined_state j), s2))))"

definition leave_handler :: "bool \<Rightarrow> guest_session \<Rightarrow> instant \<Rightarrow> service \<Rightarrow> (api_error + string) \<times> service" where
  "leave_handler secure ses now s =
     (let (res, s') = leave ses now s
      in (case res of
            Inl e \<Rightarrow> Inl (api_error_of e)
          | Inr _ \<Rightarrow> Inr (set_cookie secure [] ''; Max-Age=0''), s'))"

subsection \<open>The event stream\<close>

definition newline :: string where "newline = [CHR 0x0A]"

fun frame :: "(room_state \<Rightarrow> string) \<Rightarrow> feed \<Rightarrow> string option \<Rightarrow> string \<times> bool" where
  "frame encode FeedClosed invite =
     (''event: room-closed'' @ newline @ ''data: {}'' @ newline @ newline, True)"
| "frame encode (FeedState st) invite =
     (let data = (case invite of
                    Some url \<Rightarrow> encode (st\<lparr>invite_url := Some url\<rparr>)
                  | None \<Rightarrow> encode st)
      in (''id: '' @ show_int (revision st) @ newline @ ''event: room-state'' @ newline
            @ ''data: '' @ data @ newline @ newline, False))"

definition KEEP_ALIVE_FRAME :: string where
  "KEEP_ALIVE_FRAME = '': keep-alive'' @ newline @ newline"

record poll =
  poll_cells :: shared
  snapshot_waiting :: bool
  ticked :: bool

datatype next_event = Pending | StreamEnd | Frame string bool

definition event_next :: "(room_state \<Rightarrow> string) \<Rightarrow> subscription \<Rightarrow> channel option \<Rightarrow> poll \<Rightarrow> next_event" where
  "event_next encode sub revoked_ch p =
     (let fd = feeds (poll_cells p) (sub_generation sub) in
      if (case revoked_ch of Some c \<Rightarrow> revocations (poll_cells p) c | None \<Rightarrow> False)
      then (if fd = FeedClosed then (case frame encode fd None of (b, e) \<Rightarrow> Frame b e) else StreamEnd)
      else if snapshot_waiting p then (case frame encode fd (sub_invite_url sub) of (b, e) \<Rightarrow> Frame b e)
      else if ticked p then Frame KEEP_ALIVE_FRAME False
      else Pending)"

fun later_frames :: "(room_state \<Rightarrow> string) \<Rightarrow> subscription \<Rightarrow> channel option \<Rightarrow> poll list \<Rightarrow> string list" where
  "later_frames encode sub revoked_ch [] = []"
| "later_frames encode sub revoked_ch (p # ps) =
     (case event_next encode sub revoked_ch p of
        Pending \<Rightarrow> later_frames encode sub revoked_ch ps
      | StreamEnd \<Rightarrow> []
      | Frame b ended \<Rightarrow> b # (if ended then [] else later_frames encode sub revoked_ch ps))"

definition event_stream :: "(room_state \<Rightarrow> string) \<Rightarrow> shared \<Rightarrow> subscription \<Rightarrow> guest_session option
    \<Rightarrow> poll list \<Rightarrow> string list" where
  "event_stream encode sh sub ses ps =
     (let (first, ended) = frame encode (feeds sh (sub_generation sub)) (sub_invite_url sub)
      in first # (if ended then [] else later_frames encode sub (map_option session_revoked ses) ps))"

subsection \<open>Properties\<close>

text \<open>The frame that ends a stream.\<close>

definition CLOSED_FRAME :: string where
  "CLOSED_FRAME = ''event: room-closed'' @ newline @ ''data: {}'' @ newline @ newline"

lemma frame_closed: "frame encode FeedClosed invite = (CLOSED_FRAME, True)"
  by (simp add: CLOSED_FRAME_def)

lemma state_frame_not_closed: "fst (frame encode (FeedState st) invite) \<noteq> CLOSED_FRAME"
  by (simp add: CLOSED_FRAME_def Let_def)

lemma later_frames_closed_last:
  "i + 1 < length (later_frames encode sub c ps) \<Longrightarrow> later_frames encode sub c ps ! i \<noteq> CLOSED_FRAME"
proof (induction ps arbitrary: i)
  case (Cons p ps)
  show ?case
  proof (cases "event_next encode sub c p")
    case (Frame b e)
    have "b = CLOSED_FRAME \<Longrightarrow> e"
      using Frame state_frame_not_closed [of encode]
      by (cases "feeds (poll_cells p) (sub_generation sub)")
        (auto simp: event_next_def Let_def frame_closed KEEP_ALIVE_FRAME_def CLOSED_FRAME_def
          split: if_splits option.splits prod.splits)
    with Frame Cons show ?thesis by (cases i) auto
  qed (use Cons in auto)
qed simp

lemma later_frames_revoked:
  assumes "\<And>p. p \<in> set ps \<Longrightarrow> revocations (poll_cells p) c"
  shows "later_frames encode sub (Some c) ps \<in> {[], [CLOSED_FRAME]}"
  using assms
  by (cases ps) (auto simp: event_next_def Let_def CLOSED_FRAME_def split: feed.split)

text \<open>the event stream tells a Guest who is out nothing more. From the moment its
  revocation fires a stream sends at most one more frame, and that one says only that the Room is
  closed, even when a newer snapshot waits in the channel; and in every stream, the Owner's
  included, the frame that the Room is closed is the last.\<close>

theorem event_stream_ends:
  assumes "\<And>p. p \<in> set ps \<Longrightarrow> revocations (poll_cells p) (session_revoked ses)"
  shows "event_stream encode sh sub (Some ses) (qs @ ps)
        \<in> {event_stream encode sh sub (Some ses) qs, event_stream encode sh sub (Some ses) qs @ [CLOSED_FRAME]}
    \<and> (\<forall>i. i + 1 < length (event_stream encode sh sub any rs) \<longrightarrow>
         event_stream encode sh sub any rs ! i \<noteq> CLOSED_FRAME)"
proof
  let ?c = "Some (session_revoked ses)"
  have tail: "\<exists>t. later_frames encode sub ?c (qs @ ps) = later_frames encode sub ?c qs @ t
      \<and> t \<in> {[], [CLOSED_FRAME]}"
  proof (induction qs)
    case Nil
    then show ?case using later_frames_revoked [of ps "session_revoked ses" encode sub] assms by auto
  next
    case (Cons q qs)
    then show ?case by (auto split: next_event.split)
  qed
  then obtain t where t: "later_frames encode sub ?c (qs @ ps) = later_frames encode sub ?c qs @ t"
    "t = [] \<or> t = [CLOSED_FRAME]" by blast
  show "event_stream encode sh sub (Some ses) (qs @ ps)
      \<in> {event_stream encode sh sub (Some ses) qs, event_stream encode sh sub (Some ses) qs @ [CLOSED_FRAME]}"
    using t(2) by (auto simp: event_stream_def t(1) Let_def split: prod.split)
  show "\<forall>i. i + 1 < length (event_stream encode sh sub any rs) \<longrightarrow>
      event_stream encode sh sub any rs ! i \<noteq> CLOSED_FRAME"
  proof (intro allI impI)
    fix i assume i: "i + 1 < length (event_stream encode sh sub any rs)"
    show "event_stream encode sh sub any rs ! i \<noteq> CLOSED_FRAME"
    proof (cases "feeds sh (sub_generation sub)")
      case FeedClosed
      with i show ?thesis by (simp add: event_stream_def)
    next
      case (FeedState st)
      then have eq: "event_stream encode sh sub any rs =
          fst (frame encode (FeedState st) (sub_invite_url sub)) #
          later_frames encode sub (map_option session_revoked any) rs"
        by (simp add: event_stream_def Let_def)
      show ?thesis
        using i state_frame_not_closed later_frames_closed_last unfolding eq
        by (cases i) (simp_all del: frame.simps)
    qed
  qed
qed

theorem event_stream_ends_witness:
  "let sub = \<lparr>sub_generation = 1, sub_invite_url = None, sub_presence = None\<rparr>;
       ses = Some \<lparr>session_id = ''g1'', session_revoked = 0\<rparr>;
       out = \<lparr>poll_cells = shared_new\<lparr>revocations := (\<lambda>_. True)\<rparr>, snapshot_waiting = True, ticked = False\<rparr>
   in event_stream (\<lambda>_. ''x'') (cells toy_joined) sub ses ([] @ [out])
      \<in> {event_stream (\<lambda>_. ''x'') (cells toy_joined) sub ses [],
         event_stream (\<lambda>_. ''x'') (cells toy_joined) sub ses [] @ [CLOSED_FRAME]}"
  unfolding Let_def by (rule event_stream_ends [THEN conjunct1]) simp

text \<open>joining works end to end. When the join handler answers a browser that had no
  session, the response's cookie carries a session token that, sent back, authenticates to a live
  Guest for as long as the Room lasts and nothing else happens; the state in the answer has no
  Invite Link.\<close>

theorem join_cookie_works:
  assumes "reachable mac skey s" and "cookie_safe fresh"
    and "join_handler mac skey secure [] decoded fresh clock s = (Inr (cookie, st), s')"
    and "open_room s' = Some r'" and "later < closes_at r'"
  shows "starts_with cookie (cookie_name secure @ ''='' @ fresh @ '';'')
    \<and> (\<exists>ses. guest_session skey secure [Some (cookie_name secure @ ''='' @ fresh)] later s' = (Some ses, s')
        \<and> session_live ses s')
    \<and> invite_url st = None"
proof -
  let ?s1 = "snd (take_join (clock 0) s)"
  have r1: "reachable mac skey ?s1" using assms(1) by (rule reachable.step) (rule step_take_join)
  from assms(3) obtain token j where j: "join mac skey token None fresh (clock 1) ?s1 = (Inr j, s')"
    and c: "cookie = set_cookie secure (session_token j) []" and st: "st = joined_state j"
    by (auto simp: join_handler_def split_beta session_cookie_def map_filter_simps
        split: sum.splits if_splits) (metis prod.collapse)
  from j have "session_token j = fresh"
    by (rule join_Inr) (auto simp: join_action_def live_session_def split_beta split: if_splits)
  moreover have "skey (session_token j) |\<in>| fmdom (guests r')" using j assms(4) by (auto elim: join_live)
  moreover have "starts_with (set_cookie secure fresh []) (cookie_name secure @ ''='' @ fresh @ '';'')"
    unfolding set_cookie_def by (simp add: prefix_def)
  ultimately show ?thesis
    using c st assms(4,5) own_cookie(4) [OF assms(2), of secure] join_guest_view [OF r1, of token None fresh "clock 1" j] j
    by (auto simp: guest_session_def authenticate_def lock_open session_live_def guests_of_def elim!: fmdomE)
qed

lemma toy_join_bucket: "fst (bucket_take 0 (bucket_new JOINS 0))"
  by (simp add: bucket_take_def bucket_new_def JOINS_def f64.rnd_integer [of 20, simplified] Let_def)

theorem join_cookie_works_witness:
  "\<exists>cookie st s'. join_handler toy_mac id False [] (Inr ''tok'') ''g1'' (\<lambda>_. 0) toy_open = (Inr (cookie, st), s')
     \<and> starts_with cookie ''harmony_guest=g1;''"
proof -
  let ?s1 = "snd (take_join 0 toy_open)"
  have o: "open_room ?s1 = open_room toy_open" by (simp add: take_join_def split_beta)
  have t: "fst (take_join 0 toy_open) = Inr ()"
    using toy_join_bucket by (simp add: take_join_def split_beta toy_open_def toy_defs)
  obtain j s' where j: "join toy_mac id ''tok'' None ''g1'' 0 ?s1 = (Inr j, s')"
    by (simp add: join_def with_room_open o toy_open_eq split_beta)
      (simp add: join_action_def invite_matches_def toy_mac_def live_session_def fcard_fempty
       room_state_new_def split_beta)
  then obtain r' where r': "open_room s' = Some r'" "closes_at r' = 24 * 60 * 60 * 10 ^ 9"
    by (rule join_Inr) (auto simp: o toy_open_eq dest: join_action_live(5))
  have h: "join_handler toy_mac id False [] (Inr ''tok'') ''g1'' (\<lambda>_. 0) toy_open =
      (Inr (set_cookie False (session_token j) [], joined_state j), s')"
    using t j by (simp add: join_handler_def split_beta MAX_TOKEN_CHARS_def session_cookie_def map_filter_simps)
  from join_cookie_works [OF toy_open_reachable _ h r'(1), of 0] r'(2) h show ?thesis
    by (simp add: cookie_safe_def is_white_def cookie_name_def)
qed

end
