(* ===== verification/Serve_File.thy ===== *)
theory Serve_File
  imports Rust_Text
begin

text \<open>
  Serving a Track's file (\<open>server/src/modules/playback/serve_file.rs\<close>): the
  preconditions, byte ranges and multipart bodies of HTTP.

  A file is its bytes and its modification time in nanoseconds since the epoch,
  if it has one; opening it can fail. The request's headers are a function from
  names to values, empty when the header is missing or unreadable. Parsing and
  printing HTTP dates and guessing a MIME type are the parameters \<open>http_date\<close>,
  \<open>show_date\<close> and \<open>guess\<close>; the boundary's random digits are an argument.
\<close>

subsection \<open>Content types\<close>

definition content_type_of :: "(string \<Rightarrow> string option) \<Rightarrow> string option \<Rightarrow> string" where
  "content_type_of guess extension =
     (let e = to_ascii_lowercase (case extension of Some x \<Rightarrow> x | None \<Rightarrow> []) in
      if e = ''mp3'' then ''audio/mpeg''
      else if e = ''flac'' then ''audio/flac''
      else if e = ''ogg'' \<or> e = ''opus'' then ''audio/ogg''
      else if e = ''m4a'' then ''audio/mp4''
      else if e = ''wav'' then ''audio/wav''
      else (case guess e of Some t \<Rightarrow> t | None \<Rightarrow> ''application/octet-stream''))"

subsection \<open>Byte ranges\<close>

definition MAX_RANGES :: nat where "MAX_RANGES = 200"

record range =
  range_start :: nat
  range_length :: nat

definition content_range :: "range \<Rightarrow> nat \<Rightarrow> string" where
  "content_range r fsize =
     ''bytes '' @ digits (range_start r) @ ''-'' @ digits (range_start r + range_length r - 1)
       @ ''/'' @ digits fsize"

datatype range_error = Invalid | NoOverlap

definition is_blank :: "char \<Rightarrow> bool" where
  "is_blank c \<longleftrightarrow> c = CHR '' '' \<or> c = CHR 0x09"

definition trim_blanks :: "string \<Rightarrow> string" where
  "trim_blanks s = rev (dropWhile is_blank (rev (dropWhile is_blank s)))"

text \<open>One spec of the header: \<open>None\<close> when it misses the file, and nothing when it is empty.\<close>

datatype range_spec = Skip | Misses | Selects range

definition parse_suffix :: "string \<Rightarrow> nat \<Rightarrow> range_error + range_spec" where
  "parse_suffix fin fsize =
     (if fin = [] \<or> starts_with fin ''-'' then Inl Invalid
      else (case parse_i64 fin of
          None \<Rightarrow> Inl Invalid
        | Some n \<Rightarrow>
            if n < 0 then Inl Invalid
            else let suffix = min (nat n) fsize in
              if suffix = 0 then Inr Misses
              else Inr (Selects \<lparr>range_start = fsize - suffix, range_length = suffix\<rparr>)))"

definition parse_first :: "string \<Rightarrow> string \<Rightarrow> nat \<Rightarrow> range_error + range_spec" where
  "parse_first start fin fsize =
     (case parse_i64 start of
        None \<Rightarrow> Inl Invalid
      | Some n \<Rightarrow>
          if n < 0 then Inl Invalid
          else let first = nat n in
            if fsize \<le> first then Inr Misses
            else if fin = [] then Inr (Selects \<lparr>range_start = first, range_length = fsize - first\<rparr>)
            else (case parse_i64 fin of
                None \<Rightarrow> Inl Invalid
              | Some l \<Rightarrow>
                  if l < int first then Inl Invalid
                  else Inr (Selects \<lparr>range_start = first,
                         range_length = min (nat l) (fsize - 1) - first + 1\<rparr>)))"

definition parse_spec :: "string \<Rightarrow> nat \<Rightarrow> range_error + range_spec" where
  "parse_spec spec fsize =
     (let s = trim_blanks spec in
      if s = [] then Inr Skip
      else (case split_once (CHR ''-'') s of
          None \<Rightarrow> Inl Invalid
        | Some (a, b) \<Rightarrow>
            let start = trim_blanks a; fin = trim_blanks b
            in if start = [] then parse_suffix fin fsize else parse_first start fin fsize))"

fun parse_specs :: "string list \<Rightarrow> nat \<Rightarrow> range list \<Rightarrow> bool \<Rightarrow> range_error + range list" where
  "parse_specs [] fsize ranges no_overlap =
     (if no_overlap \<and> ranges = [] then Inl NoOverlap else Inr ranges)"
| "parse_specs (spec # specs) fsize ranges no_overlap =
     (case parse_spec spec fsize of
        Inl e \<Rightarrow> Inl e
      | Inr Skip \<Rightarrow> parse_specs specs fsize ranges no_overlap
      | Inr Misses \<Rightarrow> parse_specs specs fsize ranges True
      | Inr (Selects r) \<Rightarrow> parse_specs specs fsize (ranges @ [r]) no_overlap)"

definition parse_range :: "string \<Rightarrow> nat \<Rightarrow> range_error + range list" where
  "parse_range header fsize =
     (if header = [] then Inr []
      else (case strip_prefix ''bytes='' header of
          None \<Rightarrow> Inl Invalid
        | Some specs \<Rightarrow>
            if MAX_RANGES < count_list specs (CHR '','') + 1 then Inr []
            else parse_specs (split_char (CHR '','') specs) fsize [] False))"

subsection \<open>Preconditions\<close>

type_synonym headers = "string \<Rightarrow> string"
type_synonym system_time = int

datatype condition = CondNone | CondTrue | CondFalse

text \<open>The index of the closing quote of an entity tag whose opening quote was read.\<close>

fun etag_close :: "string \<Rightarrow> nat option" where
  "etag_close [] = None"
| "etag_close (c # cs) =
     (if c = CHR 0x22 then Some 0
      else if of_char c = (0x21 :: nat) \<or> (0x23 \<le> (of_char c :: nat) \<and> (of_char c :: nat) \<le> 0x7e)
           \<or> 0x80 \<le> (of_char c :: nat)
      then map_option Suc (etag_close cs)
      else None)"

definition scan_etag :: "string \<Rightarrow> (string \<times> string) option" where
  "scan_etag t =
     (let text = trim_blanks t;
          start = (if starts_with text ''W/'' then 2 else 0)
      in if length text < start + 2 \<or> text ! start \<noteq> CHR 0x22 then None
         else map_option (\<lambda>i. (take (start + 2 + i) text, drop (start + 2 + i) text))
                (etag_close (drop (start + 1) text)))"

lemma trim_blanks_length: "length (trim_blanks s) \<le> length s"
  using length_dropWhile_le [of is_blank "rev (dropWhile is_blank s)"] length_dropWhile_le [of is_blank s]
  by (simp add: trim_blanks_def)

lemma scan_etag_shorter:
  assumes "scan_etag t = Some (tag, rest)"
  shows "length rest < length t"
proof -
  let ?x = "trim_blanks t"
  let ?start = "if starts_with ?x ''W/'' then 2 else 0 :: nat"
  from assms obtain i where "rest = drop (?start + 2 + i) ?x" "?start + 2 \<le> length ?x"
    by (auto simp: scan_etag_def Let_def split: if_splits)
  then show ?thesis using trim_blanks_length [of t] by simp
qed

text \<open>The loop over a list of entity tags: whether a \<open>*\<close> is met.\<close>

function finds_star :: "string \<Rightarrow> bool" where
  "finds_star v =
     (let t = trim_blanks v in
      if t = [] then False
      else if hd t = CHR '','' then finds_star (tl t)
      else if hd t = CHR ''*'' then True
      else (case scan_etag t of
          Some (_, rest) \<Rightarrow> finds_star rest
        | None \<Rightarrow> False))"
  by pat_completeness auto

termination
proof (relation "measure length")
  fix v t
  assume "t = trim_blanks v" "t \<noteq> []"
  then show "(tl t, v) \<in> measure length"
    using trim_blanks_length [of v] by (cases "trim_blanks v") auto
next
  fix v t p tag rest
  assume "t = trim_blanks v" "scan_etag t = Some p" "(tag, rest) = p"
  then show "(rest, v) \<in> measure length"
    using trim_blanks_length [of v] scan_etag_shorter [of t tag rest] by auto
qed simp

definition check_if_match :: "headers \<Rightarrow> condition" where
  "check_if_match h =
     (if h ''if-match'' = [] then CondNone
      else if finds_star (h ''if-match'') then CondTrue else CondFalse)"

definition check_if_none_match :: "headers \<Rightarrow> condition" where
  "check_if_none_match h =
     (if h ''if-none-match'' = [] then CondNone
      else if finds_star (h ''if-none-match'') then CondFalse else CondTrue)"

definition time_seconds :: "system_time \<Rightarrow> nat" where
  "time_seconds t = nat (t div 10 ^ 9)"

definition is_zero_time :: "system_time option \<Rightarrow> bool" where
  "is_zero_time m = (case m of None \<Rightarrow> True | Some t \<Rightarrow> t = 0)"

definition parse_time :: "(string \<Rightarrow> system_time option) \<Rightarrow> string \<Rightarrow> nat option" where
  "parse_time http_date text = map_option time_seconds (http_date text)"

definition check_if_unmodified_since :: "(string \<Rightarrow> system_time option) \<Rightarrow> headers \<Rightarrow> system_time option
    \<Rightarrow> condition" where
  "check_if_unmodified_since http_date h modified =
     (let v = h ''if-unmodified-since'' in
      if v = [] \<or> is_zero_time modified then CondNone
      else (case parse_time http_date v of
          None \<Rightarrow> CondNone
        | Some since \<Rightarrow> if time_seconds (the modified) \<le> since then CondTrue else CondFalse))"

definition check_if_modified_since :: "(string \<Rightarrow> system_time option) \<Rightarrow> string \<Rightarrow> headers
    \<Rightarrow> system_time option \<Rightarrow> condition" where
  "check_if_modified_since http_date meth h modified =
     (if meth \<noteq> ''GET'' \<and> meth \<noteq> ''HEAD'' then CondNone
      else let v = h ''if-modified-since'' in
        if v = [] \<or> is_zero_time modified then CondNone
        else (case parse_time http_date v of
            None \<Rightarrow> CondNone
          | Some since \<Rightarrow> if time_seconds (the modified) \<le> since then CondFalse else CondTrue))"

definition check_if_range :: "(string \<Rightarrow> system_time option) \<Rightarrow> string \<Rightarrow> headers
    \<Rightarrow> system_time option \<Rightarrow> condition" where
  "check_if_range http_date meth h modified =
     (if meth \<noteq> ''GET'' \<and> meth \<noteq> ''HEAD'' then CondNone
      else let v = h ''if-range'' in
        if v = [] then CondNone
        else if scan_etag v \<noteq> None then CondFalse
        else (case modified of
            None \<Rightarrow> CondFalse
          | Some m \<Rightarrow> if parse_time http_date v = Some (time_seconds m) then CondTrue else CondFalse))"

subsection \<open>The response\<close>

record file_data =
  bytes :: string
  modified :: "system_time option"

datatype io_error = IoNotFound | IoOther string

datatype serve_error = ServeNotFound | ServeIo string

record served =
  sv_status :: nat
  sv_type :: "string option"
  sv_length :: "nat option"
  sv_range :: "string option"
  sv_modified :: "string option"
  sv_body :: string

definition missing :: "io_error \<Rightarrow> serve_error" where
  "missing e = (case e of IoNotFound \<Rightarrow> ServeNotFound | IoOther m \<Rightarrow> ServeIo m)"

definition base_response :: "(system_time \<Rightarrow> string) \<Rightarrow> string \<Rightarrow> system_time option \<Rightarrow> served" where
  "base_response show_date ctype m =
     \<lparr>sv_status = 200, sv_type = Some ctype, sv_length = None, sv_range = None,
      sv_modified = (if is_zero_time m then None
        else Some (show_date (int (time_seconds (the m)) * 10 ^ 9))),
      sv_body = []\<rparr>"

definition plain_error :: "nat \<Rightarrow> string \<Rightarrow> served \<Rightarrow> served" where
  "plain_error status message h =
     h\<lparr>sv_status := status, sv_type := Some ''text/plain; charset=utf-8'', sv_length := None,
       sv_modified := None, sv_body := message @ [CHR 0x0A]\<rparr>"

definition not_modified :: "served \<Rightarrow> served" where
  "not_modified h = h\<lparr>sv_status := 304, sv_type := None, sv_length := None\<rparr>"

definition slice :: "range \<Rightarrow> string \<Rightarrow> string" where
  "slice r content = take (range_length r) (drop (range_start r) content)"

definition crlf :: string where "crlf = [CHR 0x0D, CHR 0x0A]"

definition part_header :: "string \<Rightarrow> string \<Rightarrow> nat \<Rightarrow> nat \<Rightarrow> range \<Rightarrow> string" where
  "part_header boundary ctype fsize index r =
     (if index = 0 then ''--'' @ boundary @ crlf else crlf @ ''--'' @ boundary @ crlf)
     @ ''Content-Range: '' @ content_range r fsize @ crlf
     @ ''Content-Type: '' @ ctype @ crlf @ crlf"

definition closing :: "string \<Rightarrow> string" where
  "closing boundary = crlf @ ''--'' @ boundary @ ''--'' @ crlf"

text \<open>The declared length and the body of a multipart response, from its parts in order.\<close>

definition multipart_length :: "string \<Rightarrow> string \<Rightarrow> nat \<Rightarrow> range list \<Rightarrow> nat" where
  "multipart_length boundary ctype fsize ranges =
     sum_list (map (\<lambda>(i, r). length (part_header boundary ctype fsize i r) + range_length r)
       (enumerate 0 ranges)) + length (closing boundary)"

definition multipart_body :: "string \<Rightarrow> string \<Rightarrow> string \<Rightarrow> range list \<Rightarrow> string" where
  "multipart_body boundary ctype content ranges =
     concat (map (\<lambda>(i, r). part_header boundary ctype (length content) i r @ slice r content)
       (enumerate 0 ranges)) @ closing boundary"

definition send_ranges :: "string \<Rightarrow> string \<Rightarrow> string \<Rightarrow> range list \<Rightarrow> string \<Rightarrow> served \<Rightarrow> served" where
  "send_ranges meth boundary ctype ranges content h =
     (let fsize = length content; is_head = (meth = ''HEAD'') in
      case ranges of
        [] \<Rightarrow> h\<lparr>sv_status := 200, sv_length := Some fsize, sv_body := (if is_head then [] else content)\<rparr>
      | [r] \<Rightarrow> h\<lparr>sv_status := 206, sv_range := Some (content_range r fsize),
                sv_length := Some (range_length r), sv_body := (if is_head then [] else slice r content)\<rparr>
      | _ \<Rightarrow> h\<lparr>sv_status := 206, sv_type := Some (''multipart/byteranges; boundary='' @ boundary),
              sv_length := Some (multipart_length boundary ctype fsize ranges),
              sv_body := (if is_head then [] else multipart_body boundary ctype content ranges)\<rparr>)"

definition send_content :: "string \<Rightarrow> string \<Rightarrow> string \<Rightarrow> string \<Rightarrow> string \<Rightarrow> served \<Rightarrow> served" where
  "send_content meth range_header boundary ctype content h =
     (let fsize = length content in
      case parse_range range_header fsize of
        Inl NoOverlap \<Rightarrow>
          if fsize = 0 then send_ranges meth boundary ctype [] content h
          else plain_error 416 ''invalid range: failed to overlap''
                 (h\<lparr>sv_range := Some (''bytes */'' @ digits fsize)\<rparr>)
      | Inl Invalid \<Rightarrow> plain_error 416 ''invalid range'' h
      | Inr ranges \<Rightarrow>
          send_ranges meth boundary ctype
            (if fsize < sum_list (map range_length ranges) then [] else ranges) content h)"

text \<open>The preconditions in their order: an answer, or the Range header to go on with.\<close>

definition check_preconditions :: "(string \<Rightarrow> system_time option) \<Rightarrow> string \<Rightarrow> headers
    \<Rightarrow> system_time option \<Rightarrow> served \<Rightarrow> served + string" where
  "check_preconditions http_date meth h m base =
     (let cond = (case check_if_match h of
            CondNone \<Rightarrow> check_if_unmodified_since http_date h m | c \<Rightarrow> c);
          range_header = h ''range''
      in if cond = CondFalse then Inl (base\<lparr>sv_status := 412\<rparr>)
         else (case check_if_none_match h of
             CondFalse \<Rightarrow>
               if meth = ''GET'' \<or> meth = ''HEAD'' then Inl (not_modified base)
               else Inl (base\<lparr>sv_status := 412\<rparr>)
           | c \<Rightarrow>
               if c = CondNone \<and> check_if_modified_since http_date meth h m = CondFalse
               then Inl (not_modified base)
               else Inr (if range_header \<noteq> [] \<and> check_if_range http_date meth h m = CondFalse
                         then [] else range_header)))"

definition serve :: "(string \<Rightarrow> string option) \<Rightarrow> (string \<Rightarrow> system_time option) \<Rightarrow> (system_time \<Rightarrow> string)
    \<Rightarrow> string \<Rightarrow> string \<Rightarrow> headers \<Rightarrow> string option \<Rightarrow> io_error + file_data \<Rightarrow> serve_error + served" where
  "serve guess http_date show_date boundary meth h extension opened =
     (case opened of
        Inl e \<Rightarrow> Inl (missing e)
      | Inr file \<Rightarrow>
          let ctype = content_type_of guess extension;
              base = base_response show_date ctype (modified file)
          in (case check_preconditions http_date meth h (modified file) base of
                Inl resp \<Rightarrow> Inr resp
              | Inr range_header \<Rightarrow> Inr (send_content meth range_header boundary ctype (bytes file) base)))"

subsection \<open>Ranges stay inside the file\<close>

definition range_ok :: "nat \<Rightarrow> range \<Rightarrow> bool" where
  "range_ok fsize r \<longleftrightarrow> 0 < range_length r \<and> range_start r + range_length r \<le> fsize"

lemma parse_spec_ok: "parse_spec spec fsize = Inr (Selects r) \<Longrightarrow> range_ok fsize r"
  by (auto simp: parse_spec_def parse_suffix_def parse_first_def range_ok_def Let_def
      split: if_splits option.splits prod.splits)

lemma parse_specs_ok:
  assumes "parse_specs specs fsize ranges no = Inr rs" and "list_all (range_ok fsize) ranges"
  shows "list_all (range_ok fsize) rs \<and> length rs \<le> length ranges + length specs"
  using assms
proof (induction specs arbitrary: ranges no)
  case (Cons spec specs)
  show ?case
  proof (cases "parse_spec spec fsize")
    case (Inr sp)
    show ?thesis
    proof (cases sp)
      case (Selects r)
      with Cons.IH [of "ranges @ [r]" no] Cons.prems Inr parse_spec_ok [of spec fsize r]
      show ?thesis by simp
    next
      case Misses
      with Cons.IH [of ranges True] Cons.prems Inr show ?thesis by simp
    next
      case Skip
      with Cons.IH [of ranges no] Cons.prems Inr show ?thesis by simp
    qed
  qed (use Cons in simp)
qed (auto split: if_splits)

lemma split_char_length: "length (split_char c s) = count_list s c + 1"
  by (induction s) (auto split: list.splits simp: neq_Nil_conv)

lemma parse_range_ok:
  assumes "parse_range h fsize = Inr rs"
  shows "list_all (range_ok fsize) rs \<and> length rs \<le> MAX_RANGES"
proof (cases "rs = []")
  case False
  with assms have "h \<noteq> []" by (auto simp: parse_range_def)
  with assms obtain specs where sp: "strip_prefix ''bytes='' h = Some specs"
    by (cases "strip_prefix ''bytes='' h") (simp_all add: parse_range_def)
  with assms False \<open>h \<noteq> []\<close> have n: "\<not> MAX_RANGES < count_list specs (CHR '','') + 1"
    and p: "parse_specs (split_char (CHR '','') specs) fsize [] False = Inr rs"
    by (cases "MAX_RANGES < count_list specs (CHR '','') + 1"; simp add: parse_range_def)+
  from parse_specs_ok [OF p] n show ?thesis by (simp add: split_char_length)
qed simp

lemma trim_blanks_id:
  assumes "s \<noteq> []" and "\<not> is_blank (hd s)" and "\<not> is_blank (List.last s)"
  shows "trim_blanks s = s"
proof -
  have "dropWhile is_blank s = s" using assms(1,2) by (cases s) simp_all
  moreover have "dropWhile is_blank (rev s) = rev s"
    using assms(1,3) by (simp add: dropWhile_eq_self_iff hd_rev)
  ultimately show ?thesis by (simp add: trim_blanks_def)
qed

lemma digit_not_blank: "is_digit c \<Longrightarrow> \<not> is_blank c"
  using digit_not(3,5) [of c] by (simp add: is_blank_def)

lemma digits_last: "is_digit (List.last (digits n))"
  using digits_digits [of n] by (simp add: list_all_iff)

lemma trim_blanks_digits [simp]: "trim_blanks (digits n) = digits n"
  by (intro trim_blanks_id digit_not_blank digits_hd digits_last digits_ne)

text \<open>The header \<open>bytes=a-b\<close>.\<close>

lemma parse_range_first:
  assumes "int a \<le> i64_max" and "int b \<le> i64_max"
  shows "parse_range (''bytes='' @ digits a @ ''-'' @ digits b) fsize
    = parse_specs [digits a @ ''-'' @ digits b] fsize [] False"
    "parse_spec (digits a @ ''-'' @ digits b) fsize = parse_first (digits a) (digits b) fsize"
    "parse_i64 (digits a) = Some (int a)" "parse_i64 (digits b) = Some (int b)"
proof -
  let ?s = "digits a @ ''-'' @ digits b"
  have c: "CHR '','' \<notin> set ?s" using digits_no [of "CHR '',''"] by simp
  have t: "trim_blanks ?s = ?s"
    by (intro trim_blanks_id) (simp_all add: hd_append digit_not_blank digits_hd digits_last last_append)
  have o: "split_once (CHR ''-'') ?s = Some (digits a, digits b)"
    using digits_no [of "CHR ''-''" a] by (simp add: split_once_Some)
  show "parse_spec ?s fsize = parse_first (digits a) (digits b) fsize"
    by (simp add: parse_spec_def t [simplified] o [simplified] Let_def)
  show "parse_i64 (digits a) = Some (int a)" "parse_i64 (digits b) = Some (int b)"
    using assms by (auto intro: parse_i64_digits)
  have "split_char (CHR '','') ?s = [?s]" using c by (rule split_char_none)
  moreover have "count_list ?s (CHR '','') = 0" using c by (metis count_notin)
  moreover have "strip_prefix ''bytes='' (''bytes='' @ ?s) = Some ?s" by (rule strip_prefix_append)
  ultimately show "parse_range (''bytes='' @ ?s) fsize = parse_specs [?s] fsize [] False"
    by (simp add: parse_range_def MAX_RANGES_def del: parse_specs.simps)
qed

lemma parse_range_pair:
  assumes "a \<le> b" and "a < fsize" and "int b \<le> i64_max"
  shows "parse_range (''bytes='' @ digits a @ ''-'' @ digits b) fsize
    = Inr [\<lparr>range_start = a, range_length = min b (fsize - 1) - a + 1\<rparr>]"
proof -
  have "int a \<le> i64_max" using assms(1,3) by simp
  note p = parse_range_first [OF this assms(3)]
  show ?thesis using assms(1,2) p(2-4) unfolding p(1) by (simp add: parse_first_def)
qed

lemma parse_range_past:
  assumes "a \<le> b" and "fsize \<le> a" and "int b \<le> i64_max"
  shows "parse_range (''bytes='' @ digits a @ ''-'' @ digits b) fsize = Inl NoOverlap"
proof -
  have "int a \<le> i64_max" using assms(1,3) by simp
  note p = parse_range_first [OF this assms(3)]
  show ?thesis using assms(1,2) p(2-4) unfolding p(1) by (simp add: parse_first_def)
qed

subsection \<open>Declared lengths\<close>

lemma slice_length: "range_ok (length content) r \<Longrightarrow> length (slice r content) = range_length r"
  by (auto simp: slice_def range_ok_def)

lemma multipart_length_body:
  assumes "list_all (range_ok (length content)) ranges"
  shows "multipart_length boundary ctype (length content) ranges = length (multipart_body boundary ctype content ranges)"
proof -
  have "sum_list (map (\<lambda>(i, r). length (part_header boundary ctype (length content) i r) + range_length r) (enumerate n ranges))
      = length (concat (map (\<lambda>(i, r). part_header boundary ctype (length content) i r @ slice r content) (enumerate n ranges)))"
    for n
    using assms by (induction ranges arbitrary: n) (simp_all add: slice_length)
  then show ?thesis by (simp add: multipart_length_def multipart_body_def)
qed

text \<open>What \<open>send_ranges\<close> answers, on ranges inside the file.\<close>

lemma send_ranges_length:
  assumes "list_all (range_ok (length content)) ranges" and "meth \<noteq> ''HEAD''"
  shows "sv_length (send_ranges meth boundary ctype ranges content h)
    = Some (length (sv_body (send_ranges meth boundary ctype ranges content h)))"
proof (cases ranges)
  case (Cons r rs)
  with assms multipart_length_body [OF assms(1), of boundary ctype] show ?thesis
    by (cases rs) (simp_all add: send_ranges_def slice_length)
qed (use assms in \<open>simp add: send_ranges_def\<close>)

lemma send_content_cases:
  obtains (whole) "send_content meth rh boundary ctype content h = send_ranges meth boundary ctype [] content h"
  | (parts) ranges where "parse_range rh (length content) = Inr ranges"
      "sum_list (map range_length ranges) \<le> length content"
      "send_content meth rh boundary ctype content h = send_ranges meth boundary ctype ranges content h"
  | (failed) "sv_status (send_content meth rh boundary ctype content h) = 416"
      "sv_length (send_content meth rh boundary ctype content h) = None"
proof (cases "parse_range rh (length content)")
  case (Inl e)
  then show thesis
    using whole failed by (cases e; cases "content = []") (simp_all add: send_content_def plain_error_def)
next
  case (Inr ranges)
  then show thesis
    using whole parts [of ranges]
    by (cases "length content < sum_list (map range_length ranges)") (auto simp: send_content_def)
qed

lemma preconditions_status:
  assumes "check_preconditions http_date meth h m base = Inl resp"
  shows "sv_status resp \<in> {304, 412} \<and> sv_length resp \<in> {None, sv_length base} \<and> sv_body resp = sv_body base"
  using assms
  by (auto simp: check_preconditions_def Let_def not_modified_def split: condition.splits if_splits)

text \<open>C19: the ranges a client may choose never reach outside the file. Whatever the Range header
  holds, parsing it gives an error or at most 200 ranges, each with at least one byte and wholly
  inside the file; and the ordinary request \<open>bytes=a-b\<close> gives exactly the bytes \<open>a\<close> to \<open>b\<close>, cut at
  the end of the file.\<close>

theorem parse_range_sound:
  "(parse_range header fsize = Inr ranges \<longrightarrow>
      length ranges \<le> 200 \<and> (\<forall>r \<in> set ranges. 0 < range_length r \<and> range_start r + range_length r \<le> fsize))
   \<and> (a \<le> b \<and> a < fsize \<and> b < 2 ^ 63 \<longrightarrow>
      parse_range (''bytes='' @ digits a @ ''-'' @ digits b) fsize
        = Inr [\<lparr>range_start = a, range_length = min b (fsize - 1) - a + 1\<rparr>])"
proof -
  have b: "int b \<le> i64_max" if "b < 2 ^ 63"
  proof -
    from that have "int b < 2 ^ 63" by (metis of_nat_less_iff of_nat_numeral of_nat_power)
    then show ?thesis by (simp add: i64_max_def)
  qed
  show ?thesis
    using parse_range_ok [of header fsize ranges] parse_range_pair [of a b fsize] b
    by (auto simp: list_all_iff range_ok_def MAX_RANGES_def)
qed

theorem parse_range_sound_witness:
  "parse_range (''bytes='' @ digits 2 @ ''-'' @ digits 4) 10 = Inr [\<lparr>range_start = 2, range_length = 3\<rparr>]"
  using parse_range_sound [of "[]" 10 "[]" 2 4] by simp

text \<open>C18: what is declared is what is sent. Every answer to a GET that declares a
  Content-Length has a body of exactly that length, multipart answers included; a 200 carries the
  whole file; and the answer to a HEAD has the same status and headers as the answer to a GET with
  no body of the file.\<close>

theorem content_length_exact:
  assumes "serve guess http_date show_date boundary ''GET'' h extension (Inr file) = Inr resp"
  shows "(\<forall>n. sv_length resp = Some n \<longrightarrow> length (sv_body resp) = n)
    \<and> (sv_status resp = 200 \<longrightarrow> sv_body resp = bytes file \<and> sv_length resp = Some (length (bytes file)))
    \<and> sv_status resp \<in> {200, 206, 304, 412, 416}
    \<and> (\<exists>head. serve guess http_date show_date boundary ''HEAD'' h extension (Inr file) = Inr head
        \<and> head\<lparr>sv_body := sv_body resp\<rparr> = resp \<and> (sv_status resp < 400 \<longrightarrow> sv_body head = []))"
proof -
  let ?ctype = "content_type_of guess extension"
  let ?base = "base_response show_date ?ctype (modified file)"
  have same: "check_preconditions http_date ''HEAD'' h (modified file) ?base
      = check_preconditions http_date ''GET'' h (modified file) ?base"
  proof -
    have eq: "check_if_modified_since http_date ''HEAD'' h (modified file)
        = check_if_modified_since http_date ''GET'' h (modified file)"
      "check_if_range http_date ''HEAD'' h (modified file) = check_if_range http_date ''GET'' h (modified file)"
      by (simp_all add: check_if_modified_since_def check_if_range_def)
    show ?thesis unfolding check_preconditions_def eq Let_def by (simp split: condition.split)
  qed
  show ?thesis
  proof (cases "check_preconditions http_date ''GET'' h (modified file) ?base")
    case (Inl answer)
    then show ?thesis
      using assms preconditions_status [OF Inl] same by (auto simp: serve_def Let_def base_response_def)
  next
    case (Inr rh)
    then have r: "resp = send_content ''GET'' rh boundary ?ctype (bytes file) ?base"
      and hd: "serve guess http_date show_date boundary ''HEAD'' h extension (Inr file)
        = Inr (send_content ''HEAD'' rh boundary ?ctype (bytes file) ?base)"
      using assms same by (simp_all add: serve_def Let_def)
    have head: "(send_content ''HEAD'' rh boundary ?ctype (bytes file) ?base)\<lparr>sv_body := sv_body resp\<rparr> = resp
        \<and> (sv_status resp < 400 \<longrightarrow> sv_body (send_content ''HEAD'' rh boundary ?ctype (bytes file) ?base) = [])"
      unfolding r
      by (auto simp: send_content_def send_ranges_def plain_error_def Let_def
          split: sum.split range_error.split list.split)
    show ?thesis
    proof (cases rule: send_content_cases [of "''GET''" rh boundary ?ctype "bytes file" ?base])
      case whole
      with r hd head show ?thesis by (auto simp: send_ranges_def)
    next
      case (parts ranges)
      have "sv_length resp = Some (length (sv_body resp))"
        using parse_range_ok [OF parts(1)] send_ranges_length [of "bytes file" ranges "''GET''"]
        unfolding r parts(3) by simp
      moreover have "sv_status resp \<in> {200, 206} \<and> (sv_status resp = 200 \<longrightarrow> sv_body resp = bytes file)"
        unfolding r parts(3) by (simp add: send_ranges_def Let_def split: list.split)
      ultimately show ?thesis using hd head by auto
    next
      case failed
      with r hd head show ?thesis by auto
    qed
  qed
qed

lemma serve_total: "\<exists>resp. serve guess http_date show_date boundary meth h extension (Inr file) = Inr resp"
  by (auto simp: serve_def Let_def split: sum.split)

theorem content_length_exact_witness:
  "\<exists>resp. serve (\<lambda>_. None) (\<lambda>_. None) (\<lambda>_. []) ''b'' ''GET'' (\<lambda>n. if n = ''range'' then ''bytes=0-0,8-9'' else [])
      (Some ''FLAC'') (Inr \<lparr>bytes = ''0123456789'', modified = None\<rparr>) = Inr resp
    \<and> (\<forall>n. sv_length resp = Some n \<longrightarrow> length (sv_body resp) = n)"
proof -
  obtain resp where "serve (\<lambda>_. None) (\<lambda>_. None) (\<lambda>_. []) ''b'' ''GET''
      (\<lambda>n. if n = ''range'' then ''bytes=0-0,8-9'' else [])
      (Some ''FLAC'') (Inr \<lparr>bytes = ''0123456789'', modified = None\<rparr>) = Inr resp"
    using serve_total by blast
  with content_length_exact [OF this] show ?thesis by blast
qed

text \<open>a seek gets exactly the bytes it asked for. A GET with no preconditions and the Range
  header \<open>bytes=a-b\<close> of a file that has byte \<open>a\<close> is answered 206 with the bytes from \<open>a\<close> to \<open>b\<close>, or to
  the end of the file, and a Content-Range that says so; a range that starts past the end is
  answered 416 with the size of the file.\<close>

theorem serve_range_exact:
  assumes "h ''range'' = ''bytes='' @ digits a @ ''-'' @ digits b"
    and "\<And>n. n \<noteq> ''range'' \<Longrightarrow> h n = []" and "a \<le> b" and "b < 2 ^ 63"
  shows "\<exists>resp. serve guess http_date show_date boundary ''GET'' h extension (Inr file) = Inr resp
    \<and> (a < length (bytes file) \<longrightarrow>
        sv_status resp = 206
        \<and> sv_body resp = take (b + 1 - a) (drop a (bytes file))
        \<and> sv_range resp = Some (''bytes '' @ digits a @ ''-'' @ digits (min b (length (bytes file) - 1)) @ ''/''
            @ digits (length (bytes file))))
    \<and> (length (bytes file) \<le> a \<and> bytes file \<noteq> [] \<longrightarrow>
        sv_status resp = 416 \<and> sv_range resp = Some (''bytes */'' @ digits (length (bytes file))))"
proof -
  let ?ctype = "content_type_of guess extension"
  let ?n = "length (bytes file)"
  let ?base = "base_response show_date ?ctype (modified file)"
  have "check_preconditions http_date ''GET'' h (modified file) ?base = Inr (h ''range'')"
    using assms(2) by (simp add: check_preconditions_def Let_def check_if_match_def check_if_none_match_def
        check_if_unmodified_since_def check_if_modified_since_def check_if_range_def)
  then have r: "serve guess http_date show_date boundary ''GET'' h extension (Inr file)
      = Inr (send_content ''GET'' (h ''range'') boundary ?ctype (bytes file) ?base)"
    by (simp add: serve_def Let_def)
  have b: "int b \<le> i64_max"
  proof -
    from assms(4) have "int b < 2 ^ 63" by (metis of_nat_less_iff of_nat_numeral of_nat_power)
    then show ?thesis by (simp add: i64_max_def)
  qed
  have inside: "send_content ''GET'' (h ''range'') boundary ?ctype (bytes file) ?base
      = send_ranges ''GET'' boundary ?ctype [\<lparr>range_start = a, range_length = min b (?n - 1) - a + 1\<rparr>] (bytes file) ?base"
    if "a < ?n"
    using that assms(3) parse_range_pair [OF assms(3) that b] by (auto simp: send_content_def assms(1) Let_def)
  have "take (min b (?n - 1) - a + 1) (drop a (bytes file)) = take (b + 1 - a) (drop a (bytes file))" if "a < ?n"
  proof (cases "b \<le> ?n - 1")
    case True
    then show ?thesis using assms(3) by (simp add: Suc_diff_le)
  next
    case False
    then show ?thesis using that assms(3) by simp
  qed
  moreover have "send_content ''GET'' (h ''range'') boundary ?ctype (bytes file) ?base
      = plain_error 416 ''invalid range: failed to overlap'' (?base\<lparr>sv_range := Some (''bytes */'' @ digits ?n)\<rparr>)"
    if "?n \<le> a" "bytes file \<noteq> []"
    using that parse_range_past [OF assms(3) that(1) b] by (simp add: send_content_def assms(1))
  ultimately show ?thesis
    using inside assms(3)
    by (auto simp: r send_ranges_def slice_def content_range_def plain_error_def Let_def)
qed

theorem serve_range_exact_witness:
  "\<exists>resp. serve (\<lambda>_. None) (\<lambda>_. None) (\<lambda>_. []) ''b'' ''GET''
      (\<lambda>n. if n = ''range'' then ''bytes='' @ digits 2 @ ''-'' @ digits 4 else [])
      (Some ''flac'') (Inr \<lparr>bytes = ''0123456789'', modified = None\<rparr>) = Inr resp
    \<and> sv_status resp = 206 \<and> sv_body resp = ''234''"
  using serve_range_exact [of "\<lambda>n. if n = ''range'' then ''bytes='' @ digits 2 @ ''-'' @ digits 4 else []" 2 4
      "\<lambda>_. None" "\<lambda>_. None" "\<lambda>_. []" "''b''" "Some ''flac''" "\<lparr>bytes = ''0123456789'', modified = None\<rparr>"]
  by auto

end
