(* ===== verification/F64_Value.thy ===== *)
theory F64_Value
  imports F64_Rounding
begin

text \<open>
  All the values of Rust's \<open>f64\<close>, for the Desktop Client: a finite rational, an
  infinity (with the sign as "is negative") or not a number. The operations
  are those of IEEE 754 binary64 with rounding to nearest, ties to even,
  subnormal numbers and overflow included. A zero has no sign here: the code
  never divides by a zero and compares both alike.
\<close>

datatype f64 = Fin rat | Inf bool | NaN

fun is_finite :: "f64 \<Rightarrow> bool" where
  "is_finite (Fin _) = True"
| "is_finite _ = False"

text \<open>The nearest value: a multiple of the spacing at \<open>x\<close>, which is never below \<open>2 ^ -1074\<close>.\<close>

definition f64_of :: "rat \<Rightarrow> f64" where
  "f64_of x =
     (if x = 0 then Fin 0
      else let q = 2 powi max (exponent2 \<bar>x\<bar> - 52) (- 1074);
               y = q * of_int (round_half_even (\<bar>x\<bar> / q))
           in if 2 powi 1024 \<le> y then Inf (x < 0) else Fin (sgn x * y))"

subsection \<open>Arithmetic\<close>

fun f64_neg :: "f64 \<Rightarrow> f64" where
  "f64_neg (Fin x) = Fin (- x)"
| "f64_neg (Inf s) = Inf (\<not> s)"
| "f64_neg NaN = NaN"

fun f64_add :: "f64 \<Rightarrow> f64 \<Rightarrow> f64" where
  "f64_add (Fin x) (Fin y) = f64_of (x + y)"
| "f64_add (Inf s) (Fin y) = Inf s"
| "f64_add (Fin x) (Inf t) = Inf t"
| "f64_add (Inf s) (Inf t) = (if s = t then Inf s else NaN)"
| "f64_add NaN _ = NaN"
| "f64_add _ NaN = NaN"

definition f64_sub :: "f64 \<Rightarrow> f64 \<Rightarrow> f64" where
  "f64_sub x y = f64_add x (f64_neg y)"

fun f64_mul :: "f64 \<Rightarrow> f64 \<Rightarrow> f64" where
  "f64_mul (Fin x) (Fin y) = f64_of (x * y)"
| "f64_mul (Inf s) (Fin y) = (if y = 0 then NaN else Inf (s \<noteq> (y < 0)))"
| "f64_mul (Fin x) (Inf t) = (if x = 0 then NaN else Inf (t \<noteq> (x < 0)))"
| "f64_mul (Inf s) (Inf t) = Inf (s \<noteq> t)"
| "f64_mul NaN _ = NaN"
| "f64_mul _ NaN = NaN"

fun f64_div :: "f64 \<Rightarrow> f64 \<Rightarrow> f64" where
  "f64_div (Fin x) (Fin y) = (if y = 0 then (if x = 0 then NaN else Inf (x < 0)) else f64_of (x / y))"
| "f64_div (Inf s) (Fin y) = Inf (s \<noteq> (y < 0))"
| "f64_div (Fin x) (Inf t) = Fin 0"
| "f64_div (Inf s) (Inf t) = NaN"
| "f64_div NaN _ = NaN"
| "f64_div _ NaN = NaN"

subsection \<open>Comparisons\<close>

fun f64_lt :: "f64 \<Rightarrow> f64 \<Rightarrow> bool" where
  "f64_lt (Fin x) (Fin y) = (x < y)"
| "f64_lt (Inf s) (Fin y) = s"
| "f64_lt (Fin x) (Inf t) = (\<not> t)"
| "f64_lt (Inf s) (Inf t) = (s \<and> \<not> t)"
| "f64_lt NaN _ = False"
| "f64_lt _ NaN = False"

fun f64_le :: "f64 \<Rightarrow> f64 \<Rightarrow> bool" where
  "f64_le (Fin x) (Fin y) = (x \<le> y)"
| "f64_le (Inf s) (Fin y) = s"
| "f64_le (Fin x) (Inf t) = (\<not> t)"
| "f64_le (Inf s) (Inf t) = (s \<or> \<not> t)"
| "f64_le NaN _ = False"
| "f64_le _ NaN = False"

definition f64_eq :: "f64 \<Rightarrow> f64 \<Rightarrow> bool" where
  "f64_eq x y \<longleftrightarrow> x = y \<and> x \<noteq> NaN"

text \<open>\<open>f64::clamp\<close>: not a number stays that.\<close>

definition f64_clamp :: "f64 \<Rightarrow> rat \<Rightarrow> rat \<Rightarrow> f64" where
  "f64_clamp x lo hi =
     (if f64_lt x (Fin lo) then Fin lo else if f64_lt (Fin hi) x then Fin hi else x)"

fun f64_between :: "rat \<Rightarrow> f64 \<Rightarrow> rat \<Rightarrow> bool" where
  "f64_between lo (Fin x) hi = (lo \<le> x \<and> x \<le> hi)"
| "f64_between lo _ hi = False"

fun f64_negative :: "f64 \<Rightarrow> bool" where
  "f64_negative (Fin x) = (x < 0)"
| "f64_negative (Inf neg) = neg"
| "f64_negative NaN = False"

subsection \<open>Lemmas\<close>

lemma f64_clamp_between: "lo \<le> hi \<Longrightarrow> is_finite x \<Longrightarrow> f64_between lo (f64_clamp x lo hi) hi"
  by (cases x) (auto simp: f64_clamp_def)

lemma f64_between_finite: "f64_between lo x hi \<Longrightarrow> is_finite x"
  by (cases x) auto

lemma f64_clamp_id: "f64_between lo x hi \<Longrightarrow> f64_clamp x lo hi = x"
  by (cases x) (auto simp: f64_clamp_def)

lemma f64_of_zero [simp]: "f64_of 0 = Fin 0"
  by (simp add: f64_of_def)

lemma f64_of_neg: "f64_of x = Fin x \<Longrightarrow> f64_of (- x) = Fin (- x)"
  by (auto simp: f64_of_def Let_def sgn_minus split: if_splits)

text \<open>In the normal range the value is the one of the budgets' rounding.\<close>

lemma f64_of_normal:
  assumes "x \<noteq> 0" and "- 1022 \<le> exponent2 \<bar>x\<bar>" and "f64_round \<bar>x\<bar> < 2 powi 1024"
  shows "f64_of x = Fin (sgn x * f64_round \<bar>x\<bar>)"
proof -
  have "max (exponent2 \<bar>x\<bar> - 52) (- 1074) = exponent2 \<bar>x\<bar> - 52" using assms(2) by simp
  then show ?thesis using assms(1,3) by (simp add: f64_of_def f64_round_def Let_def)
qed

lemma f64_of_nat:
  assumes "0 < n" and "n < 2 ^ 53"
  shows "f64_of (of_nat n) = Fin (of_nat n)"
proof -
  have r: "f64_round (of_nat n) = of_nat n" using f64_round_integer [of n] assms by simp
  have "0 \<le> exponent2 (of_nat n)"
  proof (rule ccontr)
    assume "\<not> 0 \<le> exponent2 (of_nat n)"
    then have "(2 :: rat) powi (exponent2 (of_nat n) + 1) \<le> 2 powi 0"
      by (intro power_int_increasing) simp_all
    moreover have "of_nat n < (2 :: rat) powi (exponent2 (of_nat n) + 1)"
      using exponent2_bounds(2) [of "of_nat n"] assms(1) by simp
    moreover have "(1 :: rat) \<le> of_nat n" using assms(1) by simp
    ultimately show False by (simp del: of_nat_less_iff)
  qed
  moreover have "(of_nat n :: rat) < 2 powi 1024"
  proof -
    have "(of_nat n :: rat) < of_nat (2 ^ 53)" using assms(2) by (simp only: of_nat_less_iff)
    also have "(of_nat (2 ^ 53) :: rat) = 2 powi 53" by simp
    also have "\<dots> \<le> 2 powi 1024" by (rule power_int_increasing) simp_all
    finally show ?thesis .
  qed
  ultimately show ?thesis using f64_of_normal [of "of_nat n"] assms(1) r by (simp add: sgn_if)
qed

end
