(* ===== verification/Playback_Navigation.thy ===== *)
theory Playback_Navigation
  imports Json_Value F64_Value "HOL-Library.Multiset"
begin

text \<open>
  The Playback Queue of the Desktop Client
  (\<open>desktop/core/src/playback_navigation.rs\<close>): which source comes next.

  A source arrives as a JSON value; its decoder, derived by a macro, is the
  parameter \<open>parse\<close>. The random numbers of a shuffle are a function from the
  loop's index to a number, or to nothing where the system's generator fails.
\<close>

subsection \<open>Sources\<close>

datatype playback_source =
    Track string string "string option" "f64 option"
  | RadioStation string string
  | CatalogPreview string string
  | ExternalTrack string string "f64 option"

text \<open>The identifier and the playback URL come first and second; a Track may have the id of
  its queue item, and a Track or an External Track its length in milliseconds.\<close>

fun playback_url :: "playback_source \<Rightarrow> string + string" where
  "playback_url src =
     (let url = (case src of Track _ u _ _ \<Rightarrow> u | RadioStation _ u \<Rightarrow> u | CatalogPreview _ u \<Rightarrow> u
        | ExternalTrack _ u _ \<Rightarrow> u)
      in if url \<noteq> [] then Inr url else Inl ''Playback Source URL is missing.'')"

fun kind :: "playback_source \<Rightarrow> string" where
  "kind (Track _ _ _ _) = ''track''"
| "kind (RadioStation _ _) = ''radio-station''"
| "kind (CatalogPreview _ _) = ''catalog-preview''"
| "kind (ExternalTrack _ _ _) = ''external-track''"

fun identity :: "playback_source \<Rightarrow> string" where
  "identity (Track i _ q _) = (case q of Some item \<Rightarrow> item | None \<Rightarrow> i)"
| "identity (RadioStation i _) = i"
| "identity (CatalogPreview i _) = i"
| "identity (ExternalTrack i _ _) = i"

definition duration_seconds :: "playback_source \<Rightarrow> f64" where
  "duration_seconds src =
     (let ms = (case src of Track _ _ _ d \<Rightarrow> d | ExternalTrack _ _ d \<Rightarrow> d | _ \<Rightarrow> None)
      in (case ms of
            Some d \<Rightarrow> if is_finite d \<and> f64_lt (Fin 0) d then f64_div d (Fin 1000) else Fin 0
          | None \<Rightarrow> Fin 0))"

subsection \<open>The queue\<close>

type_synonym parser = "json \<Rightarrow> string + playback_source"

record queue_context =
  sources :: "json list"
  order :: "nat list"
  queue_index :: "nat option"

datatype queue_direction = DirPrevious | DirNext

definition queue_default :: queue_context where
  "queue_default = \<lparr>sources = [], order = [], queue_index = None\<rparr>"

definition reset_order :: "queue_context \<Rightarrow> queue_context" where
  "reset_order q = q\<lparr>order := [0..<length (sources q)]\<rparr>"

fun parse_all :: "parser \<Rightarrow> json list \<Rightarrow> string + unit" where
  "parse_all parse [] = Inr ()"
| "parse_all parse (v # vs) = and_then (parse v) (\<lambda>_. parse_all parse vs)"

definition sync :: "parser \<Rightarrow> json list \<Rightarrow> nat option \<Rightarrow> queue_context \<Rightarrow> (string + unit) \<times> queue_context" where
  "sync parse vs current q =
     (if (case current of Some i \<Rightarrow> length vs \<le> i | None \<Rightarrow> False)
      then (Inl ''Playback Queue current index is out of range.'', q)
      else (case parse_all parse vs of
          Inl e \<Rightarrow> (Inl e, q)
        | Inr _ \<Rightarrow> (Inr (), reset_order (q\<lparr>sources := vs, queue_index := current\<rparr>))))"

fun find_identity :: "parser \<Rightarrow> string \<Rightarrow> json list \<Rightarrow> nat \<Rightarrow> string + nat option" where
  "find_identity parse ident [] i = Inr None"
| "find_identity parse ident (v # vs) i =
     and_then (parse v) (\<lambda>c. if identity c = ident then Inr (Some i) else find_identity parse ident vs (i + 1))"

definition align_to_source :: "parser \<Rightarrow> json \<Rightarrow> queue_context \<Rightarrow> (string + unit) \<times> queue_context" where
  "align_to_source parse v q =
     (case and_then (parse v) (\<lambda>src. find_identity parse (identity src) (sources q) 0) of
        Inl e \<Rightarrow> (Inl e, q)
      | Inr i \<Rightarrow> (Inr (), q\<lparr>queue_index := i\<rparr>))"

definition swap :: "nat \<Rightarrow> nat \<Rightarrow> 'a list \<Rightarrow> 'a list" where
  "swap i j xs = xs[i := xs ! j, j := xs ! i]"

fun shuffle_loop :: "(nat \<Rightarrow> nat option) \<Rightarrow> nat \<Rightarrow> nat list \<Rightarrow> (string + unit) \<times> nat list" where
  "shuffle_loop rand 0 xs = (Inr (), xs)"
| "shuffle_loop rand (Suc i) xs =
     (case rand (Suc i) of
        None \<Rightarrow> (Inl ''Playback Queue shuffle could not be generated.'', xs)
      | Some r \<Rightarrow> shuffle_loop rand i (swap (Suc i) (r mod (Suc i + 1)) xs))"

fun position :: "'a \<Rightarrow> 'a list \<Rightarrow> nat option" where
  "position x [] = None"
| "position x (y # ys) = (if y = x then Some 0 else map_option Suc (position x ys))"

definition avoid_sequential_successor :: "queue_context \<Rightarrow> queue_context" where
  "avoid_sequential_successor q =
     (case queue_index q of
        None \<Rightarrow> q
      | Some current \<Rightarrow>
          (case position current (order q) of
             None \<Rightarrow> q
           | Some p \<Rightarrow>
               let xs = rotate p (order q)
               in q\<lparr>order := (if 2 < length xs \<and> xs ! 1 = (current + 1) mod length xs then swap 1 2 xs else xs)\<rparr>))"

definition shuffle :: "(nat \<Rightarrow> nat option) \<Rightarrow> queue_context \<Rightarrow> (string + unit) \<times> queue_context" where
  "shuffle rand q =
     (let q1 = reset_order q;
          (res, xs) = shuffle_loop rand (length (order q1) - 1) (order q1)
      in (case res of
            Inl e \<Rightarrow> (Inl e, q1\<lparr>order := xs\<rparr>)
          | Inr _ \<Rightarrow> (Inr (), avoid_sequential_successor (q1\<lparr>order := xs\<rparr>))))"

text \<open>The place in the order that follows the current one, and the source there.\<close>

definition next_position :: "queue_direction \<Rightarrow> bool \<Rightarrow> nat \<Rightarrow> nat \<Rightarrow> nat option" where
  "next_position d wrap p n =
     (case d of
        DirPrevious \<Rightarrow> if 0 < p then Some (p - 1) else if wrap \<and> 0 < n then Some (n - 1) else None
      | DirNext \<Rightarrow> if p + 1 < n then Some (p + 1) else if wrap \<and> 0 < n then Some 0 else None)"

definition adjacent_index :: "queue_direction \<Rightarrow> bool \<Rightarrow> queue_context \<Rightarrow> nat option" where
  "adjacent_index d wrap q =
     (case queue_index q of
        None \<Rightarrow> None
      | Some current \<Rightarrow>
          (case position current (order q) of
             None \<Rightarrow> None
           | Some p \<Rightarrow> map_option (nth (order q)) (next_position d wrap p (length (order q)))))"

definition adjacent_source :: "queue_direction \<Rightarrow> bool \<Rightarrow> queue_context \<Rightarrow> json option" where
  "adjacent_source d wrap q =
     (case adjacent_index d wrap q of
        None \<Rightarrow> None
      | Some i \<Rightarrow> if i < length (sources q) then Some (sources q ! i) else None)"

subsection \<open>The order is a permutation\<close>

text \<open>
  A queue is in order when its order lists every index once, its current index
  is one of them and every source decodes.
\<close>

definition queue_ok :: "parser \<Rightarrow> queue_context \<Rightarrow> bool" where
  "queue_ok parse q \<longleftrightarrow>
     distinct (order q) \<and> set (order q) = {..<length (sources q)}
   \<and> (case queue_index q of Some i \<Rightarrow> i < length (sources q) | None \<Rightarrow> True)
   \<and> (\<forall>v \<in> set (sources q). is_ok (parse v))"

lemma queue_ok_length: "queue_ok parse q \<Longrightarrow> length (order q) = length (sources q)"
  using distinct_card [of "order q"] by (simp add: queue_ok_def)

lemma swap_length [simp]: "length (swap i j xs) = length xs"
  by (simp add: swap_def)

lemma swap_mset: "i < length xs \<Longrightarrow> j < length xs \<Longrightarrow> mset (swap i j xs) = mset xs"
  by (simp add: swap_def mset_swap)

lemma shuffle_loop_mset: "i < length xs \<Longrightarrow> mset (snd (shuffle_loop rand i xs)) = mset xs"
proof (induction rand i xs rule: shuffle_loop.induct)
  case (2 rand i xs)
  show ?case
  proof (cases "rand (Suc i)")
    case (Some r)
    have "r mod (Suc i + 1) < length xs" using 2(2) mod_less_divisor [of "Suc i + 1" r] by linarith
    with 2(2) have "mset (swap (Suc i) (r mod (Suc i + 1)) xs) = mset xs" by (intro swap_mset) simp_all
    with 2 Some show ?thesis by simp
  qed simp
qed simp

lemma shuffle_loop_total: "(\<And>j. rand j \<noteq> None) \<Longrightarrow> fst (shuffle_loop rand i xs) = Inr ()"
  by (induction rand i xs rule: shuffle_loop.induct) (auto split: option.split)

lemma position_Some: "position x xs = Some i \<Longrightarrow> i < length xs \<and> xs ! i = x"
  by (induction xs arbitrary: i) (auto split: if_splits simp: nth_Cons')

lemma position_None: "position x xs = None \<longleftrightarrow> x \<notin> set xs"
  by (induction xs) auto

lemma position_nth: "distinct xs \<Longrightarrow> i < length xs \<Longrightarrow> position (xs ! i) xs = Some i"
proof -
  assume d: "distinct xs" and i: "i < length xs"
  then obtain j where j: "position (xs ! i) xs = Some j" using position_None [of "xs ! i" xs] by fastforce
  from position_Some [OF this] d i have "j = i" by (auto simp: nth_eq_iff_index_eq)
  with j show ?thesis by simp
qed

lemma mset_order:
  "mset xs = mset [0..<n] \<Longrightarrow> distinct xs \<and> set xs = {..<n}"
  by (metis atLeast_upt distinct_upt mset_eq_imp_distinct_iff mset_eq_setD)

lemma queue_ok_mset: "distinct xs \<Longrightarrow> set xs = {..<n} \<Longrightarrow> mset xs = mset [0..<n]"
  by (metis atLeast_upt distinct_upt set_eq_iff_mset_eq_distinct)

lemma mset_rotate_all: "mset (rotate n xs) = mset xs"
proof (induction n)
  case (Suc n)
  have "mset (rotate1 ys) = mset ys" for ys :: "'a list" by (cases ys) simp_all
  with Suc show ?case by (simp add: rotate_Suc)
qed simp

lemma avoid_mset: "mset (order (avoid_sequential_successor q)) = mset (order q)"
  by (auto simp: avoid_sequential_successor_def Let_def swap_mset mset_rotate_all split: option.split)

lemma avoid_frame [simp]:
  "sources (avoid_sequential_successor q) = sources q" "queue_index (avoid_sequential_successor q) = queue_index q"
  by (simp_all add: avoid_sequential_successor_def Let_def split: option.split)

lemma shuffle_mset: "mset (order (snd (shuffle rand q))) = mset [0..<length (sources q)]"
proof (cases "sources q = []")
  case True
  then show ?thesis
    by (simp add: shuffle_def reset_order_def Let_def avoid_mset)
next
  case False
  have "mset (snd (shuffle_loop rand (length (sources q) - 1) [0..<length (sources q)])) = mset [0..<length (sources q)]"
    using False by (intro shuffle_loop_mset) simp
  then show ?thesis
    by (simp add: shuffle_def reset_order_def Let_def split_beta avoid_mset split: sum.split)
qed

lemma shuffle_frame [simp]:
  "sources (snd (shuffle rand q)) = sources q" "queue_index (snd (shuffle rand q)) = queue_index q"
  by (simp_all add: shuffle_def reset_order_def Let_def split_beta split: sum.split)

lemma find_identity_bound: "find_identity parse ident vs i = Inr (Some j) \<Longrightarrow> i \<le> j \<and> j < i + length vs"
  by (induction vs arbitrary: i) (fastforce simp: and_then_Inr_iff split: if_splits)+

lemma find_identity_first:
  "find_identity parse ident vs i = Inr (Some j) \<Longrightarrow>
     (\<exists>c. parse (vs ! (j - i)) = Inr c \<and> identity c = ident)
   \<and> (\<forall>k < j - i. \<exists>c. parse (vs ! k) = Inr c \<and> identity c \<noteq> ident)"
proof (induction vs arbitrary: i)
  case (Cons v vs)
  then obtain c where c: "parse v = Inr c" by (auto simp: and_then_Inr_iff)
  show ?case
  proof (cases "identity c = ident")
    case True
    with Cons.prems c show ?thesis by auto
  next
    case False
    with Cons.prems c have f: "find_identity parse ident vs (i + 1) = Inr (Some j)" by simp
    from find_identity_bound [OF this] have "j - i = Suc (j - (i + 1))" by linarith
    with Cons.IH [OF f] c False show ?thesis by (auto simp: less_Suc_eq_0_disj)
  qed
qed simp

lemma find_identity_total:
  "\<forall>v \<in> set vs. is_ok (parse v) \<Longrightarrow> is_ok (find_identity parse ident vs i)"
proof (induction vs arbitrary: i)
  case (Cons v vs)
  then obtain c where "parse v = Inr c" by (cases "parse v") auto
  with Cons show ?case by simp
qed simp

lemma parse_all_ok: "parse_all parse vs = Inr () \<longleftrightarrow> (\<forall>v \<in> set vs. is_ok (parse v))"
proof (induction vs)
  case (Cons v vs)
  then show ?case by (cases "parse v") auto
qed simp

text \<open>The operations a client can call on a queue.\<close>

inductive queue_step :: "parser \<Rightarrow> queue_context \<Rightarrow> queue_context \<Rightarrow> bool" for parse where
  "queue_step parse q (snd (sync parse vs current q))"
| "queue_step parse q (snd (align_to_source parse v q))"
| "queue_step parse q (snd (shuffle rand q))"
| "queue_step parse q (reset_order q)"

lemma queue_step_ok: "queue_step parse q q' \<Longrightarrow> queue_ok parse q \<Longrightarrow> queue_ok parse q'"
proof (induction rule: queue_step.induct)
  case (1 q vs current)
  then show ?case
    by (auto simp: sync_def reset_order_def queue_ok_def parse_all_ok split: option.split sum.split)
next
  case (2 q v)
  then show ?case
    by (auto simp: align_to_source_def queue_ok_def and_then_Inr_iff dest: find_identity_bound
        split: option.splits sum.split)
next
  case (3 q rand)
  then show ?case
    using mset_order [OF shuffle_mset [of rand q]] by (cases "queue_index q") (simp_all add: queue_ok_def)
next
  case (4 q)
  then show ?case by (cases "queue_index q") (auto simp: queue_ok_def reset_order_def)
qed

lemma queue_steps_ok: "(queue_step parse)\<^sup>*\<^sup>* queue_default q \<Longrightarrow> queue_ok parse q"
proof (induction rule: rtranclp_induct)
  case base
  show ?case by (simp add: queue_default_def queue_ok_def)
qed (rule queue_step_ok)

text \<open>C39: however the queue is synchronised, aligned, shuffled or put back in order, and
  whichever of these fail half way, its order lists each of its sources exactly once, and the
  current index points at one of them; so no source is lost or doubled, and aligning never fails
  on a source of the queue.\<close>

theorem queue_order_sound:
  assumes "(queue_step parse)\<^sup>*\<^sup>* queue_default q"
  shows "mset (order q) = mset [0..<length (sources q)]
    \<and> (\<forall>i. queue_index q = Some i \<longrightarrow> i < length (sources q))
    \<and> (is_ok (parse v) \<longrightarrow> is_ok (fst (align_to_source parse v q)))"
proof -
  have ok: "queue_ok parse q" using assms by (rule queue_steps_ok)
  then have "mset (order q) = mset [0..<length (sources q)]"
    by (intro queue_ok_mset) (simp_all add: queue_ok_def)
  moreover have "is_ok (fst (align_to_source parse v q))" if "is_ok (parse v)"
  proof -
    from that obtain src where src: "parse v = Inr src" by (cases "parse v") auto
    from ok have "\<forall>w \<in> set (sources q). is_ok (parse w)" by (simp add: queue_ok_def)
    then have "is_ok (find_identity parse (identity src) (sources q) 0)" by (rule find_identity_total)
    with src show ?thesis
      by (cases "find_identity parse (identity src) (sources q) 0") (simp_all add: align_to_source_def)
  qed
  ultimately show ?thesis using ok by (auto simp: queue_ok_def)
qed

text \<open>A decoder for the witnesses: every JSON string is a radio station.\<close>

fun toy_parse :: parser where
  "toy_parse (JString s) = Inr (RadioStation s s)"
| "toy_parse _ = Inl ''invalid''"

definition toy_queue :: queue_context where
  "toy_queue = snd (sync toy_parse [JString ''a'', JString ''b'', JString ''c''] (Some 0) queue_default)"

lemma toy_queue_step: "(queue_step toy_parse)\<^sup>*\<^sup>* queue_default (snd (shuffle (\<lambda>_. Some 0) toy_queue))"
proof -
  have "(queue_step toy_parse)\<^sup>*\<^sup>* queue_default toy_queue"
    unfolding toy_queue_def by (rule r_into_rtranclp, rule queue_step.intros(1))
  then show ?thesis by (rule rtranclp.rtrancl_into_rtrancl) (rule queue_step.intros(3))
qed

theorem queue_order_sound_witness:
  "mset (order (snd (shuffle (\<lambda>_. Some 0) toy_queue))) = mset [0..<3]"
proof -
  have "length (sources (snd (shuffle (\<lambda>_. Some 0) toy_queue))) = 3"
    by (simp add: toy_queue_def sync_def reset_order_def)
  with queue_order_sound [OF toy_queue_step, of JNull] show ?thesis by metis
qed

subsection \<open>Shuffling and walking\<close>

lemma avoid_sequential:
  assumes "distinct (order q)" and "queue_index q = Some c" and "c \<in> set (order q)" and "2 < length (order q)"
  shows "order (avoid_sequential_successor q) ! 0 = c
    \<and> order (avoid_sequential_successor q) ! 1 \<noteq> (c + 1) mod length (order q)"
proof -
  obtain p where p: "position c (order q) = Some p" using assms(3) position_None [of c "order q"] by fastforce
  let ?xs = "rotate p (order q)"
  have len: "length ?xs = length (order q)" by simp
  have d: "distinct ?xs" using assms(1) by simp
  have "order q \<noteq> []" using assms(4) by auto
  then have "?xs ! 0 = c" using position_Some [OF p] nth_rotate [of 0 "order q" p] by simp
  moreover have "?xs ! 2 \<noteq> ?xs ! 1" using d assms(4) by (simp add: nth_eq_iff_index_eq)
  ultimately show ?thesis
    using assms(2,4) p
    by (auto simp: avoid_sequential_successor_def Let_def swap_def nth_list_update)
qed

text \<open>a shuffle sounds like one. When it succeeds on a queue of at least three sources
  with a current one, the current source comes first in the new order, and the source after it is
  not the one that follows it in the queue (the last being followed by the first).\<close>

theorem shuffle_avoids_successor:
  assumes "queue_index q = Some c" and "c < length (sources q)" and "2 < length (sources q)"
    and "fst (shuffle rand q) = Inr ()"
  shows "order (snd (shuffle rand q)) ! 0 = c
    \<and> (\<exists>i. adjacent_index DirNext wrap (snd (shuffle rand q)) = Some i
        \<and> i \<noteq> c \<and> i \<noteq> (c + 1) mod length (sources q))"
proof -
  let ?q = "snd (shuffle rand q)"
  let ?x = "shuffle_loop rand (length (sources q) - 1) [0..<length (sources q)]"
  let ?q1 = "(reset_order q)\<lparr>order := snd ?x\<rparr>"
  have q: "?q = avoid_sequential_successor ?q1"
    using assms(4) by (auto simp: shuffle_def reset_order_def Let_def split_beta split: sum.splits)
  have m: "mset (snd ?x) = mset [0..<length (sources q)]" using assms(3) by (intro shuffle_loop_mset) simp
  have x: "distinct (snd ?x)" "set (snd ?x) = {..<length (sources q)}" using mset_order [OF m] by auto
  have len: "length (snd ?x) = length (sources q)" using mset_eq_length [OF m] by simp
  have a: "order ?q ! 0 = c \<and> order ?q ! 1 \<noteq> (c + 1) mod length (sources q)"
    using avoid_sequential [of ?q1 c] assms(1-3) x len unfolding q by (simp add: reset_order_def)
  have d: "distinct (order ?q)" and l: "length (order ?q) = length (sources q)"
    using mset_order [OF shuffle_mset [of rand q]] mset_eq_length [OF shuffle_mset [of rand q]] by auto
  have "0 < length (order ?q)" using assms(3) l by linarith
  from position_nth [OF d this] have "position c (order ?q) = Some 0" using a by simp
  then have "adjacent_index DirNext wrap ?q = Some (order ?q ! 1)"
    using assms(1,3) l by (simp add: adjacent_index_def next_position_def)
  moreover have "order ?q ! 1 \<noteq> c"
    using a nth_eq_iff_index_eq [OF d \<open>0 < length (order ?q)\<close>, of 1] l assms(3) by auto
  ultimately show ?thesis using a by auto
qed

theorem shuffle_avoids_successor_witness:
  "\<exists>i. adjacent_index DirNext False (snd (shuffle (\<lambda>_. Some 0) toy_queue)) = Some i \<and> i \<noteq> 1"
proof -
  have q: "queue_index toy_queue = Some 0" "length (sources toy_queue) = 3"
    by (simp_all add: toy_queue_def sync_def reset_order_def)
  have "fst (shuffle (\<lambda>_. Some 0) toy_queue) = Inr ()"
    using shuffle_loop_total [of "\<lambda>_. Some 0"] by (simp add: shuffle_def Let_def split_beta)
  with q shuffle_avoids_successor [of toy_queue 0 "\<lambda>_. Some 0" False] show ?thesis by auto
qed

text \<open>Going to the adjacent source, as the client does when it plays it.\<close>

definition go :: "queue_direction \<Rightarrow> queue_context \<Rightarrow> queue_context" where
  "go d q = q\<lparr>queue_index := adjacent_index d True q\<rparr>"

lemma adjacent_next:
  assumes "distinct (order q)" and "i < length (order q)" and "queue_index q = Some (order q ! i)"
  shows "adjacent_index DirNext True q = Some (order q ! ((i + 1) mod length (order q)))"
    "adjacent_index DirPrevious True q = Some (order q ! ((i + length (order q) - 1) mod length (order q)))"
proof -
  have p: "position (order q ! i) (order q) = Some i" using assms(1,2) by (rule position_nth)
  show "adjacent_index DirNext True q = Some (order q ! ((i + 1) mod length (order q)))"
  proof (cases "i + 1 < length (order q)")
    case True
    with assms(3) p show ?thesis by (simp add: adjacent_index_def next_position_def)
  next
    case False
    with assms(2) have n: "length (order q) = i + 1" by simp
    show ?thesis using assms(3) p by (simp add: adjacent_index_def next_position_def n)
  qed
  show "adjacent_index DirPrevious True q = Some (order q ! ((i + length (order q) - 1) mod length (order q)))"
    using assms(2,3) p by (cases i) (simp_all add: adjacent_index_def next_position_def)
qed

lemma go_next_iterate:
  assumes "distinct (order q)" and "i < length (order q)" and "queue_index q = Some (order q ! i)"
  shows "(go DirNext ^^ k) q = q\<lparr>queue_index := Some (order q ! ((i + k) mod length (order q)))\<rparr>"
proof (induction k)
  case 0
  with assms show ?case by simp
next
  case (Suc k)
  let ?q = "q\<lparr>queue_index := Some (order q ! ((i + k) mod length (order q)))\<rparr>"
  have "(i + k) mod length (order q) < length (order q)"
    using assms(2) by (rule mod_less_divisor [OF le_less_trans [OF le0]])
  then have "adjacent_index DirNext True ?q = Some (order q ! (((i + k) mod length (order q) + 1) mod length (order q)))"
    using adjacent_next(1) [of ?q] assms(1) by simp
  moreover have "((i + k) mod length (order q) + 1) mod length (order q) = (i + Suc k) mod length (order q)"
    by (simp add: mod_Suc_eq)
  ultimately have "go DirNext ?q = q\<lparr>queue_index := Some (order q ! ((i + Suc k) mod length (order q)))\<rparr>"
    unfolding go_def by simp
  with Suc show ?case by simp
qed

text \<open>repeating the queue plays everything. In a queue that is in order, with wrapping on,
  there is always a next and a previous source, going to the next and then to the previous one
  comes back to the same, and going to the next as often as there are sources visits every source
  exactly once and ends where it began.\<close>

theorem walk_visits_all:
  assumes "queue_ok parse q" and "queue_index q = Some c"
  shows "go DirPrevious (go DirNext q) = q
    \<and> (\<forall>k. adjacent_source DirNext True ((go DirNext ^^ k) q) \<noteq> None)
    \<and> {queue_index ((go DirNext ^^ k) q) | k. k < length (sources q)} = Some ` {..<length (sources q)}
    \<and> (go DirNext ^^ length (sources q)) q = q"
proof -
  let ?n = "length (order q)"
  have ok: "distinct (order q)" "set (order q) = {..<length (sources q)}" "?n = length (sources q)"
    using assms(1) queue_ok_length [OF assms(1)] by (simp_all add: queue_ok_def)
  have "c \<in> set (order q)" using assms ok(2) by (simp add: queue_ok_def)
  then obtain i where i: "i < ?n" "order q ! i = c" by (auto simp: in_set_conv_nth)
  have cur: "queue_index q = Some (order q ! i)" using assms(2) i by simp
  note it = go_next_iterate [OF ok(1) i(1) cur]
  have m: "x mod ?n < ?n" for x using i(1) by (rule mod_less_divisor [OF le_less_trans [OF le0]])
  have self: "q\<lparr>queue_index := Some (order q ! i)\<rparr> = q" using cur by simp
  have full: "(go DirNext ^^ ?n) q = q" using it [of ?n] i(1) self by simp
  have there_and_back: "go DirPrevious (go DirNext q) = q"
  proof -
    let ?j = "(i + 1) mod ?n"
    let ?q = "q\<lparr>queue_index := Some (order q ! ?j)\<rparr>"
    have j: "?j < ?n" by (rule m)
    have "(?j + ?n - 1) mod ?n = i"
    proof (cases "i + 1 < ?n")
      case True
      with i(1) show ?thesis by simp
    next
      case False
      with i(1) have n: "?n = i + 1" by simp
      show ?thesis by (simp add: n)
    qed
    then have "adjacent_index DirPrevious True ?q = Some (order q ! i)"
      using adjacent_next(2) [of ?q ?j] ok(1) j by simp
    moreover have "go DirNext q = ?q" using it [of 1] by simp
    ultimately show ?thesis using self by (simp add: go_def)
  qed
  have some: "adjacent_source DirNext True ((go DirNext ^^ k) q) \<noteq> None" for k
  proof -
    let ?q = "q\<lparr>queue_index := Some (order q ! ((i + k) mod ?n))\<rparr>"
    have "order q ! (((i + k) mod ?n + 1) mod ?n) < length (sources q)" using ok(2) m nth_mem by blast
    then show ?thesis
      using adjacent_next(1) [of ?q "(i + k) mod ?n"] ok(1) m unfolding it by (simp add: adjacent_source_def)
  qed
  have "{queue_index ((go DirNext ^^ k) q) | k. k < ?n} = Some ` (\<lambda>k. order q ! ((i + k) mod ?n)) ` {..<?n}"
    by (auto simp: it)
  also have "(\<lambda>k. order q ! ((i + k) mod ?n)) ` {..<?n} = set (rotate i (order q))"
  proof -
    have "set (rotate i (order q)) = nth (rotate i (order q)) ` {..<?n}"
      by (auto simp: set_conv_nth simp del: set_rotate)
    then show ?thesis by (simp add: nth_rotate del: set_rotate)
  qed
  finally show ?thesis using full there_and_back some ok by auto
qed

theorem walk_visits_all_witness:
  "{queue_index ((go DirNext ^^ k) toy_queue) | k. k < 3} = Some ` {..<3}"
proof -
  have "(queue_step toy_parse)\<^sup>*\<^sup>* queue_default toy_queue"
    unfolding toy_queue_def by (rule r_into_rtranclp, rule queue_step.intros(1))
  then have ok: "queue_ok toy_parse toy_queue" by (rule queue_steps_ok)
  have q: "queue_index toy_queue = Some 0" "length (sources toy_queue) = 3"
    by (simp_all add: toy_queue_def sync_def reset_order_def)
  from walk_visits_all [OF ok q(1)] q(2) show ?thesis by simp
qed

end
