(* ===== verification/Playback_Lifecycle.thy ===== *)
theory Playback_Lifecycle
  imports Json_Value F64_Value
begin

text \<open>
  The life of the Desktop Client's player
  (\<open>desktop/core/src/playback_lifecycle.rs\<close>): what is saved of a session, how a
  saved source finds the media proxy again, and what happens when the player
  dies.

  The store's
  file is a value of the world; its JSON codec is a pair of parameters.
\<close>

subsection \<open>Snapshots\<close>

record session_snapshot =
  snapshot_source :: "json option"
  playhead_seconds :: f64
  volume :: f64
  shuffle_enabled :: bool
  repeat_mode :: string

datatype lifecycle_error = InvalidSnapshot string | InvalidState string | ReadError | DecodeError | EncodeError | WriteError

definition ALLOWED_REPEAT_MODES :: "string list" where
  "ALLOWED_REPEAT_MODES = [''off'', ''once'', ''loop'']"

definition validate_snapshot :: "f64 \<Rightarrow> f64 \<Rightarrow> string \<Rightarrow> lifecycle_error + unit" where
  "validate_snapshot p v mode =
     (if \<not> is_finite p \<or> f64_negative p
      then Inl (InvalidSnapshot ''Playback Session Snapshot playhead must be a non-negative finite number.'')
      else if \<not> is_finite v \<or> \<not> f64_between 0 v 1
      then Inl (InvalidSnapshot ''Playback Session Snapshot volume must be between zero and one.'')
      else if mode \<notin> set ALLOWED_REPEAT_MODES
      then Inl (InvalidSnapshot (''Playback Session Snapshot repeat mode '' @ [CHR 0x27] @ mode @ [CHR 0x27]
             @ '' is unsupported.''))
      else Inr ())"

definition snapshot_new :: "json option \<Rightarrow> f64 \<Rightarrow> f64 \<Rightarrow> bool \<Rightarrow> string \<Rightarrow> lifecycle_error + session_snapshot" where
  "snapshot_new src p v sh mode =
     and_then (validate_snapshot p v mode) (\<lambda>_. Inr \<lparr>snapshot_source = src, playhead_seconds = p,
       volume = v, shuffle_enabled = sh, repeat_mode = mode\<rparr>)"

subsection \<open>The store\<close>

text \<open>Reading the file gives an error, nothing, or its contents; saving writes a temporary file
  and renames it, so the file is replaced whole or not at all.\<close>

datatype file_read = ReadFailed | Absent | Contents string

definition store_load :: "(string \<Rightarrow> session_snapshot option) \<Rightarrow> file_read
    \<Rightarrow> lifecycle_error + session_snapshot option" where
  "store_load decode file =
     (case file of
        Absent \<Rightarrow> Inr None
      | ReadFailed \<Rightarrow> Inl ReadError
      | Contents c \<Rightarrow>
          (case decode c of
             None \<Rightarrow> Inl DecodeError
           | Some s \<Rightarrow>
               and_then (validate_snapshot (playhead_seconds s) (volume s) (repeat_mode s)) (\<lambda>_. Inr (Some s))))"

datatype save_outcome = Saves | DirFails | TempFails | RenameFails

definition store_save :: "(session_snapshot \<Rightarrow> string option) \<Rightarrow> save_outcome \<Rightarrow> session_snapshot \<Rightarrow> file_read
    \<Rightarrow> (lifecycle_error + unit) \<times> file_read" where
  "store_save encode out s file =
     (if out = DirFails then (Inl WriteError, file)
      else (case encode s of
          None \<Rightarrow> (Inl EncodeError, file)
        | Some c \<Rightarrow> if out = Saves then (Inr (), Contents c) else (Inl WriteError, file)))"

subsection \<open>Sources and the media proxy\<close>

definition is_safe_path_segment :: "string \<Rightarrow> bool" where
  "is_safe_path_segment s \<longleftrightarrow> s \<noteq> [] \<and> CHR ''/'' \<notin> set s \<and> CHR ''?'' \<notin> set s \<and> CHR ''#'' \<notin> set s"

definition invalid_source :: "string \<Rightarrow> lifecycle_error" where
  "invalid_source m = InvalidSnapshot m"

definition ends_with :: "string \<Rightarrow> string \<Rightarrow> bool" where
  "ends_with s t \<longleftrightarrow> suffix t s"

definition url_path :: "string \<Rightarrow> string" where
  "url_path url = takeWhile (\<lambda>c. c \<noteq> CHR ''?'' \<and> c \<noteq> CHR ''#'') url"

definition external_track_resource :: "json \<Rightarrow> lifecycle_error + string" where
  "external_track_resource src =
     (let path = (case Option.bind (jget ''playbackUrl'' src) as_str of Some u \<Rightarrow> url_path u | None \<Rightarrow> [])
      in if ends_with path ''/playlist.m3u8'' then Inr ''playlist.m3u8''
         else if ends_with path ''/stream'' then Inr ''stream''
         else Inl (invalid_source ''External Track playback URL is invalid.''))"

text \<open>Where each type keeps its identifier, and the path of its media.\<close>

definition source_route :: "string \<Rightarrow> ((string \<times> string) \<times> string) option" where
  "source_route t = map_of
     [(''track'', ((''track'', ''id''), ''api/v1/tracks'')),
      (''radio-station'', ((''station'', ''id''), ''api/v1/radio/stations'')),
      (''catalog-preview'', ((''result'', ''stationUuid''), ''api/v1/radio/preview'')),
      (''external-track'', ((''externalTrack'', ''id''), ''api/v1/external/tracks''))] t"

definition source_identifier :: "string \<Rightarrow> string \<Rightarrow> json \<Rightarrow> string option" where
  "source_identifier outer inner src =
     (case Option.bind (Option.bind (jget outer src) (jget inner)) as_str of
        Some i \<Rightarrow> if is_safe_path_segment i then Some i else None
      | None \<Rightarrow> None)"

definition playback_source_path :: "json \<Rightarrow> lifecycle_error + string" where
  "playback_source_path src =
     (let kind = Option.bind (jget ''type'' src) as_str in
      case Option.bind kind source_route of
        None \<Rightarrow> Inl (invalid_source ''Playback Source type is unsupported.'')
      | Some ((outer, inner), route) \<Rightarrow>
          (case source_identifier outer inner src of
             None \<Rightarrow> Inl (invalid_source ''Playback Source identifier is invalid.'')
           | Some i \<Rightarrow>
               and_then (if kind = Some ''external-track'' then external_track_resource src else Inr ''stream'')
                 (\<lambda>r. Inr (route @ ''/'' @ i @ ''/'' @ r))))"

fun insert_member :: "string \<Rightarrow> json \<Rightarrow> (string \<times> json) list \<Rightarrow> (string \<times> json) list" where
  "insert_member k v [] = [(k, v)]"
| "insert_member k v ((k', v') # ms) = (if k' = k then (k, v) # ms else (k', v') # insert_member k v ms)"

definition rebind_source :: "string \<Rightarrow> json \<Rightarrow> lifecycle_error + json" where
  "rebind_source base src =
     and_then (playback_source_path src)
       (\<lambda>path. case src of
          JObject ms \<Rightarrow> Inr (JObject (insert_member ''playbackUrl'' (JString (base @ ''/'' @ path)) ms))
        | _ \<Rightarrow> Inl (invalid_source ''Playback Source must be an object.''))"

definition rebind_media_proxy :: "string \<Rightarrow> session_snapshot \<Rightarrow> lifecycle_error + session_snapshot" where
  "rebind_media_proxy base s =
     (case snapshot_source s of
        None \<Rightarrow> Inr s
      | Some src \<Rightarrow> and_then (rebind_source base src) (\<lambda>src'. Inr (s\<lparr>snapshot_source := Some src'\<rparr>)))"

subsection \<open>The state machine\<close>

datatype lifecycle_state = Foreground | Background | Recovering | Failed | Quitting

datatype lifecycle_action =
    KeepPlayerRunning | PublishPlaybackState | RestartPlayer session_snapshot bool
  | SurfaceActionableError | StopPlayerAndExit

record lifecycle =
  life_state :: lifecycle_state
  has_recovery_attempted :: bool

definition lifecycle_new :: lifecycle where
  "lifecycle_new = \<lparr>life_state = Foreground, has_recovery_attempted = False\<rparr>"

definition close_main_window :: "lifecycle \<Rightarrow> lifecycle_action \<times> lifecycle" where
  "close_main_window l = (KeepPlayerRunning, l\<lparr>life_state := Background\<rparr>)"

definition renderer_attached :: "lifecycle \<Rightarrow> lifecycle_action \<times> lifecycle" where
  "renderer_attached l = (PublishPlaybackState, l)"

definition explicit_quit :: "(session_snapshot \<Rightarrow> string option) \<Rightarrow> save_outcome \<Rightarrow> session_snapshot \<Rightarrow> file_read
    \<Rightarrow> lifecycle \<Rightarrow> (lifecycle_error + lifecycle_action) \<times> lifecycle \<times> file_read" where
  "explicit_quit encode out s file l =
     (case store_save encode out s file of
        (Inl e, file') \<Rightarrow> (Inl e, l, file')
      | (Inr _, file') \<Rightarrow> (Inr StopPlayerAndExit, l\<lparr>life_state := Quitting\<rparr>, file'))"

definition unexpected_player_exit :: "session_snapshot \<Rightarrow> bool \<Rightarrow> lifecycle \<Rightarrow> lifecycle_action \<times> lifecycle" where
  "unexpected_player_exit s resume l =
     (if \<not> has_recovery_attempted l
      then (RestartPlayer s resume, l\<lparr>has_recovery_attempted := True, life_state := Recovering\<rparr>)
      else (SurfaceActionableError, l\<lparr>life_state := Failed\<rparr>))"

definition player_stabilized :: "lifecycle \<Rightarrow> lifecycle" where
  "player_stabilized l =
     (let l' = l\<lparr>has_recovery_attempted := False\<rparr>
      in if life_state l' = Recovering then l'\<lparr>life_state := Foreground\<rparr> else l')"

subsection \<open>Rebinding\<close>

lemma map_of_insert_member: "map_of (insert_member k v ms) k' = (if k' = k then Some v else map_of ms k')"
  by (induction ms) auto

lemma insert_member_twice: "insert_member k v (insert_member k w ms) = insert_member k v ms"
  by (induction ms) auto

lemma url_path_id: "CHR ''?'' \<notin> set u \<Longrightarrow> CHR ''#'' \<notin> set u \<Longrightarrow> url_path u = u"
  unfolding url_path_def by (induction u) auto

lemma jget_rebound:
  assumes "rebind_source base src = Inr src'"
  shows "jget k src' = (if k = ''playbackUrl'' then jget k src' else jget k src)"
  using assms by (cases src) (auto simp: rebind_source_def and_then_Inr_iff map_of_insert_member)

lemma rebind_source_shape:
  assumes "rebind_source base src = Inr src'"
  obtains ms path where "src = JObject ms" "playback_source_path src = Inr path"
    "src' = JObject (insert_member ''playbackUrl'' (JString (base @ ''/'' @ path)) ms)"
  using assms by (cases src) (auto simp: rebind_source_def and_then_Inr_iff)

lemma resource_names: "external_track_resource src = Inr r \<Longrightarrow> r = ''playlist.m3u8'' \<or> r = ''stream''"
  by (auto simp: external_track_resource_def Let_def split: if_splits)

text \<open>The shape of a path: its route, a safe identifier and a resource.\<close>

lemma path_shape:
  assumes "playback_source_path src = Inr path"
  obtains k outer inner route i r where "Option.bind (jget ''type'' src) as_str = Some k"
    "source_route k = Some ((outer, inner), route)"
    "source_identifier outer inner src = Some i" "is_safe_path_segment i"
    "(if k = ''external-track'' then external_track_resource src else Inr ''stream'') = Inr r"
    "path = route @ ''/'' @ i @ ''/'' @ r"
proof -
  from assms obtain k where k: "Option.bind (jget ''type'' src) as_str = Some k"
    by (cases "Option.bind (jget ''type'' src) as_str") (auto simp: playback_source_path_def Let_def)
  with assms obtain outer inner route where route: "source_route k = Some ((outer, inner), route)"
    by (cases "source_route k") (auto simp: playback_source_path_def Let_def)
  with assms k obtain i where i: "source_identifier outer inner src = Some i"
    by (cases "source_identifier outer inner src") (auto simp: playback_source_path_def Let_def)
  then have safe: "is_safe_path_segment i" by (auto simp: source_identifier_def split: option.splits if_splits)
  from assms k route i obtain r where
    "(if k = ''external-track'' then external_track_resource src else Inr ''stream'') = Inr r"
    "path = route @ ''/'' @ i @ ''/'' @ r"
    by (auto simp: playback_source_path_def Let_def and_then_Inr_iff split: if_splits)
  with k route i safe show thesis by (rule that)
qed

lemma path_safe_chars:
  assumes "playback_source_path src = Inr path"
  shows "CHR ''?'' \<notin> set path" "CHR ''#'' \<notin> set path"
proof -
  from assms obtain k outer inner route i r where
    "source_route k = Some ((outer, inner), route)" "is_safe_path_segment i"
    "(if k = ''external-track'' then external_track_resource src else Inr ''stream'') = Inr r"
    "path = route @ ''/'' @ i @ ''/'' @ r" by (rule path_shape)
  then show "CHR ''?'' \<notin> set path" "CHR ''#'' \<notin> set path"
    by (auto simp: source_route_def is_safe_path_segment_def split: if_splits dest!: resource_names)
qed

lemma suffix_path: "ends_with (base @ ''/'' @ route @ ''/'' @ i @ ''/'' @ r) (CHR ''/'' # r)"
  unfolding ends_with_def suffix_def by (rule exI [of _ "base @ ''/'' @ route @ ''/'' @ i"]) simp

lemma rebound_path:
  assumes "rebind_source base src = Inr src'" and "CHR ''?'' \<notin> set base" and "CHR ''#'' \<notin> set base"
  shows "playback_source_path src' = playback_source_path src"
proof -
  from assms(1) obtain ms path where s: "src = JObject ms" "playback_source_path src = Inr path"
    "src' = JObject (insert_member ''playbackUrl'' (JString (base @ ''/'' @ path)) ms)"
    by (rule rebind_source_shape)
  from s(2) obtain k outer inner route i r where p: "Option.bind (jget ''type'' src) as_str = Some k"
    "source_route k = Some ((outer, inner), route)"
    "source_identifier outer inner src = Some i" "is_safe_path_segment i"
    "(if k = ''external-track'' then external_track_resource src else Inr ''stream'') = Inr r"
    "path = route @ ''/'' @ i @ ''/'' @ r" by (rule path_shape)
  have url: "jget ''playbackUrl'' src' = Some (JString (base @ ''/'' @ path))"
    by (simp add: s(3) map_of_insert_member)
  have id: "url_path (base @ ''/'' @ path) = base @ ''/'' @ path"
    using path_safe_chars [OF s(2)] assms(2,3) by (intro url_path_id) simp_all
  have outer: "outer \<noteq> ''playbackUrl''" using p(2) by (auto simp: source_route_def split: if_splits)
  have same: "jget ''type'' src' = jget ''type'' src" "jget outer src' = jget outer src"
    using jget_rebound [OF assms(1), of "''type''"] jget_rebound [OF assms(1), of outer] outer by simp_all
  have "external_track_resource src' = Inr r" if "k = ''external-track''"
  proof -
    have "external_track_resource src = Inr r" using p(5) that by simp
    then have "r = ''playlist.m3u8'' \<or> r = ''stream''" by (rule resource_names)
    moreover have "ends_with (base @ ''/'' @ path) (CHR ''/'' # r)" unfolding p(6) by (rule suffix_path)
    moreover have "\<not> ends_with (base @ ''/'' @ path) ''/playlist.m3u8''" if "r = ''stream''"
      using that unfolding p(6) ends_with_def by (auto simp: suffix_def append_eq_append_conv2)
    ultimately show ?thesis
      using id by (auto simp: external_track_resource_def url Let_def)
  qed
  moreover have "source_identifier outer inner src' = Some i"
    using p(3) same(2) by (simp add: source_identifier_def)
  ultimately have "playback_source_path src' = Inr path"
    using p same(1) by (auto simp: playback_source_path_def Let_def)
  with s(2) show ?thesis by simp
qed

text \<open>a saved source always finds the current media proxy. Rebinding puts the proxy's address
  in front of a path made of the source's route and its own identifier, one safe segment, and
  leaves every other member alone; a session that is saved and restored through any number of
  proxies, each on a new port, ends up as if it had been bound to the last one only, an External
  Track keeping its choice of stream or playlist.\<close>

theorem rebind_last_wins:
  assumes "rebind_source base src = Inr src'" and "CHR ''?'' \<notin> set base" and "CHR ''#'' \<notin> set base"
  shows "rebind_source base' src' = rebind_source base' src
    \<and> (\<forall>k. k \<noteq> ''playbackUrl'' \<longrightarrow> jget k src' = jget k src)
    \<and> (\<exists>route i r. jget ''playbackUrl'' src' = Some (JString (base @ ''/'' @ route @ ''/'' @ i @ ''/'' @ r))
        \<and> is_safe_path_segment i \<and> r \<in> {''stream'', ''playlist.m3u8''}
        \<and> route \<in> {''api/v1/tracks'', ''api/v1/radio/stations'', ''api/v1/radio/preview'', ''api/v1/external/tracks''})"
proof -
  from assms(1) obtain ms path where s: "src = JObject ms" "playback_source_path src = Inr path"
    "src' = JObject (insert_member ''playbackUrl'' (JString (base @ ''/'' @ path)) ms)"
    by (rule rebind_source_shape)
  have "rebind_source base' src' = rebind_source base' src"
    using rebound_path [OF assms] by (simp add: rebind_source_def s(1,2,3) insert_member_twice)
  moreover have "\<forall>k. k \<noteq> ''playbackUrl'' \<longrightarrow> jget k src' = jget k src"
    using jget_rebound [OF assms(1)] by metis
  moreover have "\<exists>route i r. jget ''playbackUrl'' src' = Some (JString (base @ ''/'' @ route @ ''/'' @ i @ ''/'' @ r))
      \<and> is_safe_path_segment i \<and> r \<in> {''stream'', ''playlist.m3u8''}
      \<and> route \<in> {''api/v1/tracks'', ''api/v1/radio/stations'', ''api/v1/radio/preview'', ''api/v1/external/tracks''}"
  proof -
    from s(2) obtain k outer inner route i r where p:
      "source_route k = Some ((outer, inner), route)" "is_safe_path_segment i"
      "(if k = ''external-track'' then external_track_resource src else Inr ''stream'') = Inr r"
      "path = route @ ''/'' @ i @ ''/'' @ r" by (rule path_shape)
    have "r \<in> {''stream'', ''playlist.m3u8''}" using p(3) by (auto split: if_splits dest: resource_names)
    moreover have "route \<in> {''api/v1/tracks'', ''api/v1/radio/stations'', ''api/v1/radio/preview'', ''api/v1/external/tracks''}"
      using p(1) by (auto simp: source_route_def split: if_splits)
    moreover have "jget ''playbackUrl'' src' = Some (JString (base @ ''/'' @ route @ ''/'' @ i @ ''/'' @ r))"
      unfolding s(3) p(4) by (simp add: map_of_insert_member)
    ultimately show ?thesis using p(2) by (intro exI conjI)
  qed
  ultimately show ?thesis by (intro conjI)
qed

theorem rebind_last_wins_witness:
  "rebind_source ''http://b'' (JObject [(''type'', JString ''radio-station''), (''station'', JObject [(''id'', JString ''7'')]),
      (''playbackUrl'', JString ''http://a/api/v1/radio/stations/7/stream'')])
   = rebind_source ''http://b'' (JObject [(''type'', JString ''radio-station''), (''station'', JObject [(''id'', JString ''7'')])])"
proof -
  have "rebind_source ''http://a'' (JObject [(''type'', JString ''radio-station''), (''station'', JObject [(''id'', JString ''7'')])])
    = Inr (JObject [(''type'', JString ''radio-station''), (''station'', JObject [(''id'', JString ''7'')]),
      (''playbackUrl'', JString ''http://a/api/v1/radio/stations/7/stream'')])"
    by (simp add: rebind_source_def playback_source_path_def source_route_def is_safe_path_segment_def
        source_identifier_def)
  from rebind_last_wins [OF this] show ?thesis by simp
qed

subsection \<open>Saving and crashing\<close>

text \<open>what was saved is what is restored. Quitting stops the player only after the snapshot
  was saved, and the next start then loads exactly that snapshot; when saving fails the player is
  kept and the old file is untouched; and whatever the file holds, a snapshot that is loaded has a
  non-negative finite playhead, a volume between zero and one and a known repeat mode.\<close>

theorem quit_then_restore:
  assumes "snapshot_new src p v sh mode = Inr s" and "\<And>c. encode s = Some c \<Longrightarrow> decode c = Some s"
  shows "(fst (explicit_quit encode out s file l) = Inr StopPlayerAndExit \<longrightarrow>
      store_load decode (snd (snd (explicit_quit encode out s file l))) = Inr (Some s))
    \<and> (\<not> is_ok (fst (explicit_quit encode out s file l)) \<longrightarrow> snd (explicit_quit encode out s file l) = (l, file))
    \<and> (\<forall>decode' file' t. store_load decode' file' = Inr (Some t) \<longrightarrow>
        (\<exists>x y. playhead_seconds t = Fin x \<and> 0 \<le> x \<and> volume t = Fin y \<and> 0 \<le> y \<and> y \<le> 1)
        \<and> repeat_mode t \<in> {''off'', ''once'', ''loop''})"
proof -
  have valid: "(\<exists>x y. a = Fin x \<and> 0 \<le> x \<and> b = Fin y \<and> 0 \<le> y \<and> y \<le> 1) \<and> m \<in> {''off'', ''once'', ''loop''}"
    if "validate_snapshot a b m = Inr ()" for a b m
    using that by (cases a; cases b) (auto simp: validate_snapshot_def ALLOWED_REPEAT_MODES_def split: if_splits)
  from assms(1) have s: "validate_snapshot (playhead_seconds s) (volume s) (repeat_mode s) = Inr ()"
    by (auto simp: snapshot_new_def and_then_Inr_iff)
  show ?thesis
    using assms(2) s valid
    by (auto simp: explicit_quit_def store_save_def store_load_def and_then_Inr_iff
        split: option.splits if_splits file_read.splits)
qed

theorem quit_then_restore_witness:
  "store_load (\<lambda>_. Some \<lparr>snapshot_source = None, playhead_seconds = Fin 3, volume = Fin 1,
      shuffle_enabled = False, repeat_mode = ''off''\<rparr>) (Contents ''x'')
    = Inr (Some \<lparr>snapshot_source = None, playhead_seconds = Fin 3, volume = Fin 1,
      shuffle_enabled = False, repeat_mode = ''off''\<rparr>)"
  using quit_then_restore [of None "Fin 3" "Fin 1" False "''off''" "\<lparr>snapshot_source = None,
      playhead_seconds = Fin 3, volume = Fin 1, shuffle_enabled = False, repeat_mode = ''off''\<rparr>"
      "\<lambda>_. Some ''x''" "\<lambda>_. Some \<lparr>snapshot_source = None, playhead_seconds = Fin 3, volume = Fin 1,
      shuffle_enabled = False, repeat_mode = ''off''\<rparr>" Saves Absent lifecycle_new]
  by (simp add: snapshot_new_def validate_snapshot_def ALLOWED_REPEAT_MODES_def explicit_quit_def store_save_def)

datatype life_event = CloseWindow | Attach | Dies session_snapshot bool | Stabilizes

fun life_step :: "life_event \<Rightarrow> lifecycle \<Rightarrow> lifecycle_action list \<times> lifecycle" where
  "life_step CloseWindow l = (let (a, l') = close_main_window l in ([a], l'))"
| "life_step Attach l = (let (a, l') = renderer_attached l in ([a], l'))"
| "life_step (Dies s resume) l = (let (a, l') = unexpected_player_exit s resume l in ([a], l'))"
| "life_step Stabilizes l = ([], player_stabilized l)"

fun life_run :: "life_event list \<Rightarrow> lifecycle \<Rightarrow> lifecycle_action list" where
  "life_run [] l = []"
| "life_run (e # es) l = (let (acts, l') = life_step e l in acts @ life_run es l')"

fun is_restart :: "lifecycle_action \<Rightarrow> bool" where
  "is_restart (RestartPlayer _ _) = True"
| "is_restart _ = False"

lemma restarts_bound:
  "Stabilizes \<notin> set es \<Longrightarrow>
   length (filter is_restart (life_run es l)) \<le> (if has_recovery_attempted l then 0 else 1)"
proof (induction es arbitrary: l)
  case (Cons e es)
  from Cons.IH [of "snd (life_step e l)"] Cons.prems show ?case
    by (cases e) (auto simp: close_main_window_def renderer_attached_def unexpected_player_exit_def split_beta
        split: if_splits)
qed simp

text \<open>the player cannot crash in a loop. Between two moments at which it is stable the client
  restarts it at most once, whatever windows are opened and closed meanwhile; the second death
  surfaces an error the Owner can act on, and a restart resumes the session that was playing.\<close>

theorem crash_loop_bounded:
  assumes "Stabilizes \<notin> set es"
  shows "length (filter is_restart (life_run es l)) \<le> 1
    \<and> fst (unexpected_player_exit s resume lifecycle_new) = RestartPlayer s resume
    \<and> fst (unexpected_player_exit s resume (player_stabilized l)) = RestartPlayer s resume
    \<and> fst (unexpected_player_exit s' resume' (snd (unexpected_player_exit s resume l))) = SurfaceActionableError"
  using restarts_bound [OF assms, of l]
  by (auto simp: unexpected_player_exit_def lifecycle_new_def player_stabilized_def Let_def split: if_splits)

theorem crash_loop_bounded_witness:
  "let s = \<lparr>snapshot_source = None, playhead_seconds = Fin 3, volume = Fin 1, shuffle_enabled = False,
      repeat_mode = ''off''\<rparr>
   in length (filter is_restart (life_run [Dies s True, CloseWindow, Dies s True] lifecycle_new)) \<le> 1"
  unfolding Let_def by (rule crash_loop_bounded [THEN conjunct1]) simp

end
