(* ===== verification/Queue_Events.thy ===== *)
theory Queue_Events
  imports Rust_Text
begin

text \<open>
  The decoder of the Music Server's Queue events in the Desktop Client
  (\<open>desktop/core/src/queue_events.rs\<close>). HTTP delivers the event stream in chunks
  that may end anywhere; the decoder keeps a bounded buffer. The JSON decoder of
  an event's payload is the parameter \<open>payload\<close>.
\<close>

subsection \<open>Events\<close>

definition MAX_EVENT_BUFFER_BYTES :: nat where "MAX_EVENT_BUFFER_BYTES = 64 * 1024"

definition QUEUE_EVENT_NAME :: string where "QUEUE_EVENT_NAME = ''queue-invalidated''"

record queue_event =
  event_revision :: string
  event_sequence :: string
  invalidates :: "string list"
  last_event_id :: string

text \<open>\<open>str::lines\<close>: split at line feeds, each line without a trailing carriage return, no
  empty last line.\<close>

definition strip_cr :: "string \<Rightarrow> string" where
  "strip_cr l = (if l \<noteq> [] \<and> last l = CHR 0x0D then butlast l else l)"

definition text_lines :: "string \<Rightarrow> string list" where
  "text_lines s =
     (let ls = split_char (CHR 0x0A) s
      in map strip_cr (if last ls = [] then butlast ls else ls))"

record event_fields =
  field_id :: "string option"
  field_event :: "string option"
  field_data :: "string list"

definition read_line :: "event_fields \<Rightarrow> string \<Rightarrow> event_fields" where
  "read_line f l =
     (case strip_prefix ''id: '' l of
        Some v \<Rightarrow> f\<lparr>field_id := Some v\<rparr>
      | None \<Rightarrow>
          (case strip_prefix ''event: '' l of
             Some v \<Rightarrow> f\<lparr>field_event := Some v\<rparr>
           | None \<Rightarrow>
               (case strip_prefix ''data: '' l of
                  Some v \<Rightarrow> f\<lparr>field_data := field_data f @ [v]\<rparr>
                | None \<Rightarrow> f)))"

fun join_lines :: "string list \<Rightarrow> string" where
  "join_lines [] = []"
| "join_lines [l] = l"
| "join_lines (l # ls) = l @ CHR 0x0A # join_lines ls"

definition parse_u64 :: "string \<Rightarrow> nat option" where
  "parse_u64 s =
     (let digs = (case s of c # rest \<Rightarrow> if c = CHR ''+'' then rest else s | [] \<Rightarrow> [])
      in case parse_nat digs of Some n \<Rightarrow> if n < 2 ^ 64 then Some n else None | None \<Rightarrow> None)"

type_synonym payload_decoder = "string \<Rightarrow> (string \<times> string \<times> string list) option"

definition decode_queue_event :: "payload_decoder \<Rightarrow> string \<Rightarrow> string + queue_event option" where
  "decode_queue_event payload frame =
     (if \<not> utf8_valid frame then Inl ''Music Server Queue event was not valid UTF-8.''
      else
        let f = foldl read_line \<lparr>field_id = None, field_event = None, field_data = []\<rparr> (text_lines frame)
        in if field_event f \<noteq> Some QUEUE_EVENT_NAME then Inr None
           else (case payload (join_lines (field_data f)) of
               None \<Rightarrow> Inl ''Music Server Queue event payload was invalid.''
             | Some (revn, sequ, what) \<Rightarrow>
                 if revn = [] \<or> parse_u64 sequ = None \<or> ''queue'' \<notin> set what
                 then Inl ''Music Server Queue event fields were invalid.''
                 else (case field_id f of
                     None \<Rightarrow> Inl ''Music Server Queue event ID was missing.''
                   | Some i \<Rightarrow> Inr (Some \<lparr>event_revision = revn, event_sequence = sequ,
                       invalidates = what, last_event_id = i\<rparr>))))"

subsection \<open>The buffer\<close>

text \<open>Where the first empty line starts: \<open>windows(2).position\<close>.\<close>

fun frame_end :: "string \<Rightarrow> nat option" where
  "frame_end (a # b # s) =
     (if a = CHR 0x0A \<and> b = CHR 0x0A then Some 0 else map_option Suc (frame_end (b # s)))"
| "frame_end _ = None"

lemma frame_end_bound: "frame_end s = Some n \<Longrightarrow> n + 2 \<le> length s"
  by (induction s arbitrary: n rule: frame_end.induct) (auto split: if_splits)

text \<open>The loop over complete frames: the events, the first error, and the rest of the buffer.\<close>

function drain :: "payload_decoder \<Rightarrow> string \<Rightarrow> (string + queue_event list) \<times> string" where
  "drain payload buffer =
     (case frame_end buffer of
        None \<Rightarrow> (Inr [], buffer)
      | Some n \<Rightarrow>
          let rest = drop (n + 2) buffer in
          (case decode_queue_event payload (take n buffer) of
             Inl e \<Rightarrow> (Inl e, rest)
           | Inr ev \<Rightarrow>
               (case drain payload rest of
                  (Inl e, left) \<Rightarrow> (Inl e, left)
                | (Inr evs, left) \<Rightarrow> (Inr (case ev of Some x \<Rightarrow> x # evs | None \<Rightarrow> evs), left))))"
  by pat_completeness auto

termination
  by (relation "measure (\<lambda>(_, b). length b)") (auto dest: frame_end_bound)

declare drain.simps [simp del]

definition push :: "payload_decoder \<Rightarrow> string \<Rightarrow> string \<Rightarrow> (string + queue_event list) \<times> string" where
  "push payload chunk buffer =
     (if MAX_EVENT_BUFFER_BYTES - length buffer < length chunk
      then (Inl ''Music Server Queue event exceeded the safety limit.'', [])
      else drain payload (buffer @ chunk))"

text \<open>The events of one response: each chunk is pushed until one fails.\<close>

fun consume :: "payload_decoder \<Rightarrow> string list \<Rightarrow> string \<Rightarrow> queue_event list \<times> string option" where
  "consume payload [] buffer = ([], None)"
| "consume payload (c # cs) buffer =
     (case push payload c buffer of
        (Inl e, left) \<Rightarrow> ([], Some e)
      | (Inr evs, left) \<Rightarrow> let (later, err) = consume payload cs left in (evs @ later, err))"

subsection \<open>Chunks do not matter\<close>

lemma frame_end_append: "frame_end s = Some n \<Longrightarrow> frame_end (s @ t) = Some n"
  by (induction s arbitrary: n rule: frame_end.induct) (auto split: if_splits)

lemma drain_length: "drain payload b = (r, left) \<Longrightarrow> length left \<le> length b"
proof (induction payload b arbitrary: r left rule: drain.induct)
  case (1 payload b)
  show ?case
  proof (cases "frame_end b")
    case (Some n)
    then show ?thesis
      using 1 by (auto simp: drain.simps [of payload b] Let_def split: sum.splits prod.splits)
         (metis (no_types) diff_le_self le_trans)+
  qed (use 1 in \<open>simp add: drain.simps [of payload b]\<close>)
qed

lemma drain_append:
  assumes "drain payload b = (Inr evs, left)"
  shows "drain payload (b @ c) =
    (case drain payload (left @ c) of (Inl e, r) \<Rightarrow> (Inl e, r) | (Inr evs', r) \<Rightarrow> (Inr (evs @ evs'), r))"
  using assms
proof (induction payload b arbitrary: evs left rule: drain.induct)
  case (1 payload b)
  show ?case
  proof (cases "frame_end b")
    case None
    with 1(2) have "evs = []" "left = b" by (simp_all add: drain.simps [of payload b])
    then show ?thesis by (simp split: prod.split sum.split)
  next
    case (Some n)
    note bound = frame_end_bound [OF Some]
    let ?rest = "drop (n + 2) b"
    from 1(2) Some obtain ev where ev: "decode_queue_event payload (take n b) = Inr ev"
      by (auto simp: drain.simps [of payload b] Let_def split: sum.splits)
    with 1(2) Some obtain evs1 where d: "drain payload ?rest = (Inr evs1, left)"
      and evs: "evs = (case ev of Some x \<Rightarrow> x # evs1 | None \<Rightarrow> evs1)"
      by (auto simp: drain.simps [of payload b] Let_def split: sum.splits prod.splits)
    from 1(1) [OF Some refl ev d] have IH: "drain payload (?rest @ c) =
        (case drain payload (left @ c) of (Inl e, r) \<Rightarrow> (Inl e, r) | (Inr evs', r) \<Rightarrow> (Inr (evs1 @ evs'), r))" .
    have "drain payload (b @ c) = (case drain payload (?rest @ c) of
        (Inl e, left) \<Rightarrow> (Inl e, left)
      | (Inr es, left) \<Rightarrow> (Inr (case ev of Some x \<Rightarrow> x # es | None \<Rightarrow> es), left))"
      using frame_end_append [OF Some, of c] bound ev
      by (simp add: drain.simps [of payload "b @ c"] Let_def)
    then show ?thesis unfolding IH evs by (auto split: prod.split sum.split option.split)
  qed
qed

lemma drain_error_append:
  assumes "drain payload b = (Inl e, left)"
  shows "drain payload (b @ c) = (Inl e, left @ c)"
  using assms
proof (induction payload b arbitrary: left rule: drain.induct)
  case (1 payload b)
  then obtain n where n: "frame_end b = Some n"
    by (cases "frame_end b") (auto simp: drain.simps [of payload b])
  note bound = frame_end_bound [OF n]
  show ?case
  proof (cases "decode_queue_event payload (take n b)")
    case (Inl e')
    with 1(2) n bound frame_end_append [OF n, of c] show ?thesis
      by (simp add: drain.simps [of payload b] drain.simps [of payload "b @ c"] Let_def)
  next
    case (Inr ev)
    with 1(2) n have "drain payload (drop (n + 2) b) = (Inl e, left)"
      by (auto simp: drain.simps [of payload b] Let_def split: sum.splits prod.splits)
    from 1(1) [OF n refl Inr this] Inr bound frame_end_append [OF n, of c] show ?thesis
      by (simp add: drain.simps [of payload "b @ c"] Let_def)
  qed
qed

lemma drain_done: "drain payload b = (Inr evs, left) \<Longrightarrow> frame_end left = None"
proof (induction payload b arbitrary: evs rule: drain.induct)
  case (1 payload b)
  show ?case
  proof (cases "frame_end b")
    case (Some n)
    with 1(2) obtain ev evs1 where "decode_queue_event payload (take n b) = Inr ev"
      "drain payload (drop (n + 2) b) = (Inr evs1, left)"
      by (auto simp: drain.simps [of payload b] Let_def split: sum.splits prod.splits)
    with 1(1) [OF Some refl] show ?thesis by blast
  qed (use 1 in \<open>simp add: drain.simps [of payload b]\<close>)
qed

text \<open>Where the fields of an event come from.\<close>

lemma read_lines_from:
  "(field_event (foldl read_line f ls) = Some v \<longrightarrow> field_event f = Some v \<or> ''event: '' @ v \<in> set ls)
   \<and> (field_id (foldl read_line f ls) = Some w \<longrightarrow> field_id f = Some w \<or> ''id: '' @ w \<in> set ls)"
proof (induction ls arbitrary: f)
  case (Cons l ls)
  have "field_event (read_line f l) = Some v \<longrightarrow> field_event f = Some v \<or> l = ''event: '' @ v"
    "field_id (read_line f l) = Some w \<longrightarrow> field_id f = Some w \<or> l = ''id: '' @ w"
    by (auto simp: read_line_def strip_prefix_Some split: option.splits)
  with Cons [of "read_line f l"] show ?case by auto
qed simp

lemma push_length: "length (snd (push payload c b)) \<le> max (length b) MAX_EVENT_BUFFER_BYTES"
proof (cases "MAX_EVENT_BUFFER_BYTES - length b < length c")
  case False
  obtain r left where d: "drain payload (b @ c) = (r, left)" by fastforce
  from drain_length [OF this] False d show ?thesis by (simp add: push_def)
qed (simp add: push_def)

lemma consume_concat:
  assumes "length b + length (concat cs) \<le> MAX_EVENT_BUFFER_BYTES" and "frame_end b = None"
  shows "snd (consume payload cs b) = (case drain payload (b @ concat cs) of (Inl e, _) \<Rightarrow> Some e | (Inr _, _) \<Rightarrow> None)
    \<and> (snd (consume payload cs b) = None \<longrightarrow> fst (drain payload (b @ concat cs)) = Inr (fst (consume payload cs b)))"
  using assms
proof (induction cs arbitrary: b)
  case Nil
  then show ?case by (simp add: drain.simps [of payload b])
next
  case (Cons c cs)
  have fits: "\<not> MAX_EVENT_BUFFER_BYTES - length b < length c" using Cons.prems by simp
  then have p: "push payload c b = drain payload (b @ c)" by (simp add: push_def)
  show ?case
  proof (cases "drain payload (b @ c)")
    case (Pair res left)
    show ?thesis
    proof (cases res)
      case (Inl e)
      with Pair have "drain payload ((b @ c) @ concat cs) = (Inl e, left @ concat cs)"
        by (intro drain_error_append) simp
      with Pair Inl p show ?thesis by simp
    next
      case (Inr evs)
      with Pair have d: "drain payload (b @ c) = (Inr evs, left)" by simp
      have "length left + length (concat cs) \<le> MAX_EVENT_BUFFER_BYTES"
        using drain_length [OF d] Cons.prems by simp
      moreover have "frame_end left = None" using drain_done [OF d] .
      ultimately have IH: "snd (consume payload cs left) = (case drain payload (left @ concat cs) of (Inl e, _) \<Rightarrow> Some e | (Inr _, _) \<Rightarrow> None)
        \<and> (snd (consume payload cs left) = None \<longrightarrow> fst (drain payload (left @ concat cs)) = Inr (fst (consume payload cs left)))"
        by (rule Cons.IH)
      obtain res2 left2 where d2: "drain payload (left @ concat cs) = (res2, left2)" by fastforce
      from drain_append [OF d, of "concat cs"] IH p d d2 show ?thesis
        by (cases res2) (simp_all add: split_beta)
    qed
  qed
qed

text \<open>how HTTP cuts the stream into chunks does not matter. As long as the bytes fit the
  64 KiB buffer, decoding them chunk by chunk and decoding them at once find the same error or,
  when there is none, the same events in the same order; and whatever is pushed, the buffer never
  holds more than 64 KiB.\<close>

theorem chunks_do_not_matter:
  "(length (concat cs) \<le> MAX_EVENT_BUFFER_BYTES \<longrightarrow>
      snd (consume payload cs []) = snd (consume payload [concat cs] [])
      \<and> (snd (consume payload cs []) = None \<longrightarrow> consume payload cs [] = consume payload [concat cs] []))
   \<and> (length b \<le> MAX_EVENT_BUFFER_BYTES \<longrightarrow> length (snd (push payload c b)) \<le> MAX_EVENT_BUFFER_BYTES)"
proof -
  have "snd (consume payload cs []) = snd (consume payload [concat cs] [])
      \<and> (snd (consume payload cs []) = None \<longrightarrow> consume payload cs [] = consume payload [concat cs] [])"
    if "length (concat cs) \<le> MAX_EVENT_BUFFER_BYTES"
  proof -
    have e: "frame_end [] = None" "concat [concat cs] = concat cs" by simp_all
    note one = consume_concat [of "[]" cs payload, OF _ e(1), simplified append_Nil]
      consume_concat [of "[]" "[concat cs]" payload, OF _ e(1), unfolded e(2), simplified append_Nil]
    have len: "length [] + length (concat cs) \<le> MAX_EVENT_BUFFER_BYTES" using that by simp
    note a = one(1) [OF len] and b = one(2) [OF len]
    have eq: "snd (consume payload cs []) = snd (consume payload [concat cs] [])"
      by (rule trans [OF conjunct1 [OF a] conjunct1 [OF b, symmetric]])
    moreover have "consume payload cs [] = consume payload [concat cs] []" if n: "snd (consume payload cs []) = None"
    proof (rule prod_eqI [OF _ eq])
      have "Inr (fst (consume payload cs [])) = (Inr (fst (consume payload [concat cs] [])) :: string + queue_event list)"
        using conjunct2 [OF a, rule_format, OF n] conjunct2 [OF b, rule_format, OF n [unfolded eq]] by (rule subst)
      then show "fst (consume payload cs []) = fst (consume payload [concat cs] [])" by (rule sum.inject(2) [THEN iffD1])
    qed
    ultimately show ?thesis by blast
  qed
  moreover have "length (snd (push payload c b)) \<le> MAX_EVENT_BUFFER_BYTES" if "length b \<le> MAX_EVENT_BUFFER_BYTES"
    using push_length [of payload c b] that by linarith
  ultimately show ?thesis by blast
qed

theorem chunks_do_not_matter_witness:
  "snd (consume (\<lambda>_. None) [''id: 2'', [CHR 0x0A, CHR 0x0A]] []) = snd (consume (\<lambda>_. None) [''id: 2'' @ [CHR 0x0A, CHR 0x0A]] [])"
  using chunks_do_not_matter [of "[''id: 2'', [CHR 0x0A, CHR 0x0A]]" "\<lambda>_. None" "[]" "[]"]
  by (simp add: MAX_EVENT_BUFFER_BYTES_def del: consume.simps)

text \<open>only a well-formed Queue event is reported. An event that comes out of the decoder
  was named \<open>queue-invalidated\<close>, has a revision, a sequence number that fits 64 bits, invalidates the
  queue and carries the id to resume from, each read off a line of its frame.\<close>

theorem decoded_event_valid:
  assumes "decode_queue_event payload frame = Inr (Some ev)"
  shows "event_revision ev \<noteq> [] \<and> (\<exists>n < 2 ^ 64. parse_u64 (event_sequence ev) = Some n)
    \<and> ''queue'' \<in> set (invalidates ev)
    \<and> (\<exists>l \<in> set (text_lines frame). l = ''event: queue-invalidated'')
    \<and> (\<exists>l \<in> set (text_lines frame). l = ''id: '' @ last_event_id ev)"
proof -
  let ?start = "\<lparr>field_id = None, field_event = None, field_data = []\<rparr>"
  let ?f = "foldl read_line ?start (text_lines frame)"
  from assms have ev: "field_event ?f = Some QUEUE_EVENT_NAME" "field_id ?f = Some (last_event_id ev)"
    "event_revision ev \<noteq> []" "parse_u64 (event_sequence ev) \<noteq> None" "''queue'' \<in> set (invalidates ev)"
    by (auto simp: decode_queue_event_def Let_def split: if_splits option.splits prod.splits)
  from ev(4) have "\<exists>n < 2 ^ 64. parse_u64 (event_sequence ev) = Some n"
    by (auto simp: parse_u64_def Let_def split: option.splits if_splits)
  with ev read_lines_from [where f = ?start and ls = "text_lines frame" and v = QUEUE_EVENT_NAME
      and w = "last_event_id ev"] show ?thesis
    by (simp add: QUEUE_EVENT_NAME_def)
qed

theorem decoded_event_valid_witness:
  "''queue'' \<in> set (invalidates \<lparr>event_revision = ''r'', event_sequence = ''2'', invalidates = [''queue''],
      last_event_id = ''7''\<rparr>)"
proof -
  have "decode_queue_event (\<lambda>_. Some (''r'', ''2'', [''queue'']))
      (''id: 7'' @ CHR 0x0A # ''event: queue-invalidated'' @ CHR 0x0A # ''data: x'')
      = Inr (Some \<lparr>event_revision = ''r'', event_sequence = ''2'', invalidates = [''queue''], last_event_id = ''7''\<rparr>)"
    using utf8_ascii by (simp add: decode_queue_event_def text_lines_def split_char_append split_char_none
        read_line_def strip_prefix_def strip_cr_def QUEUE_EVENT_NAME_def parse_u64_def parse_nat_def
        is_digit_def digits_value_def byte_in_def del: utf8_valid.simps)
  from decoded_event_valid [OF this] show ?thesis by blast
qed

end
