(* ===== verification/Adaptive_Rate.thy ===== *)
theory Adaptive_Rate
  imports Harmony_Prelude
begin

text \<open>
  Adaptive System Rate in the Desktop Client
  (\<open>desktop/core/src/adaptive_system_rate.rs\<close>): forcing the system's sample rate
  to the playing Track's, and giving it back even after a crash.

  The world holds what outlives the process: the rate the system is forced to,
  and the cleanup marker file. Every call to the system takes its outcome as an
  argument: it works, or it fails without effect, or it fails after it took
  effect; removing the marker file either works or leaves it there.
\<close>

subsection \<open>The system\<close>

record rate_world =
  system_rate :: "nat option"
  marker :: bool

datatype outcome = Works | Fails string | FailsLate string

fun effect :: "outcome \<Rightarrow> (rate_world \<Rightarrow> rate_world) \<Rightarrow> rate_world \<Rightarrow> (string + unit) \<times> rate_world" where
  "effect Works f w = (Inr (), f w)"
| "effect (Fails e) f w = (Inl e, w)"
| "effect (FailsLate e) f w = (Inl e, f w)"

definition set_forced_rate_hz :: "outcome \<Rightarrow> nat option \<Rightarrow> rate_world \<Rightarrow> (string + unit) \<times> rate_world" where
  "set_forced_rate_hz out rate w = effect out (\<lambda>x. x\<lparr>system_rate := rate\<rparr>) w"

definition mark_required :: "outcome \<Rightarrow> rate_world \<Rightarrow> (string + unit) \<times> rate_world" where
  "mark_required out w = effect out (\<lambda>x. x\<lparr>marker := True\<rparr>) w"

text \<open>A marker that is not there is cleared already.\<close>

definition clear_marker :: "string option \<Rightarrow> rate_world \<Rightarrow> (string + unit) \<times> rate_world" where
  "clear_marker failure w =
     (case failure of None \<Rightarrow> (Inr (), w\<lparr>marker := False\<rparr>) | Some e \<Rightarrow> (Inl e, w))"

subsection \<open>The controller\<close>

record rate_state =
  is_enabled :: bool
  forced_rate_hz :: "nat option"

definition rate_state_default :: rate_state where
  "rate_state_default = \<lparr>is_enabled = False, forced_rate_hz = None\<rparr>"

type_synonym rate_op = "rate_state \<Rightarrow> rate_world \<Rightarrow> (string + unit) \<times> rate_state \<times> rate_world"

definition enable :: "outcome \<Rightarrow> rate_op" where
  "enable out st w =
     (case mark_required out w of
        (Inl e, w') \<Rightarrow> (Inl e, st, w')
      | (Inr _, w') \<Rightarrow> (Inr (), st\<lparr>is_enabled := True\<rparr>, w'))"

definition apply_source_sample_rate :: "outcome \<Rightarrow> nat option \<Rightarrow> rate_op" where
  "apply_source_sample_rate out rate st w =
     (if \<not> is_enabled st then (Inr (), st, w)
      else let r = (case rate of Some n \<Rightarrow> if 0 < n then Some n else None | None \<Rightarrow> None) in
        (case set_forced_rate_hz out r w of
           (Inl e, w') \<Rightarrow> (Inl e, st, w')
         | (Inr _, w') \<Rightarrow> (Inr (), st\<lparr>forced_rate_hz := r\<rparr>, w')))"

definition reset_force_rate :: "outcome \<Rightarrow> rate_op" where
  "reset_force_rate out st w =
     (case set_forced_rate_hz out None w of
        (Inl e, w') \<Rightarrow> (Inl e, st, w')
      | (Inr _, w') \<Rightarrow> (Inr (), st\<lparr>forced_rate_hz := None\<rparr>, w'))"

definition disable :: "outcome \<Rightarrow> string option \<Rightarrow> rate_op" where
  "disable out failure st w =
     (if \<not> is_enabled st \<and> forced_rate_hz st = None then (Inr (), st, w)
      else (case reset_force_rate out st w of
          (Inl e, st', w') \<Rightarrow> (Inl e, st', w')
        | (Inr _, st', w') \<Rightarrow>
            (case clear_marker failure w' of
               (Inl e, w'') \<Rightarrow> (Inl e, st', w'')
             | (Inr _, w'') \<Rightarrow> (Inr (), rate_state_default, w''))))"

definition reset_for_recovery :: "outcome \<Rightarrow> rate_op" where
  "reset_for_recovery out st w =
     (if \<not> is_enabled st \<and> forced_rate_hz st = None then (Inr (), st, w)
      else reset_force_rate out st w)"

definition drop_controller :: "outcome \<Rightarrow> string option \<Rightarrow> rate_state \<Rightarrow> rate_world \<Rightarrow> rate_world" where
  "drop_controller out failure st w =
     (if is_enabled st \<or> forced_rate_hz st \<noteq> None
      then (case set_forced_rate_hz out None w of
          (Inl _, w') \<Rightarrow> w'
        | (Inr _, w') \<Rightarrow> snd (clear_marker failure w'))
      else w)"

definition recover_startup_if_marked :: "outcome \<Rightarrow> string option \<Rightarrow> rate_world
    \<Rightarrow> (string + rate_state) \<times> rate_world" where
  "recover_startup_if_marked out failure w =
     (if \<not> marker w then (Inr rate_state_default, w)
      else (case set_forced_rate_hz out None w of
          (Inl e, w') \<Rightarrow> (Inl e, w')
        | (Inr _, w') \<Rightarrow>
            (case clear_marker failure w' of
               (Inl e, w'') \<Rightarrow> (Inl e, w'')
             | (Inr _, w'') \<Rightarrow> (Inr rate_state_default, w''))))"

subsection \<open>A crash never leaves the rate forced\<close>

text \<open>One run of the client, from its start to any moment of it.\<close>

inductive run :: "rate_state \<Rightarrow> rate_world \<Rightarrow> bool" where
  begin_run: "run rate_state_default \<lparr>system_rate = None, marker = m\<rparr>"
| run_enable: "run st w \<Longrightarrow> enable out st w = (r, st', w') \<Longrightarrow> run st' w'"
| run_apply: "run st w \<Longrightarrow> apply_source_sample_rate out rate st w = (r, st', w') \<Longrightarrow> run st' w'"
| run_disable: "run st w \<Longrightarrow> disable out failure st w = (r, st', w') \<Longrightarrow> run st' w'"
| run_reset: "run st w \<Longrightarrow> reset_for_recovery out st w = (r, st', w') \<Longrightarrow> run st' w'"
| run_drop: "run st w \<Longrightarrow> run rate_state_default (drop_controller out failure st w)"
| run_restart: "run st w \<Longrightarrow> recover_startup_if_marked out failure w = (Inr st', w') \<Longrightarrow> run st' w'"
| run_failed_start: "run st w \<Longrightarrow> recover_startup_if_marked out failure w = (Inl e, w') \<Longrightarrow> run rate_state_default w'"

definition rate_inv :: "rate_state \<Rightarrow> rate_world \<Rightarrow> bool" where
  "rate_inv st w \<longleftrightarrow> (is_enabled st \<longrightarrow> marker w) \<and> (forced_rate_hz st \<noteq> None \<longrightarrow> is_enabled st)
     \<and> (system_rate w \<noteq> None \<longrightarrow> marker w)"

lemmas rate_ops = enable_def apply_source_sample_rate_def reset_force_rate_def disable_def reset_for_recovery_def
  drop_controller_def recover_startup_if_marked_def set_forced_rate_hz_def mark_required_def clear_marker_def
  rate_state_default_def

lemma run_inv: "run st w \<Longrightarrow> rate_inv st w"
proof (induction rule: run.induct)
  case (run_enable st w out r st' w')
  then show ?case by (cases out) (auto simp: rate_ops rate_inv_def)
next
  case (run_apply st w out rate r st' w')
  then show ?case by (cases out) (auto simp: rate_ops rate_inv_def Let_def split: if_splits)
next
  case (run_disable st w out failure r st' w')
  then show ?case by (cases out; cases failure) (auto simp: rate_ops rate_inv_def split: if_splits)
next
  case (run_reset st w out r st' w')
  then show ?case by (cases out) (auto simp: rate_ops rate_inv_def split: if_splits)
next
  case (run_drop st w out failure)
  then show ?case by (cases out; cases failure) (auto simp: rate_ops rate_inv_def)
next
  case (run_restart st w out failure st' w')
  then show ?case by (cases out; cases failure) (auto simp: rate_ops rate_inv_def split: if_splits)
next
  case (run_failed_start st w out failure e w')
  then show ?case by (cases out; cases failure) (auto simp: rate_ops rate_inv_def split: if_splits)
qed (simp add: rate_inv_def rate_state_default_def)

text \<open>the system's rate is always given back. Whatever the client did, whichever of its
  calls failed, and at whatever moment it died, the cleanup marker is on disk whenever the rate is
  still forced; so the next start that succeeds leaves the rate free and no marker behind when
  there was one, and a clean teardown whose calls work frees it at once.\<close>

theorem rate_given_back:
  assumes "run st w"
  shows "(system_rate w \<noteq> None \<longrightarrow> marker w)
    \<and> (recover_startup_if_marked out failure w = (Inr st', w') \<longrightarrow>
        system_rate w' = None \<and> \<not> marker w' \<and> st' = rate_state_default)
    \<and> (is_enabled st \<longrightarrow> drop_controller Works None st w = \<lparr>system_rate = None, marker = False\<rparr>)"
proof -
  have i: "rate_inv st w" using assms by (rule run_inv)
  then have a: "system_rate w \<noteq> None \<longrightarrow> marker w" by (simp add: rate_inv_def)
  moreover have "system_rate w' = None \<and> \<not> marker w' \<and> st' = rate_state_default"
    if "recover_startup_if_marked out failure w = (Inr st', w')"
    using that a
    by (cases out; cases failure) (auto simp: rate_ops split: if_splits)
  moreover have "drop_controller Works None st w = \<lparr>system_rate = None, marker = False\<rparr>" if "is_enabled st"
    using that by (simp add: rate_ops)
  ultimately show ?thesis by blast
qed

theorem rate_given_back_witness:
  "marker \<lparr>system_rate = Some 96000, marker = True\<rparr>"
proof -
  have "run \<lparr>is_enabled = True, forced_rate_hz = None\<rparr> \<lparr>system_rate = None, marker = True\<rparr>"
    by (rule run_enable [OF begin_run [of False], of Works "Inr ()"]) (simp add: rate_ops)
  then have "run \<lparr>is_enabled = True, forced_rate_hz = None\<rparr> \<lparr>system_rate = Some 96000, marker = True\<rparr>"
    by (rule run_apply [where out = "FailsLate ''timeout''" and rate = "Some 96000" and r = "Inl ''timeout''"])
      (simp add: rate_ops)
  from rate_given_back [OF this] show ?thesis by simp
qed

end
