(* ===== verification/Media_Bytes.thy ===== *)
theory Media_Bytes
  imports Rust_Text "HOL-Library.Word"
begin

text \<open>
  Bytes as the media inspectors read them: a file is a list of 8-bit words read
  from a position on, and the only way a read can fail is the end of the file.
\<close>

type_synonym byte = "8 word"
type_synonym bytes = "byte list"

subsection \<open>Numbers in bytes\<close>

definition be :: "bytes \<Rightarrow> nat" where
  "be bs = foldl (\<lambda>n b. n * 256 + unat b) 0 bs"

definition le :: "bytes \<Rightarrow> nat" where
  "le bs = be (rev bs)"

text \<open>The bytes \<open>from..from + n\<close> of a slice.\<close>

definition sub :: "bytes \<Rightarrow> nat \<Rightarrow> nat \<Rightarrow> bytes" where
  "sub bs from n = take n (drop from bs)"

definition ascii :: "string \<Rightarrow> bytes" where
  "ascii s = map of_char s"

text \<open>Writing a number, for the round trips.\<close>

fun to_be :: "nat \<Rightarrow> nat \<Rightarrow> bytes" where
  "to_be 0 n = []"
| "to_be (Suc k) n = to_be k (n div 256) @ [of_nat (n mod 256)]"

lemma be_foldl: "foldl (\<lambda>n b. n * 256 + unat b) a bs = a * 256 ^ length bs + be bs"
proof (induction bs rule: rev_induct)
  case Nil
  show ?case by (simp add: be_def)
next
  case (snoc b bs)
  have "be (bs @ [b]) = be bs * 256 + unat b" by (simp add: be_def)
  with snoc show ?case by (simp add: add_mult_distrib)
qed

lemma be_append: "be (xs @ ys) = be xs * 256 ^ length ys + be ys"
  using be_foldl [of "be xs" ys] by (simp add: be_def)

lemma be_Nil [simp]: "be [] = 0" and be_single [simp]: "be [b] = unat b"
  by (simp_all add: be_def)

lemma unat_byte: "unat (b :: byte) < 256"
  using unsigned_less [of b] by simp

lemma be_bound: "be bs < 256 ^ length bs"
proof (induction bs rule: rev_induct)
  case (snoc b bs)
  have "be bs * 256 + unat b < (be bs + 1) * 256" using unat_byte [of b] by simp
  also have "\<dots> \<le> 256 ^ length bs * 256" using snoc by (intro mult_right_mono) simp_all
  finally show ?case by (simp add: be_append mult.commute)
qed simp

lemma le_bound: "le bs < 256 ^ length bs"
  using be_bound [of "rev bs"] by (simp add: le_def)

lemma unat_of_nat_byte: "unat (of_nat (n mod 256) :: byte) = n mod 256"
  by (simp add: unat_of_nat)

lemma to_be_length [simp]: "length (to_be k n) = k"
  by (induction k arbitrary: n) simp_all

lemma be_to_be: "n < 256 ^ k \<Longrightarrow> be (to_be k n) = n"
proof (induction k arbitrary: n)
  case (Suc k)
  then have "n div 256 < 256 ^ k" by (simp add: less_mult_imp_div_less mult.commute)
  with Suc.IH show ?case by (simp add: be_append unat_of_nat_byte)
qed simp

lemma sub_length: "from + n \<le> length bs \<Longrightarrow> length (sub bs from n) = n"
  by (simp add: sub_def)

lemma sub_bound: "be (sub bs from n) < 256 ^ n" "le (sub bs from n) < 256 ^ n"
proof -
  have "length (sub bs from n) \<le> n" by (simp add: sub_def)
  then have p: "(256 :: nat) ^ length (sub bs from n) \<le> 256 ^ n" by (intro power_increasing) simp_all
  show "be (sub bs from n) < 256 ^ n" "le (sub bs from n) < 256 ^ n"
    using be_bound [of "sub bs from n"] le_bound [of "sub bs from n"] p by linarith+
qed

subsection \<open>Reading\<close>

text \<open>\<open>read_exact\<close> at a position: the bytes and the position after them, or the end of the file.\<close>

definition read_exact :: "bytes \<Rightarrow> nat \<Rightarrow> nat \<Rightarrow> string + bytes \<times> nat" where
  "read_exact file pos n =
     (if pos + n \<le> length file then Inr (sub file pos n, pos + n) else Inl ''unexpected EOF'')"

lemma read_exact_Inr:
  "read_exact file pos n = Inr (bs, p) \<longleftrightarrow> pos + n \<le> length file \<and> bs = sub file pos n \<and> p = pos + n"
  by (auto simp: read_exact_def)

lemma read_exact_length: "read_exact file pos n = Inr (bs, p) \<Longrightarrow> length bs = n"
  by (simp add: read_exact_Inr sub_length)

end
