(* ===== verification/Inspect_Common.thy ===== *)
theory Inspect_Common
  imports Media_Bytes
begin

text \<open>
  What the media inspectors share: failures
  (\<open>server/src/inspect/errors.rs\<close>), progress, the average bitrate and the choice
  of the inspector (\<open>server/src/inspect/mod.rs\<close>).
\<close>

subsection \<open>Failures\<close>

datatype code =
    FileRead | UnsupportedFormat | InvalidMetadata | MissingArtwork | InvalidArtwork | AudioDecode
  | ValidationCancelled

fun code_text :: "code \<Rightarrow> string" where
  "code_text FileRead = ''file_read_failed''"
| "code_text UnsupportedFormat = ''unsupported_format''"
| "code_text InvalidMetadata = ''invalid_metadata''"
| "code_text MissingArtwork = ''missing_artwork''"
| "code_text InvalidArtwork = ''invalid_artwork''"
| "code_text AudioDecode = ''audio_decode_failed''"
| "code_text ValidationCancelled = ''validation_cancelled''"

text \<open>\<open>split_once(": ")\<close>: the text before the first colon that a space follows.\<close>

fun before_colon_space :: "string \<Rightarrow> string option" where
  "before_colon_space (a # b # s) =
     (if a = CHR '':'' \<and> b = CHR '' '' then Some [] else map_option ((#) a) (before_colon_space (b # s)))"
| "before_colon_space _ = None"

fun public_reason :: "code \<Rightarrow> string \<Rightarrow> string" where
  "public_reason InvalidMetadata m = (case before_colon_space m of Some r \<Rightarrow> r | None \<Rightarrow> m)"
| "public_reason MissingArtwork m = m"
| "public_reason FileRead m = ''file could not be read''"
| "public_reason UnsupportedFormat m = ''file container or audio codec is not supported''"
| "public_reason InvalidArtwork m = ''embedded artwork is invalid''"
| "public_reason AudioDecode m = ''audio stream failed full decode''"
| "public_reason ValidationCancelled m = ''validation failed''"

record inspection_error =
  error_code :: code
  error_field :: string
  error_reason :: string
  error_message :: string

datatype leaf = Inspection inspection_error | Other string

type_synonym failure = "leaf list"

definition error :: "code \<Rightarrow> string \<Rightarrow> string \<Rightarrow> failure" where
  "error c fld m = [Inspection \<lparr>error_code = c, error_field = fld, error_reason = public_reason c m,
     error_message = m\<rparr>]"

definition other :: "string \<Rightarrow> failure" where
  "other m = [Other m]"

definition cancelled :: failure where
  "cancelled = error ValidationCancelled ''validation'' ''context canceled''"

definition failure_join :: "failure option list \<Rightarrow> failure" where
  "failure_join parts = concat (List.map_filter id parts)"

definition into_result :: "failure \<Rightarrow> failure + unit" where
  "into_result f = (if f = [] then Inr () else Inl f)"

definition inspection_errors :: "failure \<Rightarrow> inspection_error list" where
  "inspection_errors f = List.map_filter (\<lambda>l. case l of Inspection e \<Rightarrow> Some e | Other _ \<Rightarrow> None) f"

definition issues :: "failure \<Rightarrow> (code \<times> string \<times> string) list" where
  "issues f = map (\<lambda>e. (error_code e, error_field e, error_reason e)) (inspection_errors f)"

definition failure_first :: "failure \<Rightarrow> inspection_error option" where
  "failure_first f = (case inspection_errors f of [] \<Rightarrow> None | e # _ \<Rightarrow> Some e)"

definition exclude_fields :: "string list \<Rightarrow> failure \<Rightarrow> failure" where
  "exclude_fields fs f = filter (\<lambda>l. case l of Inspection e \<Rightarrow> error_field e \<notin> set fs | Other _ \<Rightarrow> True) f"

definition failure_fields :: "failure \<Rightarrow> string list" where
  "failure_fields f = map error_field (inspection_errors f)"

definition has_code :: "code \<Rightarrow> failure \<Rightarrow> bool" where
  "has_code c f \<longleftrightarrow> list_ex (\<lambda>e. error_code e = c) (inspection_errors f)"

record album_artwork =
  warning :: string
  mime_type :: string
  art_width :: nat
  art_height :: nat
  art_data :: bytes
  art_sha256 :: string

definition artwork_default :: album_artwork where
  "artwork_default = \<lparr>warning = [], mime_type = [], art_width = 0, art_height = 0, art_data = [], art_sha256 = []\<rparr>"

definition INVALID_ARTWORK_WARNING :: string where
  "INVALID_ARTWORK_WARNING = ''Embedded artwork is invalid; choose another cover or continue without artwork''"

definition optional_artwork :: "failure + album_artwork \<Rightarrow> failure + album_artwork" where
  "optional_artwork res =
     (case res of
        Inr a \<Rightarrow> Inr a
      | Inl f \<Rightarrow>
          (case map_option error_code (failure_first f) of
             Some MissingArtwork \<Rightarrow> Inr artwork_default
           | Some InvalidArtwork \<Rightarrow> Inr (artwork_default\<lparr>warning := INVALID_ARTWORK_WARNING\<rparr>)
           | _ \<Rightarrow> Inl f))"

definition audio_error :: "string \<Rightarrow> failure" where
  "audio_error m = error AudioDecode ''audio'' m"

definition file_error :: "string \<Rightarrow> failure" where
  "file_error m = error FileRead ''file'' m"

subsection \<open>Progress and bitrate\<close>

definition percent :: "nat \<Rightarrow> nat \<Rightarrow> nat \<Rightarrow> nat \<Rightarrow> bool \<Rightarrow> nat" where
  "percent decoded_samples total_samples encoded_bytes total_bytes is_complete =
     (let p = (if 0 < total_samples then decoded_samples * 100 div total_samples
               else if 0 < total_bytes then encoded_bytes * 100 div total_bytes
               else 0)
      in if is_complete then 100 else if 100 \<le> p then 99 else p)"

definition average_bitrate_kbps :: "int \<Rightarrow> int \<Rightarrow> int" where
  "average_bitrate_kbps encoded_bytes duration_ms =
     (if encoded_bytes \<le> 0 \<or> duration_ms \<le> 0 then 0
      else (encoded_bytes * 8 + duration_ms div 2) div duration_ms)"

record technical_audio =
  format :: string
  container :: string
  codec :: string
  duration_ms :: int
  sample_rate_hz :: int
  channel_count :: int
  bit_depth :: int
  bitrate_kbps :: int

text \<open>
  The end of every inspection: the failures of the metadata, the artwork and the audio
  are reported together, and the file is accepted when there is none.
\<close>

definition err_of :: "failure + 'a \<Rightarrow> failure option" where
  "err_of r = (case r of Inl f \<Rightarrow> Some f | Inr _ \<Rightarrow> None)"

definition join_parts ::
  "failure + 'm \<Rightarrow> failure + album_artwork \<Rightarrow> failure + technical_audio
    \<Rightarrow> failure + 'm \<times> album_artwork \<times> technical_audio" where
  "join_parts metadata artwork audio =
     and_then (into_result (failure_join [err_of metadata, err_of artwork, err_of audio])) (\<lambda>_.
     and_then metadata (\<lambda>m. and_then artwork (\<lambda>a. and_then audio (\<lambda>t. Inr (m, a, t)))))"

subsection \<open>Choosing the inspector\<close>

datatype media = M4a | Flac | Ogg | Mp3 | Wav

definition detect :: "bytes \<Rightarrow> failure + media" where
  "detect file =
     (let header = take 12 file; got = length header in
      if 8 \<le> got \<and> sub header 4 4 = ascii ''ftyp'' then Inr M4a
      else if got < 12
        then Inl (error UnsupportedFormat ''container''
               (''read media signature: '' @ (if got = 0 then ''EOF'' else ''unexpected EOF'')))
      else if sub header 0 4 = ascii ''fLaC'' then Inr Flac
      else if sub header 0 4 = ascii ''OggS'' then Inr Ogg
      else if sub header 0 3 = ascii ''ID3'' \<or> header ! 0 = 0xff \<and> and (header ! 1) 0xe0 = 0xe0 then Inr Mp3
      else if sub header 0 4 = ascii ''RIFF'' \<and> sub header 8 4 = ascii ''WAVE'' then Inr Wav
      else Inl (error UnsupportedFormat ''container'' ''supported media signature is missing''))"

subsection \<open>Properties of the shared parts\<close>

lemma error_ne [simp]: "error c fld m \<noteq> []"
  by (simp add: error_def)

lemma percent_bounds: "percent d t e b c \<le> 100" "percent d t e b False < 100"
  by (simp_all add: percent_def Let_def)

lemma inspection_errors_append: "inspection_errors (f @ g) = inspection_errors f @ inspection_errors g"
  by (simp add: inspection_errors_def map_filter_def)

lemma failure_join_cons:
  "failure_join (None # ps) = failure_join ps" "failure_join (Some f # ps) = f @ failure_join ps"
  "failure_join [] = []"
  by (simp_all add: failure_join_def map_filter_simps)

lemma bitrate_rounds:
  assumes "0 < encoded" and "0 < ms"
  shows "average_bitrate_kbps encoded ms * ms \<le> encoded * 8 + ms div 2"
    "encoded * 8 + ms div 2 < (average_bitrate_kbps encoded ms + 1) * ms"
proof -
  define x where "x = encoded * 8 + ms div 2"
  have d: "x div ms * ms + x mod ms = x" by simp
  have m: "0 \<le> x mod ms" "x mod ms < ms" using assms(2) by simp_all
  have a: "average_bitrate_kbps encoded ms = x div ms"
    using assms by (simp add: average_bitrate_kbps_def x_def)
  show "average_bitrate_kbps encoded ms * ms \<le> encoded * 8 + ms div 2"
    "encoded * 8 + ms div 2 < (average_bitrate_kbps encoded ms + 1) * ms"
    using d m unfolding a x_def [symmetric] distrib_right by linarith+
qed

lemma join_parts_Inr: "join_parts m a t = Inr (x, y, z) \<longleftrightarrow> m = Inr x \<and> a = Inr y \<and> t = Inr z"
  by (cases m; cases a; cases t) (auto simp: join_parts_def err_of_def failure_join_cons into_result_def)

lemma join_parts_all:
  assumes "m = Inl f \<or> a = Inl f \<or> t = Inl f" and "join_parts m a t = Inl g"
  shows "set f \<subseteq> set g"
  using assms
  by (cases m; cases a; cases t) (auto simp: join_parts_def err_of_def failure_join_cons into_result_def split: if_splits)

end
