(* ===== verification/Artwork.thy ===== *)
theory Artwork
  imports Inspect_Common
begin

text \<open>
  Checks of embedded and uploaded artwork (\<open>server/src/inspect/artwork.rs\<close>). The
  image library is a pair of parameters, \<open>dimensions\<close> and \<open>decodes\<close>, both given
  the detected format and the bytes; the hash is the parameter \<open>sha256\<close>.
\<close>

definition MAX_ARTWORK_SIZE_BYTES :: nat where "MAX_ARTWORK_SIZE_BYTES = 20 * 1024 * 1024"
definition MAX_ARTWORK_PIXELS :: nat where "MAX_ARTWORK_PIXELS = 50000000"
definition JPEG_SIGNATURE :: bytes where "JPEG_SIGNATURE = [0xff, 0xd8, 0xff]"
definition PNG_SIGNATURE :: bytes where
  "PNG_SIGNATURE = [0x89, 0x50, 0x4e, 0x47, 0x0d, 0x0a, 0x1a, 0x0a]"

datatype artwork_format = Jpeg | Png | WebP

fun artwork_mime_type :: "artwork_format \<Rightarrow> string" where
  "artwork_mime_type Jpeg = ''image/jpeg''"
| "artwork_mime_type Png = ''image/png''"
| "artwork_mime_type WebP = ''image/webp''"

definition detect_format :: "bytes \<Rightarrow> artwork_format option" where
  "detect_format data =
     (if starts_with data JPEG_SIGNATURE then Some Jpeg
      else if starts_with data PNG_SIGNATURE then Some Png
      else if 12 \<le> length data \<and> sub data 0 4 = ascii ''RIFF'' \<and> sub data 8 4 = ascii ''WEBP'' then Some WebP
      else None)"

function png_animation_from :: "bytes \<Rightarrow> nat \<Rightarrow> bool" where
  "png_animation_from data offset =
     (if offset + 12 \<le> length data
      then let len = be (sub data offset 4) in
        if length data - offset - 12 < len then False
        else if sub data (offset + 4) 4 = ascii ''acTL'' then True
        else png_animation_from data (offset + 12 + len)
      else False)"
  by pat_completeness auto

termination
  by (relation "measure (\<lambda>(data, offset). length data - offset)") auto

definition has_png_animation_chunk :: "bytes \<Rightarrow> bool" where
  "has_png_animation_chunk data = png_animation_from data (length PNG_SIGNATURE)"

function webp_animation_from :: "bytes \<Rightarrow> nat \<Rightarrow> bool" where
  "webp_animation_from data offset =
     (if offset + 8 \<le> length data
      then let len = le (sub data (offset + 4) 4); data_offset = offset + 8; chunk = sub data offset 4 in
        if length data - data_offset < len then False
        else if chunk = ascii ''ANIM'' \<or> chunk = ascii ''ANMF''
             \<or> (chunk = ascii ''VP8X'' \<and> 0 < len \<and> and (data ! data_offset) 0x02 \<noteq> 0) then True
        else webp_animation_from data (data_offset + len + len mod 2)
      else False)"
  by pat_completeness auto

termination
  by (relation "measure (\<lambda>(data, offset). length data - offset)") auto

declare png_animation_from.simps [simp del] webp_animation_from.simps [simp del]

definition has_webp_animation :: "bytes \<Rightarrow> bool" where
  "has_webp_animation data = webp_animation_from data 12"

fun is_animated :: "artwork_format \<Rightarrow> bytes \<Rightarrow> bool" where
  "is_animated Jpeg data = False"
| "is_animated Png data = has_png_animation_chunk data"
| "is_animated WebP data = has_webp_animation data"

definition invalid_artwork :: "string \<Rightarrow> failure" where
  "invalid_artwork m = error InvalidArtwork ''artwork'' m"

definition validate_artwork :: "(artwork_format \<Rightarrow> bytes \<Rightarrow> string + nat \<times> nat) \<Rightarrow> (artwork_format \<Rightarrow> bytes \<Rightarrow> string + unit)
    \<Rightarrow> (bytes \<Rightarrow> string) \<Rightarrow> string \<Rightarrow> bytes \<Rightarrow> failure + album_artwork" where
  "validate_artwork dimensions decodes sha256 mime data =
     (if data = [] \<or> MAX_ARTWORK_SIZE_BYTES < length data
      then Inl (invalid_artwork ''encoded artwork size is invalid'')
      else (case detect_format data of
          None \<Rightarrow> Inl (invalid_artwork ''declared and detected image formats differ or are unsupported'')
        | Some fmt \<Rightarrow>
            if artwork_mime_type fmt \<noteq> mime
            then Inl (invalid_artwork ''declared and detected image formats differ or are unsupported'')
            else if is_animated fmt data then Inl (invalid_artwork ''animated artwork is not supported'')
            else (case dimensions fmt data of
                Inl cause \<Rightarrow> Inl (invalid_artwork (''decode image config: '' @ cause))
              | Inr (w, h) \<Rightarrow>
                  if w = 0 \<or> h = 0 \<or> MAX_ARTWORK_PIXELS < w * h
                  then Inl (invalid_artwork ''decoded artwork dimensions are invalid'')
                  else (case decodes fmt data of
                      Inl cause \<Rightarrow> Inl (invalid_artwork (''decode image: '' @ cause))
                    | Inr _ \<Rightarrow> Inr \<lparr>warning = [], mime_type = artwork_mime_type fmt, art_width = w,
                        art_height = h, art_data = data, art_sha256 = sha256 data\<rparr>))))"

definition validate_uploaded :: "(artwork_format \<Rightarrow> bytes \<Rightarrow> string + nat \<times> nat) \<Rightarrow> (artwork_format \<Rightarrow> bytes \<Rightarrow> string + unit)
    \<Rightarrow> (bytes \<Rightarrow> string) \<Rightarrow> bytes \<Rightarrow> failure + album_artwork" where
  "validate_uploaded dimensions decodes sha256 data =
     (case detect_format data of
        Some fmt \<Rightarrow>
          if fmt = Jpeg \<or> fmt = Png then validate_artwork dimensions decodes sha256 (artwork_mime_type fmt) data
          else Inl (invalid_artwork ''uploaded artwork must be JPEG or PNG'')
      | None \<Rightarrow> Inl (invalid_artwork ''uploaded artwork must be JPEG or PNG''))"

text \<open>An accepted image, and a rejected one: every failure is an artwork failure.\<close>

lemma validate_artwork_ok:
  assumes "validate_artwork dimensions decodes sha256 mime data = Inr art"
  shows "art_data art = data \<and> mime_type art = mime \<and> 0 < art_width art \<and> 0 < art_height art
    \<and> art_width art * art_height art \<le> MAX_ARTWORK_PIXELS \<and> length data \<le> MAX_ARTWORK_SIZE_BYTES
    \<and> (\<exists>fmt. detect_format data = Some fmt \<and> \<not> is_animated fmt data \<and> decodes fmt data = Inr ())"
  using assms by (auto simp: validate_artwork_def split: if_splits option.splits sum.splits prod.splits)

lemma validate_artwork_optional:
  "optional_artwork (validate_artwork dimensions decodes sha256 mime data)
     \<in> {validate_artwork dimensions decodes sha256 mime data, Inr (artwork_default\<lparr>warning := INVALID_ARTWORK_WARNING\<rparr>)}"
proof (cases "validate_artwork dimensions decodes sha256 mime data")
  case (Inl f)
  then obtain m where "f = invalid_artwork m"
    by (auto simp: validate_artwork_def split: if_splits option.splits sum.splits prod.splits)
  then show ?thesis
    unfolding Inl by (simp add: optional_artwork_def failure_first_def inspection_errors_def invalid_artwork_def
        error_def map_filter_simps)
qed (simp add: optional_artwork_def)

end
