(* ===== verification/Flac_Inspector.thy ===== *)
theory Flac_Inspector
  imports Artwork
begin

text \<open>
  The FLAC inspector (\<open>server/src/inspect/flac.rs\<close>): the metadata blocks, parsed
  strictly, and the technical properties. Decoding the frames is the codec
  library's work; \<open>build_audio\<close> takes what it found. The text of a comment is
  read by \<open>tag_string\<close> (\<open>server/src/inspect/metadata.rs\<close>). How \<open>{:?}\<close> escapes a
  text in one message, which rests on the tables of Unicode, is the parameter \<open>debug\<close>.
\<close>

subsection \<open>Data\<close>

definition STREAM_INFO_SIZE_BYTES :: nat where "STREAM_INFO_SIZE_BYTES = 34"
definition PICTURE_TYPE_FRONT_COVER :: nat where "PICTURE_TYPE_FRONT_COVER = 3"

record picture =
  picture_type :: nat
  picture_mime :: string
  picture_data :: bytes

record stream_info =
  info_sample_rate :: nat
  info_channels :: nat
  info_bits :: nat
  info_total_samples :: nat

datatype block_body = Comments "(string \<times> string) list" | PictureBlock picture | OtherBlock

record block =
  block_length :: nat
  block_body :: block_body

record stream =
  stream_header :: stream_info
  blocks :: "block list"

text \<open>Text as bytes; a value that is not UTF-8 is marked with the noncharacter U+FFFE.\<close>

definition chars :: "bytes \<Rightarrow> string" where
  "chars bs = map (\<lambda>b. char_of (unat b)) bs"

definition INVALID_UTF8_MARKER :: string where
  "INVALID_UTF8_MARKER = [CHR 0xEF, CHR 0xBF, CHR 0xBE]"

definition tag_string :: "bytes \<Rightarrow> string" where
  "tag_string bs =
     (if utf8_valid (chars bs) then chars bs else INVALID_UTF8_MARKER @ from_utf8_lossy (chars bs))"

subsection \<open>Fields\<close>

text \<open>\<open>take\<close>: a field of \<open>n\<close> bytes at an offset, and the offset after it.\<close>

definition take_field :: "bytes \<Rightarrow> nat \<Rightarrow> nat \<Rightarrow> string + bytes \<times> nat" where
  "take_field data offset n =
     (if length data - offset < n then Inl ''unexpected EOF'' else Inr (sub data offset n, offset + n))"

fun parse_comment_list :: "(string \<Rightarrow> string) \<Rightarrow> bytes \<Rightarrow> nat \<Rightarrow> nat \<Rightarrow> string + (string \<times> string) list" where
  "parse_comment_list debug body 0 offset = Inr []"
| "parse_comment_list debug body (Suc n) offset =
     and_then (take_field body offset 4) (\<lambda>(len, o1).
     and_then (take_field body o1 (le len)) (\<lambda>(vector, o2).
       case split_once (of_char (CHR ''='')) vector of
         None \<Rightarrow> Inl (''meta.Block.parseVorbisComment: unable to locate '' @ [CHR 0x27, CHR ''='', CHR 0x27]
               @ '' in vector '' @ debug (from_utf8_lossy (chars vector)))
       | Some (k, v) \<Rightarrow>
           and_then (parse_comment_list debug body n o2)
             (\<lambda>rest. Inr ((tag_string k, tag_string v) # rest))))"

definition parse_comments :: "(string \<Rightarrow> string) \<Rightarrow> bytes \<Rightarrow> string + (string \<times> string) list" where
  "parse_comments debug body =
     and_then (take_field body 0 4) (\<lambda>(vendor_length, o1).
     and_then (take_field body o1 (le vendor_length)) (\<lambda>(_, o2).
     and_then (take_field body o2 4) (\<lambda>(n, o3).
       parse_comment_list debug body (le n) o3)))"

definition parse_picture :: "bytes \<Rightarrow> string + picture" where
  "parse_picture body =
     and_then (take_field body 0 4) (\<lambda>(ptype, o1).
     and_then (take_field body o1 4) (\<lambda>(mime_length, o2).
     and_then (take_field body o2 (be mime_length)) (\<lambda>(mime, o3).
     and_then (take_field body o3 4) (\<lambda>(description_length, o4).
     and_then (take_field body o4 (be description_length)) (\<lambda>(_, o5).
     and_then (take_field body o5 16) (\<lambda>(_, o6).
     and_then (take_field body o6 4) (\<lambda>(data_length, o7).
     and_then (take_field body o7 (be data_length)) (\<lambda>(data, _).
       Inr \<lparr>picture_type = be ptype, picture_mime = tag_string mime, picture_data = data\<rparr>))))))))"

definition parse_stream_info :: "bytes \<Rightarrow> string + stream_info" where
  "parse_stream_info body =
     (if length body < STREAM_INFO_SIZE_BYTES then Inl ''unexpected EOF''
      else let min_block = be (sub body 0 2); max_block = be (sub body 2 2); packed = be (sub body 10 8);
               rate = packed div 2 ^ 44
        in if min_block < 16
           then Inl (''meta.Block.parseStreamInfo: invalid minimum block size ('' @ digits min_block @ ''); expected >= 16'')
           else if max_block < 16
           then Inl (''meta.Block.parseStreamInfo: invalid maximum block size ('' @ digits max_block @ ''); expected >= 16'')
           else if rate = 0 then Inl ''meta.Block.parseStreamInfo: invalid sample rate (0)''
           else Inr \<lparr>info_sample_rate = rate, info_channels = packed div 2 ^ 41 mod 8 + 1,
                 info_bits = packed div 2 ^ 36 mod 32 + 1, info_total_samples = packed mod 2 ^ 36\<rparr>)"

definition seek_point :: "bytes \<Rightarrow> nat \<Rightarrow> nat" where
  "seek_point body i = be (sub body (i * 18) 8)"

fun check_seek_points :: "bytes \<Rightarrow> nat list \<Rightarrow> string + unit" where
  "check_seek_points body [] = Inr ()"
| "check_seek_points body (i # is) =
     (let sample = seek_point body i in
      if sample \<noteq> 2 ^ 64 - 1 \<and> sample = 0
      then Inl (''meta.Block.parseSeekTable: duplicate seek point with sample number ('' @ digits sample @ '')'')
      else check_seek_points body is)"

definition verify_seek_table :: "bytes \<Rightarrow> string + unit" where
  "verify_seek_table body =
     (let points = length body div 18 in
      if points < 1 then Inl ''meta.Block.parseSeekTable: at least one seek point is required''
      else check_seek_points body [1..<points])"

subsection \<open>Blocks\<close>

definition read_block :: "bytes \<Rightarrow> nat \<Rightarrow> string + (bool \<times> nat \<times> bytes) \<times> nat" where
  "read_block file pos =
     and_then (read_exact file pos 4) (\<lambda>(header, p).
     and_then (read_exact file p (be (sub header 1 3))) (\<lambda>(body, p').
       Inr ((and (header ! 0) 0x80 \<noteq> 0, unat (and (header ! 0) 0x7f), body), p')))"

definition parse_body :: "(string \<Rightarrow> string) \<Rightarrow> nat \<Rightarrow> bytes \<Rightarrow> string + block_body" where
  "parse_body debug block_type body =
     (if block_type = 0 then Inl ''meta.Block.Parse: duplicate StreamInfo block''
      else if block_type = 1 then
        (if list_ex (\<lambda>b. b \<noteq> 0) body then Inl ''invalid padding'' else Inr OtherBlock)
      else if block_type = 3 then and_then (verify_seek_table body) (\<lambda>_. Inr OtherBlock)
      else if block_type = 4 then and_then (parse_comments debug body) (\<lambda>c. Inr (Comments c))
      else if block_type = 6 then and_then (parse_picture body) (\<lambda>p. Inr (PictureBlock p))
      else if block_type = 127 then Inl ''meta.Block.Parse: invalid block type''
      else Inr OtherBlock)"

lemma read_block_Inr:
  assumes "read_block file pos = Inr ((l, t, body), p)"
  shows "p = pos + 4 + length body" "p \<le> length file"
  using assms by (auto simp: read_block_def and_then_Inr_iff read_exact_Inr sub_length)

function parse_blocks :: "(string \<Rightarrow> string) \<Rightarrow> bytes \<Rightarrow> nat \<Rightarrow> bool \<Rightarrow> string + block list \<times> nat" where
  "parse_blocks debug file pos is_last =
     (if is_last then Inr ([], pos)
      else (case read_block file pos of
          Inl e \<Rightarrow> Inl e
        | Inr ((l, t, body), p) \<Rightarrow>
            and_then (parse_body debug t body) (\<lambda>b.
            and_then (parse_blocks debug file p l) (\<lambda>(bs, q).
              Inr (\<lparr>block_length = length body, block_body = b\<rparr> # bs, q)))))"
  by pat_completeness auto

termination
proof (relation "measure (\<lambda>(_, file, pos, _). length file - pos)")
  fix debug :: "string \<Rightarrow> string" and f pos is_last r l t body and p :: nat and x y
  assume "read_block f pos = Inr r" and "(x, p) = r" and "(l, y) = x" and "(t, body) = y"
  then have "read_block f pos = Inr ((l, t, body), p)" by simp
  from read_block_Inr [OF this]
  show "((debug, f, p, l), (debug, f, pos, is_last)) \<in> measure (\<lambda>(_, file, pos, _). length file - pos)"
    by simp
qed simp

declare parse_blocks.simps [simp del]

definition parse :: "(string \<Rightarrow> string) \<Rightarrow> bytes \<Rightarrow> string + stream \<times> nat" where
  "parse debug file =
     and_then (read_exact file 0 4) (\<lambda>(signature, p).
       if signature \<noteq> ascii ''fLaC'' then Inl ''FLAC signature is missing''
       else and_then (read_block file p) (\<lambda>((l, t, body), p1).
         if t \<noteq> 0 then Inl ''flac.parseStreamInfo: incorrect type of first metadata block; expected *meta.StreamInfo''
         else and_then (parse_stream_info body) (\<lambda>info.
           and_then (parse_blocks debug file p1 l) (\<lambda>(bs, q).
             Inr (\<lparr>stream_header = info, blocks = bs\<rparr>, q)))))"

subsection \<open>Cover and technical properties\<close>

fun find_cover :: "block list \<Rightarrow> picture option \<Rightarrow> failure + picture option" where
  "find_cover [] cover = Inr cover"
| "find_cover (b # bs) cover =
     (case block_body b of
        PictureBlock p \<Rightarrow>
          if picture_type p = PICTURE_TYPE_FRONT_COVER
          then (if cover \<noteq> None then Inl (error InvalidArtwork ''artwork'' ''multiple front covers are ambiguous'')
                else find_cover bs (Some p))
          else find_cover bs cover
      | _ \<Rightarrow> find_cover bs cover)"

definition front_cover :: "(string \<Rightarrow> bytes \<Rightarrow> failure + album_artwork) \<Rightarrow> block list \<Rightarrow> failure + album_artwork" where
  "front_cover validate bs =
     and_then (find_cover bs None) (\<lambda>cover. case cover of
         Some p \<Rightarrow> validate (picture_mime p) (picture_data p)
       | None \<Rightarrow> Inl (error MissingArtwork ''artwork'' ''embedded front cover is required''))"

definition metadata_bytes :: "block list \<Rightarrow> nat" where
  "metadata_bytes bs = 4 + 4 + STREAM_INFO_SIZE_BYTES + sum_list (map (\<lambda>b. 4 + block_length b) bs)"

definition build_audio :: "stream \<Rightarrow> bool option \<Rightarrow> nat \<Rightarrow> int \<Rightarrow> failure + technical_audio" where
  "build_audio st md5_matches decoded_samples size_bytes =
     (let info = stream_header st;
          ms = int (decoded_samples * 1000 div info_sample_rate info);
          audio_bytes = size_bytes - int (metadata_bytes (blocks st));
          kbps = average_bitrate_kbps audio_bytes ms
      in if decoded_samples = 0 then Inl (audio_error ''decoded stream has invalid technical properties'')
         else if info_total_samples info \<noteq> 0 \<and> decoded_samples \<noteq> info_total_samples info
         then Inl (audio_error ''decoded sample count does not match STREAMINFO'')
         else if md5_matches = Some False then Inl (audio_error ''decoded audio MD5 does not match STREAMINFO'')
         else if ms \<le> 0 then Inl (audio_error ''decoded duration is not positive'')
         else if audio_bytes \<le> 0 then Inl (audio_error ''encoded audio size is not positive'')
         else if kbps \<le> 0 then Inl (audio_error ''average encoded bitrate is not positive'')
         else Inr \<lparr>format = ''flac'', container = ''flac'', codec = ''flac'', duration_ms = ms,
               sample_rate_hz = int (info_sample_rate info), channel_count = int (info_channels info),
               bit_depth = int (info_bits info), bitrate_kbps = kbps\<rparr>)"

subsection \<open>What a writer puts down\<close>


lemma low_bits: "unat (and (b :: byte) 0x7f) = unat b mod 128"
proof -
  have "and b 0x7f = take_bit 7 b" by (simp add: take_bit_eq_mask mask_eq_exp_minus_1)
  then have "and b 0x7f = b mod 128" by (simp add: take_bit_eq_mod)
  then show ?thesis by (simp add: unat_mod)
qed

lemma top_bit: "and (b :: byte) 0x80 \<noteq> 0 \<longleftrightarrow> 128 \<le> unat b"
proof -
  have "and b 0x80 \<noteq> 0 \<longleftrightarrow> bit b 7"
    using and_exp_eq_0_iff_not_bit [of b 7] by simp
  also have "\<dots> \<longleftrightarrow> bit (unat b) 7"
    by (simp add: bit_unsigned_iff)
  also have "\<dots> \<longleftrightarrow> odd (unat b div 128)"
    by (simp add: bit_iff_odd)
  also have "\<dots> \<longleftrightarrow> 128 \<le> unat b"
  proof
    assume "128 \<le> unat b"
    then have "unat b div 128 = 1" using unat_byte [of b] by (intro div_nat_eqI) simp_all
    then show "odd (unat b div 128)" by simp
  qed (auto elim!: oddE)
  finally show ?thesis .
qed

definition framed :: "bool \<Rightarrow> nat \<times> bytes \<Rightarrow> bytes" where
  "framed is_last b = of_nat (fst b + (if is_last then 128 else 0)) # to_be 3 (length (snd b)) @ snd b"

fun framed_all :: "(nat \<times> bytes) list \<Rightarrow> bytes" where
  "framed_all [] = []"
| "framed_all (b # bs) = framed (bs = []) b @ framed_all bs"

definition fits :: "nat \<times> bytes \<Rightarrow> bool" where
  "fits b \<longleftrightarrow> fst b < 128 \<and> length (snd b) < 2 ^ 24"

lemma sub_app:
  "sub (pre @ xs) (length pre + i) n = sub xs i n"
  "n \<le> length xs \<Longrightarrow> sub (xs @ ys) 0 n = take n xs"
  by (simp_all add: sub_def)

lemma framed_length [simp]: "length (framed l b) = 4 + length (snd b)"
  by (simp add: framed_def)

lemma read_block_framed:
  assumes f: "fits b"
  shows "read_block (pre @ framed l b @ suf) (length pre)
     = Inr ((l, fst b, snd b), length pre + 4 + length (snd b))"
proof -
  let ?h = "of_nat (fst b + (if l then 128 else 0)) # to_be 3 (length (snd b))"
  have h: "unat (of_nat (fst b + (if l then 128 else 0)) :: byte) = fst b + (if l then 128 else 0)"
    using f by (cases l) (simp_all add: fits_def unat_of_nat del: of_nat_add)
  have r: "read_exact (pre @ framed l b @ suf) (length pre) 4 = Inr (?h, length pre + 4)"
    using sub_app(1) [of pre "framed l b @ suf" 0 4]
    by (simp add: read_exact_def framed_def sub_def)
  have n: "be (sub ?h 1 3) = length (snd b)"
    using f by (simp add: sub_def be_to_be fits_def)
  have b: "read_exact (pre @ framed l b @ suf) (length pre + 4) (length (snd b))
      = Inr (snd b, length pre + 4 + length (snd b))"
    using sub_app(1) [of pre "framed l b @ suf" 4 "length (snd b)"]
    by (simp add: read_exact_def framed_def sub_def)
  show ?thesis
    using f by (simp only: read_block_def r n b and_then_simps sum.case prod.case top_bit low_bits nth_Cons_0 h)
      (simp add: fits_def)
qed

lemma parse_blocks_framed:
  assumes "list_all fits raws"
    and "list_all2 (\<lambda>(t, body) b. parse_body debug t body = Inr (block_body b) \<and> block_length b = length body) raws bs"
  shows "parse_blocks debug (pre @ framed_all raws @ suf) (length pre) (raws = [])
     = Inr (bs, length pre + length (framed_all raws))"
  using assms
proof (induction raws arbitrary: pre bs)
  case Nil
  then show ?case by (simp add: parse_blocks.simps)
next
  case (Cons b raws)
  obtain t body where b: "b = (t, body)" by (cases b)
  from Cons.prems(2) b obtain d ds where bs: "bs = d # ds" and p: "parse_body debug t body = Inr (block_body d)"
    and n: "block_length d = length body" 
    by (auto simp: list_all2_Cons1)
  have IH: "parse_blocks debug ((pre @ framed (raws = []) b) @ framed_all raws @ suf)
      (length (pre @ framed (raws = []) b)) (raws = [])
     = Inr (ds, length (pre @ framed (raws = []) b) + length (framed_all raws))"
    using Cons.prems by (intro Cons.IH) (simp_all add: bs)
  have r: "read_block (pre @ framed (raws = []) b @ framed_all raws @ suf) (length pre)
      = Inr ((raws = [], t, body), length pre + 4 + length body)"
    using read_block_framed [of b pre "raws = []" "framed_all raws @ suf"] Cons.prems(1) by (simp add: b)
  show ?case
    using IH [unfolded b] n
    by (subst parse_blocks.simps) (simp add: r [unfolded b] p bs b ac_simps)
qed

text \<open>The fields of a STREAMINFO block, and what its parser says of them.\<close>

definition info_valid :: "stream_info \<Rightarrow> bool" where
  "info_valid i \<longleftrightarrow> 0 < info_sample_rate i \<and> info_sample_rate i < 2 ^ 20 \<and> 1 \<le> info_channels i \<and> info_channels i \<le> 8
     \<and> 1 \<le> info_bits i \<and> info_bits i \<le> 32 \<and> info_total_samples i < 2 ^ 36"

definition info_packed :: "stream_info \<Rightarrow> nat" where
  "info_packed i = ((info_sample_rate i * 8 + (info_channels i - 1)) * 32 + (info_bits i - 1)) * 2 ^ 36
     + info_total_samples i"

definition info_block :: "nat \<Rightarrow> nat \<Rightarrow> bytes \<Rightarrow> stream_info \<Rightarrow> bytes \<Rightarrow> bytes" where
  "info_block min_block max_block frame_sizes i md5 =
     to_be 2 min_block @ to_be 2 max_block @ frame_sizes @ to_be 8 (info_packed i) @ md5"

lemma parse_stream_info_valid: "parse_stream_info body = Inr i \<Longrightarrow> info_valid i \<and> STREAM_INFO_SIZE_BYTES \<le> length body"
  using sub_bound(1) [of body 10 8]
  by (auto simp: parse_stream_info_def info_valid_def Let_def less_mult_imp_div_less split: if_splits)

lemma packed_fields:
  assumes "info_valid i"
  shows "info_packed i div 2 ^ 44 = info_sample_rate i"
    "info_packed i div 2 ^ 41 mod 8 + 1 = info_channels i"
    "info_packed i div 2 ^ 36 mod 32 + 1 = info_bits i"
    "info_packed i mod 2 ^ 36 = info_total_samples i" "info_packed i < 256 ^ 8"
proof -
  define c where "c = info_channels i - 1"
  define b where "b = info_bits i - 1"
  have r: "info_sample_rate i < 2 ^ 20" "c < 8" "b < 32" "info_total_samples i < 2 ^ 36"
    "c + 1 = info_channels i" "b + 1 = info_bits i"
    using assms by (auto simp: info_valid_def c_def b_def)
  define x where "x = info_sample_rate i * 8 + c"
  define a where "a = x * 32 + b"
  have p: "info_packed i = a * 2 ^ 36 + info_total_samples i"
    by (simp add: info_packed_def a_def x_def c_def b_def)
  have d: "info_packed i div 2 ^ 36 = a" using r(4) by (simp add: p)
  have a: "a mod 32 = b" "a div 32 = x" using r(3) by (simp_all add: a_def)
  have e: "info_packed i div 2 ^ 41 = info_sample_rate i * 8 + c"
    using div_mult2_eq [of "info_packed i" "2 ^ 36" 32] a(2) d by (simp add: x_def)
  have f: "info_packed i div 2 ^ 44 = info_sample_rate i"
    using div_mult2_eq [of "info_packed i" "2 ^ 41" 8] e r(2) by simp
  show "info_packed i div 2 ^ 44 = info_sample_rate i"
    "info_packed i div 2 ^ 41 mod 8 + 1 = info_channels i"
    "info_packed i div 2 ^ 36 mod 32 + 1 = info_bits i"
    "info_packed i mod 2 ^ 36 = info_total_samples i"
    using f e r d a(1) by (simp_all add: p)
  show "info_packed i < 256 ^ 8"
    using f r(1) div_less_iff_less_mult [of "2 ^ 44" "info_packed i" "2 ^ 20"] by simp
qed

lemma parse_stream_info_block:
  assumes "info_valid i" and "16 \<le> mn" "mn < 2 ^ 16" and "16 \<le> mx" "mx < 2 ^ 16"
    and "length sizes = 6" and "16 \<le> length md5"
  shows "parse_stream_info (info_block mn mx sizes i md5) = Inr i"
proof -
  let ?b = "info_block mn mx sizes i md5"
  have f: "be (sub ?b 0 2) = mn" "be (sub ?b 2 2) = mx" "be (sub ?b 10 8) = info_packed i"
    using assms packed_fields(5) [OF assms(1)] by (simp_all add: sub_def info_block_def be_to_be)
  have z: "info_sample_rate i \<noteq> 0" using assms(1) by (simp add: info_valid_def)
  have n: "\<not> length ?b < STREAM_INFO_SIZE_BYTES"
    using assms by (simp add: info_block_def STREAM_INFO_SIZE_BYTES_def)
  show ?thesis
    unfolding parse_stream_info_def Let_def f packed_fields [OF assms(1)]
    using assms(2,4) z n by simp
qed

lemma parse_blocks_span:
  "parse_blocks debug f pos l = Inr (bs, q) \<Longrightarrow> pos \<le> length f \<Longrightarrow>
     q = pos + sum_list (map (\<lambda>b. 4 + block_length b) bs) \<and> q \<le> length f"
proof (induction debug f pos l arbitrary: bs q rule: parse_blocks.induct)
  case (1 debug f pos l)
  show ?case
  proof (cases "read_block f pos")
    case (Inl e)
    with 1(2,3) show ?thesis by (subst (asm) parse_blocks.simps) (simp split: if_splits)
  next
    case (Inr r)
    obtain k t body p where r: "r = ((k, t, body), p)" by (metis surj_pair)
    note s = read_block_Inr [OF Inr [unfolded r]]
    show ?thesis
    proof (cases l)
      case False
      with 1(2) Inr r obtain b bs' where b: "parse_body debug t body = Inr b"
        and k: "parse_blocks debug f p k = Inr (bs', q)"
        and bs: "bs = \<lparr>block_length = length body, block_body = b\<rparr> # bs'"
        by (subst (asm) parse_blocks.simps) (auto simp: and_then_Inr_iff)
      have "q = p + sum_list (map (\<lambda>b. 4 + block_length b) bs') \<and> q \<le> length f"
        using s by (intro "1.IH" [OF False Inr _ _ _ k]) (simp_all add: r)
      with s bs show ?thesis by simp
    qed (use 1(2,3) in \<open>simp add: parse_blocks.simps\<close>)
  qed
qed

text \<open>Comments and pictures as a writer lays them out.\<close>

definition to_le :: "nat \<Rightarrow> nat \<Rightarrow> bytes" where
  "to_le k n = rev (to_be k n)"

definition comment_bytes :: "string \<times> string \<Rightarrow> bytes" where
  "comment_bytes c = (let v = ascii (fst c) @ [of_char (CHR ''='')] @ ascii (snd c) in to_le 4 (length v) @ v)"

definition comments_body :: "bytes \<Rightarrow> (string \<times> string) list \<Rightarrow> bytes" where
  "comments_body vendor cs = to_le 4 (length vendor) @ vendor @ to_le 4 (length cs) @ concat (map comment_bytes cs)"

definition comment_ok :: "string \<times> string \<Rightarrow> bool" where
  "comment_ok c \<longleftrightarrow> utf8_valid (fst c) \<and> utf8_valid (snd c) \<and> CHR ''='' \<notin> set (fst c)
     \<and> length (fst c) + 1 + length (snd c) < 2 ^ 32"

definition picture_body :: "bytes \<Rightarrow> bytes \<Rightarrow> picture \<Rightarrow> bytes" where
  "picture_body description geometry p =
     to_be 4 (picture_type p) @ to_be 4 (length (picture_mime p)) @ ascii (picture_mime p)
     @ to_be 4 (length description) @ description @ geometry
     @ to_be 4 (length (picture_data p)) @ picture_data p"

lemma le_to_le: "n < 256 ^ k \<Longrightarrow> le (to_le k n) = n"
  by (simp add: le_def to_le_def be_to_be)

lemma to_le_length [simp]: "length (to_le k n) = k"
  by (simp add: to_le_def)

lemma unat_of_char_byte: "unat (of_char c :: byte) = of_char c"
proof -
  have "unat (of_char c :: byte) = (of_char c :: nat) mod 256"
    using unat_of_nat [of "of_char c :: nat", where ?'a = 8] by (simp only: of_nat_of_char) simp
  then show ?thesis by (simp add: of_char_mod_256)
qed

lemma char_of_byte: "char_of (unat (of_char c :: byte)) = c"
  by (simp add: unat_of_char_byte)

lemma chars_ascii: "chars (ascii s) = s"
  by (induction s) (simp_all add: chars_def ascii_def char_of_byte)

lemma of_char_byte_eq: "(of_char c :: byte) = of_char d \<longleftrightarrow> c = d"
  by (metis char_of_byte)

lemma take_field_append:
  "take_field (pre @ xs @ suf) (length pre) (length xs) = Inr (xs, length pre + length xs)"
  by (simp add: take_field_def sub_def)

lemma tag_string_ascii: "utf8_valid s \<Longrightarrow> tag_string (ascii s) = s"
  by (simp add: tag_string_def chars_ascii)

lemma parse_comment_list_bytes:
  assumes "list_all comment_ok cs"
  shows "parse_comment_list debug (pre @ concat (map comment_bytes cs)) (length cs) (length pre) = Inr cs"
  using assms
proof (induction cs arbitrary: pre)
  case (Cons c cs)
  define v where "v = ascii (fst c) @ [of_char (CHR ''='')] @ ascii (snd c)"
  let ?rest = "concat (map comment_bytes cs)"
  from Cons.prems have ok: "comment_ok c" by simp
  have cb: "comment_bytes c = to_le 4 (length v) @ v" by (simp add: comment_bytes_def v_def)
  have f1: "take_field (pre @ to_le 4 (length v) @ v @ ?rest) (length pre) 4
      = Inr (to_le 4 (length v), length pre + 4)"
    using take_field_append [of pre "to_le 4 (length v)"] by simp
  have f2: "take_field (pre @ to_le 4 (length v) @ v @ ?rest) (length pre + 4) (length v)
      = Inr (v, length pre + 4 + length v)"
    using take_field_append [of "pre @ to_le 4 (length v)" v ?rest] by simp
  have l: "le (to_le 4 (length v)) = length v"
    using ok by (intro le_to_le) (simp add: v_def comment_ok_def ascii_def)
  have sp: "split_once (of_char (CHR ''='')) v = Some (ascii (fst c), ascii (snd c))"
    using ok unfolding split_once_Some v_def
    by (auto simp: ascii_def comment_ok_def of_char_byte_eq simp del: of_char_Char)
  have IH: "parse_comment_list debug (pre @ to_le 4 (length v) @ v @ ?rest) (length cs) (length pre + 4 + length v)
      = Inr cs"
    using Cons.IH [of "pre @ to_le 4 (length v) @ v"] Cons.prems by (simp add: ac_simps)
  show ?case
    using ok by (simp add: cb f1 f2 l sp IH tag_string_ascii comment_ok_def del: of_char_Char)
qed simp

lemma parse_comments_body:
  assumes "list_all comment_ok cs" and "length vendor < 2 ^ 32" and "length cs < 2 ^ 32"
  shows "parse_comments debug (comments_body vendor cs) = Inr cs"
proof -
  let ?rest = "concat (map comment_bytes cs)"
  have f1: "take_field (to_le 4 (length vendor) @ vendor @ to_le 4 (length cs) @ ?rest) 0 4
      = Inr (to_le 4 (length vendor), 4)"
    using take_field_append [of "[]" "to_le 4 (length vendor)"] by simp
  have f2: "take_field (to_le 4 (length vendor) @ vendor @ to_le 4 (length cs) @ ?rest) 4 (length vendor)
      = Inr (vendor, 4 + length vendor)"
    using take_field_append [of "to_le 4 (length vendor)" vendor] by simp
  have f3: "take_field (to_le 4 (length vendor) @ vendor @ to_le 4 (length cs) @ ?rest) (length vendor + 4) 4
      = Inr (to_le 4 (length cs), length vendor + 8)"
    using take_field_append [of "to_le 4 (length vendor) @ vendor" "to_le 4 (length cs)"] by (simp add: ac_simps)
  have n: "le (to_le 4 (length vendor)) = length vendor" "le (to_le 4 (length cs)) = length cs"
    using assms by (intro le_to_le; simp)+
  show ?thesis
    using parse_comment_list_bytes [OF assms(1), of debug "to_le 4 (length vendor) @ vendor @ to_le 4 (length cs)"]
    by (simp add: parse_comments_def comments_body_def f1 f2 f3 n ac_simps)
qed

lemma parse_picture_body:
  assumes "picture_type p < 2 ^ 32" and "utf8_valid (picture_mime p)" and "length (picture_mime p) < 2 ^ 32"
    and "length description < 2 ^ 32" and "length geometry = 16" and "length (picture_data p) < 2 ^ 32"
  shows "parse_picture (picture_body description geometry p) = Inr p"
proof -
  have n: "be (to_be 4 (picture_type p)) = picture_type p"
    "be (to_be 4 (length (picture_mime p))) = length (picture_mime p)"
    "be (to_be 4 (length description)) = length description"
    "be (to_be 4 (length (picture_data p))) = length (picture_data p)"
    using assms by (intro be_to_be; simp)+
  show ?thesis
    using assms(2,5) n
    by (simp add: parse_picture_def picture_body_def take_field_def sub_def ascii_def tag_string_ascii [unfolded ascii_def])
qed

text \<open>A whole stream as a writer lays it out.\<close>

datatype written =
    WComments bytes "(string \<times> string) list"
  | WPicture bytes bytes picture
  | WPadding nat

fun raw_of :: "written \<Rightarrow> nat \<times> bytes" where
  "raw_of (WComments vendor cs) = (4, comments_body vendor cs)"
| "raw_of (WPicture description geometry p) = (6, picture_body description geometry p)"
| "raw_of (WPadding n) = (1, replicate n 0)"

fun read_of :: "written \<Rightarrow> block_body" where
  "read_of (WComments vendor cs) = Comments cs"
| "read_of (WPicture description geometry p) = PictureBlock p"
| "read_of (WPadding n) = OtherBlock"

fun written_ok :: "written \<Rightarrow> bool" where
  "written_ok (WComments vendor cs) \<longleftrightarrow> list_all comment_ok cs \<and> length cs < 2 ^ 32
     \<and> length (comments_body vendor cs) < 2 ^ 24"
| "written_ok (WPicture description geometry p) \<longleftrightarrow> picture_type p < 2 ^ 32 \<and> utf8_valid (picture_mime p)
     \<and> length geometry = 16 \<and> length (picture_body description geometry p) < 2 ^ 24"
| "written_ok (WPadding n) \<longleftrightarrow> n < 2 ^ 24"

definition block_of :: "written \<Rightarrow> block" where
  "block_of w = \<lparr>block_length = length (snd (raw_of w)), block_body = read_of w\<rparr>"

definition write_flac :: "bytes \<Rightarrow> written list \<Rightarrow> bytes" where
  "write_flac si ws = ascii ''fLaC'' @ framed_all ((0, si) # map raw_of ws)"

lemma written_parses:
  assumes "written_ok w"
  shows "fits (raw_of w) \<and> parse_body debug (fst (raw_of w)) (snd (raw_of w)) = Inr (read_of w)"
proof (cases w)
  case (WComments vendor cs)
  with assms have "length vendor < 2 ^ 32" by (simp add: comments_body_def)
  with WComments assms show ?thesis by (simp add: fits_def parse_body_def parse_comments_body)
next
  case (WPicture description geometry p)
  with assms have "length (picture_mime p) < 2 ^ 32" "length description < 2 ^ 32" "length (picture_data p) < 2 ^ 32"
    by (simp_all add: picture_body_def ascii_def)
  with WPicture assms show ?thesis by (simp add: fits_def parse_body_def parse_picture_body)
next
  case (WPadding n)
  with assms show ?thesis by (simp add: fits_def parse_body_def list_ex_iff)
qed

lemma parse_framed:
  assumes "parse_stream_info si = Inr info" and "length si < 2 ^ 24" and "list_all fits raws"
    and "list_all2 (\<lambda>(t, body) b. parse_body debug t body = Inr (block_body b) \<and> block_length b = length body) raws bs"
  shows "parse debug (ascii ''fLaC'' @ framed_all ((0, si) # raws) @ audio)
     = Inr (\<lparr>stream_header = info, blocks = bs\<rparr>, 4 + length (framed_all ((0, si) # raws)))"
proof -
  let ?file = "ascii ''fLaC'' @ framed (raws = []) (0, si) @ framed_all raws @ audio"
  have a: "length (ascii ''fLaC'') = 4" by (simp add: ascii_def)
  have s: "read_exact ?file 0 4 = Inr (ascii ''fLaC'', 4)"
    by (simp add: read_exact_def sub_def ascii_def)
  have r: "read_block ?file 4 = Inr ((raws = [], 0, si), 8 + length si)"
    using read_block_framed [of "(0, si)" "ascii ''fLaC''" "raws = []" "framed_all raws @ audio"] assms(2)
    by (simp add: a fits_def)
  have b: "parse_blocks debug ?file (8 + length si) (raws = [])
      = Inr (bs, 8 + length si + length (framed_all raws))"
    using parse_blocks_framed [OF assms(3,4), of "ascii ''fLaC'' @ framed (raws = []) (0, si)" audio]
    by (simp add: a)
  show ?thesis
    by (simp add: parse_def s r b assms(1) a)
qed

lemma parse_written:
  assumes "parse_stream_info si = Inr info" and "length si < 2 ^ 24" and "list_all written_ok ws"
  shows "parse debug (write_flac si ws @ audio)
     = Inr (\<lparr>stream_header = info, blocks = map block_of ws\<rparr>, length (write_flac si ws))"
proof -
  have f: "list_all fits (map raw_of ws)"
    using assms(3) written_parses by (auto simp: list_all_iff)
  have p: "list_all2 (\<lambda>(t, body) b. parse_body debug t body = Inr (block_body b) \<and> block_length b = length body)
      (map raw_of ws) (map block_of ws)"
    using assms(3) written_parses
    by (auto simp: list_all2_conv_all_nth list_all_length block_of_def case_prod_unfold)
  show ?thesis
    using parse_framed [OF assms(1,2) f p, of audio] by (simp add: write_flac_def ascii_def)
qed

subsection \<open>Properties\<close>

text \<open>C38: What a FLAC writer puts down is read back. A stream of a STREAMINFO block with
  any legal values, comments, pictures and padding, followed by any audio, parses to
  exactly those values in their order, and the file is left at the first byte of the audio.\<close>

theorem flac_round_trip:
  assumes "info_valid info" and "16 \<le> mn" "mn < 2 ^ 16" and "16 \<le> mx" "mx < 2 ^ 16"
    and "length sizes = 6" and "length md5 = 16" and "list_all written_ok ws"
  shows "parse debug (write_flac (info_block mn mx sizes info md5) ws @ audio)
     = Inr (\<lparr>stream_header = info, blocks = map block_of ws\<rparr>,
         length (write_flac (info_block mn mx sizes info md5) ws))"
proof (rule parse_written)
  show "parse_stream_info (info_block mn mx sizes info md5) = Inr info"
    using assms by (intro parse_stream_info_block) simp_all
  show "length (info_block mn mx sizes info md5) < 2 ^ 24"
    using assms(6,7) by (simp add: info_block_def)
qed (rule assms(8))

definition flac_toy_info :: stream_info where
  "flac_toy_info = \<lparr>info_sample_rate = 44100, info_channels = 2, info_bits = 16, info_total_samples = 0\<rparr>"

definition flac_toy_info_block :: bytes where
  "flac_toy_info_block = info_block 16 4096 (replicate 6 0) flac_toy_info (replicate 16 0)"

definition flac_toy_written :: "written list" where
  "flac_toy_written = [WComments [] [(''TITLE'', ''Glow'')], WPadding 3]"

lemma flac_toy_facts:
  "info_valid flac_toy_info" "list_all written_ok flac_toy_written" "length (write_flac flac_toy_info_block flac_toy_written) = 75"
  "map block_length (map block_of flac_toy_written) = [22, 3]"
  by (simp_all add: flac_toy_info_def info_valid_def flac_toy_written_def comment_ok_def byte_in_iff comments_body_def
      comment_bytes_def ascii_def block_of_def write_flac_def flac_toy_info_block_def info_block_def)

theorem flac_round_trip_witness:
  "parse id (write_flac flac_toy_info_block flac_toy_written @ [0xff, 0xf8])
     = Inr (\<lparr>stream_header = flac_toy_info, blocks = map block_of flac_toy_written\<rparr>, 75)"
  using flac_round_trip [OF flac_toy_facts(1), of 16 4096 "replicate 6 0" "replicate 16 0" flac_toy_written id "[0xff, 0xf8]"]
  by (simp add: flac_toy_facts flac_toy_info_block_def [symmetric])

lemma read_block_length:
  assumes "read_block file pos = Inr ((l, t, body), p)"
  shows "length body = be (sub file (pos + 1) 3)"
proof -
  from assms have h: "pos + 4 \<le> length file" and e: "length body = be (sub (sub file pos 4) 1 3)"
    by (auto simp: read_block_def and_then_Inr_iff read_exact_Inr sub_length)
  have "sub (sub file pos 4) 1 3 = sub file (pos + 1) 3"
    by (simp add: sub_def drop_take add.commute)
  with e show ?thesis by simp
qed

text \<open>A FLAC file whose metadata parses starts with a STREAMINFO block of at least
  34 bytes with a positive sample rate below $2^{20}$, one to eight channels and one to
  32 bits; the parser stops inside the file, right after the blocks it read; and the
  metadata bytes that are taken off the file size for the bitrate fall short of that
  position by exactly what STREAMINFO has beyond its 34 bytes.\<close>

theorem flac_metadata_span:
  assumes "parse debug file = Inr (st, q)"
  shows "take 4 file = ascii ''fLaC'' \<and> info_valid (stream_header st) \<and> 34 \<le> be (sub file 5 3)
     \<and> q = 8 + be (sub file 5 3) + sum_list (map (\<lambda>b. 4 + block_length b) (blocks st)) \<and> q \<le> length file
     \<and> q = metadata_bytes (blocks st) + (be (sub file 5 3) - 34)"
proof -
  from assms obtain l body p1 where s: "read_exact file 0 4 = Inr (ascii ''fLaC'', 4)"
    and b: "read_block file 4 = Inr ((l, 0, body), p1)"
    and i: "parse_stream_info body = Inr (stream_header st)"
    and k: "parse_blocks debug file p1 l = Inr (blocks st, q)"
    by (auto simp: parse_def and_then_Inr_iff read_exact_Inr split: if_splits)
  note rb = read_block_Inr [OF b] read_block_length [OF b]
  have "q = p1 + sum_list (map (\<lambda>b. 4 + block_length b) (blocks st)) \<and> q \<le> length file"
    by (rule parse_blocks_span [OF k rb(2)])
  with rb parse_stream_info_valid [OF i] s show ?thesis
    by (simp add: read_exact_Inr sub_def metadata_bytes_def STREAM_INFO_SIZE_BYTES_def)
qed

lemma flac_toy_parses:
  "parse id (write_flac flac_toy_info_block flac_toy_written @ [])
     = Inr (\<lparr>stream_header = flac_toy_info, blocks = map block_of flac_toy_written\<rparr>, 75)"
proof -
  have "parse_stream_info flac_toy_info_block = Inr flac_toy_info"
    unfolding flac_toy_info_block_def by (rule parse_stream_info_block [OF flac_toy_facts(1)]) simp_all
  moreover have "length flac_toy_info_block < 2 ^ 24" by (simp add: flac_toy_info_block_def info_block_def)
  ultimately show ?thesis
    using parse_written [of flac_toy_info_block flac_toy_info flac_toy_written id "[]"] flac_toy_facts(2,3) by simp
qed

theorem flac_metadata_span_witness:
  "metadata_bytes (map block_of flac_toy_written) + (be (sub (write_flac flac_toy_info_block flac_toy_written @ []) 5 3) - 34) = 75
     \<and> 75 \<le> length (write_flac flac_toy_info_block flac_toy_written @ [])"
  using flac_metadata_span [OF flac_toy_parses] by simp

end
