(* ===== verification/Id3.thy ===== *)
theory Id3
  imports Flac_Inspector
begin

text \<open>
  The structure of an ID3v2 tag (\<open>server/src/inspect/id3.rs\<close>): its header, its frames
  and the choice of the cover. What a text or picture frame says, which rests on
  UTF-16 and on the letter case of Unicode, is not here.
\<close>

subsection \<open>Header\<close>

definition HEADER_SIZE_BYTES :: nat where "HEADER_SIZE_BYTES = 10"
definition MAX_TAG_SIZE_BYTES :: nat where "MAX_TAG_SIZE_BYTES = 32 * 1024 * 1024"
definition FRONT_COVER_TYPE :: nat where "FRONT_COVER_TYPE = 3"
definition OTHER_PICTURE_TYPE :: nat where "OTHER_PICTURE_TYPE = 0"

record frame =
  frame_name :: string
  frame_payload :: bytes

record tagged_picture =
  tagged_mime :: string
  tagged_data :: bytes
  tagged_type :: nat

definition invalid :: "string \<Rightarrow> failure" where
  "invalid m = error InvalidMetadata ''ID3'' m"

fun sync_safe_fold :: "nat \<Rightarrow> bytes \<Rightarrow> nat option" where
  "sync_safe_fold v [] = Some v"
| "sync_safe_fold v (part # data) =
     (if and part 0x80 \<noteq> 0 then None else sync_safe_fold (v * 128 + unat (and part 0x7f)) data)"

definition decode_sync_safe :: "bytes \<Rightarrow> nat option" where
  "decode_sync_safe data = (if length data \<noteq> 4 then None else sync_safe_fold 0 data)"

definition parse_header :: "bytes \<Rightarrow> failure + nat \<times> nat" where
  "parse_header header =
     (if length header < HEADER_SIZE_BYTES \<or> take 3 header \<noteq> ascii ''ID3''
      then Inl (invalid ''ID3v2 tag is required'')
      else let version = unat (header ! 3); revision = unat (header ! 4) in
        if \<not> (2 \<le> version \<and> version \<le> 4) \<or> revision \<noteq> 0
        then Inl (invalid (''unsupported ID3v2 version '' @ digits version @ ''.'' @ digits revision))
        else if header ! 5 \<noteq> 0
        then Inl (invalid ''ID3 tag flags are not supported by the Strict Import Profile'')
        else case decode_sync_safe (sub header 6 4) of
            Some n \<Rightarrow> if 0 < n \<and> n \<le> MAX_TAG_SIZE_BYTES then Inr (version, n)
              else Inl (invalid ''ID3 tag size is invalid'')
          | None \<Rightarrow> Inl (invalid ''ID3 tag size is invalid''))"

subsection \<open>Frames\<close>

definition is_zero :: "bytes \<Rightarrow> bool" where
  "is_zero data \<longleftrightarrow> list_all (\<lambda>b. b = 0) data"

definition name_size :: "nat \<Rightarrow> nat" where
  "name_size version = (if version = 2 then 3 else 4)"

definition header_size :: "nat \<Rightarrow> nat" where
  "header_size version = (if version = 2 then 6 else 10)"

definition name_byte :: "byte \<Rightarrow> bool" where
  "name_byte b \<longleftrightarrow> 65 \<le> unat b \<and> unat b \<le> 90 \<or> 48 \<le> unat b \<and> unat b \<le> 57"

definition parse_frame_header :: "bytes \<Rightarrow> nat \<Rightarrow> nat option" where
  "parse_frame_header data version =
     (if \<not> list_all name_byte (take (name_size version) data) then None
      else if version = 2 then Some (be (sub data 3 3))
      else if \<not> is_zero (sub data 8 2) then None
      else if version = 4 then decode_sync_safe (sub data 4 4)
      else Some (be (sub data 4 4)))"

function frames_from :: "bytes \<Rightarrow> nat \<Rightarrow> nat \<Rightarrow> failure + frame list" where
  "frames_from payload version offset =
     (if length payload \<le> offset then Inr []
      else if length payload - offset < header_size version then
        (if is_zero (drop offset payload) then Inr [] else Inl (invalid ''ID3 frame header is truncated''))
      else if is_zero (sub payload offset (name_size version)) then
        (if is_zero (drop offset payload) then Inr [] else Inl (invalid ''ID3 padding contains non-zero data''))
      else (case parse_frame_header (drop offset payload) version of
          None \<Rightarrow> Inl (invalid ''ID3 frame size is invalid'')
        | Some n \<Rightarrow>
            if \<not> (0 < n \<and> n \<le> length payload - offset - header_size version)
            then Inl (invalid ''ID3 frame size is invalid'')
            else and_then (frames_from payload version (offset + header_size version + n)) (\<lambda>fs.
              Inr (\<lparr>frame_name = from_utf8_lossy (chars (sub payload offset (name_size version))),
                  frame_payload = sub payload (offset + header_size version) n\<rparr> # fs))))"
  by pat_completeness auto

termination
  by (relation "measure (\<lambda>(payload, _, offset). length payload - offset)") auto

declare frames_from.simps [simp del]

definition parse_frames :: "bytes \<Rightarrow> nat \<Rightarrow> failure + frame list" where
  "parse_frames payload version = frames_from payload version 0"

definition map_error :: "('e \<Rightarrow> 'f) \<Rightarrow> 'e + 'a \<Rightarrow> 'f + 'a" where
  "map_error h r = (case r of Inl e \<Rightarrow> Inl (h e) | Inr x \<Rightarrow> Inr x)"

definition read_frames :: "bytes \<Rightarrow> failure + frame list \<times> nat \<times> nat" where
  "read_frames file =
     and_then (map_error (\<lambda>c. invalid (''read ID3 header: '' @ c)) (read_exact file 0 HEADER_SIZE_BYTES)) (\<lambda>(header, p).
     and_then (parse_header header) (\<lambda>(version, n).
     and_then (map_error (\<lambda>c. invalid (''read ID3 payload: '' @ c)) (read_exact file p n)) (\<lambda>(payload, _).
     and_then (parse_frames payload version) (\<lambda>fs.
       Inr (fs, version, HEADER_SIZE_BYTES + n)))))"

lemma map_error_simps [simp]:
  "map_error h r = Inr x \<longleftrightarrow> r = Inr x" "map_error h (Inr x) = Inr x" "map_error h (Inl e) = Inl (h e)"
  by (simp_all add: map_error_def split: sum.split)

subsection \<open>Cover\<close>

definition select_front_cover :: "tagged_picture list \<Rightarrow> failure + tagged_picture" where
  "select_front_cover pictures =
     (let front = filter (\<lambda>p. tagged_type p = FRONT_COVER_TYPE) pictures in
      if length front = 1 then Inr (hd front)
      else if 1 < length front \<or> 1 < length pictures
      then Inl (error InvalidArtwork ''artwork'' ''embedded front cover role is ambiguous'')
      else case pictures of
          [] \<Rightarrow> Inl (error MissingArtwork ''artwork'' ''embedded front cover is required'')
        | p # _ \<Rightarrow> if tagged_type p = OTHER_PICTURE_TYPE then Inr p
            else Inl (error InvalidArtwork ''artwork'' ''embedded picture is not a front cover''))"

definition front_cover_artwork :: "(string \<Rightarrow> bytes \<Rightarrow> failure + album_artwork) \<Rightarrow> tagged_picture list \<Rightarrow> failure + album_artwork" where
  "front_cover_artwork validate pictures =
     and_then (select_front_cover pictures) (\<lambda>p. validate (tagged_mime p) (tagged_data p))"

subsection \<open>What a writer puts down\<close>

fun sync_safe :: "nat \<Rightarrow> nat \<Rightarrow> bytes" where
  "sync_safe 0 n = []"
| "sync_safe (Suc k) n = sync_safe k (n div 128) @ [of_nat (n mod 128)]"

definition size_bytes_of :: "nat \<Rightarrow> nat \<Rightarrow> bytes" where
  "size_bytes_of version n = (if version = 2 then to_be 3 n else if version = 4 then sync_safe 4 n else to_be 4 n)"

definition frame_bytes :: "nat \<Rightarrow> frame \<Rightarrow> bytes" where
  "frame_bytes version f = ascii (frame_name f) @ size_bytes_of version (length (frame_payload f))
     @ (if version = 2 then [] else [0, 0]) @ frame_payload f"

definition frame_ok :: "nat \<Rightarrow> frame \<Rightarrow> bool" where
  "frame_ok version f \<longleftrightarrow> length (frame_name f) = name_size version
     \<and> list_all (\<lambda>c. name_byte (of_char c)) (frame_name f)
     \<and> frame_payload f \<noteq> [] \<and> length (frame_payload f) < (if version = 2 then 2 ^ 24 else if version = 4 then 2 ^ 28 else 2 ^ 32)"

definition tag_bytes :: "nat \<Rightarrow> frame list \<Rightarrow> nat \<Rightarrow> bytes" where
  "tag_bytes version fs padding =
     (let payload = concat (map (frame_bytes version) fs) @ replicate padding 0
      in ascii ''ID3'' @ [of_nat version, 0, 0] @ sync_safe 4 (length payload) @ payload)"

lemma sync_safe_length [simp]: "length (sync_safe k n) = k"
  by (induction k arbitrary: n) simp_all

lemma sync_safe_fold_append:
  "sync_safe_fold v (xs @ ys) = Option.bind (sync_safe_fold v xs) (\<lambda>w. sync_safe_fold w ys)"
  by (induction xs arbitrary: v) simp_all

lemma seven_bits:
  "n < 128 \<Longrightarrow> and (of_nat n :: byte) 0x80 = 0" "n < 128 \<Longrightarrow> unat (and (of_nat n :: byte) 0x7f) = n"
proof -
  assume n: "n < 128"
  then have u: "unat (of_nat n :: byte) = n" by (simp add: unat_of_nat)
  show "and (of_nat n :: byte) 0x80 = 0" using top_bit [of "of_nat n"] u n by auto
  show "unat (and (of_nat n :: byte) 0x7f) = n" using u n by (simp add: low_bits)
qed

lemma sync_safe_round_trip: "n < 128 ^ k \<Longrightarrow> sync_safe_fold v (sync_safe k n) = Some (v * 128 ^ k + n)"
proof (induction k arbitrary: n)
  case (Suc k)
  then have "n div 128 < 128 ^ k" by (simp add: less_mult_imp_div_less mult.commute)
  with Suc.IH show ?case by (simp add: sync_safe_fold_append seven_bits)
qed simp

lemma sync_safe_fold_bound: "sync_safe_fold v bs = Some n \<Longrightarrow> n < (v + 1) * 128 ^ length bs"
proof (induction bs arbitrary: v)
  case (Cons b bs)
  let ?w = "v * 128 + unat (and b 0x7f)"
  from Cons.prems have "sync_safe_fold ?w bs = Some n" by (simp split: if_splits)
  then have "n < (?w + 1) * 128 ^ length bs" by (rule Cons.IH)
  also have "\<dots> \<le> (v + 1) * 128 * 128 ^ length bs"
    by (intro mult_right_mono) (simp_all add: low_bits)
  finally show ?case by (simp add: algebra_simps)
qed simp

lemma name_utf8: "list_all (\<lambda>c. name_byte (of_char c)) s \<Longrightarrow> utf8_valid s"
proof (rule utf8_ascii)
  assume "list_all (\<lambda>c. name_byte (of_char c)) s"
  moreover have "byte_in 0 0x7F c" if "name_byte (of_char c)" for c
    using that unat_of_char_byte [of c] by (auto simp: name_byte_def byte_in_iff)
  ultimately show "list_all (byte_in 0 0x7F) s" by (simp add: list_all_iff)
qed

lemma size_bytes_length: "length (size_bytes_of version n) = (if version = 2 then 3 else 4)"
  by (simp add: size_bytes_of_def)

lemma frame_header_bytes:
  assumes "frame_ok version f" and "version \<in> {2, 3, 4}"
  shows "parse_frame_header (frame_bytes version f @ rest) version = Some (length (frame_payload f))"
proof -
  have nm: "take (name_size version) (frame_bytes version f @ rest) = ascii (frame_name f)"
    "list_all name_byte (ascii (frame_name f))" "length (ascii (frame_name f)) = name_size version"
    using assms(1) by (simp_all add: frame_bytes_def frame_ok_def ascii_def list_all_iff)
  define pl where "pl = length (frame_payload f)"
  consider "version = 2" | "version = 3" | "version = 4" using assms(2) by auto
  then show ?thesis
  proof cases
    case 1
    have "sub (frame_bytes version f @ rest) 3 3 = to_be 3 pl"
      using nm(3) 1 by (simp add: sub_def frame_bytes_def size_bytes_of_def name_size_def pl_def)
    moreover have "pl < 256 ^ 3" using assms(1) 1 by (simp add: frame_ok_def pl_def)
    ultimately show ?thesis using nm 1 by (simp add: parse_frame_header_def be_to_be pl_def)
  next
    case 2
    have "sub (frame_bytes version f @ rest) 4 4 = to_be 4 pl" "sub (frame_bytes version f @ rest) 8 2 = [0, 0]"
      using nm(3) 2 by (simp_all add: sub_def frame_bytes_def size_bytes_of_def name_size_def pl_def)
    moreover have "pl < 256 ^ 4" using assms(1) 2 by (simp add: frame_ok_def pl_def)
    ultimately show ?thesis using nm 2 by (simp add: parse_frame_header_def be_to_be pl_def is_zero_def)
  next
    case 3
    have "sub (frame_bytes version f @ rest) 4 4 = sync_safe 4 pl" "sub (frame_bytes version f @ rest) 8 2 = [0, 0]"
      using nm(3) 3 by (simp_all add: sub_def frame_bytes_def size_bytes_of_def name_size_def pl_def)
    moreover have "pl < 128 ^ 4" using assms(1) 3 by (simp add: frame_ok_def pl_def)
    ultimately show ?thesis using nm 3 sync_safe_round_trip [of pl 4 0]
      by (simp add: parse_frame_header_def pl_def is_zero_def decode_sync_safe_def)
  qed
qed

lemma frame_slices:
  assumes "frame_ok version f" and "version \<in> {2, 3, 4}"
  shows "length (frame_bytes version f) = header_size version + length (frame_payload f)"
    "sub (pre @ frame_bytes version f @ rest) (length pre) (name_size version) = ascii (frame_name f)"
    "sub (pre @ frame_bytes version f @ rest) (length pre + header_size version) (length (frame_payload f)) = frame_payload f"
    "\<not> is_zero (ascii (frame_name f))"
    "from_utf8_lossy (chars (ascii (frame_name f))) = frame_name f"
proof -
  have n: "length (frame_name f) = name_size version" and v: "list_all (\<lambda>c. name_byte (of_char c)) (frame_name f)"
    using assms(1) by (simp_all add: frame_ok_def)
  show "length (frame_bytes version f) = header_size version + length (frame_payload f)"
    using n by (simp add: frame_bytes_def size_bytes_length header_size_def name_size_def ascii_def)
  show "sub (pre @ frame_bytes version f @ rest) (length pre) (name_size version) = ascii (frame_name f)"
    using n by (simp add: sub_def frame_bytes_def ascii_def)
  show "sub (pre @ frame_bytes version f @ rest) (length pre + header_size version) (length (frame_payload f)) = frame_payload f"
    using n by (simp add: sub_def frame_bytes_def ascii_def size_bytes_length header_size_def name_size_def)
  show "\<not> is_zero (ascii (frame_name f))"
    using n v by (cases "frame_name f") (auto simp: is_zero_def ascii_def name_size_def name_byte_def split: if_splits)
  show "from_utf8_lossy (chars (ascii (frame_name f))) = frame_name f"
    by (simp add: chars_ascii from_utf8_lossy_valid name_utf8 [OF v])
qed

lemma frames_from_bytes:
  assumes "list_all (frame_ok version) fs" and "version \<in> {2, 3, 4}"
  shows "frames_from (pre @ concat (map (frame_bytes version) fs) @ replicate padding 0) version (length pre) = Inr fs"
  using assms(1)
proof (induction fs arbitrary: pre)
  case Nil
  have "is_zero (sub (pre @ replicate padding 0) (length pre) (name_size version))" "is_zero (replicate padding 0)"
    by (simp_all add: is_zero_def sub_def list_all_iff)
  then show ?case by (subst frames_from.simps) simp
next
  case (Cons f fs)
  let ?rest = "concat (map (frame_bytes version) fs) @ replicate padding 0"
  from Cons.prems have ok: "frame_ok version f" and oks: "list_all (frame_ok version) fs" by simp_all
  note s = frame_slices [OF ok assms(2)]
  have IH: "frames_from (pre @ frame_bytes version f @ ?rest) version
      (length pre + header_size version + length (frame_payload f)) = Inr fs"
    using Cons.IH [OF oks, of "pre @ frame_bytes version f"] by (simp add: s(1) add.assoc)
  have h: "parse_frame_header (frame_bytes version f @ ?rest) version = Some (length (frame_payload f))"
    using frame_header_bytes [OF ok assms(2)] by simp
  have p: "0 < length (frame_payload f)" using ok by (simp add: frame_ok_def)
  show ?case
    using p s(1,4,5) IH
    by (subst frames_from.simps) (simp add: s(2,3) h)
qed

lemma parse_header_bytes:
  assumes "version \<in> {2, 3, 4}" and "0 < n" and "n \<le> MAX_TAG_SIZE_BYTES"
  shows "parse_header (ascii ''ID3'' @ [of_nat version, 0, 0] @ sync_safe 4 n) = Inr (version, n)"
proof -
  have v: "unat (of_nat version :: byte) = version" using assms(1) by (auto simp: unat_of_nat)
  have "n < 128 ^ 4" using assms(3) by (simp add: MAX_TAG_SIZE_BYTES_def)
  from sync_safe_round_trip [OF this, of 0] have "decode_sync_safe (sync_safe 4 n) = Some n"
    by (simp add: decode_sync_safe_def)
  moreover have "sub (ascii ''ID3'' @ [of_nat version, 0, 0] @ sync_safe 4 n) 6 4 = sync_safe 4 n"
    by (simp add: sub_def ascii_def)
  ultimately show ?thesis
    using assms v by (auto simp: parse_header_def HEADER_SIZE_BYTES_def ascii_def nth_append)
qed

lemma parse_header_Inr:
  assumes "parse_header header = Inr (version, n)"
  shows "version \<in> {2, 3, 4}" "0 < n" "n \<le> MAX_TAG_SIZE_BYTES"
  using assms by (auto simp: parse_header_def Let_def split: if_splits option.splits)

subsection \<open>Properties\<close>

text \<open>An ID3v2.2, 2.3 or 2.4 tag with any frames of legal names and non-empty
  payloads and any amount of zero padding, at most 32 MiB in all, is read back frame by
  frame whatever follows it, and the audio is taken to start right after it.\<close>

theorem id3_round_trip:
  assumes "version \<in> {2, 3, 4}" and "list_all (frame_ok version) fs"
    and "10 < length (tag_bytes version fs padding)"
    and "length (tag_bytes version fs padding) \<le> 10 + MAX_TAG_SIZE_BYTES"
  shows "read_frames (tag_bytes version fs padding @ audio)
     = Inr (fs, version, length (tag_bytes version fs padding))"
proof -
  define payload where "payload = concat (map (frame_bytes version) fs) @ replicate padding 0"
  define hd where "hd = ascii ''ID3'' @ [of_nat version, 0, 0] @ sync_safe 4 (length payload)"
  have t: "tag_bytes version fs padding = hd @ payload" by (simp add: tag_bytes_def payload_def hd_def)
  have h: "length hd = 10" by (simp add: hd_def ascii_def)
  have ph: "parse_header hd = Inr (version, length payload)"
    unfolding hd_def using assms(1,3,4) t h by (intro parse_header_bytes) simp_all
  have pf: "parse_frames payload version = Inr fs"
    using frames_from_bytes [OF assms(2,1), of "[]" padding] by (simp add: parse_frames_def payload_def)
  show ?thesis
    by (simp add: t read_frames_def read_exact_def HEADER_SIZE_BYTES_def h sub_def map_error_def ph pf)
qed

theorem id3_round_trip_witness:
  "read_frames (tag_bytes 4 [\<lparr>frame_name = ''TIT2'', frame_payload = [3, 71]\<rparr>] 5 @ [0xff, 0xfb])
     = Inr ([\<lparr>frame_name = ''TIT2'', frame_payload = [3, 71]\<rparr>], 4, 27)"
proof -
  have "list_all (frame_ok 4) [\<lparr>frame_name = ''TIT2'', frame_payload = [3, 71]\<rparr>]"
    by (simp add: frame_ok_def name_size_def name_byte_def)
  moreover have "length (tag_bytes 4 [\<lparr>frame_name = ''TIT2'', frame_payload = [3, 71]\<rparr>] 5) = 27"
    by (simp add: tag_bytes_def frame_bytes_def size_bytes_of_def ascii_def)
  ultimately show ?thesis
    using id3_round_trip [of 4 "[\<lparr>frame_name = ''TIT2'', frame_payload = [3, 71]\<rparr>]" 5 "[0xff, 0xfb]"]
    by (simp add: MAX_TAG_SIZE_BYTES_def)
qed

lemma read_frames_offset:
  assumes "read_frames file = Inr (fs, version, offset)"
  shows "10 < offset" "offset \<le> length file" "offset \<le> 10 + MAX_TAG_SIZE_BYTES"
  using assms
  by (auto simp: read_frames_def and_then_Inr_iff read_exact_Inr HEADER_SIZE_BYTES_def dest: parse_header_Inr)

end
