(* ===== verification/Wav_Inspector.thy ===== *)
theory Wav_Inspector
  imports Id3
begin

text \<open>
  The WAV inspector (\<open>server/src/inspect/wav.rs\<close>): the RIFF chunks, the format and the
  read through the samples. What the ID3 frames say is the parameter \<open>collect\<close>
  (\<open>collect_values\<close> of \<open>server/src/inspect/id3.rs\<close>), JSON quoting, a library's work, is
  \<open>quote\<close>. The caller of an inspection can cancel it and is told its progress:
  \<open>cancel k\<close> is the caller's answer when \<open>k\<close> bytes are left to read (the check before
  the loop, which sees as many bytes left as the first round, asks for one more), and
  \<open>reporter\<close> is the receiver of the progress, which may stop the inspection with a failure.
\<close>

subsection \<open>Data\<close>

definition PCM :: nat where "PCM = 0x0001"
definition EXTENSIBLE :: nat where "EXTENSIBLE = 0xfffe"
definition RIFF_HEADER_SIZE_BYTES :: nat where "RIFF_HEADER_SIZE_BYTES = 12"
definition FMT_MIN_SIZE_BYTES :: nat where "FMT_MIN_SIZE_BYTES = 16"
definition FMT_WAVEFORMATEX_SIZE_BYTES :: nat where "FMT_WAVEFORMATEX_SIZE_BYTES = 18"
definition FMT_EXTENSIBLE_SIZE_BYTES :: nat where "FMT_EXTENSIBLE_SIZE_BYTES = 40"

definition PCM_SUBFORMAT :: bytes where
  "PCM_SUBFORMAT = [0x01, 0x00, 0x00, 0x00, 0x00, 0x00, 0x10, 0x00, 0x80, 0x00, 0x00, 0xaa, 0x00, 0x38, 0x9b, 0x71]"

record wav_format =
  audio_format :: nat
  fmt_channels :: nat
  fmt_rate :: nat
  bytes_per_second :: nat
  block_align :: nat
  bits_per_sample :: nat
  cb_size :: nat
  valid_bits :: nat
  sub_format :: bytes

record 't chunks =
  chunk_format :: wav_format
  data_offset :: nat
  data_size :: nat
  chunk_tags :: 't
  chunk_pictures :: "tagged_picture list"

text \<open>The three things the walk over the chunks looks for.\<close>

record 't found =
  found_format :: "wav_format option"
  found_data :: "(nat \<times> nat) option"
  found_id3 :: "('t \<times> tagged_picture list) option"

type_synonym 't collector = "frame list \<Rightarrow> nat \<Rightarrow> ('t \<times> tagged_picture list) \<times> failure"

definition unsupported :: "string \<Rightarrow> failure" where
  "unsupported m = error UnsupportedFormat ''container'' m"

text \<open>\<open>{:04x}\<close> and \<open>{:02}\<close>.\<close>

definition hex_digit :: "nat \<Rightarrow> char" where
  "hex_digit n = ''0123456789abcdef'' ! (n mod 16)"

definition hex4 :: "nat \<Rightarrow> string" where
  "hex4 n = [hex_digit (n div 4096), hex_digit (n div 256), hex_digit (n div 16), hex_digit n]"

definition pad2 :: "nat \<Rightarrow> string" where
  "pad2 n = (if n < 10 then ''0'' @ digits n else digits n)"

subsection \<open>Format\<close>

definition validate_format :: "wav_format \<Rightarrow> failure + unit" where
  "validate_format f =
     (let bits = bits_per_sample f;
          pcm_or_failure =
            (if audio_format f = EXTENSIBLE then
               (if cb_size f \<noteq> FMT_EXTENSIBLE_SIZE_BYTES - FMT_WAVEFORMATEX_SIZE_BYTES
                then Inl (unsupported (''extensible fmt extension size '' @ digits (cb_size f) @ '' is invalid''))
                else if sub_format f \<noteq> PCM_SUBFORMAT then Inl (unsupported ''WAV subformat is not integer PCM'')
                else Inr PCM)
             else Inr (audio_format f))
      in and_then pcm_or_failure (\<lambda>fmt.
         if fmt \<noteq> PCM
         then Inl (unsupported (''WAV audio format 0x'' @ hex4 (audio_format f) @ '' is not integer PCM''))
         else if fmt_channels f = 0 \<or> 8 < fmt_channels f
         then Inl (audio_error (''channel count '' @ digits (fmt_channels f) @ '' is invalid''))
         else if \<not> (8000 \<le> fmt_rate f \<and> fmt_rate f \<le> 384000)
         then Inl (audio_error (''sample rate '' @ digits (fmt_rate f) @ '' is invalid''))
         else if bits mod 8 \<noteq> 0 \<or> \<not> (8 \<le> bits \<and> bits \<le> 32)
         then Inl (audio_error (''bit depth '' @ digits bits @ '' is invalid''))
         else if block_align f \<noteq> fmt_channels f * (bits div 8)
         then Inl (audio_error (''block align '' @ digits (block_align f) @ '' does not match channels and bit depth''))
         else if bytes_per_second f \<noteq> fmt_rate f * block_align f mod 2 ^ 32
         then Inl (audio_error ''byte rate does not match sample rate and block align'')
         else if audio_format f = EXTENSIBLE \<and> (valid_bits f = 0 \<or> bits < valid_bits f)
         then Inl (audio_error (''valid bits '' @ digits (valid_bits f)
                @ '' must be positive and no greater than container bit depth '' @ digits bits))
         else Inr ()))"

definition format_of :: "bytes \<Rightarrow> nat \<Rightarrow> wav_format" where
  "format_of body n = \<lparr>audio_format = le (sub body 0 2), fmt_channels = le (sub body 2 2), fmt_rate = le (sub body 4 4),
     bytes_per_second = le (sub body 8 4), block_align = le (sub body 12 2), bits_per_sample = le (sub body 14 2),
     cb_size = (if FMT_WAVEFORMATEX_SIZE_BYTES \<le> n then le (sub body 16 2) else 0),
     valid_bits = 0, sub_format = replicate 16 0\<rparr>"

definition read_format :: "bytes \<Rightarrow> nat \<Rightarrow> nat \<Rightarrow> failure + wav_format" where
  "read_format file pos n =
     (if \<not> (FMT_MIN_SIZE_BYTES \<le> n \<and> n \<le> FMT_EXTENSIBLE_SIZE_BYTES)
      then Inl (unsupported (''fmt chunk size '' @ digits n @ '' is invalid''))
      else and_then (map_error (\<lambda>c. file_error (''read fmt chunk: '' @ c)) (read_exact file pos n)) (\<lambda>(body, _).
        let f = format_of body n in
        and_then
          (if audio_format f = EXTENSIBLE
           then (if n < FMT_EXTENSIBLE_SIZE_BYTES then Inl (unsupported ''extensible fmt chunk is truncated'')
                 else Inr (f\<lparr>valid_bits := le (sub body 18 2), sub_format := sub body 24 16\<rparr>))
           else if n \<noteq> FMT_MIN_SIZE_BYTES \<and> (n \<noteq> FMT_WAVEFORMATEX_SIZE_BYTES \<or> cb_size f \<noteq> 0)
           then Inl (unsupported (''PCM fmt chunk size '' @ digits n @ '' is invalid''))
           else Inr f)
          (\<lambda>g. and_then (validate_format g) (\<lambda>_. Inr g))))"

definition read_id3 :: "'t collector \<Rightarrow> bytes \<Rightarrow> nat \<Rightarrow> nat \<Rightarrow> failure + 't \<times> tagged_picture list" where
  "read_id3 collect file pos n =
     (if n < HEADER_SIZE_BYTES \<or> MAX_TAG_SIZE_BYTES + HEADER_SIZE_BYTES < n
      then Inl (invalid (''ID3 chunk size '' @ digits n @ '' is invalid''))
      else and_then (map_error (\<lambda>c. file_error (''read ID3 chunk: '' @ c)) (read_exact file pos n)) (\<lambda>(body, _).
        and_then (parse_header body) (\<lambda>(version, tag_size).
          if HEADER_SIZE_BYTES + tag_size \<noteq> length body then Inl (invalid ''ID3 tag size is invalid'')
          else and_then (parse_frames (drop HEADER_SIZE_BYTES body) version) (\<lambda>fs.
            let (values, failure) = collect fs version in
            and_then (into_result failure) (\<lambda>_. Inr values)))))"

subsection \<open>Chunks\<close>

definition read_body :: "'t collector \<Rightarrow> bytes \<Rightarrow> bytes \<Rightarrow> nat \<Rightarrow> nat \<Rightarrow> 't found \<Rightarrow> failure + 't found" where
  "read_body collect file tag body_offset n st =
     (if tag = ascii ''fmt '' then
        and_then (read_format file body_offset n) (\<lambda>f.
          if found_format st \<noteq> None then Inl (unsupported ''multiple fmt chunks are ambiguous'')
          else Inr (st\<lparr>found_format := Some f\<rparr>))
      else if tag = ascii ''data'' then
        (if found_data st \<noteq> None then Inl (unsupported ''multiple data chunks are ambiguous'')
         else Inr (st\<lparr>found_data := Some (body_offset, n)\<rparr>))
      else if tag = ascii ''ID3 '' \<or> tag = ascii ''id3 '' then
        and_then (read_id3 collect file body_offset n) (\<lambda>v.
          if \<not> Option.is_none (found_id3 st)
          then Inl (error InvalidMetadata ''metadata'' ''multiple ID3 chunks are ambiguous'')
          else Inr (st\<lparr>found_id3 := Some v\<rparr>))
      else Inr st)"

text \<open>One round of the loop: what is found so far and the offset after the chunk and its padding.\<close>

definition read_chunk :: "(string \<Rightarrow> string) \<Rightarrow> 't collector \<Rightarrow> bytes \<Rightarrow> nat \<Rightarrow> 't found \<Rightarrow> failure + 't found \<times> nat" where
  "read_chunk quote collect file offset st =
     and_then (map_error (\<lambda>c. unsupported (''read RIFF chunk header: '' @ c)) (read_exact file offset 8)) (\<lambda>(header, _).
       let id = from_utf8_lossy (chars (take 4 header)); n = le (sub header 4 4); body_offset = offset + 8 in
       if length file < body_offset + n
       then Inl (unsupported (''RIFF chunk '' @ quote id @ '' extends past the file''))
       else and_then (read_body collect file (take 4 header) body_offset n st) (\<lambda>st'.
         let after = body_offset + n in
         if n mod 2 = 1
         then (if length file \<le> after
               then Inl (unsupported (''RIFF chunk '' @ quote id @ '' is missing its padding byte''))
               else Inr (st', after + 1))
         else Inr (st', after)))"

lemma read_chunk_Inr:
  assumes "read_chunk quote collect file offset st = Inr (st', p)"
  shows "offset + 8 \<le> p" "p \<le> length file"
  using assms by (auto simp: read_chunk_def and_then_Inr_iff Let_def split: if_splits)

function walk_chunks :: "(string \<Rightarrow> string) \<Rightarrow> 't collector \<Rightarrow> bytes \<Rightarrow> nat \<Rightarrow> 't found \<Rightarrow> failure + 't found" where
  "walk_chunks quote collect file offset st =
     (case read_chunk quote collect file offset st of
        Inl f \<Rightarrow> Inl f
      | Inr (st', p) \<Rightarrow> if length file \<le> p then Inr st' else walk_chunks quote collect file p st')"
  by pat_completeness auto

termination
proof (relation "measure (\<lambda>(_, _, file, offset, _). length file - offset)")
  fix quote and collect :: "'t collector" and f offset st r st' and p :: nat
  assume "read_chunk quote collect f offset st = Inr r" and "(st', p) = r" and "\<not> length f \<le> p"
  then show "((quote, collect, f, p, st'), (quote, collect, f, offset, st))
      \<in> measure (\<lambda>(_, _, file, offset, _). length file - offset)"
    using read_chunk_Inr [of quote collect f offset st st' p] by auto
qed simp

declare walk_chunks.simps [simp del]

definition read_chunks :: "(string \<Rightarrow> string) \<Rightarrow> 't collector \<Rightarrow> bytes \<Rightarrow> failure + 't chunks" where
  "read_chunks quote collect file =
     and_then (walk_chunks quote collect file RIFF_HEADER_SIZE_BYTES
         \<lparr>found_format = None, found_data = None, found_id3 = None\<rparr>) (\<lambda>st.
       case found_format st of
         None \<Rightarrow> Inl (unsupported ''WAV fmt chunk is missing'')
       | Some f \<Rightarrow>
           let (at, n) = (case found_data st of Some d \<Rightarrow> d | None \<Rightarrow> (0, 0)) in
           if n = 0 then Inl (audio_error ''WAV data chunk is missing or empty'')
           else (case found_id3 st of
               None \<Rightarrow> Inl (error InvalidMetadata ''metadata'' ''WAV ID3 chunk is missing; identity metadata is required'')
             | Some (tags, pictures) \<Rightarrow>
                 Inr \<lparr>chunk_format = f, data_offset = at, data_size = n, chunk_tags = tags, chunk_pictures = pictures\<rparr>))"

subsection \<open>Samples\<close>

definition read_full :: "bytes \<Rightarrow> nat \<Rightarrow> nat \<Rightarrow> nat \<times> string option" where
  "read_full file pos want =
     (let got = min want (length file - pos) in
      (got, if got = want then None else Some (if got = 0 then ''EOF'' else ''unexpected EOF'')))"

record progress =
  decoded_samples :: nat
  total_samples :: nat
  progress_percent :: nat

type_synonym reporter = "(progress \<Rightarrow> failure + unit) option"

definition report :: "reporter \<Rightarrow> nat \<Rightarrow> nat \<Rightarrow> nat \<Rightarrow> nat \<Rightarrow> bool \<Rightarrow> failure + unit" where
  "report r decoded all_samples encoded_bytes total_bytes is_complete =
     (case r of
        None \<Rightarrow> Inr ()
      | Some f \<Rightarrow> f \<lparr>decoded_samples = decoded, total_samples = all_samples,
            progress_percent = percent decoded all_samples encoded_bytes total_bytes is_complete\<rparr>)"

function read_samples :: "(nat \<Rightarrow> bool) \<Rightarrow> reporter \<Rightarrow> bytes \<Rightarrow> 't chunks \<Rightarrow> nat \<Rightarrow> failure + unit" where
  "read_samples cancel r file c remaining =
     (if remaining = 0 then Inr ()
      else if cancel remaining then Inl cancelled
      else let n = data_size c; align = block_align (chunk_format c);
               (got, failure) = read_full file (data_offset c + (n - remaining)) (min remaining (1024 * 1024));
               left = remaining - got
        in and_then (report r ((n - left) div align) (n div align) (n - left) n False) (\<lambda>_.
          case failure of
            Some cause \<Rightarrow> Inl (audio_error (''read PCM samples: '' @ cause))
          | None \<Rightarrow> read_samples cancel r file c left))"
  by pat_completeness auto

termination
  by (relation "measure (\<lambda>(_, _, _, _, remaining). remaining)") (auto simp: read_full_def Let_def split: if_splits)

declare read_samples.simps [simp del]

definition decode_pcm :: "(nat \<Rightarrow> bool) \<Rightarrow> reporter \<Rightarrow> bytes \<Rightarrow> 't chunks \<Rightarrow> failure + technical_audio" where
  "decode_pcm cancel r file c =
     (let f = chunk_format c; align = block_align f; n = data_size c; frame_count = n div align;
          ms = int (frame_count * 1000 div fmt_rate f);
          kbps = int ((bytes_per_second f * 8 + 500) div 1000)
      in if n mod align \<noteq> 0
         then Inl (audio_error (''data chunk size '' @ digits n @ '' is not a whole number of PCM frames''))
         else if cancel (n + 1) then Inl cancelled
         else and_then (read_samples cancel r file c n) (\<lambda>_.
           if ms \<le> 0 then Inl (audio_error ''decoded duration is not positive'')
           else if kbps \<le> 0 then Inl (audio_error ''average encoded bitrate is not positive'')
           else and_then (report r frame_count frame_count n n True) (\<lambda>_.
             Inr \<lparr>format = ''wav'', container = ''wav'',
               codec = (if bits_per_sample f = 8 then ''pcm_u8'' else ''pcm_s'' @ pad2 (bits_per_sample f) @ ''le''),
               duration_ms = ms, sample_rate_hz = int (fmt_rate f), channel_count = int (fmt_channels f),
               bit_depth = int (if 0 < valid_bits f then valid_bits f else bits_per_sample f),
               bitrate_kbps = kbps\<rparr>)))"

definition check_riff :: "bytes \<Rightarrow> failure + unit" where
  "check_riff file =
     and_then (map_error (\<lambda>c. file_error (''read WAV header: '' @ c)) (read_exact file 0 RIFF_HEADER_SIZE_BYTES)) (\<lambda>(header, _).
       let declared = le (sub header 4 4) in
       if declared + RIFF_HEADER_SIZE_BYTES - 4 \<noteq> length file
       then Inl (unsupported (''RIFF size '' @ digits declared @ '' does not match the file size '' @ digits (length file)))
       else Inr ())"

text \<open>The whole inspection; \<open>normalise\<close> is the reading of the tags and \<open>validate\<close> of a cover.\<close>

definition wav_inspect ::
  "('t \<Rightarrow> failure + 'm) \<Rightarrow> (string \<Rightarrow> bytes \<Rightarrow> failure + album_artwork) \<Rightarrow> (string \<Rightarrow> string) \<Rightarrow> 't collector
    \<Rightarrow> (nat \<Rightarrow> bool) \<Rightarrow> reporter \<Rightarrow> bytes \<Rightarrow> failure + 'm \<times> album_artwork \<times> technical_audio" where
  "wav_inspect normalise validate quote collect cancel r file =
     and_then (check_riff file) (\<lambda>_.
     and_then (read_chunks quote collect file) (\<lambda>c.
       join_parts (normalise (chunk_tags c))
         (optional_artwork (front_cover_artwork validate (chunk_pictures c)))
         (decode_pcm cancel r file c)))"

subsection \<open>Lemmas\<close>

definition format_valid :: "wav_format \<Rightarrow> bool" where
  "format_valid f \<longleftrightarrow> 1 \<le> fmt_channels f \<and> fmt_channels f \<le> 8 \<and> 8000 \<le> fmt_rate f \<and> fmt_rate f \<le> 384000
     \<and> bits_per_sample f \<in> {8, 16, 24, 32} \<and> block_align f = fmt_channels f * (bits_per_sample f div 8)
     \<and> bytes_per_second f = fmt_rate f * block_align f \<and> valid_bits f \<le> bits_per_sample f"

text \<open>A data chunk at an offset of a file.\<close>

definition data_chunk_at :: "bytes \<Rightarrow> nat \<Rightarrow> nat \<Rightarrow> bool" where
  "data_chunk_at file at n \<longleftrightarrow> 20 \<le> at \<and> at + n \<le> length file
     \<and> sub file (at - 8) 4 = ascii ''data'' \<and> le (sub file (at - 4) 4) = n"

definition found_ok :: "bytes \<Rightarrow> 't found \<Rightarrow> bool" where
  "found_ok file st \<longleftrightarrow> (\<forall>f. found_format st = Some f \<longrightarrow> format_valid f)
     \<and> (\<forall>at n. found_data st = Some (at, n) \<longrightarrow> data_chunk_at file at n)"

lemma whole_bytes:
  fixes bits :: nat
  assumes "bits mod 8 = 0" and "8 \<le> bits" and "bits \<le> 32"
  shows "bits \<in> {8, 16, 24, 32}"
proof -
  from assms(1) obtain k where "bits = 8 * k" by (metis mod_0_imp_dvd dvdE)
  with assms(2,3) have "k = 1 \<or> k = 2 \<or> k = 3 \<or> k = 4" by auto
  with \<open>bits = 8 * k\<close> show ?thesis by auto
qed

lemma byte_rate_small:
  fixes rate align :: nat
  assumes "rate \<le> 384000" and "channels \<le> 8" and "bits \<le> 32" and "align = channels * (bits div 8)"
  shows "rate * align mod 2 ^ 32 = rate * align"
proof -
  have "bits div 8 \<le> 4" using assms(3) by simp
  then have "align \<le> 8 * 4" using assms(2) unfolding assms(4) by (rule mult_le_mono [rotated])
  then have "rate * align \<le> 384000 * 32" using assms(1) by (intro mult_le_mono) simp_all
  then show ?thesis by simp
qed

lemma validate_format_valid:
  assumes "validate_format f = Inr ()" and "audio_format f \<noteq> EXTENSIBLE \<Longrightarrow> valid_bits f = 0"
  shows "format_valid f"
proof -
  from assms(1) have v: "fmt_channels f \<noteq> 0" "fmt_channels f \<le> 8" "8000 \<le> fmt_rate f" "fmt_rate f \<le> 384000"
    "bits_per_sample f mod 8 = 0" "8 \<le> bits_per_sample f" "bits_per_sample f \<le> 32"
    "block_align f = fmt_channels f * (bits_per_sample f div 8)"
    "bytes_per_second f = fmt_rate f * block_align f mod 2 ^ 32"
    "audio_format f = EXTENSIBLE \<Longrightarrow> valid_bits f \<le> bits_per_sample f"
    by (simp_all add: validate_format_def and_then_Inr_iff Let_def not_less split: if_splits)
  show ?thesis
    unfolding format_valid_def
    using v(1-4,8,9,10) assms(2) whole_bytes [OF v(5-7)] byte_rate_small [OF v(4,2,7,8)]
    by (cases "audio_format f = EXTENSIBLE") simp_all
qed

lemma read_format_valid:
  assumes "read_format file pos n = Inr f"
  shows "format_valid f"
proof (rule validate_format_valid)
  show "validate_format f = Inr ()"
    using assms by (auto simp: read_format_def and_then_Inr_iff Let_def split: if_splits)
  show "valid_bits f = 0" if "audio_format f \<noteq> EXTENSIBLE"
    using assms that by (auto simp: read_format_def and_then_Inr_iff Let_def format_of_def split: if_splits)
qed

lemma read_body_found:
  assumes "read_body collect file tag at n st = Inr st'" and "found_ok file st"
    and "tag = ascii ''data'' \<Longrightarrow> data_chunk_at file at n"
  shows "found_ok file st'"
  using assms
  by (auto simp: read_body_def and_then_Inr_iff found_ok_def read_format_valid split: if_splits)

lemma chunk_header:
  assumes "12 \<le> offset" and "offset + 8 \<le> length file"
  shows "sub file (offset + 8 - 8) 4 = take 4 (sub file offset 8)"
    "sub file (offset + 8 - 4) 4 = sub (sub file offset 8) 4 4"
  using assms by (simp_all add: sub_def drop_take min_def add.commute)

lemma read_chunk_found:
  assumes "read_chunk quote collect file offset st = Inr (st', p)" and "found_ok file st" and "12 \<le> offset"
  shows "found_ok file st'"
proof -
  from assms(1) obtain h where h: "h = sub file offset 8" "offset + 8 \<le> length file"
    and n: "offset + 8 + le (sub h 4 4) \<le> length file"
    and b: "read_body collect file (take 4 h) (offset + 8) (le (sub h 4 4)) st = Inr st'"
    by (auto simp: read_chunk_def and_then_Inr_iff Let_def read_exact_Inr split: if_splits)
  show ?thesis
  proof (rule read_body_found [OF b assms(2)])
    assume "take 4 h = ascii ''data''"
    then show "data_chunk_at file (offset + 8) (le (sub h 4 4))"
      using chunk_header [OF assms(3) h(2)] n assms(3) by (simp add: data_chunk_at_def h(1))
  qed
qed

lemma walk_chunks_found:
  "walk_chunks quote collect f offset st = Inr st' \<Longrightarrow> found_ok f st \<Longrightarrow> 12 \<le> offset \<Longrightarrow> found_ok f st'"
proof (induction quote collect f offset st rule: walk_chunks.induct)
  case (1 quote collect f offset st)
  show ?case
  proof (cases "read_chunk quote collect f offset st")
    case (Inl e)
    with 1(2) show ?thesis by (subst (asm) walk_chunks.simps) simp
  next
    case (Inr r)
    obtain st1 p where r: "r = (st1, p)" by (cases r)
    note rc = Inr [unfolded r]
    have ok: "found_ok f st1" by (rule read_chunk_found [OF rc 1(3,4)])
    show ?thesis
    proof (cases "length f \<le> p")
      case True
      with 1(2) ok show ?thesis by (subst (asm) walk_chunks.simps) (simp add: rc)
    next
      case False
      have "walk_chunks quote collect f p st1 = Inr st'"
        using 1(2) False by (subst (asm) walk_chunks.simps) (simp add: rc)
      moreover have "12 \<le> p" using read_chunk_Inr [OF rc] 1(4) by simp
      ultimately show ?thesis using 1(1) [OF Inr r [symmetric] False] ok by simp
    qed
  qed
qed

lemma read_chunks_ok:
  assumes "read_chunks quote collect file = Inr c"
  shows "format_valid (chunk_format c)" "data_chunk_at file (data_offset c) (data_size c)" "0 < data_size c"
proof -
  from assms obtain st f at n v where w: "walk_chunks quote collect file 12
         \<lparr>found_format = None, found_data = None, found_id3 = None\<rparr> = Inr st"
    and f: "found_format st = Some f" "found_data st = Some (at, n)" "n \<noteq> 0"
    and c: "chunk_format c = f" "data_offset c = at" "data_size c = n"
    by (auto simp: read_chunks_def and_then_Inr_iff RIFF_HEADER_SIZE_BYTES_def split: option.splits if_splits)
  have "found_ok file st" by (rule walk_chunks_found [OF w]) (simp_all add: found_ok_def)
  with f c show "format_valid (chunk_format c)" "data_chunk_at file (data_offset c) (data_size c)" "0 < data_size c"
    by (simp_all add: found_ok_def)
qed

lemma read_samples_complete:
  assumes "data_offset c + data_size c \<le> length file" and "remaining \<le> data_size c"
    and "\<And>k. \<not> cancel k" and "\<And>p f. r = Some f \<Longrightarrow> f p = Inr ()"
  shows "read_samples cancel r file c remaining = Inr ()"
  using assms(2)
proof (induction remaining rule: less_induct)
  case (less remaining)
  define want where "want = min remaining (1024 * 1024)"
  have rf: "read_full file (data_offset c + (data_size c - remaining)) want = (want, None)"
    using less.prems assms(1) by (simp add: read_full_def want_def Let_def)
  have rp: "report r a b e d False = Inr ()" for a b e d
    using assms(4) by (simp add: report_def split: option.split)
  show ?case
  proof (cases "remaining = 0")
    case False
    then have "remaining - want < remaining" by (simp add: want_def)
    then have "read_samples cancel r file c (remaining - want) = Inr ()"
      using less by simp
    with False assms(3) show ?thesis
      by (subst read_samples.simps) (simp add: Let_def rf [unfolded want_def, simplified] rp want_def)
  qed (simp add: read_samples.simps)
qed

subsection \<open>Properties\<close>

text \<open>The numbers of an accepted WAV file are those of its bytes. The declared RIFF
  size is the file's, the format is integer PCM with one to eight channels, a legal rate
  and depth and a byte rate that is exactly the product of rate and block alignment, the
  samples lie inside the file behind a \<open>data\<close> header with their size and are whole frames,
  and the reported duration, depth and bitrate follow from them.\<close>

theorem wav_accepted:
  assumes "wav_inspect normalise validate quote collect cancel r file = Inr (m, art, audio)"
  shows "\<exists>c f. read_chunks quote collect file = Inr c \<and> f = chunk_format c
     \<and> le (sub file 4 4) + 8 = length file
     \<and> data_chunk_at file (data_offset c) (data_size c) \<and> format_valid f
     \<and> block_align f dvd data_size c
     \<and> duration_ms audio = int (data_size c div block_align f * 1000 div fmt_rate f) \<and> 0 < duration_ms audio
     \<and> sample_rate_hz audio = int (fmt_rate f) \<and> channel_count audio = int (fmt_channels f)
     \<and> 1 \<le> bit_depth audio \<and> bit_depth audio \<le> int (bits_per_sample f)
     \<and> bitrate_kbps audio = int ((fmt_rate f * block_align f * 8 + 500) div 1000)"
proof -
  from assms obtain c where ck: "check_riff file = Inr ()" and rc: "read_chunks quote collect file = Inr c"
    and d: "decode_pcm cancel r file c = Inr audio"
    by (auto simp: wav_inspect_def and_then_Inr_iff join_parts_Inr)
  define f where "f = chunk_format c"
  note ok = read_chunks_ok [OF rc]
  have v: "format_valid f" using ok(1) by (simp add: f_def)
  have size: "le (sub file 4 4) + 8 = length file"
    using ck by (auto simp: check_riff_def and_then_Inr_iff read_exact_Inr Let_def RIFF_HEADER_SIZE_BYTES_def
        sub_def drop_take split: if_splits)
  have a: "data_size c mod block_align f = 0"
    "duration_ms audio = int (data_size c div block_align f * 1000 div fmt_rate f)" "0 < duration_ms audio"
    "sample_rate_hz audio = int (fmt_rate f)" "channel_count audio = int (fmt_channels f)"
    "bit_depth audio = int (if 0 < valid_bits f then valid_bits f else bits_per_sample f)"
    "bitrate_kbps audio = int ((bytes_per_second f * 8 + 500) div 1000)"
    using d by (auto simp: decode_pcm_def Let_def and_then_Inr_iff f_def not_le split: if_splits)
  have b: "1 \<le> bit_depth audio" "bit_depth audio \<le> int (bits_per_sample f)"
    using a(6) v by (auto simp: format_valid_def)
  have k: "bitrate_kbps audio = int ((fmt_rate f * block_align f * 8 + 500) div 1000)"
    using a(7) v by (simp add: format_valid_def)
  have al: "block_align f dvd data_size c" using a(1) by (simp add: mod_0_imp_dvd)
  show ?thesis
    using rc f_def size ok(2) v al a(2-5) b k by blast
qed

text \<open>Once the chunks of a WAV file are accepted, reading the samples cannot run into
  the end of the file: an inspection nobody stops succeeds exactly when the samples are
  whole frames that last at least a millisecond.\<close>

theorem wav_decodes:
  assumes "read_chunks quote collect file = Inr c"
    and "\<And>k. \<not> cancel k" and "\<And>p f. r = Some f \<Longrightarrow> f p = Inr ()"
  shows "(\<exists>audio. decode_pcm cancel r file c = Inr audio)
     \<longleftrightarrow> block_align (chunk_format c) dvd data_size c
         \<and> fmt_rate (chunk_format c) \<le> data_size c div block_align (chunk_format c) * 1000"
proof -
  define f where "f = chunk_format c"
  note ok = read_chunks_ok [OF assms(1)]
  have v: "1 \<le> fmt_channels f" "8000 \<le> fmt_rate f" "bits_per_sample f \<in> {8, 16, 24, 32}"
    "block_align f = fmt_channels f * (bits_per_sample f div 8)" "bytes_per_second f = fmt_rate f * block_align f"
    using ok(1) by (simp_all add: format_valid_def f_def)
  have "1 * 1 \<le> fmt_channels f * (bits_per_sample f div 8)"
    using v(1,3) by (intro mult_le_mono) auto
  then have al: "1 \<le> block_align f" using v(4) by simp
  have "8000 * 1 \<le> bytes_per_second f" unfolding v(5) using v(2) al by (intro mult_le_mono)
  then have kb: "0 < (bytes_per_second f * 8 + 500) div 1000" by (simp add: div_greater_zero_iff)
  have s: "read_samples cancel r file c (data_size c) = Inr ()"
    using ok(2) assms(2,3) by (intro read_samples_complete) (simp_all add: data_chunk_at_def)
  have rp: "report r a b e d True = Inr ()" for a b e d
    using assms(3) by (simp add: report_def split: option.split)
  have ms: "0 < x div fmt_rate f \<longleftrightarrow> fmt_rate f \<le> x" for x
    using v(2) by (simp add: div_greater_zero_iff)
  show ?thesis
    using kb assms(2) ms [of "data_size c div block_align f * 1000"]
    by (auto simp: decode_pcm_def Let_def s rp f_def [symmetric] mod_eq_0_iff_dvd not_le
        simp del: div_greater_zero_iff split: if_splits)
qed

definition toy_wav :: bytes where
  "toy_wav =
    [0x52, 0x49, 0x46, 0x46, 66, 0, 0, 0, 0x57, 0x41, 0x56, 0x45,
     0x66, 0x6d, 0x74, 0x20, 16, 0, 0, 0, 1, 0, 1, 0, 0x40, 0x1f, 0, 0, 0x40, 0x1f, 0, 0, 1, 0, 8, 0,
     0x64, 0x61, 0x74, 0x61, 9, 0, 0, 0, 0, 1, 2, 3, 4, 5, 6, 7, 8, 0,
     0x49, 0x44, 0x33, 0x20, 11, 0, 0, 0, 0x49, 0x44, 0x33, 4, 0, 0, 0, 0, 0, 1, 0, 0]"

definition toy_collect :: "unit collector" where
  "toy_collect fs version = (((), []), [])"

definition toy_format :: wav_format where
  "toy_format = \<lparr>audio_format = 1, fmt_channels = 1, fmt_rate = 8000, bytes_per_second = 8000,
       block_align = 1, bits_per_sample = 8, cb_size = 0, valid_bits = 0, sub_format = replicate 16 0\<rparr>"

definition toy_chunks :: "unit chunks" where
  "toy_chunks = \<lparr>chunk_format = toy_format, data_offset = 44, data_size = 9, chunk_tags = (), chunk_pictures = []\<rparr>"

lemma toy_validate: "validate_format toy_format = Inr ()"
  by (simp add: validate_format_def toy_format_def EXTENSIBLE_def PCM_def)

lemma toy_format_read: "read_format toy_wav 20 16 = Inr toy_format"
  using toy_validate
  by (simp add: read_format_def FMT_MIN_SIZE_BYTES_def FMT_EXTENSIBLE_SIZE_BYTES_def FMT_WAVEFORMATEX_SIZE_BYTES_def
      read_exact_def toy_wav_def sub_def format_of_def le_def be_def Let_def EXTENSIBLE_def toy_format_def)

lemma toy_id3_read: "read_id3 toy_collect toy_wav 62 11 = Inr ((), [])"
  by (simp add: read_id3_def HEADER_SIZE_BYTES_def MAX_TAG_SIZE_BYTES_def read_exact_def toy_wav_def sub_def
      parse_header_def ascii_def decode_sync_safe_def parse_frames_def frames_from.simps header_size_def is_zero_def
      toy_collect_def into_result_def)

lemma toy_chunk:
  "found_format st = None \<Longrightarrow>
     read_chunk id toy_collect toy_wav 12 st = Inr (st\<lparr>found_format := Some toy_format\<rparr>, 36)"
  "found_data st = None \<Longrightarrow>
     read_chunk id toy_collect toy_wav 36 st = Inr (st\<lparr>found_data := Some (44, 9)\<rparr>, 54)"
  "found_id3 st = None \<Longrightarrow>
     read_chunk id toy_collect toy_wav 54 st = Inr (st\<lparr>found_id3 := Some ((), [])\<rparr>, 74)"
  using toy_format_read toy_id3_read
  by (simp_all add: read_chunk_def read_exact_def toy_wav_def sub_def le_def be_def Let_def read_body_def ascii_def)

lemma toy_wav_chunks: "read_chunks id toy_collect toy_wav = Inr toy_chunks"
proof -
  have n: "length toy_wav = 74" by (simp add: toy_wav_def)
  show ?thesis
    by (simp add: read_chunks_def RIFF_HEADER_SIZE_BYTES_def walk_chunks.simps [of _ _ _ 12]
        walk_chunks.simps [of _ _ _ 36] walk_chunks.simps [of _ _ _ 54] toy_chunk n toy_chunks_def)
qed

lemma toy_decode:
  "decode_pcm (\<lambda>_. False) None toy_wav toy_chunks
     = Inr \<lparr>format = ''wav'', container = ''wav'', codec = ''pcm_u8'', duration_ms = 1, sample_rate_hz = 8000,
         channel_count = 1, bit_depth = 8, bitrate_kbps = 64\<rparr>"
proof -
  have s: "read_samples (\<lambda>_. False) None toy_wav toy_chunks 9 = Inr ()"
    by (rule read_samples_complete) (simp_all add: toy_chunks_def toy_wav_def)
  show ?thesis
    using s by (simp add: decode_pcm_def toy_chunks_def toy_format_def report_def)
qed

theorem wav_decodes_witness:
  "(\<exists>audio. decode_pcm (\<lambda>_. False) None toy_wav toy_chunks = Inr audio)
     \<and> 1 dvd (9 :: nat) \<and> (8000 :: nat) \<le> 9 div 1 * 1000"
  using wav_decodes [OF toy_wav_chunks, of "\<lambda>_. False" None] by (simp add: toy_chunks_def toy_format_def)

theorem wav_accepted_witness:
  "\<exists>c f. read_chunks id toy_collect toy_wav = Inr c \<and> f = chunk_format c
     \<and> le (sub toy_wav 4 4) + 8 = length toy_wav
     \<and> data_chunk_at toy_wav (data_offset c) (data_size c) \<and> format_valid f"
proof -
  have "check_riff toy_wav = Inr ()"
    by (simp add: check_riff_def RIFF_HEADER_SIZE_BYTES_def read_exact_def toy_wav_def sub_def le_def be_def)
  then have "wav_inspect Inr (\<lambda>_ _. Inl []) id toy_collect (\<lambda>_. False) None toy_wav
      = Inr ((), artwork_default, \<lparr>format = ''wav'', container = ''wav'', codec = ''pcm_u8'', duration_ms = 1,
          sample_rate_hz = 8000, channel_count = 1, bit_depth = 8, bitrate_kbps = 64\<rparr>)"
    by (simp add: wav_inspect_def toy_wav_chunks toy_decode join_parts_Inr)
      (simp add: toy_chunks_def front_cover_artwork_def select_front_cover_def optional_artwork_def failure_first_def
        inspection_errors_def error_def map_filter_simps)
  from wav_accepted [OF this] show ?thesis by blast
qed

end
