(* ===== verification/Mp3_Inspector.thy ===== *)
theory Mp3_Inspector
  imports Wav_Inspector
begin

text \<open>
  The MP3 inspector (\<open>server/src/inspect/mp3.rs\<close>): frame headers, the walk over the
  frames, the trailing APEv2 and ID3v1 tags and the technical properties. The codec is the
  parameter \<open>dec\<close>: what it says of a packet after the packets before it. File offsets are
  unsigned 64-bit numbers; their subtraction wraps as it does in a release build (\<open>usub\<close>).
  The only way a read fails is the end of the file.
\<close>

subsection \<open>Tables\<close>

definition ID3V1_TAG_SIZE_BYTES :: nat where "ID3V1_TAG_SIZE_BYTES = 128"

definition BASE_SAMPLE_RATES :: "nat list" where
  "BASE_SAMPLE_RATES = [44100, 48000, 32000]"

definition MPEG1_BITRATES :: "nat list" where
  "MPEG1_BITRATES = [0, 32, 40, 48, 56, 64, 80, 96, 112, 128, 160, 192, 224, 256, 320]"

definition MPEG2_BITRATES :: "nat list" where
  "MPEG2_BITRATES = [0, 8, 16, 24, 32, 40, 48, 56, 64, 80, 96, 112, 128, 144, 160]"

definition MPEG_VERSION_2_5 :: nat where "MPEG_VERSION_2_5 = 0"
definition MPEG_VERSION_RESERVED :: nat where "MPEG_VERSION_RESERVED = 1"
definition MPEG_VERSION_2 :: nat where "MPEG_VERSION_2 = 2"
definition MPEG_VERSION_1 :: nat where "MPEG_VERSION_1 = 3"

definition APEV2_DESCRIPTOR_SIZE :: nat where "APEV2_DESCRIPTOR_SIZE = 32"
definition APEV2_HAS_HEADER :: "32 word" where "APEV2_HAS_HEADER = push_bit 31 1"
definition APEV2_IS_HEADER :: "32 word" where "APEV2_IS_HEADER = push_bit 29 1"
definition APEV2_ITEM_FLAGS :: "32 word" where "APEV2_ITEM_FLAGS = 7"
definition APEV2_MIN_ITEM_SIZE :: nat where "APEV2_MIN_ITEM_SIZE = 11"

definition usub :: "nat \<Rightarrow> nat \<Rightarrow> nat" where
  "usub a b = (a + 2 ^ 64 - b) mod 2 ^ 64"

lemma usub_le: "b \<le> a \<Longrightarrow> a < 2 ^ 64 \<Longrightarrow> usub a b = a - b"
  by (simp add: usub_def mod_if)

subsection \<open>Frame headers\<close>

record frame_header =
  go_mp3_unsupported :: bool
  header_rate :: nat
  header_channels :: nat
  frame_size :: nat
  header_samples :: nat

record mp3_stream =
  stream_rate :: nat
  stream_channels :: nat
  stream_samples :: nat
  encoded_bytes :: nat
  stream_frames :: "(nat \<times> nat) list"
  stream_unsupported :: bool

definition u32 :: "bytes \<Rightarrow> 32 word" where
  "u32 bs = of_nat (be bs)"

definition u32_le :: "bytes \<Rightarrow> 32 word" where
  "u32_le bs = of_nat (le bs)"

definition header_field :: "32 word \<Rightarrow> nat \<Rightarrow> 32 word \<Rightarrow> nat" where
  "header_field header shift msk = unat (and (drop_bit shift header) msk)"

definition sample_rate :: "nat \<Rightarrow> nat \<Rightarrow> nat" where
  "sample_rate version index =
     (let base = BASE_SAMPLE_RATES ! index in
      if version = MPEG_VERSION_2 then base div 2
      else if version = MPEG_VERSION_2_5 then base div 4
      else base)"

definition size_of_frame :: "nat \<Rightarrow> nat \<Rightarrow> nat \<Rightarrow> nat \<Rightarrow> nat" where
  "size_of_frame version bitrate_index sample_rate_index padding =
     (let (bitrate_kbps, coefficient) =
        (if version = MPEG_VERSION_1 then (MPEG1_BITRATES ! bitrate_index, 144) else (MPEG2_BITRATES ! bitrate_index, 72))
      in coefficient * bitrate_kbps * 1000 div sample_rate version sample_rate_index + padding)"

definition parse_frame_header :: "bytes \<Rightarrow> frame_header option" where
  "parse_frame_header data =
     (let header = u32 data;
          version = header_field header 19 3;
          layer = header_field header 17 3;
          bitrate_index = header_field header 12 15;
          sample_rate_index = header_field header 10 3
      in if and header 0xffe00000 \<noteq> 0xffe00000 \<or> version = MPEG_VERSION_RESERVED \<or> layer \<noteq> 1
            \<or> bitrate_index = 0 \<or> bitrate_index = 15 \<or> sample_rate_index = 3
         then None
         else Some \<lparr>go_mp3_unsupported = (version = MPEG_VERSION_2_5 \<or> header_field header 0 3 = 2),
               header_rate = sample_rate version sample_rate_index,
               header_channels = (if header_field header 6 3 = 3 then 1 else 2),
               frame_size = size_of_frame version bitrate_index sample_rate_index (header_field header 9 1),
               header_samples = (if version = MPEG_VERSION_1 then 1152 else 576)\<rparr>)"

subsection \<open>Trailing tags\<close>

text \<open>\<open>read_exact_at\<close>: a read at an offset that does not move the file.\<close>

definition read_exact_at :: "bytes \<Rightarrow> nat \<Rightarrow> nat \<Rightarrow> string + bytes" where
  "read_exact_at file offset n =
     (if n = 0 then Inr [] else and_then (read_exact file offset n) (\<lambda>(bs, _). Inr bs))"

definition audio_end :: "bytes \<Rightarrow> string + nat" where
  "audio_end file =
     (if length file < ID3V1_TAG_SIZE_BYTES then Inr (length file)
      else and_then (map_error (\<lambda>c. ''read ID3v1 signature: '' @ c)
          (read_exact_at file (length file - ID3V1_TAG_SIZE_BYTES) 3)) (\<lambda>signature.
        Inr (if signature = ascii ''TAG'' then length file - ID3V1_TAG_SIZE_BYTES else length file)))"

definition validate_apev2_descriptor :: "bytes \<Rightarrow> bool \<Rightarrow> string + unit" where
  "validate_apev2_descriptor data is_header =
     (let flags = u32_le (sub data 20 4);
          allowed = or (or APEV2_HAS_HEADER APEV2_IS_HEADER) APEV2_ITEM_FLAGS
      in if take 8 data \<noteq> ascii ''APETAGEX'' \<or> le (sub data 8 4) \<noteq> 2000
         then Inl ''APEv2 signature or version is invalid''
         else if and flags (not allowed) \<noteq> 0 \<or> (and flags APEV2_IS_HEADER \<noteq> 0) \<noteq> is_header
            \<or> and flags 6 = 6 \<or> list_ex (\<lambda>b. b \<noteq> 0) (drop 24 data)
         then Inl ''APEv2 flags or reserved bytes are invalid''
         else Inr ())"

text \<open>The key of an item: its position after the terminating zero.\<close>

function item_key :: "bytes \<Rightarrow> nat \<Rightarrow> nat \<Rightarrow> string + nat" where
  "item_key data pos n =
     (if length data \<le> pos then Inl ''APEv2 item key is truncated: EOF''
      else let b = data ! pos in
        if b = 0 \<and> 2 \<le> n then Inr (pos + 1)
        else if \<not> (32 \<le> unat b \<and> unat b \<le> 126) then Inl ''APEv2 item key is invalid''
        else if 255 < n + 1 then Inl ''APEv2 item key exceeds length limit''
        else item_key data (pos + 1) (n + 1))"
  by pat_completeness auto

termination
  by (relation "measure (\<lambda>(data, pos, _). length data - pos)") auto

declare item_key.simps [simp del]

fun apev2_items :: "bytes \<Rightarrow> nat \<Rightarrow> nat \<Rightarrow> string + nat" where
  "apev2_items data 0 pos = Inr pos"
| "apev2_items data (Suc k) pos =
     (if length data - pos < 8
      then Inl (''read APEv2 item header: '' @ (if length data = pos then ''EOF'' else ''unexpected EOF''))
      else let value_size = le (sub data pos 4); flags = u32_le (sub data (pos + 4) 4) in
        if and flags (not APEV2_ITEM_FLAGS) \<noteq> 0 \<or> and flags 6 = 6 then Inl ''APEv2 item flags are invalid''
        else and_then (item_key data (pos + 8) 0) (\<lambda>p.
          if length data - p < value_size then Inl ''APEv2 item exceeds tag boundaries: EOF''
          else apev2_items data k (p + value_size)))"

definition validate_apev2_items :: "bytes \<Rightarrow> bool \<Rightarrow> nat \<Rightarrow> nat \<Rightarrow> nat \<Rightarrow> string + unit" where
  "validate_apev2_items file is_cancelled offset n item_count =
     (if is_cancelled then Inl ''read APEv2 item header: context canceled''
      else and_then (map_error (\<lambda>c. ''read APEv2 item header: '' @ c) (read_exact_at file offset n)) (\<lambda>data.
        and_then (apev2_items data item_count 0) (\<lambda>pos.
          if pos \<noteq> length data then Inl ''APEv2 item count does not match tag size'' else Inr ())))"

text \<open>The header of a tag with the header flag cleared, as it is compared with the footer.\<close>

definition u32_bytes :: "32 word \<Rightarrow> bytes" where
  "u32_bytes w = to_le 4 (unat w)"

definition without_header_flag :: "bytes \<Rightarrow> bytes" where
  "without_header_flag header =
     take 20 header @ u32_bytes (and (u32_le (sub header 20 4)) (not APEV2_IS_HEADER)) @ drop 24 header"

definition apev2_header :: "bytes \<Rightarrow> nat \<Rightarrow> bytes \<Rightarrow> nat \<Rightarrow> string + nat" where
  "apev2_header file audio_offset footer start =
     (if start < audio_offset + APEV2_DESCRIPTOR_SIZE then Inl ''APEv2 header overlaps ID3 or audio start''
      else let at = start - APEV2_DESCRIPTOR_SIZE in
        and_then (map_error (\<lambda>c. ''read APEv2 header: '' @ c) (read_exact_at file at APEV2_DESCRIPTOR_SIZE)) (\<lambda>header.
        and_then (validate_apev2_descriptor header True) (\<lambda>_.
          if without_header_flag header \<noteq> footer then Inl ''APEv2 header and footer disagree'' else Inr at)))"

definition apev2_audio_end :: "bytes \<Rightarrow> bool \<Rightarrow> nat \<Rightarrow> nat \<Rightarrow> string + nat" where
  "apev2_audio_end file is_cancelled audio_offset stop =
     (if usub stop audio_offset < APEV2_DESCRIPTOR_SIZE then Inr stop
      else and_then (map_error (\<lambda>c. ''read APEv2 footer: '' @ c)
          (read_exact_at file (usub stop APEV2_DESCRIPTOR_SIZE) APEV2_DESCRIPTOR_SIZE)) (\<lambda>footer.
        if take 8 footer \<noteq> ascii ''APETAGEX'' then Inr stop
        else and_then (validate_apev2_descriptor footer False) (\<lambda>_.
          let n = le (sub footer 12 4); item_count = le (sub footer 16 4) in
          if n < APEV2_DESCRIPTOR_SIZE \<or> usub stop audio_offset < n
             \<or> (n - APEV2_DESCRIPTOR_SIZE) div APEV2_MIN_ITEM_SIZE < item_count
          then Inl ''APEv2 size or item count exceeds tag boundaries''
          else let start = usub stop n in
            and_then (validate_apev2_items file is_cancelled start (n - APEV2_DESCRIPTOR_SIZE) item_count) (\<lambda>_.
              if and (u32_le (sub footer 20 4)) APEV2_HAS_HEADER \<noteq> 0
              then apev2_header file audio_offset footer start
              else Inr start))))"

subsection \<open>Frames\<close>

definition add_frame :: "mp3_stream \<Rightarrow> nat \<Rightarrow> frame_header \<Rightarrow> failure + mp3_stream" where
  "add_frame st offset h =
     (if stream_samples st \<noteq> 0 \<and> (stream_rate st \<noteq> header_rate h \<or> stream_channels st \<noteq> header_channels h)
      then Inl (audio_error ''MP3 stream properties change between frames'')
      else Inr \<lparr>stream_rate = header_rate h, stream_channels = header_channels h,
          stream_samples = stream_samples st + header_samples h,
          encoded_bytes = encoded_bytes st + frame_size h,
          stream_frames = stream_frames st @ [(offset, frame_size h)],
          stream_unsupported = (stream_unsupported st \<or> go_mp3_unsupported h)\<rparr>)"

text \<open>A round of the loop at an offset before the end: the header is read, checked and added.\<close>

definition frame_at :: "bytes \<Rightarrow> nat \<Rightarrow> nat \<Rightarrow> mp3_stream \<Rightarrow> failure + mp3_stream \<times> nat" where
  "frame_at file stop offset st =
     and_then (map_error (\<lambda>c. audio_error (''read MP3 frame header: '' @ c)) (read_exact file offset 4)) (\<lambda>(header, _).
       case parse_frame_header header of
         None \<Rightarrow> Inl (audio_error ''MP3 frame is invalid or truncated'')
       | Some h \<Rightarrow>
           if \<not> frame_size h \<le> stop - offset then Inl (audio_error ''MP3 frame is invalid or truncated'')
           else and_then (add_frame st offset h) (\<lambda>st'. Inr (st', offset + frame_size h)))"

lemma mask_bound:
  "unat (and (x :: 32 word) 3) < 4" "unat (and (x :: 32 word) 15) < 16" "unat (and (x :: 32 word) 1) < 2"
proof -
  have "and x 3 \<le> 3" "and x 15 \<le> 15" "and x 1 \<le> 1" by (simp_all add: word_and_le1)
  then have "unat (and x 3) \<le> unat (3 :: 32 word)" "unat (and x 15) \<le> unat (15 :: 32 word)"
    "unat (and x 1) \<le> unat (1 :: 32 word)"
    by (simp_all only: word_le_nat_alt)
  then show "unat (and x 3) < 4" "unat (and x 15) < 16" "unat (and x 1) < 2" by simp_all
qed

lemma size_table:
  "list_all (\<lambda>v. list_all (\<lambda>b. list_all (\<lambda>s. 24 \<le> size_of_frame v b s 0 \<and> size_of_frame v b s 0 \<le> 1440
     \<and> 8000 \<le> sample_rate v s \<and> sample_rate v s \<le> 48000) [0, 1, 2])
     [1, 2, 3, 4, 5, 6, 7, 8, 9, 10, 11, 12, 13, 14]) [0, 2, 3]"
  by (simp add: size_of_frame_def sample_rate_def BASE_SAMPLE_RATES_def MPEG1_BITRATES_def MPEG2_BITRATES_def
      MPEG_VERSION_1_def MPEG_VERSION_2_def MPEG_VERSION_2_5_def)

lemma size_bounds:
  assumes "v \<in> {0, 2, 3}" and "0 < b" "b < 15" and "s < 3" and "p < 2"
  shows "24 \<le> size_of_frame v b s p" "size_of_frame v b s p \<le> 1441"
    "8000 \<le> sample_rate v s" "sample_rate v s \<le> 48000"
proof -
  have "b \<in> set [1, 2, 3, 4, 5, 6, 7, 8, 9, 10, 11, 12, 13, 14]"
    using assms(2,3) by simp presburger
  moreover have "v \<in> set [0, 2, 3]" "s \<in> set [0, 1, 2]" using assms(1,4) by auto
  ultimately have "24 \<le> size_of_frame v b s 0 \<and> size_of_frame v b s 0 \<le> 1440
      \<and> 8000 \<le> sample_rate v s \<and> sample_rate v s \<le> 48000"
    using size_table unfolding list_all_iff by blast
  moreover have "size_of_frame v b s p = size_of_frame v b s 0 + p"
    by (simp add: size_of_frame_def Let_def split: prod.split)
  ultimately show "24 \<le> size_of_frame v b s p" "size_of_frame v b s p \<le> 1441"
    "8000 \<le> sample_rate v s" "sample_rate v s \<le> 48000" using assms(5) by simp_all
qed

lemma parse_frame_header_bounds:
  assumes "parse_frame_header data = Some h"
  shows "24 \<le> frame_size h" "frame_size h \<le> 1441" "8000 \<le> header_rate h" "header_rate h \<le> 48000"
    "header_channels h \<in> {1, 2}" "header_samples h \<in> {576, 1152}"
proof -
  define w where "w = u32 data"
  define v where "v = header_field w 19 3"
  define b where "b = header_field w 12 15"
  define s where "s = header_field w 10 3"
  have c: "v \<noteq> 1" "b \<noteq> 0" "b \<noteq> 15" "s \<noteq> 3"
    and h: "header_rate h = sample_rate v s" "frame_size h = size_of_frame v b s (header_field w 9 1)"
      "header_channels h = (if header_field w 6 3 = 3 then 1 else 2)"
      "header_samples h = (if v = MPEG_VERSION_1 then 1152 else 576)"
    using assms unfolding parse_frame_header_def Let_def
    by (auto simp: v_def b_def s_def w_def MPEG_VERSION_RESERVED_def split: if_splits)
  have m: "v < 4" "b < 16" "s < 4" "header_field w 9 1 < 2"
    by (simp_all only: v_def b_def s_def header_field_def mask_bound)
  have r: "v \<in> {0, 2, 3}" "0 < b" "b < 15" "s < 3" using c m(1-3) by auto
  note sb = size_bounds [OF r m(4)]
  show "24 \<le> frame_size h" "frame_size h \<le> 1441" "8000 \<le> header_rate h" "header_rate h \<le> 48000"
    "header_channels h \<in> {1, 2}" "header_samples h \<in> {576, 1152}"
    using sb by (simp_all add: h)
qed

lemma frame_at_Inr:
  assumes "frame_at file stop offset st = Inr (st', p)"
  shows "offset + 24 \<le> p"
  using assms parse_frame_header_bounds(1)
  by (auto simp: frame_at_def and_then_Inr_iff split: option.splits if_splits)

function frames_loop :: "(nat \<Rightarrow> bool) \<Rightarrow> bytes \<Rightarrow> nat \<Rightarrow> nat \<Rightarrow> mp3_stream \<Rightarrow> failure + mp3_stream" where
  "frames_loop cancel file stop offset st =
     (if stop \<le> offset then Inr st
      else if cancel offset then Inl cancelled
      else (case frame_at file stop offset st of
          Inl f \<Rightarrow> Inl f
        | Inr (st', p) \<Rightarrow> frames_loop cancel file stop p st'))"
  by pat_completeness auto

termination
proof (relation "measure (\<lambda>(_, _, stop, offset, _). stop - offset)")
  fix cancel :: "nat \<Rightarrow> bool" and f stop offset st r st' and p :: nat
  assume "\<not> stop \<le> offset" and "frame_at f stop offset st = Inr r" and "(st', p) = r"
  then show "((cancel, f, stop, p, st'), (cancel, f, stop, offset, st)) \<in> measure (\<lambda>(_, _, stop, offset, _). stop - offset)"
    using frame_at_Inr [of f stop offset st st' p] by auto
qed simp

declare frames_loop.simps [simp del]

definition stream_empty :: mp3_stream where
  "stream_empty = \<lparr>stream_rate = 0, stream_channels = 0, stream_samples = 0, encoded_bytes = 0, stream_frames = [],
     stream_unsupported = False\<rparr>"

definition inspect_frames :: "bool \<Rightarrow> (nat \<Rightarrow> bool) \<Rightarrow> bytes \<Rightarrow> nat \<Rightarrow> failure + mp3_stream" where
  "inspect_frames cancel_tag cancel file audio_offset =
     and_then (map_error file_error (audio_end file)) (\<lambda>e.
     and_then (map_error (\<lambda>c. error InvalidMetadata ''APEv2'' c) (apev2_audio_end file cancel_tag audio_offset e)) (\<lambda>stop.
       if stop \<le> audio_offset then Inl (audio_error ''MP3 audio stream is empty'')
       else frames_loop cancel file stop audio_offset stream_empty))"

subsection \<open>Decoding\<close>

type_synonym codec = "bytes list \<Rightarrow> string + nat \<times> nat"

fun decode_frames ::
  "(nat \<Rightarrow> bool) \<Rightarrow> reporter \<Rightarrow> codec \<Rightarrow> bytes \<Rightarrow> mp3_stream \<Rightarrow> (nat \<times> nat) list \<Rightarrow> bytes list \<Rightarrow> nat \<Rightarrow> failure + nat" where
  "decode_frames cancel r dec file st [] packets decoded = Inr decoded"
| "decode_frames cancel r dec file st ((offset, n) # fs) packets decoded =
     (if cancel offset then Inl cancelled
      else and_then (map_error audio_error (read_exact_at file offset n)) (\<lambda>packet.
        and_then (map_error audio_error (dec (packets @ [packet]))) (\<lambda>(rate, samples).
          if rate \<noteq> stream_rate st
          then Inl (audio_error ''decoded MP3 sample count or sample rate is inconsistent'')
          else and_then (report r (decoded + samples) (stream_samples st) 0 0 False) (\<lambda>_.
            decode_frames cancel r dec file st fs (packets @ [packet]) (decoded + samples)))))"

definition decode :: "(nat \<Rightarrow> bool) \<Rightarrow> reporter \<Rightarrow> string + codec \<Rightarrow> bytes \<Rightarrow> mp3_stream \<Rightarrow> failure + technical_audio" where
  "decode cancel r new_decoder file st =
     and_then (map_error audio_error new_decoder) (\<lambda>dec.
       if stream_unsupported st
       then Inl (audio_error ''MPEG 2.5 or reserved-emphasis frames are not supported'')
       else and_then (decode_frames cancel r dec file st (stream_frames st) [] 0) (\<lambda>decoded.
         and_then (report r decoded (stream_samples st) 0 0 True) (\<lambda>_.
           let ms = int (decoded * 1000 div stream_rate st);
               kbps = (if 0 < ms then (int (encoded_bytes st) * 8 + ms div 2) div ms else 0)
           in if decoded \<noteq> stream_samples st
              then Inl (audio_error ''decoded MP3 sample count or sample rate is inconsistent'')
              else if ms \<le> 0 \<or> kbps \<le> 0 then Inl (audio_error ''decoded MP3 technical properties are invalid'')
              else Inr \<lparr>format = ''mp3'', container = ''mp3'', codec = ''mp3'', duration_ms = ms,
                  sample_rate_hz = int (stream_rate st), channel_count = int (stream_channels st),
                  bit_depth = 0, bitrate_kbps = kbps\<rparr>)))"

subsection \<open>Lemmas\<close>

text \<open>Frames that lie end to end between two offsets.\<close>

fun tiles :: "nat \<Rightarrow> (nat \<times> nat) list \<Rightarrow> nat \<Rightarrow> bool" where
  "tiles a [] b \<longleftrightarrow> a = b"
| "tiles a ((offset, n) # fs) b \<longleftrightarrow> offset = a \<and> tiles (a + n) fs b"

definition frame_valid :: "bytes \<Rightarrow> mp3_stream \<Rightarrow> nat \<times> nat \<Rightarrow> bool" where
  "frame_valid file st f \<longleftrightarrow>
     (case parse_frame_header (sub file (fst f) 4) of
        None \<Rightarrow> False
      | Some h \<Rightarrow> frame_size h = snd f \<and> header_rate h = stream_rate st \<and> header_channels h = stream_channels st)"

definition samples_at :: "bytes \<Rightarrow> nat \<times> nat \<Rightarrow> nat" where
  "samples_at file f = (case parse_frame_header (sub file (fst f) 4) of None \<Rightarrow> 0 | Some h \<Rightarrow> header_samples h)"

definition stream_ok :: "bytes \<Rightarrow> nat \<Rightarrow> nat \<Rightarrow> mp3_stream \<Rightarrow> bool" where
  "stream_ok file audio_offset offset st \<longleftrightarrow> audio_offset \<le> offset
     \<and> tiles audio_offset (stream_frames st) offset \<and> encoded_bytes st = offset - audio_offset
     \<and> list_all (frame_valid file st) (stream_frames st)
     \<and> stream_samples st = sum_list (map (samples_at file) (stream_frames st))"

lemma tiles_snoc: "tiles a (fs @ [(b, n)]) c \<longleftrightarrow> tiles a fs b \<and> c = b + n"
  by (induction a fs b rule: tiles.induct) auto

lemma samples_zero:
  assumes "list_all (frame_valid file st) fs" and "sum_list (map (samples_at file) fs) = 0"
  shows "fs = []"
proof (rule ccontr)
  assume "fs \<noteq> []"
  then obtain f where f: "f \<in> set fs" by (cases fs) auto
  then have "frame_valid file st f" using assms(1) by (simp add: list_all_iff)
  then have "samples_at file f \<noteq> 0"
    using parse_frame_header_bounds(6) by (fastforce simp: frame_valid_def samples_at_def split: option.splits)
  then show False using f assms(2) by (simp add: sum_list_eq_0_iff)
qed

lemma frame_at_ok:
  assumes "frame_at file stop offset st = Inr (st', p)" and "stream_ok file a offset st" and "offset < stop"
  shows "stream_ok file a p st' \<and> p \<le> stop"
proof -
  from assms(1) obtain h where h: "parse_frame_header (sub file offset 4) = Some h" "frame_size h \<le> stop - offset"
    "p = offset + frame_size h" and add: "add_frame st offset h = Inr st'"
    by (auto simp: frame_at_def and_then_Inr_iff read_exact_Inr split: option.splits if_splits)
  note ok = assms(2) [unfolded stream_ok_def]
  have same: "stream_frames st = [] \<or> stream_rate st = header_rate h \<and> stream_channels st = header_channels h"
    using add samples_zero [of _ st "stream_frames st"] ok by (auto simp: add_frame_def split: if_splits)
  have st': "st' = \<lparr>stream_rate = header_rate h, stream_channels = header_channels h,
      stream_samples = stream_samples st + header_samples h, encoded_bytes = encoded_bytes st + frame_size h,
      stream_frames = stream_frames st @ [(offset, frame_size h)],
      stream_unsupported = (stream_unsupported st \<or> go_mp3_unsupported h)\<rparr>"
    using add by (simp add: add_frame_def split: if_splits)
  have old: "list_all (frame_valid file st') (stream_frames st)"
  proof -
    have "frame_valid file st' f = frame_valid file st f"
      if "stream_rate st = header_rate h" "stream_channels st = header_channels h" for f
      using that by (simp add: st' frame_valid_def split: option.split)
    with same ok show ?thesis by (auto simp: list_all_iff)
  qed
  have new: "frame_valid file st' (offset, frame_size h)" by (simp add: frame_valid_def h(1) st')
  have fr: "stream_frames st' = stream_frames st @ [(offset, frame_size h)]"
    "stream_samples st' = stream_samples st + header_samples h" "encoded_bytes st' = encoded_bytes st + frame_size h"
    by (simp_all add: st')
  show ?thesis
    using ok h assms(3) old new by (simp add: stream_ok_def fr tiles_snoc samples_at_def)
qed

lemma frames_loop_ok:
  "frames_loop cancel f stop offset st = Inr st' \<Longrightarrow> stream_ok f a offset st \<Longrightarrow> offset \<le> stop \<Longrightarrow> stream_ok f a stop st'"
proof (induction cancel f stop offset st rule: frames_loop.induct)
  case (1 cancel f stop offset st)
  show ?case
  proof (cases "stop \<le> offset")
    case True
    with 1(2-4) show ?thesis by (subst (asm) frames_loop.simps) simp
  next
    case False
    from 1(2) False obtain st1 p where r: "frame_at f stop offset st = Inr (st1, p)"
      and c: "\<not> cancel offset" and n: "frames_loop cancel f stop p st1 = Inr st'"
      by (subst (asm) frames_loop.simps) (auto split: if_splits sum.splits)
    have "stream_ok f a p st1 \<and> p \<le> stop"
      using frame_at_ok [OF r 1(3)] False by simp
    with 1(1) [OF False c r refl n] show ?thesis by simp
  qed
qed

lemma audio_end_le: "audio_end file = Inr e \<Longrightarrow> e \<le> length file"
  by (auto simp: audio_end_def and_then_Inr_iff split: if_splits)

lemma read_exact_at_Inr: "read_exact_at file p n = Inr bs \<Longrightarrow> n = 0 \<or> p + n \<le> length file"
  by (auto simp: read_exact_at_def and_then_Inr_iff read_exact_Inr split: if_splits)

lemma apev2_end_le:
  assumes "apev2_audio_end file is_cancelled off e = Inr stop" and "e \<le> length file" and "length file < 2 ^ 64"
  shows "stop \<le> e"
proof (cases "stop = e")
  case False
  with assms(1) obtain footer n k where f: "read_exact_at file (usub e 32) 32 = Inr footer"
    and n: "n = le (sub footer 12 4)" "32 \<le> n"
    and items: "validate_apev2_items file is_cancelled (usub e n) (n - 32) k = Inr ()"
    and stop: "stop \<le> usub e n"
    by (auto simp: apev2_audio_end_def APEV2_DESCRIPTOR_SIZE_def apev2_header_def and_then_Inr_iff Let_def
        split: if_splits)
  have e: "32 \<le> e"
  proof (rule ccontr)
    assume "\<not> 32 \<le> e"
    then have "usub e 32 = e + 2 ^ 64 - 32" by (simp add: usub_def)
    with read_exact_at_Inr [OF f] assms(3) show False by simp
  qed
  have b: "n < 2 ^ 32" using sub_bound(2) [of footer 12 4] n(1) by simp
  have "n \<le> e"
  proof (rule ccontr)
    assume c: "\<not> n \<le> e"
    with b have u: "usub e n = e + 2 ^ 64 - n" by (simp add: usub_def)
    from items obtain data where "read_exact_at file (usub e n) (n - 32) = Inr data"
      by (auto simp: validate_apev2_items_def and_then_Inr_iff split: if_splits)
    from read_exact_at_Inr [OF this] show False using u c e n(2) b assms(3) by simp
  qed
  with usub_le [of n e] stop assms(2,3) show ?thesis by simp
qed simp

subsection \<open>Properties\<close>

text \<open>C37: The frames of an accepted MP3 stream cover its audio without gap or overlap.
  The audio runs from the end of the ID3v2 tag to a point inside the file, before any
  ID3v1 trailer; the recorded frames lie end to end from its first byte to its last,
  each starting with a valid header of exactly that length, all with one sample rate and
  channel count; and the sample and byte totals are the sums over the frames. This holds
  although a trailer that starts inside the ID3v2 tag makes the offsets wrap around.\<close>

theorem mp3_frames_tile:
  assumes "inspect_frames cancel_tag cancel file audio_offset = Inr st" and "length file < 2 ^ 64"
  shows "\<exists>e stop. audio_end file = Inr e \<and> audio_offset < stop \<and> stop \<le> e \<and> e \<le> length file
     \<and> tiles audio_offset (stream_frames st) stop \<and> encoded_bytes st = stop - audio_offset
     \<and> list_all (frame_valid file st) (stream_frames st)
     \<and> list_all (\<lambda>f. 24 \<le> snd f \<and> snd f \<le> 1441) (stream_frames st)
     \<and> stream_samples st = sum_list (map (samples_at file) (stream_frames st))"
proof -
  from assms(1) obtain e stop where e: "audio_end file = Inr e"
    and a: "apev2_audio_end file cancel_tag audio_offset e = Inr stop" and l: "audio_offset < stop"
    and s: "frames_loop cancel file stop audio_offset stream_empty = Inr st"
    by (auto simp: inspect_frames_def and_then_Inr_iff not_le split: if_splits)
  have "stream_ok file audio_offset stop st"
    using l by (intro frames_loop_ok [OF s]) (simp_all add: stream_ok_def stream_empty_def)
  moreover have "24 \<le> snd f \<and> snd f \<le> 1441" if "frame_valid file st f" for f
    using that by (auto simp: frame_valid_def dest: parse_frame_header_bounds(1,2) split: option.splits)
  ultimately show ?thesis
    using e l audio_end_le [OF e] apev2_end_le [OF a audio_end_le [OF e] assms(2)]
    by (auto simp: stream_ok_def list_all_iff)
qed

text \<open>A packet of audio: a header that parses, as long as it says, with given properties.\<close>

definition packet_ok :: "nat \<Rightarrow> nat \<Rightarrow> bytes \<Rightarrow> bool" where
  "packet_ok rate channels p \<longleftrightarrow>
     (case parse_frame_header (take 4 p) of
        None \<Rightarrow> False
      | Some h \<Rightarrow> frame_size h = length p \<and> header_rate h = rate \<and> header_channels h = channels)"

fun frames_of :: "nat \<Rightarrow> bytes list \<Rightarrow> (nat \<times> nat) list" where
  "frames_of offset [] = []"
| "frames_of offset (p # ps) = (offset, length p) # frames_of (offset + length p) ps"

lemma frames_loop_packets:
  assumes "list_all (packet_ok rate channels) ps" and "\<And>k. \<not> cancel k"
    and "stream_samples st \<noteq> 0 \<Longrightarrow> stream_rate st = rate \<and> stream_channels st = channels"
  shows "\<exists>st'. frames_loop cancel (pre @ concat ps @ suf) (length pre + length (concat ps)) (length pre) st = Inr st'
     \<and> stream_frames st' = stream_frames st @ frames_of (length pre) ps"
  using assms(1,3)
proof (induction ps arbitrary: pre st)
  case Nil
  show ?case by (subst frames_loop.simps) simp
next
  case (Cons p ps)
  let ?file = "pre @ p @ concat ps @ suf"
  let ?stop = "length pre + (length p + length (concat ps))"
  from Cons.prems(1) obtain h where h: "parse_frame_header (take 4 p) = Some h" "frame_size h = length p"
    "header_rate h = rate" "header_channels h = channels"
    by (auto simp: packet_ok_def split: option.splits)
  have n: "24 \<le> length p" "header_samples h \<noteq> 0"
    using parse_frame_header_bounds(1,6) [OF h(1)] h(2) by auto
  have r: "read_exact ?file (length pre) 4 = Inr (take 4 p, length pre + 4)"
    using n by (simp add: read_exact_def sub_def)
  obtain st1 where st1: "add_frame st (length pre) h = Inr st1" "stream_rate st1 = rate" "stream_channels st1 = channels"
    "stream_frames st1 = stream_frames st @ [(length pre, length p)]"
    using Cons.prems(2) h by (cases "stream_samples st = 0") (auto simp: add_frame_def)
  have at: "frame_at ?file ?stop (length pre) st = Inr (st1, length pre + length p)"
    by (simp add: frame_at_def r h st1(1))
  obtain st' where "frames_loop cancel ?file ?stop (length pre + length p) st1 = Inr st'"
    "stream_frames st' = stream_frames st1 @ frames_of (length pre + length p) ps"
    using Cons.IH [of st1 "pre @ p"] Cons.prems(1) st1(2,3) by (auto simp: add.assoc)
  moreover have "frames_loop cancel ?file ?stop (length pre) st = frames_loop cancel ?file ?stop (length pre + length p) st1"
    using n assms(2) by (subst frames_loop.simps) (auto simp: at)
  ultimately show ?case using st1(4) by simp
qed

text \<open>A well-formed MP3 stream is never turned down. Whatever the bytes of the tag,
  an audio part made of complete frames with one sample rate and channel count, with
  nothing that looks like an APEv2 or ID3v1 tag at its end, is walked to its end when
  nobody cancels, and the recorded frames are exactly those of the audio.\<close>

theorem mp3_frames_complete:
  assumes "list_all (packet_ok rate channels) ps" and "ps \<noteq> []"
    and "audio_end (tag @ concat ps) = Inr (length (tag @ concat ps))"
    and "sub (tag @ concat ps) (length (tag @ concat ps) - 32) 8 \<noteq> ascii ''APETAGEX''"
    and "length (tag @ concat ps) < 2 ^ 64" and "\<And>k. \<not> cancel k"
  shows "\<exists>st. inspect_frames cancel_tag cancel (tag @ concat ps) (length tag) = Inr st
     \<and> stream_frames st = frames_of (length tag) ps"
proof -
  let ?file = "tag @ concat ps"
  obtain p qs where p: "ps = p # qs" using assms(2) by (cases ps) auto
  have "24 \<le> length p"
    using assms(1) parse_frame_header_bounds(1) by (fastforce simp: p packet_ok_def split: option.splits)
  then have l: "length tag < length ?file" by (auto simp: p)
  have u: "usub (length ?file) (length tag) = length (concat ps)"
    using usub_le [of "length tag" "length ?file"] assms(5) by simp
  have "apev2_audio_end ?file cancel_tag (length tag) (length ?file) = Inr (length ?file)"
  proof (cases "length (concat ps) < 32")
    case True
    then show ?thesis using u by (simp add: apev2_audio_end_def APEV2_DESCRIPTOR_SIZE_def)
  next
    case False
    then have v: "usub (length ?file) 32 = length ?file - 32"
      using usub_le [of 32 "length ?file"] assms(5) by simp
    have r: "read_exact_at ?file (length ?file - 32) 32 = Inr (sub ?file (length ?file - 32) 32)"
      using False by (simp add: read_exact_at_def read_exact_def)
    have "take 8 (sub ?file (length ?file - 32) 32) \<noteq> ascii ''APETAGEX''"
      using assms(4) by (simp add: sub_def)
    with False show ?thesis
      unfolding apev2_audio_end_def APEV2_DESCRIPTOR_SIZE_def u v r by simp
  qed
  moreover obtain st where "frames_loop cancel ?file (length ?file) (length tag) stream_empty = Inr st"
    "stream_frames st = frames_of (length tag) ps"
    using frames_loop_packets [where cancel = cancel and st = stream_empty and pre = tag and suf = "[]", OF assms(1,6)] by (auto simp: stream_empty_def)
  ultimately show ?thesis
    using l assms(3) by (auto simp: inspect_frames_def)
qed

definition toy_packet :: bytes where
  "toy_packet = [0xff, 0xf3, 0x14, 0xc0, 0, 0, 0, 0, 0, 0, 0, 0, 0, 0, 0, 0, 0, 0, 0, 0, 0, 0, 0, 0]"

lemma toy_header:
  "parse_frame_header [0xff, 0xf3, 0x14, 0xc0] = Some \<lparr>go_mp3_unsupported = False, header_rate = 24000,
     header_channels = 1, frame_size = 24, header_samples = 576\<rparr>"
  by (simp add: parse_frame_header_def u32_def be_def header_field_def drop_bit_eq_div MPEG_VERSION_1_def MPEG_VERSION_2_def
      MPEG_VERSION_2_5_def MPEG_VERSION_RESERVED_def sample_rate_def size_of_frame_def BASE_SAMPLE_RATES_def
      MPEG2_BITRATES_def)

lemma toy_packet_ok: "list_all (packet_ok 24000 1) [toy_packet, toy_packet]"
  using toy_header by (simp add: packet_ok_def toy_packet_def)

lemma toy_end: "audio_end ([0, 0] @ concat [toy_packet, toy_packet]) = Inr 50"
  by (simp add: audio_end_def ID3V1_TAG_SIZE_BYTES_def toy_packet_def)

lemma toy_packet_length: "length toy_packet = 24"
  by (simp add: toy_packet_def)

lemma toy_no_ape: "sub ([0, 0] @ concat [toy_packet, toy_packet]) (50 - 32) 8 \<noteq> ascii ''APETAGEX''"
  by (simp add: toy_packet_def sub_def ascii_def)

theorem mp3_frames_complete_witness:
  "\<exists>st. inspect_frames False (\<lambda>_. False) ([0, 0] @ concat [toy_packet, toy_packet]) 2 = Inr st
     \<and> stream_frames st = [(2, 24), (26, 24)]"
  using mp3_frames_complete [OF toy_packet_ok, of "[0, 0]" "\<lambda>_. False" False] toy_end toy_no_ape
  by (simp add: toy_packet_length) (simp add: numeral_2_eq_2)

lemma toy_inspect:
  "inspect_frames False (\<lambda>_. False) ([0, 0] @ concat [toy_packet, toy_packet]) 2 = Inr
     \<lparr>stream_rate = 24000, stream_channels = 1, stream_samples = 1152, encoded_bytes = 48,
      stream_frames = [(2, 24), (26, 24)], stream_unsupported = False\<rparr>"
proof -
  let ?f = "[0, 0] @ concat [toy_packet, toy_packet]"
  have a: "apev2_audio_end ?f False 2 50 = Inr 50"
    by (simp add: apev2_audio_end_def usub_def APEV2_DESCRIPTOR_SIZE_def read_exact_at_def read_exact_def toy_packet_def
        sub_def ascii_def)
  have f: "frame_at ?f 50 2 st = and_then (add_frame st 2 (the (parse_frame_header [0xff, 0xf3, 0x14, 0xc0]))) (\<lambda>st'. Inr (st', 26))"
    "frame_at ?f 50 26 st = and_then (add_frame st 26 (the (parse_frame_header [0xff, 0xf3, 0x14, 0xc0]))) (\<lambda>st'. Inr (st', 50))" for st
    using toy_header by (simp_all add: frame_at_def read_exact_def toy_packet_def sub_def)
  show ?thesis
    unfolding inspect_frames_def toy_end
    by (simp only: a map_error_simps and_then_simps)
      (simp add: frames_loop.simps [of _ _ 50] f [unfolded concat.simps append.simps append_Nil2] toy_header add_frame_def stream_empty_def)
qed

theorem mp3_frames_tile_witness:
  "\<exists>e stop. audio_end ([0, 0] @ concat [toy_packet, toy_packet]) = Inr e \<and> 2 < stop \<and> stop \<le> e \<and> tiles 2 [(2, 24), (26, 24)] stop"
  using mp3_frames_tile [OF toy_inspect] by (auto simp: toy_packet_def)

end
