(* ===== verification/Edit_Distance.thy ===== *)
theory Edit_Distance
  imports Main
begin

text \<open>
  The typo distance of Library Search (\<open>edit_distance\<close> in
  \<open>server/src/modules/search/rank.rs\<close>): the three rows of the dynamic program as the code
  keeps them, and what they compute, the least number of edits of an alignment. A word is a
  list of characters of any type.
\<close>

subsection \<open>The dynamic program\<close>

definition abs_diff :: "nat \<Rightarrow> nat \<Rightarrow> nat" where
  "abs_diff a b = (if a < b then b - a else a - b)"

text \<open>One cell, from the three rows: \<open>i\<close> and \<open>j\<close> count from one.\<close>

definition cell :: "'c list \<Rightarrow> 'c list \<Rightarrow> nat list \<Rightarrow> nat list \<Rightarrow> nat list \<Rightarrow> nat \<Rightarrow> nat \<Rightarrow> nat" where
  "cell left right older previous current i j =
     (let cost = (if left ! (i - 1) \<noteq> right ! (j - 1) then 1 else 0);
          v = min (min (previous ! j + 1) (current ! (j - 1) + 1)) (previous ! (j - 1) + cost)
      in if 1 < i \<and> 1 < j \<and> left ! (i - 1) = right ! (j - 2) \<and> left ! (i - 2) = right ! (j - 1)
         then min v (older ! (j - 2) + 1) else v)"

definition fill_row :: "'c list \<Rightarrow> 'c list \<Rightarrow> nat list \<Rightarrow> nat list \<Rightarrow> nat list \<Rightarrow> nat \<Rightarrow> nat list" where
  "fill_row left right older previous current i =
     foldl (\<lambda>cur j. cur[j := cell left right older previous cur i j]) (current[0 := i]) [1..<length right + 1]"

definition next_rows ::
  "'c list \<Rightarrow> 'c list \<Rightarrow> nat list \<times> nat list \<times> nat list \<Rightarrow> nat \<Rightarrow> nat list \<times> nat list \<times> nat list" where
  "next_rows left right rows i =
     (case rows of (older, previous, current) \<Rightarrow>
        (previous, fill_row left right older previous current i, older))"

definition edit_distance :: "'c list \<Rightarrow> 'c list \<Rightarrow> nat \<Rightarrow> nat" where
  "edit_distance left right limit =
     (if left = right then 0
      else if limit = 0 then 1
      else if limit < abs_diff (length left) (length right) then limit + 1
      else let width = length right + 1;
               (older, previous, current) = foldl (next_rows left right)
                 (replicate width 0, [0..<width], replicate width 0) [1..<length left + 1]
        in previous ! length right)"

subsection \<open>Alignments\<close>

text \<open>
  An alignment of two words, built from their ends: characters are kept, replaced, removed,
  inserted, or two neighbours change places. The number counts the edits.
\<close>

inductive alignment :: "'c list \<Rightarrow> 'c list \<Rightarrow> nat \<Rightarrow> bool" where
  nothing: "alignment [] [] 0"
| keep: "alignment xs ys n \<Longrightarrow> alignment (xs @ [c]) (ys @ [c]) n"
| replace: "alignment xs ys n \<Longrightarrow> alignment (xs @ [c]) (ys @ [d]) (Suc n)"
| remove: "alignment xs ys n \<Longrightarrow> alignment (xs @ [c]) ys (Suc n)"
| insert: "alignment xs ys n \<Longrightarrow> alignment xs (ys @ [d]) (Suc n)"
| swap: "alignment xs ys n \<Longrightarrow> alignment (xs @ [c, d]) (ys @ [d, c]) (Suc n)"

text \<open>The recurrence the rows tabulate, on the lengths of two prefixes.\<close>

fun dist :: "'c list \<Rightarrow> 'c list \<Rightarrow> nat \<Rightarrow> nat \<Rightarrow> nat" where
  "dist left right 0 j = j"
| "dist left right (Suc i) 0 = Suc i"
| "dist left right (Suc i) (Suc j) =
     (let v = min (min (dist left right i (Suc j) + 1) (dist left right (Suc i) j + 1))
           (dist left right i j + (if left ! i \<noteq> right ! j then 1 else 0))
      in if 0 < i \<and> 0 < j \<and> left ! i = right ! (j - 1) \<and> left ! (i - 1) = right ! j
         then min v (dist left right (i - 1) (j - 1) + 1) else v)"

lemma alignment_prefixes: "alignment (take i []) (take j right) j" if "j \<le> length right"
  using that
proof (induction j)
  case 0
  show ?case by (simp add: alignment.nothing)
next
  case (Suc j)
  then have "alignment [] (take j right @ [right ! j]) (Suc j)" by (intro alignment.insert) simp
  with Suc.prems show ?case by (simp add: take_Suc_conv_app_nth)
qed

lemma alignment_removed: "i \<le> length left \<Longrightarrow> alignment (take i left) [] i"
proof (induction i)
  case 0
  show ?case by (simp add: alignment.nothing)
next
  case (Suc i)
  then have "alignment (take i left @ [left ! i]) [] (Suc i)" by (intro alignment.remove) simp
  with Suc.prems show ?case by (simp add: take_Suc_conv_app_nth)
qed

lemma take_two: "0 < i \<Longrightarrow> i < length xs \<Longrightarrow> take (Suc i) xs = take (i - 1) xs @ [xs ! (i - 1), xs ! i]"
  by (cases i) (simp_all add: take_Suc_conv_app_nth)

lemma alignment_min: "alignment xs ys m \<Longrightarrow> alignment xs ys n \<Longrightarrow> alignment xs ys (min m n)"
  by (simp add: min_def)

lemma dist_alignment:
  "i \<le> length left \<Longrightarrow> j \<le> length right \<Longrightarrow> alignment (take i left) (take j right) (dist left right i j)"
proof (induction left right i j rule: dist.induct)
  case (1 left right j)
  then show ?case using alignment_prefixes [of j right 0] by simp
next
  case (2 left right i)
  then show ?case using alignment_removed [of "Suc i" left] by simp
next
  case (3 left right i j)
  let ?d = "dist left right"
  have tl: "take (Suc i) left = take i left @ [left ! i]" "take (Suc j) right = take j right @ [right ! j]"
    using 3(5,6) by (simp_all add: take_Suc_conv_app_nth)
  have a: "alignment (take (Suc i) left) (take (Suc j) right) (?d i (Suc j) + 1)"
    using 3(1,5,6) by (simp add: tl(1) alignment.remove)
  have b: "alignment (take (Suc i) left) (take (Suc j) right) (?d (Suc i) j + 1)"
    using 3(2,5,6) by (simp add: tl(2) alignment.insert)
  have c: "alignment (take (Suc i) left) (take (Suc j) right) (?d i j + (if left ! i \<noteq> right ! j then 1 else 0))"
    using 3(3,5,6) by (auto simp: tl intro: alignment.keep alignment.replace)
  let ?v = "min (min (?d i (Suc j) + 1) (?d (Suc i) j + 1)) (?d i j + (if left ! i \<noteq> right ! j then 1 else 0))"
  have v: "alignment (take (Suc i) left) (take (Suc j) right) ?v"
    by (intro alignment_min a b c)
  show ?case
  proof (cases "0 < i \<and> 0 < j \<and> left ! i = right ! (j - 1) \<and> left ! (i - 1) = right ! j")
    case True
    have "alignment (take (i - 1) left) (take (j - 1) right) (?d (i - 1) (j - 1))"
      using 3(4) [OF refl True] 3(5,6) by simp
    then have "alignment (take (i - 1) left @ [left ! (i - 1), left ! i]) (take (j - 1) right @ [left ! i, left ! (i - 1)])
        (Suc (?d (i - 1) (j - 1)))"
      by (rule alignment.swap)
    then have "alignment (take (Suc i) left) (take (Suc j) right) (?d (i - 1) (j - 1) + 1)"
      using True 3(5,6) by (simp add: take_two)
    with v have "alignment (take (Suc i) left) (take (Suc j) right) (min ?v (?d (i - 1) (j - 1) + 1))"
      by (rule alignment_min)
    then show ?thesis by (simp only: dist.simps Let_def if_P [OF True])
  next
    case False
    with v show ?thesis by (simp only: dist.simps Let_def if_False)
  qed
qed

lemma dist_step:
  "dist left right (Suc i) (Suc j) \<le> dist left right i (Suc j) + 1" (is ?A)
  "dist left right (Suc i) (Suc j) \<le> dist left right (Suc i) j + 1" (is ?B)
  "dist left right (Suc i) (Suc j) \<le> dist left right i j + 1" (is ?C)
  "left ! i = right ! j \<Longrightarrow> dist left right (Suc i) (Suc j) \<le> dist left right i j"
  "0 < i \<Longrightarrow> 0 < j \<Longrightarrow> left ! i = right ! (j - 1) \<Longrightarrow> left ! (i - 1) = right ! j \<Longrightarrow>
     dist left right (Suc i) (Suc j) \<le> dist left right (i - 1) (j - 1) + 1"
proof -
  define v where "v = min (min (dist left right i (Suc j) + 1) (dist left right (Suc i) j + 1))
      (dist left right i j + (if left ! i \<noteq> right ! j then 1 else 0))"
  define w where "w = dist left right (i - 1) (j - 1) + 1"
  have e: "dist left right (Suc i) (Suc j) =
      (if 0 < i \<and> 0 < j \<and> left ! i = right ! (j - 1) \<and> left ! (i - 1) = right ! j then min v w else v)"
    by (simp only: dist.simps Let_def v_def w_def)
  have le: "dist left right (Suc i) (Suc j) \<le> v" unfolding e by simp
  have "v \<le> dist left right i (Suc j) + 1" "v \<le> dist left right (Suc i) j + 1"
    "v \<le> dist left right i j + (if left ! i \<noteq> right ! j then 1 else 0)"
    unfolding v_def by (simp_all only: min_le_iff_disj order_refl simp_thms)
  with le show ?A ?B ?C "left ! i = right ! j \<Longrightarrow> dist left right (Suc i) (Suc j) \<le> dist left right i j"
    by (auto split: if_splits)
  show "dist left right (Suc i) (Suc j) \<le> dist left right (i - 1) (j - 1) + 1"
    if "0 < i" "0 < j" "left ! i = right ! (j - 1)" "left ! (i - 1) = right ! j"
    using that by (simp only: e simp_thms if_True min_le_iff_disj w_def order_refl)
qed

lemma dist_0 [simp]: "dist left right i 0 = i"
  by (cases i) simp_all

declare dist.simps(3) [simp del]

lemma dist_edge: "dist left right (Suc i) j \<le> dist left right i j + 1" "dist left right i (Suc j) \<le> dist left right i j + 1"
proof -
  show "dist left right (Suc i) j \<le> dist left right i j + 1" by (cases j) (use dist_step(1) in auto)
  show "dist left right i (Suc j) \<le> dist left right i j + 1" by (cases i) (use dist_step(2) in auto)
qed

lemma snoc_take:
  assumes "xs @ [c] = take i zs" and "i \<le> length zs"
  obtains k where "i = Suc k" "xs = take k zs" "c = zs ! k" "k < length zs"
proof (cases i)
  case 0
  with assms(1) show ?thesis by simp
next
  case (Suc k)
  with assms have "xs @ [c] = take k zs @ [zs ! k]" by (simp add: take_Suc_conv_app_nth)
  with Suc assms(2) that show ?thesis by simp
qed

lemma dist_least:
  assumes "alignment xs ys n"
  shows "xs = take i left \<Longrightarrow> ys = take j right \<Longrightarrow> i \<le> length left \<Longrightarrow> j \<le> length right \<Longrightarrow> dist left right i j \<le> n"
  using assms
proof (induction arbitrary: i j rule: alignment.induct)
  case nothing
  then have "i = 0" "j = 0" by auto
  then show ?case by simp
next
  case (keep xs ys n c)
  from keep.prems obtain k l where "i = Suc k" "xs = take k left" "c = left ! k" "k < length left"
    "j = Suc l" "ys = take l right" "c = right ! l" "l < length right"
    by (metis snoc_take)
  with keep.IH [of k l] dist_step(4) [of left k right l] show ?case by simp
next
  case (replace xs ys n c d)
  from replace.prems obtain k l where "i = Suc k" "xs = take k left" "k < length left"
    "j = Suc l" "ys = take l right" "l < length right"
    by (metis snoc_take)
  with replace.IH [of k l] dist_step(3) [of left right k l] show ?case by simp
next
  case (remove xs ys n c)
  from remove.prems obtain k where "i = Suc k" "xs = take k left" "k < length left" by (metis snoc_take)
  with remove.IH [of k j] remove.prems dist_edge(1) [of left right k j] show ?case by simp
next
  case (insert xs ys n d)
  from insert.prems obtain l where "j = Suc l" "ys = take l right" "l < length right" by (metis snoc_take)
  with insert.IH [of i l] insert.prems dist_edge(2) [of left right i l] show ?case by simp
next
  case (swap xs ys n c d)
  have l: "(xs @ [c]) @ [d] = take i left" and r: "(ys @ [d]) @ [c] = take j right" using swap.prems by simp_all
  from l swap.prems(3) obtain k where k: "i = Suc k" "xs @ [c] = take k left" "d = left ! k" "k < length left"
    by (rule snoc_take)
  from k(2,4) obtain k' where k': "k = Suc k'" "xs = take k' left" "c = left ! k'" by (metis snoc_take less_imp_le)
  from r swap.prems(4) obtain m where m: "j = Suc m" "ys @ [d] = take m right" "c = right ! m" "m < length right"
    by (rule snoc_take)
  from m(2,4) obtain m' where m': "m = Suc m'" "ys = take m' right" "d = right ! m'" by (metis snoc_take less_imp_le)
  have "dist left right (Suc k) (Suc m) \<le> dist left right k' m' + 1"
    using dist_step(5) [of k m left right] k k' m m' by simp
  with swap.IH [of k' m'] k k' m m' show ?case by simp
qed

subsection \<open>The rows tabulate the recurrence\<close>

definition row :: "'c list \<Rightarrow> 'c list \<Rightarrow> nat \<Rightarrow> nat list" where
  "row left right i = map (dist left right i) [0..<length right + 1]"

lemma fill_row_prefix:
  assumes "length current = length right + 1" and "i < length left"
    and "previous = row left right i" and "1 < Suc i \<Longrightarrow> older = row left right (i - 1)"
    and "k \<le> length right"
  shows "let cur = foldl (\<lambda>cur j. cur[j := cell left right older previous cur (Suc i) j]) (current[0 := Suc i]) [1..<Suc k]
    in length cur = length right + 1 \<and> (\<forall>j \<le> k. cur ! j = dist left right (Suc i) j)"
  using assms(5)
proof (induction k)
  case 0
  with assms(1) show ?case by simp
next
  case (Suc k)
  define cur where "cur = foldl (\<lambda>cur j. cur[j := cell left right older previous cur (Suc i) j]) (current[0 := Suc i]) [1..<Suc k]"
  have IH: "length cur = length right + 1" "\<And>j. j \<le> k \<Longrightarrow> cur ! j = dist left right (Suc i) j"
    using Suc by (simp_all add: cur_def Let_def)
  have p: "previous ! j = dist left right i j" if "j \<le> length right" for j
    using that by (simp add: assms(3) row_def nth_append)
  have o: "older ! j = dist left right (i - 1) j" if "j \<le> length right" "0 < i" for j
    using that assms(4) by (simp add: row_def nth_append)
  have "cell left right older previous cur (Suc i) (Suc k) = dist left right (Suc i) (Suc k)"
    unfolding cell_def dist.simps(3) using Suc.prems IH(2) [of k] p [of k] p [of "Suc k"] o [of "k - 1"]
    by (auto simp: Let_def diff_Suc_1 numeral_2_eq_2)
  moreover have u: "[1..<Suc (Suc k)] = [1..<Suc k] @ [Suc k]" by simp
  ultimately show ?case
    unfolding u foldl_append foldl.simps cur_def [symmetric] Let_def
    using IH Suc.prems by (auto simp: nth_list_update le_Suc_eq)
qed
lemma fill_row_row:
  assumes "length current = length right + 1" and "i < length left"
    and "0 < i \<Longrightarrow> older = row left right (i - 1)"
  shows "fill_row left right older (row left right i) current (Suc i) = row left right (Suc i)"
proof (rule nth_equalityI)
  note f = fill_row_prefix [OF assms(1,2) refl, of older "length right"]
  show "length (fill_row left right older (row left right i) current (Suc i)) = length (row left right (Suc i))"
    using f assms(3) by (simp add: fill_row_def row_def Let_def)
  show "fill_row left right older (row left right i) current (Suc i) ! j = row left right (Suc i) ! j"
    if "j < length (fill_row left right older (row left right i) current (Suc i))" for j
    using f assms(3) that by (simp add: fill_row_def row_def Let_def nth_append del: upt_Suc)
qed

lemma rows:
  assumes "i \<le> length left"
  shows "\<exists>older current. foldl (next_rows left right) (replicate (length right + 1) 0, [0..<length right + 1],
        replicate (length right + 1) 0) [1..<Suc i] = (older, row left right i, current)
     \<and> length older = length right + 1 \<and> length current = length right + 1 \<and> (0 < i \<longrightarrow> older = row left right (i - 1))"
  using assms
proof (induction i)
  case 0
  have "map (dist left right 0) [0..<length right + 1] = [0..<length right + 1]" by (rule map_idI) simp
  then show ?case by (simp add: row_def del: upt_Suc)
next
  case (Suc i)
  then obtain older current where IH: "foldl (next_rows left right) (replicate (length right + 1) 0, [0..<length right + 1],
        replicate (length right + 1) 0) [1..<Suc i] = (older, row left right i, current)"
    "length older = length right + 1" "length current = length right + 1" "0 < i \<longrightarrow> older = row left right (i - 1)"
    by auto
  have u: "[1..<Suc (Suc i)] = [1..<Suc i] @ [Suc i]" by simp
  have "fill_row left right older (row left right i) current (Suc i) = row left right (Suc i)"
    using IH(3,4) Suc.prems by (intro fill_row_row) simp_all
  then have step: "next_rows left right (older, row left right i, current) (Suc i) = (row left right i, row left right (Suc i), older)"
    by (simp add: next_rows_def)
  show ?case
    unfolding u foldl_append foldl.simps IH(1) step
    using IH(2) by (auto simp: row_def)
qed

lemma edit_distance_dist:
  assumes "0 < limit" and "abs_diff (length left) (length right) \<le> limit" and "left \<noteq> right"
  shows "edit_distance left right limit = dist left right (length left) (length right)"
proof -
  obtain older current where "foldl (next_rows left right) (replicate (length right + 1) 0, [0..<length right + 1],
        replicate (length right + 1) 0) [1..<length left + 1] = (older, row left right (length left), current)"
    using rows [of "length left" left right] by auto
  moreover have "row left right (length left) ! length right = dist left right (length left) (length right)"
    by (simp add: row_def nth_append)
  ultimately show ?thesis
    using assms by (simp add: edit_distance_def Let_def not_less del: upt_Suc replicate_Suc)
qed

subsection \<open>Alignments and lengths\<close>

lemma alignment_lengths: "alignment xs ys n \<Longrightarrow> abs_diff (length xs) (length ys) \<le> n"
  by (induction rule: alignment.induct) (auto simp: abs_diff_def split: if_splits)

lemma alignment_zero: "alignment xs ys n \<Longrightarrow> n = 0 \<Longrightarrow> xs = ys"
  by (induction rule: alignment.induct) auto

lemma alignment_refl: "alignment xs xs 0"
  by (induction xs rule: rev_induct) (auto intro: alignment.intros)

subsection \<open>Property\<close>

text \<open>C35: The typo distance is exact within its limit. Two words are within the limit
  exactly when some alignment of them (characters kept, replaced, removed, inserted, or two
  neighbours swapped) has at most that many edits, and then the distance is the number of
  edits of the cheapest alignment.\<close>

theorem edit_distance_exact:
  "(edit_distance left right limit \<le> limit \<longleftrightarrow> (\<exists>n \<le> limit. alignment left right n))
   \<and> (edit_distance left right limit \<le> limit \<longrightarrow>
       alignment left right (edit_distance left right limit)
       \<and> (\<forall>n. alignment left right n \<longrightarrow> edit_distance left right limit \<le> n))"
proof (cases "left = right")
  case True
  then show ?thesis using alignment_refl [of right] by (auto simp: edit_distance_def)
next
  case False
  define d where "d = dist left right (length left) (length right)"
  have al: "alignment left right d" using dist_alignment [of "length left" left "length right" right] by (simp add: d_def)
  have least: "d \<le> n" if "alignment left right n" for n
    using dist_least [OF that, of "length left" left "length right" right] by (simp add: d_def)
  show ?thesis
  proof (cases "limit = 0")
    case True
    then show ?thesis using False alignment_zero [of left right] by (auto simp: edit_distance_def)
  next
    case pos: False
    show ?thesis
    proof (cases "limit < abs_diff (length left) (length right)")
      case True
      then have "edit_distance left right limit = limit + 1" using False pos by (simp add: edit_distance_def)
      then show ?thesis using True alignment_lengths [of left right] by fastforce
    next
      case near: False
      then have "edit_distance left right limit = d"
        using edit_distance_dist [of limit left right] False pos by (simp add: d_def)
      then show ?thesis using al least le_trans by metis
    qed
  qed
qed

lemma swap_is_one_edit: "edit_distance ''ca'' ''ac'' 2 = 1"
  using edit_distance_dist [of 2 "''ca''" "''ac''"] by (simp add: abs_diff_def dist.simps(3) Let_def)

theorem edit_distance_exact_witness:
  "edit_distance ''ca'' ''ac'' 2 = 1 \<and> alignment ''ca'' ''ac'' 1"
  using edit_distance_exact [of "''ca''" "''ac''" 2] swap_is_one_edit by simp

text \<open>Past the limit the result is the whole distance, not always the limit and one.\<close>

lemma edit_distance_not_clamped: "edit_distance ''aaa'' ''bbb'' 1 = 3"
  using edit_distance_dist [of 1 "''aaa''" "''bbb''"] by (simp add: abs_diff_def dist.simps(3) Let_def)

end
