(* ===== verification/Search_Text.thy ===== *)
theory Search_Text
  imports Main
begin

text \<open>
  How Library Search prepares names and queries (\<open>server/src/searchdata.rs\<close>, the words of
  \<open>server/src/modules/search/index.rs\<close>). A text is its list of code points. The tables of
  Unicode are one record of parameters: case folding followed by composition, canonical
  decomposition, and the general category, reduced to the three questions the code asks.
\<close>

type_synonym utext = "nat list"

record unicode =
  fold_case_nfc :: "utext \<Rightarrow> utext"
  nfd :: "utext \<Rightarrow> utext"
  is_nonspacing_mark :: "nat \<Rightarrow> bool"
  is_letter :: "nat \<Rightarrow> bool"
  is_decimal_number :: "nat \<Rightarrow> bool"

definition txt_of :: "string \<Rightarrow> utext" where
  "txt_of s = map of_char s"

text \<open>\<open>char::is_whitespace\<close>: the property \<open>White_Space\<close>, which is closed for change.\<close>

definition is_whitespace :: "nat \<Rightarrow> bool" where
  "is_whitespace c \<longleftrightarrow> 9 \<le> c \<and> c \<le> 13 \<or> c = 32 \<or> c = 0x85 \<or> c = 0xA0 \<or> c = 0x1680
     \<or> 0x2000 \<le> c \<and> c \<le> 0x200A \<or> c = 0x2028 \<or> c = 0x2029 \<or> c = 0x202F \<or> c = 0x205F \<or> c = 0x3000"

subsection \<open>Words\<close>

fun split_words :: "utext \<Rightarrow> utext \<Rightarrow> utext list" where
  "split_words acc [] = (if acc = [] then [] else [acc])"
| "split_words acc (c # s) =
     (if is_whitespace c then (if acc = [] then split_words [] s else acc # split_words [] s)
      else split_words (acc @ [c]) s)"

definition split_whitespace :: "utext \<Rightarrow> utext list" where
  "split_whitespace s = split_words [] s"

fun join_spaces :: "utext list \<Rightarrow> utext" where
  "join_spaces [] = []"
| "join_spaces [w] = w"
| "join_spaces (w # v # ws) = w @ 32 # join_spaces (v # ws)"

definition join_fields :: "utext \<Rightarrow> utext" where
  "join_fields s = join_spaces (split_whitespace s)"

subsection \<open>Normalisation\<close>

record search_text =
  original :: utext
  faithful :: utext
  folded :: utext
  compact :: utext
  versions :: "utext list"

definition is_letter_or_digit :: "unicode \<Rightarrow> nat \<Rightarrow> bool" where
  "is_letter_or_digit u c \<longleftrightarrow> is_letter u c \<or> is_decimal_number u c"

text \<open>What one character of the decomposed text becomes: a dotless i an i, an apostrophe
  nothing, other punctuation a space or, in the compact form, nothing.\<close>

definition fold_char :: "unicode \<Rightarrow> bool \<Rightarrow> nat \<Rightarrow> utext" where
  "fold_char u is_compact c =
     (if is_nonspacing_mark u c then []
      else if c = 0x131 then [105]
      else if is_letter u c \<or> is_decimal_number u c then [c]
      else if is_whitespace c then [32]
      else if c = 39 \<or> c = 0x2019 then []
      else if \<not> is_compact then [32] else [])"

definition fold_words :: "unicode \<Rightarrow> utext \<Rightarrow> bool \<Rightarrow> utext" where
  "fold_words u s is_compact = join_fields (concat (map (fold_char u is_compact) (nfd u s)))"

definition prepare_text :: "unicode \<Rightarrow> utext \<Rightarrow> search_text" where
  "prepare_text u s =
     (let f = join_fields (fold_case_nfc u s) in
      \<lparr>original = s, faithful = f, folded = fold_words u f False, compact = fold_words u f True, versions = []\<rparr>)"

definition VERSION_WORDS :: "utext list" where
  "VERSION_WORDS = map txt_of [''live'', ''remix'', ''acoustic'', ''instrumental'', ''demo'', ''remaster'', ''radio edit'']"

fun is_prefix :: "'c list \<Rightarrow> 'c list \<Rightarrow> bool" where
  "is_prefix [] s = True"
| "is_prefix (c # p) [] = False"
| "is_prefix (c # p) (d # s) = (c = d \<and> is_prefix p s)"

fun contains :: "'c list \<Rightarrow> 'c list \<Rightarrow> bool" where
  "contains [] p = (p = [])"
| "contains (c # s) p = (is_prefix p (c # s) \<or> contains s p)"

definition find_versions :: "utext \<Rightarrow> utext list" where
  "find_versions s =
     (let ws = [32] @ s @ [32] in
      filter (\<lambda>v. contains ws ([32] @ v @ [32])
          \<or> v = txt_of ''remaster'' \<and> contains ws ([32] @ txt_of ''remastered'' @ [32])) VERSION_WORDS)"

text \<open>
  The sections in parentheses, \<open>\([^()]*\)\<close> matched from left to right: at an opening
  parenthesis, the text up to the next parenthesis, if that one closes; otherwise the
  search goes on behind it.
\<close>

definition is_paren :: "nat \<Rightarrow> bool" where
  "is_paren c \<longleftrightarrow> c = 40 \<or> c = 41"

function version_sections :: "utext \<Rightarrow> utext list" where
  "version_sections [] = []"
| "version_sections (c # s) =
     (let inside = takeWhile (\<lambda>d. \<not> is_paren d) s; rest = dropWhile (\<lambda>d. \<not> is_paren d) s in
      if c = 40 \<and> rest \<noteq> [] \<and> hd rest = 41 then inside # version_sections (tl rest)
      else version_sections s)"
  by pat_completeness auto

termination
proof (relation "measure length")
  fix c :: nat and s inside rest
  assume "rest = dropWhile (\<lambda>d. \<not> is_paren d) s"
  then have "length rest \<le> length s" by (simp add: length_dropWhile_le)
  then show "(tl rest, c # s) \<in> measure length" by simp
qed simp_all

text \<open>\<open>split_once(" - ")\<close>: what follows the first.\<close>

fun after_dash :: "utext \<Rightarrow> utext option" where
  "after_dash [] = None"
| "after_dash (c # s) = (if is_prefix [32, 45, 32] (c # s) then Some (drop 2 s) else after_dash s)"

definition title_versions :: "unicode \<Rightarrow> utext \<Rightarrow> utext list" where
  "title_versions u s =
     (let sections = version_sections s @ (case after_dash s of Some t \<Rightarrow> [t] | None \<Rightarrow> [])
      in foldl (\<lambda>vs v. if v \<in> set vs then vs else vs @ [v]) []
           (concat (map (\<lambda>sec. find_versions (folded (prepare_text u sec))) sections)))"

definition prepare_query :: "unicode \<Rightarrow> utext \<Rightarrow> search_text" where
  "prepare_query u s = (let t = prepare_text u s in t\<lparr>versions := find_versions (folded t)\<rparr>)"

definition prepare_stored :: "unicode \<Rightarrow> utext \<Rightarrow> string \<Rightarrow> search_text" where
  "prepare_stored u s kind =
     (let t = prepare_text u s in
      if kind = ''track'' \<or> kind = ''album'' then t\<lparr>versions := title_versions u s\<rparr> else t)"

subsection \<open>The words of the index\<close>

text \<open>\<open>trim_matches\<close> with everything that is not a letter or a digit.\<close>

definition trim_word :: "unicode \<Rightarrow> utext \<Rightarrow> utext" where
  "trim_word u w =
     rev (dropWhile (\<lambda>c. \<not> is_letter_or_digit u c) (rev (dropWhile (\<lambda>c. \<not> is_letter_or_digit u c) w)))"

definition split_faithful :: "unicode \<Rightarrow> utext \<Rightarrow> utext list" where
  "split_faithful u s = filter (\<lambda>w. w \<noteq> []) (map (trim_word u) (split_whitespace s))"

record prepared =
  text_of :: search_text
  faithful_words :: "utext list"
  folded_words :: "utext list"
  compact_words :: "utext list"

definition prepared_new :: "unicode \<Rightarrow> search_text \<Rightarrow> prepared" where
  "prepared_new u t = \<lparr>text_of = t, faithful_words = split_faithful u (faithful t),
     folded_words = split_whitespace (folded t), compact_words = split_whitespace (compact t)\<rparr>"

subsection \<open>Lemmas\<close>

definition is_word :: "utext \<Rightarrow> bool" where
  "is_word w \<longleftrightarrow> w \<noteq> [] \<and> list_all (\<lambda>c. \<not> is_whitespace c) w"

lemma space [simp]: "is_whitespace 32"
  by (simp add: is_whitespace_def)

lemma split_words_words: "list_all (\<lambda>c. \<not> is_whitespace c) acc \<Longrightarrow> list_all is_word (split_words acc s)"
  by (induction acc s rule: split_words.induct) (auto simp: is_word_def)

lemma split_words_append: "list_all (\<lambda>c. \<not> is_whitespace c) w \<Longrightarrow> split_words acc (w @ s) = split_words (acc @ w) s"
  by (induction w arbitrary: acc) simp_all

lemma split_join: "list_all is_word ws \<Longrightarrow> split_whitespace (join_spaces ws) = ws"
proof (induction ws rule: join_spaces.induct)
  case (2 w)
  then show ?case using split_words_append [of w "[]" "[]"] by (simp add: split_whitespace_def is_word_def)
next
  case (3 w v ws)
  then show ?case
    using split_words_append [of w "[]" "32 # join_spaces (v # ws)"]
    by (simp add: split_whitespace_def is_word_def)
qed (simp add: split_whitespace_def)

lemma split_fields: "split_whitespace (join_fields s) = split_whitespace s"
  unfolding join_fields_def by (rule split_join) (simp add: split_whitespace_def split_words_words)

lemma split_words_concat:
  "list_all (\<lambda>c. \<not> is_whitespace c) acc \<Longrightarrow> concat (split_words acc s) = acc @ filter (\<lambda>c. \<not> is_whitespace c) s"
  by (induction acc s rule: split_words.induct) auto

lemma split_concat: "concat (split_whitespace s) = filter (\<lambda>c. \<not> is_whitespace c) s"
  using split_words_concat [of "[]" s] by (simp add: split_whitespace_def)

lemma split_empty: "split_whitespace s = [] \<longleftrightarrow> list_all is_whitespace s"
proof -
  have "split_whitespace s = [] \<longleftrightarrow> concat (split_whitespace s) = []"
    using split_words_words [of "[]" s] by (auto simp: split_whitespace_def list_all_iff is_word_def)
  also have "\<dots> \<longleftrightarrow> list_all is_whitespace s"
    by (simp add: split_concat list_all_iff filter_empty_conv)
  finally show ?thesis .
qed

lemma join_empty: "list_all is_word ws \<Longrightarrow> join_spaces ws = [] \<longleftrightarrow> ws = []"
  by (induction ws rule: join_spaces.induct) (auto simp: is_word_def)

lemma join_fields_empty: "join_fields s = [] \<longleftrightarrow> list_all is_whitespace s"
  using join_empty [of "split_whitespace s"] split_words_words [of "[]" s] split_empty [of s]
  by (simp add: join_fields_def split_whitespace_def)

text \<open>What the code relies on of the tables: a letter or a digit is not white space.\<close>

definition tables_ok :: "unicode \<Rightarrow> bool" where
  "tables_ok u \<longleftrightarrow> (\<forall>c. is_whitespace c \<longrightarrow> \<not> is_letter_or_digit u c)"

lemma fold_char_visible:
  "filter (\<lambda>c. \<not> is_whitespace c) (fold_char u True c) = filter (\<lambda>c. \<not> is_whitespace c) (fold_char u False c)"
  by (simp add: fold_char_def)

lemma fold_words_visible:
  "concat (split_whitespace (fold_words u s True)) = concat (split_whitespace (fold_words u s False))"
proof -
  have "filter (\<lambda>c. \<not> is_whitespace c) (concat (map (fold_char u True) t))
      = filter (\<lambda>c. \<not> is_whitespace c) (concat (map (fold_char u False) t))" for t
    by (induction t) (simp_all add: fold_char_visible)
  then show ?thesis by (simp only: fold_words_def split_fields split_concat)
qed

lemma fold_words_empty: "fold_words u s True = [] \<longleftrightarrow> fold_words u s False = []"
proof -
  have e: "fold_words u s b = [] \<longleftrightarrow> split_whitespace (fold_words u s b) = []" for b
    unfolding fold_words_def split_fields split_empty join_fields_empty ..
  have c: "split_whitespace t = [] \<longleftrightarrow> concat (split_whitespace t) = []" for t
    using split_words_words [of "[]" t] by (auto simp: split_whitespace_def list_all_iff is_word_def)
  show ?thesis
    unfolding e c using fold_words_visible [of u s] by simp
qed

lemma fold_char_visible_chars:
  assumes "c \<in> set (fold_char u b d)" and "\<not> is_whitespace c"
  shows "is_letter_or_digit u c \<or> c = 105"
  using assms by (auto simp: fold_char_def is_letter_or_digit_def split: if_splits)

lemma fold_words_chars:
  assumes "w \<in> set (split_whitespace (fold_words u s b))" and "c \<in> set w"
  shows "is_letter_or_digit u c \<or> c = 105"
proof -
  have "c \<in> set (concat (split_whitespace (fold_words u s b)))" using assms by auto
  then have "c \<in> set (concat (map (fold_char u b) (nfd u s)))" "\<not> is_whitespace c"
    by (simp_all add: fold_words_def split_fields split_concat)
  then show ?thesis using fold_char_visible_chars by auto
qed

lemma join_split_fold: "join_spaces (split_whitespace (fold_words u s b)) = fold_words u s b"
  unfolding fold_words_def split_fields by (simp add: join_fields_def)

subsection \<open>Property\<close>

text \<open>Both prepared forms of a name spell the same characters. The words of the folded
  and of the compact form are made of letters, digits and the plain i alone and stand one
  space apart; read without the spaces the two forms are equal, so one is empty exactly
  when the other is; and comparing a name with itself always finds its own words.\<close>

theorem prepared_words:
  "let t = prepare_text u s; p = prepared_new u t in
     (\<forall>w \<in> set (folded_words p) \<union> set (compact_words p). w \<noteq> [] \<and> list_all (\<lambda>c. is_letter_or_digit u c \<or> c = 105) w)
     \<and> concat (folded_words p) = concat (compact_words p)
     \<and> join_spaces (folded_words p) = folded t \<and> join_spaces (compact_words p) = compact t
     \<and> (compact t = [] \<longleftrightarrow> folded t = [])"
proof -
  define f where "f = join_fields (fold_case_nfc u s)"
  have ne: "w \<noteq> []" if "w \<in> set (split_whitespace x)" for w x
    using that split_words_words [of "[]" x] by (auto simp: split_whitespace_def list_all_iff is_word_def)
  have w: "w \<noteq> [] \<and> list_all (\<lambda>c. is_letter_or_digit u c \<or> c = 105) w"
    if "w \<in> set (split_whitespace (fold_words u f b))" for w b
    using fold_words_chars [OF that] ne [OF that] by (simp add: list_all_iff)
  have all: "\<forall>w \<in> set (split_whitespace (fold_words u f False)) \<union> set (split_whitespace (fold_words u f True)).
      w \<noteq> [] \<and> list_all (\<lambda>c. is_letter_or_digit u c \<or> c = 105) w"
    using w by blast
  show ?thesis
    unfolding prepare_text_def prepared_new_def Let_def f_def [symmetric] search_text.simps prepared.simps
    using all fold_words_visible [of u f] fold_words_empty [of u f] join_split_fold [of u f]
    by (simp only: simp_thms)
qed

definition toy_unicode :: unicode where
  "toy_unicode = \<lparr>fold_case_nfc = id, nfd = id, is_nonspacing_mark = (\<lambda>_. False),
     is_letter = (\<lambda>c. 97 \<le> c \<and> c \<le> 122), is_decimal_number = (\<lambda>c. 48 \<le> c \<and> c \<le> 57)\<rparr>"

theorem prepared_words_witness:
  "folded_words (prepared_new toy_unicode (prepare_text toy_unicode (txt_of ''ac/dc''))) = [txt_of ''ac'', txt_of ''dc'']
   \<and> compact_words (prepared_new toy_unicode (prepare_text toy_unicode (txt_of ''ac/dc''))) = [txt_of ''acdc'']
   \<and> concat [txt_of ''ac'', txt_of ''dc''] = txt_of ''acdc''"
proof -
  have a: "folded_words (prepared_new toy_unicode (prepare_text toy_unicode (txt_of ''ac/dc''))) = [txt_of ''ac'', txt_of ''dc'']"
    "compact_words (prepared_new toy_unicode (prepare_text toy_unicode (txt_of ''ac/dc''))) = [txt_of ''acdc'']"
    by (simp_all add: prepared_new_def prepare_text_def Let_def toy_unicode_def txt_of_def join_fields_def
        split_whitespace_def is_whitespace_def fold_words_def fold_char_def)
  from prepared_words [of toy_unicode "txt_of ''ac/dc''"] show ?thesis
    unfolding Let_def a by simp
qed

end
