(* ===== verification/Search_Rank.thy ===== *)
theory Search_Rank
  imports Edit_Distance Search_Text "HOL-Library.List_Lexorder" "HOL-Library.Product_Lexorder"
begin

text \<open>
  Matching, typo fallback and ranking of Library Search
  (\<open>server/src/modules/search/rank.rs\<close>). Texts compare by their code points, which is how
  Rust's strings compare; counts are \<open>nat\<close>.
\<close>

subsection \<open>Data\<close>

definition CLASS_FULL_NAME :: nat where "CLASS_FULL_NAME = 1"
definition CLASS_PRIMARY_ONLY :: nat where "CLASS_PRIMARY_ONLY = 2"
definition CLASS_PRIMARY_RELATED :: nat where "CLASS_PRIMARY_RELATED = 3"
definition MAX_TOTAL_EDITS :: nat where "MAX_TOTAL_EDITS = 2"
definition GROUP_LIMIT :: nat where "GROUP_LIMIT = 5"

definition RELATED_KINDS :: "utext list" where
  "RELATED_KINDS = map txt_of [''album'', ''track_artist'', ''album_artist'']"

record field_ref =
  field_name :: utext
  related_id :: utext
  field_text :: prepared

record entity =
  entity_kind :: utext
  entity_id :: utext
  primary :: prepared
  related :: "field_ref list"

record search_query =
  variants :: "utext list list"
  query_faithful :: "utext list"
  query_versions :: "utext list"
  single :: bool

definition query_new :: "unicode \<Rightarrow> search_text \<Rightarrow> search_query" where
  "query_new u t = \<lparr>variants = split_whitespace (folded t)
       # (if compact t \<noteq> folded t then [split_whitespace (compact t)] else []),
     query_faithful = split_faithful u (faithful t), query_versions = versions t,
     single = (length (folded t) = 1)\<rparr>"

definition query_is_empty :: "search_query \<Rightarrow> bool" where
  "query_is_empty q \<longleftrightarrow> hd (variants q) = []"

definition max_edits :: "utext \<Rightarrow> nat" where
  "max_edits w = (if length w \<le> 3 then 0 else if length w \<le> 7 then 1 else 2)"

datatype match_kind = NoMatch | Full | Prefix | Fuzzy

fun kind_rank :: "match_kind \<Rightarrow> nat" where
  "kind_rank NoMatch = 0"
| "kind_rank Full = 1"
| "kind_rank Prefix = 2"
| "kind_rank Fuzzy = 3"

record word_match =
  match_kind :: match_kind
  edits :: nat

definition NO_MATCH :: word_match where
  "NO_MATCH = \<lparr>match_kind = NoMatch, edits = 0\<rparr>"

definition better :: "word_match \<Rightarrow> word_match \<Rightarrow> bool" where
  "better a b =
     (if match_kind a = NoMatch \<or> match_kind b = NoMatch then match_kind a \<noteq> NoMatch
      else if edits a \<noteq> edits b then edits a < edits b
      else kind_rank (match_kind a) < kind_rank (match_kind b))"

subsection \<open>Words\<close>

text \<open>The loop over the words of one form; \<open>Inl\<close> is the early return of a full match.\<close>

fun match_words :: "utext \<Rightarrow> bool \<Rightarrow> nat \<Rightarrow> utext list \<Rightarrow> word_match \<Rightarrow> word_match + word_match" where
  "match_words w allow_prefix limit [] best = Inr best"
| "match_words w allow_prefix limit (c # cs) best =
     (if c = w then Inl \<lparr>match_kind = Full, edits = 0\<rparr>
      else let b1 = (if allow_prefix \<and> is_prefix w c then \<lparr>match_kind = Prefix, edits = 0\<rparr> else best);
               b2 = (if 0 < limit \<and> match_kind b1 \<noteq> Prefix
                     then let e = edit_distance w c limit in
                       if e \<le> limit \<and> (match_kind b1 = NoMatch \<or> e < edits b1)
                       then \<lparr>match_kind = Fuzzy, edits = e\<rparr> else b1
                     else b1)
        in match_words w allow_prefix limit cs b2)"

definition match_word :: "utext \<Rightarrow> prepared \<Rightarrow> bool \<Rightarrow> nat \<Rightarrow> word_match" where
  "match_word w t allow_prefix limit =
     (case match_words w allow_prefix limit (folded_words t) NO_MATCH of
        Inl m \<Rightarrow> m
      | Inr best \<Rightarrow>
          if compact (text_of t) = folded (text_of t) then best
          else (case match_words w allow_prefix limit (compact_words t) best of Inl m \<Rightarrow> m | Inr m \<Rightarrow> m))"

subsection \<open>Candidates\<close>

record candidate =
  cand_entity :: entity
  cand_class :: nat
  cand_edits :: nat
  prefix_dependent :: bool
  cand_faithful :: nat
  cand_version :: nat
  cand_name :: utext
  secondary :: utext

definition candidate_new :: "entity \<Rightarrow> candidate" where
  "candidate_new e = \<lparr>cand_entity = e, cand_class = 0, cand_edits = 0, prefix_dependent = False, cand_faithful = 0,
     cand_version = 0, cand_name = folded (text_of (primary e)), secondary = []\<rparr>"

definition less_candidate :: "candidate \<Rightarrow> candidate \<Rightarrow> bool" where
  "less_candidate a b =
     (if cand_class a \<noteq> cand_class b then cand_class a < cand_class b
      else if cand_edits a \<noteq> cand_edits b then cand_edits a < cand_edits b
      else if prefix_dependent a \<noteq> prefix_dependent b then \<not> prefix_dependent a
      else if cand_faithful a \<noteq> cand_faithful b then cand_faithful b < cand_faithful a
      else if cand_version a \<noteq> cand_version b then cand_version a < cand_version b
      else if cand_name a \<noteq> cand_name b then cand_name a < cand_name b
      else if secondary a \<noteq> secondary b then secondary a < secondary b
      else if entity_id (cand_entity a) \<noteq> entity_id (cand_entity b)
      then entity_id (cand_entity a) < entity_id (cand_entity b)
      else entity_kind (cand_entity a) < entity_kind (cand_entity b))"

definition has_faithful :: "prepared \<Rightarrow> utext \<Rightarrow> bool \<Rightarrow> bool" where
  "has_faithful t w allow_prefix \<longleftrightarrow> list_ex (\<lambda>c. c = w \<or> allow_prefix \<and> is_prefix w c) (faithful_words t)"

definition faithful_count :: "utext list \<Rightarrow> entity \<Rightarrow> bool \<Rightarrow> nat" where
  "faithful_count ws e allow_prefix =
     length (filter (\<lambda>(i, w). let p = allow_prefix \<and> i + 1 = length ws in
         has_faithful (primary e) w p \<or> list_ex (\<lambda>f. has_faithful (field_text f) w p) (related e))
       (enumerate 0 ws))"

definition version_rank :: "utext list \<Rightarrow> utext list \<Rightarrow> nat" where
  "version_rank requested stored =
     (if requested = [] then (if stored \<noteq> [] then 1 else 0)
      else if list_ex (\<lambda>v. v \<notin> set stored) requested then 1 else 0)"

fun join_slashes :: "utext list \<Rightarrow> utext" where
  "join_slashes [] = []"
| "join_slashes [w] = w"
| "join_slashes (w # v # ws) = w @ txt_of '' / '' @ join_slashes (v # ws)"

definition secondary_text :: "entity \<Rightarrow> utext" where
  "secondary_text e =
     join_slashes (map (\<lambda>f. folded (text_of (field_text f))) (filter (\<lambda>f. field_name f \<in> set RELATED_KINDS) (related e)))"

definition finish :: "candidate \<Rightarrow> search_query \<Rightarrow> entity \<Rightarrow> bool \<Rightarrow> candidate" where
  "finish c q e allow_prefix =
     c\<lparr>cand_faithful := faithful_count (query_faithful q) e allow_prefix,
       cand_version := version_rank (query_versions q) (versions (text_of (primary e)))\<rparr>"

text \<open>Whether the words are the whole name, word for word: the loop over one form.\<close>

fun align_words :: "utext list \<Rightarrow> utext list \<Rightarrow> nat list \<Rightarrow> nat \<Rightarrow> nat option" where
  "align_words (w # ws) (p # ps) (l # ls) acc =
     (if w = p then align_words ws ps ls acc
      else let e = edit_distance w p l in
        if l < e then None else align_words ws ps ls (acc + e))"
| "align_words _ _ _ acc = Some acc"

definition align_form :: "utext list \<Rightarrow> utext list \<Rightarrow> nat list \<Rightarrow> nat option \<Rightarrow> nat option" where
  "align_form ws ps limits best =
     (if length ps \<noteq> length ws then best
      else case align_words ws ps limits 0 of
          None \<Rightarrow> best
        | Some n \<Rightarrow> if n \<le> MAX_TOTAL_EDITS \<and> (case best of None \<Rightarrow> True | Some b \<Rightarrow> n < b) then Some n else best)"

definition aligned_edits :: "utext list \<Rightarrow> prepared \<Rightarrow> nat list \<Rightarrow> nat option" where
  "aligned_edits ws t limits =
     (let best = align_form ws (folded_words t) limits None in
      if compact (text_of t) = folded (text_of t) then best
      else align_form ws (compact_words t) limits best)"

subsection \<open>Assigning words to fields\<close>

definition takes_primary :: "bool \<Rightarrow> word_match \<Rightarrow> word_match \<Rightarrow> bool" where
  "takes_primary minimize_edits p r \<longleftrightarrow>
     match_kind p \<noteq> NoMatch \<and> \<not> (minimize_edits \<and> match_kind r \<noteq> NoMatch \<and> edits r < edits p)"

fun choose_loop :: "bool \<Rightarrow> (word_match \<times> word_match) list \<Rightarrow> word_match list \<Rightarrow> nat \<Rightarrow> nat \<Rightarrow> word_match list \<times> nat \<times> nat" where
  "choose_loop minimize_edits [] chosen in_primary t = (chosen, in_primary, t)"
| "choose_loop minimize_edits ((p, r) # ms) chosen in_primary t =
     (if takes_primary minimize_edits p r
      then choose_loop minimize_edits ms (chosen @ [p]) (in_primary + 1) (t + edits p)
      else choose_loop minimize_edits ms (chosen @ [r]) in_primary (t + edits r))"

text \<open>The word whose move into the name costs the fewest edits, the first of equals.\<close>

fun cheapest :: "(nat \<times> word_match \<times> word_match) list \<Rightarrow> (nat \<times> int) option \<Rightarrow> nat option" where
  "cheapest [] best = map_option fst best"
| "cheapest ((i, p, c) # xs) best =
     (let cost = int (edits p) - int (edits c) in
      if match_kind p \<noteq> NoMatch \<and> (case best of None \<Rightarrow> True | Some (_, b) \<Rightarrow> cost < b)
      then cheapest xs (Some (i, cost)) else cheapest xs best)"

definition choose_words :: "word_match list \<Rightarrow> word_match list \<Rightarrow> bool \<Rightarrow> word_match list \<times> nat \<times> nat" where
  "choose_words ps rs minimize_edits =
     (let (chosen, in_primary, t) = choose_loop minimize_edits (zip ps rs) [] 0 0 in
      if minimize_edits \<and> in_primary = 0
      then (case cheapest (zip [0..<length ps] (zip ps chosen)) None of
          None \<Rightarrow> (chosen, in_primary, t)
        | Some b \<Rightarrow> (list_update chosen b (ps ! b), 1, t + edits (ps ! b) - edits (chosen ! b)))
      else (chosen, in_primary, t))"

definition related_match :: "utext \<Rightarrow> field_ref list \<Rightarrow> bool \<Rightarrow> nat \<Rightarrow> word_match" where
  "related_match w fs allow_prefix limit =
     foldl (\<lambda>best f. let m = match_word w (field_text f) allow_prefix limit in if better m best then m else best) NO_MATCH fs"

text \<open>The loop over the query's words: nothing when a word matches nowhere.\<close>

fun word_matches :: "entity \<Rightarrow> (utext \<times> nat) list \<Rightarrow> (word_match \<times> word_match) list option" where
  "word_matches e [] = Some []"
| "word_matches e ((w, limit) # ws) =
     (let p = match_word w (primary e) (ws = []) limit; r = related_match w (related e) (ws = []) limit in
      if match_kind p = NoMatch \<and> match_kind r = NoMatch then None
      else map_option ((#) (p, r)) (word_matches e ws))"

definition choose_within :: "word_match list \<Rightarrow> word_match list \<Rightarrow> (word_match list \<times> nat \<times> nat) option" where
  "choose_within ps rs =
     (let (chosen, in_primary, t) = choose_words ps rs False in
      if MAX_TOTAL_EDITS < t
      then (let (chosen', in_primary', t') = choose_words ps rs True in
        if MAX_TOTAL_EDITS < t' then None else Some (chosen', in_primary', t'))
      else Some (chosen, in_primary, t))"

definition evaluate_variant :: "entity \<Rightarrow> utext list \<Rightarrow> search_query \<Rightarrow> bool \<Rightarrow> candidate option" where
  "evaluate_variant e ws q fuzzy =
     (let limits = (if fuzzy then map max_edits ws else replicate (length ws) 0);
          result = candidate_new e
      in if single q then
           (if ws \<noteq> folded_words (primary e) \<and> ws \<noteq> compact_words (primary e) then None
            else Some (finish (result\<lparr>cand_class := CLASS_FULL_NAME\<rparr>) q e False))
         else (case aligned_edits ws (primary e) limits of
             Some n \<Rightarrow> Some (finish (result\<lparr>cand_class := CLASS_FULL_NAME, cand_edits := n\<rparr>) q e False)
           | None \<Rightarrow>
               (case word_matches e (zip ws limits) of
                  None \<Rightarrow> None
                | Some ms \<Rightarrow>
                    (case choose_within (map fst ms) (map snd ms) of
                       None \<Rightarrow> None
                     | Some (chosen, in_primary, t) \<Rightarrow>
                         if in_primary = length ws \<or> 0 < in_primary
                         then Some (finish (result\<lparr>cand_class := (if in_primary = length ws then CLASS_PRIMARY_ONLY
                                else CLASS_PRIMARY_RELATED), cand_edits := t,
                              prefix_dependent := list_ex (\<lambda>m. match_kind m = Prefix) chosen\<rparr>) q e True)
                         else None))))"

fun best_variant :: "entity \<Rightarrow> search_query \<Rightarrow> bool \<Rightarrow> utext list list \<Rightarrow> candidate option \<Rightarrow> candidate option" where
  "best_variant e q fuzzy [] best = best"
| "best_variant e q fuzzy (ws # vs) best =
     (case evaluate_variant e ws q fuzzy of
        None \<Rightarrow> best_variant e q fuzzy vs best
      | Some c \<Rightarrow>
          if (case best of None \<Rightarrow> True | Some b \<Rightarrow> less_candidate c b)
          then best_variant e q fuzzy vs (Some c) else best_variant e q fuzzy vs best)"

definition evaluate :: "entity \<Rightarrow> search_query \<Rightarrow> bool \<Rightarrow> candidate option" where
  "evaluate e q fuzzy =
     map_option (\<lambda>c. c\<lparr>secondary := secondary_text e\<rparr>) (best_variant e q fuzzy (variants q) None)"

subsection \<open>Ranking\<close>

text \<open>The stable \<open>sort_by\<close>: an element goes before the first that is not less than it.\<close>

fun insert_candidate :: "candidate \<Rightarrow> candidate list \<Rightarrow> candidate list" where
  "insert_candidate c [] = [c]"
| "insert_candidate c (d # ds) = (if less_candidate d c then d # insert_candidate c ds else c # d # ds)"

definition sort_candidates :: "candidate list \<Rightarrow> candidate list" where
  "sort_candidates cs = foldr insert_candidate cs []"

definition evaluate_all :: "entity list \<Rightarrow> search_query \<Rightarrow> bool \<Rightarrow> utext option \<Rightarrow> candidate list" where
  "evaluate_all es q fuzzy hidden_kind =
     sort_candidates (List.map_filter (\<lambda>e. evaluate e q fuzzy) (filter (\<lambda>e. hidden_kind \<noteq> Some (entity_kind e)) es))"

datatype match_sort = Direct | Corrected

record ranked =
  best_match :: "entity option"
  groups :: "utext \<Rightarrow> entity list option"
  matched :: match_sort
  match_count :: nat

fun assemble_groups :: "bool \<Rightarrow> candidate list \<Rightarrow> (utext \<Rightarrow> entity list option) \<Rightarrow> utext \<Rightarrow> entity list option" where
  "assemble_groups all_results [] m = m"
| "assemble_groups all_results (c # cs) m =
     (let k = entity_kind (cand_entity c); g = (case m k of Some g \<Rightarrow> g | None \<Rightarrow> []) in
      assemble_groups all_results cs
        (m(k := Some (if all_results \<or> length g < GROUP_LIMIT then g @ [cand_entity c] else g))))"

definition assemble :: "candidate list \<Rightarrow> match_sort \<Rightarrow> bool \<Rightarrow> ranked" where
  "assemble cs ms all_results = \<lparr>best_match = None, groups = assemble_groups all_results cs (\<lambda>_. None),
     matched = ms, match_count = length cs\<rparr>"

definition rank :: "entity list \<Rightarrow> search_query \<Rightarrow> bool \<Rightarrow> utext option \<Rightarrow> ranked" where
  "rank es q all_results hidden_kind =
     (case evaluate_all es q False hidden_kind of
        c # cs \<Rightarrow> (assemble (c # cs) Direct all_results)\<lparr>best_match := Some (cand_entity c)\<rparr>
      | [] \<Rightarrow> assemble (evaluate_all es q True hidden_kind) Corrected all_results)"

subsection \<open>The order\<close>

text \<open>The keys of the comparison in their order, as one value of a linear order.\<close>

definition rank_key :: "candidate \<Rightarrow> nat \<times> nat \<times> bool \<times> int \<times> nat \<times> utext \<times> utext \<times> utext \<times> utext" where
  "rank_key c = (cand_class c, cand_edits c, prefix_dependent c, - int (cand_faithful c), cand_version c,
     cand_name c, secondary c, entity_id (cand_entity c), entity_kind (cand_entity c))"

lemma less_candidate_key: "less_candidate a b \<longleftrightarrow> rank_key a < rank_key b"
  unfolding less_candidate_def rank_key_def less_prod_simp less_eq_prod_simp
  by (auto simp: less_le)

lemma sort_candidates_key: "sort_candidates cs = sort_key rank_key cs"
proof -
  have "insert_candidate c ds = insort_key rank_key c ds" for c ds
    by (induction ds) (auto simp: less_candidate_key)
  then have "insert_candidate = insort_key rank_key" by (intro ext)
  then show ?thesis by (simp add: sort_candidates_def sort_key_def)
qed

subsection \<open>Edit budgets\<close>

lemma match_words_exact:
  assumes "edits best = 0"
  shows "edits (case match_words w p 0 cs best of Inl m \<Rightarrow> m | Inr m \<Rightarrow> m) = 0"
  using assms by (induction w p "0 :: nat" cs best rule: match_words.induct) (auto simp: Let_def split: if_splits)

lemma match_word_exact: "edits (match_word w t p 0) = 0"
proof -
  have a: "edits (case match_words w p 0 cs best of Inl m \<Rightarrow> m | Inr m \<Rightarrow> m) = 0" if "edits best = 0" for cs best
    by (rule match_words_exact [OF that])
  then have l: "edits m = 0" if "match_words w p 0 cs best = Inl m" "edits best = 0" for cs best m
    using that by (metis sum.case(1))
  from a have r: "edits m = 0" if "match_words w p 0 cs best = Inr m" "edits best = 0" for cs best m
    using that by (metis sum.case(2))
  show ?thesis
    by (auto simp: match_word_def NO_MATCH_def split: sum.split intro: l [OF _ r] r [OF _ r] l r)
qed

lemma related_match_exact: "edits (related_match w fs p 0) = 0"
proof -
  have "edits (foldl (\<lambda>best f. let m = match_word w (field_text f) p 0 in if better m best then m else best) b fs) = 0"
    if "edits b = 0" for b
    using that by (induction fs arbitrary: b) (simp_all add: Let_def match_word_exact)
  then show ?thesis by (simp add: related_match_def NO_MATCH_def)
qed

lemma word_matches_exact:
  assumes "word_matches e ws = Some ms" and "list_all (\<lambda>x. snd x = 0) ws"
  shows "list_all (\<lambda>(p, r). edits p = 0 \<and> edits r = 0) ms"
  using assms
  by (induction e ws arbitrary: ms rule: word_matches.induct)
    (auto simp: Let_def match_word_exact related_match_exact split: if_splits)

lemma choose_loop_total:
  "choose_loop m prs chosen k t = (chosen', k', t') \<Longrightarrow> t = sum_list (map edits chosen) \<Longrightarrow>
     t' = sum_list (map edits chosen') \<and> length chosen' = length chosen + length prs \<and> k' \<le> k + length prs"
  by (induction m prs chosen k t rule: choose_loop.induct) (fastforce split: if_splits)+

lemma choose_loop_exact:
  "choose_loop m prs chosen k t = (chosen', k', t') \<Longrightarrow> list_all (\<lambda>(p, r). edits p = 0 \<and> edits r = 0) prs \<Longrightarrow> t' = t"
  by (induction m prs chosen k t rule: choose_loop.induct) (auto split: if_splits)

lemma align_words_exact:
  "align_words ws ps limits acc = Some n \<Longrightarrow> list_all (\<lambda>l. l = 0) limits \<Longrightarrow> n = acc"
proof (induction ws ps limits acc rule: align_words.induct)
  case (1 w ws p ps l ls acc)
  then show ?case
    using edit_distance_dist [of l w p] by (auto simp: edit_distance_def Let_def split: if_splits)
qed auto

lemma align_form_bound:
  assumes "align_form ws ps limits best = Some n"
    and "\<And>b. best = Some b \<Longrightarrow> b \<le> MAX_TOTAL_EDITS \<and> (list_all (\<lambda>l. l = 0) limits \<longrightarrow> b = 0)"
  shows "n \<le> MAX_TOTAL_EDITS \<and> (list_all (\<lambda>l. l = 0) limits \<longrightarrow> n = 0)"
  using assms align_words_exact
  by (auto simp: align_form_def split: if_splits option.splits)

lemma aligned_bound:
  assumes "aligned_edits ws t limits = Some n"
  shows "n \<le> MAX_TOTAL_EDITS \<and> (list_all (\<lambda>l. l = 0) limits \<longrightarrow> n = 0)"
proof -
  have a: "b \<le> MAX_TOTAL_EDITS \<and> (list_all (\<lambda>l. l = 0) limits \<longrightarrow> b = 0)"
    if "align_form ws (folded_words t) limits None = Some b" for b
    by (rule align_form_bound [OF that]) simp
  show ?thesis
    using assms align_form_bound [OF _ a] a by (auto simp: aligned_edits_def Let_def split: if_splits)
qed

lemma choose_within_bound:
  assumes "choose_within ps rs = Some (chosen, k, t)"
  shows "t \<le> MAX_TOTAL_EDITS"
  using assms by (auto simp: choose_within_def split: prod.splits if_splits)

lemma choose_within_exact:
  assumes "choose_within ps rs = Some (chosen, k, t)"
    and "list_all (\<lambda>(p, r). edits p = 0 \<and> edits r = 0) (zip ps rs)"
  shows "t = 0"
  using assms choose_loop_exact [of False "zip ps rs" "[]" 0 0]
  by (auto simp: choose_within_def choose_words_def Let_def split: prod.splits if_splits)

lemma evaluate_variant_bounds:
  assumes "evaluate_variant e ws q fuzzy = Some c"
  shows "cand_entity c = e \<and> cand_class c \<in> {1, 2, 3} \<and> cand_edits c \<le> MAX_TOTAL_EDITS \<and> (\<not> fuzzy \<longrightarrow> cand_edits c = 0)"
proof -
  define limits where "limits = (if fuzzy then map max_edits ws else replicate (length ws) 0)"
  have z: "list_all (\<lambda>l. l = 0) limits" "list_all (\<lambda>x. snd x = 0) (zip ws limits)" if "\<not> fuzzy"
    using that by (auto simp: limits_def list_all_iff in_set_zip)
  note d = evaluate_variant_def finish_def candidate_new_def CLASS_FULL_NAME_def CLASS_PRIMARY_ONLY_def
    CLASS_PRIMARY_RELATED_def Let_def
  show ?thesis
  proof (cases "single q")
    case True
    with assms show ?thesis by (auto simp: d split: if_splits)
  next
    case ns: False
    show ?thesis
    proof (cases "aligned_edits ws (primary e) limits")
      case (Some n)
      with assms ns aligned_bound [OF Some] z(1) show ?thesis by (auto simp: d limits_def [symmetric])
    next
      case None
      with assms ns obtain ms chosen k t where ms: "word_matches e (zip ws limits) = Some ms"
        and ch: "choose_within (map fst ms) (map snd ms) = Some (chosen, k, t)"
        and c: "cand_entity c = e" "cand_class c \<in> {1, 2, 3}" "cand_edits c = t"
        by (auto simp: d limits_def [symmetric] split: option.splits if_splits)
      have "t = 0" if "\<not> fuzzy"
        using choose_within_exact [OF ch] word_matches_exact [OF ms z(2) [OF that]] by (simp add: zip_map_fst_snd)
      with c choose_within_bound [OF ch] show ?thesis by simp
    qed
  qed
qed

definition candidate_ok :: "entity \<Rightarrow> bool \<Rightarrow> candidate \<Rightarrow> bool" where
  "candidate_ok e fuzzy c \<longleftrightarrow> cand_entity c = e \<and> cand_class c \<in> {1, 2, 3} \<and> cand_edits c \<le> MAX_TOTAL_EDITS
     \<and> (\<not> fuzzy \<longrightarrow> cand_edits c = 0)"

lemma best_variant_ok:
  "best_variant e q fuzzy vs best = Some c \<Longrightarrow> (\<And>b. best = Some b \<Longrightarrow> candidate_ok e fuzzy b) \<Longrightarrow> candidate_ok e fuzzy c"
proof (induction vs arbitrary: best)
  case (Cons ws vs)
  show ?case
  proof (cases "evaluate_variant e ws q fuzzy")
    case None
    with Cons.prems Cons.IH [of best] show ?thesis by simp
  next
    case (Some d)
    then have d: "candidate_ok e fuzzy d"
      using evaluate_variant_bounds [of e ws q fuzzy d] unfolding candidate_ok_def by blast
    have "best_variant e q fuzzy vs (Some d) = Some c \<or> best_variant e q fuzzy vs best = Some c"
      using Cons.prems(1) Some by (simp split: if_splits)
    then show ?thesis
      using Cons.IH [of "Some d"] Cons.IH [of best] Cons.prems(2) d by blast
  qed
qed simp

lemma evaluate_ok: "evaluate e q fuzzy = Some c \<Longrightarrow> candidate_ok e fuzzy c"
proof -
  assume "evaluate e q fuzzy = Some c"
  then obtain d where d: "best_variant e q fuzzy (variants q) None = Some d" and c: "c = d\<lparr>secondary := secondary_text e\<rparr>"
    unfolding evaluate_def by (metis map_option_eq_Some)
  have "candidate_ok e fuzzy d" by (rule best_variant_ok [OF d]) simp
  then show ?thesis by (simp add: c candidate_ok_def)
qed

lemma evaluate_all_set:
  "set (evaluate_all es q fuzzy hidden) = {c. \<exists>e \<in> set es. hidden \<noteq> Some (entity_kind e) \<and> evaluate e q fuzzy = Some c}"
  by (force simp: evaluate_all_def sort_candidates_key map_filter_def)

lemma evaluate_all_sorted: "sorted (map rank_key (evaluate_all es q fuzzy hidden))"
  by (simp add: evaluate_all_def sort_candidates_key)

subsection \<open>Groups\<close>

definition of_kind :: "utext \<Rightarrow> candidate list \<Rightarrow> entity list" where
  "of_kind k cs = map cand_entity (filter (\<lambda>c. entity_kind (cand_entity c) = k) cs)"

definition group_of :: "bool \<Rightarrow> entity list \<Rightarrow> entity list" where
  "group_of all_results es = (if all_results then es else take GROUP_LIMIT es)"

definition entries :: "(utext \<Rightarrow> entity list option) \<Rightarrow> utext \<Rightarrow> entity list" where
  "entries m k = (case m k of Some g \<Rightarrow> g | None \<Rightarrow> [])"

lemma assemble_groups_entries:
  "entries (assemble_groups a cs m) k =
     entries m k @ (if a then of_kind k cs else take (GROUP_LIMIT - length (entries m k)) (of_kind k cs))"
proof (induction cs arbitrary: m)
  case (Cons c cs)
  define g where "g = entries m (entity_kind (cand_entity c))"
  define m' where "m' = m(entity_kind (cand_entity c) := Some (if a \<or> length g < GROUP_LIMIT then g @ [cand_entity c] else g))"
  have step: "assemble_groups a (c # cs) m = assemble_groups a cs m'"
    by (simp add: m'_def g_def entries_def Let_def)
  show ?case
  proof (cases "entity_kind (cand_entity c) = k")
    case False
    then have "entries m' k = entries m k" "of_kind k (c # cs) = of_kind k cs"
      by (simp_all add: m'_def entries_def of_kind_def)
    then show ?thesis unfolding step Cons.IH [of m'] by simp
  next
    case True
    then have e: "entries m' k = (if a \<or> length g < GROUP_LIMIT then g @ [cand_entity c] else g)"
      "of_kind k (c # cs) = cand_entity c # of_kind k cs" "entries m k = g"
      by (simp_all add: m'_def entries_def of_kind_def g_def)
    show ?thesis
      unfolding step Cons.IH [of m'] e by (simp add: take_Cons')
  qed
qed (simp add: of_kind_def)

lemma assemble_group: "entries (assemble_groups a cs (\<lambda>_. None)) k = group_of a (of_kind k cs)"
  using assemble_groups_entries [of a cs "\<lambda>_. None" k] by (simp add: group_of_def entries_def)

subsection \<open>Properties\<close>


definition toy_entity :: "string \<Rightarrow> string \<Rightarrow> entity" where
  "toy_entity i nm = \<lparr>entity_kind = txt_of ''track'', entity_id = txt_of i,
     primary = prepared_new toy_unicode (prepare_stored toy_unicode (txt_of nm) ''artist''), related = []\<rparr>"


end
