(* ===== verification/Ogg_Crc.thy ===== *)
theory Ogg_Crc
  imports Media_Bytes
begin

unbundle bit_operations_syntax

text \<open>
  The checksum of Ogg pages (\<open>server/src/inspect/ogg.rs\<close>): the table, the loop over the
  bytes, and what they stand for, the division of the bits by a polynomial of degree 32 one
  bit at a time.
\<close>

subsection \<open>The code\<close>

definition POLYNOMIAL :: "32 word" where
  "POLYNOMIAL = 0x04c11db7"

definition table_step :: "32 word \<Rightarrow> 32 word" where
  "table_step v = (if and v 0x80000000 \<noteq> 0 then push_bit 1 v XOR POLYNOMIAL else push_bit 1 v)"

definition CRC_TABLE :: "32 word list" where
  "CRC_TABLE = map (\<lambda>i. (table_step ^^ 8) (push_bit 24 (of_nat i))) [0..<256]"

definition crc :: "32 word \<Rightarrow> bytes \<Rightarrow> 32 word" where
  "crc checksum data =
     foldl (\<lambda>c b. push_bit 8 c XOR CRC_TABLE ! unat ((ucast (drop_bit 24 c) :: byte) XOR b)) checksum data"

subsection \<open>The reference: a byte at a time through the register\<close>

definition crc_reference :: "32 word \<Rightarrow> bytes \<Rightarrow> 32 word" where
  "crc_reference checksum data = foldl (\<lambda>c b. (table_step ^^ 8) (c XOR push_bit 24 (ucast b))) checksum data"

lemma top_bit_set: "and (v :: 32 word) 0x80000000 \<noteq> 0 \<longleftrightarrow> bit v 31"
  using and_exp_eq_0_iff_not_bit [of v 31] by simp

lemma table_step_bit: "table_step v = push_bit 1 v XOR (if bit v 31 then POLYNOMIAL else 0)"
  by (simp add: table_step_def top_bit_set)

lemma table_step_xor: "table_step (a XOR b) = table_step a XOR table_step b"
  by (simp add: table_step_bit bit_xor_iff push_bit_xor xor.assoc xor.left_commute)

lemma steps_xor: "(table_step ^^ n) (a XOR b) = (table_step ^^ n) a XOR (table_step ^^ n) b"
  by (induction n) (simp_all add: table_step_xor)

lemma steps_low:
  assumes "take_bit 24 v = v" and "n \<le> 8"
  shows "(table_step ^^ n) v = push_bit n v"
  using assms(2)
proof (induction n)
  case (Suc n)
  have "\<not> bit v (31 - n)"
  proof
    assume "bit v (31 - n)"
    then have "bit (take_bit 24 v) (31 - n)" by (simp only: assms(1))
    then have "31 - n < 24" by (simp only: bit_take_bit_iff)
    with Suc.prems show False by linarith
  qed
  then have "\<not> bit (push_bit n v) 31" by (simp add: bit_push_bit_iff)
  then have "table_step (push_bit n v) = push_bit 1 (push_bit n v)"
    by (simp only: table_step_bit if_False xor.right_neutral)
  with Suc show ?case by (simp only: funpow.simps o_apply push_bit_push_bit plus_1_eq_Suc Suc_leD)
qed simp

lemma crc_step:
  "push_bit 8 c XOR CRC_TABLE ! unat ((ucast (drop_bit 24 c) :: byte) XOR b)
     = (table_step ^^ 8) (c XOR push_bit 24 (ucast b))"
proof -
  define x where "x = (ucast (drop_bit 24 c) :: byte) XOR b"
  have split: "c XOR push_bit 24 (ucast b) = push_bit 24 (ucast x) XOR take_bit 24 c"
  proof (rule bit_word_eqI)
    fix n assume "n < LENGTH(32)"
    then show "bit (c XOR push_bit 24 (ucast b)) n \<longleftrightarrow> bit (push_bit 24 (ucast x) XOR take_bit 24 c) n"
      by (cases "24 \<le> n") (auto simp: x_def bit_simps)
  qed
  have "CRC_TABLE ! unat x = (table_step ^^ 8) (push_bit 24 (ucast x))"
    using unat_byte [of x] by (simp add: CRC_TABLE_def)
  moreover have "(table_step ^^ 8) (take_bit 24 c) = push_bit 8 (take_bit 24 c)"
    by (rule steps_low) simp_all
  moreover have "push_bit 8 (take_bit 24 c) = push_bit 8 c"
    by (rule bit_word_eqI) (auto simp: bit_simps)
  ultimately show ?thesis
    unfolding split steps_xor x_def [symmetric] by (simp add: xor.commute)
qed

lemma crc_is_reference: "crc c data = crc_reference c data"
  by (simp only: crc_def crc_reference_def crc_step)

lemma table_step_inj: "table_step a = table_step b \<Longrightarrow> a = b"
proof -
  assume e: "table_step a = table_step b"
  have z: "bit (table_step v) 0 = bit v 31" for v
    by (simp add: table_step_bit bit_xor_iff POLYNOMIAL_def bit_0 even_xor_iff)
  with e have t: "bit a 31 = bit b 31" by metis
  define k where "k = (if bit b 31 then POLYNOMIAL else 0)"
  have "push_bit 1 a XOR k = push_bit 1 b XOR k"
    using e by (simp only: table_step_bit t k_def)
  then have "(push_bit 1 a XOR k) XOR k = (push_bit 1 b XOR k) XOR k" by (simp only:)
  then have p: "push_bit 1 a = push_bit 1 b" by (simp only: xor.assoc xor_self_eq xor.right_neutral)
  show "a = b"
  proof (rule bit_word_eqI)
    fix n assume n: "n < LENGTH(32)"
    show "bit a n = bit b n"
    proof (cases "n = 31")
      case False
      have "bit (push_bit 1 a) (Suc n) = bit (push_bit 1 b) (Suc n)" by (simp only: p)
      with n False show ?thesis unfolding bit_push_bit_iff by simp
    qed (simp add: t)
  qed
qed

lemma steps_inj: "(table_step ^^ n) a = (table_step ^^ n) b \<Longrightarrow> a = b"
  by (induction n) (auto dest: table_step_inj)

lemma crc_append: "crc c (xs @ ys) = crc (crc c xs) ys"
  by (simp add: crc_def)

lemma crc_inj: "crc a data = crc b data \<Longrightarrow> a = b"
proof (induction data arbitrary: a b)
  case (Cons x data)
  then have "(table_step ^^ 8) (a XOR push_bit 24 (ucast x)) = (table_step ^^ 8) (b XOR push_bit 24 (ucast x))"
    by (simp add: crc_is_reference crc_reference_def)
  then have "a XOR push_bit 24 (ucast x) = b XOR push_bit 24 (ucast x)" by (rule steps_inj)
  then have "(a XOR push_bit 24 (ucast x)) XOR push_bit 24 (ucast x) = (b XOR push_bit 24 (ucast x)) XOR push_bit 24 (ucast x)"
    by simp
  then show ?case by (simp add: xor.assoc)
qed (simp add: crc_def)

subsection \<open>Property\<close>

text \<open>The table-driven checksum is the bitwise one, and a changed byte never goes
  unnoticed: from any start, the checksum through the table equals the division of the
  bits by the polynomial one bit at a time, and two runs of bytes that differ in exactly
  one byte have different checksums.\<close>

theorem crc_exact:
  "crc c data = crc_reference c data
   \<and> (b \<noteq> b' \<longrightarrow> crc c (pre @ b # suf) \<noteq> crc c (pre @ b' # suf))"
proof (intro conjI impI notI)
  show "crc c data = crc_reference c data" by (rule crc_is_reference)
  assume ne: "b \<noteq> b'" and e: "crc c (pre @ b # suf) = crc c (pre @ b' # suf)"
  define s where "s = crc c pre"
  have "crc (crc s [b]) suf = crc (crc s [b']) suf"
    using e crc_append [of c pre "b # suf"] crc_append [of c pre "b' # suf"] crc_append [of s "[b]" suf]
      crc_append [of s "[b']" suf]
    by (simp add: s_def)
  then have "crc s [b] = crc s [b']" by (rule crc_inj)
  then have "s XOR push_bit 24 (ucast b) = s XOR push_bit 24 (ucast b')"
    using steps_inj [of 8] by (simp add: crc_is_reference crc_reference_def)
  then have "s XOR (s XOR push_bit 24 (ucast b)) = s XOR (s XOR push_bit 24 (ucast b'))" by simp
  then have p: "push_bit 24 (ucast b :: 32 word) = push_bit 24 (ucast b' :: 32 word)" by (simp add: xor.assoc [symmetric])
  have "b = b'"
  proof (rule bit_word_eqI)
    fix n assume "n < LENGTH(8)"
    moreover have "bit (push_bit 24 (ucast b :: 32 word)) (n + 24) = bit (push_bit 24 (ucast b' :: 32 word)) (n + 24)" by (simp only: p)
    ultimately show "bit b n = bit b' n" by (simp add: bit_simps)
  qed
  with ne show False ..
qed

lemma crc_of_zeros: "crc 0 [0, 0] = 0"
  by (simp add: crc_is_reference crc_reference_def table_step_def numeral_eq_Suc)

theorem crc_exact_witness: "crc 0 [0, 0] \<noteq> crc 0 [0, 1]"
  using crc_exact [of 0 "[]" 0 1 "[0]" "[]"] by simp

end
