(* ===== verification/Ogg_Stream.thy ===== *)
theory Ogg_Stream
  imports Ogg_Crc Id3
begin

text \<open>
  Pages and packets of an Ogg stream (\<open>server/src/inspect/ogg.rs\<close>): the page reader, the
  analysis that checks the continuity of the pages, and the reassembly of the packets.
  \<open>cancel pos\<close> is the caller's answer when the reader stands at \<open>pos\<close>.
\<close>

definition PAGE_HEADER_SIZE_BYTES :: nat where "PAGE_HEADER_SIZE_BYTES = 27"
definition END_OF_STREAM_FLAG :: byte where "END_OF_STREAM_FLAG = 0x04"
definition BEGINNING_OF_STREAM_FLAG :: byte where "BEGINNING_OF_STREAM_FLAG = 0x02"
definition CONTINUED_PACKET_FLAG :: byte where "CONTINUED_PACKET_FLAG = 0x01"
definition MAX_SEGMENT_SIZE :: byte where "MAX_SEGMENT_SIZE = 255"
definition MAX_PICTURE_COMMENT_BYTES :: nat where
  "MAX_PICTURE_COMMENT_BYTES = (MAX_ARTWORK_SIZE_BYTES + 1024) * 2"
definition MAX_HEADER_PACKET_BYTES :: nat where
  "MAX_HEADER_PACKET_BYTES = MAX_PICTURE_COMMENT_BYTES + 64 * 1024"

datatype ogg_codec = Vorbis | Opus

record page =
  header_type :: byte
  granule :: nat
  serial :: nat
  sequence :: nat
  segments :: bytes
  payload :: bytes

datatype page_error = Eof | InvalidPage string

subsection \<open>Pages\<close>

definition payload_size :: "bytes \<Rightarrow> nat" where
  "payload_size segs = sum_list (map unat segs)"

definition page_checksum :: "bytes \<Rightarrow> bytes \<Rightarrow> bytes \<Rightarrow> 32 word" where
  "page_checksum header segs body =
     crc (crc (crc 0 (take 22 header @ [0, 0, 0, 0] @ drop 26 header)) segs) body"

definition page_of :: "bytes \<Rightarrow> bytes \<Rightarrow> bytes \<Rightarrow> page" where
  "page_of header segs body = \<lparr>header_type = header ! 5, granule = le (sub header 6 8), serial = le (sub header 14 4),
     sequence = le (sub header 18 4), segments = segs, payload = body\<rparr>"

definition read_page :: "bytes \<Rightarrow> nat \<Rightarrow> page_error + page \<times> nat" where
  "read_page file pos =
     (let header = sub file pos PAGE_HEADER_SIZE_BYTES in
      if header = [] then Inl Eof
      else if length header < PAGE_HEADER_SIZE_BYTES then Inl (InvalidPage ''unexpected EOF'')
      else if take 4 header \<noteq> ascii ''OggS'' \<or> header ! 4 \<noteq> 0 then Inl (InvalidPage ''OGG page header is invalid'')
      else and_then (map_error (\<lambda>c. InvalidPage (''read OGG segment table: '' @ c))
          (read_exact file (pos + PAGE_HEADER_SIZE_BYTES) (unat (header ! 26)))) (\<lambda>(segs, p1).
        and_then (map_error (\<lambda>c. InvalidPage (''read OGG page payload: '' @ c))
          (read_exact file p1 (payload_size segs))) (\<lambda>(body, p2).
          if page_checksum header segs body \<noteq> of_nat (le (sub header 22 4))
          then Inl (InvalidPage ''OGG page checksum is invalid'')
          else Inr (page_of header segs body, p2))))"

lemma read_page_Inr:
  assumes "read_page file pos = Inr (pg, p)"
  shows "pos + 27 \<le> p" "p \<le> length file" "length (payload pg) = payload_size (segments pg)"
  using assms
  by (auto simp: read_page_def Let_def and_then_Inr_iff PAGE_HEADER_SIZE_BYTES_def read_exact_Inr page_of_def
      sub_length split: if_splits)

fun first_packet :: "bytes \<Rightarrow> bytes \<Rightarrow> nat \<Rightarrow> bytes option" where
  "first_packet body [] n = None"
| "first_packet body (s # segs) n =
     (if s < MAX_SEGMENT_SIZE then Some (take (n + unat s) body) else first_packet body segs (n + unat s))"

definition detect_codec :: "bytes \<Rightarrow> string + ogg_codec" where
  "detect_codec file =
     (case read_page file 0 of
        Inl Eof \<Rightarrow> Inl ''read OGG page header: EOF''
      | Inl (InvalidPage m) \<Rightarrow> Inl (''read OGG page header: '' @ m)
      | Inr (pg, _) \<Rightarrow>
          (case first_packet (payload pg) (segments pg) 0 of
             None \<Rightarrow> Inl ''OGG identification packet spans pages''
           | Some packet \<Rightarrow>
               if starts_with packet (1 # ascii ''vorbis'') then Inr Vorbis
               else if starts_with packet (ascii ''OpusHead'') then Inr Opus
               else Inl ''OGG stream codec is unsupported''))"

subsection \<open>Analysis\<close>

datatype analysis_error = Cancelled | Invalid string

record analysis =
  encoded_audio_bytes :: nat
  final_granule :: nat

record walk =
  w_analysis :: analysis
  w_serial :: nat
  w_expected :: nat
  w_partial :: nat
  w_index :: nat
  w_has_page :: bool
  w_has_eos :: bool

definition validate_continuity :: "page \<Rightarrow> bool \<Rightarrow> bool \<Rightarrow> nat \<Rightarrow> nat \<Rightarrow> bool \<Rightarrow> string + unit" where
  "validate_continuity pg has_page has_eos ser expected has_partial =
     (if has_eos then Inl ''OGG data follows end-of-stream page''
      else if \<not> has_page \<and> (header_type pg AND BEGINNING_OF_STREAM_FLAG = 0 \<or> sequence pg \<noteq> 0)
      then Inl ''OGG beginning-of-stream page is invalid''
      else if has_page \<and> (serial pg \<noteq> ser \<or> sequence pg \<noteq> expected \<or> header_type pg AND BEGINNING_OF_STREAM_FLAG \<noteq> 0)
      then Inl ''OGG stream continuity is invalid''
      else if (header_type pg AND CONTINUED_PACKET_FLAG \<noteq> 0) \<noteq> has_partial
      then Inl ''OGG continued-packet flag is invalid''
      else Inr ())"

fun walk_segments :: "nat \<Rightarrow> bytes \<Rightarrow> walk \<Rightarrow> string + walk" where
  "walk_segments header_packets [] w = Inr w"
| "walk_segments header_packets (s # segs) w =
     (let n = w_partial w + unat s in
      if w_index w < header_packets \<and> MAX_HEADER_PACKET_BYTES < n
      then Inl ''OGG header packet exceeds maximum size''
      else if s < MAX_SEGMENT_SIZE
      then walk_segments header_packets segs
        (w\<lparr>w_partial := 0, w_index := w_index w + 1,
           w_analysis := (if header_packets \<le> w_index w
             then (w_analysis w)\<lparr>encoded_audio_bytes := encoded_audio_bytes (w_analysis w) + n\<rparr> else w_analysis w)\<rparr>)
      else walk_segments header_packets segs (w\<lparr>w_partial := n\<rparr>))"

definition walk_page :: "nat \<Rightarrow> page \<Rightarrow> walk \<Rightarrow> string + walk" where
  "walk_page header_packets pg w =
     and_then (validate_continuity pg (w_has_page w) (w_has_eos w) (w_serial w) (w_expected w) (0 < w_partial w)) (\<lambda>_.
     and_then (walk_segments header_packets (segments pg)
         (w\<lparr>w_serial := (if w_has_page w then w_serial w else serial pg), w_has_page := True,
            w_expected := (sequence pg + 1) mod 2 ^ 32\<rparr>)) (\<lambda>w1.
       Inr (if header_type pg AND END_OF_STREAM_FLAG \<noteq> 0
            then w1\<lparr>w_has_eos := True, w_analysis := (w_analysis w1)\<lparr>final_granule := granule pg\<rparr>\<rparr>
            else w1)))"

function walk_pages :: "(nat \<Rightarrow> bool) \<Rightarrow> bytes \<Rightarrow> nat \<Rightarrow> nat \<Rightarrow> walk \<Rightarrow> analysis_error + walk" where
  "walk_pages cancel file header_packets pos w =
     (if cancel pos then Inl Cancelled
      else (case read_page file pos of
          Inl Eof \<Rightarrow> Inr w
        | Inl (InvalidPage m) \<Rightarrow> Inl (Invalid (''read OGG page: '' @ m))
        | Inr (pg, p) \<Rightarrow>
            (case walk_page header_packets pg w of
               Inl m \<Rightarrow> Inl (Invalid m)
             | Inr w' \<Rightarrow> walk_pages cancel file header_packets p w')))"
  by pat_completeness auto

termination
proof (relation "measure (\<lambda>(_, f, _, pos, _). length f - pos)")
  fix cancel :: "nat \<Rightarrow> bool" and f and header_packets pos :: nat and w r pg w' and p :: nat
  assume "read_page f pos = Inr r" and "(pg, p) = r"
  then show "((cancel, f, header_packets, p, w'), (cancel, f, header_packets, pos, w))
      \<in> measure (\<lambda>(_, f, _, pos, _). length f - pos)"
    using read_page_Inr [of f pos pg p] by auto
qed simp

declare walk_pages.simps [simp del]

definition walk_start :: walk where
  "walk_start = \<lparr>w_analysis = \<lparr>encoded_audio_bytes = 0, final_granule = 0\<rparr>, w_serial = 0, w_expected = 0, w_partial = 0,
     w_index = 0, w_has_page = False, w_has_eos = False\<rparr>"

definition analyze :: "(nat \<Rightarrow> bool) \<Rightarrow> bytes \<Rightarrow> nat \<Rightarrow> analysis_error + analysis" where
  "analyze cancel file header_packets =
     and_then (walk_pages cancel file header_packets 0 walk_start) (\<lambda>w.
       if \<not> w_has_page w \<or> \<not> w_has_eos w \<or> w_partial w \<noteq> 0 \<or> w_index w \<le> header_packets
          \<or> encoded_audio_bytes (w_analysis w) = 0
       then Inl (Invalid ''OGG stream is incomplete'')
       else Inr (w_analysis w))"

subsection \<open>Packets\<close>

record ogg_packet =
  packet_data :: bytes
  packet_granule :: nat
  last_on_page :: bool
  is_last :: bool

fun collect_segments :: "nat \<Rightarrow> bytes \<Rightarrow> bytes \<Rightarrow> nat \<Rightarrow> bytes \<Rightarrow> ogg_packet list \<Rightarrow> bytes \<times> ogg_packet list" where
  "collect_segments g body [] offset acc out = (acc, out)"
| "collect_segments g body (s # segs) offset acc out =
     (let acc' = acc @ sub body offset (unat s) in
      if s < MAX_SEGMENT_SIZE
      then collect_segments g body segs (offset + unat s) []
        (out @ [\<lparr>packet_data = acc', packet_granule = g, last_on_page = False, is_last = False\<rparr>])
      else collect_segments g body segs (offset + unat s) acc' out)"

definition mark_last :: "page \<Rightarrow> nat \<Rightarrow> ogg_packet list \<Rightarrow> ogg_packet list" where
  "mark_last pg first_on_page out =
     (if first_on_page < length out
      then butlast out @ [(last out)\<lparr>last_on_page := True, is_last := (header_type pg AND END_OF_STREAM_FLAG \<noteq> 0)\<rparr>]
      else out)"

function collect_pages :: "bytes \<Rightarrow> nat \<Rightarrow> bytes \<Rightarrow> ogg_packet list \<Rightarrow> string + ogg_packet list" where
  "collect_pages file pos acc out =
     (case read_page file pos of
        Inl Eof \<Rightarrow> Inr out
      | Inl (InvalidPage m) \<Rightarrow> Inl m
      | Inr (pg, p) \<Rightarrow>
          (let (acc', out') = collect_segments (granule pg) (payload pg) (segments pg) 0 acc out
           in collect_pages file p acc' (mark_last pg (length out) out')))"
  by pat_completeness auto

termination
proof (relation "measure (\<lambda>(f, pos, _). length f - pos)")
  fix f and pos p :: nat and acc out r pg x acc' out'
  assume "read_page f pos = Inr r" and "(pg, p) = r"
  then show "((f, p, acc', mark_last pg (length out) out'), (f, pos, acc, out)) \<in> measure (\<lambda>(f, pos, _). length f - pos)"
    using read_page_Inr [of f pos pg p] by auto
qed simp

declare collect_pages.simps [simp del]

definition packets :: "bytes \<Rightarrow> string + ogg_packet list" where
  "packets file = collect_pages file 0 [] []"

subsection \<open>The analysis and the packets agree\<close>

text \<open>What the walk of the analysis says of the packets collected so far and the bytes of the next.\<close>

definition sizes :: "ogg_packet list \<Rightarrow> nat list" where
  "sizes out = map (\<lambda>p. length (packet_data p)) out"

definition agrees :: "nat \<Rightarrow> walk \<Rightarrow> bytes \<Rightarrow> ogg_packet list \<Rightarrow> bool" where
  "agrees header_packets w acc out \<longleftrightarrow> w_partial w = length acc \<and> w_index w = length out
     \<and> encoded_audio_bytes (w_analysis w) = sum_list (drop header_packets (sizes out))
     \<and> list_all (\<lambda>n. n \<le> MAX_HEADER_PACKET_BYTES) (take header_packets (sizes out))"

lemma segments_agree:
  assumes "walk_segments h segs w = Inr w'" and "agrees h w acc out"
    and "collect_segments g body segs offset acc out = (acc', out')"
    and "offset + payload_size segs \<le> length body"
  shows "agrees h w' acc' out' \<and> length out \<le> length out'
     \<and> w_has_page w' = w_has_page w \<and> w_has_eos w' = w_has_eos w \<and> final_granule (w_analysis w') = final_granule (w_analysis w)"
  using assms
proof (induction h segs w arbitrary: offset acc out rule: walk_segments.induct)
  case (2 h s segs w)
  define n where "n = w_partial w + unat s"
  define acc1 where "acc1 = acc @ sub body offset (unat s)"
  have l: "length acc1 = n" using 2(4,6) by (simp add: acc1_def n_def agrees_def payload_size_def sub_length)
  have off: "offset + unat s + payload_size segs \<le> length body" using 2(6) by (simp add: payload_size_def)
  from 2(3) have bound: "\<not> (w_index w < h \<and> MAX_HEADER_PACKET_BYTES < n)" by (auto simp: n_def Let_def split: if_splits)
  note ag = 2(4) [unfolded agrees_def]
  show ?case
  proof (cases "s < MAX_SEGMENT_SIZE")
    case True
    define w1 where "w1 = w\<lparr>w_partial := 0, w_index := w_index w + 1,
       w_analysis := (if h \<le> w_index w
         then (w_analysis w)\<lparr>encoded_audio_bytes := encoded_audio_bytes (w_analysis w) + n\<rparr> else w_analysis w)\<rparr>"
    define out1 where "out1 = out @ [\<lparr>packet_data = acc1, packet_granule = g, last_on_page = False, is_last = False\<rparr>]"
    have s: "sizes out1 = sizes out @ [n]" "length (sizes out) = w_index w"
      using ag by (simp_all add: out1_def sizes_def l)
    have a1: "agrees h w1 [] out1"
    proof (cases "h \<le> w_index w")
      case True
      with ag s show ?thesis by (simp add: agrees_def w1_def out1_def)
    next
      case False
      with bound have "n \<le> MAX_HEADER_PACKET_BYTES" by simp
      with False ag s show ?thesis by (simp add: agrees_def w1_def out1_def take_Cons')
    qed
    have W: "walk_segments h segs w1 = Inr w'"
      using 2(3) bound True unfolding w1_def n_def walk_segments.simps Let_def by (auto split: if_splits)
    have O: "collect_segments g body segs (offset + unat s) [] out1 = (acc', out')"
      using 2(5) True by (simp add: out1_def acc1_def Let_def)
    show ?thesis
      using 2(1) [OF n_def bound True, of "[]" out1 "offset + unat s"] W a1 O off
      by (auto simp: w1_def n_def out1_def)
  next
    case False
    have W: "walk_segments h segs (w\<lparr>w_partial := n\<rparr>) = Inr w'"
      using 2(3) bound False unfolding n_def walk_segments.simps Let_def by (auto split: if_splits)
    have O: "collect_segments g body segs (offset + unat s) acc1 out = (acc', out')"
      using 2(5) False by (simp add: acc1_def Let_def)
    have a1: "agrees h (w\<lparr>w_partial := n\<rparr>) acc1 out" using ag l by (simp add: agrees_def)
    show ?thesis
      using 2(2) [OF n_def bound False, of acc1 out "offset + unat s"] W a1 O off by (auto simp: n_def)
  qed
qed simp

lemma sizes_mark [simp]: "sizes (mark_last pg n out) = sizes out"
  by (cases out rule: rev_cases) (simp_all add: mark_last_def sizes_def)

lemma length_mark [simp]: "length (mark_last pg n out) = length out"
  using sizes_mark [of pg n out] by (metis length_map sizes_def)

lemma page_agrees:
  assumes "walk_page h pg w = Inr w'" and "agrees h w acc out"
    and "collect_segments g (payload pg) (segments pg) 0 acc out = (acc', out')"
    and "length (payload pg) = payload_size (segments pg)"
  shows "agrees h w' acc' (mark_last pg n out')"
proof -
  define w0 where "w0 = w\<lparr>w_serial := (if w_has_page w then w_serial w else serial pg), w_has_page := True,
      w_expected := (sequence pg + 1) mod 2 ^ 32\<rparr>"
  from assms(1) obtain w1 where w1: "walk_segments h (segments pg) w0 = Inr w1"
    and w': "w' = (if header_type pg AND END_OF_STREAM_FLAG \<noteq> 0
            then w1\<lparr>w_has_eos := True, w_analysis := (w_analysis w1)\<lparr>final_granule := granule pg\<rparr>\<rparr> else w1)"
    by (auto simp: walk_page_def and_then_Inr_iff w0_def)
  have "agrees h w0 acc out" using assms(2) by (simp add: agrees_def w0_def)
  from segments_agree [OF w1 this assms(3)] assms(4) have "agrees h w1 acc' out'" by simp
  then show ?thesis by (simp add: agrees_def w')
qed

lemma walk_collects:
  "walk_pages cancel f h pos w = Inr w' \<Longrightarrow> agrees h w acc out \<Longrightarrow>
     \<exists>acc' out'. collect_pages f pos acc out = Inr out' \<and> agrees h w' acc' out'"
proof (induction cancel f h pos w arbitrary: acc out rule: walk_pages.induct)
  case (1 cancel f h pos w)
  have nc: "\<not> cancel pos" using 1(2) by (subst (asm) walk_pages.simps) (simp split: if_splits)
  show ?case
  proof (cases "read_page f pos")
    case (Inl e)
    with 1(2) nc have "e = Eof" "w' = w"
      by (subst (asm) walk_pages.simps; cases e; simp)+
    with Inl 1(3) show ?thesis by (subst collect_pages.simps) auto
  next
    case (Inr r)
    obtain pg p where r: "r = (pg, p)" by (cases r)
    from 1(2) nc Inr r obtain w1 where w1: "walk_page h pg w = Inr w1" and rest: "walk_pages cancel f h p w1 = Inr w'"
      by (subst (asm) walk_pages.simps) (auto split: sum.splits)
    obtain acc1 out1 where c: "collect_segments (granule pg) (payload pg) (segments pg) 0 acc out = (acc1, out1)"
      by (cases "collect_segments (granule pg) (payload pg) (segments pg) 0 acc out")
    have a: "agrees h w1 acc1 (mark_last pg (length out) out1)"
      by (rule page_agrees [OF w1 1(3) c]) (rule read_page_Inr(3) [OF Inr [unfolded r]])
    from 1(1) [OF nc Inr r [symmetric] w1 rest a] c Inr r show ?thesis
      by (subst collect_pages.simps) simp
  qed
qed

subsection \<open>Writing a page\<close>

text \<open>A page as a writer lays it out, with its checksum.\<close>

definition page_header :: "page \<Rightarrow> bytes \<Rightarrow> bytes" where
  "page_header pg checksum = ascii ''OggS'' @ [0, header_type pg] @ to_le 8 (granule pg) @ to_le 4 (serial pg)
     @ to_le 4 (sequence pg) @ checksum @ [of_nat (length (segments pg))]"

definition page_bytes :: "page \<Rightarrow> bytes" where
  "page_bytes pg =
     page_header pg (to_le 4 (unat (page_checksum (page_header pg [0, 0, 0, 0]) (segments pg) (payload pg))))
       @ segments pg @ payload pg"

definition page_ok :: "page \<Rightarrow> bool" where
  "page_ok pg \<longleftrightarrow> granule pg < 2 ^ 64 \<and> serial pg < 2 ^ 32 \<and> sequence pg < 2 ^ 32 \<and> length (segments pg) < 256
     \<and> length (payload pg) = payload_size (segments pg)"

lemma page_header_length: "length c = 4 \<Longrightarrow> length (page_header pg c) = 27"
  by (simp add: page_header_def ascii_def)

lemma page_header_fields:
  assumes "length c = 4"
  shows "take 22 (page_header pg c) @ [0, 0, 0, 0] @ drop 26 (page_header pg c) = page_header pg [0, 0, 0, 0]"
    "take 4 (page_header pg c) = ascii ''OggS''" "page_header pg c ! 4 = 0" "page_header pg c ! 5 = header_type pg"
    "sub (page_header pg c) 6 8 = to_le 8 (granule pg)" "sub (page_header pg c) 14 4 = to_le 4 (serial pg)"
    "sub (page_header pg c) 18 4 = to_le 4 (sequence pg)" "sub (page_header pg c) 22 4 = c"
    "page_header pg c ! 26 = of_nat (length (segments pg))"
  using assms by (simp_all add: page_header_def ascii_def sub_def nth_append)

lemma read_page_bytes:
  assumes "page_ok pg"
  shows "read_page (pre @ page_bytes pg @ rest) (length pre) = Inr (pg, length pre + length (page_bytes pg))"
proof -
  define k where "k = page_checksum (page_header pg [0, 0, 0, 0]) (segments pg) (payload pg)"
  define h where "h = page_header pg (to_le 4 (unat k))"
  have hl: "length h = 27" unfolding h_def by (rule page_header_length) simp
  note f = page_header_fields [of "to_le 4 (unat k)" pg, folded h_def]
  have pb: "page_bytes pg = h @ segments pg @ payload pg" by (simp add: page_bytes_def h_def k_def)
  have sg: "unat (h ! 26) = length (segments pg)" using f(9) assms by (simp add: page_ok_def unat_of_nat)
  have ck: "page_checksum h (segments pg) (payload pg) = k"
    using f(1) page_header_fields(1) [of "[0, 0, 0, 0]" pg] by (simp add: page_checksum_def k_def)
  have "unat k < 2 ^ LENGTH(32)" by (rule unsigned_less)
  then have kk: "of_nat (le (sub h 22 4)) = k"
    using f(8) by (simp add: le_to_le)
  have pg: "page_of h (segments pg) (payload pg) = pg"
    using f(4-7) assms by (simp add: page_of_def page_ok_def le_to_le)
  define b where "b = pre @ page_bytes pg @ rest"
  have s: "sub b (length pre) 27 = h"
    by (simp add: b_def sub_def pb hl)
  have r1: "read_exact b (length pre + 27) (length (segments pg))
      = Inr (segments pg, length pre + 27 + length (segments pg))"
    by (simp add: b_def read_exact_def sub_def pb hl)
  have r2: "read_exact b (length pre + 27 + length (segments pg)) (payload_size (segments pg))
      = Inr (payload pg, length pre + 27 + length (segments pg) + payload_size (segments pg))"
    using assms by (simp add: b_def read_exact_def sub_def pb hl page_ok_def)
  have n: "h \<noteq> []" using hl by auto
  have l: "length (page_bytes pg) = 27 + length (segments pg) + payload_size (segments pg)"
    using assms by (simp add: pb hl page_ok_def)
  have "read_page b (length pre) = Inr (pg, length pre + length (page_bytes pg))"
    by (simp add: read_page_def Let_def PAGE_HEADER_SIZE_BYTES_def s n hl f(2,3) sg r1 r2 ck kk pg l)
  then show ?thesis by (simp add: b_def)
qed

lemma read_page_end: "length file \<le> pos \<Longrightarrow> read_page file pos = Inl Eof"
  by (simp add: read_page_def sub_def)

text \<open>The packets of a list of pages, without the bytes.\<close>

fun packets_of :: "page list \<Rightarrow> bytes \<Rightarrow> ogg_packet list \<Rightarrow> ogg_packet list" where
  "packets_of [] acc out = out"
| "packets_of (pg # pgs) acc out =
     (let (acc', out') = collect_segments (granule pg) (payload pg) (segments pg) 0 acc out
      in packets_of pgs acc' (mark_last pg (length out) out'))"

lemma collect_pages_bytes:
  "list_all page_ok pgs \<Longrightarrow>
     collect_pages (pre @ concat (map page_bytes pgs)) (length pre) acc out = Inr (packets_of pgs acc out)"
proof (induction pgs arbitrary: pre acc out)
  case Nil
  show ?case by (subst collect_pages.simps) (simp add: read_page_end)
next
  case (Cons pg pgs)
  obtain acc' out' where c: "collect_segments (granule pg) (payload pg) (segments pg) 0 acc out = (acc', out')"
    by (cases "collect_segments (granule pg) (payload pg) (segments pg) 0 acc out")
  have "read_page (pre @ page_bytes pg @ concat (map page_bytes pgs)) (length pre)
      = Inr (pg, length pre + length (page_bytes pg))"
    using Cons.prems by (intro read_page_bytes) simp
  moreover have "collect_pages ((pre @ page_bytes pg) @ concat (map page_bytes pgs)) (length (pre @ page_bytes pg))
      acc' (mark_last pg (length out) out') = Inr (packets_of pgs acc' (mark_last pg (length out) out'))"
    using Cons.prems by (intro Cons.IH) simp
  ultimately show ?case by (subst collect_pages.simps) (simp add: c)
qed

fun walk_list :: "nat \<Rightarrow> page list \<Rightarrow> walk \<Rightarrow> string + walk" where
  "walk_list header_packets [] w = Inr w"
| "walk_list header_packets (pg # pgs) w = and_then (walk_page header_packets pg w) (walk_list header_packets pgs)"

lemma walk_pages_bytes:
  assumes "list_all page_ok pgs" and "\<And>k. \<not> cancel k" and "walk_list h pgs w = Inr w'"
  shows "walk_pages cancel (pre @ concat (map page_bytes pgs)) h (length pre) w = Inr w'"
  using assms(1,3)
proof (induction pgs arbitrary: pre w)
  case Nil
  with assms(2) show ?case by (subst walk_pages.simps) (simp add: read_page_end)
next
  case (Cons pg pgs)
  from Cons.prems(2) obtain w1 where w1: "walk_page h pg w = Inr w1" "walk_list h pgs w1 = Inr w'"
    by (auto simp: and_then_Inr_iff)
  have "read_page (pre @ page_bytes pg @ concat (map page_bytes pgs)) (length pre)
      = Inr (pg, length pre + length (page_bytes pg))"
    using Cons.prems by (intro read_page_bytes) simp
  moreover have "walk_pages cancel ((pre @ page_bytes pg) @ concat (map page_bytes pgs)) h (length (pre @ page_bytes pg)) w1 = Inr w'"
    using Cons.prems w1(2) by (intro Cons.IH) simp_all
  ultimately show ?case using assms(2) w1(1) by (subst walk_pages.simps) simp
qed

subsection \<open>Properties\<close>

text \<open>The two passes over an Ogg stream see the same packets. When the analysis accepts
  a stream, collecting its packets cannot fail, there are more than the header packets (so
  taking the headers by their index cannot panic), the encoded audio size is the total
  length of the packets after them, and every header packet respects its limit.\<close>

theorem ogg_passes_agree:
  assumes "analyze cancel file header_packets = Inr an"
  shows "\<exists>ps. packets file = Inr ps \<and> header_packets < length ps
     \<and> encoded_audio_bytes an = sum_list (map (\<lambda>p. length (packet_data p)) (drop header_packets ps))
     \<and> list_all (\<lambda>p. length (packet_data p) \<le> MAX_HEADER_PACKET_BYTES) (take header_packets ps)"
proof -
  from assms obtain w where w: "walk_pages cancel file header_packets 0 walk_start = Inr w"
    and n: "header_packets < w_index w" and an: "an = w_analysis w"
    by (auto simp: analyze_def and_then_Inr_iff split: if_splits)
  have "agrees header_packets walk_start [] []" by (simp add: agrees_def walk_start_def sizes_def)
  from walk_collects [OF w this] obtain acc ps where "packets file = Inr ps" "agrees header_packets w acc ps"
    by (auto simp: packets_def)
  with n an show ?thesis
    by (simp add: agrees_def sizes_def drop_map take_map list_all_iff)
qed

definition toy_pages :: "page list" where
  "toy_pages = [\<lparr>header_type = 2, granule = 0, serial = 7, sequence = 0, segments = [2], payload = [1, 2]\<rparr>,
     \<lparr>header_type = 4, granule = 960, serial = 7, sequence = 1, segments = [3], payload = [3, 4, 5]\<rparr>]"

lemma toy_pages_ok: "list_all page_ok toy_pages"
  by (simp add: toy_pages_def page_ok_def payload_size_def)

lemma toy_analysis:
  "analyze (\<lambda>_. False) (concat (map page_bytes toy_pages)) 1 = Inr \<lparr>encoded_audio_bytes = 3, final_granule = 960\<rparr>"
proof -
  have "\<exists>w. walk_list 1 toy_pages walk_start = Inr w \<and> w_has_page w \<and> w_has_eos w \<and> w_partial w = 0 \<and> w_index w = 2
      \<and> w_analysis w = \<lparr>encoded_audio_bytes = 3, final_granule = 960\<rparr>"
    by (simp add: toy_pages_def walk_start_def walk_page_def validate_continuity_def BEGINNING_OF_STREAM_FLAG_def
        END_OF_STREAM_FLAG_def CONTINUED_PACKET_FLAG_def MAX_SEGMENT_SIZE_def MAX_HEADER_PACKET_BYTES_def)
  then obtain w where w: "walk_list 1 toy_pages walk_start = Inr w" "w_has_page w" "w_has_eos w" "w_partial w = 0"
    "w_index w = 2" "w_analysis w = \<lparr>encoded_audio_bytes = 3, final_granule = 960\<rparr>" by blast
  have "walk_pages (\<lambda>_. False) ([] @ concat (map page_bytes toy_pages)) 1 (length ([] :: bytes)) walk_start = Inr w"
    by (rule walk_pages_bytes [OF toy_pages_ok _ w(1)]) simp
  with w(2-6) show ?thesis by (simp add: analyze_def)
qed

theorem ogg_passes_agree_witness:
  "\<exists>ps. packets (concat (map page_bytes toy_pages)) = Inr ps \<and> 1 < length ps"
  using ogg_passes_agree [OF toy_analysis] by auto



end
