(* ===== verification/Effects.thy ===== *)
theory Effects
  imports Harmony_Prelude
begin

text \<open>
  Fallible steps over a state, for the Desktop Client's player: a step returns
  an error or a value and the state it leaves, also when it fails, since what
  was done before the \<open>?\<close> stays done. \<open>preserves\<close> is the one thing the invariant
  proofs need of a step.
\<close>

type_synonym ('s, 'e, 'a) act = "'s \<Rightarrow> ('e + 'a) \<times> 's"

named_theorems act_simps "unfolding the steps"
named_theorems preserves_intros "what preserves an invariant"

definition return_ok :: "'a \<Rightarrow> ('s, 'e, 'a) act" where
  "return_ok x s = (Inr x, s)"

definition raise_err :: "'e \<Rightarrow> ('s, 'e, 'a) act" where
  "raise_err e s = (Inl e, s)"

definition read_state :: "('s \<Rightarrow> 'a) \<Rightarrow> ('s, 'e, 'a) act" where
  "read_state g s = (Inr (g s), s)"

definition modify :: "('s \<Rightarrow> 's) \<Rightarrow> ('s, 'e, unit) act" where
  "modify g s = (Inr (), g s)"

text \<open>The \<open>?\<close> operator, a match on the result, and a result that is only logged.\<close>

definition bind_act :: "('s, 'e, 'a) act \<Rightarrow> ('a \<Rightarrow> ('s, 'e, 'b) act) \<Rightarrow> ('s, 'e, 'b) act" where
  "bind_act m k s = (case m s of (Inl e, s') \<Rightarrow> (Inl e, s') | (Inr x, s') \<Rightarrow> k x s')"

definition then_act :: "('s, 'e, 'a) act \<Rightarrow> ('s, 'e, 'b) act \<Rightarrow> ('s, 'e, 'b) act" where
  "then_act m k s = (case m s of (Inl e, s') \<Rightarrow> (Inl e, s') | (Inr x, s') \<Rightarrow> k s')"

definition match_act :: "('s, 'e, 'a) act \<Rightarrow> ('e \<Rightarrow> ('s, 'd, 'b) act) \<Rightarrow> ('a \<Rightarrow> ('s, 'd, 'b) act) \<Rightarrow> ('s, 'd, 'b) act" where
  "match_act m h k s = (case m s of (Inl e, s') \<Rightarrow> h e s' | (Inr x, s') \<Rightarrow> k x s')"

definition attempt :: "('s, 'e, 'a) act \<Rightarrow> ('s, 'd, 'e + 'a) act" where
  "attempt m s = (case m s of (r, s') \<Rightarrow> (Inr r, s'))"

definition logged :: "('s, 'e, 'a) act \<Rightarrow> ('s, 'd, unit) act" where
  "logged m s = (Inr (), snd (m s))"

definition when_act :: "bool \<Rightarrow> ('s, 'e, unit) act \<Rightarrow> ('s, 'e, unit) act" where
  "when_act b m = (if b then m else return_ok ())"

definition of_result :: "'e + 'a \<Rightarrow> ('s, 'e, 'a) act" where
  "of_result r s = (r, s)"

lemmas act_defs = return_ok_def raise_err_def read_state_def modify_def bind_act_def then_act_def match_act_def
  attempt_def logged_def when_act_def of_result_def

declare act_defs [act_simps]

subsection \<open>Invariants\<close>

definition preserves :: "('s \<Rightarrow> bool) \<Rightarrow> ('s, 'e, 'a) act \<Rightarrow> bool" where
  "preserves P m \<longleftrightarrow> (\<forall>s. P s \<longrightarrow> P (snd (m s)))"

lemma preservesD: "preserves P m \<Longrightarrow> P s \<Longrightarrow> P (snd (m s))"
  by (simp add: preserves_def)

lemma preservesI: "(\<And>s. P s \<Longrightarrow> P (snd (m s))) \<Longrightarrow> preserves P m"
  by (simp add: preserves_def)

lemma preserves_return [preserves_intros]: "preserves P (return_ok x)"
  by (simp add: preserves_def return_ok_def)

lemma preserves_raise [preserves_intros]: "preserves P (raise_err e)"
  by (simp add: preserves_def raise_err_def)

lemma preserves_read [preserves_intros]: "preserves P (read_state g)"
  by (simp add: preserves_def read_state_def)

lemma preserves_result [preserves_intros]: "preserves P (of_result r)"
  by (simp add: preserves_def of_result_def)

lemma preserves_modify: "(\<And>s. P s \<Longrightarrow> P (g s)) \<Longrightarrow> preserves P (modify g)"
  by (simp add: preserves_def modify_def)

lemma preserves_bind [preserves_intros]:
  "preserves P m \<Longrightarrow> (\<And>x. preserves P (k x)) \<Longrightarrow> preserves P (bind_act m k)"
  by (auto simp: preserves_def bind_act_def split: prod.splits sum.splits)

lemma preserves_then [preserves_intros]: "preserves P m \<Longrightarrow> preserves P k \<Longrightarrow> preserves P (then_act m k)"
  by (auto simp: preserves_def then_act_def split: prod.splits sum.splits)

lemma preserves_match [preserves_intros]:
  "preserves P m \<Longrightarrow> (\<And>e. preserves P (h e)) \<Longrightarrow> (\<And>x. preserves P (k x)) \<Longrightarrow> preserves P (match_act m h k)"
  by (auto simp: preserves_def match_act_def split: prod.splits sum.splits)

lemma preserves_attempt [preserves_intros]: "preserves P m \<Longrightarrow> preserves P (attempt m)"
  by (auto simp: preserves_def attempt_def split: prod.splits)

lemma preserves_logged [preserves_intros]: "preserves P m \<Longrightarrow> preserves P (logged m)"
  by (simp add: preserves_def logged_def)

lemma preserves_when [preserves_intros]: "(b \<Longrightarrow> preserves P m) \<Longrightarrow> preserves P (when_act b m)"
  by (simp add: when_act_def preserves_return)

lemma preserves_if [preserves_intros]:
  "(b \<Longrightarrow> preserves P m) \<Longrightarrow> (\<not> b \<Longrightarrow> preserves P k) \<Longrightarrow> preserves P (if b then m else k)"
  by simp

lemma preserves_option [preserves_intros]:
  "(x = None \<Longrightarrow> preserves P m) \<Longrightarrow> (\<And>y. x = Some y \<Longrightarrow> preserves P (k y))
    \<Longrightarrow> preserves P (case x of None \<Rightarrow> m | Some y \<Rightarrow> k y)"
  by (cases x) simp_all

lemma preserves_sum [preserves_intros]:
  "(\<And>e. x = Inl e \<Longrightarrow> preserves P (h e)) \<Longrightarrow> (\<And>y. x = Inr y \<Longrightarrow> preserves P (k y))
    \<Longrightarrow> preserves P (case x of Inl e \<Rightarrow> h e | Inr y \<Rightarrow> k y)"
  by (cases x) simp_all

lemma with_if_player: "(\<And>p. preserves P (m p)) \<Longrightarrow> preserves P (\<lambda>p. m p p)"
  by (simp add: preserves_def)

lemma preserves_prod [preserves_intros]:
  "(\<And>a b. preserves P (k a b)) \<Longrightarrow> preserves P (case x of (a, b) \<Rightarrow> k a b)"
  by (cases x) simp

lemma preserves_state:
  "preserves P (\<lambda>s. (r, s))"
  "preserves P m \<Longrightarrow> preserves P k \<Longrightarrow> preserves P (\<lambda>s. if b s then m s else k s)"
  "preserves P m \<Longrightarrow> (\<And>y. preserves P (h y)) \<Longrightarrow> preserves P (\<lambda>s. case x s of None \<Rightarrow> m s | Some y \<Rightarrow> h y s)"
  "(\<And>z. preserves P (l z)) \<Longrightarrow> preserves P (\<lambda>s. l (g s) s)"
  by (auto simp: preserves_def split: option.split)

text \<open>Running steps whose outcome is known, and what is known from an outcome.\<close>

lemma act_run:
  "then_act (modify g) n s = n (g s)" "bind_act (read_state h) k s = k (h s) s"
  "bind_act (return_ok x) k s = k x s" "then_act (return_ok y) n s = n s" "bind_act (of_result (Inr x)) k s = k x s"
  "m s = (Inr x, t) \<Longrightarrow> bind_act m k s = k x t" "m' s = (Inr y, t) \<Longrightarrow> then_act m' n s = n t"
  by (simp_all add: act_defs)

lemma act_result:
  "bind_act m k s = (r, s') \<longleftrightarrow> (\<exists>e. m s = (Inl e, s') \<and> r = Inl e) \<or> (\<exists>x t. m s = (Inr x, t) \<and> k x t = (r, s'))"
  "then_act m n s = (r, s') \<longleftrightarrow> (\<exists>e. m s = (Inl e, s') \<and> r = Inl e) \<or> (\<exists>x t. m s = (Inr x, t) \<and> n t = (r, s'))"
  "match_act m h l s = (r', s') \<longleftrightarrow> (\<exists>e t. m s = (Inl e, t) \<and> h e t = (r', s')) \<or> (\<exists>x t. m s = (Inr x, t) \<and> l x t = (r', s'))"
  by (auto simp: bind_act_def then_act_def match_act_def split: prod.splits sum.splits)

end
