(* ===== verification/Processing.thy ===== *)
theory Processing
  imports Playback_Lifecycle
begin

text \<open>
  The Desktop Client's Processing Profile (\<open>desktop/core/src/processing.rs\<close>):
  the software volume, ReplayGain and equalizer settings, what they ask of mpv
  and how they are kept in a file.

  The settings file is a value of the world, as in \<open>Playback_Lifecycle\<close>; its
  JSON codec is a pair of parameters, and so is the decimal form of a float
  inside a filter's name.
\<close>

definition EQ_FREQUENCIES_HZ :: "f64 list" where
  "EQ_FREQUENCIES_HZ = map Fin [125 / 4, 125 / 2, 125, 250, 500, 1000, 2000, 4000, 8000, 16000]"

datatype processing_profile = ProfileDirect | ProfileProcessed

datatype output_mode_kind = SystemOutput | DirectAlsa | AdaptiveSystemRate

datatype gain_mode = GainOff | GainTrack | GainAlbum

datatype effective_gain = EffectiveOff | EffectiveTrack | EffectiveAlbum | TrackFallback | GainUnavailable | GainUnknown

datatype eq_preset = Flat | BassBoost | Vocal | TrebleBoost | Custom

record equalizer_state =
  eq_enabled :: bool
  eq_preset :: eq_preset
  gains_db :: "f64 list"

record processing_state =
  profile :: processing_profile
  software_volume :: f64
  replay_gain_mode :: gain_mode
  effective_replay_gain_mode :: effective_gain
  replay_gain_preference :: "gain_mode option"
  equalizer :: equalizer_state
  effective_audio_filters :: "string list"
  transition_notice :: "string option"

record processing_settings =
  kept_mode :: output_mode_kind
  kept_device_id :: "string option"
  kept_volumes :: "string \<rightharpoonup> f64"
  kept_profile :: processing_profile
  kept_volume :: f64
  kept_gain_mode :: gain_mode
  kept_gain_preference :: "gain_mode option"
  kept_equalizer :: equalizer_state

record mpv_processing =
  volume_percent :: f64
  mpv_gain_mode :: gain_mode
  audio_filters :: "string list"

record processing_snapshot =
  snap_state :: processing_state
  snap_volumes :: "string \<rightharpoonup> f64"

record processing_controller =
  output_mode :: output_mode_kind
  selected_output_device_id :: "string option"
  volume_by_output_device :: "string \<rightharpoonup> f64"
  p_state :: processing_state

subsection \<open>The settings of a state\<close>

definition flat_equalizer :: equalizer_state where
  "flat_equalizer = \<lparr>eq_enabled = False, eq_preset = Flat, gains_db = replicate 10 (Fin 0)\<rparr>"

definition default_state :: processing_state where
  "default_state = \<lparr>profile = ProfileDirect, software_volume = Fin 1, replay_gain_mode = GainOff,
     effective_replay_gain_mode = EffectiveOff, replay_gain_preference = None, equalizer = flat_equalizer,
     effective_audio_filters = [], transition_notice = None\<rparr>"

fun preset_gains :: "eq_preset \<Rightarrow> f64 list" where
  "preset_gains Flat = replicate 10 (Fin 0)"
| "preset_gains Custom = replicate 10 (Fin 0)"
| "preset_gains BassBoost = map Fin [5, 4, 3, 3 / 2, 0, 0, 0, 0, 0, 0]"
| "preset_gains Vocal = map Fin [- 2, - 1, 0, 3 / 2, 3, 3, 2, 1, 0, - 1]"
| "preset_gains TrebleBoost = map Fin [0, 0, 0, 0, 0, 1 / 2, 3 / 2, 3, 4, 5]"

definition create_equalizer_filters :: "(f64 \<Rightarrow> string) \<Rightarrow> f64 list \<Rightarrow> string list" where
  "create_equalizer_filters show_f64 gains =
     map (\<lambda>(f, g). ''equalizer=f='' @ show_f64 f @ '':t=q:w=1:g='' @ show_f64 g) (zip EQ_FREQUENCIES_HZ gains)"

definition mpv_configuration_for :: "(f64 \<Rightarrow> string) \<Rightarrow> processing_state \<Rightarrow> mpv_processing" where
  "mpv_configuration_for show_f64 st =
     \<lparr>volume_percent = f64_mul (software_volume st) (Fin 100), mpv_gain_mode = replay_gain_mode st,
      audio_filters = (if eq_enabled (equalizer st)
        then create_equalizer_filters show_f64 (gains_db (equalizer st)) else [])\<rparr>"

definition transition_to_processed :: "bool \<Rightarrow> string \<Rightarrow> processing_state \<Rightarrow> processing_state" where
  "transition_to_processed is_transition notice st =
     (if is_transition then st\<lparr>profile := ProfileProcessed, transition_notice := Some notice\<rparr>
      else st\<lparr>transition_notice := None\<rparr>)"

definition clear_active_processing :: "processing_state \<Rightarrow> processing_state" where
  "clear_active_processing st = st\<lparr>software_volume := Fin 1, replay_gain_mode := GainOff,
     effective_replay_gain_mode := EffectiveOff, equalizer := flat_equalizer\<rparr>"

definition output_volume_key :: "output_mode_kind \<Rightarrow> string option \<Rightarrow> string" where
  "output_volume_key mode dev =
     (case (mode, dev) of (DirectAlsa, Some d) \<Rightarrow> ''alsa:'' @ d | _ \<Rightarrow> ''system'')"

definition settings_from_state :: "processing_state \<Rightarrow> output_mode_kind \<Rightarrow> string option \<Rightarrow> (string \<rightharpoonup> f64)
    \<Rightarrow> processing_settings" where
  "settings_from_state st mode dev vols =
     \<lparr>kept_mode = mode, kept_device_id = dev, kept_volumes = vols, kept_profile = profile st,
      kept_volume = software_volume st, kept_gain_mode = replay_gain_mode st,
      kept_gain_preference = replay_gain_preference st, kept_equalizer = equalizer st\<rparr>"

definition controller_of_settings :: "processing_settings \<Rightarrow> processing_controller" where
  "controller_of_settings s =
     \<lparr>output_mode = kept_mode s, selected_output_device_id = kept_device_id s,
      volume_by_output_device = kept_volumes s,
      p_state = \<lparr>profile = kept_profile s, software_volume = kept_volume s, replay_gain_mode = kept_gain_mode s,
        effective_replay_gain_mode = (if kept_gain_mode s = GainOff then EffectiveOff else GainUnknown),
        replay_gain_preference = kept_gain_preference s, equalizer = kept_equalizer s,
        effective_audio_filters = [], transition_notice = None\<rparr>\<rparr>"

definition default_controller :: processing_controller where
  "default_controller = \<lparr>output_mode = SystemOutput, selected_output_device_id = None,
     volume_by_output_device = Map.empty, p_state = default_state\<rparr>"

subsection \<open>Keeping the settings\<close>

text \<open>Errors with a path or the system's text in them are named, not spelled out.\<close>

datatype settings_error = SettingsReadFails | SettingsParseFails | SettingsEncodeFails | SettingsSaveFails | SettingsMessage string

type_synonym settings_codec = "processing_settings \<Rightarrow> string option"

definition storage_save :: "save_outcome \<Rightarrow> string \<Rightarrow> file_read \<Rightarrow> (settings_error + unit) \<times> file_read" where
  "storage_save out v f = (if out = Saves then (Inr (), Contents v) else (Inl SettingsSaveFails, f))"

definition processing_open :: "(string \<Rightarrow> processing_settings option) \<Rightarrow> file_read
    \<Rightarrow> settings_error + processing_controller" where
  "processing_open decode f =
     (case f of
        ReadFailed \<Rightarrow> Inl SettingsReadFails
      | Absent \<Rightarrow> Inr default_controller
      | Contents c \<Rightarrow>
          (case decode c of None \<Rightarrow> Inl SettingsParseFails | Some s \<Rightarrow> Inr (controller_of_settings s)))"

definition remembered_volume :: "processing_controller \<Rightarrow> f64 option" where
  "remembered_volume pc = volume_by_output_device pc (output_volume_key (output_mode pc) (selected_output_device_id pc))"

type_synonym settings_op = "save_outcome \<Rightarrow> processing_controller \<Rightarrow> file_read
    \<Rightarrow> (settings_error + unit) \<times> processing_controller \<times> file_read"

definition persist_settings :: "settings_codec \<Rightarrow> processing_state \<Rightarrow> output_mode_kind \<Rightarrow> string option
    \<Rightarrow> save_outcome \<Rightarrow> processing_controller \<Rightarrow> file_read \<Rightarrow> (settings_error + unit) \<times> file_read" where
  "persist_settings encode st mode dev out pc f =
     (case encode (settings_from_state st mode dev (volume_by_output_device pc)) of
        None \<Rightarrow> (Inl SettingsEncodeFails, f)
      | Some v \<Rightarrow> storage_save out v f)"

definition persist_state :: "settings_codec \<Rightarrow> processing_state \<Rightarrow> save_outcome \<Rightarrow> processing_controller \<Rightarrow> file_read
    \<Rightarrow> (settings_error + unit) \<times> file_read" where
  "persist_state encode st out pc f =
     persist_settings encode st (output_mode pc) (selected_output_device_id pc) out pc f"

definition set_output_mode :: "settings_codec \<Rightarrow> output_mode_kind \<Rightarrow> settings_op" where
  "set_output_mode encode mode out pc f =
     (case persist_settings encode (p_state pc) mode (selected_output_device_id pc) out pc f of
        (Inl e, f') \<Rightarrow> (Inl e, pc, f')
      | (Inr _, f') \<Rightarrow> (Inr (), pc\<lparr>output_mode := mode\<rparr>, f'))"

definition select_output_device :: "settings_codec \<Rightarrow> string \<Rightarrow> settings_op" where
  "select_output_device encode dev out pc f =
     (case persist_settings encode (p_state pc) (output_mode pc) (Some dev) out pc f of
        (Inl e, f') \<Rightarrow> (Inl e, pc, f')
      | (Inr _, f') \<Rightarrow> (Inr (), pc\<lparr>selected_output_device_id := Some dev\<rparr>, f'))"

definition keep_direct_alsa_output :: "settings_codec \<Rightarrow> string \<Rightarrow> settings_op" where
  "keep_direct_alsa_output encode dev out pc f =
     (case persist_settings encode (p_state pc) DirectAlsa (Some dev) out pc f of
        (Inl e, f') \<Rightarrow> (Inl e, pc, f')
      | (Inr _, f') \<Rightarrow> (Inr (), pc\<lparr>output_mode := DirectAlsa, selected_output_device_id := Some dev\<rparr>, f'))"

definition commit :: "settings_codec \<Rightarrow> (processing_state \<Rightarrow> settings_error + processing_state) \<Rightarrow> settings_op" where
  "commit encode change out pc f =
     (case change (p_state pc) of
        Inl e \<Rightarrow> (Inl e, pc, f)
      | Inr st \<Rightarrow>
          (case persist_state encode st out pc f of
             (Inl e, f') \<Rightarrow> (Inl e, pc, f')
           | (Inr _, f') \<Rightarrow> (Inr (), pc\<lparr>p_state := st\<rparr>, f')))"

subsection \<open>The operations\<close>

definition profile_change :: "processing_profile \<Rightarrow> processing_state \<Rightarrow> processing_state" where
  "profile_change p st =
     (let st' = st\<lparr>profile := p, transition_notice := None\<rparr>
      in if p = ProfileDirect then clear_active_processing st' else st')"

definition set_profile :: "settings_codec \<Rightarrow> processing_profile \<Rightarrow> settings_op" where
  "set_profile encode p = commit encode (\<lambda>st. Inr (profile_change p st))"

definition volume_change :: "f64 \<Rightarrow> processing_state \<Rightarrow> processing_state" where
  "volume_change v st =
     transition_to_processed (profile st = ProfileDirect \<and> \<not> f64_eq v (Fin 1))
       ''Software volume requires the Processed Profile.'' (st\<lparr>software_volume := v\<rparr>)"

definition set_software_volume :: "settings_codec \<Rightarrow> f64 \<Rightarrow> settings_op" where
  "set_software_volume encode x out pc f =
     (let v = (if is_finite x then f64_clamp x 0 1 else Fin 0);
          key = output_volume_key (output_mode pc) (selected_output_device_id pc);
          previous = volume_by_output_device pc key;
          pc1 = pc\<lparr>volume_by_output_device := (volume_by_output_device pc)(key \<mapsto> v)\<rparr>
      in (case commit encode (\<lambda>st. Inr (volume_change v st)) out pc1 f of
            (Inr _, pc2, f') \<Rightarrow> (Inr (), pc2, f')
          | (Inl e, pc2, f') \<Rightarrow>
              (Inl e, pc2\<lparr>volume_by_output_device := (volume_by_output_device pc2)(key := previous)\<rparr>, f')))"

definition disable_replay_gain :: "settings_codec \<Rightarrow> settings_op" where
  "disable_replay_gain encode = commit encode (\<lambda>st. Inr (st\<lparr>replay_gain_mode := GainOff,
     effective_replay_gain_mode := EffectiveOff, transition_notice := None\<rparr>))"

definition gain_change :: "gain_mode \<Rightarrow> processing_state \<Rightarrow> processing_state" where
  "gain_change mode st =
     transition_to_processed (profile st = ProfileDirect) ''ReplayGain requires the Processed Profile.''
       (st\<lparr>replay_gain_mode := mode, effective_replay_gain_mode := GainUnknown, replay_gain_preference := Some mode\<rparr>)"

definition enable_replay_gain :: "settings_codec \<Rightarrow> gain_mode \<Rightarrow> settings_op" where
  "enable_replay_gain encode mode =
     (if mode = GainOff then disable_replay_gain encode
      else commit encode (\<lambda>st. Inr (gain_change mode st)))"

definition preset_change :: "eq_preset \<Rightarrow> processing_state \<Rightarrow> processing_state" where
  "preset_change p st =
     (let enabled = (p \<noteq> Flat)
      in transition_to_processed (profile st = ProfileDirect \<and> enabled)
           ''Equalizer changes require the Processed Profile.''
           (st\<lparr>equalizer := \<lparr>eq_enabled = enabled, eq_preset = p, gains_db = preset_gains p\<rparr>\<rparr>))"

definition apply_equalizer_preset :: "settings_codec \<Rightarrow> eq_preset \<Rightarrow> settings_op" where
  "apply_equalizer_preset encode p = commit encode (\<lambda>st. Inr (preset_change p st))"

definition eq_gain_change :: "nat \<Rightarrow> f64 \<Rightarrow> processing_state \<Rightarrow> settings_error + processing_state" where
  "eq_gain_change i x st =
     (let eq = equalizer st in
      if length (gains_db eq) \<le> i
      then Inl (SettingsMessage (''Equalizer band index '' @ digits i @ '' is out of range.''))
      else let g = (if is_finite x then f64_clamp x (- 12) 12 else Fin 0);
               st' = st\<lparr>equalizer := \<lparr>eq_enabled = True, eq_preset = Custom, gains_db = (gains_db eq)[i := g]\<rparr>\<rparr>
           in Inr (transition_to_processed (profile st' = ProfileDirect)
                ''Equalizer changes require the Processed Profile.'' st'))"

definition set_equalizer_gain :: "settings_codec \<Rightarrow> nat \<Rightarrow> f64 \<Rightarrow> settings_op" where
  "set_equalizer_gain encode i x = commit encode (eq_gain_change i x)"

definition mpv_configuration :: "(f64 \<Rightarrow> string) \<Rightarrow> processing_controller \<Rightarrow> mpv_processing" where
  "mpv_configuration show_f64 pc = mpv_configuration_for show_f64 (p_state pc)"

definition restore :: "settings_codec \<Rightarrow> processing_state \<Rightarrow> settings_op" where
  "restore encode st out pc f =
     (case persist_state encode st out pc f of
        (Inl e, f') \<Rightarrow> (Inl e, pc, f')
      | (Inr _, f') \<Rightarrow> (Inr (), pc\<lparr>p_state := st\<rparr>, f'))"

definition processing_snapshot_of :: "processing_controller \<Rightarrow> processing_snapshot" where
  "processing_snapshot_of pc = \<lparr>snap_state = p_state pc, snap_volumes = volume_by_output_device pc\<rparr>"

definition restore_snapshot :: "settings_codec \<Rightarrow> processing_snapshot \<Rightarrow> settings_op" where
  "restore_snapshot encode snap out pc f =
     (let pc' = pc\<lparr>p_state := snap_state snap, volume_by_output_device := snap_volumes snap\<rparr>;
          (r, f') = persist_state encode (p_state pc') out pc' f
      in (r, pc', f'))"

subsection \<open>The Direct profile is neutral\<close>

definition processing_ok :: "processing_state \<Rightarrow> bool" where
  "processing_ok st \<longleftrightarrow>
     f64_between 0 (software_volume st) 1
   \<and> length (gains_db (equalizer st)) = 10 \<and> (\<forall>g \<in> set (gains_db (equalizer st)). f64_between (- 12) g 12)
   \<and> (profile st = ProfileDirect \<longrightarrow> software_volume st = Fin 1 \<and> replay_gain_mode st = GainOff
        \<and> \<not> eq_enabled (equalizer st))"

definition controller_ok :: "processing_controller \<Rightarrow> bool" where
  "controller_ok pc \<longleftrightarrow> processing_ok (p_state pc)
     \<and> (\<forall>v \<in> ran (volume_by_output_device pc). f64_between 0 v 1)"

definition settings_of :: "processing_controller \<Rightarrow> processing_settings" where
  "settings_of pc = settings_from_state (p_state pc) (output_mode pc) (selected_output_device_id pc)
     (volume_by_output_device pc)"

text \<open>The operations of the controller, and a run of them with any outcomes of saving.\<close>

inductive settings_change :: "settings_codec \<Rightarrow> settings_op \<Rightarrow> bool" for encode where
  "settings_change encode (set_output_mode encode mode)"
| "settings_change encode (select_output_device encode dev)"
| "settings_change encode (keep_direct_alsa_output encode dev)"
| "settings_change encode (set_profile encode p)"
| "settings_change encode (set_software_volume encode x)"
| "settings_change encode (enable_replay_gain encode g)"
| "settings_change encode (disable_replay_gain encode)"
| "settings_change encode (apply_equalizer_preset encode q)"
| "settings_change encode (set_equalizer_gain encode i x)"
| "processing_ok st \<Longrightarrow> settings_change encode (restore encode st)"

inductive settings_run :: "settings_codec \<Rightarrow> processing_controller \<Rightarrow> file_read
    \<Rightarrow> processing_controller \<Rightarrow> file_read \<Rightarrow> bool" for encode pc0 f0 where
  run_starts: "settings_run encode pc0 f0 pc0 f0"
| run_changes: "settings_run encode pc0 f0 pc f \<Longrightarrow> settings_change encode op
    \<Longrightarrow> op out pc f = (r, pc', f') \<Longrightarrow> settings_run encode pc0 f0 pc' f'"

lemma gains_update:
  "length gs = 10 \<Longrightarrow> \<forall>g \<in> set gs. f64_between (- 12) g 12 \<Longrightarrow> f64_between (- 12) x 12
    \<Longrightarrow> \<forall>g \<in> set (gs[i := x]). f64_between (- 12) g 12"
  using set_update_subset_insert [of gs i x] by auto

lemma preset_gains_ok: "length (preset_gains p) = 10" "\<forall>g \<in> set (preset_gains p). f64_between (- 12) g 12"
  by (cases p; simp)+

lemma changes_ok:
  assumes "processing_ok st"
  shows "processing_ok (profile_change p st)"
    and "f64_between 0 v 1 \<Longrightarrow> processing_ok (volume_change v st)"
    and "processing_ok (st\<lparr>replay_gain_mode := GainOff, effective_replay_gain_mode := EffectiveOff,
           transition_notice := None\<rparr>)"
    and "processing_ok (gain_change g st)"
    and "processing_ok (preset_change q st)"
    and "eq_gain_change i x st = Inr st' \<Longrightarrow> processing_ok st'"
proof -
  show "processing_ok (profile_change p st)"
    using assms by (auto simp: processing_ok_def profile_change_def clear_active_processing_def
        flat_equalizer_def Let_def)
  show "processing_ok (volume_change v st)" if "f64_between 0 v 1"
    using assms that by (auto simp: processing_ok_def volume_change_def transition_to_processed_def f64_eq_def)
  show "processing_ok (st\<lparr>replay_gain_mode := GainOff, effective_replay_gain_mode := EffectiveOff,
      transition_notice := None\<rparr>)"
    using assms by (simp add: processing_ok_def)
  show "processing_ok (gain_change g st)"
    using assms by (auto simp: processing_ok_def gain_change_def transition_to_processed_def)
  show "processing_ok (preset_change q st)"
    using assms preset_gains_ok [of q]
    by (auto simp: processing_ok_def preset_change_def transition_to_processed_def Let_def)
  show "processing_ok st'" if "eq_gain_change i x st = Inr st'"
  proof -
    have b: "f64_between (- 12) (if is_finite x then f64_clamp x (- 12) 12 else Fin 0) 12"
      using f64_clamp_between [of "- 12" 12 x] by simp
    show ?thesis
      using that assms gains_update [OF _ _ b, of "gains_db (equalizer st)" i]
      by (auto simp: processing_ok_def eq_gain_change_def transition_to_processed_def Let_def split: if_splits)
  qed
qed

lemma commit_cases:
  assumes "commit encode change out pc f = (r, pc', f')"
  obtains e where "r = Inl e" "pc' = pc" "f' = f"
  | st c where "r = Inr ()" "change (p_state pc) = Inr st" "pc' = pc\<lparr>p_state := st\<rparr>"
      "encode (settings_of pc') = Some c" "f' = Contents c"
  using assms
  by (auto simp: commit_def persist_state_def persist_settings_def storage_save_def settings_of_def
      split: sum.splits option.splits if_splits prod.splits)

lemmas keeps_defs = set_output_mode_def select_output_device_def keep_direct_alsa_output_def restore_def
  persist_state_def persist_settings_def storage_save_def settings_of_def settings_from_state_def

text \<open>An operation either changes nothing or leaves the file holding its settings.\<close>

lemma change_keeps:
  assumes "settings_change encode op" and "op out pc f = (r, pc', f')"
  shows "(\<exists>e. r = Inl e \<and> pc' = pc \<and> f' = f) \<or> (\<exists>c. encode (settings_of pc') = Some c \<and> f' = Contents c)"
  using assms
proof cases
  case (5 x)
  let ?v = "if is_finite x then f64_clamp x 0 1 else Fin 0"
  let ?k = "output_volume_key (output_mode pc) (selected_output_device_id pc)"
  let ?pc1 = "pc\<lparr>volume_by_output_device := (volume_by_output_device pc)(?k \<mapsto> ?v)\<rparr>"
  obtain r1 pc2 f2 where c: "commit encode (\<lambda>st. Inr (volume_change ?v st)) out ?pc1 f = (r1, pc2, f2)"
    by (metis prod_cases3)
  from c show ?thesis
    using assms(2) 5 c
    by (cases rule: commit_cases) (auto simp: set_software_volume_def Let_def)
qed (auto simp: keeps_defs set_profile_def disable_replay_gain_def enable_replay_gain_def
    apply_equalizer_preset_def set_equalizer_gain_def elim!: commit_cases
    split: sum.splits option.splits if_splits prod.splits)

lemma change_ok:
  assumes "settings_change encode op" and "op out pc f = (r, pc', f')" and "controller_ok pc"
  shows "controller_ok pc'"
  using assms
proof cases
  case (5 x)
  let ?v = "if is_finite x then f64_clamp x 0 1 else Fin 0"
  let ?k = "output_volume_key (output_mode pc) (selected_output_device_id pc)"
  let ?pc1 = "pc\<lparr>volume_by_output_device := (volume_by_output_device pc)(?k \<mapsto> ?v)\<rparr>"
  have b: "f64_between 0 ?v 1" using f64_clamp_between [of 0 1 x] by simp
  obtain r1 pc2 f2 where c: "commit encode (\<lambda>st. Inr (volume_change ?v st)) out ?pc1 f = (r1, pc2, f2)"
    by (metis prod_cases3)
  have ran: "ran ((volume_by_output_device pc)(?k \<mapsto> ?v)) \<subseteq> insert ?v (ran (volume_by_output_device pc))"
    by (auto simp: ran_def)
  from c show ?thesis
    using assms(2,3) 5 c b ran changes_ok(2) [of "p_state pc" ?v]
    by (cases rule: commit_cases) (auto simp: set_software_volume_def controller_ok_def Let_def)
qed (use changes_ok [of "p_state pc"] in \<open>auto simp: keeps_defs set_profile_def disable_replay_gain_def
    enable_replay_gain_def apply_equalizer_preset_def set_equalizer_gain_def controller_ok_def
    elim!: commit_cases split: sum.splits option.splits if_splits prod.splits\<close>)

lemma run_ok: "settings_run encode pc0 f0 pc f \<Longrightarrow> controller_ok pc0 \<Longrightarrow> controller_ok pc"
  by (induction rule: settings_run.induct) (auto intro: change_ok)

text \<open>C15: The Direct profile really is bit-perfect: starting from settings in order, whatever the
  listener changes, in whatever order and whichever saves fail, every volume stays between 0 and 1
  and every equalizer gain between -12 and 12 dB, values that are not finite included; and while
  the profile says Direct, mpv is asked for full volume, no ReplayGain and no filter.\<close>

theorem direct_profile_neutral:
  assumes "controller_ok pc0" and "settings_run encode pc0 f0 pc f"
  shows "controller_ok pc
    \<and> (profile (p_state pc) = ProfileDirect \<longrightarrow>
        mpv_configuration show_f64 pc = \<lparr>volume_percent = Fin 100, mpv_gain_mode = GainOff, audio_filters = []\<rparr>)"
proof -
  have "controller_ok pc" using run_ok assms by blast
  moreover have "f64_of 100 = Fin 100" using f64_of_nat [of 100] by simp
  ultimately show ?thesis
    by (auto simp: mpv_configuration_def mpv_configuration_for_def controller_ok_def processing_ok_def)
qed

lemma default_ok: "controller_ok default_controller"
  by (simp add: controller_ok_def default_controller_def default_state_def processing_ok_def flat_equalizer_def)

definition toy_codec :: settings_codec where
  "toy_codec s = Some ''json''"

definition toy_quiet :: processing_controller where
  "toy_quiet = \<lparr>output_mode = SystemOutput, selected_output_device_id = None,
     volume_by_output_device = [''system'' \<mapsto> Fin (1 / 2)],
     p_state = default_state\<lparr>profile := ProfileProcessed, software_volume := Fin (1 / 2),
       transition_notice := Some ''Software volume requires the Processed Profile.''\<rparr>\<rparr>"

definition toy_direct :: processing_controller where
  "toy_direct = toy_quiet\<lparr>p_state := default_state\<rparr>"

lemma toy_run: "settings_run toy_codec default_controller Absent toy_direct (Contents ''json'')"
proof -
  have "settings_run toy_codec default_controller Absent toy_quiet (Contents ''json'')"
    by (rule run_changes [OF run_starts settings_change.intros(5) [where x = "Fin (1 / 2)"], where out = Saves])
      (simp add: set_software_volume_def commit_def persist_state_def persist_settings_def storage_save_def
        toy_codec_def default_controller_def default_state_def volume_change_def transition_to_processed_def
        f64_eq_def f64_clamp_def output_volume_key_def toy_quiet_def Let_def)
  then show ?thesis
    by (rule run_changes [OF _ settings_change.intros(4) [where p = ProfileDirect], where out = Saves])
      (simp add: set_profile_def commit_def persist_state_def persist_settings_def storage_save_def
        toy_codec_def default_state_def profile_change_def clear_active_processing_def toy_quiet_def
        toy_direct_def Let_def)
qed

theorem direct_profile_neutral_witness:
  "volume_percent (mpv_configuration (\<lambda>_. ''x'') toy_direct) = Fin 100"
proof -
  have "profile (p_state toy_direct) = ProfileDirect" by (simp add: toy_direct_def toy_quiet_def default_state_def)
  with direct_profile_neutral [OF default_ok toy_run, of "\<lambda>_. ''x''"] show ?thesis by simp
qed

text \<open>Settings survive any end of the client. When the file could be opened, then at every later
  moment, after any changes and whichever of their saves failed, opening the file again succeeds
  and gives back exactly the settings in force; a change that was reported as failed is neither in
  the file nor in force. The codec has only to read back what it wrote of settings whose numbers
  are finite, which is what JSON can hold.\<close>

theorem settings_survive:
  assumes codec: "\<And>pc c. controller_ok pc \<Longrightarrow> encode (settings_of pc) = Some c \<Longrightarrow> decode c = Some (settings_of pc)"
    and opened: "processing_open decode f0 = Inr pc0" and ok: "controller_ok pc0"
    and run: "settings_run encode pc0 f0 pc f"
  shows "\<exists>pc'. processing_open decode f = Inr pc' \<and> settings_of pc' = settings_of pc \<and> controller_ok pc'"
  using run
proof (induction rule: settings_run.induct)
  case run_starts
  then show ?case using opened ok by blast
next
  case (run_changes pc f op out r pc' f')
  have k: "controller_ok pc'"
    using run_ok [OF settings_run.run_changes [OF run_changes(1-3)] ok] .
  from change_keeps [OF run_changes(2,3)] show ?case
  proof
    assume "\<exists>e. r = Inl e \<and> pc' = pc \<and> f' = f"
    then show ?case using run_changes.IH by simp
  next
    assume "\<exists>c. encode (settings_of pc') = Some c \<and> f' = Contents c"
    then obtain c where c: "encode (settings_of pc') = Some c" "f' = Contents c" by blast
    then have "processing_open decode f' = Inr (controller_of_settings (settings_of pc'))"
      using codec [OF k c(1)] by (simp add: processing_open_def)
    moreover have "settings_of (controller_of_settings (settings_of pc')) = settings_of pc'"
      by (simp add: settings_of_def settings_from_state_def controller_of_settings_def)
    moreover have "controller_ok (controller_of_settings (settings_of pc'))"
      using k by (simp add: controller_ok_def processing_ok_def settings_of_def settings_from_state_def
          controller_of_settings_def)
    ultimately show ?case by blast
  qed
qed

text \<open>A codec for the witness: a settings record is named by its volume and its profile.\<close>

definition one_setting :: settings_codec where
  "one_setting s = (if s = settings_of toy_direct then Some ''direct''
     else if s = settings_of toy_quiet then Some ''quiet'' else None)"

definition read_setting :: "string \<Rightarrow> processing_settings option" where
  "read_setting c = (if c = ''direct'' then Some (settings_of toy_direct)
     else if c = ''quiet'' then Some (settings_of toy_quiet) else None)"

lemma one_setting_codec: "one_setting s = Some c \<Longrightarrow> read_setting c = Some s"
  by (auto simp: one_setting_def read_setting_def split: if_splits)

theorem settings_survive_witness:
  "\<exists>pc'. processing_open read_setting (Contents ''quiet'') = Inr pc' \<and> settings_of pc' = settings_of toy_quiet"
proof -
  have ne: "settings_of toy_quiet \<noteq> settings_of toy_direct"
    by (simp add: settings_of_def settings_from_state_def toy_quiet_def toy_direct_def default_state_def)
  have v: "set_software_volume one_setting (Fin (1 / 2)) Saves default_controller Absent
      = (Inr (), toy_quiet, Contents ''quiet'')"
  proof -
    have "one_setting (settings_of toy_quiet) = Some ''quiet''" using ne by (simp add: one_setting_def)
    then show ?thesis
      by (simp add: set_software_volume_def commit_def persist_state_def persist_settings_def storage_save_def
        default_controller_def default_state_def volume_change_def transition_to_processed_def
        f64_eq_def f64_clamp_def output_volume_key_def toy_quiet_def settings_of_def Let_def)
  qed
  have "settings_run one_setting default_controller Absent toy_quiet (Contents ''quiet'')"
    by (rule run_changes [OF run_starts settings_change.intros(5) v])
  from settings_survive [OF _ _ default_ok this, of read_setting] show ?thesis
    using one_setting_codec by (auto simp: processing_open_def)
qed

end
