(* ===== verification/Playback_Telemetry.thy ===== *)
theory Playback_Telemetry
  imports Processing
begin

text \<open>
  What the Desktop Client shows of the audio path
  (\<open>desktop/core/src/telemetry.rs\<close>): the format of the source, of mpv's decoder,
  of PipeWire's graph and of the device, each as far as it was observed. Running
  \<open>pw-dump\<close> and parsing its JSON are outside; \<open>upper\<close> is \<open>str::to_uppercase\<close>.
\<close>

subsection \<open>Observations\<close>

record audio_format =
  sample_rate_hz :: "nat option"
  bit_depth :: "nat option"
  channels :: "nat option"

definition format_unknown :: audio_format where
  "format_unknown = \<lparr>sample_rate_hz = None, bit_depth = None, channels = None\<rparr>"

record source_observation =
  source_codec :: "string option"
  source_bitrate_kbps :: "nat option"
  source_format :: audio_format

definition source_unknown :: source_observation where
  "source_unknown = \<lparr>source_codec = None, source_bitrate_kbps = None, source_format = format_unknown\<rparr>"

definition from_playback_source :: "(string \<Rightarrow> string) \<Rightarrow> json \<Rightarrow> source_observation" where
  "from_playback_source upper src =
     (let t = Option.bind (jget ''type'' src) as_str;
          metadata = (if t = Some ''track'' then jget ''track'' src
            else if t = Some ''radio-station'' then jget ''station'' src
            else if t = Some ''catalog-preview'' then jget ''result'' src
            else None);
          is_track = (t = Some ''track'')
      in \<lparr>source_codec = map_option upper
            (Option.bind (Option.bind metadata (jget (if is_track then ''format'' else ''codec''))) as_str),
          source_bitrate_kbps = observed_u32 metadata (if is_track then ''bitrateKbps'' else ''bitrate''),
          source_format = \<lparr>sample_rate_hz = (if is_track then observed_u32 metadata ''sampleRateHz'' else None),
            bit_depth = (if is_track then observed_u16 metadata ''bitDepth'' else None),
            channels = (if is_track then observed_u16 metadata ''channels'' else None)\<rparr>\<rparr>)"

definition observed_bit_depth :: "(string \<Rightarrow> string) \<Rightarrow> string \<Rightarrow> nat option" where
  "observed_bit_depth upper fmt =
     (let n = upper fmt
      in List.find (\<lambda>bits. prefix (CHR ''S'' # digits bits) n \<or> prefix (CHR ''U'' # digits bits) n
           \<or> prefix (CHR ''F'' # digits bits) n) [8, 16, 24, 32, 64])"

record decoder_observation =
  pcm_format :: "string option"
  decoder_format :: audio_format

definition decoder_unknown :: decoder_observation where
  "decoder_unknown = \<lparr>pcm_format = None, decoder_format = format_unknown\<rparr>"

definition from_audio_params :: "(string \<Rightarrow> string) \<Rightarrow> json \<Rightarrow> decoder_observation" where
  "from_audio_params upper v =
     (let p = Option.bind (jget ''format'' v) as_str
      in \<lparr>pcm_format = p,
          decoder_format = \<lparr>sample_rate_hz = Option.bind (jget ''samplerate'' v) value_u32,
            bit_depth = Option.bind p (observed_bit_depth upper),
            channels = Option.bind (jget ''channel-count'' v) value_u16\<rparr>\<rparr>)"

record pipewire_observation =
  graph_format :: audio_format
  is_graph_resampling :: "bool option"
  pw_device_name :: "string option"
  pw_device_format :: audio_format
  is_device_resampling :: "bool option"

datatype system_kind = PipeWire | BrowserManaged | Bypassed | UnknownSystem

record system_observation =
  system_kind :: system_kind
  system_format :: audio_format
  is_system_resampling :: "bool option"

record device_observation =
  device_name :: "string option"
  device_format :: audio_format
  device_resampling :: "bool option"

record processing_observation =
  seen_profile :: string
  seen_volume :: "f64 option"
  seen_gain_mode :: string
  seen_effective_gain :: string
  seen_equalizer :: "bool option"

definition processing_unknown :: processing_observation where
  "processing_unknown = \<lparr>seen_profile = ''unknown'', seen_volume = None, seen_gain_mode = ''unknown'',
     seen_effective_gain = ''unknown'', seen_equalizer = None\<rparr>"

record telemetry =
  seen_source :: source_observation
  seen_decoder :: decoder_observation
  seen_system :: system_observation
  seen_device :: device_observation
  seen_processing :: processing_observation

definition compare_sample_rates :: "audio_format \<Rightarrow> audio_format \<Rightarrow> bool option" where
  "compare_sample_rates l r =
     (case (sample_rate_hz l, sample_rate_hz r) of (Some a, Some b) \<Rightarrow> Some (a \<noteq> b) | _ \<Rightarrow> None)"

definition observed_pipewire_path :: "pipewire_observation option \<Rightarrow> system_observation \<times> device_observation" where
  "observed_pipewire_path pw =
     (case pw of
        None \<Rightarrow> (\<lparr>system_kind = PipeWire, system_format = format_unknown, is_system_resampling = None\<rparr>,
          \<lparr>device_name = None, device_format = format_unknown, device_resampling = None\<rparr>)
      | Some p \<Rightarrow> (\<lparr>system_kind = PipeWire, system_format = graph_format p, is_system_resampling = is_graph_resampling p\<rparr>,
          \<lparr>device_name = pw_device_name p, device_format = pw_device_format p,
           device_resampling = is_device_resampling p\<rparr>))"

definition native_system_output :: "source_observation \<Rightarrow> decoder_observation \<Rightarrow> pipewire_observation option
    \<Rightarrow> processing_observation \<Rightarrow> telemetry" where
  "native_system_output src dec pw proc =
     (let (sys, dev) = observed_pipewire_path pw;
          sys' = (if is_system_resampling sys = None
            then sys\<lparr>is_system_resampling := compare_sample_rates (decoder_format dec) (system_format sys)\<rparr> else sys)
      in \<lparr>seen_source = src, seen_decoder = dec, seen_system = sys', seen_device = dev, seen_processing = proc\<rparr>)"

definition native_direct_alsa_output :: "source_observation \<Rightarrow> decoder_observation \<Rightarrow> string \<Rightarrow> audio_format option
    \<Rightarrow> processing_observation \<Rightarrow> telemetry" where
  "native_direct_alsa_output src dec name negotiated proc =
     (let fmt = (case negotiated of Some x \<Rightarrow> x | None \<Rightarrow> format_unknown)
      in \<lparr>seen_source = src, seen_decoder = dec,
          seen_system = \<lparr>system_kind = Bypassed, system_format = format_unknown, is_system_resampling = Some False\<rparr>,
          seen_device = \<lparr>device_name = Some name, device_format = fmt,
            device_resampling = compare_sample_rates (decoder_format dec) fmt\<rparr>,
          seen_processing = proc\<rparr>)"

subsection \<open>The PipeWire graph\<close>

definition metadata_value :: "json \<Rightarrow> string \<Rightarrow> json option" where
  "metadata_value obj k =
     Option.bind (Option.bind (jget ''metadata'' obj) as_array)
       (find_map (\<lambda>e. if Option.bind (jget ''key'' e) as_str = Some k then jget ''value'' e else None))"

definition metadata_u32 :: "json \<Rightarrow> string \<Rightarrow> nat option" where
  "metadata_u32 obj k = Option.bind (metadata_value obj k) value_u32"

definition observed_graph_rate :: "json list \<Rightarrow> nat option" where
  "observed_graph_rate objects =
     (case List.find (\<lambda>x. str_at [''props'', ''metadata.name''] x = Some ''settings'') objects of
        None \<Rightarrow> None
      | Some settings \<Rightarrow>
          (case metadata_u32 settings ''clock.force-rate'' of
             Some r \<Rightarrow> if 0 < r then Some r else metadata_u32 settings ''clock.rate''
           | None \<Rightarrow> metadata_u32 settings ''clock.rate''))"

definition media_class :: "json \<Rightarrow> string option" where
  "media_class = str_at [''info'', ''props'', ''media.class'']"

definition find_audio_sink :: "json list \<Rightarrow> string \<Rightarrow> json option" where
  "find_audio_sink objects name =
     List.find (\<lambda>x. Option.bind (jget ''type'' x) as_str = Some ''PipeWire:Interface:Node''
       \<and> media_class x = Some ''Audio/Sink'' \<and> str_at [''info'', ''props'', ''node.name''] x = Some name) objects"

definition find_earthly_audio_stream :: "json list \<Rightarrow> json option" where
  "find_earthly_audio_stream objects =
     List.find (\<lambda>x. media_class x = Some ''Stream/Output/Audio''
       \<and> (\<exists>k \<in> set [''application.name'', ''node.name'']. str_at [''info'', ''props'', k] x = Some ''Harmony'')) objects"

definition link_end :: "string \<Rightarrow> json \<Rightarrow> nat option" where
  "link_end k link = Option.bind (pointer [''info'', k] link) value_u32"

definition find_routed_sink :: "json list \<Rightarrow> json \<Rightarrow> json option" where
  "find_routed_sink objects stream =
     (case Option.bind (jget ''id'' stream) value_u32 of
        None \<Rightarrow> None
      | Some sid \<Rightarrow>
          (case find_map (\<lambda>link. if link_end ''output-node-id'' link = Some sid then link_end ''input-node-id'' link else None)
               (filter (\<lambda>x. Option.bind (jget ''type'' x) as_str = Some ''PipeWire:Interface:Link'') objects) of
             None \<Rightarrow> None
           | Some kid \<Rightarrow>
               List.find (\<lambda>x. Option.bind (jget ''id'' x) value_u32 = Some kid \<and> media_class x = Some ''Audio/Sink'') objects))"

definition observed_node_format :: "(string \<Rightarrow> string) \<Rightarrow> json \<Rightarrow> audio_format" where
  "observed_node_format upper node =
     (let fmt = Option.bind (Option.bind (pointer [''info'', ''params'', ''Format''] node) as_array)
            (\<lambda>vs. case vs of [] \<Rightarrow> None | v # _ \<Rightarrow> Some v)
      in \<lparr>sample_rate_hz = Option.bind (Option.bind fmt (jget ''rate'')) value_u32,
          bit_depth = Option.bind (Option.bind (Option.bind fmt (jget ''format'')) as_str) (observed_bit_depth upper),
          channels = Option.bind (Option.bind fmt (jget ''channels'')) value_u16\<rparr>)"

definition observed_device_name :: "json \<Rightarrow> string option" where
  "observed_device_name node =
     find_map (\<lambda>k. case str_at [''info'', ''props'', k] node of Some v \<Rightarrow> if v = [] then None else Some v | None \<Rightarrow> None)
       [''node.description'', ''node.nick'', ''node.name'']"

definition parse_pw_dump_for_node :: "(string \<Rightarrow> string) \<Rightarrow> json list \<Rightarrow> string option \<Rightarrow> pipewire_observation option" where
  "parse_pw_dump_for_node upper objects target =
     (let stream = find_earthly_audio_stream objects;
          sink = (case Option.bind target (find_audio_sink objects) of
              Some s \<Rightarrow> Some s
            | None \<Rightarrow> Option.bind stream (find_routed_sink objects));
          dev_format = (case sink of Some s \<Rightarrow> observed_node_format upper s | None \<Rightarrow> format_unknown);
          stream_format = (case stream of Some s \<Rightarrow> observed_node_format upper s | None \<Rightarrow> format_unknown);
          g = \<lparr>sample_rate_hz = (case observed_graph_rate objects of Some r \<Rightarrow> Some r
                | None \<Rightarrow> sample_rate_hz stream_format),
               bit_depth = bit_depth stream_format, channels = channels stream_format\<rparr>
      in if g = format_unknown \<and> sink = None then None
         else Some \<lparr>graph_format = g, is_graph_resampling = None, pw_device_name = Option.bind sink observed_device_name,
           pw_device_format = dev_format, is_device_resampling = compare_sample_rates g dev_format\<rparr>)"

end
