(* ===== verification/Output_Device.thy ===== *)
theory Output_Device
  imports Json_Value
begin

text \<open>
  The raw ALSA devices of the Desktop Client (\<open>desktop/core/src/output_device.rs\<close>
  on Linux): what counts as one, how \<open>aplay -l\<close> and PipeWire name them, and the
  catalog that remembers the selected device. What the two programs print is an
  argument; \<open>parse_json\<close> is \<open>serde_json::from_str\<close>.
\<close>

record output_device =
  device_id :: string
  device_label :: string

datatype output_device_error =
    EnumerationFailed string | NotRawHardware | SelectedDeviceDisconnected output_device | Unavailable

datatype active_output_error = QueryFailed string | NoActiveOutput | NotAlsaBacked

subsection \<open>Names\<close>

text \<open>\<open>str::parse::<u32>\<close> accepts a leading plus sign.\<close>

definition parse_u32 :: "string \<Rightarrow> nat option" where
  "parse_u32 s =
     (case parse_nat (case s of c # rest \<Rightarrow> if c = CHR ''+'' then rest else s | [] \<Rightarrow> s) of
        Some n \<Rightarrow> if n < 2 ^ 32 then Some n else None
      | None \<Rightarrow> None)"

definition is_raw_hardware_id :: "string \<Rightarrow> bool" where
  "is_raw_hardware_id dev =
     (case strip_prefix ''hw:'' dev of
        None \<Rightarrow> False
      | Some rest \<Rightarrow>
          (case split_char (CHR '','') rest of
             [c, d] \<Rightarrow> parse_u32 c \<noteq> None \<and> parse_u32 d \<noteq> None
           | _ \<Rightarrow> False))"

definition hw_id :: "nat \<Rightarrow> nat \<Rightarrow> string" where
  "hw_id c d = ''hw:'' @ digits c @ '','' @ digits d"

subsection \<open>The list of \<open>aplay\<close>\<close>

fun split_once_str :: "string \<Rightarrow> string \<Rightarrow> (string \<times> string) option" where
  "split_once_str sep [] = (if sep = [] then Some ([], []) else None)"
| "split_once_str sep (c # cs) =
     (case strip_prefix sep (c # cs) of
        Some r \<Rightarrow> Some ([], r)
      | None \<Rightarrow> map_option (\<lambda>(a, b). (c # a, b)) (split_once_str sep cs))"

text \<open>The second piece of a split, when there is one.\<close>

definition split_second :: "string \<Rightarrow> string \<Rightarrow> string option" where
  "split_second sep s =
     map_option (\<lambda>(_, r). case split_once_str sep r of Some (x, _) \<Rightarrow> x | None \<Rightarrow> r) (split_once_str sep s)"

definition parse_aplay_device_line :: "string \<Rightarrow> output_device option" where
  "parse_aplay_device_line line =
     Option.bind (strip_prefix ''card '' (trim line)) (\<lambda>entry.
     Option.bind (split_once (CHR '':'') entry) (\<lambda>(card_number, remainder).
     Option.bind (split_second '', device '' remainder) (\<lambda>device.
     Option.bind (split_once (CHR '':'') device) (\<lambda>(device_number, description).
     Option.bind (parse_u32 (trim card_number)) (\<lambda>c.
     Option.bind (parse_u32 (trim device_number)) (\<lambda>d.
       Some \<lparr>device_id = hw_id c d, device_label = trim description\<rparr>))))))"

definition str_lines :: "string \<Rightarrow> string list" where
  "str_lines s =
     (let ps = split_char (CHR 0x0A) s;
          qs = (if last ps = [] then butlast ps else ps)
      in map (\<lambda>l. if l \<noteq> [] \<and> last l = CHR 0x0D then butlast l else l) qs)"

definition parse_aplay_hardware :: "string \<Rightarrow> output_device list" where
  "parse_aplay_hardware out = List.map_filter parse_aplay_device_line (str_lines out)"

subsection \<open>The active output\<close>

definition metadata_target_name :: "(string \<Rightarrow> json option) \<Rightarrow> json \<Rightarrow> string \<Rightarrow> string option" where
  "metadata_target_name parse_json metadata k =
     (case Option.bind (Option.bind (jget ''metadata'' metadata) as_array)
         (find_map (\<lambda>e. if Option.bind (jget ''key'' e) as_str = Some k then jget ''value'' e else None)) of
        None \<Rightarrow> None
      | Some v \<Rightarrow>
          (case Option.bind (jget ''name'' v) as_str of
             Some name \<Rightarrow> Some name
           | None \<Rightarrow> Option.bind (Option.bind (Option.bind (as_str v) parse_json) (jget ''name'')) as_str))"

definition default_sink_name :: "(string \<Rightarrow> json option) \<Rightarrow> json list \<Rightarrow> string option" where
  "default_sink_name parse_json objects =
     Option.bind (List.find (\<lambda>x. str_at [''props'', ''metadata.name''] x = Some ''default'') objects)
       (\<lambda>m. find_map (metadata_target_name parse_json m) [''default.audio.sink'', ''default.configured.audio.sink''])"

definition find_sink :: "json list \<Rightarrow> string \<Rightarrow> json option" where
  "find_sink objects name =
     List.find (\<lambda>x. str_at [''info'', ''props'', ''media.class''] x = Some ''Audio/Sink''
       \<and> str_at [''info'', ''props'', ''node.name''] x = Some name) objects"

definition sink_property_u32 :: "json \<Rightarrow> string \<Rightarrow> nat option" where
  "sink_property_u32 sink k =
     Option.bind (pointer [''info'', ''props'', k] sink)
       (\<lambda>v. case value_u32 v of Some n \<Rightarrow> Some n | None \<Rightarrow> Option.bind (as_str v) parse_u32)"

definition sink_name :: "json \<Rightarrow> string option" where
  "sink_name sink =
     find_map (\<lambda>k. case str_at [''info'', ''props'', k] sink of Some v \<Rightarrow> if v = [] then None else Some v | None \<Rightarrow> None)
       [''node.description'', ''node.nick'', ''node.name'']"

definition raw_output_from_sink :: "json \<Rightarrow> output_device option" where
  "raw_output_from_sink sink =
     Option.bind (find_map (sink_property_u32 sink) [''api.alsa.pcm.card'', ''api.alsa.card'', ''alsa.card'']) (\<lambda>c.
     Option.bind (find_map (sink_property_u32 sink) [''api.alsa.pcm.device'', ''api.alsa.device'', ''alsa.device''])
       (\<lambda>d. Some \<lparr>device_id = hw_id c d,
         device_label = (case sink_name sink of Some n \<Rightarrow> n | None \<Rightarrow> ''ALSA '' @ hw_id c d)\<rparr>))"

definition parse_active_raw_output :: "(string \<Rightarrow> json option) \<Rightarrow> json list \<Rightarrow> active_output_error + output_device" where
  "parse_active_raw_output parse_json objects =
     and_then (ok_or NoActiveOutput (default_sink_name parse_json objects)) (\<lambda>name.
     and_then (ok_or NoActiveOutput (find_sink objects name)) (\<lambda>sink.
       ok_or NotAlsaBacked (raw_output_from_sink sink)))"

subsection \<open>The catalog\<close>

record device_catalog =
  catalog_devices :: "output_device list"
  catalog_selected :: "output_device option"

definition catalog_new :: device_catalog where
  "catalog_new = \<lparr>catalog_devices = [], catalog_selected = None\<rparr>"

text \<open>The answer of \<open>list_raw_devices\<close> is the first argument.\<close>

definition catalog_refresh :: "string + output_device list \<Rightarrow> device_catalog
    \<Rightarrow> (output_device_error + output_device list) \<times> device_catalog" where
  "catalog_refresh listed cat =
     (case listed of
        Inl e \<Rightarrow> (Inl (EnumerationFailed e), cat)
      | Inr ds \<Rightarrow>
          let cat' = cat\<lparr>catalog_devices := ds\<rparr> in
          (case catalog_selected cat of
             Some sel \<Rightarrow>
               if \<exists>d \<in> set ds. device_id d = device_id sel then (Inr ds, cat')
               else (Inl (SelectedDeviceDisconnected sel), cat')
           | None \<Rightarrow> (Inr ds, cat')))"

definition catalog_select :: "string + output_device list \<Rightarrow> string \<Rightarrow> device_catalog
    \<Rightarrow> (output_device_error + output_device) \<times> device_catalog" where
  "catalog_select listed dev cat =
     (if \<not> is_raw_hardware_id dev then (Inl NotRawHardware, cat)
      else (case listed of
          Inl e \<Rightarrow> (Inl (EnumerationFailed e), cat)
        | Inr ds \<Rightarrow>
            let cat' = cat\<lparr>catalog_devices := ds\<rparr> in
            (case List.find (\<lambda>d. device_id d = dev) ds of
               None \<Rightarrow> (Inl Unavailable, cat')
             | Some d \<Rightarrow> (Inr d, cat'\<lparr>catalog_selected := Some d\<rparr>))))"

subsection \<open>Every listed device can be selected\<close>

lemma parse_u32_digits: "n < 2 ^ 32 \<Longrightarrow> parse_u32 (digits n) = Some n"
proof -
  assume n: "n < 2 ^ 32"
  obtain c cs where d: "digits n = c # cs" using digits_ne by (cases "digits n") auto
  have "c \<noteq> CHR ''+''" using digits_hd [of n] d digit_not(2) by simp
  then have "(case digits n of c # rest \<Rightarrow> if c = CHR ''+'' then rest else digits n | [] \<Rightarrow> digits n) = digits n"
    by (simp add: d)
  then show ?thesis using n by (simp add: parse_u32_def)
qed

lemma parse_u32_bound: "parse_u32 s = Some n \<Longrightarrow> n < 2 ^ 32"
  by (auto simp: parse_u32_def split: option.splits if_splits)

lemma hw_id_raw:
  assumes "c < 2 ^ 32" and "d < 2 ^ 32"
  shows "is_raw_hardware_id (hw_id c d)"
proof -
  have "strip_prefix ''hw:'' (hw_id c d) = Some (digits c @ CHR '','' # digits d)"
    unfolding hw_id_def by (simp add: strip_prefix_Some)
  moreover have "split_char (CHR '','') (digits c @ CHR '','' # digits d) = [digits c, digits d]"
    using digits_no [of "CHR '',''" c] digits_no [of "CHR '',''" d]
    by (simp add: split_char_append split_char_none)
  ultimately show ?thesis using assms by (simp add: is_raw_hardware_id_def parse_u32_digits)
qed

lemma aplay_line_id:
  assumes "parse_aplay_device_line line = Some dev"
  shows "is_raw_hardware_id (device_id dev)"
  using assms
  by (auto simp: parse_aplay_device_line_def bind_eq_Some_conv intro!: hw_id_raw dest: parse_u32_bound)

lemma map_filter_Some: "y \<in> set (List.map_filter g xs) \<longleftrightarrow> (\<exists>x \<in> set xs. g x = Some y)"
  by (auto simp: List.map_filter_def image_iff)

lemma find_map_Some: "find_map g xs = Some y \<Longrightarrow> \<exists>x \<in> set xs. g x = Some y"
  by (induction xs) (auto split: option.splits)

lemma sink_property_bound: "sink_property_u32 sink k = Some n \<Longrightarrow> n < 2 ^ 32"
  by (auto simp: sink_property_u32_def bind_eq_Some_conv value_u32_def dest: parse_u32_bound
      split: option.splits if_splits)

lemma sink_output_id:
  assumes "raw_output_from_sink sink = Some dev"
  shows "is_raw_hardware_id (device_id dev)"
proof -
  have b: "find_map (sink_property_u32 sink) ks = Some n \<Longrightarrow> n < 2 ^ 32" for ks n
    by (auto dest!: find_map_Some dest: sink_property_bound)
  show ?thesis
    using assms
    by (auto simp: raw_output_from_sink_def bind_eq_Some_conv simp del: find_map.simps
        intro!: hw_id_raw dest!: b)
qed

text \<open>A device the client offers can always be selected, and it stays the selected one until
  another is: whatever \<open>aplay\<close> prints, selecting any device of its list succeeds and remembers
  that device's entry, as the first of its id; the active output PipeWire reports is of the kind that can be
  selected; and a later refresh keeps the selection and answers that it is disconnected exactly
  when its id is not listed any more.\<close>

theorem listed_devices_selectable:
  "(\<forall>dev \<in> set (parse_aplay_hardware out).
      \<exists>d cat'. catalog_select (Inr (parse_aplay_hardware out)) (device_id dev) cat = (Inr d, cat')
        \<and> device_id d = device_id dev \<and> catalog_selected cat' = Some d
        \<and> catalog_devices cat' = parse_aplay_hardware out
        \<and> (let (res, cat2) = catalog_refresh (Inr ds) cat' in
             catalog_selected cat2 = Some d \<and> catalog_devices cat2 = ds
           \<and> (res = Inl (SelectedDeviceDisconnected d) \<longleftrightarrow> device_id dev \<notin> device_id ` set ds)
           \<and> (res = Inr ds \<longleftrightarrow> device_id dev \<in> device_id ` set ds)))
   \<and> (\<forall>dev. parse_active_raw_output parse_json objects = Inr dev \<longrightarrow> is_raw_hardware_id (device_id dev))"
proof -
  have "\<exists>d cat'. catalog_select (Inr (parse_aplay_hardware out)) (device_id dev) cat = (Inr d, cat')
      \<and> device_id d = device_id dev \<and> catalog_selected cat' = Some d
      \<and> catalog_devices cat' = parse_aplay_hardware out
      \<and> (let (res, cat2) = catalog_refresh (Inr ds) cat' in
           catalog_selected cat2 = Some d \<and> catalog_devices cat2 = ds
         \<and> (res = Inl (SelectedDeviceDisconnected d) \<longleftrightarrow> device_id dev \<notin> device_id ` set ds)
         \<and> (res = Inr ds \<longleftrightarrow> device_id dev \<in> device_id ` set ds))"
    if dev: "dev \<in> set (parse_aplay_hardware out)" for dev
  proof -
    have raw: "is_raw_hardware_id (device_id dev)"
      using dev aplay_line_id by (auto simp: parse_aplay_hardware_def map_filter_Some)
    obtain d where d: "List.find (\<lambda>x. device_id x = device_id dev) (parse_aplay_hardware out) = Some d"
      using dev by (cases "List.find (\<lambda>x. device_id x = device_id dev) (parse_aplay_hardware out)")
        (auto simp: find_None_iff)
    then have id: "device_id d = device_id dev" by (auto simp: find_Some_iff)
    show ?thesis
      using raw d id by (simp add: catalog_select_def catalog_refresh_def Let_def image_iff eq_commute [of "device_id dev"])
  qed
  moreover have "is_raw_hardware_id (device_id dev)"
    if "parse_active_raw_output parse_json objects = Inr dev" for dev
    using that sink_output_id
    by (auto simp: parse_active_raw_output_def and_then_Inr_iff ok_or_def split: option.splits)
  ultimately show ?thesis by blast
qed

theorem listed_devices_selectable_witness:
  "\<exists>d cat'. catalog_select (Inr (parse_aplay_hardware ''card 0: PCH [HDA], device 3: HDMI 0'')) ''hw:0,3'' catalog_new
     = (Inr d, cat') \<and> catalog_selected cat' = Some d \<and> device_id d = ''hw:0,3''"
proof -
  have d: "char_of (48 :: nat) = CHR ''0''" "char_of (51 :: nat) = CHR ''3''" by code_simp+
  have "parse_aplay_hardware ''card 0: PCH [HDA], device 3: HDMI 0''
      = [\<lparr>device_id = ''hw:0,3'', device_label = ''HDMI 0''\<rparr>]"
    by (simp add: parse_aplay_hardware_def str_lines_def parse_aplay_device_line_def List.map_filter_def
        trim_def trim_start_def is_white_def strip_prefix_def split_second_def parse_u32_def parse_nat_def
        is_digit_def digits_value_def hw_id_def digits.simps d)
  with listed_devices_selectable [of "''card 0: PCH [HDA], device 3: HDMI 0''" catalog_new "[]" "\<lambda>_. None" "[]"]
  show ?thesis by (auto simp: Let_def)
qed

end
