(* ===== verification/Mpv_Process.thy ===== *)
theory Mpv_Process
  imports Effects Playback_Telemetry Output_Device
begin

text \<open>
  The adapter to the mpv process (\<open>RealMpvProcess\<close> in
  \<open>desktop/core/src/playback.rs\<close>), on Linux. mpv itself, its IPC connection and
  the D-Bus reservation of a device are outside: every request goes into the
  log, newest first, and \<open>reply\<close> answers it, with an error or a JSON value, from
  the whole log, so anything may fail at any time. A time-out is such an error.
\<close>

datatype mpv_command =
    LoadReplace string | LoadReplaceAt string f64 | LoadAppend string
  | SetPause bool | SeekTo f64 | SetVolume f64 | SetSpeed f64 | SetGapless string
  | SetAudio string | SetAudioDevice string | SetReplayGain string | SetFilters string
  | GetProperty string | GetPropertyString string | StopPlaying

text \<open>A request to mpv carries the load revision whose boundary it is, if any.\<close>

datatype mpv_message = Request mpv_command "nat option" | Acquire string | Release | StopWorker

record mpv =
  mpv_log :: "mpv_message list"
  appended :: "string option"

type_synonym replies = "mpv_message list \<Rightarrow> string + json"

type_synonym 'a mpv_act = "(mpv, string, 'a) act"

definition mpv_started :: "mpv_message list \<Rightarrow> mpv" where
  "mpv_started old = \<lparr>mpv_log = old, appended = None\<rparr>"

definition mpv_call :: "replies \<Rightarrow> mpv_message \<Rightarrow> json mpv_act" where
  "mpv_call reply c m = (reply (c # mpv_log m), m\<lparr>mpv_log := c # mpv_log m\<rparr>)"

definition mpv_request :: "replies \<Rightarrow> mpv_command \<Rightarrow> json mpv_act" where
  "mpv_request reply c = mpv_call reply (Request c None)"

definition mpv_unit :: "replies \<Rightarrow> mpv_command \<Rightarrow> unit mpv_act" where
  "mpv_unit reply c = then_act (mpv_request reply c) (return_ok ())"

subsection \<open>Loading\<close>

definition clear_appended :: "unit mpv_act" where
  "clear_appended = modify (\<lambda>m. m\<lparr>appended := None\<rparr>)"

definition mpv_load :: "replies \<Rightarrow> string \<Rightarrow> unit mpv_act" where
  "mpv_load reply url = then_act clear_appended (mpv_unit reply (LoadReplace url))"

definition mpv_append :: "replies \<Rightarrow> string \<Rightarrow> unit mpv_act" where
  "mpv_append reply url =
     then_act (mpv_unit reply (LoadAppend url)) (modify (\<lambda>m. m\<lparr>appended := Some url\<rparr>))"

definition take_appended :: "string option mpv_act" where
  "take_appended m = (Inr (appended m), m\<lparr>appended := None\<rparr>)"

definition mpv_load_at :: "replies \<Rightarrow> string \<Rightarrow> f64 \<Rightarrow> unit mpv_act" where
  "mpv_load_at reply url seconds = then_act clear_appended (mpv_unit reply (LoadReplaceAt url seconds))"

definition load_with_event_boundary :: "replies \<Rightarrow> string \<Rightarrow> nat \<Rightarrow> unit mpv_act" where
  "load_with_event_boundary reply url boundary =
     then_act clear_appended (then_act (mpv_call reply (Request (LoadReplace url) (Some boundary))) (return_ok ()))"

definition mpv_stop :: "replies \<Rightarrow> unit mpv_act" where
  "mpv_stop reply = then_act clear_appended (mpv_unit reply StopPlaying)"

subsection \<open>Properties\<close>

definition set_paused :: "replies \<Rightarrow> bool \<Rightarrow> unit mpv_act" where
  "set_paused reply b = mpv_unit reply (SetPause b)"

definition mpv_seek :: "replies \<Rightarrow> f64 \<Rightarrow> unit mpv_act" where
  "mpv_seek reply seconds = mpv_unit reply (SeekTo seconds)"

definition mpv_set_volume :: "replies \<Rightarrow> f64 \<Rightarrow> unit mpv_act" where
  "mpv_set_volume reply v = mpv_unit reply (SetVolume (f64_mul v (Fin 100)))"

definition set_speed :: "replies \<Rightarrow> f64 \<Rightarrow> unit mpv_act" where
  "set_speed reply rate = mpv_unit reply (SetSpeed rate)"

definition mpv_set_gapless :: "replies \<Rightarrow> bool \<Rightarrow> unit mpv_act" where
  "mpv_set_gapless reply b = mpv_unit reply (SetGapless (if b then ''weak'' else ''no''))"

subsection \<open>The output\<close>

datatype output_configuration = ToSystem | ToDirectAlsa string

text \<open>Every step of the way back is taken, whatever the earlier ones answered; the first error counts.\<close>

definition restore_system_output :: "replies \<Rightarrow> unit mpv_act" where
  "restore_system_output reply =
     bind_act (attempt (mpv_unit reply (SetAudio ''no''))) (\<lambda>disable_result.
     bind_act (attempt (mpv_unit reply (SetAudioDevice ''auto''))) (\<lambda>device_result.
     bind_act (attempt (mpv_call reply Release)) (\<lambda>release_result.
     bind_act (attempt (mpv_unit reply (SetAudio ''auto''))) (\<lambda>enable_result.
       then_act (of_result disable_result) (then_act (of_result device_result)
         (then_act (of_result release_result) (of_result enable_result)))))))"

definition with_cleanup :: "replies \<Rightarrow> string \<Rightarrow> 'a mpv_act" where
  "with_cleanup reply e =
     match_act (restore_system_output reply)
       (\<lambda>restore_error. raise_err (e @ '' System Output cleanup also failed: '' @ restore_error))
       (\<lambda>_. raise_err e)"

definition configure_output :: "replies \<Rightarrow> output_configuration \<Rightarrow> audio_format option mpv_act" where
  "configure_output reply conf =
     (case conf of
        ToSystem \<Rightarrow> then_act (restore_system_output reply) (return_ok None)
      | ToDirectAlsa dev \<Rightarrow>
          then_act (mpv_unit reply (SetAudio ''no''))
            (match_act (mpv_call reply (Acquire dev))
              (\<lambda>e. with_cleanup reply e)
              (\<lambda>_. match_act (then_act (mpv_unit reply (SetAudioDevice (''alsa/'' @ dev))) (mpv_unit reply (SetAudio ''auto'')))
                 (\<lambda>e. with_cleanup reply e)
                 (\<lambda>_. return_ok None))))"

definition observe_output_format :: "replies \<Rightarrow> (string \<Rightarrow> string) \<Rightarrow> audio_format option mpv_act" where
  "observe_output_format reply upper =
     bind_act (mpv_request reply (GetProperty ''audio-out-params''))
       (\<lambda>out. return_ok (case out of JObject _ \<Rightarrow> Some (decoder_format (from_audio_params upper out)) | _ \<Rightarrow> None))"

subsection \<open>Processing\<close>

fun gain_name :: "gain_mode \<Rightarrow> string" where
  "gain_name GainOff = ''no''"
| "gain_name GainTrack = ''track''"
| "gain_name GainAlbum = ''album''"

definition gain_of_name :: "string \<Rightarrow> gain_mode option" where
  "gain_of_name s =
     (if s = ''no'' then Some GainOff else if s = ''track'' then Some GainTrack
      else if s = ''album'' then Some GainAlbum else None)"

fun join_commas :: "string list \<Rightarrow> string" where
  "join_commas [] = []"
| "join_commas [x] = x"
| "join_commas (x # xs) = x @ CHR '','' # join_commas xs"

definition apply_processing_mpv :: "replies \<Rightarrow> (json \<Rightarrow> f64 option) \<Rightarrow> mpv_processing \<Rightarrow> mpv_processing mpv_act" where
  "apply_processing_mpv reply as_f64 conf =
     then_act (mpv_unit reply (SetVolume (volume_percent conf)))
     (then_act (mpv_unit reply (SetReplayGain (gain_name (mpv_gain_mode conf))))
     (then_act (mpv_unit reply (SetFilters (join_commas (audio_filters conf))))
     (bind_act (mpv_request reply (GetProperty ''volume'')) (\<lambda>v.
      bind_act (of_result (ok_or ''Pinned mpv returned an invalid effective volume.'' (as_f64 v))) (\<lambda>volume.
      bind_act (mpv_request reply (GetPropertyString ''replaygain'')) (\<lambda>g.
      bind_act (of_result (ok_or ''Pinned mpv returned an invalid effective ReplayGain mode.''
          (Option.bind (as_str g) gain_of_name))) (\<lambda>gain.
      bind_act (mpv_request reply (GetPropertyString ''af'')) (\<lambda>a.
      bind_act (of_result (ok_or ''Pinned mpv returned invalid effective audio filters.'' (as_str a))) (\<lambda>filters.
        return_ok \<lparr>volume_percent = volume, mpv_gain_mode = gain,
          audio_filters = (if filters = [] then [] else split_char (CHR '','') filters)\<rparr>)))))))))"

definition mpv_shutdown :: "replies \<Rightarrow> (mpv, 'd, unit) act" where
  "mpv_shutdown reply = then_act (logged (mpv_call reply StopWorker)) (logged (mpv_call reply Release))"

lemmas mpv_ops = mpv_load_def mpv_append_def take_appended_def mpv_load_at_def load_with_event_boundary_def mpv_stop_def
  set_paused_def mpv_seek_def mpv_set_volume_def set_speed_def mpv_set_gapless_def clear_appended_def mpv_unit_def
  mpv_request_def mpv_call_def

end
