(* ===== verification/Playback_Session.thy ===== *)
theory Playback_Session
  imports Mpv_Process Playback_Navigation Adaptive_Rate
begin

text \<open>
  The Playback Session of the Desktop Client (\<open>desktop/core/src/playback.rs\<close>): its
  state, what the commands and mpv's events set of it, and the world around it.

  \<open>player_env\<close> is everything outside: mpv's replies, the decoder of sources, the
  answers of the system, indexed by the number of calls made so far. \<open>player\<close> is
  what the controller and its event thread share. A lock is never poisoned: that takes a panic
  under it. The revisions, 64 bits wide in the code, are natural numbers.
\<close>

subsection \<open>The state\<close>

datatype playback_status = Idle | Playing | Reconnecting | Paused | Ended | Errored

datatype session_repeat = RepeatOff | RepeatOnce | RepeatLoop

datatype issue_kind = BusyOrUnsupported | Disconnected

record state_error =
  error_code :: string
  error_message :: string

record device_issue =
  issue_code :: issue_kind
  issue_message :: string

record session =
  source :: "json option"
  out_mode :: output_mode_kind
  available_output_devices :: "output_device list"
  selected_output_device :: "output_device option"
  output_device_issue :: "device_issue option"
  status :: playback_status
  current_time :: f64
  duration :: f64
  buffered_end :: "f64 option"
  session_volume :: f64
  playback_rate :: f64
  stop_after_current :: bool
  is_gapless :: bool
  session_shuffle :: bool
  session_repeat :: session_repeat
  session_error :: "state_error option"
  processing :: processing_state
  telemetry :: telemetry

definition is_active :: "playback_status \<Rightarrow> bool" where
  "is_active st \<longleftrightarrow> st \<in> {Playing, Reconnecting}"

definition DEFAULT_VOLUME :: f64 where "DEFAULT_VOLUME = f64_of (8 / 10)"
definition MIN_PLAYBACK_RATE :: rat where "MIN_PLAYBACK_RATE = 1 / 2"
definition MAX_PLAYBACK_RATE :: rat where "MAX_PLAYBACK_RATE = 2"
definition MAX_TRANSITION_FADE_MS :: nat where "MAX_TRANSITION_FADE_MS = 2000"
definition GAPLESS_APPEND_LEAD_SECONDS :: rat where "GAPLESS_APPEND_LEAD_SECONDS = 10"

definition PLAYBACK_FAILED_MESSAGE :: string where
  "PLAYBACK_FAILED_MESSAGE = ''Playback failed. Check the source and try again.''"

definition ADAPTIVE_CLEANUP_FAILED_MESSAGE :: string where
  "ADAPTIVE_CLEANUP_FAILED_MESSAGE = ''Playback stopped, but Adaptive System Rate could not reset the system audio rate. Restart the Desktop Client.''"

definition session_default :: session where
  "session_default = \<lparr>source = None, out_mode = SystemOutput, available_output_devices = [],
     selected_output_device = None, output_device_issue = None, status = Idle, current_time = Fin 0,
     duration = Fin 0, buffered_end = None, session_volume = DEFAULT_VOLUME, playback_rate = Fin 1,
     stop_after_current = False, is_gapless = True, session_shuffle = False, session_repeat = RepeatOff,
     session_error = None, processing = default_state,
     telemetry = native_system_output source_unknown decoder_unknown None processing_unknown\<rparr>"

subsection \<open>Sources\<close>

definition is_live_source :: "json \<Rightarrow> bool" where
  "is_live_source src \<longleftrightarrow> Option.bind (jget ''type'' src) as_str \<in> {Some ''radio-station'', Some ''catalog-preview''}"

definition is_external_track_source :: "json \<Rightarrow> bool" where
  "is_external_track_source src \<longleftrightarrow> Option.bind (jget ''type'' src) as_str = Some ''external-track''"

definition source_url :: "parser \<Rightarrow> json \<Rightarrow> string + string" where
  "source_url prs src = and_then (prs src) playback_url"

definition track_duration :: "parser \<Rightarrow> json \<Rightarrow> f64" where
  "track_duration prs src = (case prs src of Inr s \<Rightarrow> duration_seconds s | Inl _ \<Rightarrow> Fin 0)"

definition has_gain :: "string \<Rightarrow> json option \<Rightarrow> bool" where
  "has_gain k src \<longleftrightarrow>
     (case Option.bind src (pointer [''track'', ''replayGain'', k]) of Some v \<Rightarrow> is_number v | None \<Rightarrow> False)"

definition effective_gain_of :: "gain_mode \<Rightarrow> json option \<Rightarrow> effective_gain" where
  "effective_gain_of mode src =
     (let track_gain = has_gain ''trackGainDb'' src; album_gain = has_gain ''albumGainDb'' src
      in case mode of
           GainOff \<Rightarrow> EffectiveOff
         | GainTrack \<Rightarrow> if track_gain then EffectiveTrack else GainUnavailable
         | GainAlbum \<Rightarrow> if album_gain then EffectiveAlbum else if track_gain then TrackFallback else GainUnavailable)"

fun profile_name :: "processing_profile \<Rightarrow> string" where
  "profile_name ProfileDirect = ''direct''"
| "profile_name ProfileProcessed = ''processed''"

fun seen_gain_name :: "gain_mode \<Rightarrow> string" where
  "seen_gain_name GainOff = ''off''"
| "seen_gain_name GainTrack = ''track''"
| "seen_gain_name GainAlbum = ''album''"

fun effective_gain_name :: "effective_gain \<Rightarrow> string" where
  "effective_gain_name EffectiveOff = ''off''"
| "effective_gain_name EffectiveTrack = ''track''"
| "effective_gain_name EffectiveAlbum = ''album''"
| "effective_gain_name TrackFallback = ''track-fallback''"
| "effective_gain_name GainUnavailable = ''unavailable''"
| "effective_gain_name GainUnknown = ''unknown''"

definition processing_observation_of :: "processing_state \<Rightarrow> processing_observation" where
  "processing_observation_of st =
     \<lparr>seen_profile = profile_name (profile st), seen_volume = Some (software_volume st),
      seen_gain_mode = seen_gain_name (replay_gain_mode st),
      seen_effective_gain = effective_gain_name (effective_replay_gain_mode st),
      seen_equalizer = Some (eq_enabled (equalizer st))\<rparr>"

definition source_observation_of :: "(string \<Rightarrow> string) \<Rightarrow> json option \<Rightarrow> source_observation" where
  "source_observation_of up src = (case src of Some s \<Rightarrow> from_playback_source up s | None \<Rightarrow> source_unknown)"

definition source_rate :: "(string \<Rightarrow> string) \<Rightarrow> json \<Rightarrow> nat option" where
  "source_rate up src = sample_rate_hz (source_format (from_playback_source up src))"

subsection \<open>Changes of the state\<close>

definition telemetry_for_output_mode :: "session \<Rightarrow> source_observation \<Rightarrow> decoder_observation
    \<Rightarrow> pipewire_observation option \<Rightarrow> telemetry" where
  "telemetry_for_output_mode s src dec pw =
     (case (out_mode s, selected_output_device s) of
        (DirectAlsa, Some dev) \<Rightarrow>
          native_direct_alsa_output src dec (device_label dev)
            (let fmt = device_format (seen_device (telemetry s)) in if fmt \<noteq> format_unknown then Some fmt else None)
            (processing_observation_of (processing s))
      | _ \<Rightarrow> native_system_output src dec pw (processing_observation_of (processing s)))"

definition reset_output_telemetry :: "(string \<Rightarrow> string) \<Rightarrow> session \<Rightarrow> session" where
  "reset_output_telemetry up s =
     s\<lparr>telemetry := telemetry_for_output_mode s (source_observation_of up (source s)) (seen_decoder (telemetry s)) None\<rparr>"

definition publish_system_output :: "(string \<Rightarrow> string) \<Rightarrow> session \<Rightarrow> session" where
  "publish_system_output up s =
     s\<lparr>out_mode := SystemOutput, output_device_issue := None,
       telemetry := native_system_output (source_observation_of up (source s)) (seen_decoder (telemetry s)) None
         (processing_observation_of (processing s))\<rparr>"

definition publish_adaptive_system_output :: "(string \<Rightarrow> string) \<Rightarrow> session \<Rightarrow> session" where
  "publish_adaptive_system_output up s =
     s\<lparr>out_mode := AdaptiveSystemRate, output_device_issue := None,
       telemetry := native_system_output (source_observation_of up (source s)) (seen_decoder (telemetry s)) None
         (processing_observation_of (processing s))\<rparr>"

definition set_effective_gain :: "json option \<Rightarrow> session \<Rightarrow> session" where
  "set_effective_gain src s =
     s\<lparr>processing := (processing s)\<lparr>effective_replay_gain_mode :=
         effective_gain_of (replay_gain_mode (processing s)) src\<rparr>\<rparr>"

definition set_device_format :: "audio_format \<Rightarrow> telemetry \<Rightarrow> telemetry" where
  "set_device_format fmt t = t\<lparr>seen_device := (seen_device t)\<lparr>device_format := fmt\<rparr>\<rparr>"

definition set_playing_source :: "parser \<Rightarrow> (string \<Rightarrow> string) \<Rightarrow> json \<Rightarrow> audio_format option \<Rightarrow> session \<Rightarrow> session" where
  "set_playing_source prs up src negotiated s =
     (let s1 = set_effective_gain (Some src) (s\<lparr>duration := track_duration prs src\<rparr>);
          s2 = s1\<lparr>telemetry := telemetry_for_output_mode s1 (from_playback_source up src) decoder_unknown None\<rparr>;
          s3 = (if out_mode s2 = DirectAlsa
            then s2\<lparr>telemetry := set_device_format
                   (case negotiated of Some x \<Rightarrow> x | None \<Rightarrow> format_unknown) (telemetry s2)\<rparr>
            else s2)
      in s3\<lparr>source := Some src, status := Playing, current_time := Fin 0, buffered_end := None, session_error := None\<rparr>)"

definition update_playing_state :: "parser \<Rightarrow> (string \<Rightarrow> string) \<Rightarrow> json \<Rightarrow> bool \<Rightarrow> session \<Rightarrow> session" where
  "update_playing_state prs up src is_new s =
     (if is_new then set_playing_source prs up src None s
      else s\<lparr>source := Some src, status := Playing, session_error := None\<rparr>)"

definition set_error_state :: "string \<Rightarrow> session \<Rightarrow> session" where
  "set_error_state msg s = s\<lparr>status := Errored,
     session_error := Some \<lparr>error_code = ''playback-failed'', error_message = msg\<rparr>\<rparr>"

definition clear_source :: "session \<Rightarrow> session" where
  "clear_source s =
     (let s1 = (set_effective_gain None (s\<lparr>source := None\<rparr>))
            \<lparr>status := Idle, current_time := Fin 0, buffered_end := None, duration := Fin 0, session_error := None\<rparr>
      in s1\<lparr>telemetry := telemetry_for_output_mode s1 source_unknown decoder_unknown None\<rparr>)"

fun repeat_of_name :: "string \<Rightarrow> session_repeat" where
  "repeat_of_name m = (if m = ''once'' then RepeatOnce else if m = ''loop'' then RepeatLoop else RepeatOff)"

fun repeat_name :: "session_repeat \<Rightarrow> string" where
  "repeat_name RepeatOff = ''off''"
| "repeat_name RepeatOnce = ''once''"
| "repeat_name RepeatLoop = ''loop''"

definition restore_snapshot_state :: "parser \<Rightarrow> (string \<Rightarrow> string) \<Rightarrow> session_snapshot \<Rightarrow> session \<Rightarrow> session" where
  "restore_snapshot_state prs up snap s =
     (let src = snapshot_source snap;
          s1 = set_effective_gain src (s\<lparr>source := src, status := (if src = None then Idle else Paused),
            current_time := playhead_seconds snap,
            duration := (case src of Some x \<Rightarrow> track_duration prs x | None \<Rightarrow> Fin 0),
            session_volume := volume snap, session_shuffle := shuffle_enabled snap,
            session_repeat := repeat_of_name (repeat_mode snap)\<rparr>)
      in s1\<lparr>telemetry := telemetry_for_output_mode s1 (source_observation_of up src) decoder_unknown None,
            session_error := None\<rparr>)"

text \<open>The snapshot of a session: the error is the one of the code's conversion.\<close>

definition snapshot_of_session :: "session \<Rightarrow> lifecycle_error + session_snapshot" where
  "snapshot_of_session s =
     snapshot_new (source s) (current_time s) (session_volume s) (session_shuffle s) (repeat_name (session_repeat s))"

definition busy_or_unsupported_device_issue :: "output_device \<Rightarrow> device_issue" where
  "busy_or_unsupported_device_issue dev = \<lparr>issue_code = BusyOrUnsupported,
     issue_message = device_label dev @ '' is busy or does not support this source format. Select Normal Output to continue through the system output.''\<rparr>"

definition disconnected_device_issue :: "output_device \<Rightarrow> device_issue" where
  "disconnected_device_issue dev = \<lparr>issue_code = Disconnected,
     issue_message = device_label dev @ '' disconnected. Select Normal Output to continue through the active system output.''\<rparr>"

fun output_device_public_message :: "output_device_error \<Rightarrow> string" where
  "output_device_public_message (EnumerationFailed _) =
     ''Raw ALSA Output Devices could not be listed. Check the local ALSA setup and try again.''"
| "output_device_public_message NotRawHardware =
     ''Choose a raw ALSA hardware device from the available Output Device list.''"
| "output_device_public_message (SelectedDeviceDisconnected _) =
     ''The selected raw ALSA Output Device is unavailable. Refresh the device list and choose another device.''"
| "output_device_public_message Unavailable =
     ''The selected raw ALSA Output Device is unavailable. Refresh the device list and choose another device.''"

subsection \<open>The world\<close>

record player_env =
  reply :: replies
  parse :: parser
  upper :: "string \<Rightarrow> string"
  as_f64 :: "json \<Rightarrow> f64 option"
  listed :: "nat \<Rightarrow> string + output_device list"
  rate_outcome :: "nat \<Rightarrow> outcome"
  marker_failure :: "nat \<Rightarrow> string option"
  random :: "nat \<Rightarrow> nat \<Rightarrow> nat option"
  has_path_observer :: bool
  observed_path :: "nat \<Rightarrow> pipewire_observation option"
  restart_failure :: "nat \<Rightarrow> string option"
  has_starter :: bool

record player =
  mpv :: mpv
  session :: session
  output_devices :: "device_catalog option"
  adaptive :: "rate_state option"
  rate_world :: rate_world
  queue :: queue_context
  life :: lifecycle
  is_shutdown :: bool
  command_revision :: nat
  load_revision :: nat
  published_load_revision :: nat
  transition_fade_ms :: nat
  tick :: nat
  published :: "session list"

definition player_started :: "device_catalog option \<Rightarrow> rate_state option \<Rightarrow> rate_world \<Rightarrow> player" where
  "player_started devs rates w = \<lparr>mpv = mpv_started [], session = session_default, output_devices = devs,
     adaptive = rates, rate_world = w, queue = queue_default, life = lifecycle_new, is_shutdown = False,
     command_revision = 0, load_revision = 0, published_load_revision = 0, transition_fade_ms = 0, tick = 0,
     published = []\<rparr>"

type_synonym 'a player_act = "(player, string, 'a) act"

definition with_mpv :: "'a mpv_act \<Rightarrow> 'a player_act" where
  "with_mpv m p = (case m (mpv p) of (r, m') \<Rightarrow> (r, p\<lparr>mpv := m'\<rparr>))"

text \<open>\<open>update\<close> also tells the listener; the event thread tells it once its handler is done.\<close>

definition update_shared_state :: "(session \<Rightarrow> session) \<Rightarrow> session player_act" where
  "update_shared_state g p = (let s = g (session p) in (Inr s, p\<lparr>session := s\<rparr>))"

definition publish :: "session \<Rightarrow> (player, 'e, unit) act" where
  "publish s p = (Inr (), p\<lparr>published := s # published p\<rparr>)"

definition update :: "(session \<Rightarrow> session) \<Rightarrow> session player_act" where
  "update g = bind_act (update_shared_state g) (\<lambda>s. then_act (publish s) (return_ok s))"

definition get_session :: "session player_act" where
  "get_session = read_state session"

definition next_tick :: "(player, 'e, nat) act" where
  "next_tick p = (Inr (tick p), p\<lparr>tick := tick p + 1\<rparr>)"

definition advance_command_revision :: "(player, 'e, unit) act" where
  "advance_command_revision = modify (\<lambda>p. p\<lparr>command_revision := command_revision p + 1\<rparr>)"

definition next_load_revision :: "(player, 'e, nat) act" where
  "next_load_revision p = (Inr (load_revision p + 1), p\<lparr>load_revision := load_revision p + 1\<rparr>)"

text \<open>An operation of the rate controller, which may be missing.\<close>

definition with_rate :: "player_env \<Rightarrow> string \<Rightarrow> (outcome \<Rightarrow> string option \<Rightarrow> rate_op) \<Rightarrow> unit player_act" where
  "with_rate env missing op p =
     (case adaptive p of
        None \<Rightarrow> (Inl missing, p)
      | Some st \<Rightarrow>
          (case op (rate_outcome env (tick p)) (marker_failure env (tick p)) st (rate_world p) of
             (r, st', w') \<Rightarrow> (r, p\<lparr>adaptive := Some st', rate_world := w', tick := tick p + 1\<rparr>)))"

definition with_catalog :: "(device_catalog \<Rightarrow> 'a \<times> device_catalog) \<Rightarrow> device_catalog \<Rightarrow> (player, 'e, 'a) act" where
  "with_catalog g cat p = (case g cat of (x, cat') \<Rightarrow> (Inr x, p\<lparr>output_devices := Some cat', tick := tick p + 1\<rparr>))"

definition with_queue :: "(queue_context \<Rightarrow> (string + unit) \<times> queue_context) \<Rightarrow> unit player_act" where
  "with_queue g p = (case g (queue p) of (r, q) \<Rightarrow> (r, p\<lparr>queue := q, tick := tick p + 1\<rparr>))"

definition mark_player_stable :: "(player, 'e, unit) act" where
  "mark_player_stable = modify (\<lambda>p. p\<lparr>life := player_stabilized (life p)\<rparr>)"

end
