(* ===== verification/Playback_Controller.thy ===== *)
theory Playback_Controller
  imports Playback_Session
begin

text \<open>
  The commands of the player (\<open>PlaybackController\<close> in
  \<open>desktop/core/src/playback.rs\<close>): each runs to its end before the next command
  or event. A failure that is only reported is \<open>logged\<close>; the timing of loads for
  the log is left out.
\<close>

subsection \<open>Failing\<close>

definition fail :: "string \<Rightarrow> session player_act" where
  "fail msg = then_act (logged (update (set_error_state msg))) (raise_err msg)"

definition fail_native :: "session player_act" where
  "fail_native = fail PLAYBACK_FAILED_MESSAGE"

subsection \<open>Fading\<close>

text \<open>The volumes of a ramp, one every 20 ms, in the arithmetic of \<open>f64\<close>.\<close>

definition fade_steps :: "nat \<Rightarrow> nat" where
  "fade_steps fade_ms = max (fade_ms div 20) 1"

definition ramp_value :: "f64 \<Rightarrow> f64 \<Rightarrow> nat \<Rightarrow> nat \<Rightarrow> f64" where
  "ramp_value from_v to_v step steps =
     f64_add from_v (f64_mul (f64_sub to_v from_v) (f64_div (Fin (of_nat step)) (Fin (of_nat steps))))"

text \<open>A failed step ends the ramp.\<close>

fun ramp_loop :: "player_env \<Rightarrow> f64 list \<Rightarrow> (player, 'e, unit) act" where
  "ramp_loop env [] = return_ok ()"
| "ramp_loop env (v # vs) =
     match_act (with_mpv (mpv_set_volume (reply env) v)) (\<lambda>_. return_ok ()) (\<lambda>_. ramp_loop env vs)"

definition ramp_volume :: "player_env \<Rightarrow> f64 \<Rightarrow> f64 \<Rightarrow> nat \<Rightarrow> (player, 'e, unit) act" where
  "ramp_volume env from_v to_v fade_ms =
     (let steps = fade_steps fade_ms
      in ramp_loop env (map (\<lambda>step. ramp_value from_v to_v step steps) [1..<steps + 1]))"

definition active_fade :: "player \<Rightarrow> (f64 \<times> nat) option" where
  "active_fade p =
     (if transition_fade_ms p = 0 \<or> \<not> is_active (status (session p)) then None
      else Some (session_volume (session p), transition_fade_ms p))"

definition fade_out :: "player_env \<Rightarrow> (player, 'e, unit) act" where
  "fade_out env p =
     (case active_fade p of None \<Rightarrow> (Inr (), p) | Some (v, ms) \<Rightarrow> ramp_volume env v (Fin 0) ms p)"

definition fade_in :: "player_env \<Rightarrow> (player, 'e, unit) act" where
  "fade_in env p =
     (case active_fade p of None \<Rightarrow> (Inr (), p) | Some (v, ms) \<Rightarrow> ramp_volume env (Fin 0) v ms p)"

definition restore_volume :: "player_env \<Rightarrow> (player, 'e, unit) act" where
  "restore_volume env p =
     (if transition_fade_ms p = 0 then (Inr (), p)
      else logged (with_mpv (mpv_set_volume (reply env) (session_volume (session p)))) p)"

subsection \<open>The system's rate\<close>

definition RATE_UNAVAILABLE :: string where
  "RATE_UNAVAILABLE = ''Adaptive System Rate is unavailable on this system.''"

definition rate_apply :: "nat option \<Rightarrow> outcome \<Rightarrow> string option \<Rightarrow> rate_op" where
  "rate_apply rate out _ = apply_source_sample_rate out rate"

definition rate_recover :: "outcome \<Rightarrow> string option \<Rightarrow> rate_op" where
  "rate_recover out _ = reset_for_recovery out"

definition rate_enable :: "outcome \<Rightarrow> string option \<Rightarrow> rate_op" where
  "rate_enable out _ = Adaptive_Rate.enable out"

definition apply_adaptive_source_rate :: "player_env \<Rightarrow> json \<Rightarrow> unit player_act" where
  "apply_adaptive_source_rate env src p =
     (if out_mode (session p) \<noteq> AdaptiveSystemRate then (Inr (), p)
      else with_rate env RATE_UNAVAILABLE (rate_apply (source_rate (upper env) src)) p)"

definition reset_adaptive_after_failure :: "player_env \<Rightarrow> (player, 'e, unit) act" where
  "reset_adaptive_after_failure env p =
     (if adaptive p = None then (Inr (), p) else logged (with_rate env [] rate_recover) p)"

definition disable_adaptive_system_rate :: "player_env \<Rightarrow> unit player_act" where
  "disable_adaptive_system_rate env p =
     (if adaptive p = None then (Inr (), p)
      else match_act (with_rate env [] Adaptive_Rate.disable)
        (\<lambda>_. raise_err ''Adaptive System Rate could not be disabled. Restart the Desktop Client.'') return_ok p)"

subsection \<open>Playing\<close>

definition start_playback :: "player_env \<Rightarrow> json \<Rightarrow> bool \<Rightarrow> nat option player_act" where
  "start_playback env src should_load =
     (if \<not> should_load then then_act (with_mpv (set_paused (reply env) False)) (return_ok None)
      else bind_act (of_result (source_url (parse env) src)) (\<lambda>url.
           bind_act next_load_revision (\<lambda>revision.
             then_act (with_mpv (then_act (load_with_event_boundary (reply env) url revision)
                 (set_paused (reply env) False)))
               (return_ok (Some revision)))))"

definition align_queue_to_source :: "player_env \<Rightarrow> json \<Rightarrow> unit player_act" where
  "align_queue_to_source env src = with_queue (align_to_source (parse env) src)"

definition publish_load_revision :: "nat option \<Rightarrow> (player, 'e, unit) act" where
  "publish_load_revision revision =
     modify (\<lambda>p. case revision of Some r \<Rightarrow> p\<lparr>published_load_revision := r\<rparr> | None \<Rightarrow> p)"

text \<open>What \<open>play\<close> does once the source is known.\<close>

definition play_source :: "player_env \<Rightarrow> json \<Rightarrow> bool \<Rightarrow> bool \<Rightarrow> session player_act" where
  "play_source env src is_new should_fade_in =
     then_act (when_act should_fade_in (logged (with_mpv (mpv_set_volume (reply env) (Fin 0)))))
     (match_act (if is_new then apply_adaptive_source_rate env src else return_ok ())
       (\<lambda>_. then_act (reset_adaptive_after_failure env) fail_native)
       (\<lambda>_. match_act (start_playback env src is_new)
          (\<lambda>_. then_act (reset_adaptive_after_failure env) fail_native)
          (\<lambda>revision.
             bind_act (update (update_playing_state (parse env) (upper env) src is_new)) (\<lambda>s.
             then_act (publish_load_revision revision)
             (then_act (align_queue_to_source env src)
             (then_act mark_player_stable
             (then_act (when_act should_fade_in (fade_in env)) (return_ok s))))))))"

definition play :: "player_env \<Rightarrow> json option \<Rightarrow> session player_act" where
  "play env src =
     then_act advance_command_revision
     (bind_act (read_state (\<lambda>p. (session p, transition_fade_ms p))) (\<lambda>(current, fade_ms).
        case (case src of Some x \<Rightarrow> Some x | None \<Rightarrow> source current) of
          None \<Rightarrow> return_ok current
        | Some next_source \<Rightarrow>
            let is_new = (src \<noteq> None \<or> status current = Ended);
                should_fade_in = (\<not> is_new \<and> status current = Paused \<and> 0 < fade_ms)
            in play_source env next_source is_new should_fade_in))"

definition pause :: "player_env \<Rightarrow> session player_act" where
  "pause env =
     then_act advance_command_revision
     (bind_act get_session (\<lambda>s.
        if source s = None then return_ok s
        else then_act (fade_out env)
          (bind_act (attempt (with_mpv (set_paused (reply env) True))) (\<lambda>paused.
           then_act (restore_volume env)
             (case paused of
                Inl _ \<Rightarrow> fail_native
              | Inr _ \<Rightarrow> update (\<lambda>s. s\<lparr>status := Paused\<rparr>))))))"

definition stop :: "player_env \<Rightarrow> session player_act" where
  "stop env =
     then_act advance_command_revision
     (then_act (fade_out env)
     (bind_act (attempt (with_mpv (mpv_stop (reply env)))) (\<lambda>stopped.
      then_act (restore_volume env)
        (case stopped of Inl _ \<Rightarrow> fail_native | Inr _ \<Rightarrow> update clear_source))))"

definition toggle_play :: "player_env \<Rightarrow> session player_act" where
  "toggle_play env =
     bind_act get_session (\<lambda>s. if is_active (status s) then pause env else play env None)"

definition seek :: "player_env \<Rightarrow> f64 \<Rightarrow> session player_act" where
  "seek env seconds =
     (if \<not> is_finite seconds \<or> f64_lt seconds (Fin 0)
      then fail ''Playback seek position must be a non-negative finite number.''
      else match_act (with_mpv (mpv_seek (reply env) seconds)) (\<lambda>_. fail_native)
        (\<lambda>_. update (\<lambda>s. s\<lparr>current_time := seconds\<rparr>)))"

definition navigate :: "player_env \<Rightarrow> queue_direction \<Rightarrow> session player_act" where
  "navigate env d =
     bind_act (read_state (\<lambda>p. adjacent_source d (session_repeat (session p) = RepeatLoop) (queue p))) (\<lambda>next.
       case next of
         None \<Rightarrow> get_session
       | Some src \<Rightarrow>
           then_act (fade_out env)
             (match_act (play env (Some src))
               (\<lambda>e. then_act (restore_volume env) (raise_err e))
               (\<lambda>s. then_act (fade_in env) (return_ok s))))"

subsection \<open>Settings of the session\<close>

definition processing_applied :: "mpv_processing \<Rightarrow> processing_state \<Rightarrow> processing_state" where
  "processing_applied applied proc =
     proc\<lparr>software_volume := f64_clamp (f64_div (volume_percent applied) (Fin 100)) 0 1,
       replay_gain_mode := mpv_gain_mode applied,
       equalizer := (equalizer proc)\<lparr>eq_enabled := (audio_filters applied \<noteq> [])\<rparr>,
       effective_audio_filters := audio_filters applied\<rparr>"

definition publish_processing :: "mpv_processing \<Rightarrow> processing_state \<Rightarrow> session \<Rightarrow> session" where
  "publish_processing applied proc s =
     (let proc' = proc\<lparr>effective_replay_gain_mode := effective_gain_of (mpv_gain_mode applied) (source s)\<rparr>
      in s\<lparr>session_volume := software_volume proc', processing := proc',
           telemetry := (telemetry s)\<lparr>seen_processing := processing_observation_of proc'\<rparr>\<rparr>)"

definition apply_processing :: "player_env \<Rightarrow> processing_state \<Rightarrow> mpv_processing \<Rightarrow> session player_act" where
  "apply_processing env proc conf =
     match_act (with_mpv (apply_processing_mpv (reply env) (as_f64 env) conf)) (\<lambda>_. fail_native)
       (\<lambda>applied. update (publish_processing applied (processing_applied applied proc)))"

definition set_playback_rate :: "player_env \<Rightarrow> f64 \<Rightarrow> session player_act" where
  "set_playback_rate env rate =
     (if \<not> is_finite rate \<or> \<not> f64_between MIN_PLAYBACK_RATE rate MAX_PLAYBACK_RATE
      then fail ''Playback speed must be between 0.5 and 2.''
      else match_act (with_mpv (set_speed (reply env) rate)) (\<lambda>_. fail_native)
        (\<lambda>_. update (\<lambda>s. s\<lparr>playback_rate := rate\<rparr>)))"

definition set_gapless :: "player_env \<Rightarrow> bool \<Rightarrow> session player_act" where
  "set_gapless env enabled =
     match_act (with_mpv (mpv_set_gapless (reply env) enabled)) (\<lambda>_. fail_native)
       (\<lambda>_. update (\<lambda>s. s\<lparr>is_gapless := enabled\<rparr>))"

definition set_stop_after_current :: "bool \<Rightarrow> session player_act" where
  "set_stop_after_current enabled = update (\<lambda>s. s\<lparr>stop_after_current := enabled\<rparr>)"

definition set_transition_fade_ms :: "nat \<Rightarrow> session player_act" where
  "set_transition_fade_ms ms =
     then_act (modify (\<lambda>p. p\<lparr>transition_fade_ms := min ms MAX_TRANSITION_FADE_MS\<rparr>)) get_session"

fun next_repeat :: "session_repeat \<Rightarrow> session_repeat" where
  "next_repeat RepeatOff = RepeatOnce"
| "next_repeat RepeatOnce = RepeatLoop"
| "next_repeat RepeatLoop = RepeatOff"

definition cycle_repeat_mode :: "session player_act" where
  "cycle_repeat_mode = update (\<lambda>s. s\<lparr>session_repeat := next_repeat (session_repeat s)\<rparr>)"

definition shuffle_queue :: "player_env \<Rightarrow> unit player_act" where
  "shuffle_queue env p = with_queue (shuffle (random env (tick p))) p"

definition toggle_shuffle :: "player_env \<Rightarrow> session player_act" where
  "toggle_shuffle env =
     bind_act (update (\<lambda>s. s\<lparr>session_shuffle := \<not> session_shuffle s\<rparr>)) (\<lambda>s.
       then_act (if session_shuffle s then shuffle_queue env else modify (\<lambda>p. p\<lparr>queue := reset_order (queue p)\<rparr>))
         (return_ok s))"

definition is_track_source :: "json \<Rightarrow> bool" where
  "is_track_source src \<longleftrightarrow> jget ''type'' src = Some (JString ''track'')"

definition sync_queue_context :: "player_env \<Rightarrow> json list \<Rightarrow> nat option \<Rightarrow> session player_act" where
  "sync_queue_context env vs current =
     bind_act get_session (\<lambda>s.
     then_act (with_queue (sync (parse env) vs current))
     (then_act (case source s of
          Some src \<Rightarrow> if is_track_source src then align_queue_to_source env src else return_ok ()
        | None \<Rightarrow> return_ok ())
     (then_act (if session_shuffle s then shuffle_queue env else return_ok ()) get_session)))"

subsection \<open>Restoring a session and shutting down\<close>

definition apply_snapshot_to_process :: "player_env \<Rightarrow> session_snapshot \<Rightarrow> bool \<Rightarrow> f64 \<Rightarrow> unit mpv_act" where
  "apply_snapshot_to_process env snap should_resume rate =
     then_act (set_paused (reply env) True)
     (then_act (mpv_set_volume (reply env) (volume snap))
     (then_act (set_speed (reply env) rate)
       (case snapshot_source snap of
          None \<Rightarrow> return_ok ()
        | Some src \<Rightarrow>
            bind_act (of_result (source_url (parse env) src)) (\<lambda>url.
            then_act (mpv_load_at (reply env) url (playhead_seconds snap))
              (when_act should_resume (set_paused (reply env) False))))))"

definition restore_paused :: "player_env \<Rightarrow> session_snapshot \<Rightarrow> session player_act" where
  "restore_paused env snap =
     then_act advance_command_revision
     (bind_act get_session (\<lambda>s.
        match_act (with_mpv (apply_snapshot_to_process env snap False (playback_rate s))) (\<lambda>_. fail_native)
          (\<lambda>_. bind_act (update (restore_snapshot_state (parse env) (upper env) snap)) (\<lambda>s'.
             then_act mark_player_stable (return_ok s')))))"

definition shutdown_player :: "player_env \<Rightarrow> unit player_act" where
  "shutdown_player env =
     then_act advance_command_revision
     (then_act (modify (\<lambda>p. p\<lparr>is_shutdown := True\<rparr>)) (with_mpv (mpv_shutdown (reply env))))"

definition shutdown :: "player_env \<Rightarrow> unit player_act" where
  "shutdown env = then_act (disable_adaptive_system_rate env) (shutdown_player env)"

end
