(* ===== verification/Playback_Outputs.thy ===== *)
theory Playback_Outputs
  imports Playback_Controller
begin

text \<open>
  The Output Modes of the player (\<open>desktop/core/src/playback.rs\<close>): the system's
  output, the system's output at the source's rate, and a raw ALSA device; what
  happens when one cannot be had, and when a device goes away.
\<close>

subsection \<open>Routes\<close>

definition configure_system_output :: "player_env \<Rightarrow> unit player_act" where
  "configure_system_output env = then_act (with_mpv (configure_output (reply env) ToSystem)) (return_ok ())"

definition configure_direct_output :: "player_env \<Rightarrow> output_device \<Rightarrow> audio_format option player_act" where
  "configure_direct_output env dev = with_mpv (configure_output (reply env) (ToDirectAlsa (device_id dev)))"

definition pause_after_output_failure :: "player_env \<Rightarrow> (player, 'e, unit) act" where
  "pause_after_output_failure env = logged (with_mpv (set_paused (reply env) True))"

definition restore_safe_system_output :: "player_env \<Rightarrow> (player, 'e, output_mode_kind) act" where
  "restore_safe_system_output env = then_act (logged (configure_system_output env)) (return_ok SystemOutput)"

subsection \<open>Adaptive System Rate\<close>

definition enable_adaptive_controller :: "player_env \<Rightarrow> unit player_act" where
  "enable_adaptive_controller env p =
     (if adaptive p = None then (Inl RATE_UNAVAILABLE, p)
      else match_act (with_rate env [] rate_enable)
        (\<lambda>_. raise_err ''Adaptive System Rate could not be enabled because its cleanup safeguard could not be saved. Check Desktop Client storage permissions and try again.'')
        return_ok p)"

definition fail_adaptive_setup :: "player_env \<Rightarrow> session player_act" where
  "fail_adaptive_setup env = then_act (disable_adaptive_system_rate env) fail_native"

definition enable_adaptive_system_rate :: "player_env \<Rightarrow> session player_act" where
  "enable_adaptive_system_rate env =
     bind_act (read_state (\<lambda>p. Option.bind (source (session p)) (source_rate (upper env)))) (\<lambda>rate.
     then_act (enable_adaptive_controller env)
     (match_act (configure_system_output env) (\<lambda>_. fail_adaptive_setup env)
       (\<lambda>_. match_act (with_rate env RATE_UNAVAILABLE (rate_apply rate)) (\<lambda>_. fail_adaptive_setup env)
         (\<lambda>_. update (publish_adaptive_system_output (upper env))))))"

subsection \<open>A raw device\<close>

definition select_output_device_act :: "player_env \<Rightarrow> string \<Rightarrow> output_device player_act" where
  "select_output_device_act env dev p =
     (case output_devices p of
        None \<Rightarrow> (Inl ''Direct ALSA Output is unavailable.'', p)
      | Some cat \<Rightarrow>
          bind_act (with_catalog (catalog_select (listed env (tick p)) dev) cat)
            (\<lambda>r. of_result (map_err output_device_public_message r)) p)"

text \<open>The wait for the format: \<open>tries\<close> is how often the code looks before its two seconds are over.\<close>

fun observe_until :: "player_env \<Rightarrow> nat \<Rightarrow> string option \<Rightarrow> audio_format option player_act" where
  "observe_until env 0 last_error =
     raise_err (case last_error of Some e \<Rightarrow> e
       | None \<Rightarrow> ''Direct ALSA Output did not report an active audio format.'')"
| "observe_until env (Suc n) last_error =
     match_act (with_mpv (observe_output_format (reply env) (upper env)))
       (\<lambda>e. observe_until env n (Some e))
       (\<lambda>fmt. case fmt of Some x \<Rightarrow> return_ok (Some x) | None \<Rightarrow> observe_until env n last_error)"

definition observe_direct_output_if_ready :: "player_env \<Rightarrow> nat \<Rightarrow> audio_format option \<Rightarrow> bool
    \<Rightarrow> audio_format option player_act" where
  "observe_direct_output_if_ready env tries configured has_source =
     (if configured \<noteq> None \<or> \<not> has_source then return_ok configured else observe_until env tries None)"

definition direct_output_published :: "(string \<Rightarrow> string) \<Rightarrow> output_device \<Rightarrow> audio_format option \<Rightarrow> session \<Rightarrow> session" where
  "direct_output_published up dev negotiated s =
     s\<lparr>out_mode := DirectAlsa, selected_output_device := Some dev, output_device_issue := None,
       telemetry := native_direct_alsa_output (source_observation_of up (source s)) (seen_decoder (telemetry s))
         (device_label dev) negotiated (processing_observation_of (processing s))\<rparr>"

definition restore_adaptive_output_route :: "player_env \<Rightarrow> (player, 'e, output_mode_kind) act" where
  "restore_adaptive_output_route env =
     match_act (enable_adaptive_system_rate env)
       (\<lambda>_. restore_safe_system_output env) (\<lambda>_. return_ok AdaptiveSystemRate)"

definition restore_output_route :: "player_env \<Rightarrow> session \<Rightarrow> (player, 'e, output_mode_kind) act" where
  "restore_output_route env previous =
     (case out_mode previous of
        AdaptiveSystemRate \<Rightarrow> restore_adaptive_output_route env
      | SystemOutput \<Rightarrow> match_act (configure_system_output env)
          (\<lambda>_. restore_safe_system_output env) (\<lambda>_. return_ok SystemOutput)
      | DirectAlsa \<Rightarrow>
          (case selected_output_device previous of
             None \<Rightarrow> restore_safe_system_output env
           | Some dev \<Rightarrow> match_act (configure_direct_output env dev)
               (\<lambda>_. restore_safe_system_output env) (\<lambda>_. return_ok DirectAlsa)))"

definition direct_output_refused :: "(string \<Rightarrow> string) \<Rightarrow> session \<Rightarrow> output_device \<Rightarrow> output_mode_kind \<Rightarrow> session \<Rightarrow> session" where
  "direct_output_refused up previous attempted restored s =
     reset_output_telemetry up (s\<lparr>out_mode := restored,
       selected_output_device := (if restored = DirectAlsa then selected_output_device previous else Some attempted),
       status := (if source s \<noteq> None then Paused else status s),
       output_device_issue := Some (busy_or_unsupported_device_issue attempted)\<rparr>)"

definition handle_direct_output_failure :: "player_env \<Rightarrow> session \<Rightarrow> output_device \<Rightarrow> session player_act" where
  "handle_direct_output_failure env previous attempted =
     bind_act (restore_output_route env previous) (\<lambda>restored.
     then_act (pause_after_output_failure env)
       (update (direct_output_refused (upper env) previous attempted restored)))"

definition select_direct_alsa_output :: "player_env \<Rightarrow> nat \<Rightarrow> string \<Rightarrow> session player_act" where
  "select_direct_alsa_output env tries dev_id =
     bind_act get_session (\<lambda>previous.
     bind_act (select_output_device_act env dev_id) (\<lambda>dev.
     then_act (disable_adaptive_system_rate env)
     (match_act (bind_act (configure_direct_output env dev)
           (\<lambda>fmt. observe_direct_output_if_ready env tries fmt (source previous \<noteq> None)))
       (\<lambda>_. handle_direct_output_failure env previous dev)
       (\<lambda>fmt. update (direct_output_published (upper env) dev fmt)))))"

subsection \<open>Back to the system\<close>

definition restore_adaptive_after_system_failure :: "player_env \<Rightarrow> output_mode_kind \<Rightarrow> (player, 'e, unit) act" where
  "restore_adaptive_after_system_failure env previous_mode =
     (if previous_mode \<noteq> AdaptiveSystemRate then return_ok () else logged (enable_adaptive_system_rate env))"

definition fallback_to_system_output :: "player_env \<Rightarrow> session player_act" where
  "fallback_to_system_output env =
     bind_act get_session (\<lambda>previous.
     then_act (disable_adaptive_system_rate env)
     (match_act (configure_system_output env)
       (\<lambda>_. then_act (restore_adaptive_after_system_failure env (out_mode previous)) fail_native)
       (\<lambda>_. update (publish_system_output (upper env)))))"

subsection \<open>The list of devices\<close>

text \<open>A disconnected selection still comes with the devices there are.\<close>

definition observe_devices :: "player_env \<Rightarrow> device_catalog
    \<Rightarrow> (output_device list \<times> output_device option) player_act" where
  "observe_devices env cat p =
     bind_act (with_catalog (\<lambda>c. case catalog_refresh (listed env (tick p)) c of (r, c') \<Rightarrow> ((r, c'), c')) cat)
       (\<lambda>(r, c'). case r of
          Inr ds \<Rightarrow> return_ok (ds, None)
        | Inl (SelectedDeviceDisconnected d) \<Rightarrow> return_ok (catalog_devices c', Some d)
        | Inl e \<Rightarrow> raise_err (output_device_public_message e)) p"

definition refresh_output_catalog :: "player_env \<Rightarrow> (output_device list \<times> output_device option) player_act" where
  "refresh_output_catalog env p =
     (case output_devices p of
        None \<Rightarrow> (Inl ''Raw ALSA hardware enumeration is unavailable.'', p)
      | Some cat \<Rightarrow> observe_devices env cat p)"

definition devices_published :: "output_device list \<Rightarrow> session \<Rightarrow> session" where
  "devices_published ds s =
     s\<lparr>available_output_devices := ds,
       output_device_issue := (case output_device_issue s of
           Some i \<Rightarrow> if issue_code i = Disconnected then None else Some i | None \<Rightarrow> None)\<rparr>"

definition device_lost :: "output_device list \<Rightarrow> output_device \<Rightarrow> session \<Rightarrow> session" where
  "device_lost ds dev s =
     s\<lparr>available_output_devices := ds, status := (if source s \<noteq> None then Paused else status s),
       output_device_issue := Some (disconnected_device_issue dev)\<rparr>"

definition refresh_output_devices :: "player_env \<Rightarrow> session player_act" where
  "refresh_output_devices env =
     bind_act (refresh_output_catalog env) (\<lambda>(ds, disconnected).
       case disconnected of
         None \<Rightarrow> update (devices_published ds)
       | Some dev \<Rightarrow>
           bind_act get_session (\<lambda>s.
             if out_mode s \<noteq> DirectAlsa then update (\<lambda>s. s\<lparr>available_output_devices := ds\<rparr>)
             else then_act (pause_after_output_failure env) (update (device_lost ds dev))))"

text \<open>The periodic look of the event thread.\<close>

definition should_observe_direct_output :: "session \<Rightarrow> bool" where
  "should_observe_direct_output s \<longleftrightarrow> out_mode s = DirectAlsa
     \<and> (case output_device_issue s of Some i \<Rightarrow> issue_code i \<noteq> Disconnected | None \<Rightarrow> True)"

definition publish_hotplug_devices :: "output_device list \<Rightarrow> (player, 'e, unit) act" where
  "publish_hotplug_devices ds p =
     (if available_output_devices (session p) = ds then (Inr (), p)
      else logged (update (\<lambda>s. s\<lparr>available_output_devices := ds\<rparr>)) p)"

definition pause_disconnected_output :: "player_env \<Rightarrow> output_device list \<Rightarrow> output_device \<Rightarrow> (player, 'e, unit) act" where
  "pause_disconnected_output env ds dev =
     then_act (logged (with_mpv (set_paused (reply env) True))) (logged (update (device_lost ds dev)))"

definition refresh_direct_output_device :: "player_env \<Rightarrow> (player, 'e, unit) act" where
  "refresh_direct_output_device env p =
     (case output_devices p of
        None \<Rightarrow> (Inr (), p)
      | Some cat \<Rightarrow>
          if \<not> should_observe_direct_output (session p) then (Inr (), p)
          else match_act (observe_devices env cat) (\<lambda>_. return_ok ())
            (\<lambda>(ds, disconnected). case disconnected of
               Some dev \<Rightarrow> pause_disconnected_output env ds dev
             | None \<Rightarrow> publish_hotplug_devices ds) p)"

end
