(* ===== verification/Playback_Events.thy ===== *)
theory Playback_Events
  imports Playback_Outputs
begin

text \<open>
  The event thread of the player (\<open>desktop/core/src/playback.rs\<close>): what mpv's
  events change, how the Queue goes on when a source ends, and how a Live Radio
  source is found again. Times are in milliseconds and come with each turn of
  the loop.
\<close>

datatype mpv_event =
    LoadBoundary nat | TimeEvent f64 | DurationEvent f64 | BufferedEndEvent f64 | PausedEvent bool
  | DecoderEvent decoder_observation | FileLoaded | PlaybackRestart | EndedEvent | ErrorEvent string
  | ExitedUnexpectedly string

subsection \<open>The rate while events are handled\<close>

definition apply_adaptive_rate_for_event :: "player_env \<Rightarrow> json \<Rightarrow> unit player_act" where
  "apply_adaptive_rate_for_event env src p =
     (if out_mode (session p) \<noteq> AdaptiveSystemRate then (Inr (), p)
      else with_rate env ''Adaptive System Rate is unavailable.'' (rate_apply (source_rate (upper env) src)) p)"

definition reset_adaptive_after_event_failure :: "player_env \<Rightarrow> unit player_act" where
  "reset_adaptive_after_event_failure env p =
     (if out_mode (session p) \<noteq> AdaptiveSystemRate then (Inr (), p)
      else if adaptive p = None then (Inl ''Adaptive System Rate is unavailable.'', p)
      else match_act (with_rate env [] rate_recover)
        (\<lambda>_. raise_err ''Adaptive System Rate cleanup failed.'') return_ok p)"

definition publish_adaptive_cleanup_failure :: "session player_act" where
  "publish_adaptive_cleanup_failure = update_shared_state (set_error_state ADAPTIVE_CLEANUP_FAILED_MESSAGE)"

definition apply_adaptive_decoder_rate :: "player_env \<Rightarrow> nat option \<Rightarrow> (player, 'e, unit) act" where
  "apply_adaptive_decoder_rate env rate p =
     (if out_mode (session p) \<noteq> AdaptiveSystemRate then (Inr (), p)
      else match_act (with_rate env RATE_UNAVAILABLE (rate_apply rate))
        (\<lambda>_. then_act (logged (with_rate env [] rate_recover))
          (logged (update (\<lambda>s. set_error_state
             ''Adaptive System Rate could not follow this source. System Output was restored.''
             (s\<lparr>out_mode := SystemOutput\<rparr>)))))
        return_ok p)"

subsection \<open>The end of a source\<close>

definition stop_appended_source :: "player_env \<Rightarrow> string option \<Rightarrow> (player, 'e, unit) act" where
  "stop_appended_source env app =
     (case app of None \<Rightarrow> return_ok () | Some _ \<Rightarrow> logged (with_mpv (mpv_stop (reply env))))"

definition prepare_advanced_source_rate :: "player_env \<Rightarrow> json \<Rightarrow> unit player_act" where
  "prepare_advanced_source_rate env src =
     match_act (apply_adaptive_rate_for_event env src)
       (\<lambda>e. match_act (reset_adaptive_after_event_failure env)
          (\<lambda>_. raise_err ADAPTIVE_CLEANUP_FAILED_MESSAGE) (\<lambda>_. raise_err e))
       return_ok"

definition start_advanced_source :: "player_env \<Rightarrow> json \<Rightarrow> unit player_act" where
  "start_advanced_source env src =
     bind_act (of_result (source_url (parse env) src))
       (\<lambda>url. with_mpv (then_act (mpv_load (reply env) url) (set_paused (reply env) False)))"

definition publish_advanced_source_failure :: "player_env \<Rightarrow> session player_act" where
  "publish_advanced_source_failure env =
     match_act (reset_adaptive_after_event_failure env)
       (\<lambda>_. publish_adaptive_cleanup_failure)
       (\<lambda>_. update_shared_state (set_error_state PLAYBACK_FAILED_MESSAGE))"

definition align_and_publish_advanced_source :: "player_env \<Rightarrow> json \<Rightarrow> session player_act" where
  "align_and_publish_advanced_source env src =
     then_act (align_queue_to_source env src)
       (update_shared_state (set_playing_source (parse env) (upper env) src None))"

definition load_advanced_source :: "player_env \<Rightarrow> json \<Rightarrow> session player_act" where
  "load_advanced_source env src =
     then_act (prepare_advanced_source_rate env src)
       (match_act (start_advanced_source env src)
         (\<lambda>_. publish_advanced_source_failure env)
         (\<lambda>_. align_and_publish_advanced_source env src))"

definition repeat_current_source :: "player_env \<Rightarrow> session player_act" where
  "repeat_current_source env =
     bind_act get_session (\<lambda>s.
       case source s of
         None \<Rightarrow> update_shared_state (\<lambda>s. s\<lparr>status := Ended\<rparr>)
       | Some src \<Rightarrow>
           bind_act (load_advanced_source env src) (\<lambda>repeated.
             if status repeated \<noteq> Playing then return_ok repeated
             else update_shared_state (\<lambda>s. s\<lparr>session_repeat := RepeatOff\<rparr>)))"

definition handle_ended_event :: "player_env \<Rightarrow> session player_act" where
  "handle_ended_event env =
     bind_act get_session (\<lambda>s.
     bind_act (with_mpv take_appended) (\<lambda>app.
       if stop_after_current s
       then then_act (stop_appended_source env app)
         (update_shared_state (\<lambda>s. s\<lparr>stop_after_current := False, status := Ended\<rparr>))
       else if session_repeat s = RepeatOnce
         \<and> \<not> (case source s of Some src \<Rightarrow> is_external_track_source src | None \<Rightarrow> False)
       then repeat_current_source env
       else bind_act (read_state (\<lambda>p. adjacent_source DirNext (session_repeat s = RepeatLoop) (queue p))) (\<lambda>next.
         case next of
           Some src \<Rightarrow>
             if app \<noteq> None \<and> source_url (parse env) src = Inr (the app)
             then then_act (prepare_advanced_source_rate env src) (align_and_publish_advanced_source env src)
             else load_advanced_source env src
         | None \<Rightarrow> then_act (stop_appended_source env app)
             (update_shared_state (\<lambda>s. s\<lparr>status := Ended\<rparr>)))))"

text \<open>The next source goes to mpv shortly before the current one ends.\<close>

definition near_end :: "session \<Rightarrow> f64 \<Rightarrow> bool" where
  "near_end s seconds \<longleftrightarrow> f64_lt (Fin 0) (duration s)
     \<and> f64_le (f64_sub (duration s) seconds) (Fin GAPLESS_APPEND_LEAD_SECONDS)"

definition append_next_source_near_end :: "player_env \<Rightarrow> f64 \<Rightarrow> (player, 'e, unit) act" where
  "append_next_source_near_end env seconds p =
     (let s = session p in
      if \<not> near_end s seconds \<or> status s \<noteq> Playing \<or> stop_after_current s \<or> session_repeat s = RepeatOnce
        \<or> (case source s of None \<Rightarrow> True | Some src \<Rightarrow> is_live_source src)
      then (Inr (), p)
      else (case adjacent_source DirNext (session_repeat s = RepeatLoop) (queue p) of
          None \<Rightarrow> (Inr (), p)
        | Some src \<Rightarrow>
            (case source_url (parse env) src of
               Inl _ \<Rightarrow> (Inr (), p)
             | Inr url \<Rightarrow>
                 if appended (mpv p) \<noteq> None then (Inr (), p)
                 else logged (with_mpv (mpv_append (reply env) url)) p)))"

subsection \<open>The other events\<close>

definition direct_mpv_error :: "(string \<Rightarrow> string) \<Rightarrow> output_device \<Rightarrow> session \<Rightarrow> session" where
  "direct_mpv_error up dev s =
     reset_output_telemetry up (s\<lparr>status := Paused, out_mode := SystemOutput,
       output_device_issue := Some (busy_or_unsupported_device_issue dev)\<rparr>)"

definition publish_direct_mpv_error :: "player_env \<Rightarrow> output_device \<Rightarrow> session player_act" where
  "publish_direct_mpv_error env dev =
     then_act (with_mpv (then_act (set_paused (reply env) True) (configure_output (reply env) ToSystem)))
       (update_shared_state (direct_mpv_error (upper env) dev))"

definition handle_mpv_error :: "player_env \<Rightarrow> session player_act" where
  "handle_mpv_error env =
     match_act (reset_adaptive_after_event_failure env)
       (\<lambda>_. publish_adaptive_cleanup_failure)
       (\<lambda>_. bind_act get_session (\<lambda>s.
          case (if out_mode s = DirectAlsa then selected_output_device s else None) of
            Some dev \<Rightarrow> publish_direct_mpv_error env dev
          | None \<Rightarrow> update_shared_state (set_error_state PLAYBACK_FAILED_MESSAGE)))"

definition update_paused_state :: "bool \<Rightarrow> session \<Rightarrow> session" where
  "update_paused_state is_paused s =
     (if source s \<noteq> None \<and> status s \<noteq> Ended then s\<lparr>status := (if is_paused then Paused else Playing)\<rparr> else s)"

definition observe_ready_direct_format :: "player_env \<Rightarrow> (player, 'e, audio_format option) act" where
  "observe_ready_direct_format env p =
     (if out_mode (session p) \<noteq> DirectAlsa then (Inr None, p)
      else match_act (with_mpv (observe_output_format (reply env) (upper env))) (\<lambda>_. return_ok None) return_ok p)"

definition decoder_seen :: "(string \<Rightarrow> string) \<Rightarrow> decoder_observation \<Rightarrow> pipewire_observation option
    \<Rightarrow> audio_format option \<Rightarrow> session \<Rightarrow> session" where
  "decoder_seen up dec pw negotiated s =
     (case (out_mode s, selected_output_device s) of
        (DirectAlsa, Some dev) \<Rightarrow>
          s\<lparr>telemetry := native_direct_alsa_output (source_observation_of up (source s)) dec (device_label dev)
              negotiated (processing_observation_of (processing s))\<rparr>
      | _ \<Rightarrow> s\<lparr>telemetry := telemetry_for_output_mode s (source_observation_of up (source s)) dec pw\<rparr>)"

definition observe_pipewire_path :: "player_env \<Rightarrow> nat \<Rightarrow> pipewire_observation option" where
  "observe_pipewire_path env n = (if has_path_observer env then observed_path env n else None)"

definition update_decoder_telemetry :: "player_env \<Rightarrow> decoder_observation \<Rightarrow> session player_act" where
  "update_decoder_telemetry env dec =
     bind_act next_tick (\<lambda>n.
     bind_act (observe_ready_direct_format env) (\<lambda>negotiated.
       update_shared_state (decoder_seen (upper env) dec (observe_pipewire_path env n) negotiated)))"

definition some_session :: "session player_act \<Rightarrow> session option player_act" where
  "some_session m = bind_act m (\<lambda>s. return_ok (Some s))"

fun reduce_mpv_event :: "player_env \<Rightarrow> mpv_event \<Rightarrow> session option player_act" where
  "reduce_mpv_event env (TimeEvent v) =
     (if is_finite v \<and> \<not> f64_lt v (Fin 0)
      then some_session (update_shared_state (\<lambda>s. s\<lparr>current_time := v\<rparr>)) else return_ok None)"
| "reduce_mpv_event env (DurationEvent v) =
     (if is_finite v \<and> f64_lt (Fin 0) v
      then some_session (update_shared_state (\<lambda>s. s\<lparr>duration := v\<rparr>)) else return_ok None)"
| "reduce_mpv_event env (BufferedEndEvent v) =
     (if is_finite v \<and> \<not> f64_lt v (Fin 0)
      then some_session (update_shared_state (\<lambda>s. s\<lparr>buffered_end := Some v\<rparr>)) else return_ok None)"
| "reduce_mpv_event env (PausedEvent b) = some_session (update_shared_state (update_paused_state b))"
| "reduce_mpv_event env (DecoderEvent d) = some_session (update_decoder_telemetry env d)"
| "reduce_mpv_event env EndedEvent = some_session (handle_ended_event env)"
| "reduce_mpv_event env (ErrorEvent _) = some_session (handle_mpv_error env)"
| "reduce_mpv_event env (LoadBoundary _) = return_ok None"
| "reduce_mpv_event env FileLoaded = return_ok None"
| "reduce_mpv_event env PlaybackRestart = return_ok None"
| "reduce_mpv_event env (ExitedUnexpectedly _) = return_ok None"

definition handle_mpv_event :: "player_env \<Rightarrow> mpv_event \<Rightarrow> unit player_act" where
  "handle_mpv_event env ev =
     bind_act (reduce_mpv_event env ev)
       (\<lambda>next. case next of Some s \<Rightarrow> publish s | None \<Rightarrow> return_ok ())"

fun is_stable_playback_event :: "mpv_event \<Rightarrow> bool" where
  "is_stable_playback_event (DecoderEvent _) = True"
| "is_stable_playback_event (TimeEvent v) = (is_finite v \<and> \<not> f64_lt v (Fin 0))"
| "is_stable_playback_event _ = False"

definition refresh_pipewire_telemetry :: "player_env \<Rightarrow> (player, 'e, unit) act" where
  "refresh_pipewire_telemetry env =
     bind_act next_tick (\<lambda>n.
       logged (update (\<lambda>s. s\<lparr>telemetry := telemetry_for_output_mode s (source_observation_of (upper env) (source s))
         (seen_decoder (telemetry s)) (observe_pipewire_path env n)\<rparr>)))"

definition PATH_REFRESH_INTERVAL :: nat where "PATH_REFRESH_INTERVAL = 2000"

fun is_time_event :: "mpv_event \<Rightarrow> bool" where
  "is_time_event (TimeEvent _) = True"
| "is_time_event _ = False"

fun is_decoder_event :: "mpv_event \<Rightarrow> bool" where
  "is_decoder_event (DecoderEvent _) = True"
| "is_decoder_event _ = False"

definition process_mpv_event :: "player_env \<Rightarrow> mpv_event \<Rightarrow> nat \<Rightarrow> nat \<Rightarrow> (player, 'e, bool) act" where
  "process_mpv_event env ev now last_refresh =
     (let should_refresh = (is_time_event ev \<and> PATH_REFRESH_INTERVAL \<le> now - last_refresh \<and> has_path_observer env)
      in then_act (match_act (handle_mpv_event env ev) (\<lambda>_. return_ok ())
           (\<lambda>_. when_act (is_stable_playback_event ev) mark_player_stable))
         (then_act (when_act (should_refresh \<and> \<not> is_decoder_event ev) (refresh_pipewire_telemetry env))
           (return_ok (is_decoder_event ev \<or> should_refresh))))"

end
