(* ===== verification/Playback_Loop.thy ===== *)
theory Playback_Loop
  imports Playback_Events
begin

text \<open>
  The event thread's loop (\<open>desktop/core/src/playback.rs\<close>): finding a Live Radio
  source again with growing pauses, starting mpv again after it died, and one
  turn of the loop.
\<close>

subsection \<open>Reconnecting a live source\<close>

record live_reconnect =
  armed_source :: "json option"
  armed_revision :: nat
  attempt :: nat
  retry_at :: "nat option"
  readiness_deadline :: "nat option"
  stability_deadline :: "nat option"
  accepted_load_revision :: "nat option"

definition live_default :: live_reconnect where
  "live_default = \<lparr>armed_source = None, armed_revision = 0, attempt = 0, retry_at = None,
     readiness_deadline = None, stability_deadline = None, accepted_load_revision = None\<rparr>"

definition LIVE_RECONNECT_DELAY_STEPS :: "nat list" where "LIVE_RECONNECT_DELAY_STEPS = [1, 2, 4, 8, 15]"
definition LIVE_RECONNECT_READINESS_TIMEOUT :: nat where "LIVE_RECONNECT_READINESS_TIMEOUT = 10000"
definition LIVE_RECONNECT_STABILITY_RESET :: nat where "LIVE_RECONNECT_STABILITY_RESET = 30000"

definition live_reconnect_delay :: "nat \<Rightarrow> nat" where
  "live_reconnect_delay n =
     1000 * LIVE_RECONNECT_DELAY_STEPS ! min n (length LIVE_RECONNECT_DELAY_STEPS - 1)"

definition schedule_next_live_reconnect :: "nat \<Rightarrow> live_reconnect \<Rightarrow> live_reconnect" where
  "schedule_next_live_reconnect now lr = lr\<lparr>retry_at := Some (now + live_reconnect_delay (attempt lr)),
     readiness_deadline := None, stability_deadline := None, attempt := attempt lr + 1\<rparr>"

definition handle_load_boundary :: "player \<Rightarrow> nat \<Rightarrow> live_reconnect \<Rightarrow> live_reconnect" where
  "handle_load_boundary p revision lr =
     (if load_revision p = revision
      then (if armed_source lr \<noteq> None \<and> command_revision p \<noteq> armed_revision lr then live_default else lr)
             \<lparr>accepted_load_revision := Some revision\<rparr>
      else lr)"

definition arm_live_reconnect_stability :: "nat \<Rightarrow> live_reconnect \<Rightarrow> live_reconnect" where
  "arm_live_reconnect_stability now lr =
     (if 0 < attempt lr \<and> stability_deadline lr = None
      then lr\<lparr>stability_deadline := Some (now + LIVE_RECONNECT_STABILITY_RESET)\<rparr> else lr)"

definition is_live_active :: "session \<Rightarrow> bool" where
  "is_live_active s \<longleftrightarrow> is_active (status s) \<and> (case source s of Some src \<Rightarrow> is_live_source src | None \<Rightarrow> False)"

definition handle_live_stable_event :: "nat \<Rightarrow> live_reconnect \<Rightarrow> (player, 'e, live_reconnect) act" where
  "handle_live_stable_event now lr p =
     (let s = session p in
      if accepted_load_revision lr \<noteq> Some (load_revision p) \<or> published_load_revision p \<noteq> load_revision p
      then (Inr lr, p)
      else if \<not> is_live_active s then (Inr live_default, p)
      else let lr' = arm_live_reconnect_stability now
                 (lr\<lparr>armed_source := source s, armed_revision := command_revision p, retry_at := None,
                     readiness_deadline := None\<rparr>)
           in then_act (when_act (status s = Reconnecting)
                  (logged (update (\<lambda>s. s\<lparr>status := Playing, session_error := None\<rparr>))))
                (return_ok lr') p)"

definition should_live_reconnect :: "player \<Rightarrow> live_reconnect \<Rightarrow> bool" where
  "should_live_reconnect p lr \<longleftrightarrow> is_live_active (session p) \<and> source (session p) = armed_source lr
     \<and> command_revision p = armed_revision lr"

definition start_live_reconnect :: "nat \<Rightarrow> live_reconnect \<Rightarrow> (player, 'e, bool \<times> live_reconnect) act" where
  "start_live_reconnect now lr p =
     (if \<not> should_live_reconnect p lr then (Inr (False, lr), p)
      else let lr' = (if retry_at lr = None then schedule_next_live_reconnect now lr else lr)
           in then_act (logged (update (\<lambda>s. s\<lparr>status := Reconnecting, session_error := None\<rparr>)))
                (return_ok (True, lr')) p)"

definition is_current_live_reconnect :: "player \<Rightarrow> live_reconnect \<Rightarrow> bool" where
  "is_current_live_reconnect p lr \<longleftrightarrow> source (session p) = armed_source lr
     \<and> command_revision p = armed_revision lr \<and> is_active (status (session p))"

text \<open>Commands may run between the first look at the command revision and the lock on mpv:
  \<open>meanwhile\<close> is what they do.\<close>

definition reconnect_live_source :: "player_env \<Rightarrow> (player \<Rightarrow> player) \<Rightarrow> live_reconnect \<Rightarrow> unit player_act" where
  "reconnect_live_source env meanwhile lr p =
     (if command_revision p \<noteq> armed_revision lr then (Inl ''playback source changed before reconnect'', p)
      else bind_act (of_result (ok_or ''live playback source is unavailable'' (armed_source lr))) (\<lambda>src.
           bind_act (of_result (source_url (parse env) src)) (\<lambda>url.
           then_act (modify meanwhile)
           (bind_act (read_state command_revision) (\<lambda>revision_now.
              if revision_now \<noteq> armed_revision lr
              then raise_err ''playback source changed while reconnect was waiting''
              else bind_act next_load_revision (\<lambda>revision.
                then_act (with_mpv (then_act (load_with_event_boundary (reply env) url revision)
                    (set_paused (reply env) False)))
                  (publish_load_revision (Some revision))))))) p)"

definition run_live_reconnect_attempt :: "player_env \<Rightarrow> (player \<Rightarrow> player) \<Rightarrow> nat \<Rightarrow> live_reconnect
    \<Rightarrow> (player, 'e, live_reconnect) act" where
  "run_live_reconnect_attempt env meanwhile after lr =
     (let lr1 = lr\<lparr>retry_at := None\<rparr>
      in match_act (reconnect_live_source env meanwhile lr1)
           (\<lambda>_. return_ok (schedule_next_live_reconnect after lr1))
           (\<lambda>_. return_ok (lr1\<lparr>readiness_deadline := Some (after + LIVE_RECONNECT_READINESS_TIMEOUT)\<rparr>)))"

definition update_live_reconnect_stability :: "nat \<Rightarrow> live_reconnect \<Rightarrow> live_reconnect" where
  "update_live_reconnect_stability now lr =
     (case stability_deadline lr of
        Some d \<Rightarrow> if d \<le> now then lr\<lparr>attempt := 0, stability_deadline := None\<rparr> else lr
      | None \<Rightarrow> lr)"

definition schedule_expired_live_readiness :: "nat \<Rightarrow> live_reconnect \<Rightarrow> live_reconnect" where
  "schedule_expired_live_readiness now lr =
     (case readiness_deadline lr of
        Some d \<Rightarrow> if d \<le> now then schedule_next_live_reconnect now lr else lr
      | None \<Rightarrow> lr)"

definition is_live_reconnect_due :: "nat \<Rightarrow> live_reconnect \<Rightarrow> bool" where
  "is_live_reconnect_due now lr = (case retry_at lr of Some t \<Rightarrow> t \<le> now | None \<Rightarrow> False)"

definition poll_live_reconnect :: "player_env \<Rightarrow> (player \<Rightarrow> player) \<Rightarrow> nat \<Rightarrow> nat \<Rightarrow> live_reconnect
    \<Rightarrow> (player, 'e, live_reconnect) act" where
  "poll_live_reconnect env meanwhile now after lr p =
     (if armed_source lr = None then (Inr lr, p)
      else if \<not> is_current_live_reconnect p lr then (Inr live_default, p)
      else if status (session p) = Playing then (Inr (update_live_reconnect_stability now lr), p)
      else let lr' = schedule_expired_live_readiness now lr in
           if is_live_reconnect_due now lr' then run_live_reconnect_attempt env meanwhile after lr' p
           else (Inr lr', p))"

subsection \<open>Recovery after mpv died\<close>

record recovery_failure =
  failure_code :: string
  failure_message :: string

definition recovery_public_message :: "string \<Rightarrow> string" where
  "recovery_public_message code =
     (if code = ''mpv-recovery-state-unavailable'' then
        ''Native playback could not recover because Playback Session state is unavailable. Restart the Desktop Client.''
      else if code = ''mpv-recovery-snapshot-failed'' then
        ''Native playback could not preserve the interrupted session. Quit and reopen the Desktop Client to try again.''
      else if code = ''mpv-recovery-lifecycle-unavailable'' then
        ''Native playback could not recover because lifecycle state is unavailable. Restart the Desktop Client.''
      else if code = ''mpv-restart-unavailable'' then
        ''Native playback cannot restart in this session. Restart the Desktop Client.''
      else if code = ''mpv-recovery-transition-invalid'' then
        ''Native playback could not complete recovery. Quit and reopen the Desktop Client to try again.''
      else ''Native playback could not restart. Quit and reopen the Desktop Client to try again.'')"

definition internal_failure :: "string \<Rightarrow> recovery_failure" where
  "internal_failure code = \<lparr>failure_code = code, failure_message = recovery_public_message code\<rparr>"

definition crash_loop_failure :: recovery_failure where
  "crash_loop_failure = \<lparr>failure_code = ''mpv-crash-loop'',
     failure_message = ''Native playback stopped after two consecutive mpv failures. Quit and reopen the Desktop Client to try again.''\<rparr>"

type_synonym 'a recovery_act = "(player, recovery_failure, 'a) act"

definition failing_as :: "string \<Rightarrow> 'a player_act \<Rightarrow> 'a recovery_act" where
  "failing_as code m = match_act m (\<lambda>_. raise_err (internal_failure code)) return_ok"

definition reset_adaptive_for_recovery :: "player_env \<Rightarrow> unit recovery_act" where
  "reset_adaptive_for_recovery env p =
     (if adaptive p = None then (Inr (), p)
      else failing_as ''mpv-restart-failed'' (with_rate env [] rate_recover) p)"

definition interrupted_session_snapshot :: "player \<Rightarrow> recovery_failure + session_snapshot \<times> bool" where
  "interrupted_session_snapshot p =
     (case snapshot_of_session (session p) of
        Inl _ \<Rightarrow> Inl (internal_failure ''mpv-recovery-snapshot-failed'')
      | Inr snap \<Rightarrow> Inr (snap, is_active (status (session p))))"

text \<open>The new process takes the old one's place only once it holds the whole session; until then
  its requests go to the log and the old one stays.\<close>

definition with_next_mpv :: "'a mpv_act \<Rightarrow> ('a \<times> mpv) player_act" where
  "with_next_mpv m p =
     (case m (mpv_started (mpv_log (mpv p))) of
        (Inl e, m') \<Rightarrow> (Inl e, p\<lparr>mpv := (mpv p)\<lparr>mpv_log := mpv_log m'\<rparr>\<rparr>)
      | (Inr x, m') \<Rightarrow> (Inr (x, m'), p\<lparr>mpv := (mpv p)\<lparr>mpv_log := mpv_log m'\<rparr>\<rparr>))"

definition recovered_state :: "player_env \<Rightarrow> session_snapshot \<Rightarrow> bool \<Rightarrow> session \<Rightarrow> session" where
  "recovered_state env snap should_resume s =
     (let s' = restore_snapshot_state (parse env) (upper env) snap s
      in if should_resume \<and> source s' \<noteq> None then s'\<lparr>status := Playing\<rparr> else s')"

definition finish_player_restart :: "player_env \<Rightarrow> session_snapshot \<Rightarrow> bool \<Rightarrow> unit recovery_act" where
  "finish_player_restart env snap should_resume =
     bind_act (read_state session) (\<lambda>s.
     bind_act (failing_as ''mpv-restart-failed'' (with_next_mpv
         (then_act (mpv_set_gapless (reply env) (is_gapless s))
           (apply_snapshot_to_process env snap should_resume (playback_rate s))))) (\<lambda>(_, next_mpv).
     then_act (modify (\<lambda>p. p\<lparr>mpv := next_mpv\<rparr>))
       (then_act (failing_as ''mpv-recovery-state-unavailable''
           (update (recovered_state env snap should_resume))) (return_ok ()))))"

definition reset_reapplied_rate_after_failed_restart :: "player_env \<Rightarrow> unit recovery_act \<Rightarrow> unit recovery_act" where
  "reset_reapplied_rate_after_failed_restart env m =
     match_act m
       (\<lambda>failure. match_act (reset_adaptive_for_recovery env)
          (\<lambda>_. raise_err (internal_failure (failure_code failure))) (\<lambda>_. raise_err failure))
       return_ok"

definition restart_player :: "player_env \<Rightarrow> session_snapshot \<Rightarrow> bool \<Rightarrow> unit recovery_act" where
  "restart_player env snap should_resume =
     bind_act next_tick (\<lambda>n.
       case restart_failure env n of
         Some _ \<Rightarrow> raise_err (internal_failure ''mpv-restart-failed'')
       | None \<Rightarrow>
           then_act (\<lambda>p. if adaptive p = None then (Inr (), p)
               else failing_as ''mpv-restart-failed'' (with_rate env []
                 (rate_apply (Option.bind (snapshot_source snap) (source_rate (upper env))))) p)
             (reset_reapplied_rate_after_failed_restart env (finish_player_restart env snap should_resume)))"

definition apply_recovery_transition :: "player_env \<Rightarrow> lifecycle_action \<Rightarrow> unit recovery_act" where
  "apply_recovery_transition env action =
     (case action of
        RestartPlayer snap should_resume \<Rightarrow>
          if has_starter env then restart_player env snap should_resume
          else raise_err (internal_failure ''mpv-restart-unavailable'')
      | SurfaceActionableError \<Rightarrow> raise_err crash_loop_failure
      | _ \<Rightarrow> raise_err (internal_failure ''mpv-recovery-transition-invalid''))"

definition try_recover_after_player_exit :: "player_env \<Rightarrow> unit recovery_act" where
  "try_recover_after_player_exit env =
     bind_act (read_state interrupted_session_snapshot) (\<lambda>r.
     bind_act (of_result r) (\<lambda>(snap, should_resume).
     then_act (reset_adaptive_for_recovery env)
       (\<lambda>p. case unexpected_player_exit snap should_resume (life p) of
          (action, l) \<Rightarrow> apply_recovery_transition env action (p\<lparr>life := l\<rparr>))))"

definition recover_after_player_exit :: "player_env \<Rightarrow> (player, 'e, unit) act" where
  "recover_after_player_exit env =
     match_act (try_recover_after_player_exit env)
       (\<lambda>failure. logged (update (\<lambda>s. s\<lparr>status := Errored,
          session_error := Some \<lparr>error_code = failure_code failure, error_message = failure_message failure\<rparr>\<rparr>)))
       return_ok"

subsection \<open>One turn of the loop\<close>

record loop_state =
  live :: live_reconnect
  last_path_refresh :: nat
  last_device_refresh :: nat

definition OUTPUT_DEVICE_REFRESH_INTERVAL :: nat where "OUTPUT_DEVICE_REFRESH_INTERVAL = 2000"

fun is_reconnectable_live_interruption :: "mpv_event \<Rightarrow> bool" where
  "is_reconnectable_live_interruption EndedEvent = True"
| "is_reconnectable_live_interruption (ErrorEvent _) = True"
| "is_reconnectable_live_interruption _ = False"

definition process_and_note :: "player_env \<Rightarrow> mpv_event \<Rightarrow> nat \<Rightarrow> loop_state \<Rightarrow> (player, 'e, loop_state) act" where
  "process_and_note env ev now ls =
     then_act (case ev of TimeEvent v \<Rightarrow> append_next_source_near_end env v | _ \<Rightarrow> return_ok ())
     (then_act (case ev of
          DecoderEvent d \<Rightarrow> apply_adaptive_decoder_rate env (sample_rate_hz (decoder_format d)) | _ \<Rightarrow> return_ok ())
     (bind_act (process_mpv_event env ev now (last_path_refresh ls))
       (\<lambda>refreshed. return_ok (if refreshed then ls\<lparr>last_path_refresh := now\<rparr> else ls))))"

definition dispatch_regular_playback_event :: "player_env \<Rightarrow> mpv_event \<Rightarrow> nat \<Rightarrow> loop_state
    \<Rightarrow> (player, 'e, loop_state) act" where
  "dispatch_regular_playback_event env ev now ls =
     (case ev of
        LoadBoundary revision \<Rightarrow> read_state (\<lambda>p. ls\<lparr>live := handle_load_boundary p revision (live ls)\<rparr>)
      | _ \<Rightarrow>
          bind_act (if is_stable_playback_event ev then handle_live_stable_event now (live ls) else return_ok (live ls))
            (\<lambda>lr. bind_act (if is_reconnectable_live_interruption ev then start_live_reconnect now lr
                else return_ok (False, lr))
              (\<lambda>(reconnecting, lr'). let ls' = ls\<lparr>live := lr'\<rparr> in
                 if reconnecting then return_ok ls' else process_and_note env ev now ls')))"

definition dispatch_playback_event :: "player_env \<Rightarrow> mpv_event \<Rightarrow> nat \<Rightarrow> loop_state \<Rightarrow> (player, 'e, loop_state) act" where
  "dispatch_playback_event env ev now ls =
     (case ev of
        ExitedUnexpectedly _ \<Rightarrow> then_act (recover_after_player_exit env) (return_ok ls)
      | _ \<Rightarrow> dispatch_regular_playback_event env ev now ls)"

text \<open>An event or a time-out, then the live source, then the devices when they are due.\<close>

definition loop_turn :: "player_env \<Rightarrow> (player \<Rightarrow> player) \<Rightarrow> mpv_event option \<Rightarrow> nat \<Rightarrow> nat \<Rightarrow> loop_state
    \<Rightarrow> (player, 'e, loop_state) act" where
  "loop_turn env meanwhile ev now after ls =
     bind_act (case ev of Some e \<Rightarrow> dispatch_playback_event env e now ls | None \<Rightarrow> return_ok ls) (\<lambda>ls1.
     bind_act (poll_live_reconnect env meanwhile now after (live ls1)) (\<lambda>lr.
       let ls2 = ls1\<lparr>live := lr\<rparr> in
       if OUTPUT_DEVICE_REFRESH_INTERVAL \<le> after - last_device_refresh ls2
       then then_act (refresh_direct_output_device env) (return_ok (ls2\<lparr>last_device_refresh := after\<rparr>))
       else return_ok ls2))"

end
