(* ===== verification/Playback_Invariant.thy ===== *)
theory Playback_Invariant
  imports Playback_Loop
begin

text \<open>
  The invariant of the player and its event thread, and the states they reach:
  any commands, any events, any replies of mpv and the system, in any order.
\<close>

subsection \<open>The session\<close>

definition session_ok :: "session \<Rightarrow> bool" where
  "session_ok s \<longleftrightarrow>
     (is_active (status s) \<longrightarrow> source s \<noteq> None)
   \<and> (status s = Reconnecting \<longrightarrow> (\<exists>src. source s = Some src \<and> is_live_source src))
   \<and> (status s = Idle \<longrightarrow> source s = None)
   \<and> (status s = Errored \<longrightarrow> session_error s \<noteq> None)
   \<and> is_finite (current_time s) \<and> f64_le (Fin 0) (current_time s)
   \<and> f64_le (Fin 0) (duration s)
   \<and> (\<forall>v. buffered_end s = Some v \<longrightarrow> is_finite v \<and> f64_le (Fin 0) v)
   \<and> f64_between 0 (session_volume s) 1
   \<and> f64_between MIN_PLAYBACK_RATE (playback_rate s) MAX_PLAYBACK_RATE"

definition snapshot_ok :: "session_snapshot \<Rightarrow> bool" where
  "snapshot_ok snap \<longleftrightarrow> validate_snapshot (playhead_seconds snap) (volume snap) (repeat_mode snap) = Inr ()"

lemma snapshot_ok_values:
  assumes "snapshot_ok snap"
  shows "is_finite (playhead_seconds snap)" "f64_le (Fin 0) (playhead_seconds snap)" "f64_between 0 (volume snap) 1"
  using assms by (cases "playhead_seconds snap"; auto simp: snapshot_ok_def validate_snapshot_def split: if_splits)+

lemma f64_of_sign: "0 \<le> x \<Longrightarrow> f64_le (Fin 0) (f64_of x)"
proof -
  assume x: "0 \<le> x"
  have "0 \<le> round_half_even (\<bar>x\<bar> / 2 powi max (exponent2 \<bar>x\<bar> - 52) (- 1074))"
    by (rule order.trans [OF _ round_half_even_bounds(1)]) simp
  with x show ?thesis by (auto simp: f64_of_def Let_def sgn_if)
qed

lemma duration_seconds_nonneg: "f64_le (Fin 0) (duration_seconds src)"
proof -
  have "f64_le (Fin 0) (f64_div d (Fin 1000))" if "is_finite d" "f64_lt (Fin 0) d" for d
    using that f64_of_sign by (cases d) auto
  then show ?thesis by (auto simp: duration_seconds_def Let_def split: option.split)
qed

lemma track_duration_nonneg: "f64_le (Fin 0) (track_duration prs src)"
  by (auto simp: track_duration_def duration_seconds_nonneg split: sum.split)

lemma set_effective_gain_fields [simp]:
  "source (set_effective_gain src s) = source s" "status (set_effective_gain src s) = status s"
  "session_error (set_effective_gain src s) = session_error s" "current_time (set_effective_gain src s) = current_time s"
  "duration (set_effective_gain src s) = duration s" "buffered_end (set_effective_gain src s) = buffered_end s"
  "session_volume (set_effective_gain src s) = session_volume s" "playback_rate (set_effective_gain src s) = playback_rate s"
  "out_mode (set_effective_gain src s) = out_mode s"
  "selected_output_device (set_effective_gain src s) = selected_output_device s"
  "session_repeat (set_effective_gain src s) = session_repeat s" "stop_after_current (set_effective_gain src s) = stop_after_current s"
  by (simp_all add: set_effective_gain_def)

lemma playing_source_fields [simp]:
  "source (set_playing_source prs up src neg s) = Some src" "status (set_playing_source prs up src neg s) = Playing"
  "session_error (set_playing_source prs up src neg s) = None" "current_time (set_playing_source prs up src neg s) = Fin 0"
  "duration (set_playing_source prs up src neg s) = track_duration prs src"
  "buffered_end (set_playing_source prs up src neg s) = None"
  "session_volume (set_playing_source prs up src neg s) = session_volume s"
  "playback_rate (set_playing_source prs up src neg s) = playback_rate s"
  "out_mode (set_playing_source prs up src neg s) = out_mode s"
  "session_repeat (set_playing_source prs up src neg s) = session_repeat s"
  "stop_after_current (set_playing_source prs up src neg s) = stop_after_current s"
  by (simp_all add: set_playing_source_def Let_def)

lemmas session_change_defs = update_playing_state_def set_error_state_def clear_source_def restore_snapshot_state_def
  update_paused_state_def direct_mpv_error_def reset_output_telemetry_def publish_system_output_def
  publish_adaptive_system_output_def direct_output_published_def direct_output_refused_def devices_published_def
  device_lost_def decoder_seen_def recovered_state_def

lemma session_changes_ok:
  assumes "session_ok s"
  shows "session_ok (update_playing_state prs up src is_new s)" and "session_ok (set_playing_source prs up src neg s)"
    and "session_ok (set_error_state msg s)" and "session_ok (clear_source s)"
    and "session_ok (update_paused_state b s)" and "session_ok (direct_mpv_error up dev s)"
    and "session_ok (publish_system_output up s)" and "session_ok (publish_adaptive_system_output up s)"
    and "session_ok (direct_output_published up dev fmt s)"
    and "session_ok (direct_output_refused up prev dev mode s)"
    and "session_ok (devices_published ds s)" and "session_ok (device_lost ds dev s)"
    and "session_ok (decoder_seen up dec pw fmt s)"
    and "snapshot_ok snap \<Longrightarrow> session_ok (restore_snapshot_state prs up snap s)"
    and "snapshot_ok snap \<Longrightarrow> session_ok (recovered_state env snap b s)"
proof -
  show "session_ok (update_playing_state prs up src is_new s)" "session_ok (set_playing_source prs up src neg s)"
    "session_ok (set_error_state msg s)" "session_ok (clear_source s)" "session_ok (update_paused_state b s)"
    "session_ok (direct_mpv_error up dev s)" "session_ok (publish_system_output up s)"
    "session_ok (publish_adaptive_system_output up s)" "session_ok (direct_output_published up dev fmt s)"
    "session_ok (direct_output_refused up prev dev mode s)" "session_ok (devices_published ds s)"
    "session_ok (device_lost ds dev s)"
    using assms track_duration_nonneg
    by (auto simp: session_ok_def session_change_defs is_active_def Let_def)
  show "session_ok (decoder_seen up dec pw fmt s)"
    using assms by (cases "out_mode s"; cases "selected_output_device s")
      (simp_all add: session_ok_def decoder_seen_def)
  show r: "session_ok (restore_snapshot_state prs up snap s)" if "snapshot_ok snap" for prs up
    using assms snapshot_ok_values [OF that] track_duration_nonneg
    by (auto simp: session_ok_def restore_snapshot_state_def is_active_def Let_def split: option.split)
  show "session_ok (recovered_state env snap b s)" if "snapshot_ok snap"
    using r [OF that, of "parse env" "upper env"]
    by (auto simp: recovered_state_def session_ok_def is_active_def Let_def)
qed

lemma processing_session_ok:
  assumes "session_ok s" and "volume_percent applied \<noteq> NaN"
  shows "session_ok (publish_processing applied (processing_applied applied proc) s)"
proof -
  have "f64_between 0 (f64_clamp (f64_div (volume_percent applied) (Fin 100)) 0 1) 1"
  proof (cases "f64_div (volume_percent applied) (Fin 100)")
    case (Inf neg)
    then show ?thesis by (cases neg) (simp_all add: f64_clamp_def)
  qed (use assms(2) in \<open>cases "volume_percent applied"; auto simp: f64_clamp_def f64_of_def Let_def split: if_splits\<close>)+
  with assms(1) show ?thesis
    by (auto simp: session_ok_def publish_processing_def processing_applied_def Let_def)
qed

lemma session_default_ok: "session_ok session_default"
proof -
  have "f64_between 0 DEFAULT_VOLUME 1" by code_simp
  then show ?thesis
    by (simp add: session_ok_def session_default_def is_active_def MIN_PLAYBACK_RATE_def MAX_PLAYBACK_RATE_def)
qed

end
