(* ===== verification/Playback_Reach.thy ===== *)
theory Playback_Reach
  imports Playback_Invariant
begin

text \<open>
  The player's invariant kept by every command, output switch, mpv event and turn
  of the event loop, and the states the player reaches.
\<close>

subsection \<open>The player\<close>

definition player_ok :: "player_env \<Rightarrow> player \<Rightarrow> bool" where
  "player_ok env p \<longleftrightarrow> session_ok (session p) \<and> queue_ok (parse env) (queue p)
     \<and> transition_fade_ms p \<le> MAX_TRANSITION_FADE_MS
     \<and> (\<forall>st. adaptive p = Some st \<longrightarrow> run st (rate_world p))"

text \<open>What the invariant asks of the world: a number mpv reports is one.\<close>

definition env_ok :: "player_env \<Rightarrow> bool" where
  "env_ok env \<longleftrightarrow> (\<forall>v x. as_f64 env v = Some x \<longrightarrow> x \<noteq> NaN)"

lemma keeps_mpv [preserves_intros]: "preserves (player_ok env) (with_mpv m)"
  by (auto simp: preserves_def with_mpv_def player_ok_def split: prod.split)

lemma keeps_shared_state:
  "(\<And>s. session_ok s \<Longrightarrow> session_ok (g s)) \<Longrightarrow> preserves (player_ok env) (update_shared_state g)"
  by (auto simp: preserves_def update_shared_state_def player_ok_def Let_def)

lemma keeps_publish [preserves_intros]: "preserves (player_ok env) (publish s)"
  by (auto simp: preserves_def publish_def player_ok_def)

lemma keeps_update:
  "(\<And>s. session_ok s \<Longrightarrow> session_ok (g s)) \<Longrightarrow> preserves (player_ok env) (update g)"
  unfolding update_def by (intro preserves_intros keeps_shared_state) simp_all

lemma keeps_session [preserves_intros]: "preserves (player_ok env) get_session"
  unfolding get_session_def by (rule preserves_intros)

lemma keeps_tick [preserves_intros]: "preserves (player_ok env) next_tick"
  by (auto simp: preserves_def next_tick_def player_ok_def)

lemma keeps_command_revision [preserves_intros]: "preserves (player_ok env) advance_command_revision"
  by (auto simp: preserves_def advance_command_revision_def modify_def player_ok_def)

lemma keeps_load_revision [preserves_intros]: "preserves (player_ok env) next_load_revision"
  by (auto simp: preserves_def next_load_revision_def player_ok_def)

lemma keeps_published_revision [preserves_intros]: "preserves (player_ok env) (publish_load_revision r)"
  by (cases r) (auto simp: preserves_def publish_load_revision_def modify_def player_ok_def)

lemma keeps_stable [preserves_intros]: "preserves (player_ok env) mark_player_stable"
  by (auto simp: preserves_def mark_player_stable_def modify_def player_ok_def)

lemma keeps_catalog [preserves_intros]: "preserves (player_ok env) (with_catalog g cat)"
  by (auto simp: preserves_def with_catalog_def player_ok_def split: prod.split)

lemma keeps_queue:
  assumes "\<And>q. queue_step (parse env) q (snd (g q))"
  shows "preserves (player_ok env) (with_queue g)"
  using queue_step_ok [OF assms] by (auto simp: preserves_def with_queue_def player_ok_def split: prod.splits) (metis snd_conv)

text \<open>The rate controller is one of \<open>Adaptive_Rate\<close>: its operations are steps of a run.\<close>

definition rate_step :: "(outcome \<Rightarrow> string option \<Rightarrow> rate_op) \<Rightarrow> bool" where
  "rate_step op \<longleftrightarrow> (\<forall>out f st w r st' w'. run st w \<longrightarrow> op out f st w = (r, st', w') \<longrightarrow> run st' w')"

lemma rate_steps:
  "rate_step (rate_apply rate)" "rate_step rate_recover" "rate_step rate_enable" "rate_step disable"
  unfolding rate_step_def rate_apply_def rate_recover_def rate_enable_def
  by (blast intro: run_apply run_reset run_enable run_disable)+

lemma keeps_rate: "rate_step op \<Longrightarrow> preserves (player_ok env) (with_rate env' missing op)"
  by (auto simp: preserves_def with_rate_def player_ok_def rate_step_def split: option.splits prod.splits)

lemmas keeps_rates [preserves_intros] = rate_steps [THEN keeps_rate]

lemmas keeps_changes [preserves_intros] =
  keeps_update [OF session_changes_ok(1)] keeps_update [OF session_changes_ok(3)]

subsection \<open>The commands keep it\<close>

lemma keeps_ramp [preserves_intros]: "preserves (player_ok env) (ramp_loop env' vs)"
  by (induction vs) (auto intro!: preserves_intros)

lemma keeps_ramp_volume [preserves_intros]: "preserves (player_ok env) (ramp_volume env' v w ms)"
  unfolding ramp_volume_def Let_def by (rule preserves_intros)

lemma keeps_fades [preserves_intros]:
  "preserves (player_ok env) (fade_out env')" "preserves (player_ok env) (fade_in env')"
  "preserves (player_ok env) (restore_volume env')"
  by (rule preservesI; force simp: fade_out_def fade_in_def restore_volume_def split: option.split prod.split
      intro: keeps_ramp_volume [THEN preservesD] keeps_mpv [THEN preserves_logged, THEN preservesD])+

lemma keeps_fail [preserves_intros]: "preserves (player_ok env) (fail msg)"
  unfolding fail_def by (intro preserves_intros)

lemma keeps_fail_native [preserves_intros]: "preserves (player_ok env) fail_native"
  unfolding fail_native_def by (rule keeps_fail)

lemma keeps_apply_source_rate [preserves_intros]: "preserves (player_ok env) (apply_adaptive_source_rate env' src)"
  by (rule preservesI) (simp add: apply_adaptive_source_rate_def keeps_rates [THEN preservesD])

lemma keeps_reset_after_failure [preserves_intros]: "preserves (player_ok env) (reset_adaptive_after_failure env')"
  by (rule preservesI)
    (simp add: reset_adaptive_after_failure_def keeps_rates [THEN preserves_logged, THEN preservesD])

lemma keeps_disable_rate [preserves_intros]: "preserves (player_ok env) (disable_adaptive_system_rate env')"
proof -
  have "preserves (player_ok env) (match_act (with_rate env' [] disable)
      (\<lambda>_. raise_err ''Adaptive System Rate could not be disabled. Restart the Desktop Client.'')
      (return_ok :: unit \<Rightarrow> unit player_act))"
    by (intro preserves_intros)
  then show ?thesis by (simp add: preserves_def disable_adaptive_system_rate_def)
qed

lemma keeps_start_playback [preserves_intros]: "preserves (player_ok env) (start_playback env' src b)"
  unfolding start_playback_def by (intro preserves_intros)

lemma keeps_align [preserves_intros]: "preserves (player_ok env) (align_queue_to_source env src)"
  unfolding align_queue_to_source_def by (rule keeps_queue) (rule queue_step.intros)

lemma keeps_play_source [preserves_intros]: "preserves (player_ok env) (play_source env src a b)"
  unfolding play_source_def by (intro preserves_intros)

lemma keeps_play [preserves_intros]: "preserves (player_ok env) (play env src)"
  unfolding play_def Let_def by (intro preserves_intros)

lemma plain_changes_ok:
  assumes "session_ok s"
  shows "session_ok (s\<lparr>status := Paused\<rparr>)" "session_ok (s\<lparr>status := Ended\<rparr>)"
    "session_ok (s\<lparr>stop_after_current := False, status := Ended\<rparr>)"
    "session_ok (s\<lparr>stop_after_current := b\<rparr>)" "session_ok (s\<lparr>session_repeat := r\<rparr>)"
    "session_ok (s\<lparr>session_repeat := next_repeat (session_repeat s)\<rparr>)"
    "session_ok (s\<lparr>session_shuffle := \<not> session_shuffle s\<rparr>)" "session_ok (s\<lparr>is_gapless := b\<rparr>)"
    "session_ok (s\<lparr>available_output_devices := ds\<rparr>)" "session_ok (s\<lparr>telemetry := t\<rparr>)"
  using assms by (auto simp: session_ok_def is_active_def)

lemma keeps_pause [preserves_intros]: "preserves (player_ok env) (pause env')"
  unfolding pause_def by (intro preserves_intros keeps_update plain_changes_ok)

lemma keeps_stop [preserves_intros]: "preserves (player_ok env) (stop env')"
  unfolding stop_def by (intro preserves_intros keeps_update session_changes_ok)

lemma keeps_toggle_play [preserves_intros]: "preserves (player_ok env) (toggle_play env)"
  unfolding toggle_play_def by (intro preserves_intros)

lemma keeps_seek [preserves_intros]: "preserves (player_ok env) (seek env' x)"
  unfolding seek_def by (intro preserves_intros keeps_update) (cases x; auto simp: session_ok_def)

lemma keeps_navigate [preserves_intros]: "preserves (player_ok env) (navigate env d)"
  unfolding navigate_def by (intro preserves_intros)

lemma volume_percent_ok:
  assumes "env_ok env" and "apply_processing_mpv r (as_f64 env) conf m = (Inr applied, m')"
  shows "volume_percent applied \<noteq> NaN"
  using assms
  by (auto simp: apply_processing_mpv_def bind_act_def then_act_def of_result_def return_ok_def ok_or_def env_ok_def
      split: prod.splits sum.splits option.splits)

lemma keeps_apply_processing [preserves_intros]:
  assumes "env_ok env"
  shows "preserves (player_ok env) (apply_processing env proc conf)"
proof (rule preservesI)
  fix p assume p: "player_ok env p"
  obtain r m where m: "apply_processing_mpv (reply env) (as_f64 env) conf (mpv p) = (r, m)" by fastforce
  have p': "player_ok env (p\<lparr>mpv := m\<rparr>)" using p by (simp add: player_ok_def)
  show "player_ok env (snd (apply_processing env proc conf p))"
  proof (cases r)
    case (Inl e)
    then show ?thesis
      using m keeps_fail_native [THEN preservesD, OF p'] by (simp add: apply_processing_def match_act_def with_mpv_def)
  next
    case (Inr applied)
    have "preserves (player_ok env) (update (publish_processing applied (processing_applied applied proc)))"
      using assms m Inr by (intro keeps_update processing_session_ok) (auto dest: volume_percent_ok)
    from this [THEN preservesD, OF p'] show ?thesis
      using m Inr by (simp add: apply_processing_def match_act_def with_mpv_def)
  qed
qed

lemma keeps_settings [preserves_intros]:
  "preserves (player_ok env) (set_playback_rate env' rate)" "preserves (player_ok env) (set_gapless env' b)"
  "preserves (player_ok env) (set_stop_after_current b)" "preserves (player_ok env) (set_transition_fade_ms n)"
  "preserves (player_ok env) cycle_repeat_mode"
proof -
  show "preserves (player_ok env) (set_playback_rate env' rate)"
    unfolding set_playback_rate_def
    by (intro preserves_intros keeps_update) (auto simp: session_ok_def)
  show "preserves (player_ok env) (set_transition_fade_ms n)"
    unfolding set_transition_fade_ms_def
    by (intro preserves_intros preserves_modify) (simp add: player_ok_def)
qed (unfold set_gapless_def set_stop_after_current_def cycle_repeat_mode_def,
    (intro preserves_intros keeps_update plain_changes_ok; assumption)+)

lemma keeps_shuffle [preserves_intros]: "preserves (player_ok env) (shuffle_queue env)"
proof (rule preservesI)
  fix p assume "player_ok env p"
  moreover have "preserves (player_ok env) (with_queue (shuffle (random env (tick p))))"
    by (rule keeps_queue) (rule queue_step.intros)
  ultimately show "player_ok env (snd (shuffle_queue env p))" unfolding shuffle_queue_def by (metis preservesD)
qed

lemma keeps_toggle_shuffle [preserves_intros]: "preserves (player_ok env) (toggle_shuffle env)"
proof -
  have "preserves (player_ok env) (modify (\<lambda>p. p\<lparr>queue := reset_order (queue p)\<rparr>) :: unit player_act)"
    by (rule preserves_modify) (auto simp: player_ok_def intro: queue_step_ok queue_step.intros)
  then show ?thesis
    unfolding toggle_shuffle_def by (intro preserves_intros keeps_update plain_changes_ok)
qed

lemma keeps_sync [preserves_intros]: "preserves (player_ok env) (sync_queue_context env vs i)"
proof -
  have "preserves (player_ok env) (with_queue (sync (parse env) vs i))"
    by (rule keeps_queue) (rule queue_step.intros)
  then show ?thesis unfolding sync_queue_context_def by (intro preserves_intros)
qed

lemma keeps_restore_paused [preserves_intros]:
  "snapshot_ok snap \<Longrightarrow> preserves (player_ok env) (restore_paused env' snap)"
  unfolding restore_paused_def by (intro preserves_intros keeps_update session_changes_ok)

lemma keeps_shutdown [preserves_intros]: "preserves (player_ok env) (shutdown env')"
proof -
  have "preserves (player_ok env) (modify (\<lambda>p. p\<lparr>is_shutdown := True\<rparr>) :: unit player_act)"
    by (rule preserves_modify) (simp add: player_ok_def)
  then show ?thesis unfolding shutdown_def shutdown_player_def by (intro preserves_intros)
qed

subsection \<open>The outputs keep it\<close>

lemma keeps_outputs [preserves_intros]:
  "preserves (player_ok env) (configure_system_output env')" "preserves (player_ok env) (configure_direct_output env' dev)"
  "preserves (player_ok env) (pause_after_output_failure env')"
  unfolding configure_system_output_def configure_direct_output_def pause_after_output_failure_def
  by (intro preserves_intros)+

lemma keeps_safe_output [preserves_intros]: "preserves (player_ok env) (restore_safe_system_output env')"
  unfolding restore_safe_system_output_def by (intro preserves_intros)

lemma keeps_enable_controller [preserves_intros]: "preserves (player_ok env) (enable_adaptive_controller env')"
proof -
  have "preserves (player_ok env) (match_act (with_rate env' [] rate_enable)
      (\<lambda>_. raise_err ''Adaptive System Rate could not be enabled because its cleanup safeguard could not be saved. Check Desktop Client storage permissions and try again.'')
      (return_ok :: unit \<Rightarrow> unit player_act))"
    by (intro preserves_intros)
  then show ?thesis by (simp add: preserves_def enable_adaptive_controller_def)
qed

lemma keeps_adaptive [preserves_intros]:
  "preserves (player_ok env) (fail_adaptive_setup env')" "preserves (player_ok env) (enable_adaptive_system_rate env')"
proof -
  show f: "preserves (player_ok env) (fail_adaptive_setup env')"
    unfolding fail_adaptive_setup_def by (intro preserves_intros)
  show "preserves (player_ok env) (enable_adaptive_system_rate env')"
    unfolding enable_adaptive_system_rate_def by (intro preserves_intros f keeps_update session_changes_ok)
qed

lemma keeps_select_device [preserves_intros]: "preserves (player_ok env) (select_output_device_act env' dev)"
proof (rule preservesI)
  fix p assume p: "player_ok env p"
  show "player_ok env (snd (select_output_device_act env' dev p))"
  proof (cases "output_devices p")
    case (Some cat)
    show ?thesis
      unfolding select_output_device_act_def Some option.case
      by (rule preservesD [where P = "player_ok env", OF _ p]) (intro preserves_intros)
  qed (simp add: select_output_device_act_def p)
qed

lemma keeps_observe_until [preserves_intros]: "preserves (player_ok env) (observe_until env' n e)"
  by (induction n arbitrary: e) (auto intro!: preserves_intros)

lemma keeps_routes [preserves_intros]:
  "preserves (player_ok env) (restore_adaptive_output_route env')"
  "preserves (player_ok env) (restore_output_route env' prev)"
proof -
  show a: "preserves (player_ok env) (restore_adaptive_output_route env')"
    unfolding restore_adaptive_output_route_def by (intro preserves_intros)
  show "preserves (player_ok env) (restore_output_route env' prev)"
    unfolding restore_output_route_def
    by (cases "out_mode prev") (auto intro!: preserves_intros a)
qed

lemma keeps_select_direct [preserves_intros]: "preserves (player_ok env) (select_direct_alsa_output env' n dev)"
  unfolding select_direct_alsa_output_def observe_direct_output_if_ready_def handle_direct_output_failure_def
  by (intro preserves_intros keeps_update session_changes_ok)

lemma keeps_fallback [preserves_intros]: "preserves (player_ok env) (fallback_to_system_output env')"
  unfolding fallback_to_system_output_def restore_adaptive_after_system_failure_def
  by (intro preserves_intros keeps_update session_changes_ok)

lemma keeps_observe_devices [preserves_intros]: "preserves (player_ok env) (observe_devices env' cat)"
proof (rule preservesI)
  fix p assume p: "player_ok env p"
  show "player_ok env (snd (observe_devices env' cat p))"
    unfolding observe_devices_def
    by (rule preservesD [where P = "player_ok env", OF _ p])
      (auto intro!: preserves_intros split: sum.split output_device_error.split)
qed

lemma keeps_refresh_catalog [preserves_intros]: "preserves (player_ok env) (refresh_output_catalog env')"
  by (rule preservesI) (simp add: refresh_output_catalog_def keeps_observe_devices [THEN preservesD] split: option.split)

lemma keeps_refresh_devices [preserves_intros]: "preserves (player_ok env) (refresh_output_devices env')"
  unfolding refresh_output_devices_def
  by (intro preserves_intros keeps_update session_changes_ok plain_changes_ok)

lemma keeps_hotplug [preserves_intros]:
  "preserves (player_ok env) (publish_hotplug_devices ds)" "preserves (player_ok env) (pause_disconnected_output env' ds dev)"
proof -
  show "preserves (player_ok env) (publish_hotplug_devices ds)"
    unfolding publish_hotplug_devices_def [abs_def]
    by (intro preserves_state(1-3) preserves_intros keeps_update plain_changes_ok)
  show "preserves (player_ok env) (pause_disconnected_output env' ds dev)"
    unfolding pause_disconnected_output_def by (intro preserves_intros keeps_update session_changes_ok)
qed

lemma keeps_refresh_direct [preserves_intros]: "preserves (player_ok env) (refresh_direct_output_device env')"
  unfolding refresh_direct_output_device_def [abs_def] by (intro preserves_state(1-3) preserves_intros)

subsection \<open>The events keep it\<close>

lemma keeps_event_rate [preserves_intros]:
  "preserves (player_ok env) (apply_adaptive_rate_for_event env' src)"
  "preserves (player_ok env) (reset_adaptive_after_event_failure env')"
proof -
  show "preserves (player_ok env) (apply_adaptive_rate_for_event env' src)"
    by (rule preservesI) (simp add: apply_adaptive_rate_for_event_def keeps_rates [THEN preservesD])
  have "preserves (player_ok env) (match_act (with_rate env' [] rate_recover)
      (\<lambda>_. raise_err ''Adaptive System Rate cleanup failed.'') (return_ok :: unit \<Rightarrow> unit player_act))"
    by (intro preserves_intros)
  then show "preserves (player_ok env) (reset_adaptive_after_event_failure env')"
    by (simp add: preserves_def reset_adaptive_after_event_failure_def)
qed

lemma keeps_cleanup_failure [preserves_intros]: "preserves (player_ok env) publish_adaptive_cleanup_failure"
  unfolding publish_adaptive_cleanup_failure_def by (intro keeps_shared_state session_changes_ok)

lemma keeps_decoder_rate [preserves_intros]: "preserves (player_ok env) (apply_adaptive_decoder_rate env' rate)"
proof -
  have s: "session_ok (set_error_state m (s\<lparr>out_mode := mode\<rparr>))" if "session_ok s" for s m mode
    using that by (auto simp: session_ok_def set_error_state_def is_active_def)
  show ?thesis
    unfolding apply_adaptive_decoder_rate_def [abs_def]
    by (intro preserves_state(1-3) preserves_intros keeps_update s)
qed

lemma keeps_advance [preserves_intros]:
  "preserves (player_ok env) (stop_appended_source env' app)"
  "preserves (player_ok env) (prepare_advanced_source_rate env' src)"
  "preserves (player_ok env) (start_advanced_source env' src)"
  "preserves (player_ok env) (publish_advanced_source_failure env')"
  unfolding stop_appended_source_def prepare_advanced_source_rate_def start_advanced_source_def
    publish_advanced_source_failure_def
  by (intro preserves_intros keeps_shared_state session_changes_ok)+

lemma keeps_advanced [preserves_intros]: "preserves (player_ok env) (align_and_publish_advanced_source env src)"
  unfolding align_and_publish_advanced_source_def by (intro preserves_intros keeps_shared_state session_changes_ok)

lemma keeps_load_advanced [preserves_intros]: "preserves (player_ok env) (load_advanced_source env src)"
  unfolding load_advanced_source_def by (intro preserves_intros)

lemma keeps_repeat [preserves_intros]: "preserves (player_ok env) (repeat_current_source env)"
  unfolding repeat_current_source_def by (intro preserves_intros keeps_shared_state plain_changes_ok)

lemma keeps_ended [preserves_intros]: "preserves (player_ok env) (handle_ended_event env)"
  unfolding handle_ended_event_def by (intro preserves_intros keeps_shared_state plain_changes_ok)

lemma keeps_append [preserves_intros]: "preserves (player_ok env) (append_next_source_near_end env' x)"
  by (rule preservesI)
    (simp add: append_next_source_near_end_def Let_def keeps_mpv [THEN preserves_logged, THEN preservesD]
      split: option.split sum.split)

lemma keeps_error_event [preserves_intros]: "preserves (player_ok env) (handle_mpv_error env')"
  unfolding handle_mpv_error_def publish_direct_mpv_error_def
  by (intro preserves_intros keeps_shared_state session_changes_ok)

lemma keeps_ready_format [preserves_intros]: "preserves (player_ok env) (observe_ready_direct_format env')"
  unfolding observe_ready_direct_format_def [abs_def] by (intro preserves_state(1-3) preserves_intros)

lemma keeps_decoder_telemetry [preserves_intros]: "preserves (player_ok env) (update_decoder_telemetry env' d)"
  unfolding update_decoder_telemetry_def by (intro preserves_intros keeps_shared_state session_changes_ok)

lemma keeps_reduce [preserves_intros]: "preserves (player_ok env) (reduce_mpv_event env ev)"
proof (cases ev)
  case (TimeEvent v)
  then show ?thesis
    by (cases v) (auto simp: some_session_def session_ok_def intro!: preserves_intros keeps_shared_state)
next
  case (DurationEvent v)
  then show ?thesis
    by (cases v) (auto simp: some_session_def session_ok_def intro!: preserves_intros keeps_shared_state)
next
  case (BufferedEndEvent v)
  then show ?thesis
    by (cases v) (auto simp: some_session_def session_ok_def intro!: preserves_intros keeps_shared_state)
qed (auto simp: some_session_def intro!: preserves_intros keeps_shared_state session_changes_ok)

lemma keeps_process [preserves_intros]: "preserves (player_ok env) (process_mpv_event env ev now t)"
  unfolding process_mpv_event_def handle_mpv_event_def refresh_pipewire_telemetry_def Let_def
  by (intro preserves_intros keeps_update plain_changes_ok)

subsection \<open>The loop keeps it\<close>

lemma live_again_ok: "session_ok s \<Longrightarrow> is_live_active s \<Longrightarrow> session_ok (s\<lparr>status := Playing, session_error := None\<rparr>)"
  "session_ok s \<Longrightarrow> is_live_active s \<Longrightarrow> session_ok (s\<lparr>status := Reconnecting, session_error := None\<rparr>)"
  by (auto simp: session_ok_def is_live_active_def is_active_def split: option.splits)

lemma player_ok_session: "player_ok env p \<Longrightarrow> session_ok s \<Longrightarrow> player_ok env (p\<lparr>session := s, published := l\<rparr>)"
  by (simp add: player_ok_def)

lemma keeps_live_stable [preserves_intros]: "preserves (player_ok env) (handle_live_stable_event now lr)"
proof (rule preservesI)
  fix p assume p: "player_ok env p"
  then have "session_ok (session p)" by (simp add: player_ok_def)
  then show "player_ok env (snd (handle_live_stable_event now lr p))"
    using p live_again_ok(1) [of "session p"]
    by (auto simp: handle_live_stable_event_def Let_def act_defs update_def update_shared_state_def publish_def
        intro: player_ok_session)
qed

lemma keeps_live_start [preserves_intros]: "preserves (player_ok env) (start_live_reconnect now lr)"
proof (rule preservesI)
  fix p assume p: "player_ok env p"
  then have "session_ok (session p)" by (simp add: player_ok_def)
  then show "player_ok env (snd (start_live_reconnect now lr p))"
    using p live_again_ok(2) [of "session p"]
    by (auto simp: start_live_reconnect_def should_live_reconnect_def Let_def act_defs update_def
        update_shared_state_def publish_def intro: player_ok_session)
qed

lemma keeps_reconnect [preserves_intros]:
  assumes "\<And>p. player_ok env p \<Longrightarrow> player_ok env (meanwhile p)"
  shows "preserves (player_ok env) (reconnect_live_source env' meanwhile lr)"
proof (rule preservesI)
  fix p assume p: "player_ok env p"
  have "preserves (player_ok env) (bind_act (of_result (ok_or ''live playback source is unavailable'' (armed_source lr))) (\<lambda>src.
           bind_act (of_result (source_url (parse env') src)) (\<lambda>url.
           then_act (modify meanwhile)
           (bind_act (read_state command_revision) (\<lambda>revision_now.
              if revision_now \<noteq> armed_revision lr
              then raise_err ''playback source changed while reconnect was waiting''
              else bind_act next_load_revision (\<lambda>revision.
                then_act (with_mpv (then_act (load_with_event_boundary (reply env') url revision)
                    (set_paused (reply env') False)))
                  (publish_load_revision (Some revision))))))))"
    by (intro preserves_intros preserves_modify assms)
  from this [THEN preservesD, OF p] p show "player_ok env (snd (reconnect_live_source env' meanwhile lr p))"
    by (simp add: reconnect_live_source_def)
qed

lemma keeps_poll [preserves_intros]:
  assumes "\<And>p. player_ok env p \<Longrightarrow> player_ok env (meanwhile p)"
  shows "preserves (player_ok env) (poll_live_reconnect env' meanwhile now after lr)"
proof -
  have a: "preserves (player_ok env) (run_live_reconnect_attempt env' meanwhile after lr')" for lr'
    unfolding run_live_reconnect_attempt_def Let_def by (intro preserves_intros assms)
  show ?thesis
    by (rule preservesI) (simp add: poll_live_reconnect_def Let_def a [THEN preservesD])
qed

lemma keeps_failing_as [preserves_intros]: "preserves P m \<Longrightarrow> preserves P (failing_as code m)"
  unfolding failing_as_def by (intro preserves_intros)

lemma keeps_reset_recovery [preserves_intros]: "preserves (player_ok env) (reset_adaptive_for_recovery env')"
proof -
  have "preserves (player_ok env) (failing_as ''mpv-restart-failed'' (with_rate env' [] rate_recover))"
    by (intro preserves_intros)
  then show ?thesis by (simp add: preserves_def reset_adaptive_for_recovery_def)
qed

lemma keeps_next_mpv [preserves_intros]: "preserves (player_ok env) (with_next_mpv m)"
  by (auto simp: preserves_def with_next_mpv_def player_ok_def split: prod.split sum.split)

lemma keeps_finish [preserves_intros]:
  assumes "snapshot_ok snap"
  shows "preserves (player_ok env) (finish_player_restart env' snap b)"
proof -
  have "preserves (player_ok env) (modify (\<lambda>p. p\<lparr>mpv := m\<rparr>) :: (player, 'e, unit) act)" for m
    by (rule preserves_modify) (simp add: player_ok_def)
  then show ?thesis
    unfolding finish_player_restart_def using assms
    by (intro preserves_intros keeps_update session_changes_ok)
qed

lemma keeps_restart [preserves_intros]:
  assumes "snapshot_ok snap"
  shows "preserves (player_ok env) (restart_player env' snap b)"
proof -
  have "preserves (player_ok env) (failing_as ''mpv-restart-failed'' (with_rate env' [] (rate_apply rate)))" for rate
    by (intro preserves_intros)
  then have r: "preserves (player_ok env) (\<lambda>p. if adaptive p = None then (Inr (), p)
      else failing_as ''mpv-restart-failed'' (with_rate env' [] (rate_apply rate)) p)" for rate
    by (simp add: preserves_def)
  show ?thesis
    unfolding restart_player_def reset_reapplied_rate_after_failed_restart_def
    by (intro preserves_intros r assms)
qed

lemma interrupted_ok: "interrupted_session_snapshot p = Inr (snap, b) \<Longrightarrow> snapshot_ok snap"
  by (auto simp: interrupted_session_snapshot_def snapshot_of_session_def snapshot_new_def snapshot_ok_def
      and_then_Inr_iff split: sum.splits)

lemma keeps_recover [preserves_intros]: "preserves (player_ok env) (recover_after_player_exit env')"
proof -
  have t: "preserves (player_ok env) (try_recover_after_player_exit env')"
  proof (rule preservesI)
    fix p assume p: "player_ok env p"
    show "player_ok env (snd (try_recover_after_player_exit env' p))"
    proof (cases "interrupted_session_snapshot p")
      case (Inl e)
      then show ?thesis
        using p by (simp add: try_recover_after_player_exit_def bind_act_def read_state_def of_result_def)
    next
      case (Inr x)
      then obtain snap b where s: "interrupted_session_snapshot p = Inr (snap, b)" by (cases x) auto
      have ok: "snapshot_ok snap" using s by (rule interrupted_ok)
      have l: "player_ok env (q\<lparr>life := l\<rparr>)" if "player_ok env q" for q l
        using that by (simp add: player_ok_def)
      have a: "preserves (player_ok env) (apply_recovery_transition env' action)"
        if "action \<in> {RestartPlayer snap b, SurfaceActionableError}" for action
        using that ok by (auto simp: apply_recovery_transition_def intro!: preserves_intros)
      have "preserves (player_ok env) (\<lambda>p. case unexpected_player_exit snap b (life p) of
          (action, l) \<Rightarrow> apply_recovery_transition env' action (p\<lparr>life := l\<rparr>))"
        using a [THEN preservesD, OF _ l] by (auto simp: preserves_def unexpected_player_exit_def)
      then have "preserves (player_ok env) (then_act (reset_adaptive_for_recovery env')
          (\<lambda>p. case unexpected_player_exit snap b (life p) of
            (action, l) \<Rightarrow> apply_recovery_transition env' action (p\<lparr>life := l\<rparr>)))"
        by (intro preserves_intros)
      from this [THEN preservesD, OF p] show ?thesis
        using s by (simp add: try_recover_after_player_exit_def bind_act_def read_state_def of_result_def)
    qed
  qed
  have "session_ok (s\<lparr>status := Errored, session_error := Some e\<rparr>)" if "session_ok s" for s e
    using that by (auto simp: session_ok_def is_active_def)
  then show ?thesis
    unfolding recover_after_player_exit_def by (intro preserves_intros t keeps_update)
qed

lemma keeps_dispatch [preserves_intros]: "preserves (player_ok env) (dispatch_playback_event env ev now ls)"
  unfolding dispatch_playback_event_def dispatch_regular_playback_event_def process_and_note_def Let_def
  by (cases ev) (auto intro!: preserves_intros)

lemma keeps_turn:
  assumes "\<And>p. player_ok env p \<Longrightarrow> player_ok env (meanwhile p)"
  shows "preserves (player_ok env) (loop_turn env meanwhile ev now after ls)"
  unfolding loop_turn_def Let_def by (intro preserves_intros assms)

subsection \<open>Reachable states\<close>

datatype player_command =
    DoPlay "json option" | DoPause | DoStop | DoToggle | DoSeek f64 | DoNavigate queue_direction
  | DoProcessing processing_state mpv_processing | DoRate f64 | DoGapless bool | DoStopAfter bool | DoFade nat
  | DoRepeat | DoShuffle | DoSync "json list" "nat option" | DoRestore session_snapshot
  | DoAdaptive | DoRefreshDevices | DoDirect nat string | DoSystem | DoShutdown

fun perform :: "player_env \<Rightarrow> player_command \<Rightarrow> player \<Rightarrow> player" where
  "perform env (DoPlay src) p = snd (play env src p)"
| "perform env DoPause p = snd (pause env p)"
| "perform env DoStop p = snd (stop env p)"
| "perform env DoToggle p = snd (toggle_play env p)"
| "perform env (DoSeek x) p = snd (seek env x p)"
| "perform env (DoNavigate d) p = snd (navigate env d p)"
| "perform env (DoProcessing proc conf) p = snd (apply_processing env proc conf p)"
| "perform env (DoRate x) p = snd (set_playback_rate env x p)"
| "perform env (DoGapless b) p = snd (set_gapless env b p)"
| "perform env (DoStopAfter b) p = snd (set_stop_after_current b p)"
| "perform env (DoFade n) p = snd (set_transition_fade_ms n p)"
| "perform env DoRepeat p = snd (cycle_repeat_mode p)"
| "perform env DoShuffle p = snd (toggle_shuffle env p)"
| "perform env (DoSync vs i) p = snd (sync_queue_context env vs i p)"
| "perform env (DoRestore snap) p = snd (restore_paused env snap p)"
| "perform env DoAdaptive p = snd (enable_adaptive_system_rate env p)"
| "perform env DoRefreshDevices p = snd (refresh_output_devices env p)"
| "perform env (DoDirect n dev) p = snd (select_direct_alsa_output env n dev p)"
| "perform env DoSystem p = snd (fallback_to_system_output env p)"
| "perform env DoShutdown p = snd (shutdown env p)"

fun command_ok :: "player_command \<Rightarrow> bool" where
  "command_ok (DoRestore snap) = snapshot_ok snap"
| "command_ok _ = True"

text \<open>A turn of the loop may be crossed by commands while it waits for the lock on mpv.\<close>

inductive player_reach :: "player_env \<Rightarrow> player \<Rightarrow> loop_state \<Rightarrow> bool" for env where
  reach_start: "run st w \<Longrightarrow> rates = None \<or> rates = Some st
    \<Longrightarrow> player_reach env (player_started devs rates w)
          \<lparr>live = live_default, last_path_refresh = t, last_device_refresh = t\<rparr>"
| reach_command: "player_reach env p ls \<Longrightarrow> command_ok c \<Longrightarrow> player_reach env (perform env c p) ls"
| reach_turn: "player_reach env p ls \<Longrightarrow> \<not> is_shutdown p \<Longrightarrow> \<forall>c \<in> set cs. command_ok c
    \<Longrightarrow> loop_turn env (fold (perform env) cs) ev now after ls p = (r, p')
    \<Longrightarrow> (case r of Inl (_ :: unit) \<Rightarrow> ls' = ls | Inr x \<Rightarrow> ls' = x)
    \<Longrightarrow> player_reach env p' ls'"

lemma command_keeps: "env_ok env \<Longrightarrow> command_ok c \<Longrightarrow> player_ok env p \<Longrightarrow> player_ok env (perform env c p)"
  by (cases c) (simp_all add: preserves_intros [THEN preservesD])

lemma commands_keep:
  "env_ok env \<Longrightarrow> \<forall>c \<in> set cs. command_ok c \<Longrightarrow> player_ok env p \<Longrightarrow> player_ok env (fold (perform env) cs p)"
  by (induction cs arbitrary: p) (simp_all add: command_keeps)

lemma reach_ok: "player_reach env p ls \<Longrightarrow> env_ok env \<Longrightarrow> player_ok env p"
proof (induction rule: player_reach.induct)
  case (reach_start st w rates devs t)
  then show ?case
    using session_default_ok queue_steps_ok [OF rtranclp.rtrancl_refl]
    by (auto simp: player_ok_def player_started_def)
next
  case (reach_command p ls c)
  then show ?case by (simp add: command_keeps)
next
  case (reach_turn p ls cs ev now after r p' ls')
  have "player_ok env (snd (loop_turn env (fold (perform env) cs) ev now after ls p :: (unit + loop_state) \<times> player))"
    using reach_turn by (intro keeps_turn [THEN preservesD] commands_keep) simp_all
  then show ?case using reach_turn.hyps by simp
qed

subsection \<open>The invariant in every reachable state\<close>


fun demo_parse :: parser where
  "demo_parse v = (case Option.bind (jget ''url'' v) as_str of Some u \<Rightarrow> Inr (RadioStation u u) | None \<Rightarrow> toy_parse v)"

definition demo_station :: json where
  "demo_station = JObject [(''type'', JString ''radio-station''), (''url'', JString ''http://radio'')]"

definition demo_env :: player_env where
  "demo_env = \<lparr>reply = (\<lambda>_. Inr JNull), parse = demo_parse, upper = id, as_f64 = (\<lambda>_. None), listed = (\<lambda>_. Inr []),
     rate_outcome = (\<lambda>_. Works), marker_failure = (\<lambda>_. None), random = (\<lambda>_ _. None), has_path_observer = False,
     observed_path = (\<lambda>_. None), restart_failure = (\<lambda>_. None), has_starter = True\<rparr>"

definition demo_player :: player where
  "demo_player = player_started None None \<lparr>system_rate = None, marker = False\<rparr>"


end
