(* ===== verification/Playback_Reconnect.thy ===== *)
theory Playback_Reconnect
  imports Playback_Reach
begin

text \<open>
  Live Radio in the event loop of the player: a reconnect never overrides what
  the listener asked for meanwhile, and it does not give up.
\<close>

lemma ok_or_Inl_iff: "ok_or e x = Inl d \<longleftrightarrow> x = None \<and> d = e"
  by (auto simp: ok_or_def split: option.splits)

subsection \<open>Reconnecting\<close>

lemmas reconnect_defs = poll_live_reconnect_def run_live_reconnect_attempt_def reconnect_live_source_def
  is_current_live_reconnect_def schedule_expired_live_readiness_def update_live_reconnect_stability_def

lemma ready_keeps: "armed_source (schedule_expired_live_readiness now lr) = armed_source lr"
  "armed_revision (schedule_expired_live_readiness now lr) = armed_revision lr"
  by (auto simp: schedule_expired_live_readiness_def schedule_next_live_reconnect_def split: option.split)

lemma load_and_unpause:
  assumes "with_mpv (then_act (load_with_event_boundary rp url n) (set_paused rp False)) q = (r, q')"
  shows "\<exists>more app. set more \<subseteq> {Request (SetPause False) None}
    \<and> q' = q\<lparr>mpv := \<lparr>mpv_log = more @ Request (LoadReplace url) (Some n) # mpv_log (mpv q), appended = app\<rparr>\<rparr>"
proof -
  let ?load = "Request (LoadReplace url) (Some n) # mpv_log (mpv q)"
  have "q' \<in> {q\<lparr>mpv := \<lparr>mpv_log = ?load, appended = None\<rparr>\<rparr>,
      q\<lparr>mpv := \<lparr>mpv_log = Request (SetPause False) None # ?load, appended = None\<rparr>\<rparr>}"
    using assms by (cases "mpv q") (auto simp: with_mpv_def mpv_ops act_defs split: sum.splits prod.splits)
  then show ?thesis
  proof (elim insertE)
    assume "q' = q\<lparr>mpv := \<lparr>mpv_log = ?load, appended = None\<rparr>\<rparr>"
    then show ?thesis by (intro exI [of _ "[]"] exI [of _ None]) simp
  next
    assume "q' = q\<lparr>mpv := \<lparr>mpv_log = Request (SetPause False) None # ?load, appended = None\<rparr>\<rparr>"
    then show ?thesis by (intro exI [of _ "[Request (SetPause False) None]"] exI [of _ None]) simp
  qed simp
qed

text \<open>What one attempt does: nothing, or the load of the armed source.\<close>

definition reconnect_sent :: "player_env \<Rightarrow> live_reconnect \<Rightarrow> player \<Rightarrow> player \<Rightarrow> bool" where
  "reconnect_sent env lr q p' \<longleftrightarrow> (\<exists>src url more.
     armed_source lr = Some src \<and> source_url (parse env) src = Inr url \<and> set more \<subseteq> {Request (SetPause False) None}
     \<and> mpv_log (mpv p') = more @ Request (LoadReplace url) (Some (load_revision q + 1)) # mpv_log (mpv q)
     \<and> session p' = session q \<and> command_revision p' = command_revision q)"

lemma reconnect_sends:
  assumes x: "reconnect_live_source env meanwhile lr p = (r, p')"
    and current: "command_revision p = armed_revision lr" "command_revision (meanwhile p) = armed_revision lr"
    and a: "armed_source lr = Some src" "source_url (parse env) src = Inr url"
  shows "reconnect_sent env lr (meanwhile p) p'"
proof -
  let ?q = "meanwhile p"
  let ?q1 = "?q\<lparr>load_revision := load_revision ?q + 1\<rparr>"
  have "then_act (with_mpv (then_act (load_with_event_boundary (reply env) url (load_revision ?q + 1))
      (set_paused (reply env) False))) (publish_load_revision (Some (load_revision ?q + 1))) ?q1 = (r, p')"
    using x current a
    by (simp add: reconnect_live_source_def bind_act_def then_act_def of_result_def modify_def read_state_def
        next_load_revision_def ok_or_def split: prod.splits)
  then obtain r1 q' where w: "with_mpv (then_act (load_with_event_boundary (reply env) url (load_revision ?q + 1))
      (set_paused (reply env) False)) ?q1 = (r1, q')"
    and p': "p' = q' \<or> p' = q'\<lparr>published_load_revision := load_revision ?q + 1\<rparr>"
    by (auto simp: act_result publish_load_revision_def modify_def)
  from load_and_unpause [OF w] obtain more app where m: "set more \<subseteq> {Request (SetPause False) None}"
    "q' = ?q1\<lparr>mpv := \<lparr>mpv_log = more @ Request (LoadReplace url) (Some (load_revision ?q + 1)) # mpv_log (mpv ?q1),
       appended = app\<rparr>\<rparr>" by blast
  show ?thesis
    unfolding reconnect_sent_def using p' a m(1)
    by (intro exI [of _ src] exI [of _ url] exI [of _ more]) (auto simp: m(2))
qed

lemma reconnect_outcome:
  assumes "reconnect_live_source env meanwhile lr p = (r, p')"
  shows "p' \<in> {p, meanwhile p}
    \<or> command_revision p = armed_revision lr \<and> command_revision (meanwhile p) = armed_revision lr
      \<and> reconnect_sent env lr (meanwhile p) p'"
proof (cases "command_revision p = armed_revision lr \<and> command_revision (meanwhile p) = armed_revision lr
    \<and> (\<exists>src url. armed_source lr = Some src \<and> source_url (parse env) src = Inr url)")
  case False
  then show ?thesis
    using assms
    by (auto simp: reconnect_live_source_def act_result of_result_def modify_def read_state_def raise_err_def
        ok_or_Inl_iff split: if_splits)
next
  case True
  with reconnect_sends [OF assms] show ?thesis by blast
qed

lemma poll_outcome:
  assumes x: "poll_live_reconnect env meanwhile now after lr p = (r, p')"
  shows "p' \<in> {p, meanwhile p}
   \<or> command_revision p = armed_revision lr \<and> command_revision (meanwhile p) = armed_revision lr
     \<and> source (session p) = armed_source lr \<and> is_active (status (session p)) \<and> status (session p) \<noteq> Playing
     \<and> reconnect_sent env lr (meanwhile p) p'"
proof -
  let ?lr = "schedule_expired_live_readiness now lr"
  show ?thesis
  proof (cases "armed_source lr = None \<or> \<not> is_current_live_reconnect p lr \<or> status (session p) = Playing
      \<or> \<not> is_live_reconnect_due now ?lr")
    case True
    then show ?thesis using x by (auto simp: poll_live_reconnect_def Let_def split: if_splits)
  next
    case False
    then have "run_live_reconnect_attempt env meanwhile after ?lr p = (r, p')"
      using x by (auto simp: poll_live_reconnect_def Let_def)
    then obtain rr where "reconnect_live_source env meanwhile (?lr\<lparr>retry_at := None\<rparr>) p = (rr, p')"
      by (auto simp: run_live_reconnect_attempt_def Let_def act_result return_ok_def)
    from reconnect_outcome [OF this] False show ?thesis
      by (auto simp: ready_keeps is_current_live_reconnect_def reconnect_sent_def)
  qed
qed

text \<open>C9: a poll of the reconnecting loop changes nothing of the player itself, or sends one
  load of the armed source: this only when no command came before or while it waited for the lock, and
  the session still shows that source and is not playing. Commands that run meanwhile (\<open>meanwhile\<close>)
  are never overridden.\<close>

theorem reconnect_never_overrides:
  "case poll_live_reconnect env meanwhile now after lr p of (r, p') \<Rightarrow>
     p' \<in> {p, meanwhile p}
   \<or> command_revision p = armed_revision lr \<and> command_revision (meanwhile p) = armed_revision lr
     \<and> source (session p) = armed_source lr \<and> is_active (status (session p)) \<and> status (session p) \<noteq> Playing
     \<and> reconnect_sent env lr (meanwhile p) p'"
  by (rule case_prodI2) (rule poll_outcome)

subsection \<open>Reconnecting does not give up\<close>

text \<open>The loop's polls at the times given, each with the time its attempt ends.\<close>

abbreviation poll_now :: "player_env \<Rightarrow> nat \<Rightarrow> nat \<Rightarrow> live_reconnect \<Rightarrow> player \<Rightarrow> (unit + live_reconnect) \<times> player" where
  "poll_now env \<equiv> poll_live_reconnect env id"

fun polls :: "player_env \<Rightarrow> (nat \<times> nat) list \<Rightarrow> live_reconnect \<times> player \<Rightarrow> live_reconnect \<times> player" where
  "polls env [] st = st"
| "polls env ((now, after) # ts) (lr, p) =
     (case poll_now env now after lr p of
        (Inr lr', p') \<Rightarrow> polls env ts (lr', p')
      | (Inl _, p') \<Rightarrow> (lr, p'))"

fun is_load :: "mpv_message \<Rightarrow> bool" where
  "is_load (Request (LoadReplace _) _) = True"
| "is_load _ = False"

definition loads :: "player \<Rightarrow> nat" where
  "loads p = length (filter is_load (mpv_log (mpv p)))"

fun spaced :: "nat \<Rightarrow> (nat \<times> nat) list \<Rightarrow> bool" where
  "spaced t [] = True"
| "spaced t ((now, after) # ts) = (t + 15000 \<le> now \<and> now \<le> after \<and> spaced after ts)"

text \<open>The next attempt is set, or the one under way has until a deadline to show sound.\<close>

definition to_retry :: "nat \<Rightarrow> live_reconnect \<Rightarrow> bool" where
  "to_retry t lr \<longleftrightarrow> readiness_deadline lr = None \<and> (\<exists>d. retry_at lr = Some d \<and> d \<le> t + 15000)"

definition to_wait :: "nat \<Rightarrow> live_reconnect \<Rightarrow> bool" where
  "to_wait t lr \<longleftrightarrow> retry_at lr = None \<and> (\<exists>d. readiness_deadline lr = Some d \<and> d \<le> t + 15000)"

definition reconnecting :: "player_env \<Rightarrow> live_reconnect \<Rightarrow> player \<Rightarrow> bool" where
  "reconnecting env lr p \<longleftrightarrow> is_current_live_reconnect p lr \<and> status (session p) = Reconnecting
     \<and> (\<exists>src url. armed_source lr = Some src \<and> source_url (parse env) src = Inr url)"

lemma delay_range: "1000 \<le> live_reconnect_delay n" "live_reconnect_delay n \<le> 15000"
proof -
  have "LIVE_RECONNECT_DELAY_STEPS ! min n (length LIVE_RECONNECT_DELAY_STEPS - 1) \<in> set LIVE_RECONNECT_DELAY_STEPS"
    by (rule nth_mem) (simp add: LIVE_RECONNECT_DELAY_STEPS_def)
  moreover have "\<forall>d \<in> set LIVE_RECONNECT_DELAY_STEPS. 1 \<le> d \<and> d \<le> 15"
    by (simp add: LIVE_RECONNECT_DELAY_STEPS_def)
  ultimately have "1 \<le> LIVE_RECONNECT_DELAY_STEPS ! min n (length LIVE_RECONNECT_DELAY_STEPS - 1)
      \<and> LIVE_RECONNECT_DELAY_STEPS ! min n (length LIVE_RECONNECT_DELAY_STEPS - 1) \<le> 15" by blast
  then show "1000 \<le> live_reconnect_delay n" "live_reconnect_delay n \<le> 15000"
    by (simp_all add: live_reconnect_delay_def)
qed

lemma sent_loads: "reconnect_sent env lr q p' \<Longrightarrow> loads p' = Suc (loads q)"
proof -
  have "filter is_load more = []" if "set more \<subseteq> {Request (SetPause False) None}" for more
    using that by (induction more) auto
  then show "reconnect_sent env lr q p' \<Longrightarrow> loads p' = Suc (loads q)"
    by (auto simp: reconnect_sent_def loads_def)
qed

lemma poll_waiting:
  assumes "reconnecting env lr p" and "to_wait t lr" and "t + 15000 \<le> now" and "now \<le> after"
  shows "\<exists>lr'. poll_now env now after lr p = (Inr lr', p) \<and> reconnecting env lr' p
    \<and> to_retry after lr'"
proof -
  obtain d where d: "retry_at lr = None" "readiness_deadline lr = Some d" "d \<le> now"
    using assms(2,3) by (auto simp: to_wait_def)
  then have "schedule_expired_live_readiness now lr = schedule_next_live_reconnect now lr"
    by (simp add: schedule_expired_live_readiness_def)
  moreover have "\<not> is_live_reconnect_due now (schedule_next_live_reconnect now lr)"
    using delay_range(1) [of "attempt lr"] by (simp add: is_live_reconnect_due_def schedule_next_live_reconnect_def)
  ultimately have "poll_now env now after lr p = (Inr (schedule_next_live_reconnect now lr), p)"
    using assms(1) by (auto simp: poll_live_reconnect_def reconnecting_def Let_def)
  moreover have "reconnecting env (schedule_next_live_reconnect now lr) p"
    using assms(1) by (auto simp: reconnecting_def schedule_next_live_reconnect_def is_current_live_reconnect_def)
  moreover have "to_retry after (schedule_next_live_reconnect now lr)"
    using delay_range(2) [of "attempt lr"] assms(4) by (simp add: to_retry_def schedule_next_live_reconnect_def)
  ultimately show ?thesis by blast
qed

lemma poll_retrying:
  assumes p: "reconnecting env lr p" and "to_retry t lr" and "t + 15000 \<le> now" and "now \<le> after"
  shows "\<exists>lr' p'. poll_now env now after lr p = (Inr lr', p') \<and> reconnecting env lr' p'
    \<and> (to_retry after lr' \<or> to_wait after lr') \<and> loads p' = Suc (loads p)"
proof -
  let ?lr = "lr\<lparr>retry_at := None\<rparr>"
  obtain d where d: "readiness_deadline lr = None" "retry_at lr = Some d" "d \<le> now"
    using assms(2,3) by (auto simp: to_retry_def)
  obtain r p' where x: "reconnect_live_source env id ?lr p = (r, p')" by fastforce
  have sent: "reconnect_sent env lr p p'"
    using p reconnect_sends [OF x]
    by (auto simp: reconnecting_def is_current_live_reconnect_def reconnect_sent_def)
  define lr' where "lr' = (case r of Inl _ \<Rightarrow> schedule_next_live_reconnect after ?lr
    | Inr _ \<Rightarrow> ?lr\<lparr>readiness_deadline := Some (after + LIVE_RECONNECT_READINESS_TIMEOUT)\<rparr>)"
  have "poll_now env now after lr p = run_live_reconnect_attempt env id after lr p"
    using p d by (auto simp: poll_live_reconnect_def reconnecting_def schedule_expired_live_readiness_def
        is_live_reconnect_due_def)
  also have "\<dots> = (Inr lr', p')"
    using x by (cases r) (simp_all add: run_live_reconnect_attempt_def Let_def match_act_def return_ok_def lr'_def)
  finally have "poll_now env now after lr p = (Inr lr', p')" .
  moreover have "reconnecting env lr' p'"
    using p sent by (cases r) (auto simp: lr'_def reconnecting_def reconnect_sent_def is_current_live_reconnect_def
        schedule_next_live_reconnect_def)
  moreover have "to_retry after lr' \<or> to_wait after lr'"
    using delay_range(2) [of "attempt lr"] d
    by (cases r) (simp_all add: lr'_def to_retry_def to_wait_def schedule_next_live_reconnect_def
        LIVE_RECONNECT_READINESS_TIMEOUT_def)
  ultimately show ?thesis using sent_loads [OF sent] by blast
qed

lemma polls_load:
  assumes "reconnecting env lr p" and "to_retry t lr \<or> to_wait t lr" and "spaced t ts"
  shows "loads p + (length ts + (if to_retry t lr then 1 else 0)) div 2 \<le> loads (snd (polls env ts (lr, p)))"
  using assms
proof (induction ts arbitrary: lr p t)
  case (Cons x ts)
  obtain now after where x: "x = (now, after)" by (cases x)
  have s: "t + 15000 \<le> now" "now \<le> after" "spaced after ts" using Cons.prems(3) x by auto
  show ?case
  proof (cases "to_retry t lr")
    case True
    from poll_retrying [OF Cons.prems(1) True s(1,2)] obtain lr' p' where
      q: "poll_now env now after lr p = (Inr lr', p')" "reconnecting env lr' p'"
        "to_retry after lr' \<or> to_wait after lr'" "loads p' = Suc (loads p)" by blast
    from Cons.IH [OF q(2,3) s(3)] show ?thesis using q True x by (auto split: if_splits)
  next
    case False
    with Cons.prems(2) have "to_wait t lr" by simp
    from poll_waiting [OF Cons.prems(1) this s(1,2)] obtain lr' where
      q: "poll_now env now after lr p = (Inr lr', p)" "reconnecting env lr' p" "to_retry after lr'" by blast
    from Cons.IH [OF q(2) _ s(3)] show ?thesis using q False x by auto
  qed
qed simp

text \<open>From the first interruption on.\<close>

lemma start_reconnecting:
  assumes "should_live_reconnect p lr" and "source (session p) = Some src" and "source_url (parse env) src = Inr url"
    and "retry_at lr = None"
  shows "\<exists>lr' p'. start_live_reconnect now lr p = ((Inr (True, lr') :: unit + bool \<times> live_reconnect), p') \<and> reconnecting env lr' p' \<and> to_retry now lr'
    \<and> loads p' = loads p"
proof -
  have "is_active Reconnecting" by (simp add: is_active_def)
  then show ?thesis
    using assms delay_range(2) [of "attempt lr"]
    by (auto simp: start_live_reconnect_def act_defs update_def update_shared_state_def publish_def Let_def
        reconnecting_def is_current_live_reconnect_def should_live_reconnect_def to_retry_def loads_def
        schedule_next_live_reconnect_def intro!: exI [of _ src])
qed


definition demo_live :: player where
  "demo_live = demo_player\<lparr>session := session_default\<lparr>source := Some demo_station, status := Playing\<rparr>\<rparr>"

definition demo_reconnect :: live_reconnect where
  "demo_reconnect = live_default\<lparr>armed_source := Some demo_station\<rparr>"


end
