(* ===== verification/Playback_Advance.thy ===== *)
theory Playback_Advance
  imports Playback_Reach
begin

text \<open>
  What the player does when a source ends: which source is next, how it starts,
  and what the session shows when nothing can.
\<close>

subsection \<open>The end of a source\<close>

definition repeats_current :: "session \<Rightarrow> bool" where
  "repeats_current s \<longleftrightarrow> session_repeat s = RepeatOnce
     \<and> \<not> (case source s of Some src \<Rightarrow> is_external_track_source src | None \<Rightarrow> False)"

definition successor :: "player \<Rightarrow> json option" where
  "successor p =
     (let s = session p in
      if stop_after_current s then None
      else if repeats_current s then source s
      else adjacent_source DirNext (session_repeat s = RepeatLoop) (queue p))"

text \<open>How the session looks with a source just started, and how it was started.\<close>

definition started_with :: "player_env \<Rightarrow> json \<Rightarrow> player \<Rightarrow> player \<Rightarrow> bool" where
  "started_with env src p p' \<longleftrightarrow> source (session p') = Some src \<and> status (session p') = Playing
     \<and> current_time (session p') = Fin 0 \<and> session_error (session p') = None
     \<and> queue p' = snd (align_to_source (parse env) src (queue p))
     \<and> (\<exists>url. source_url (parse env) src = Inr url
         \<and> (mpv_log (mpv p') = Request (SetPause False) None # Request (LoadReplace url) None # mpv_log (mpv p)
           \<or> mpv_log (mpv p') = mpv_log (mpv p) \<and> appended (mpv p) = Some url \<and> \<not> repeats_current (session p)))"

lemma with_rate_keeps:
  assumes "with_rate env missing op p = (r, p')"
  shows "session p' = session p" "mpv p' = mpv p" "queue p' = queue p"
  using assms by (auto simp: with_rate_def split: option.splits prod.splits)

lemma event_rate_keeps:
  assumes "apply_adaptive_rate_for_event env src p = (r, p')"
  shows "session p' = session p" "mpv p' = mpv p" "queue p' = queue p"
  using assms with_rate_keeps by (auto simp: apply_adaptive_rate_for_event_def split: if_splits)

lemma reset_event_keeps:
  assumes "reset_adaptive_after_event_failure env p = (r, p')"
  shows "session p' = session p" "mpv p' = mpv p" "queue p' = queue p"
  using assms with_rate_keeps
  by (auto simp: reset_adaptive_after_event_failure_def act_result raise_err_def return_ok_def split: if_splits)

lemma prepare_keeps:
  assumes "prepare_advanced_source_rate env src p = (r, p')"
  shows "session p' = session p" "mpv p' = mpv p" "queue p' = queue p"
proof -
  have "\<exists>q. session q = session p \<and> mpv q = mpv p \<and> queue q = queue p
      \<and> (p' = q \<or> (\<exists>x. reset_adaptive_after_event_failure env q = (x, p')))"
    using assms event_rate_keeps
    by (fastforce simp: prepare_advanced_source_rate_def act_result raise_err_def return_ok_def)
  then show "session p' = session p" "mpv p' = mpv p" "queue p' = queue p"
    using reset_event_keeps by fastforce+
qed

text \<open>What the two ways to go on leave.\<close>

lemma align_and_publish_outcome:
  assumes "align_and_publish_advanced_source env src p = (r, p')"
  shows "mpv p' = mpv p" and "queue p' = snd (align_to_source (parse env) src (queue p))"
    and "case r of Inl _ \<Rightarrow> session p' = session p
       | Inr s' \<Rightarrow> s' = session p' \<and> session p' = set_playing_source (parse env) (upper env) src None (session p)"
  using assms
  by (auto simp: align_and_publish_advanced_source_def act_result align_queue_to_source_def with_queue_def
      update_shared_state_def Let_def split: prod.splits)

lemma start_advanced_outcome:
  assumes "start_advanced_source env src p = (r, p')"
  shows "session p' = session p" and "queue p' = queue p"
    and "r = Inr u \<Longrightarrow> \<exists>url. source_url (parse env) src = Inr url
      \<and> mpv_log (mpv p') = Request (SetPause False) None # Request (LoadReplace url) None # mpv_log (mpv p)"
proof -
  note defs = start_advanced_source_def with_mpv_def mpv_ops act_defs
  have "session p' = session p \<and> queue p' = queue p \<and> (r = Inr u \<longrightarrow> (\<exists>url. source_url (parse env) src = Inr url
      \<and> mpv_log (mpv p') = Request (SetPause False) None # Request (LoadReplace url) None # mpv_log (mpv p)))"
  proof (cases "source_url (parse env) src")
    case (Inr url)
    let ?load = "Request (LoadReplace url) None # mpv_log (mpv p)"
    show ?thesis
    proof (cases "reply env ?load")
      case (Inr v)
      with assms \<open>source_url (parse env) src = Inr url\<close> show ?thesis
        by (cases "reply env (Request (SetPause False) None # ?load)") (auto simp: defs)
    qed (use assms Inr in \<open>auto simp: defs\<close>)
  qed (use assms in \<open>auto simp: defs\<close>)
  then show "session p' = session p" and "queue p' = queue p"
    and "r = Inr u \<Longrightarrow> \<exists>url. source_url (parse env) src = Inr url
      \<and> mpv_log (mpv p') = Request (SetPause False) None # Request (LoadReplace url) None # mpv_log (mpv p)"
    by blast+
qed

lemma load_advanced_outcome:
  assumes "load_advanced_source env src p = (r, p')"
  shows "case r of Inl _ \<Rightarrow> session p' = session p
    | Inr s' \<Rightarrow> s' = session p'
       \<and> (status s' = Errored \<and> source s' = source (session p) \<and> session_error s' \<noteq> None \<and> session_repeat s' = session_repeat (session p)
         \<or> s' = set_playing_source (parse env) (upper env) src None (session p)
           \<and> queue p' = snd (align_to_source (parse env) src (queue p))
           \<and> (\<exists>url. source_url (parse env) src = Inr url
             \<and> mpv_log (mpv p') = Request (SetPause False) None # Request (LoadReplace url) None # mpv_log (mpv p)))"
proof -
  from assms consider
      e where "prepare_advanced_source_rate env src p = (Inl e, p')" "r = Inl e"
    | (failed) t e t' where "prepare_advanced_source_rate env src p = (Inr (), t)"
        "start_advanced_source env src t = (Inl e, t')" "publish_advanced_source_failure env t' = (r, p')"
    | (started) t t' where "prepare_advanced_source_rate env src p = (Inr (), t)"
        "start_advanced_source env src t = (Inr (), t')" "align_and_publish_advanced_source env src t' = (r, p')"
    by (auto simp: load_advanced_source_def act_result)
  then show ?thesis
  proof cases
    case 1
    then show ?thesis using prepare_keeps by simp
  next
    case failed
    then have "session t' = session p" using prepare_keeps start_advanced_outcome by metis
    then show ?thesis
      using failed(3) reset_event_keeps
      by (auto simp: publish_advanced_source_failure_def act_result publish_adaptive_cleanup_failure_def
          update_shared_state_def set_error_state_def Let_def)
  next
    case started
    have "session t' = session p" "queue t' = queue p" "mpv t = mpv p"
      using started prepare_keeps start_advanced_outcome by metis+
    then show ?thesis
      using started(2) start_advanced_outcome(3) [OF started(2)] align_and_publish_outcome [OF started(3)]
      by (cases r) auto
  qed
qed

definition ended_outcome :: "player_env \<Rightarrow> player \<Rightarrow> string + session \<Rightarrow> player \<Rightarrow> bool" where
  "ended_outcome env p r p' =
     (case successor p of
        None \<Rightarrow> r = Inr (session p') \<and> session p' = (session p)\<lparr>stop_after_current := False, status := Ended\<rparr>
          \<and> queue p' = queue p
          \<and> mpv_log (mpv p') = (if appended (mpv p) = None \<or> repeats_current (session p) \<and> \<not> stop_after_current (session p)
              then mpv_log (mpv p) else Request StopPlaying None # mpv_log (mpv p))
      | Some src \<Rightarrow> (case r of
            Inl _ \<Rightarrow> session p' = session p
          | Inr s' \<Rightarrow> s' = session p'
             \<and> (status s' = Errored \<and> session_error s' \<noteq> None \<and> source s' = source (session p)
               \<or> started_with env src p p'
                 \<and> session_repeat s' = (if repeats_current (session p) then RepeatOff else session_repeat (session p)))))"

lemma stop_appended_outcome:
  assumes "stop_appended_source env app p = (r, p')"
  shows "r = Inr () \<and> session p' = session p \<and> queue p' = queue p
    \<and> mpv_log (mpv p') = (if app = None then mpv_log (mpv p) else Request StopPlaying None # mpv_log (mpv p))"
  using assms
  by (cases "reply env (Request StopPlaying None # mpv_log (mpv p))")
    (auto simp: stop_appended_source_def with_mpv_def mpv_ops act_defs split: option.splits)

lemma ended_event_outcome:
  assumes x: "handle_ended_event env p = (r, p')"
  shows "ended_outcome env p r p'"
proof -
  let ?s = "session p" and ?app = "appended (mpv p)"
  let ?p = "p\<lparr>mpv := (mpv p)\<lparr>appended := None\<rparr>\<rparr>"
  note step = handle_ended_event_def bind_act_def get_session_def read_state_def with_mpv_def take_appended_def
  have x': "(if stop_after_current ?s
      then then_act (stop_appended_source env ?app) (update_shared_state (\<lambda>s. s\<lparr>stop_after_current := False, status := Ended\<rparr>)) ?p
      else if repeats_current ?s then repeat_current_source env ?p
      else (case adjacent_source DirNext (session_repeat ?s = RepeatLoop) (queue p) of
           Some src \<Rightarrow> (if ?app \<noteq> None \<and> source_url (parse env) src = Inr (the ?app)
             then then_act (prepare_advanced_source_rate env src) (align_and_publish_advanced_source env src)
             else load_advanced_source env src) ?p
         | None \<Rightarrow> then_act (stop_appended_source env ?app) (update_shared_state (\<lambda>s. s\<lparr>status := Ended\<rparr>)) ?p)) = (r, p')"
    using x unfolding step repeats_current_def [symmetric]
    by (cases "stop_after_current ?s"; cases "repeats_current ?s";
        cases "adjacent_source DirNext (session_repeat ?s = RepeatLoop) (queue p)") simp_all
  show ?thesis
  proof (cases "successor p")
    case None
    have ended: "ended_outcome env p r p'"
      if "then_act (stop_appended_source env ?app) (update_shared_state (\<lambda>s. g s)) ?p = (r, p')"
        and "g ?s = ?s\<lparr>stop_after_current := False, status := Ended\<rparr>"
        and "\<not> (repeats_current ?s \<and> \<not> stop_after_current ?s)" for g
    proof -
      obtain r1 t where t: "stop_appended_source env ?app ?p = ((r1 :: string + unit), t)" by fastforce
      from stop_appended_outcome [OF t] that None t show ?thesis
        by (auto simp: ended_outcome_def then_act_def update_shared_state_def Let_def)
    qed
    consider "stop_after_current ?s" | "\<not> stop_after_current ?s" "repeats_current ?s" "source ?s = None"
      | "\<not> stop_after_current ?s" "\<not> repeats_current ?s"
          "adjacent_source DirNext (session_repeat ?s = RepeatLoop) (queue p) = None"
      using None by (auto simp: successor_def Let_def split: if_splits)
    then show ?thesis
    proof cases
      case 1
      then show ?thesis using x' by (intro ended [of "\<lambda>s. s\<lparr>stop_after_current := False, status := Ended\<rparr>"]) simp_all
    next
      case 2
      then have "repeat_current_source env ?p = (r, p')" using x' by simp
      with 2 None show ?thesis
        by (auto simp: ended_outcome_def repeat_current_source_def bind_act_def get_session_def read_state_def
            update_shared_state_def Let_def)
    next
      case 3
      have "?s\<lparr>status := Ended\<rparr> = ?s\<lparr>stop_after_current := False, status := Ended\<rparr>" using 3 by (cases ?s) simp
      with 3 show ?thesis
        using x' by (intro ended [of "\<lambda>s. s\<lparr>status := Ended\<rparr>"]) simp_all
    qed
  next
    case (Some src)
    then have ns: "\<not> stop_after_current ?s" by (auto simp: successor_def Let_def split: if_splits)
    show ?thesis
    proof (cases "repeats_current ?s")
      case True
      have src: "source ?s = Some src" using Some True ns by (simp add: successor_def Let_def)
      have "repeat_current_source env ?p = (r, p')" using x' True ns by simp
      then have "bind_act (load_advanced_source env src) (\<lambda>repeated. if status repeated \<noteq> Playing then return_ok repeated
          else update_shared_state (\<lambda>s. s\<lparr>session_repeat := RepeatOff\<rparr>)) ?p = (r, p')"
        using src by (simp add: repeat_current_source_def bind_act_def get_session_def read_state_def)
      then obtain r1 t where l: "load_advanced_source env src ?p = (r1, t)" and
        n: "(case r1 of Inl e \<Rightarrow> (Inl e, t) | Inr s' \<Rightarrow> (if status s' \<noteq> Playing then return_ok s'
          else update_shared_state (\<lambda>s. s\<lparr>session_repeat := RepeatOff\<rparr>)) t) = (r, p')"
        by (auto simp: bind_act_def split: prod.splits)
      from load_advanced_outcome [OF l] n Some True show ?thesis
        by (auto simp: ended_outcome_def started_with_def update_shared_state_def return_ok_def Let_def split: sum.splits if_splits)
    next
      case False
      then have adj: "adjacent_source DirNext (session_repeat ?s = RepeatLoop) (queue p) = Some src"
        using Some ns by (simp add: successor_def Let_def)
      have y: "(if ?app \<noteq> None \<and> source_url (parse env) src = Inr (the ?app)
          then then_act (prepare_advanced_source_rate env src) (align_and_publish_advanced_source env src)
          else load_advanced_source env src) ?p = (r, p')"
        using x' False ns adj by simp
      show ?thesis
      proof (cases "?app \<noteq> None \<and> source_url (parse env) src = Inr (the ?app)")
        case gapless: True
        then obtain r1 t where p1: "prepare_advanced_source_rate env src ?p = (r1, t)"
          and n: "case r1 of Inl e \<Rightarrow> (r, p') = (Inl e, t) | Inr _ \<Rightarrow> align_and_publish_advanced_source env src t = (r, p')"
          using y by (auto simp: then_act_def split: prod.splits sum.splits)
        show ?thesis
          using n prepare_keeps [OF p1] align_and_publish_outcome [of env src t r p'] Some False gapless
          by (auto simp: ended_outcome_def started_with_def split: sum.splits)
      next
        case load: False
        then have "load_advanced_source env src ?p = (r, p')" using y by auto
        from load_advanced_outcome [OF this] Some False show ?thesis
          by (auto simp: ended_outcome_def started_with_def split: sum.splits)
      qed
    qed
  qed
qed

text \<open>C13: when a source ends, exactly the right one follows: none if the listener asked to stop or
  the queue is over (and a source mpv already holds is then stopped), the same one again if it is
  repeated once (never a track of an external source), otherwise the queue's next one. It starts from
  the beginning, by a load of its URL or without one if mpv already holds that very URL, the queue is
  aligned to it, and a failure leaves an error and the source or the session as it was.\<close>

theorem ended_event_exact:
  "case handle_ended_event env p of (r, p') \<Rightarrow> ended_outcome env p r p'"
  by (rule case_prodI2) (rule ended_event_outcome)

end
