(* ===== verification/Playback_Recovery.thy ===== *)
theory Playback_Recovery
  imports Playback_Reach
begin

text \<open>
  What is left of a session when mpv dies: everything the new process is told, or
  an error the listener sees.
\<close>

subsection \<open>Recovery\<close>

definition resumed_status :: "session \<Rightarrow> playback_status" where
  "resumed_status s = (if source s = None then Idle else if is_active (status s) then Playing else Paused)"

definition restore_requests :: "string option \<Rightarrow> session \<Rightarrow> mpv_command list" where
  "restore_requests url s =
     [SetGapless (if is_gapless s then ''weak'' else ''no''), SetPause True,
      SetVolume (f64_mul (session_volume s) (Fin 100)), SetSpeed (playback_rate s)]
     @ (case url of None \<Rightarrow> []
        | Some u \<Rightarrow> LoadReplaceAt u (current_time s) # (if is_active (status s) then [SetPause False] else []))"

lemma session_snapshot_ok:
  assumes "session_ok s"
  shows "snapshot_of_session s = Inr \<lparr>snapshot_source = source s, playhead_seconds = current_time s,
     volume = session_volume s, shuffle_enabled = session_shuffle s, repeat_mode = repeat_name (session_repeat s)\<rparr>"
proof -
  have "\<not> f64_negative (current_time s)" "is_finite (session_volume s)"
    using assms by (cases "current_time s"; cases "session_volume s"; auto simp: session_ok_def)+
  moreover have "repeat_name (session_repeat s) \<in> set ALLOWED_REPEAT_MODES"
    by (cases "session_repeat s") (simp_all add: ALLOWED_REPEAT_MODES_def)
  ultimately show ?thesis
    using assms by (simp add: snapshot_of_session_def snapshot_new_def validate_snapshot_def and_then_def session_ok_def)
qed

lemma repeat_of_name_name [simp]: "repeat_of_name (repeat_name r) = r"
  by (cases r) simp_all

lemma unit_ok:
  assumes "\<forall>l. \<exists>v. reply env l = Inr v"
  shows "mpv_unit (reply env) c m = (Inr (), m\<lparr>mpv_log := Request c None # mpv_log m\<rparr>)"
proof -
  obtain v where "reply env (Request c None # mpv_log m) = Inr v" using assms by blast
  then show ?thesis by (simp add: mpv_ops act_defs)
qed

lemma restore_ok:
  assumes ok: "\<forall>l. \<exists>v. reply env l = Inr v"
    and url: "url = None \<and> source s = None \<or> (\<exists>src u. source s = Some src \<and> source_url (parse env) src = Inr u \<and> url = Some u)"
    and snap: "snapshot_of_session s = Inr snap" "session_ok s"
  shows "then_act (mpv_set_gapless (reply env) (is_gapless s))
      (apply_snapshot_to_process env snap (is_active (status s)) (playback_rate s)) (mpv_started old)
    = (Inr (), mpv_started (rev (map (\<lambda>c. Request c None) (restore_requests url s)) @ old))"
proof -
  have "snap = \<lparr>snapshot_source = source s, playhead_seconds = current_time s,
     volume = session_volume s, shuffle_enabled = session_shuffle s, repeat_mode = repeat_name (session_repeat s)\<rparr>"
    using snap session_snapshot_ok by simp
  with url show ?thesis
    by (elim disjE exE conjE) (simp_all add: apply_snapshot_to_process_def mpv_set_gapless_def set_paused_def mpv_set_volume_def
        set_speed_def mpv_load_at_def clear_appended_def unit_ok [OF ok] then_act_def bind_act_def return_ok_def
        of_result_def modify_def when_act_def restore_requests_def mpv_started_def)
qed

lemma finish_ok:
  assumes ok: "\<forall>l. \<exists>v. reply env l = Inr v"
    and url: "url = None \<and> source (session q) = None
      \<or> (\<exists>src u. source (session q) = Some src \<and> source_url (parse env) src = Inr u \<and> url = Some u)"
    and snap: "snapshot_of_session (session q) = Inr snap" "session_ok (session q)"
  shows "\<exists>q'. finish_player_restart env snap (is_active (status (session q))) q = (Inr (), q')
    \<and> session q' = recovered_state env snap (is_active (status (session q))) (session q)
    \<and> mpv q' = mpv_started (rev (map (\<lambda>c. Request c None) (restore_requests url (session q))) @ mpv_log (mpv q))"
proof -
  let ?restoring = "then_act (mpv_set_gapless (reply env) (is_gapless (session q)))
    (apply_snapshot_to_process env snap (is_active (status (session q))) (playback_rate (session q)))"
  obtain q1 where w: "failing_as ''mpv-restart-failed'' (with_next_mpv ?restoring) q
      = (Inr ((), mpv_started (rev (map (\<lambda>c. Request c None) (restore_requests url (session q))) @ mpv_log (mpv q))), q1)"
    "session q1 = session q"
    by (simp add: failing_as_def match_act_def with_next_mpv_def restore_ok [OF ok url snap] return_ok_def)
  have u: "failing_as code (update g) t = (Inr (g (session t)), t\<lparr>session := g (session t), published := g (session t) # published t\<rparr>)"
    for code g t
    by (simp add: failing_as_def match_act_def update_def bind_act_def then_act_def update_shared_state_def publish_def
        return_ok_def Let_def)
  show ?thesis
    by (simp add: finish_player_restart_def bind_act_def read_state_def w u then_act_def modify_def return_ok_def)
qed


definition demo_interrupted :: player where
  "demo_interrupted = demo_player\<lparr>session := session_default\<lparr>source := Some demo_station, status := Playing,
     current_time := Fin 42\<rparr>\<rparr>"


subsection \<open>Every death\<close>

lemma reset_recovery_keeps:
  assumes "reset_adaptive_for_recovery env p = (r, p')"
  shows "session p' = session p" "mpv p' = mpv p" "life p' = life p"
  using assms
  by (auto simp: reset_adaptive_for_recovery_def failing_as_def act_result raise_err_def return_ok_def with_rate_def
      split: if_splits option.splits prod.splits)

lemma finish_outcome:
  assumes "finish_player_restart env snap b p = (r, p')"
  shows "case r of Inl _ \<Rightarrow> session p' = session p | Inr _ \<Rightarrow> session p' = recovered_state env snap b (session p)"
proof -
  have m: "session q' = session q" if "failing_as c (with_next_mpv m) q = (x, q')" for c m q q' and x :: "recovery_failure + 'x \<times> mpv"
    using that by (auto simp: failing_as_def act_result with_next_mpv_def raise_err_def return_ok_def split: prod.splits sum.splits)
  have u: "failing_as c (update g) t = (Inr (g (session t)), t\<lparr>session := g (session t), published := g (session t) # published t\<rparr>)"
    for c g t
    by (simp add: failing_as_def match_act_def update_def bind_act_def then_act_def update_shared_state_def publish_def
        return_ok_def Let_def)
  show ?thesis
    using assms m by (fastforce simp: finish_player_restart_def act_result read_state_def modify_def u return_ok_def)
qed

lemma restart_outcome:
  assumes "restart_player env snap b p = (r, p')"
  shows "case r of Inl _ \<Rightarrow> session p' = session p | Inr _ \<Rightarrow> session p' = recovered_state env snap b (session p)"
proof -
  have k: "session q' = session q"
    if "(if adaptive q = None then (Inr (), q) else failing_as c (with_rate env [] op) q) = (x, q')" for c op q q' and x :: "recovery_failure + unit"
    using that by (auto simp: failing_as_def act_result with_rate_def raise_err_def return_ok_def split: if_splits option.splits prod.splits)
  have f: "case r of Inl _ \<Rightarrow> session p' = session q | Inr _ \<Rightarrow> session p' = recovered_state env snap b (session q)"
    if "reset_reapplied_rate_after_failed_restart env (finish_player_restart env snap b) q = (r, p')" for q
  proof -
    obtain r1 t where t: "finish_player_restart env snap b q = (r1, t)" by fastforce
    obtain r2 t2 where t2: "reset_adaptive_for_recovery env t = (r2, t2)" by fastforce
    note unfold = reset_reapplied_rate_after_failed_restart_def match_act_def raise_err_def return_ok_def
    show ?thesis
    proof (cases r1)
      case (Inl e)
      with that t t2 have "session p' = session t \<and> (\<exists>e. r = Inl e)"
        using reset_recovery_keeps(1) [OF t2] by (cases r2) (auto simp: unfold)
      with Inl finish_outcome [OF t] show ?thesis by auto
    next
      case (Inr x)
      with that t finish_outcome [OF t] show ?thesis by (auto simp: unfold)
    qed
  qed
  let ?p = "p\<lparr>tick := Suc (tick p)\<rparr>"
  let ?rate = "\<lambda>q. if adaptive q = None then (Inr (), q)
    else failing_as ''mpv-restart-failed'' (with_rate env []
      (rate_apply (Option.bind (snapshot_source snap) (source_rate (upper env))))) q"
  show ?thesis
  proof (cases "restart_failure env (tick p)")
    case None
    obtain r1 t where t: "?rate ?p = (r1, t)" by fastforce
    have "(case r1 of Inl e \<Rightarrow> (Inl e, t)
      | Inr _ \<Rightarrow> reset_reapplied_rate_after_failed_restart env (finish_player_restart env snap b) t) = (r, p')"
      using assms None t by (simp add: restart_player_def bind_act_def next_tick_def then_act_def)
    with k [OF t] f [of t] show ?thesis by (cases r1; cases r) auto
  qed (use assms in \<open>auto simp: restart_player_def bind_act_def next_tick_def raise_err_def\<close>)
qed

lemma try_recover_outcome:
  assumes "try_recover_after_player_exit env p = (r, p')"
  shows "(case r of Inl _ \<Rightarrow> session p' = session p
      | Inr _ \<Rightarrow> \<exists>snap b. interrupted_session_snapshot p = Inr (snap, b) \<and> session p' = recovered_state env snap b (session p))
    \<and> (has_recovery_attempted (life p) \<longrightarrow> r \<noteq> Inr () \<and> mpv p' = mpv p)"
proof (cases "interrupted_session_snapshot p")
  case (Inl e)
  with assms show ?thesis
    by (auto simp: try_recover_after_player_exit_def bind_act_def read_state_def of_result_def)
next
  case (Inr x)
  then obtain snap b where s: "interrupted_session_snapshot p = Inr (snap, b)" by (cases x) auto
  obtain r1 t where t: "reset_adaptive_for_recovery env p = (r1, t)" by fastforce
  note k = reset_recovery_keeps [OF t]
  have x: "(case r1 of Inl e \<Rightarrow> (Inl e, t) | Inr _ \<Rightarrow> (case unexpected_player_exit snap b (life t) of
      (action, l) \<Rightarrow> apply_recovery_transition env action (t\<lparr>life := l\<rparr>))) = (r, p')"
    using assms s t by (simp add: try_recover_after_player_exit_def bind_act_def then_act_def read_state_def of_result_def)
  show ?thesis
  proof (cases "has_recovery_attempted (life p)")
    case True
    with x k s show ?thesis
      by (auto simp: unexpected_player_exit_def apply_recovery_transition_def raise_err_def split: sum.splits)
  next
    case False
    with x k s restart_outcome [of env snap b _ r p'] show ?thesis
      by (fastforce simp: unexpected_player_exit_def apply_recovery_transition_def raise_err_def split: sum.splits if_splits)
  qed
qed


definition demo_twice_dead :: player where
  "demo_twice_dead = demo_interrupted\<lparr>life := lifecycle_new\<lparr>has_recovery_attempted := True\<rparr>\<rparr>"


end
