(* ===== verification/Playback_Fades.thy ===== *)
theory Playback_Fades
  imports Playback_Reach
begin

text \<open>
  The volume of mpv across the player's fades: it is given back after a pause, a
  stop and a skip, and where it is not.
\<close>

subsection \<open>What a command leaves of the volume\<close>

definition volume_is :: "f64 \<Rightarrow> nat \<Rightarrow> player \<Rightarrow> bool" where
  "volume_is v ms p \<longleftrightarrow> session_volume (session p) = v \<and> transition_fade_ms p = ms"

named_theorems volume_intros "what leaves the volume of the session and the fade"

lemma vol_mpv [volume_intros]: "preserves (volume_is v ms) (with_mpv m)"
  by (auto simp: preserves_def with_mpv_def volume_is_def split: prod.split)

lemma vol_update: "(\<And>s. session_volume (g s) = session_volume s) \<Longrightarrow> preserves (volume_is v ms) (update g)"
  by (auto simp: preserves_def update_def update_shared_state_def publish_def act_defs volume_is_def Let_def)

lemma vol_pure [volume_intros]:
  "preserves (volume_is v ms) advance_command_revision" "preserves (volume_is v ms) next_load_revision"
  "preserves (volume_is v ms) (publish_load_revision r)" "preserves (volume_is v ms) mark_player_stable"
  "preserves (volume_is v ms) (with_queue g)" "preserves (volume_is v ms) get_session"
  "preserves (volume_is v ms) (with_rate env missing op)"
  by (auto simp: preserves_def volume_is_def advance_command_revision_def next_load_revision_def publish_load_revision_def
      mark_player_stable_def with_queue_def get_session_def with_rate_def act_defs split: prod.split option.split)

lemma vol_fail [volume_intros]: "preserves (volume_is v ms) (fail msg)" "preserves (volume_is v ms) fail_native"
  unfolding fail_native_def fail_def
  by (intro preserves_intros vol_update; simp add: set_error_state_def)+

lemma vol_rates [volume_intros]:
  "preserves (volume_is v ms) (apply_adaptive_source_rate env src)"
  "preserves (volume_is v ms) (reset_adaptive_after_failure env)"
  unfolding apply_adaptive_source_rate_def [abs_def] reset_adaptive_after_failure_def [abs_def]
  by (intro preserves_state(1,2) preserves_logged vol_pure)+

lemma vol_ramp [volume_intros]: "preserves (volume_is v ms) (ramp_loop env vs)"
  by (induction vs) (auto intro!: preserves_intros vol_mpv)

lemma preserves_case_prod_state: "(\<And>a b. preserves P (k a b)) \<Longrightarrow> preserves P (\<lambda>s. case x of (a, b) \<Rightarrow> k a b s)"
  by (cases x) simp

lemma vol_fades [volume_intros]: "preserves (volume_is v ms) (fade_in env)" "preserves (volume_is v ms) (fade_out env)"
  unfolding fade_in_def [abs_def] fade_out_def [abs_def] ramp_volume_def Let_def
  by (intro preserves_state(1,3) preserves_prod vol_ramp preserves_case_prod_state)+

lemma vol_start [volume_intros]: "preserves (volume_is v ms) (start_playback env src b)"
  unfolding start_playback_def by (intro preserves_intros volume_intros)

lemma vol_play [volume_intros]: "preserves (volume_is v ms) (play env src)"
proof -
  have "session_volume (update_playing_state prs up x b s) = session_volume s" for prs up x b s
    by (simp add: update_playing_state_def)
  then show ?thesis
    unfolding play_def play_source_def align_queue_to_source_def Let_def
    by (intro preserves_intros volume_intros vol_update)
qed

subsection \<open>Fades\<close>

abbreviation set_to :: "f64 \<Rightarrow> mpv_message" where
  "set_to v \<equiv> Request (SetVolume (f64_mul v (Fin 100))) None"

lemma restore_volume_result:
  assumes "restore_volume env p = (r, p')" and "volume_is v ms p" and "0 < ms"
  shows "r = Inr ()" and "mpv_log (mpv p') = set_to v # mpv_log (mpv p)"
proof -
  have p: "0 < transition_fade_ms p" "session_volume (session p) = v" using assms(2,3) by (auto simp: volume_is_def)
  show "r = Inr ()" using assms(1) p by (auto simp: restore_volume_def logged_def)
  show "mpv_log (mpv p') = set_to v # mpv_log (mpv p)"
    using assms(1) p
    by (cases "reply env (set_to v # mpv_log (mpv p))")
      (auto simp: restore_volume_def logged_def with_mpv_def mpv_ops act_defs)
qed

lemma ramp_result: "ramp_loop env vs p = (r, p') \<Longrightarrow> r = Inr ()"
  by (induction vs arbitrary: p) (auto simp: act_result return_ok_def)

lemma fade_out_result:
  assumes "fade_out env p = (r, p')" and "volume_is v ms p"
  shows "r = Inr ()" and "volume_is v ms p'" and "session p' = session p" and "queue p' = queue p"
proof -
  have k: "session q' = session q \<and> queue q' = queue q \<and> transition_fade_ms q' = transition_fade_ms q" if "ramp_loop env vs q = (x, q')" for vs q x q'
    using that by (induction vs arbitrary: q) (force simp: act_result return_ok_def with_mpv_def split: prod.splits)+
  have "r = Inr () \<and> session p' = session p \<and> queue p' = queue p \<and> transition_fade_ms p' = transition_fade_ms p"
    using assms(1) ramp_result k by (fastforce simp: fade_out_def ramp_volume_def Let_def split: option.splits)
  then show "r = Inr ()" "volume_is v ms p'" "session p' = session p" "queue p' = queue p"
    using assms(2) by (simp_all add: volume_is_def)
qed

lemma fail_native_log: "mpv (snd (fail_native p)) = mpv p"
  by (simp add: fail_native_def fail_def act_defs update_def update_shared_state_def publish_def Let_def)

lemma update_log: "mpv (snd (update g p)) = mpv p"
  by (simp add: act_defs update_def update_shared_state_def publish_def Let_def)

text \<open>The way back that pause and stop share.\<close>

lemma attempt_then_restore:
  assumes "volume_is v ms p" and "0 < ms"
  shows "hd (mpv_log (mpv (snd (bind_act (Effects.attempt (with_mpv m)) (\<lambda>x. then_act (restore_volume env)
      (case x of Inl _ \<Rightarrow> fail_native | Inr _ \<Rightarrow> update g)) p)))) = set_to v"
proof -
  obtain x q where q: "with_mpv m p = (x, q)" by fastforce
  have v: "volume_is v ms q" using preservesD [OF vol_mpv assms(1), of m] q by simp
  obtain y t where t: "restore_volume env q = (y :: string + unit, t)" by fastforce
  from restore_volume_result [OF t v assms(2)] q t show ?thesis
    by (cases x) (simp_all add: bind_act_def Effects.attempt_def then_act_def fail_native_log update_log)
qed

lemma pause_and_stop_restore:
  assumes "volume_is v ms p" and "0 < ms"
  shows "source (session p) \<noteq> None \<Longrightarrow> hd (mpv_log (mpv (snd (pause env p)))) = set_to v"
    and "hd (mpv_log (mpv (snd (stop env p)))) = set_to v"
proof -
  let ?q = "p\<lparr>command_revision := command_revision p + 1\<rparr>"
  have q: "volume_is v ms ?q" using assms(1) by (simp add: volume_is_def)
  obtain x t where t: "fade_out env ?q = (x :: string + unit, t)" by fastforce
  note f = fade_out_result [OF t q]
  show "hd (mpv_log (mpv (snd (pause env p)))) = set_to v" if "source (session p) \<noteq> None"
  proof -
    have "pause env p = then_act (fade_out env) (bind_act (Effects.attempt (with_mpv (set_paused (reply env) True))) (\<lambda>x.
        then_act (restore_volume env) (case x of Inl _ \<Rightarrow> fail_native | Inr _ \<Rightarrow> update (\<lambda>s. s\<lparr>status := Paused\<rparr>)))) ?q"
      using that by (auto simp: pause_def advance_command_revision_def get_session_def act_run)
    with t f(1) attempt_then_restore [OF f(2) assms(2)] show ?thesis by (simp add: act_run(7))
  qed
  have "stop env p = then_act (fade_out env) (bind_act (Effects.attempt (with_mpv (mpv_stop (reply env)))) (\<lambda>x.
      then_act (restore_volume env) (case x of Inl _ \<Rightarrow> fail_native | Inr _ \<Rightarrow> update clear_source))) ?q"
    by (simp add: stop_def advance_command_revision_def act_run)
  with t f(1) attempt_then_restore [OF f(2) assms(2)] show "hd (mpv_log (mpv (snd (stop env p)))) = set_to v"
    by (simp add: act_run(7))
qed

subsection \<open>Fading in\<close>

lemma ramp_ends:
  assumes "f64_of v = Fin v" and "0 < n" and "n < 2 ^ 53"
  shows "ramp_value (Fin 0) (Fin v) n n = Fin v"
proof -
  have "f64_of 1 = Fin 1" using f64_of_nat [of 1] by simp
  with assms show ?thesis by (simp add: ramp_value_def f64_sub_def)
qed

lemma ramp_all_sent:
  assumes "\<forall>l. \<exists>v. reply env l = Inr v"
  shows "\<exists>p'. ramp_loop env (vs @ [v]) p = (Inr (), p') \<and> hd (mpv_log (mpv p')) = set_to v"
proof (induction vs arbitrary: p)
  case Nil
  have "reply env (set_to v # mpv_log (mpv p)) \<noteq> Inl e" for e using assms by (metis sum.distinct(1))
  then show ?case
    by (cases "reply env (set_to v # mpv_log (mpv p))") (auto simp: act_defs with_mpv_def mpv_ops)
next
  case (Cons w vs)
  have "reply env (set_to w # mpv_log (mpv p)) \<noteq> Inl e" for e using assms by (metis sum.distinct(1))
  then obtain q where "with_mpv (mpv_set_volume (reply env) w) p = (Inr (), q)"
    by (cases "reply env (set_to w # mpv_log (mpv p))") (auto simp: act_defs with_mpv_def mpv_ops)
  with Cons.IH [of q] show ?case by (simp add: match_act_def)
qed

lemma fade_in_ends:
  assumes ok: "\<forall>l. \<exists>v. reply env l = Inr v" and v: "volume_is (Fin v) ms p" "f64_of v = Fin v" and ms: "0 < ms" "ms \<le> 2000"
    and "is_active (status (session p))"
  shows "\<exists>p'. fade_in env p = ((Inr () :: string + unit), p') \<and> hd (mpv_log (mpv p')) = set_to (Fin v)"
proof -
  let ?n = "fade_steps ms"
  have n: "0 < ?n" "?n < 2 ^ 53" using ms by (auto simp: fade_steps_def)
  have "map (\<lambda>step. ramp_value (Fin 0) (Fin v) step ?n) [1..<?n + 1]
      = map (\<lambda>step. ramp_value (Fin 0) (Fin v) step ?n) [1..<?n] @ [Fin v]"
    using n ramp_ends [OF v(2) n] by (simp add: Suc_leI)
  moreover have "active_fade p = Some (Fin v, ms)" using assms by (auto simp: active_fade_def volume_is_def)
  ultimately show ?thesis
    using ramp_all_sent [OF ok, of "map (\<lambda>step. ramp_value (Fin 0) (Fin v) step ?n) [1..<?n]" "Fin v" p]
    by (simp add: fade_in_def ramp_volume_def Let_def)
qed

lemma fail_native_fails: "fail_native p \<noteq> (Inr s, p')"
  by (auto simp: fail_native_def fail_def act_result raise_err_def logged_def)

lemma with_queue_result: "with_queue g p = (r, p') \<longleftrightarrow> (\<exists>q. g (queue p) = (r, q) \<and> p' = p\<lparr>queue := q, tick := tick p + 1\<rparr>)"
  by (auto simp: with_queue_def split: prod.splits)

lemma play_source_plays:
  assumes "play_source env src True False p = (Inr s, p')"
  shows "status (session p') = Playing"
  using assms unfolding play_source_def when_act_def
  by (auto simp: act_result fail_native_fails return_ok_def update_def update_shared_state_def publish_def Let_def
      update_playing_state_def publish_load_revision_def modify_def align_queue_to_source_def with_queue_result
      mark_player_stable_def split: option.splits)


definition demo_playing :: player where
  "demo_playing = demo_player\<lparr>session := session_default\<lparr>source := Some (JString ''a''), status := Playing\<rparr>,
     transition_fade_ms := 300\<rparr>"


subsection \<open>Where the volume is not given back\<close>

lemma resume_failure_leaves_silence:
  assumes "status (session p) = Paused" and "source (session p) = Some src" and "0 < transition_fade_ms p"
    and "reply env (Request (SetPause False) None # set_to (Fin 0) # mpv_log (mpv p)) = Inl e"
  shows "case play env None p of (r, p') \<Rightarrow> r = Inl PLAYBACK_FAILED_MESSAGE
    \<and> filter (\<lambda>c. \<exists>v. c = Request (SetVolume v) None) (mpv_log (mpv p'))
      = set_to (Fin 0) # filter (\<lambda>c. \<exists>v. c = Request (SetVolume v) None) (mpv_log (mpv p))"
  using assms
  by (cases "reply env (set_to (Fin 0) # mpv_log (mpv p))")
    (simp_all add: play_def play_source_def advance_command_revision_def act_defs start_playback_def with_mpv_def mpv_ops
      reset_adaptive_after_failure_def fail_native_def fail_def update_def update_shared_state_def publish_def with_rate_def
      Let_def split: option.split prod.split)

lemma resume_after_error_loads_nothing:
  assumes "status (session p) = Errored" and "source (session p) = Some src" and "\<forall>l. \<exists>v. reply env l = Inr v"
    and "parse env src = Inr decoded"
  shows "case play env None p of (r, p') \<Rightarrow> status (session p') = Playing
    \<and> mpv_log (mpv p') = Request (SetPause False) None # mpv_log (mpv p)"
proof -
  obtain v where "reply env (Request (SetPause False) None # mpv_log (mpv p)) = Inr v" using assms(3) by blast
  then show ?thesis
    using assms(1,2)
    by (auto simp: play_def play_source_def advance_command_revision_def act_defs start_playback_def with_mpv_def mpv_ops
        update_def update_shared_state_def publish_def update_playing_state_def publish_load_revision_def Let_def
        align_queue_to_source_def with_queue_def mark_player_stable_def split: prod.split sum.split)
qed

lemma direct_error_pauses_nothing:
  assumes "source (session p) = None" and "\<forall>l. \<exists>v. reply env l = Inr v"
  shows "case publish_direct_mpv_error env dev p of (r, p') \<Rightarrow> status (session p') = Paused \<and> source (session p') = None"
proof -
  have r: "\<exists>v. reply env l = Inr v" for l using assms(2) by blast
  have u: "mpv_unit (reply env) c m = (Inr (), m\<lparr>mpv_log := Request c None # mpv_log m\<rparr>)" for c m
    using r [of "Request c None # mpv_log m"] by (auto simp: mpv_ops act_defs)
  have c: "mpv_call (reply env) c m = (reply env (c # mpv_log m), m\<lparr>mpv_log := c # mpv_log m\<rparr>)" for c m
    by (simp add: mpv_call_def)
  obtain w where "reply env (Release # Request (SetAudioDevice ''auto'') None # Request (SetAudio ''no'') None
      # Request (SetPause True) None # mpv_log (mpv p)) = Inr w" using r by blast
  then show ?thesis
    using assms(1)
    by (auto simp: publish_direct_mpv_error_def with_mpv_def configure_output_def restore_system_output_def set_paused_def
        u c act_defs update_shared_state_def direct_mpv_error_def reset_output_telemetry_def Let_def
        split: prod.splits sum.splits) 
qed

end
