(* ===== verification/Text_Scan.thy ===== *)
theory Text_Scan
  imports Rust_Text
begin

text \<open>
  Searching and trimming UTF-8 text: \<open>str::find\<close> and \<open>str::contains\<close>, the Unicode
  \<open>trim\<close>, indexing that panics off a character boundary, \<open>split\<close> and \<open>join\<close> on lines.
  Text is its bytes.
\<close>

subsection \<open>Finding\<close>

definition find_str :: "string \<Rightarrow> string \<Rightarrow> nat option" where
  "find_str p s = find (\<lambda>i. prefix p (drop i s)) [0 ..< Suc (length s)]"

definition contains_str :: "string \<Rightarrow> string \<Rightarrow> bool" where
  "contains_str s p \<longleftrightarrow> find_str p s \<noteq> None"

lemma find_Some_upt: "find P [0 ..< n] = Some i \<longleftrightarrow> i < n \<and> P i \<and> (\<forall>j < i. \<not> P j)"
  by (auto simp: find_Some_iff dest: less_trans)

lemma find_str_Some:
  "find_str p s = Some i \<longleftrightarrow> i \<le> length s \<and> prefix p (drop i s) \<and> (\<forall>j < i. \<not> prefix p (drop j s))"
  unfolding find_str_def find_Some_upt by auto

lemma find_str_None: "find_str p s = None \<longleftrightarrow> (\<forall>i \<le> length s. \<not> prefix p (drop i s))"
  by (simp add: find_str_def find_None_iff del: upt_Suc) (metis less_Suc_eq_le)

lemma prefix_length: "prefix p (drop i s) \<Longrightarrow> i \<le> length s \<Longrightarrow> i + length p \<le> length s"
  by (drule prefix_length_le) simp

lemma find_str_bound: "find_str p s = Some i \<Longrightarrow> i + length p \<le> length s"
  by (auto simp: find_str_Some intro: prefix_length)

lemma find_str_split: "find_str p s = Some i \<Longrightarrow> s = take i s @ p @ drop (i + length p) s"
proof -
  assume "find_str p s = Some i"
  then obtain t where t: "drop i s = p @ t" by (auto simp: find_str_Some prefix_def)
  then have "drop (i + length p) s = t" by (metis add.commute append_eq_conv_conj drop_drop)
  with t show ?thesis by (metis append_take_drop_id)
qed

lemma prefix_single: "prefix [c] (drop i s) \<longleftrightarrow> i < length s \<and> s ! i = c"
  by (cases "i < length s") (auto simp: Cons_nth_drop_Suc [symmetric])

lemma find_str_single: "find_str [c] s = None \<longleftrightarrow> c \<notin> set s"
  by (auto simp: find_str_None prefix_single in_set_conv_nth le_less)

lemma find_str_single_Some: "find_str [c] s = Some i \<longleftrightarrow> i < length s \<and> s ! i = c \<and> c \<notin> set (take i s)"
  by (auto simp: find_str_Some prefix_single in_set_conv_nth)

subsection \<open>Trimming\<close>

text \<open>The characters of \<open>White_Space\<close>, in UTF-8.\<close>

definition WHITE :: "string list" where
  "WHITE = [[CHR 0x09], [CHR 0x0A], [CHR 0x0B], [CHR 0x0C], [CHR 0x0D], [CHR 0x20],
     [CHR 0xC2, CHR 0x85], [CHR 0xC2, CHR 0xA0], [CHR 0xE1, CHR 0x9A, CHR 0x80]]
     @ map (\<lambda>b. [CHR 0xE2, CHR 0x80, b]) [CHR 0x80, CHR 0x81, CHR 0x82, CHR 0x83, CHR 0x84, CHR 0x85,
         CHR 0x86, CHR 0x87, CHR 0x88, CHR 0x89, CHR 0x8A, CHR 0xA8, CHR 0xA9, CHR 0xAF]
     @ [[CHR 0xE2, CHR 0x81, CHR 0x9F], [CHR 0xE3, CHR 0x80, CHR 0x80]]"

definition strip_one :: "string list \<Rightarrow> string \<Rightarrow> string option" where
  "strip_one ws s = find_map (\<lambda>w. strip_prefix w s) ws"

lemma strip_one_shorter: "[] \<notin> set ws \<Longrightarrow> strip_one ws s = Some t \<Longrightarrow> length t < length s"
  unfolding strip_one_def
  by (induction ws) (auto simp: strip_prefix_Some split: option.splits)

lemma WHITE_ne: "[] \<notin> set WHITE" "[] \<notin> set (map rev WHITE)"
  by (simp_all add: WHITE_def)

function strip_all :: "string list \<Rightarrow> string \<Rightarrow> string" where
  "strip_all ws s = (if [] \<in> set ws then s
     else (case strip_one ws s of None \<Rightarrow> s | Some t \<Rightarrow> strip_all ws t))"
  by pat_completeness auto

termination
  by (relation "measure (length \<circ> snd)") (simp_all add: strip_one_shorter)

declare strip_all.simps [simp del]

definition utrim :: "string \<Rightarrow> string" where
  "utrim s = rev (strip_all (map rev WHITE) (rev (strip_all WHITE s)))"

definition trim_chars :: "char set \<Rightarrow> string \<Rightarrow> string" where
  "trim_chars cs s = rev (dropWhile (\<lambda>c. c \<in> cs) (rev (dropWhile (\<lambda>c. c \<in> cs) s)))"

lemma strip_all_id: "strip_one ws s = None \<Longrightarrow> strip_all ws s = s"
  by (simp add: strip_all.simps [of ws s])

text \<open>A first byte no white-space character has.\<close>

definition dark :: "char \<Rightarrow> bool" where
  "dark c \<longleftrightarrow> 0x21 \<le> (of_char c :: nat) \<and> (of_char c :: nat) \<le> 0x7E"

lemma WHITE_light: "list_all (\<lambda>w. w \<noteq> [] \<and> \<not> dark (hd w) \<and> \<not> dark (last w)) WHITE"
  by (simp add: WHITE_def dark_def)

lemma dark_strip:
  assumes "dark c"
  shows "strip_one WHITE (c # s) = None" and "strip_one (map rev WHITE) (c # s) = None"
proof -
  have "\<not> prefix w (c # s) \<and> \<not> prefix (rev w) (c # s)" if "w \<in> set WHITE" for w
    using WHITE_light that assms unfolding list_all_iff
    by (metis hd_rev list.sel(1) prefix_Cons rev_is_Nil_conv)
  then show "strip_one WHITE (c # s) = None" "strip_one (map rev WHITE) (c # s) = None"
    by (auto simp: strip_one_def find_map_None strip_prefix_def)
qed

lemma utrim_dark: "s \<noteq> [] \<Longrightarrow> dark (hd s) \<Longrightarrow> dark (last s) \<Longrightarrow> utrim s = s"
proof -
  assume s: "s \<noteq> []" and h: "dark (hd s)" and l: "dark (last s)"
  obtain c t where c: "s = c # t" using s by (cases s) auto
  obtain d u where d: "rev s = d # u" using s by (cases "rev s") auto
  from d have "last s = d" by (metis hd_rev list.sel(1))
  with h l c have "strip_all WHITE s = s" "strip_all (map rev WHITE) (rev s) = rev s"
    using dark_strip strip_all_id d by auto
  then show ?thesis by (simp add: utrim_def)
qed

subsection \<open>Slicing\<close>

text \<open>\<open>&s[i..]\<close>: a panic when \<open>i\<close> is past the end or inside a character.\<close>

definition is_char_boundary :: "string \<Rightarrow> nat \<Rightarrow> bool" where
  "is_char_boundary s i \<longleftrightarrow> i = length s \<or> i < length s \<and> \<not> byte_in 0x80 0xBF (s ! i)"

definition slice_from :: "string \<Rightarrow> nat \<Rightarrow> string option" where
  "slice_from s i = (if is_char_boundary s i then Some (drop i s) else None)"

definition is_ascii :: "string \<Rightarrow> bool" where
  "is_ascii s \<longleftrightarrow> list_all (\<lambda>c. (of_char c :: nat) < 128) s"

lemma ascii_boundary: "is_ascii s \<Longrightarrow> i \<le> length s \<Longrightarrow> slice_from s i = Some (drop i s)"
  by (cases "i = length s") (auto simp: slice_from_def is_char_boundary_def is_ascii_def list_all_length byte_in_def not_le
      intro: less_trans dest: spec [of _ i])

definition eq_ignore_ascii_case :: "string \<Rightarrow> string \<Rightarrow> bool" where
  "eq_ignore_ascii_case s t \<longleftrightarrow> to_ascii_lowercase s = to_ascii_lowercase t"

subsection \<open>Lines\<close>

fun join_with :: "char \<Rightarrow> string list \<Rightarrow> string" where
  "join_with c [] = []"
| "join_with c [l] = l"
| "join_with c (l # m # ls) = l @ c # join_with c (m # ls)"

lemma join_with_Cons: "ls \<noteq> [] \<Longrightarrow> join_with c (l # ls) = l @ c # join_with c ls"
  by (cases ls) auto

lemma join_split: "join_with c (split_char c s) = s"
proof (induction s)
  case (Cons x s)
  obtain p ps where p: "split_char c s = p # ps" by (cases "split_char c s") auto
  with Cons show ?case by (cases ps) (simp_all add: join_with_Cons)
qed simp

lemma split_join_with: "ls \<noteq> [] \<Longrightarrow> (\<And>l. l \<in> set ls \<Longrightarrow> c \<notin> set l) \<Longrightarrow> split_char c (join_with c ls) = ls"
  by (induction c ls rule: join_with.induct) (simp_all add: split_char_none split_char_append)

end
