(* ===== verification/Public_Hosts.thy ===== *)
theory Public_Hosts
  imports Text_Scan "HOL-Library.Word"
begin

unbundle bit_operations_syntax

text \<open>
  The addresses and hosts a radio stream may come from (the first part of
  \<open>modules/radio/stream.rs\<close>). An IPv4 address is its four octets, an IPv6 address its
  eight segments. \<open>url\<close> holds what the source reads of a parsed URL; \<open>Url::parse\<close> is
  the parameter \<open>url_parse\<close>, since the parser is a third-party package.
\<close>

subsection \<open>Addresses\<close>

datatype ipv4 = Ipv4 "8 word" "8 word" "8 word" "8 word"

datatype ipv6 = Ipv6 "16 word" "16 word" "16 word" "16 word" "16 word" "16 word" "16 word" "16 word"

datatype ip_addr = V4 ipv4 | V6 ipv6

text \<open>The predicates of \<open>std::net\<close> the source uses.\<close>

fun v4_is_loopback :: "ipv4 \<Rightarrow> bool" where
  "v4_is_loopback (Ipv4 a b c d) \<longleftrightarrow> a = 127"

fun v4_is_private :: "ipv4 \<Rightarrow> bool" where
  "v4_is_private (Ipv4 a b c d) \<longleftrightarrow> a = 10 \<or> a = 172 \<and> 16 \<le> b \<and> b \<le> 31 \<or> a = 192 \<and> b = 168"

fun v4_is_link_local :: "ipv4 \<Rightarrow> bool" where
  "v4_is_link_local (Ipv4 a b c d) \<longleftrightarrow> a = 169 \<and> b = 254"

definition v4_is_unspecified :: "ipv4 \<Rightarrow> bool" where
  "v4_is_unspecified ip \<longleftrightarrow> ip = Ipv4 0 0 0 0"

definition v6_is_loopback :: "ipv6 \<Rightarrow> bool" where
  "v6_is_loopback ip \<longleftrightarrow> ip = Ipv6 0 0 0 0 0 0 0 1"

definition v6_is_unspecified :: "ipv6 \<Rightarrow> bool" where
  "v6_is_unspecified ip \<longleftrightarrow> ip = Ipv6 0 0 0 0 0 0 0 0"

fun to_ipv4_mapped :: "ipv6 \<Rightarrow> ipv4 option" where
  "to_ipv4_mapped (Ipv6 a b c d e f g h) =
     (if a = 0 \<and> b = 0 \<and> c = 0 \<and> d = 0 \<and> e = 0 \<and> f = 0xFFFF
      then Some (Ipv4 (ucast (drop_bit 8 g)) (ucast g) (ucast (drop_bit 8 h)) (ucast h)) else None)"

fun is_blocked_v4 :: "ipv4 \<Rightarrow> bool" where
  "is_blocked_v4 (Ipv4 a b c d) \<longleftrightarrow>
     v4_is_loopback (Ipv4 a b c d) \<or> v4_is_private (Ipv4 a b c d) \<or> v4_is_link_local (Ipv4 a b c d)
     \<or> a = 224 \<and> b = 0 \<and> c = 0 \<or> v4_is_unspecified (Ipv4 a b c d)"

fun is_blocked_v6 :: "ipv6 \<Rightarrow> bool" where
  "is_blocked_v6 (Ipv6 first b c d e f g h) \<longleftrightarrow>
     v6_is_loopback (Ipv6 first b c d e f g h) \<or> first AND 0xFE00 = 0xFC00 \<or> first AND 0xFFC0 = 0xFE80
     \<or> first AND 0xFF0F = 0xFF02 \<or> v6_is_unspecified (Ipv6 first b c d e f g h)"

fun is_blocked_ip :: "ip_addr \<Rightarrow> bool" where
  "is_blocked_ip (V4 ip) = is_blocked_v4 ip"
| "is_blocked_ip (V6 ip) = (case to_ipv4_mapped ip of Some mapped \<Rightarrow> is_blocked_v4 mapped | None \<Rightarrow> is_blocked_v6 ip)"

subsection \<open>Stream URLs\<close>

datatype host = Domain string | Host_V4 ipv4 | Host_V6 ipv6

record url =
  as_str :: string
  scheme :: string
  url_host :: "host option"
  url_path :: string

datatype url_error = Relative_Url_Without_Base | Url_Error string

fun show_url_error :: "url_error \<Rightarrow> string" where
  "show_url_error Relative_Url_Without_Base = ''relative URL without a base''"
| "show_url_error (Url_Error message) = message"

type_synonym url_parser = "string \<Rightarrow> url_error + url"

definition UNSAFE :: string where
  "UNSAFE = ''unsafe stream URL''"

definition trim_end_dots :: "string \<Rightarrow> string" where
  "trim_end_dots s = rev (dropWhile (\<lambda>c. c = CHR ''.'') (rev s))"

fun check_host :: "host option \<Rightarrow> string + unit" where
  "check_host None = Inl (UNSAFE @ '': blocked host'')"
| "check_host (Some (Domain domain)) =
     (let d = to_ascii_lowercase (trim_end_dots domain) in
      if d = [] \<or> d = ''localhost'' then Inl (UNSAFE @ '': blocked host'') else Inr ())"
| "check_host (Some (Host_V4 ip)) = (if is_blocked_ip (V4 ip) then Inl (UNSAFE @ '': blocked IP'') else Inr ())"
| "check_host (Some (Host_V6 ip)) = (if is_blocked_ip (V6 ip) then Inl (UNSAFE @ '': blocked IP'') else Inr ())"

definition validate_stream_url :: "url_parser \<Rightarrow> string \<Rightarrow> string + unit" where
  "validate_stream_url url_parse raw =
     (case url_parse raw of
        Inl Relative_Url_Without_Base \<Rightarrow> Inl (UNSAFE @ '': unsupported scheme'')
      | Inl error \<Rightarrow> Inl (show_url_error error)
      | Inr parsed \<Rightarrow>
          if scheme parsed \<noteq> ''http'' \<and> scheme parsed \<noteq> ''https'' then Inl (UNSAFE @ '': unsupported scheme'')
          else check_host (url_host parsed))"

text \<open>The resolver's check of every address a name has, before any connection.\<close>

definition resolve :: "(string \<Rightarrow> string + ip_addr list) \<Rightarrow> string \<Rightarrow> string + ip_addr list" where
  "resolve lookup_host name =
     and_then (map_err (\<lambda>error. ''resolve stream host: '' @ error) (lookup_host name))
       (\<lambda>addresses. if list_ex is_blocked_ip addresses then Inl (UNSAFE @ '': resolved to blocked IP'') else Inr addresses)"

datatype redirect = Follow | Stop_With string

definition redirect_policy :: "url_parser \<Rightarrow> url list \<Rightarrow> url \<Rightarrow> redirect" where
  "redirect_policy url_parse previous next_url =
     (if 5 \<le> length previous then Stop_With ''too many redirects''
      else (case validate_stream_url url_parse (as_str next_url) of
          Inr () \<Rightarrow> Follow
        | Inl error \<Rightarrow> Stop_With error))"

subsection \<open>Which URLs are public\<close>

text \<open>The specification, by address ranges: the number of an address, and the blocks refused.\<close>

fun v4_number :: "ipv4 \<Rightarrow> nat" where
  "v4_number (Ipv4 a b c d) = ((unat a * 256 + unat b) * 256 + unat c) * 256 + unat d"

definition v4_block :: "nat \<times> nat \<times> nat \<times> nat \<Rightarrow> nat \<Rightarrow> nat \<Rightarrow> bool" where
  "v4_block = (\<lambda>(a, b, c, d) bits n.
     n div 2 ^ (32 - bits) = (((a * 256 + b) * 256 + c) * 256 + d) div 2 ^ (32 - bits))"

definition v4_reserved :: "nat \<Rightarrow> bool" where
  "v4_reserved n \<longleftrightarrow> v4_block (127, 0, 0, 0) 8 n \<or> v4_block (10, 0, 0, 0) 8 n
     \<or> v4_block (172, 16, 0, 0) 12 n \<or> v4_block (192, 168, 0, 0) 16 n
     \<or> v4_block (169, 254, 0, 0) 16 n \<or> v4_block (224, 0, 0, 0) 24 n \<or> n = 0"

definition v6_reserved :: "ipv6 \<Rightarrow> bool" where
  "v6_reserved ip \<longleftrightarrow> (case ip of Ipv6 a b c d e f g h \<Rightarrow>
       ip = Ipv6 0 0 0 0 0 0 0 0 \<or> ip = Ipv6 0 0 0 0 0 0 0 1
       \<or> 0xFC00 \<le> unat a \<and> unat a < 0xFE00 \<or> 0xFE80 \<le> unat a \<and> unat a < 0xFEC0
       \<or> 0xFF00 \<le> unat a \<and> unat a mod 16 = 2)"

lemma word16_eq_bits: "a = b \<longleftrightarrow> list_all (\<lambda>n. bit a n = bit b n) [0, 1, 2, 3, 4, 5, 6, 7, 8, 9, 10, 11, 12, 13, 14, 15]"
  for a b :: "16 word"
proof -
  have "{..<16} = set [0, 1, 2, 3, 4, 5, 6, 7, 8, 9, 10, 11, 12, 13, 14, 15 :: nat]"
    by (simp add: lessThan_nat_numeral lessThan_Suc numeral_eq_Suc) auto
  then have "(\<forall>n < 16. bit a n = bit b n) \<longleftrightarrow> list_all (\<lambda>n. bit a n = bit b n) [0, 1, 2, 3, 4, 5, 6, 7, 8, 9, 10, 11, 12, 13, 14, 15]"
    unfolding list_all_iff by (metis lessThan_iff)
  moreover have "a = b \<longleftrightarrow> (\<forall>n < 16. bit a n = bit b n)"
    by (auto simp: bit_eq_iff dest: bit_imp_le_length intro: ccontr)
  ultimately show ?thesis by simp
qed

lemma bit16: "16 \<le> n \<Longrightarrow> \<not> bit (a :: 16 word) n"
  using bit_imp_le_length [of a n] by auto

lemma segment_fc00: "a AND 0xFE00 = 0xFC00 \<longleftrightarrow> 0xFC00 \<le> unat a \<and> unat a < 0xFE00" for a :: "16 word"
proof -
  have "a AND 0xFE00 = 0xFC00 \<longleftrightarrow> drop_bit 9 a = 0x7E"
    unfolding word16_eq_bits by (simp add: bit_simps bit16)
  also have "\<dots> \<longleftrightarrow> unat a div 512 = 0x7E"
    by (simp add: word_unat_eq_iff drop_bit_eq_div unat_div_distrib)
  finally show ?thesis by linarith
qed

lemma segment_fe80: "a AND 0xFFC0 = 0xFE80 \<longleftrightarrow> 0xFE80 \<le> unat a \<and> unat a < 0xFEC0" for a :: "16 word"
proof -
  have "a AND 0xFFC0 = 0xFE80 \<longleftrightarrow> drop_bit 6 a = 0x3FA"
    unfolding word16_eq_bits by (simp add: bit_simps bit16)
  also have "\<dots> \<longleftrightarrow> unat a div 64 = 0x3FA"
    by (simp add: word_unat_eq_iff drop_bit_eq_div unat_div_distrib)
  finally show ?thesis by linarith
qed

lemma segment_ff02: "a AND 0xFF0F = 0xFF02 \<longleftrightarrow> 0xFF00 \<le> unat a \<and> unat a mod 16 = 2" for a :: "16 word"
proof -
  have "a AND 0xFF0F = 0xFF02 \<longleftrightarrow> drop_bit 8 a = 0xFF \<and> take_bit 4 a = 2"
    unfolding word16_eq_bits by (simp add: bit_simps bit16) blast
  also have "\<dots> \<longleftrightarrow> unat a div 256 = 0xFF \<and> unat a mod 16 = 2"
    by (simp add: word_unat_eq_iff drop_bit_eq_div take_bit_eq_mod unat_div_distrib unat_mod_distrib)
  moreover have "unat a < 65536" using unsigned_less [of a] by simp
  ultimately show ?thesis by linarith
qed

lemma octet_eq: "a = b \<longleftrightarrow> unat a = unat b" for a b :: "8 word"
  by (rule word_unat_eq_iff)

lemma base_div: "b < m \<Longrightarrow> (a * m + b) div m = (a :: nat)"
  by simp

lemma base_eq: "b < m \<Longrightarrow> B < m \<Longrightarrow> a * m + b = A * m + B \<longleftrightarrow> a = A \<and> b = (B :: nat)"
  by (metis base_div add_left_cancel)

lemma v4_number_div:
  assumes "(b :: nat) < 256" "c < 256" "d < 256"
  shows "(((a * 256 + b) * 256 + c) * 256 + d) div 16777216 = a"
    and "(((a * 256 + b) * 256 + c) * 256 + d) div 1048576 = a * 16 + b div 16"
    and "(((a * 256 + b) * 256 + c) * 256 + d) div 65536 = a * 256 + b"
    and "(((a * 256 + b) * 256 + c) * 256 + d) div 256 = (a * 256 + b) * 256 + c"
proof -
  define n where "n = ((a * 256 + b) * 256 + c) * 256 + d"
  have 1: "n div 256 = (a * 256 + b) * 256 + c"
    unfolding n_def by (rule base_div [OF assms(3)])
  have "n div 65536 = n div 256 div 256" by (simp flip: div_mult2_eq)
  then have 2: "n div 65536 = a * 256 + b" unfolding 1 by (simp only: base_div [OF assms(2)])
  have "n div 16777216 = n div 65536 div 256" by (simp flip: div_mult2_eq)
  then have 3: "n div 16777216 = a" unfolding 2 by (simp only: base_div [OF assms(1)])
  have "n div 1048576 = n div 65536 div 16" by (simp flip: div_mult2_eq)
  also have "\<dots> = (b + (a * 16) * 16) div 16" unfolding 2 by (simp add: add.commute)
  also have "\<dots> = a * 16 + b div 16" by (subst div_mult_self1) simp_all
  finally have 4: "n div 1048576 = a * 16 + b div 16" .
  show "(((a * 256 + b) * 256 + c) * 256 + d) div 16777216 = a"
    "(((a * 256 + b) * 256 + c) * 256 + d) div 1048576 = a * 16 + b div 16"
    "(((a * 256 + b) * 256 + c) * 256 + d) div 65536 = a * 256 + b"
    "(((a * 256 + b) * 256 + c) * 256 + d) div 256 = (a * 256 + b) * 256 + c"
    using 1 2 3 4 by (simp_all only: n_def)
qed

lemma blocked_v4_reserved: "is_blocked_v4 ip \<longleftrightarrow> v4_reserved (v4_number ip)"
proof (cases ip)
  case (Ipv4 a b c d)
  have lt: "unat a < 256" "unat b < 256" "unat c < 256" "unat d < 256"
    using unsigned_less [of a] unsigned_less [of b] unsigned_less [of c] unsigned_less [of d] by simp_all
  have [simp]: "v4_number ip div 16777216 = unat a" "v4_number ip div 1048576 = unat a * 16 + unat b div 16"
    "v4_number ip div 65536 = unat a * 256 + unat b" "v4_number ip div 256 = (unat a * 256 + unat b) * 256 + unat c"
    by (simp_all only: Ipv4 v4_number.simps v4_number_div lt)
  have "v4_block (127, 0, 0, 0) 8 (v4_number ip) \<longleftrightarrow> a = 127" "v4_block (10, 0, 0, 0) 8 (v4_number ip) \<longleftrightarrow> a = 10"
    by (simp_all add: v4_block_def octet_eq)
  moreover have "v4_block (172, 16, 0, 0) 12 (v4_number ip) \<longleftrightarrow> a = 172 \<and> 16 \<le> b \<and> b \<le> 31"
    using base_eq [of "unat b div 16" 16 1 "unat a" 172] lt(2) by (simp add: v4_block_def octet_eq word_le_nat_alt) linarith
  moreover have "v4_block (192, 168, 0, 0) 16 (v4_number ip) \<longleftrightarrow> a = 192 \<and> b = 168"
    "v4_block (169, 254, 0, 0) 16 (v4_number ip) \<longleftrightarrow> a = 169 \<and> b = 254"
    using base_eq [OF lt(2), of 168 "unat a" 192] base_eq [OF lt(2), of 254 "unat a" 169]
    by (simp_all add: v4_block_def octet_eq)
  moreover have "v4_block (224, 0, 0, 0) 24 (v4_number ip) \<longleftrightarrow> a = 224 \<and> b = 0 \<and> c = 0"
    using base_eq [OF lt(3), of 0 "unat a * 256 + unat b" "224 * 256"] base_eq [OF lt(2), of 0 "unat a" 224]
    by (simp add: v4_block_def octet_eq)
  moreover have "v4_number ip = 0 \<longleftrightarrow> a = 0 \<and> b = 0 \<and> c = 0 \<and> d = 0"
    by (simp add: Ipv4 octet_eq)
  ultimately show ?thesis
    unfolding v4_reserved_def by (auto simp: Ipv4 v4_is_unspecified_def)
qed

lemma blocked_v6_reserved: "is_blocked_v6 ip \<longleftrightarrow> v6_reserved ip"
  by (cases ip) (auto simp: v6_reserved_def segment_fc00 segment_fe80 segment_ff02 v6_is_loopback_def v6_is_unspecified_def)

end
