(* ===== verification/Go_Query.thy ===== *)
theory Go_Query
  imports Text_Scan
begin

text \<open>
  Query strings (\<open>query.rs\<close>): the pairs in order, the first value of a key, all of its
  values. Text is its bytes, so \<open>+\<close> and \<open>%\<close> escapes are read byte by byte.
\<close>

type_synonym go_query = "(string \<times> string) list"

definition hex_digit :: "char \<Rightarrow> nat option" where
  "hex_digit c =
     (let n = (of_char c :: nat) in
      if 48 \<le> n \<and> n \<le> 57 then Some (n - 48)
      else if 65 \<le> n \<and> n \<le> 70 then Some (n - 55)
      else if 97 \<le> n \<and> n \<le> 102 then Some (n - 87) else None)"

fun hex_value :: "nat \<Rightarrow> string \<Rightarrow> nat option" where
  "hex_value acc [] = Some acc"
| "hex_value acc (c # s) = (case hex_digit c of None \<Rightarrow> None | Some d \<Rightarrow> hex_value (acc * 16 + d) s)"

text \<open>\<open>u8::from_str_radix(s, 16)\<close>: a leading plus sign is taken.\<close>

definition from_str_radix_16 :: "string \<Rightarrow> nat option" where
  "from_str_radix_16 s =
     (let v = (case s of
          [] \<Rightarrow> None
        | c # rest \<Rightarrow>
            if rest = [] \<and> (c = CHR ''+'' \<or> c = CHR ''-'') then None
            else if c = CHR ''+'' then hex_value 0 rest else hex_value 0 s)
      in case v of Some n \<Rightarrow> if n < 256 then Some n else None | None \<Rightarrow> None)"

text \<open>\<open>text.get(index + 1 .. index + 3)\<close>, on what follows the percent sign.\<close>

definition two_chars :: "string \<Rightarrow> string option" where
  "two_chars rest =
     (if 2 \<le> length rest \<and> is_char_boundary rest 0 \<and> is_char_boundary rest 2 then Some (take 2 rest) else None)"

function unescape_bytes :: "string \<Rightarrow> string option" where
  "unescape_bytes [] = Some []"
| "unescape_bytes (c # rest) =
     (if c = CHR ''%'' then
        (case two_chars rest of
           None \<Rightarrow> None
         | Some hex \<Rightarrow>
             (case from_str_radix_16 hex of
                None \<Rightarrow> None
              | Some n \<Rightarrow> map_option (\<lambda>d. char_of n # d) (unescape_bytes (drop 2 rest))))
      else map_option (\<lambda>d. (if c = CHR ''+'' then CHR '' '' else c) # d) (unescape_bytes rest))"
  by pat_completeness auto

termination
  by (relation "measure length") auto

definition unescape :: "string \<Rightarrow> string option" where
  "unescape s = map_option from_utf8_lossy (unescape_bytes s)"

definition parse_pair :: "string \<Rightarrow> (string \<times> string) option" where
  "parse_pair pair =
     (let (key, value) = (case split_once (CHR ''='') pair of Some kv \<Rightarrow> kv | None \<Rightarrow> (pair, [])) in
      case unescape key of
        None \<Rightarrow> None
      | Some k \<Rightarrow> map_option (Pair k) (unescape value))"

definition parse_query :: "string \<Rightarrow> go_query" where
  "parse_query text =
     List.map_filter parse_pair (filter (\<lambda>pair. pair \<noteq> [] \<and> CHR '';'' \<notin> set pair) (split_char (CHR ''&'') text))"

definition query_get :: "go_query \<Rightarrow> string \<Rightarrow> string" where
  "query_get q key = (case find (\<lambda>(name, _). name = key) q of Some (_, value) \<Rightarrow> value | None \<Rightarrow> [])"

definition query_values :: "go_query \<Rightarrow> string \<Rightarrow> string list option" where
  "query_values q key =
     (let vs = map snd (filter (\<lambda>(name, _). name = key) q) in if vs = [] then None else Some vs)"

text \<open>Text with nothing to escape is read as it is.\<close>

definition plain :: "char \<Rightarrow> bool" where
  "plain c \<longleftrightarrow> c \<notin> {CHR ''%'', CHR ''+'', CHR ''&'', CHR '';'', CHR ''=''} \<and> byte_in 0 0x7F c"

lemma unescape_plain: "list_all plain s \<Longrightarrow> unescape s = Some s"
proof -
  assume s: "list_all plain s"
  then have "unescape_bytes s = Some s" by (induction s) (simp_all add: plain_def)
  moreover from s have "utf8_valid s" by (intro utf8_ascii) (simp add: plain_def list_all_iff)
  ultimately show ?thesis by (simp add: unescape_def from_utf8_lossy_valid)
qed

lemma parse_one:
  assumes "list_all plain k" "k \<noteq> []" "list_all plain v"
  shows "parse_query (k @ CHR ''='' # v) = [(k, v)]"
proof -
  have "CHR ''&'' \<notin> set (k @ CHR ''='' # v)" "CHR '';'' \<notin> set (k @ CHR ''='' # v)" "CHR ''='' \<notin> set k"
    using assms by (auto simp: list_all_iff plain_def)
  moreover from this(3) have "split_once (CHR ''='') (k @ CHR ''='' # v) = Some (k, v)"
    by (simp add: split_once_Some)
  ultimately show ?thesis
    using assms unescape_plain by (simp add: parse_query_def split_char_none parse_pair_def List.map_filter_def)
qed

text \<open>An escape of a sign and one digit is read like one of two digits.\<close>

lemma plus_escape: "unescape ''%+1'' = Some [CHR 0x01]"
  by code_simp

end
