(* ===== verification/Hls_Playlist.thy ===== *)
theory Hls_Playlist
  imports Public_Hosts Go_Query
begin

text \<open>
  Signed links and rewritten playlists (\<open>ResourceSigner\<close> and \<open>rewrite_playlist\<close> of
  \<open>modules/radio/stream.rs\<close>). The MAC under the signer's key, base64 and the JSON of the
  claims are third-party: a \<open>codec\<close> holds them. Rust's \<open>to_uppercase\<close> needs the Unicode
  tables and is the parameter \<open>upper\<close>. A result of \<open>None\<close> is a panic or a loop without end.
\<close>

subsection \<open>Signed links\<close>

record resource_claims =
  claim_station :: string
  claim_url :: string
  claim_expires :: int

record codec =
  mac :: "string \<Rightarrow> string"
  base64_encode :: "string \<Rightarrow> string"
  base64_decode :: "string \<Rightarrow> string option"
  claims_to_json :: "resource_claims \<Rightarrow> string"
  claims_from_json :: "string \<Rightarrow> resource_claims option"

definition HLS_RESOURCE_TOKEN_TTL_SECONDS :: int where
  "HLS_RESOURCE_TOKEN_TTL_SECONDS = 3600"

definition sign :: "codec \<Rightarrow> int \<Rightarrow> string \<Rightarrow> string \<Rightarrow> string" where
  "sign c now station_id resource_url =
     (let claims = \<lparr>claim_station = station_id, claim_url = resource_url,
            claim_expires = wrapping_add now HLS_RESOURCE_TOKEN_TTL_SECONDS\<rparr>;
          payload = base64_encode c (claims_to_json c claims)
      in payload @ CHR ''.'' # base64_encode c (mac c payload))"

definition INVALID_TOKEN :: string where
  "INVALID_TOKEN = ''invalid HLS resource token''"

definition verify :: "codec \<Rightarrow> url_parser \<Rightarrow> int \<Rightarrow> string \<Rightarrow> string \<Rightarrow> string + string" where
  "verify c url_parse now token station_id =
     and_then (ok_or INVALID_TOKEN (split_once (CHR ''.'') token)) (\<lambda>(payload, signature).
     and_then (ok_or INVALID_TOKEN (base64_decode c signature)) (\<lambda>signature.
     and_then (if signature = mac c payload then Inr () else Inl INVALID_TOKEN) (\<lambda>_.
     and_then (ok_or INVALID_TOKEN (base64_decode c payload)) (\<lambda>payload.
     and_then (ok_or INVALID_TOKEN (claims_from_json c payload)) (\<lambda>claims.
       if claim_station claims \<noteq> station_id \<or> claim_expires claims \<le> now then Inl INVALID_TOKEN
       else and_then (map_err (\<lambda>error. INVALID_TOKEN @ '': '' @ error) (validate_stream_url url_parse (claim_url claims)))
              (\<lambda>_. Inr (claim_url claims)))))))"

subsection \<open>Protected playlists\<close>

definition has_unsupported_protection :: "(string \<Rightarrow> string) \<Rightarrow> string \<Rightarrow> bool option" where
  "has_unsupported_protection upper line =
     (let u = upper line in
      if \<not> starts_with u ''#EXT-X-KEY:'' \<and> \<not> starts_with u ''#EXT-X-SESSION-KEY:'' then Some False
      else if contains_str u ''METHOD=SAMPLE-AES'' then Some True
      else (case find_str ''KEYFORMAT='' u of
          None \<Rightarrow> Some False
        | Some index \<Rightarrow>
            (case slice_from line (index + length ''KEYFORMAT='') of
               None \<Rightarrow> None
             | Some rest \<Rightarrow>
                 let key_format = trim_chars {CHR 0x22, CHR '' ''} (hd (split_char (CHR '','') rest)) in
                 Some (\<not> eq_ignore_ascii_case key_format ''identity''))))"

subsection \<open>Rewriting\<close>

datatype rewrite_error = Drm | Invalid string

fun show_rewrite_error :: "rewrite_error \<Rightarrow> string" where
  "show_rewrite_error Drm = ''DRM-protected HLS is unsupported''"
| "show_rewrite_error (Invalid message) = message"

text \<open>\<open>URI=\<close> and the opening quote.\<close>

definition URI_MARKER :: string where
  "URI_MARKER = ''URI='' @ [CHR 0x22]"

partial_function (option) rewrite_loop ::
  "(string \<Rightarrow> rewrite_error + string) \<Rightarrow> string \<Rightarrow> nat \<Rightarrow> (rewrite_error + string) option" where
  "rewrite_loop proxy line offset =
     (case find_str URI_MARKER (drop offset line) of
        None \<Rightarrow> Some (Inr line)
      | Some found \<Rightarrow>
          let start = offset + found + length URI_MARKER in
          (case find_str [CHR 0x22] (drop start line) of
             None \<Rightarrow> Some (Inl (Invalid ''invalid HLS playlist: unterminated URI attribute''))
           | Some n \<Rightarrow>
               (case proxy (take n (drop start line)) of
                  Inl e \<Rightarrow> Some (Inl e)
                | Inr rewritten \<Rightarrow>
                    rewrite_loop proxy (take start line @ rewritten @ drop (start + n) line)
                      (start + length rewritten + 1))))"

declare rewrite_loop.simps [code]

definition rewrite_uri_attributes :: "(string \<Rightarrow> rewrite_error + string) \<Rightarrow> string \<Rightarrow> (rewrite_error + string) option" where
  "rewrite_uri_attributes proxy line = rewrite_loop proxy line 0"

definition proxy_reference :: "url_parser \<Rightarrow> (url \<Rightarrow> string \<Rightarrow> url_error + url) \<Rightarrow> url \<Rightarrow> (string \<Rightarrow> string) \<Rightarrow> string
    \<Rightarrow> rewrite_error + string" where
  "proxy_reference url_parse url_join base link reference =
     and_then (map_err (\<lambda>error. Invalid (''invalid HLS playlist URL: '' @ show_url_error error)) (url_join base reference))
       (\<lambda>resolved. and_then (map_err (\<lambda>error. Invalid (''invalid HLS playlist URL: '' @ error))
            (validate_stream_url url_parse (as_str resolved)))
          (\<lambda>_. Inr (link (as_str resolved))))"

fun rewrite_lines :: "(string \<Rightarrow> string) \<Rightarrow> (string \<Rightarrow> rewrite_error + string) \<Rightarrow> string list
    \<Rightarrow> (rewrite_error + string list) option" where
  "rewrite_lines upper proxy [] = Some (Inr [])"
| "rewrite_lines upper proxy (line # rest) =
     (let here =
        (if starts_with line ''#'' then
           (case has_unsupported_protection upper line of
              None \<Rightarrow> None
            | Some True \<Rightarrow> Some (Inl Drm)
            | Some False \<Rightarrow> rewrite_uri_attributes proxy line)
         else if utrim line = [] then Some (Inr line)
         else Some (proxy (utrim line)))
      in (case here of
            None \<Rightarrow> None
          | Some (Inl e) \<Rightarrow> Some (Inl e)
          | Some (Inr new_line) \<Rightarrow>
              map_option (\<lambda>r. and_then r (\<lambda>lines. Inr (new_line # lines))) (rewrite_lines upper proxy rest)))"

definition rewrite_playlist_with :: "url_parser \<Rightarrow> (url \<Rightarrow> string \<Rightarrow> url_error + url) \<Rightarrow> (string \<Rightarrow> string)
    \<Rightarrow> string \<Rightarrow> url \<Rightarrow> (string \<Rightarrow> string) \<Rightarrow> (rewrite_error + string) option" where
  "rewrite_playlist_with url_parse url_join upper playlist base link =
     (if \<not> starts_with (utrim playlist) ''#EXTM3U'' then Some (Inl (Invalid ''invalid HLS playlist: missing EXTM3U header''))
      else map_option (\<lambda>r. and_then r (\<lambda>lines. Inr (join_with (CHR 0x0A) lines)))
             (rewrite_lines upper (proxy_reference url_parse url_join base link) (split_char (CHR 0x0A) playlist)))"

definition rewrite_playlist :: "codec \<Rightarrow> url_parser \<Rightarrow> (url \<Rightarrow> string \<Rightarrow> url_error + url) \<Rightarrow> (string \<Rightarrow> string)
    \<Rightarrow> int \<Rightarrow> string \<Rightarrow> url \<Rightarrow> string \<Rightarrow> string \<Rightarrow> (rewrite_error + string) option" where
  "rewrite_playlist c url_parse url_join upper now playlist base proxy_path station_id =
     rewrite_playlist_with url_parse url_join upper playlist base
       (\<lambda>resolved. proxy_path @ ''?resource='' @ sign c now station_id resolved)"

subsection \<open>The loop over URI attributes\<close>

text \<open>The same by recursion over what is left of the line; the loop's offset only moves along it.\<close>

function rewrite_rest :: "(string \<Rightarrow> rewrite_error + string) \<Rightarrow> string \<Rightarrow> rewrite_error + string" where
  "rewrite_rest proxy rest =
     (case find_str URI_MARKER rest of
        None \<Rightarrow> Inr rest
      | Some found \<Rightarrow>
          let after = drop (found + length URI_MARKER) rest in
          (case find_str [CHR 0x22] after of
             None \<Rightarrow> Inl (Invalid ''invalid HLS playlist: unterminated URI attribute'')
           | Some n \<Rightarrow>
               and_then (proxy (take n after)) (\<lambda>rewritten.
               and_then (rewrite_rest proxy (drop (Suc n) after)) (\<lambda>tail.
                 Inr (take (found + length URI_MARKER) rest @ rewritten @ CHR 0x22 # tail)))))"
  by pat_completeness auto

termination
  by (relation "measure (length \<circ> snd)") (auto simp: URI_MARKER_def dest!: find_str_bound)

declare rewrite_rest.simps [simp del]

lemma find_quote:
  assumes "find_str [c] s = Some n"
  shows "s = take n s @ c # drop (Suc n) s" and "n < length s" and "c \<notin> set (take n s)"
  using assms by (auto simp: find_str_single_Some id_take_nth_drop [symmetric])

lemma rewrite_loop_rest:
  "rewrite_loop proxy (before @ rest) (length before) = Some (and_then (rewrite_rest proxy rest) (\<lambda>r. Inr (before @ r)))"
proof (induction "length rest" arbitrary: before rest rule: less_induct)
  case less
  show ?case
  proof (cases "find_str URI_MARKER rest")
    case None
    then show ?thesis by (subst rewrite_loop.simps, subst rewrite_rest.simps) simp
  next
    case (Some found)
    let ?s = "found + length URI_MARKER"
    let ?after = "drop ?s rest"
    show ?thesis
    proof (cases "find_str [CHR 0x22] ?after")
      case None
      with Some show ?thesis
        by (subst rewrite_loop.simps, subst rewrite_rest.simps) (simp add: Let_def add.assoc)
    next
      case q: (Some n)
      note fq = find_quote [OF q]
      show ?thesis
      proof (cases "proxy (take n ?after)")
        case (Inl e)
        with Some q show ?thesis
          by (subst rewrite_loop.simps, subst rewrite_rest.simps) (simp add: Let_def add.assoc)
      next
        case (Inr w)
        let ?line = "before @ rest"
        let ?start = "length before + found + length URI_MARKER"
        let ?before = "before @ take ?s rest @ w @ [CHR 0x22]"
        have bound: "?s \<le> length rest" using find_str_bound [OF Some] .
        have "take ?start ?line @ w @ drop (?start + n) ?line = ?before @ drop (Suc n) ?after"
        proof -
          have "drop (?start + n) ?line = drop n ?after" by (simp add: ac_simps)
          also have "\<dots> = CHR 0x22 # drop (Suc n) ?after"
            using fq(1,2) by (metis append_eq_conv_conj length_take less_imp_le_nat min.absorb2)
          finally show ?thesis by (simp add: add.assoc)
        qed
        moreover have "?start + length w + 1 = length ?before" using bound by simp
        ultimately have "rewrite_loop proxy ?line (length before)
            = rewrite_loop proxy (?before @ drop (Suc n) ?after) (length ?before)"
          using Some q Inr by (subst rewrite_loop.simps) (simp only: Let_def option.case sum.case drop_append
              drop_all order_refl append_Nil diff_self_eq_0 drop_0 add.assoc
              drop_drop add_diff_cancel_left' le_add1)
        also have "\<dots> = Some (and_then (rewrite_rest proxy (drop (Suc n) ?after)) (\<lambda>r. Inr (?before @ r)))"
          using bound fq(2) by (intro less) (simp add: URI_MARKER_def)
        also have "\<dots> = Some (and_then (rewrite_rest proxy rest) (\<lambda>r. Inr (before @ r)))"
          using Some q Inr by (subst (2) rewrite_rest.simps) (cases "rewrite_rest proxy (drop (Suc n) ?after)"; simp add: Let_def)
        finally show ?thesis .
      qed
    qed
  qed
qed

lemma rewrite_uri_attributes_rest: "rewrite_uri_attributes proxy line = Some (rewrite_rest proxy line)"
proof -
  have "and_then r (\<lambda>x. Inr ([] @ x)) = r" for r :: "rewrite_error + string" by (cases r) simp_all
  with rewrite_loop_rest [of proxy "[]" line] show ?thesis by (simp add: rewrite_uri_attributes_def)
qed

subsection \<open>Rewriting returns\<close>

text \<open>What Rust documents of \<open>to_uppercase\<close> on ASCII: no character changes its length.\<close>

definition ascii_upper :: "(string \<Rightarrow> string) \<Rightarrow> bool" where
  "ascii_upper upper \<longleftrightarrow> (\<forall>s. is_ascii s \<longrightarrow> length (upper s) = length s)"

lemma protection_returns:
  assumes "ascii_upper upper" and "is_ascii line"
  shows "has_unsupported_protection upper line \<noteq> None"
proof -
  have "index + length ''KEYFORMAT='' \<le> length line" if "find_str ''KEYFORMAT='' (upper line) = Some index" for index
    using find_str_bound [OF that] assms by (simp add: ascii_upper_def)
  then show ?thesis
    using ascii_boundary [OF assms(2)] unfolding has_unsupported_protection_def Let_def
    by (auto split: option.split)
qed

lemma rewrite_lines_returns:
  "ascii_upper upper \<Longrightarrow> (\<And>l. l \<in> set lines \<Longrightarrow> is_ascii l) \<Longrightarrow> rewrite_lines upper proxy lines \<noteq> None"
proof (induction lines)
  case (Cons line rest)
  obtain b where "has_unsupported_protection upper line = Some b"
    using protection_returns [OF Cons.prems(1), of line] Cons.prems(2) by auto
  with Cons show ?case
    by (auto simp: Let_def rewrite_uri_attributes_rest split: bool.splits sum.splits)
qed simp

lemma split_char_subset: "l \<in> set (split_char c s) \<Longrightarrow> set l \<subseteq> set s"
  by (induction s arbitrary: l) (fastforce split: if_splits list.splits)+



text \<open>
  Outside ASCII the index found in the uppercase text need not fit the line: a character
  that grows by a byte, as U+0149 does, makes the slice end past the line.
\<close>

lemma protection_check_panics:
  assumes "upper (''#EXT-X-KEY:'' @ [CHR 0xC5, CHR 0x89] @ '',KEYFORMAT='')
    = ''#EXT-X-KEY:'' @ [CHR 0xCA, CHR 0xBC, CHR 0x4E] @ '',KEYFORMAT=''"
  shows "has_unsupported_protection upper (''#EXT-X-KEY:'' @ [CHR 0xC5, CHR 0x89] @ '',KEYFORMAT='') = None"
proof -
  let ?u = "''#EXT-X-KEY:'' @ [CHR 0xCA, CHR 0xBC, CHR 0x4E] @ '',KEYFORMAT=''"
  have "starts_with ?u ''#EXT-X-KEY:''" "\<not> contains_str ?u ''METHOD=SAMPLE-AES''" "find_str ''KEYFORMAT='' ?u = Some 15"
    "slice_from (''#EXT-X-KEY:'' @ [CHR 0xC5, CHR 0x89] @ '',KEYFORMAT='') (15 + length ''KEYFORMAT='') = None"
    by code_simp+
  then show ?thesis unfolding has_unsupported_protection_def assms Let_def by simp
qed

subsection \<open>Every reference goes through the proxy\<close>

lemma marker_length: "length URI_MARKER = 5"
  by (simp add: URI_MARKER_def)

lemma marker_at: "prefix URI_MARKER (drop i s) \<longleftrightarrow>
  i + 4 < length s \<and> s ! i = CHR ''U'' \<and> s ! (i + 1) = CHR ''R'' \<and> s ! (i + 2) = CHR ''I''
    \<and> s ! (i + 3) = CHR ''='' \<and> s ! (i + 4) = CHR 0x22"
proof (cases "i + 4 < length s")
  case True
  then have "drop i s = s ! i # s ! (i + 1) # s ! (i + 2) # s ! (i + 3) # s ! (i + 4) # drop (i + 5) s"
    by (simp add: Cons_nth_drop_Suc numeral_eq_Suc)
  with True show ?thesis by (simp add: URI_MARKER_def eq_commute) 
next
  case False
  then have "\<not> prefix URI_MARKER (drop i s)"
    by (auto simp: URI_MARKER_def dest!: prefix_length_le)
  with False show ?thesis by simp
qed

text \<open>A link that can stand in an attribute and on a line of its own.\<close>

definition link_text :: "string \<Rightarrow> bool" where
  "link_text w \<longleftrightarrow> w \<noteq> [] \<and> CHR 0x22 \<notin> set w \<and> CHR 0x0A \<notin> set w \<and> last w \<noteq> CHR ''='' \<and> hd w \<noteq> CHR ''#''"

definition attributes_linked :: "(string \<Rightarrow> bool) \<Rightarrow> string \<Rightarrow> bool" where
  "attributes_linked linked l \<longleftrightarrow>
     (\<forall>i. prefix URI_MARKER (drop i l) \<longrightarrow>
        (\<exists>w. linked w \<and> prefix (w @ [CHR 0x22]) (drop (i + length URI_MARKER) l)))"

lemma marker_places:
  assumes w: "link_text w" and first: "\<And>j. j < length a \<Longrightarrow> \<not> prefix URI_MARKER (drop j (a @ URI_MARKER))"
    and m: "prefix URI_MARKER (drop i (a @ URI_MARKER @ w @ CHR 0x22 # r))"
  shows "i = length a \<or> (\<exists>k. i = length a + 5 + length w + 1 + k \<and> prefix URI_MARKER (drop k r))"
proof -
  let ?s = "a @ URI_MARKER @ w @ CHR 0x22 # r"
  let ?p = "length a + 5 + length w"
  note whole = m
  note m = m [unfolded marker_at]
  consider "i < length a" | "i = length a" | "length a < i" "i \<le> ?p" | "?p < i" by linarith
  then show ?thesis
  proof cases
    case 1
    have "drop i ?s = drop i (a @ URI_MARKER) @ w @ CHR 0x22 # r" using 1 by simp
    moreover have "prefix URI_MARKER (drop i ?s)" using m by (simp only: marker_at)
    ultimately have "prefix URI_MARKER (drop i (a @ URI_MARKER))"
      using 1 by (metis prefixI prefix_length_prefix length_append length_drop add.commute add_diff_assoc less_imp_le_nat le_add1)
    with first [OF 1] show ?thesis by simp
  next
    case 3
    have quote: "?s ! ?p = CHR 0x22" by (simp add: nth_append URI_MARKER_def)
    have inside: "?s ! j = w ! (j - (length a + 5))" if "length a + 5 \<le> j" "j < ?p" for j
      using that by (auto simp: nth_append marker_length)
    have open_quote: "?s ! (length a + 4) = CHR 0x22" by (simp add: nth_append URI_MARKER_def)
    have "i + 4 = ?p \<or> ?p < i + 4 \<or> length a + 5 \<le> i + 4 \<and> i + 4 < ?p" using 3 by linarith
    then show ?thesis
    proof (elim disjE conjE)
      assume "length a + 5 \<le> i + 4" "i + 4 < ?p"
      with inside [of "i + 4"] m have "CHR 0x22 \<in> set w"
        by (metis add.commute less_diff_conv2 nth_mem)
      with w show ?thesis by (simp add: link_text_def)
    next
      assume p: "?p < i + 4"
      with 3 have "?p = i \<or> ?p = i + 1 \<or> ?p = i + 2 \<or> ?p = i + 3" by linarith
      with m quote show ?thesis by (elim disjE) simp_all
    next
      assume p: "i + 4 = ?p"
      show ?thesis
      proof (cases "w = []")
        case False
        then have "0 < length w" by simp
        with p have "length a + 5 \<le> i + 3" "i + 3 < ?p" "i + 3 - (length a + 5) = length w - 1" by linarith+
        with inside [of "i + 3"] have "?s ! (i + 3) = w ! (length w - 1)" by simp
        with m w False show ?thesis by (simp add: link_text_def last_conv_nth)
      qed (use w in \<open>simp add: link_text_def\<close>)
    qed
  next
    case 4
    define k where "k = i - (?p + 1)"
    have i: "i = ?p + 1 + k" using 4 by (simp add: k_def)
    have "i = k + length (a @ URI_MARKER @ w @ [CHR 0x22])" "?s = (a @ URI_MARKER @ w @ [CHR 0x22]) @ r"
      by (simp_all add: i marker_length)
    then have "drop i ?s = drop k r" by (metis append_eq_conv_conj drop_drop)
    with whole have "prefix URI_MARKER (drop k r)" by (simp only:)
    with i show ?thesis by blast
  qed simp
qed

lemma attributes_linked_piece:
  assumes w: "linked w" "link_text w" and first: "\<And>j. j < length a \<Longrightarrow> \<not> prefix URI_MARKER (drop j (a @ URI_MARKER))"
    and r: "attributes_linked linked r"
  shows "attributes_linked linked (a @ URI_MARKER @ w @ CHR 0x22 # r)"
  unfolding attributes_linked_def
proof (intro allI impI)
  let ?s = "a @ URI_MARKER @ w @ CHR 0x22 # r"
  fix i
  assume m: "prefix URI_MARKER (drop i ?s)"
  have "i = length a \<or> (\<exists>k. i = length a + 5 + length w + 1 + k \<and> prefix URI_MARKER (drop k r))"
    by (rule marker_places [OF w(2) _ m]) (rule first)
  then show "\<exists>v. linked v \<and> prefix (v @ [CHR 0x22]) (drop (i + length URI_MARKER) ?s)"
  proof (elim disjE exE conjE)
    assume "i = length a"
    then have "drop (i + length URI_MARKER) ?s = w @ CHR 0x22 # r" by simp
    with w(1) show ?thesis by (metis append.assoc append_Cons append_Nil prefixI)
  next
    fix k
    assume i: "i = length a + 5 + length w + 1 + k" and "prefix URI_MARKER (drop k r)"
    with r obtain v where v: "linked v" "prefix (v @ [CHR 0x22]) (drop (k + length URI_MARKER) r)"
      unfolding attributes_linked_def by blast
    have "i + length URI_MARKER = (k + length URI_MARKER) + length (a @ URI_MARKER @ w @ [CHR 0x22])"
      "?s = (a @ URI_MARKER @ w @ [CHR 0x22]) @ r"
      by (simp_all add: i marker_length)
    then have "drop (i + length URI_MARKER) ?s = drop (k + length URI_MARKER) r"
      by (metis append_eq_conv_conj drop_drop)
    with v show ?thesis by (metis (no_types))
  qed
qed

lemma rewrite_rest_linked:
  assumes links: "\<And>reference w. proxy reference = Inr w \<Longrightarrow> linked w \<and> link_text w"
  shows "rewrite_rest proxy rest = Inr out \<Longrightarrow> attributes_linked linked out"
proof (induction "length rest" arbitrary: rest out rule: less_induct)
  case less
  show ?case
  proof (cases "find_str URI_MARKER rest")
    case None
    then have "\<not> prefix URI_MARKER (drop i rest)" for i
      by (cases "i \<le> length rest") (auto simp: find_str_None URI_MARKER_def)
    with None less.prems show ?thesis by (subst (asm) rewrite_rest.simps) (simp add: attributes_linked_def)
  next
    case (Some found)
    let ?after = "drop (found + length URI_MARKER) rest"
    from less.prems Some obtain n w tail where n: "find_str [CHR 0x22] ?after = Some n"
      and w: "proxy (take n ?after) = Inr w" and tail: "rewrite_rest proxy (drop (Suc n) ?after) = Inr tail"
      and out: "out = take (found + length URI_MARKER) rest @ w @ CHR 0x22 # tail"
      by (subst (asm) rewrite_rest.simps) (auto simp: Let_def and_then_Inr_iff split: option.splits)
    let ?a = "take found rest"
    have split: "rest = ?a @ URI_MARKER @ ?after" using find_str_split [OF Some] .
    have a: "length ?a = found" using find_str_bound [OF Some] by simp
    then have "take (found + length URI_MARKER) rest = ?a @ URI_MARKER"
      by (metis append.assoc append_eq_conv_conj length_append split)
    with out have out: "out = ?a @ URI_MARKER @ w @ CHR 0x22 # tail" by simp
    have first: "\<not> prefix URI_MARKER (drop j (?a @ URI_MARKER))" if "j < length ?a" for j
    proof
      assume "prefix URI_MARKER (drop j (?a @ URI_MARKER))"
      moreover have "drop j ((?a @ URI_MARKER) @ ?after) = drop j (?a @ URI_MARKER) @ ?after" using that by simp
      ultimately have "prefix URI_MARKER (drop j ((?a @ URI_MARKER) @ ?after))"
        by (simp only: prefix_prefix)
      then have "prefix URI_MARKER (drop j rest)" using split by (metis append.assoc)
      with Some that a show False by (simp add: find_str_Some)
    qed
    have "length (drop (Suc n) ?after) < length rest"
      using find_quote(2) [OF n] by simp
    from less.hyps [OF this tail] links [OF w] first show ?thesis
      unfolding out by (intro attributes_linked_piece) auto
  qed
qed

lemma rewrite_rest_chars:
  assumes links: "\<And>reference w. proxy reference = Inr w \<Longrightarrow> c \<notin> set w" and c: "c \<noteq> CHR 0x22"
  shows "rewrite_rest proxy rest = Inr out \<Longrightarrow> c \<notin> set rest \<Longrightarrow> c \<notin> set out"
proof (induction "length rest" arbitrary: rest out rule: less_induct)
  case less
  show ?case
  proof (cases "find_str URI_MARKER rest")
    case None
    with less.prems show ?thesis by (subst (asm) rewrite_rest.simps) simp
  next
    case (Some found)
    let ?after = "drop (found + length URI_MARKER) rest"
    from less.prems(1) Some obtain n w tail where n: "find_str [CHR 0x22] ?after = Some n"
      and w: "proxy (take n ?after) = Inr w" and tail: "rewrite_rest proxy (drop (Suc n) ?after) = Inr tail"
      and out: "out = take (found + length URI_MARKER) rest @ w @ CHR 0x22 # tail"
      by (subst (asm) rewrite_rest.simps) (auto simp: Let_def and_then_Inr_iff split: option.splits)
    have "length (drop (Suc n) ?after) < length rest" using find_quote(2) [OF n] by simp
    moreover have "c \<notin> set (drop (Suc n) ?after)" "c \<notin> set (take (found + length URI_MARKER) rest)"
      using less.prems(2) by (auto dest: in_set_dropD in_set_takeD)
    ultimately show ?thesis using less.hyps [OF _ tail] links [OF w] c by (simp add: out)
  qed
qed

lemma rewrite_rest_hd:
  assumes "rewrite_rest proxy rest = Inr out" and "prefix [c] rest" and "c \<noteq> CHR ''U''"
  shows "prefix [c] out"
proof (cases "find_str URI_MARKER rest")
  case None
  with assms show ?thesis by (subst (asm) rewrite_rest.simps) simp
next
  case (Some found)
  then have "0 < found + length URI_MARKER" by (simp add: marker_length)
  with assms Some show ?thesis
    by (subst (asm) rewrite_rest.simps)
      (cases rest; auto simp: Let_def and_then_Inr_iff take_Cons' split: option.splits)
qed

definition public_link :: "url_parser \<Rightarrow> (string \<Rightarrow> string) \<Rightarrow> string \<Rightarrow> bool" where
  "public_link url_parse link w \<longleftrightarrow> (\<exists>u. validate_stream_url url_parse u = Inr () \<and> w = link u)"

lemma proxy_reference_link:
  "proxy_reference url_parse url_join base link reference = Inr w \<Longrightarrow> public_link url_parse link w"
  by (auto simp: proxy_reference_def and_then_Inr_iff public_link_def)

definition safe_line :: "url_parser \<Rightarrow> (string \<Rightarrow> string) \<Rightarrow> string \<Rightarrow> bool" where
  "safe_line url_parse link l \<longleftrightarrow>
     (if starts_with l ''#'' then attributes_linked (public_link url_parse link) l
      else utrim l = [] \<or> public_link url_parse link l)"

lemma rewrite_lines_safe:
  assumes links: "\<And>u. link_text (link u)"
  shows "rewrite_lines upper (proxy_reference url_parse url_join base link) lines = Some (Inr out) \<Longrightarrow>
    (\<And>l. l \<in> set lines \<Longrightarrow> CHR 0x0A \<notin> set l) \<Longrightarrow>
    length out = length lines \<and> (\<forall>l \<in> set out. safe_line url_parse link l \<and> CHR 0x0A \<notin> set l)
    \<and> (\<forall>l \<in> set lines. starts_with l ''#'' \<longrightarrow> has_unsupported_protection upper l = Some False)"
proof (induction lines arbitrary: out)
  case Nil
  then show ?case by simp
next
  case (Cons line rest)
  let ?proxy = "proxy_reference url_parse url_join base link"
  have ok: "public_link url_parse link w \<and> link_text w" if "?proxy r = Inr w" for r w
    using proxy_reference_link [OF that] links by (auto simp: public_link_def)
  have no: "CHR 0x0A \<notin> set w" if "?proxy r = Inr w" for r w
    using ok [OF that] by (simp add: link_text_def)
  from Cons.prems(1) obtain new_line tail
    where tail: "rewrite_lines upper ?proxy rest = Some (Inr tail)" and out: "out = new_line # tail"
      and here: "(if starts_with line ''#'' then
           (case has_unsupported_protection upper line of
              None \<Rightarrow> None
            | Some True \<Rightarrow> Some (Inl Drm)
            | Some False \<Rightarrow> rewrite_uri_attributes ?proxy line)
         else if utrim line = [] then Some (Inr line)
         else Some (?proxy (utrim line))) = Some (Inr new_line)"
    by (auto simp: Let_def and_then_Inr_iff split: option.splits sum.splits if_splits)
  have n: "CHR 0x0A \<notin> set line" using Cons.prems(2) by simp
  have "safe_line url_parse link new_line \<and> CHR 0x0A \<notin> set new_line
      \<and> (starts_with line ''#'' \<longrightarrow> has_unsupported_protection upper line = Some False)"
  proof (cases "starts_with line ''#''")
    case True
    with here have r: "rewrite_rest ?proxy line = Inr new_line" and d: "has_unsupported_protection upper line = Some False"
      by (auto simp: rewrite_uri_attributes_rest split: option.splits bool.splits)
    have "starts_with new_line ''#''" using rewrite_rest_hd [OF r True] by simp
    moreover have "CHR 0x0A \<notin> set new_line" using rewrite_rest_chars [OF no _ r n] by simp
    moreover have "attributes_linked (public_link url_parse link) new_line"
      by (rule rewrite_rest_linked [OF _ r]) (rule ok)
    ultimately show ?thesis using d by (simp add: safe_line_def)
  next
    case False
    show ?thesis
    proof (cases "utrim line = []")
      case True
      with False here n show ?thesis by (simp add: safe_line_def)
    next
      case d: False
      with False here have r: "?proxy (utrim line) = Inr new_line" by simp
      from ok [OF this] have p: "public_link url_parse link new_line" and t: "link_text new_line" by simp_all
      then have "\<not> starts_with new_line ''#''" by (cases new_line) (auto simp: link_text_def)
      with p no [OF r] False show ?thesis by (simp add: safe_line_def)
    qed
  qed
  with Cons.IH [OF tail] Cons.prems(2) show ?case by (auto simp: out)
qed


definition demo_url :: "string \<Rightarrow> url" where
  "demo_url s = \<lparr>as_str = s, scheme = ''https'', url_host = Some (Domain ''radio.example''), url_path = ''/live.m3u8''\<rparr>"

definition demo_playlist :: string where
  "demo_playlist = ''#EXTM3U'' @ [CHR 0x0A] @ ''#EXT-X-MAP:URI='' @ [CHR 0x22] @ ''init.mp4'' @ [CHR 0x22, CHR 0x0A] @ ''a.ts''"


subsection \<open>Links are bound to a station and an hour\<close>

text \<open>What the signer relies on: base64 and JSON are read back, and base64 has no dot.\<close>

definition codec_laws :: "codec \<Rightarrow> bool" where
  "codec_laws c \<longleftrightarrow> (\<forall>s. base64_decode c (base64_encode c s) = Some s \<and> CHR ''.'' \<notin> set (base64_encode c s))
     \<and> (\<forall>claims. claims_from_json c (claims_to_json c claims) = Some claims)"

lemma verify_signed:
  assumes "codec_laws c" and "in_i64 (now + 3600)"
  shows "verify c url_parse later (sign c now station_id u) other_id =
    (if other_id = station_id \<and> later < now + 3600
     then and_then (map_err (\<lambda>error. INVALID_TOKEN @ '': '' @ error) (validate_stream_url url_parse u)) (\<lambda>_. Inr u)
     else Inl INVALID_TOKEN)"
proof -
  let ?claims = "\<lparr>claim_station = station_id, claim_url = u, claim_expires = now + 3600\<rparr>"
  let ?payload = "base64_encode c (claims_to_json c ?claims)"
  have "sign c now station_id u = ?payload @ CHR ''.'' # base64_encode c (mac c ?payload)"
    using assms(2) by (simp add: sign_def wrapping_add_exact HLS_RESOURCE_TOKEN_TTL_SECONDS_def Let_def)
  moreover have "split_once (CHR ''.'') \<dots> = Some (?payload, base64_encode c (mac c ?payload))"
    using assms(1) by (simp add: split_once_Some codec_laws_def)
  ultimately show ?thesis
    using assms(1) by (auto simp: verify_def codec_laws_def not_le)
qed

text \<open>C22: a link of a playlist works for an hour and for its station, and nothing else works. A signed
link is accepted at any time before the hour is over and only for the station it was made for, and
gives back exactly the URL it stands for; and whatever token is accepted carries the MAC of its own
payload, names that station, has not expired, and its URL is public.\<close>

theorem signed_links_work:
  assumes "codec_laws c" and "in_i64 (now + 3600)" and "validate_stream_url url_parse u = Inr ()"
  shows "verify c url_parse later (sign c now station_id u) other_id =
      (if other_id = station_id \<and> later < now + 3600 then Inr u else Inl INVALID_TOKEN)
    \<and> (verify c url_parse later token station_id = Inr url \<longrightarrow>
        (\<exists>payload claims. token = payload @ CHR ''.'' # drop (length payload + 1) token
          \<and> base64_decode c (drop (length payload + 1) token) = Some (mac c payload)
          \<and> Option.bind (base64_decode c payload) (claims_from_json c) = Some claims
          \<and> claim_station claims = station_id \<and> later < claim_expires claims \<and> claim_url claims = url
          \<and> validate_stream_url url_parse url = Inr ()))"
proof (intro conjI impI)
  show "verify c url_parse later (sign c now station_id u) other_id =
      (if other_id = station_id \<and> later < now + 3600 then Inr u else Inl INVALID_TOKEN)"
    by (simp add: verify_signed [OF assms(1,2)] assms(3))
next
  assume "verify c url_parse later token station_id = Inr url"
  then obtain payload signature body claims where "split_once (CHR ''.'') token = Some (payload, signature)"
    and "base64_decode c signature = Some (mac c payload)" "base64_decode c payload = Some body"
    and "claims_from_json c body = Some claims" "claim_station claims = station_id" "later < claim_expires claims"
    and "claim_url claims = url" "validate_stream_url url_parse url = Inr ()"
    by (auto simp: verify_def and_then_Inr_iff split: if_splits)
  then show "\<exists>payload claims. token = payload @ CHR ''.'' # drop (length payload + 1) token
      \<and> base64_decode c (drop (length payload + 1) token) = Some (mac c payload)
      \<and> Option.bind (base64_decode c payload) (claims_from_json c) = Some claims
      \<and> claim_station claims = station_id \<and> later < claim_expires claims \<and> claim_url claims = url
      \<and> validate_stream_url url_parse url = Inr ()"
    by (intro exI [of _ payload] exI [of _ claims]) (auto simp: split_once_Some)
qed

subsection \<open>A codec\<close>

text \<open>A codec that obeys the laws, for the witnesses: two letters a byte, and fields between dots.\<close>

fun letters :: "string \<Rightarrow> string" where
  "letters [] = []"
| "letters (c # s) = char_of (97 + of_char c div 16 :: nat) # char_of (97 + of_char c mod 16 :: nat) # letters s"

fun unletters :: "string \<Rightarrow> string option" where
  "unletters [] = Some []"
| "unletters [c] = None"
| "unletters (a # b # s) =
     map_option (\<lambda>t. char_of ((of_char a - 97) * 16 + (of_char b - 97) :: nat) # t) (unletters s)"

lemma unletters_letters [simp]: "unletters (letters s) = Some s"
proof (induction s)
  case (Cons c s)
  have n: "(of_char c :: nat) < 256" by simp
  then have "(of_char c :: nat) div 16 < 16" by linarith
  then have "(of_char (char_of (97 + of_char c div 16 :: nat) :: char) :: nat) = 97 + of_char c div 16"
    "(of_char (char_of (97 + of_char c mod 16 :: nat) :: char) :: nat) = 97 + of_char c mod 16"
    by simp_all
  with Cons show ?case by simp
qed simp

lemma letters_range: "c \<in> set (letters s) \<Longrightarrow> 97 \<le> (of_char c :: nat) \<and> (of_char c :: nat) < 113"
proof (induction s)
  case (Cons d s)
  have "(of_char d :: nat) < 256" by simp
  then have "(of_char d :: nat) div 16 < 16" by linarith
  with Cons show ?case by auto
qed simp

definition claims_text :: "resource_claims \<Rightarrow> string" where
  "claims_text claims = letters (claim_station claims) @ CHR ''.'' # letters (claim_url claims) @ CHR ''.'' #
     (if claim_expires claims < 0 then CHR ''-'' else CHR ''+'') # digits (nat (abs (claim_expires claims)))"

definition claims_of_text :: "string \<Rightarrow> resource_claims option" where
  "claims_of_text s =
     (case split_once (CHR ''.'') s of
        None \<Rightarrow> None
      | Some (a, r) \<Rightarrow>
          (case split_once (CHR ''.'') r of
             None \<Rightarrow> None
           | Some (b, e) \<Rightarrow>
               (case (unletters a, unletters b, e) of
                  (Some station, Some u, sgn_char # n) \<Rightarrow>
                    Some \<lparr>claim_station = station, claim_url = u,
                      claim_expires = (if sgn_char = CHR ''-'' then - int (digits_value n) else int (digits_value n))\<rparr>
                | _ \<Rightarrow> None)))"

definition demo_codec :: codec where
  "demo_codec = \<lparr>mac = (\<lambda>s. take 4 (rev s)), base64_encode = letters, base64_decode = unletters,
     claims_to_json = claims_text, claims_from_json = claims_of_text\<rparr>"

lemma demo_codec_laws: "codec_laws demo_codec"
proof -
  have dot: "CHR ''.'' \<notin> set (letters s)" for s using letters_range [of "CHR ''.''" s] by auto
  have "claims_of_text (claims_text claims) = Some claims" for claims
  proof -
    let ?e = "(if claim_expires claims < 0 then CHR ''-'' else CHR ''+'') # digits (nat (abs (claim_expires claims)))"
    have "split_once (CHR ''.'') (claims_text claims) = Some (letters (claim_station claims), letters (claim_url claims) @ CHR ''.'' # ?e)"
      "split_once (CHR ''.'') (letters (claim_url claims) @ CHR ''.'' # ?e) = Some (letters (claim_url claims), ?e)"
      by (simp_all add: split_once_Some dot claims_text_def)
    then show ?thesis by (simp add: claims_of_text_def)
  qed
  then show ?thesis by (simp add: codec_laws_def demo_codec_def dot)
qed

lemma signed_links_work_witness:
  "verify demo_codec (\<lambda>s. Inr (demo_url s)) 4000 (sign demo_codec 1000 ''fip'' ''https://radio.example/a.ts'') ''fip''
    = Inr ''https://radio.example/a.ts''"
proof -
  have v: "validate_stream_url (\<lambda>s. Inr (demo_url s)) ''https://radio.example/a.ts'' = Inr ()" by code_simp
  have i: "in_i64 (1000 + 3600)" by code_simp
  show ?thesis
    using signed_links_work [OF demo_codec_laws i v, of 4000 "''fip''" "''fip''" "[]" "[]"] by simp
qed

end
