(* ===== verification/Go_Time.thy ===== *)
theory Go_Time
  imports Text_Scan
begin

text \<open>
  Times as the server writes them (\<open>gojson.rs\<close>): the civil date of a Unix time, RFC 3339
  and SQLite text, and what is read back of a stored time. A time is its nanoseconds since
  the epoch. The specification is the calendar itself: one day follows the other.
\<close>

subsection \<open>The civil date\<close>

definition days_per_era :: int where "days_per_era = 146097"

definition year_of_era :: "int \<Rightarrow> int" where
  "year_of_era doe = (doe - doe div 1460 + doe div 36524 - doe div 146096) div 365"

definition day_of_year :: "int \<Rightarrow> int" where
  "day_of_year doe = doe - (365 * year_of_era doe + year_of_era doe div 4 - year_of_era doe div 100)"

definition month_index :: "int \<Rightarrow> int" where
  "month_index doy = (5 * doy + 2) div 153"

definition month_of :: "int \<Rightarrow> int" where
  "month_of doy = (if month_index doy < 10 then month_index doy + 3 else month_index doy - 9)"

definition day_of :: "int \<Rightarrow> int" where
  "day_of doy = doy - (153 * month_index doy + 2) div 5 + 1"

definition civil_date :: "int \<Rightarrow> int \<times> int \<times> int" where
  "civil_date days =
     (let z = days + 719468; era = z div days_per_era; doe = z mod days_per_era;
          doy = day_of_year doe; month = month_of doy
      in (year_of_era doe + era * 400 + (if month \<le> 2 then 1 else 0), month, day_of doy))"

definition civil :: "int \<Rightarrow> (int \<times> int \<times> int) \<times> int \<times> int \<times> int" where
  "civil seconds =
     (let second_of_day = seconds mod 86400
      in (civil_date (seconds div 86400), second_of_day div 3600, second_of_day div 60 mod 60, second_of_day mod 60))"

definition split_time :: "int \<Rightarrow> int \<times> int" where
  "split_time t =
     (if 0 \<le> t then (t div 1000000000, t mod 1000000000)
      else let secs = (- t) div 1000000000; nanos = (- t) mod 1000000000
           in if nanos = 0 then (- secs, 0) else (- secs - 1, 1000000000 - nanos))"

subsection \<open>Text\<close>

text \<open>\<open>{n:0w}\<close>: at least \<open>w\<close> characters, zeros after the sign.\<close>

definition pad_zeros :: "nat \<Rightarrow> int \<Rightarrow> string" where
  "pad_zeros w i =
     (let d = digits (nat (abs i)); sign = (if i < 0 then ''-'' else [])
      in sign @ replicate (w - length sign - length d) (CHR ''0'') @ d)"

definition trim_end_zeros :: "string \<Rightarrow> string" where
  "trim_end_zeros s = rev (dropWhile (\<lambda>c. c = CHR ''0'') (rev s))"

definition fraction :: "int \<Rightarrow> string" where
  "fraction nanos = (if nanos = 0 then [] else trim_end_zeros (CHR ''.'' # pad_zeros 9 nanos))"

fun show_civil :: "char \<Rightarrow> (int \<times> int \<times> int) \<times> int \<times> int \<times> int \<Rightarrow> string" where
  "show_civil sep ((year, month, day), hour, minute, second) =
     pad_zeros 4 year @ CHR ''-'' # pad_zeros 2 month @ CHR ''-'' # pad_zeros 2 day
     @ sep # pad_zeros 2 hour @ CHR '':'' # pad_zeros 2 minute @ CHR '':'' # pad_zeros 2 second"

definition rfc3339_nano :: "int \<Rightarrow> string" where
  "rfc3339_nano t =
     (let (seconds, nanos) = split_time t in show_civil (CHR ''T'') (civil seconds) @ fraction nanos @ ''Z'')"

definition sqlite_time :: "int \<Rightarrow> string" where
  "sqlite_time t =
     (let (seconds, nanos) = split_time t in show_civil (CHR '' '') (civil seconds) @ fraction nanos @ ''+00:00'')"

text \<open>\<open>rfind(['+', '-'])\<close>.\<close>

definition rfind_sign :: "string \<Rightarrow> nat option" where
  "rfind_sign s = find (\<lambda>i. s ! i = CHR ''+'' \<or> s ! i = CHR ''-'') (rev [0 ..< length s])"

definition utrim_end :: "string \<Rightarrow> string" where
  "utrim_end s = rev (strip_all (map rev WHITE) (rev s))"

definition offset_of :: "string \<Rightarrow> string" where
  "offset_of offset =
     (let o1 = (if length offset = 5 \<and> CHR '':'' \<notin> set offset then take 3 offset @ '':'' @ drop 3 offset else offset)
      in if o1 = ''+00:00'' then ''Z'' else o1)"

definition split_zone :: "string \<Rightarrow> string \<times> string" where
  "split_zone value =
     (if value \<noteq> [] \<and> last value = CHR ''Z'' then (butlast value, ''Z'')
      else (case rfind_sign value of
          Some index \<Rightarrow>
            if 10 < index then (utrim_end (take index value), offset_of (drop index value)) else (value, ''Z'')
        | None \<Rightarrow> (value, ''Z'')))"

fun replace_first :: "char \<Rightarrow> char \<Rightarrow> string \<Rightarrow> string" where
  "replace_first a b [] = []"
| "replace_first a b (c # s) = (if c = a then b # s else c # replace_first a b s)"

definition drop_fraction_zeros :: "string \<Rightarrow> string" where
  "drop_fraction_zeros date_time =
     (case split_once (CHR ''.'') date_time of
        Some (whole, fract) \<Rightarrow>
          if trim_end_zeros fract = [] then whole else whole @ CHR ''.'' # trim_end_zeros fract
      | None \<Rightarrow> date_time)"

definition time_of_stored :: "string \<Rightarrow> string" where
  "time_of_stored stored =
     (let (date_time, zone) = split_zone (utrim stored)
      in drop_fraction_zeros (replace_first (CHR '' '') (CHR ''T'') date_time) @ zone)"

definition sqlite_time_from_stored :: "string \<Rightarrow> string" where
  "sqlite_time_from_stored stored =
     (let (date_time, zone) = split_zone (utrim stored)
      in replace_first (CHR ''T'') (CHR '' '') (drop_fraction_zeros date_time)
         @ (if zone = ''Z'' then ''+00:00'' else zone))"

subsection \<open>The calendar\<close>

definition leap :: "int \<Rightarrow> bool" where
  "leap y \<longleftrightarrow> y mod 4 = 0 \<and> (y mod 100 \<noteq> 0 \<or> y mod 400 = 0)"

definition month_days :: "int \<Rightarrow> int \<Rightarrow> int" where
  "month_days y m = (if m = 2 then if leap y then 29 else 28 else if m \<in> {4, 6, 9, 11} then 30 else 31)"

fun next_day :: "int \<times> int \<times> int \<Rightarrow> int \<times> int \<times> int" where
  "next_day (y, m, d) =
     (if d < month_days y m then (y, m, d + 1) else if m < 12 then (y, m + 1, 1) else (y + 1, 1, 1))"

text \<open>A year that begins in March: its first day in the era, and its length.\<close>

definition year_start :: "int \<Rightarrow> int" where
  "year_start y = 365 * y + y div 4 - y div 100"

definition year_length :: "int \<Rightarrow> int" where
  "year_length y = (if leap (y + 1) then 366 else 365)"

definition year_sum :: "int \<Rightarrow> int" where
  "year_sum doe = doe - doe div 1460 + doe div 36524 - doe div 146096"

lemma div_step: "0 < m \<Longrightarrow> (x + 1) div m = x div m + (if m dvd x + 1 then 1 else 0)" for x m :: int
proof -
  assume m: "0 < m"
  show ?thesis
  proof (cases "m dvd x + 1")
    case True
    then obtain k where k: "x + 1 = m * k" ..
    then have "x = m * (k - 1) + (m - 1)" by (simp add: algebra_simps)
    moreover have "(m * (k - 1) + (m - 1)) div m = k - 1" using m by (simp add: div_pos_pos_trivial)
    ultimately have "x div m = k - 1" by simp
    with True m show ?thesis by (simp add: k)
  next
    case False
    have "x + 1 = m * (x div m) + (x mod m + 1)" by (simp add: algebra_simps)
    moreover have "x mod m + 1 \<noteq> m"
    proof
      assume "x mod m + 1 = m"
      then have "x + 1 = m * (x div m + 1)" by (simp add: algebra_simps minus_mod_eq_mult_div [symmetric])
      with False show False by simp
    qed
    then have "0 \<le> x mod m + 1" "x mod m + 1 < m" using m pos_mod_bound [OF m, of x] pos_mod_sign [OF m, of x] by linarith+
    ultimately have "(x + 1) div m = x div m"
      by (metis div_pos_pos_trivial div_mult_self4 m add.commute add.right_neutral less_irrefl)
    with False show ?thesis by simp
  qed
qed

lemma year_sum_step: "year_sum doe \<le> year_sum (doe + 1)"
proof -
  have "(146096 :: int) dvd doe + 1 \<Longrightarrow> 36524 dvd doe + 1"
    by (rule dvd_trans [of _ 146096]) simp_all
  then show ?thesis by (auto simp: year_sum_def div_step)
qed

lemma year_sum_mono: "a \<le> b \<Longrightarrow> year_sum a \<le> year_sum b"
  by (induction rule: int_ge_induct) (use year_sum_step in \<open>auto intro: order_trans\<close>)

lemma year_ends: "list_all (\<lambda>y. year_of_era (year_start y) = y \<and> year_of_era (year_start y + year_length y - 1) = y) [0 .. 399]"
  by code_simp

text \<open>Every day of a March year is decoded to that year.\<close>

lemma year_decode:
  assumes "0 \<le> y" "y < 400" "0 \<le> d" "d < year_length y"
  shows "year_of_era (year_start y + d) = y" and "day_of_year (year_start y + d) = d"
proof -
  have "y \<in> set [0 .. 399]" using assms(1,2) by simp
  then have e: "year_of_era (year_start y) = y" "year_of_era (year_start y + year_length y - 1) = y"
    using year_ends unfolding list_all_iff by blast+
  have "year_sum (year_start y) \<le> year_sum (year_start y + d)"
    "year_sum (year_start y + d) \<le> year_sum (year_start y + year_length y - 1)"
    using assms(3,4) by (auto intro!: year_sum_mono)
  then have "year_of_era (year_start y) \<le> year_of_era (year_start y + d)"
    "year_of_era (year_start y + d) \<le> year_of_era (year_start y + year_length y - 1)"
    unfolding year_of_era_def year_sum_def [symmetric] by (auto intro: zdiv_mono1)
  with e show y: "year_of_era (year_start y + d) = y" by simp
  then show "day_of_year (year_start y + d) = d"
    by (simp add: day_of_year_def year_start_def)
qed

lemma year_start_next: "0 \<le> y \<Longrightarrow> y < 399 \<Longrightarrow> year_start (y + 1) = year_start y + year_length y"
proof -
  assume "0 \<le> y" and "y < 399"
  then have "(y + 1) mod 400 = y + 1" by simp
  then have "leap (y + 1) \<longleftrightarrow> 4 dvd y + 1 \<and> \<not> 100 dvd y + 1"
    using \<open>0 \<le> y\<close> by (auto simp: leap_def dvd_eq_mod_eq_0)
  moreover have "(100 :: int) dvd y + 1 \<Longrightarrow> 4 dvd y + 1"
    by (rule dvd_trans [of _ 100]) simp_all
  ultimately show ?thesis
    by (simp add: year_start_def year_length_def div_step)
qed

lemma era_end: "year_start 399 + year_length 399 = days_per_era"
  by (simp add: year_start_def year_length_def leap_def days_per_era_def)

definition in_era :: "int \<Rightarrow> int \<Rightarrow> int \<Rightarrow> bool" where
  "in_era doe y d \<longleftrightarrow> 0 \<le> y \<and> y < 400 \<and> 0 \<le> d \<and> d < year_length y \<and> doe = year_start y + d"

lemma in_era_exists: "0 \<le> doe \<Longrightarrow> doe < days_per_era \<Longrightarrow> \<exists>y d. in_era doe y d"
proof (induction doe rule: int_ge_induct)
  case base
  have "in_era 0 0 0" by (simp add: in_era_def year_start_def year_length_def)
  then show ?case by blast
next
  case (step doe)
  then obtain y d where yd: "in_era doe y d" by auto
  show ?case
  proof (cases "d + 1 < year_length y")
    case True
    with yd have "in_era (doe + 1) y (d + 1)" by (simp add: in_era_def)
    then show ?thesis by blast
  next
    case False
    with yd have d: "doe + 1 = year_start y + year_length y" by (simp add: in_era_def)
    with step.prems yd era_end have "y < 399" by (cases "y = 399") (auto simp: in_era_def)
    with yd d have "in_era (doe + 1) (y + 1) 0"
      using year_start_next [of y] by (auto simp: in_era_def year_length_def)
    then show ?thesis by blast
  qed
qed

text \<open>The months: within a March year the table steps through the calendar.\<close>

definition month_step :: "int \<Rightarrow> bool" where
  "month_step d \<longleftrightarrow>
     (d < 364 \<longrightarrow> (if day_of d < (if month_of d = 2 then 28 else if month_of d \<in> {4, 6, 9, 11} then 30 else 31)
        then month_of (d + 1) = month_of d \<and> day_of (d + 1) = day_of d + 1
        else month_of (d + 1) = (if month_of d < 12 then month_of d + 1 else 1) \<and> day_of (d + 1) = 1)
      \<and> (month_of d = 2 \<longrightarrow> day_of d < 28))"

lemma month_steps: "list_all month_step [0 .. 363]"
  by code_simp

lemma month_ends: "month_of 0 = 3" "day_of 0 = 1" "month_of 364 = 2" "day_of 364 = 28" "month_of 365 = 2" "day_of 365 = 29"
  by (simp_all add: month_of_def day_of_def month_index_def)

definition date_in :: "int \<Rightarrow> int \<Rightarrow> int \<Rightarrow> int \<times> int \<times> int" where
  "date_in era y d = (y + era * 400 + (if month_of d \<le> 2 then 1 else 0), month_of d, day_of d)"

lemma leap_era: "leap (y + 1 + era * 400) = leap (y + 1)"
proof -
  have "(y + 1 + era * 400) mod 4 = (y + 1) mod 4" "(y + 1 + era * 400) mod 100 = (y + 1) mod 100"
    "(y + 1 + era * 400) mod 400 = (y + 1) mod 400"
    using mod_mult_self1 [of "y + 1" "era * 100" 4] mod_mult_self1 [of "y + 1" "era * 4" 100]
      mod_mult_self1 [of "y + 1" era 400] by (simp_all add: mult.assoc)
  then show ?thesis by (simp add: leap_def)
qed

lemma month_of_range: "0 \<le> d \<Longrightarrow> d < 366 \<Longrightarrow> 1 \<le> month_of d \<and> month_of d \<le> 12"
  unfolding month_of_def month_index_def by auto

lemma date_step_early: "0 \<le> d \<Longrightarrow> d < 364 \<Longrightarrow> date_in era y (d + 1) = next_day (date_in era y d)"
proof -
  assume d: "0 \<le> d" "d < 364"
  then have "d \<in> set [0 .. 363]" by simp
  then have m: "month_step d" using month_steps unfolding list_all_iff by blast
  have r: "1 \<le> month_of d" "month_of d \<le> 12" using month_of_range [of d] d by simp_all
  show ?thesis
    using m d(2) r unfolding month_step_def date_in_def next_day.simps month_days_def Let_def
    by (cases "month_of d = 2") (auto split: if_splits)
qed

lemma date_step:
  assumes "0 \<le> d" and "d + 1 < year_length y"
  shows "date_in era y (d + 1) = next_day (date_in era y d)"
proof (cases "d < 364")
  case False
  with assms have d: "d = 364" and l: "leap (y + 1)" by (auto simp: year_length_def split: if_splits)
  have "date_in era y 365 = next_day (date_in era y 364)"
    using l leap_era [of y era] by (simp add: date_in_def month_ends month_days_def ac_simps)
  with d show ?thesis by simp
qed (use assms(1) date_step_early in blast)

lemma date_new_year: "date_in era (y + 1) 0 = next_day (date_in era y (year_length y - 1))"
  using leap_era [of y era] by (simp add: date_in_def month_ends month_days_def year_length_def ac_simps)

lemma civil_in_era:
  assumes "in_era ((days + 719468) mod days_per_era) y d"
  shows "civil_date days = date_in ((days + 719468) div days_per_era) y d"
  using assms year_decode [of y d] by (simp add: civil_date_def in_era_def Let_def date_in_def)

lemma year_in_era: "list_all (\<lambda>y. year_start y + year_length y \<le> days_per_era) [0 .. 399]"
  by code_simp

lemma civil_at:
  assumes "days + 719468 = days_per_era * era + doe" and "in_era doe y d"
  shows "civil_date days = date_in era y d"
proof -
  have "0 \<le> doe"
    using assms(2) by (auto simp: in_era_def year_start_def)
  moreover have "doe < days_per_era"
  proof -
    have "y \<in> set [0 .. 399]" using assms(2) by (simp add: in_era_def)
    then have "year_start y + year_length y \<le> days_per_era"
      using year_in_era unfolding list_all_iff by blast
    with assms(2) show ?thesis by (simp add: in_era_def)
  qed
  ultimately have "(days + 719468) div days_per_era = era" "(days + 719468) mod days_per_era = doe"
    using int_div_pos_eq [OF assms(1)] int_mod_pos_eq [OF assms(1)] by blast+
  with assms(2) civil_in_era [of days y d] show ?thesis by simp
qed

lemma civil_next: "civil_date (days + 1) = next_day (civil_date days)"
proof -
  define z era where "z = days + 719468" and "era = z div days_per_era"
  obtain y d where yd: "in_era (z mod days_per_era) y d"
    using in_era_exists [of "z mod days_per_era"] by (auto simp: days_per_era_def)
  have z: "days + 719468 = days_per_era * era + z mod days_per_era"
    by (simp add: era_def z_def)
  from civil_at [OF z yd] have c: "civil_date days = date_in era y d" .
  consider "d + 1 < year_length y" | "d = year_length y - 1" "y < 399" | "d = year_length y - 1" "y = 399"
    using yd by (fastforce simp: in_era_def)
  then show ?thesis
  proof cases
    case 1
    with yd z have "days + 1 + 719468 = days_per_era * era + (z mod days_per_era + 1)"
      "in_era (z mod days_per_era + 1) y (d + 1)" by (simp_all add: in_era_def)
    from civil_at [OF this] date_step [OF _ 1] yd c show ?thesis by (simp add: in_era_def)
  next
    case 2
    with yd z year_start_next [of y] have "days + 1 + 719468 = days_per_era * era + (z mod days_per_era + 1)"
      "in_era (z mod days_per_era + 1) (y + 1) 0" by (simp_all add: in_era_def year_length_def)
    from civil_at [OF this] date_new_year [of era y] 2(1) c show ?thesis by simp
  next
    case 3
    have "z mod days_per_era + 1 = days_per_era"
      using yd 3 era_end by (simp add: in_era_def)
    with z have "days + 1 + 719468 = days_per_era * (era + 1) + 0" by (simp add: algebra_simps)
    moreover have "in_era 0 0 0" by (simp add: in_era_def year_start_def year_length_def)
    ultimately have "civil_date (days + 1) = date_in (era + 1) 0 0" by (rule civil_at)
    also have "\<dots> = date_in era (399 + 1) 0" by (simp add: date_in_def)
    finally show ?thesis using date_new_year [of era 399] 3 c by simp
  qed
qed

subsection \<open>The clock\<close>

fun next_second :: "(int \<times> int \<times> int) \<times> int \<times> int \<times> int \<Rightarrow> (int \<times> int \<times> int) \<times> int \<times> int \<times> int" where
  "next_second (date, h, m, s) =
     (if s < 59 then (date, h, m, s + 1) else if m < 59 then (date, h, m + 1, 0)
      else if h < 23 then (date, h + 1, 0, 0) else (next_day date, 0, 0, 0))"

lemma civil_split:
  assumes "0 \<le> h" "h < 24" "0 \<le> m" "m < 60" "0 \<le> s" "s < 60"
  shows "civil (86400 * days + (3600 * h + 60 * m + s)) = (civil_date days, h, m, s)"
proof -
  define r where "r = 3600 * h + 60 * m + s"
  have r: "0 \<le> r" "r < 86400" using assms by (simp_all add: r_def)
  have "r = 3600 * h + (60 * m + s)" "r = 60 * (60 * h + m) + s" "60 * h + m = 60 * h + m"
    by (simp_all add: r_def)
  then have "r div 3600 = h" "r div 60 = 60 * h + m" "r mod 60 = s"
    using int_div_pos_eq [of r 3600 h "60 * m + s"] int_div_pos_eq [of r 60 "60 * h + m" s]
      int_mod_pos_eq [of r 60 "60 * h + m" s] assms by simp_all
  moreover have "(60 * h + m) mod 60 = m" using assms(3,4) by simp
  moreover have "(86400 * days + r) div 86400 = days" "(86400 * days + r) mod 86400 = r"
    using int_div_pos_eq [of "86400 * days + r" 86400 days r] int_mod_pos_eq [of "86400 * days + r" 86400 days r] r by simp_all
  ultimately show ?thesis by (simp add: civil_def Let_def r_def [symmetric])
qed

lemma second_split: "\<exists>days h m s. t = 86400 * days + (3600 * h + 60 * m + s) \<and> 0 \<le> h \<and> h < 24 \<and> 0 \<le> m \<and> m < 60 \<and> 0 \<le> s \<and> s < 60"
  for t :: int
proof (intro exI conjI)
  have a: "t = 86400 * (t div 86400) + t mod 86400" by simp
  have b: "t mod 86400 = 3600 * (t mod 86400 div 3600) + t mod 86400 mod 3600" by simp
  have c: "t mod 86400 mod 3600 = 60 * (t mod 86400 mod 3600 div 60) + t mod 86400 mod 3600 mod 60" by simp
  show "t = 86400 * (t div 86400) + (3600 * (t mod 86400 div 3600) + 60 * (t mod 86400 mod 3600 div 60) + t mod 86400 mod 3600 mod 60)"
    using a b c by linarith
  have "0 \<le> t mod 86400" "t mod 86400 < 86400" by simp_all
  then show "0 \<le> t mod 86400 div 3600" "t mod 86400 div 3600 < 24" by (simp_all add: div_less_iff_less_mult)
  have "0 \<le> t mod 86400 mod 3600" "t mod 86400 mod 3600 < 3600" by simp_all
  then show "0 \<le> t mod 86400 mod 3600 div 60" "t mod 86400 mod 3600 div 60 < 60"
    by (simp_all only: div_less_iff_less_mult pos_imp_zdiv_nonneg_iff zero_less_numeral)
qed simp_all

lemma civil_tick: "civil (t + 1) = next_second (civil t)"
proof -
  obtain days h m s where t: "t = 86400 * days + (3600 * h + 60 * m + s)"
    and r: "0 \<le> h" "h < 24" "0 \<le> m" "m < 60" "0 \<le> s" "s < 60"
    using second_split [of t] by blast
  have c: "civil t = (civil_date days, h, m, s)" unfolding t by (rule civil_split [OF r])
  consider "s < 59" | "s = 59" "m < 59" | "s = 59" "m = 59" "h < 23" | "s = 59" "m = 59" "h = 23"
    using r by linarith
  then show ?thesis
  proof cases
    case 1
    then show ?thesis using civil_split [of h m "s + 1" days] r c by (simp add: t ac_simps)
  next
    case 2
    then show ?thesis using civil_split [of h "m + 1" 0 days] r c by (simp add: t algebra_simps)
  next
    case 3
    then show ?thesis using civil_split [of "h + 1" 0 0 days] r c by (simp add: t algebra_simps)
  next
    case 4
    then show ?thesis using civil_split [of 0 0 0 "days + 1"] c civil_next [of days] by (simp add: t algebra_simps)
  qed
qed

lemma civil_epoch: "civil 0 = ((1970, 1, 1), 0, 0, 0)"
  by code_simp

text \<open>C27: the server's clock is the calendar. The epoch is midnight of 1 January 1970, and a second
later is always the next second of the proleptic Gregorian calendar, over leap days, century years
and the time before the epoch, for every time there is: the closed formula \<open>civil\<close> takes from
Hinnant agrees with counting.\<close>

theorem civil_calendar:
  "civil 0 = ((1970, 1, 1), 0, 0, 0) \<and> civil (t + 1) = next_second (civil t)"
  using civil_epoch civil_tick by blast

subsection \<open>Stored times read back\<close>

lemma pad_digits:
  assumes "0 \<le> i"
  shows "list_all is_digit (pad_zeros w i)" and "pad_zeros w i \<noteq> []" and "w \<le> length (pad_zeros w i)"
  using assms digits_digits [of "nat i"] by (auto simp: pad_zeros_def Let_def list_all_iff is_digit_def)

definition date_chars :: "string \<Rightarrow> bool" where
  "date_chars s \<longleftrightarrow> s \<noteq> [] \<and> is_digit (hd s) \<and> is_digit (last s) \<and> list_all (\<lambda>c. is_digit c \<or> c = CHR ''-'') s"

definition clock_chars :: "string \<Rightarrow> bool" where
  "clock_chars s \<longleftrightarrow> s \<noteq> [] \<and> is_digit (last s) \<and> list_all (\<lambda>c. is_digit c \<or> c = CHR '':'') s"

lemma digits_ends: "list_all is_digit s \<Longrightarrow> s \<noteq> [] \<Longrightarrow> is_digit (hd s) \<and> is_digit (last s)"
  by (auto simp: list_all_iff)

lemma list_all_weaken: "list_all P s \<Longrightarrow> (\<And>c. P c \<Longrightarrow> Q c) \<Longrightarrow> list_all Q s"
  by (simp add: list_all_iff)

lemma show_civil_parts:
  assumes "0 \<le> year" "0 \<le> month" "0 \<le> day" "0 \<le> hour" "0 \<le> minute" "0 \<le> second"
  obtains date clock where "\<And>sep. show_civil sep ((year, month, day), hour, minute, second) = date @ sep # clock"
    and "date_chars date" and "clock_chars clock" and "10 \<le> length date"
proof
  let ?date = "pad_zeros 4 year @ CHR ''-'' # pad_zeros 2 month @ CHR ''-'' # pad_zeros 2 day"
  let ?clock = "pad_zeros 2 hour @ CHR '':'' # pad_zeros 2 minute @ CHR '':'' # pad_zeros 2 second"
  note p = pad_digits [OF assms(1), of 4] pad_digits [OF assms(2), of 2] pad_digits [OF assms(3), of 2]
    pad_digits [OF assms(4), of 2] pad_digits [OF assms(5), of 2] pad_digits [OF assms(6), of 2]
  show "show_civil sep ((year, month, day), hour, minute, second) = ?date @ sep # ?clock" for sep by simp
  show "date_chars ?date"
    using p(1-9) digits_ends [OF p(1,2)] digits_ends [OF p(7,8)]
    unfolding date_chars_def by (auto intro: list_all_weaken)
  show "clock_chars ?clock"
    using p(10-18) digits_ends [OF p(16,17)] unfolding clock_chars_def by (auto intro: list_all_weaken)
  show "10 \<le> length ?date" using p(3,6,9) by simp
qed

lemma fraction_parts:
  assumes "0 \<le> nanos" "nanos < 1000000000"
  shows "fraction nanos = [] \<or> (\<exists>f. fraction nanos = CHR ''.'' # f \<and> f \<noteq> [] \<and> list_all is_digit f \<and> trim_end_zeros f = f)"
proof (cases "nanos = 0")
  case False
  define s where "s = pad_zeros 9 nanos"
  have d: "list_all is_digit s" using pad_digits(1) [OF assms(1)] by (simp add: s_def)
  have "\<exists>c \<in> set s. c \<noteq> CHR ''0''"
  proof (rule ccontr)
    assume "\<not> ?thesis"
    moreover have "set (digits (nat nanos)) \<subseteq> set s" using assms(1) by (simp add: s_def pad_zeros_def Let_def)
    ultimately have "\<And>x. x \<in> set (digits (nat nanos)) \<Longrightarrow> x = CHR ''0''" by blast
    then have "digits (nat nanos) = replicate (length (digits (nat nanos))) (CHR ''0'')"
      by (intro replicate_eqI) simp_all
    then have "digits_value (digits (nat nanos)) = digits_value (replicate (length (digits (nat nanos))) (CHR ''0''))"
      by (rule arg_cong)
    moreover have "digits_value (replicate n (CHR ''0'')) = 0" for n
      by (induction n) (simp_all add: digits_value_def)
    ultimately show False using False assms(1) by simp
  qed
  then obtain c where c: "c \<in> set s" "c \<noteq> CHR ''0''" by blast
  define f where "f = rev (dropWhile (\<lambda>c. c = CHR ''0'') (rev s))"
  have w: "dropWhile (\<lambda>c. c = CHR ''0'') (rev s) \<noteq> []" using c by auto
  have "fraction nanos = CHR ''.'' # f"
    using False w by (simp add: fraction_def trim_end_zeros_def f_def s_def [symmetric] dropWhile_append2 dropWhile_append)
  moreover have "f \<noteq> []" using w by (simp add: f_def)
  moreover have "list_all is_digit f"
    using d set_dropWhileD by (fastforce simp: f_def list_all_iff)
  moreover have "trim_end_zeros f = f"
    by (simp add: trim_end_zeros_def f_def)
  ultimately show ?thesis by blast
qed (simp add: fraction_def)

lemma rfind_sign_snoc: "x \<noteq> CHR ''+'' \<Longrightarrow> x \<noteq> CHR ''-'' \<Longrightarrow> rfind_sign (s @ [x]) = rfind_sign s"
  unfolding rfind_sign_def by (auto simp: nth_append intro!: find_cong)

lemma rfind_sign_at:
  assumes "c = CHR ''+'' \<or> c = CHR ''-''" and "\<And>x. x \<in> set q \<Longrightarrow> x \<noteq> CHR ''+'' \<and> x \<noteq> CHR ''-''"
  shows "rfind_sign (p @ c # q) = Some (length p)"
  using assms(2)
proof (induction q rule: rev_induct)
  case Nil
  show ?case using assms(1) by (auto simp: rfind_sign_def)
next
  case (snoc x q)
  then show ?case using rfind_sign_snoc [of x "p @ c # q"] by simp
qed

lemma digit_dark: "is_digit c \<Longrightarrow> dark c"
  by (simp add: is_digit_def dark_def)

text \<open>A date and time as it is stored, read back.\<close>

lemma stored_parts:
  assumes d: "date_chars date" and c: "clock_chars clock" and l: "10 \<le> length date"
    and f: "frac = [] \<or> (\<exists>f. frac = CHR ''.'' # f \<and> f \<noteq> [] \<and> list_all is_digit f \<and> trim_end_zeros f = f)"
    and sep: "sep = CHR '' '' \<or> sep = CHR ''T''"
  shows "split_zone (utrim (date @ sep # clock @ frac @ ''+00:00'')) = (date @ sep # clock @ frac, ''Z'')"
    and "drop_fraction_zeros (date @ sep # clock @ frac) = date @ sep # clock @ frac"
    and "replace_first (CHR '' '') (CHR ''T'') (date @ sep # clock @ frac) = date @ CHR ''T'' # clock @ frac"
    and "replace_first (CHR ''T'') (CHR '' '') (date @ sep # clock @ frac) = date @ CHR '' '' # clock @ frac"
proof -
  let ?p = "date @ sep # clock @ frac"
  have ends: "?p \<noteq> []" "dark (hd ?p)" "dark (last ?p)"
    using d c f by (auto simp: date_chars_def clock_chars_def list_all_iff last_append digit_dark)
  have whole: "date @ sep # clock @ frac @ ''+00:00'' = ?p @ CHR ''+'' # ''00:00''"
    by simp
  have "utrim (?p @ CHR ''+'' # ''00:00'') = ?p @ CHR ''+'' # ''00:00''"
    using ends(2) d by (intro utrim_dark) (simp_all add: dark_def date_chars_def)
  moreover have "rfind_sign (?p @ CHR ''+'' # ''00:00'') = Some (length ?p)"
    by (rule rfind_sign_at) auto
  moreover have "utrim_end ?p = ?p"
  proof -
    obtain x y where "rev ?p = x # y" using ends(1) by (metis rev.simps(1) rev_rev_ident list.exhaust)
    moreover from this have "x = last ?p" by (metis hd_rev list.sel(1))
    ultimately show ?thesis
      using ends(3) dark_strip(2) strip_all_id unfolding utrim_end_def by (metis rev_rev_ident)
  qed
  moreover have "10 < length ?p" using l by simp
  ultimately show "split_zone (utrim (date @ sep # clock @ frac @ ''+00:00'')) = (?p, ''Z'')"
    unfolding whole by (simp add: split_zone_def offset_of_def del: append_assoc)
  have no: "CHR ''.'' \<notin> set date" "CHR '' '' \<notin> set date" "CHR ''T'' \<notin> set date" "CHR ''.'' \<notin> set clock"
    using d c by (auto simp: date_chars_def clock_chars_def list_all_iff is_digit_def)
  have r: "x \<notin> set date \<Longrightarrow> replace_first x y (date @ t) = date @ replace_first x y t" for x y t
    by (induction date) auto
  have rest: "x \<notin> set t \<Longrightarrow> replace_first x y t = t" for x y t
    by (induction t) auto
  have no2: "CHR '' '' \<notin> set (clock @ frac)" "CHR ''T'' \<notin> set (clock @ frac)"
    using c f by (auto simp: clock_chars_def list_all_iff dest!: bspec) (auto simp: is_digit_def)
  show "replace_first (CHR '' '') (CHR ''T'') ?p = date @ CHR ''T'' # clock @ frac"
    "replace_first (CHR ''T'') (CHR '' '') ?p = date @ CHR '' '' # clock @ frac"
    using sep by (auto simp only: r no rest [OF no2(1)] rest [OF no2(2)] replace_first.simps if_True if_False
        char.inject simp_thms not_False_eq_True)
  show "drop_fraction_zeros ?p = ?p"
  proof (cases "frac = []")
    case True
    then have "split_once (CHR ''.'') ?p = None" using no sep by (auto simp: split_once_None)
    then show ?thesis by (simp add: drop_fraction_zeros_def)
  next
    case False
    with f obtain g where g: "frac = CHR ''.'' # g" "g \<noteq> []" "trim_end_zeros g = g" by blast
    have "split_once (CHR ''.'') ?p = Some (date @ sep # clock, g)"
      using no sep by (auto simp: split_once_Some g(1))
    with g show ?thesis by (simp add: drop_fraction_zeros_def)
  qed
qed

lemma month_day_range: "list_all (\<lambda>d. 1 \<le> month_of d \<and> 1 \<le> day_of d) [0 .. 365]"
  by code_simp

lemma civil_ranges:
  assumes "civil s = ((year, month, day), hour, minute, second)"
  shows "1 \<le> month" "1 \<le> day" "0 \<le> hour" "0 \<le> minute" "0 \<le> second"
proof -
  define z where "z = s div 86400 + 719468"
  obtain y d where yd: "in_era (z mod days_per_era) y d"
    using in_era_exists [of "z mod days_per_era"] by (auto simp: days_per_era_def)
  then have "d \<in> set [0 .. 365]" by (auto simp: in_era_def year_length_def split: if_splits)
  then have "1 \<le> month_of d" "1 \<le> day_of d" using month_day_range unfolding list_all_iff by blast+
  moreover have "civil_date (s div 86400) = date_in (z div days_per_era) y d"
    using civil_in_era yd by (simp add: z_def)
  ultimately show "1 \<le> month" "1 \<le> day" "0 \<le> hour" "0 \<le> minute" "0 \<le> second"
    using assms by (auto simp: civil_def date_in_def Let_def)
qed

lemma split_time_range: "split_time t = (s, n) \<Longrightarrow> 0 \<le> n \<and> n < 1000000000"
  by (auto simp: split_time_def Let_def split: if_splits)

text \<open>a time survives the database. What \<open>sqlite_time\<close> stores, \<open>time\<close> reads back as exactly the
JSON that would have been written at once, fraction and zone included, and storing what was read
stores the same text again; for every time of the years from 0 on.\<close>

theorem stored_time_survives:
  assumes "0 \<le> fst (fst (civil (fst (split_time t))))"
  shows "time_of_stored (sqlite_time t) = rfc3339_nano t \<and> sqlite_time_from_stored (sqlite_time t) = sqlite_time t"
proof -
  obtain s n where sn: "split_time t = (s, n)" by (cases "split_time t")
  obtain year month day hour minute second where c: "civil s = ((year, month, day), hour, minute, second)"
    by (cases "civil s") auto
  have y: "0 \<le> year" using assms by (simp add: sn c)
  have r: "0 \<le> month" "0 \<le> day" "0 \<le> hour" "0 \<le> minute" "0 \<le> second"
    using civil_ranges [OF c] by simp_all
  obtain date clock where w: "\<And>sep. show_civil sep ((year, month, day), hour, minute, second) = date @ sep # clock"
    and d: "date_chars date" "clock_chars clock" "10 \<le> length date"
    using show_civil_parts [OF y r] by metis
  have f: "fraction n = [] \<or> (\<exists>f. fraction n = CHR ''.'' # f \<and> f \<noteq> [] \<and> list_all is_digit f \<and> trim_end_zeros f = f)"
    using split_time_range [OF sn] by (intro fraction_parts) simp_all
  have q: "sqlite_time t = date @ CHR '' '' # clock @ fraction n @ ''+00:00''"
    unfolding sqlite_time_def by (simp add: sn c w del: show_civil.simps)
  have "rfc3339_nano t = date @ CHR ''T'' # clock @ fraction n @ ''Z''"
    unfolding rfc3339_nano_def by (simp add: sn c w del: show_civil.simps)
  with stored_parts [OF d f, of "CHR '' ''"] stored_parts(2) [OF d f, of "CHR ''T''"] show ?thesis
    unfolding time_of_stored_def sqlite_time_from_stored_def q by simp
qed

lemma stored_time_survives_witness:
  "time_of_stored (sqlite_time 1792141930120000000) = rfc3339_nano 1792141930120000000
   \<and> sqlite_time_from_stored (sqlite_time 1792141930120000000) = sqlite_time 1792141930120000000"
proof (rule stored_time_survives)
  show "0 \<le> fst (fst (civil (fst (split_time 1792141930120000000))))" by code_simp
qed

end
