(* ===== verification/Icy_Stream.thy ===== *)
theory Icy_Stream
  imports Go_Time
begin

text \<open>
  What plays on a radio station (\<open>NowPlayingCache\<close>, \<open>parse_icy_metadata\<close> and \<open>IcyParser\<close>
  of \<open>modules/radio/stream.rs\<close>). A time is its nanoseconds since the epoch; the clock is an
  argument. A chunk of the stream is its bytes.
\<close>

subsection \<open>Now playing\<close>

record now_playing =
  title :: string
  artist :: string
  raw :: string
  updated_at :: "string option"
  stale :: bool

definition default_now_playing :: now_playing where
  "default_now_playing = \<lparr>title = [], artist = [], raw = [], updated_at = None, stale = False\<rparr>"

definition NOW_PLAYING_STALE_AFTER :: int where
  "NOW_PLAYING_STALE_AFTER = 60000000000"

type_synonym now_playing_cache = "string \<rightharpoonup> now_playing \<times> int option"

definition cache_set :: "now_playing_cache \<Rightarrow> string \<Rightarrow> now_playing \<Rightarrow> int option \<Rightarrow> now_playing_cache" where
  "cache_set items station_id now updated = items(station_id \<mapsto> (now, updated))"

text \<open>\<open>elapsed\<close> is an error when the time lies in the future.\<close>

definition cache_get :: "int \<Rightarrow> now_playing_cache \<Rightarrow> string \<Rightarrow> now_playing option" where
  "cache_get clock items station_id =
     (case items station_id of
        None \<Rightarrow> None
      | Some (now, updated) \<Rightarrow>
          Some (case updated of
              None \<Rightarrow> now
            | Some u \<Rightarrow> if u \<le> clock \<and> NOW_PLAYING_STALE_AFTER < clock - u then now\<lparr>stale := True\<rparr> else now))"

text \<open>\<open>StreamTitle=\<close> and the quote.\<close>

definition TITLE_PREFIX :: string where
  "TITLE_PREFIX = ''StreamTitle='' @ [CHR 0x27]"

definition parse_stream_title :: "string \<Rightarrow> string" where
  "parse_stream_title text =
     (case find_str TITLE_PREFIX text of
        None \<Rightarrow> []
      | Some start \<Rightarrow>
          let rest = drop (start + length TITLE_PREFIX) text in
          (case find_str [CHR 0x27, CHR '';''] rest of Some end_at \<Rightarrow> utrim (take end_at rest) | None \<Rightarrow> utrim rest))"

text \<open>\<open>split_once\<close> at a string.\<close>

definition split_at_str :: "string \<Rightarrow> string \<Rightarrow> (string \<times> string) option" where
  "split_at_str sep s = map_option (\<lambda>i. (take i s, drop (i + length sep) s)) (find_str sep s)"

definition parse_icy_metadata :: "int \<Rightarrow> string \<Rightarrow> (now_playing \<times> int option) option" where
  "parse_icy_metadata clock text =
     (let text = trim_chars {CHR 0x00, CHR '' ''} text in
      if text = [] then None
      else let stream_title = parse_stream_title text in
        if stream_title = [] then Some (default_now_playing\<lparr>raw := text\<rparr>, None)
        else let (performer, track) =
              (case split_at_str '' - '' stream_title of
                 Some (a, t) \<Rightarrow> (utrim a, utrim t)
               | None \<Rightarrow> ([], stream_title))
          in Some (\<lparr>title = track, artist = performer, raw = stream_title,
                 updated_at = Some (rfc3339_nano clock), stale = False\<rparr>, Some clock))"

subsection \<open>The parser\<close>

record icy_parser =
  metaint :: nat
  remaining :: nat
  pending :: string

definition icy_new :: "nat \<Rightarrow> icy_parser" where
  "icy_new n = \<lparr>metaint = n, remaining = n, pending = []\<rparr>"

text \<open>
  The loop of \<open>feed\<close>: the audio found and the blocks reported. It ends for a parser that
  was made with a positive \<open>metaint\<close>; with 0 every pass still takes at least the length byte.
\<close>

function feed_loop :: "icy_parser \<Rightarrow> string \<Rightarrow> string list \<Rightarrow> icy_parser \<times> string \<times> string list" where
  "feed_loop p audio reports =
     (if 0 < remaining p then
        let take_n = min (remaining p) (length (pending p)) in
        if take_n = 0 then (p, audio, reports)
        else feed_loop (p\<lparr>pending := drop take_n (pending p), remaining := remaining p - take_n\<rparr>)
               (audio @ take take_n (pending p)) reports
      else (case pending p of
          [] \<Rightarrow> (p, audio, reports)
        | length_byte # rest \<Rightarrow>
            let block_length = of_char length_byte * 16 in
            if length (pending p) < 1 + block_length then (p, audio, reports)
            else feed_loop (p\<lparr>pending := drop (1 + block_length) (pending p), remaining := metaint p\<rparr>) audio
                   (if 0 < block_length
                    then reports @ [from_utf8_lossy (take block_length rest)] else reports)))"
  by pat_completeness auto

termination
  by (relation "measure (\<lambda>(p, _, _). length (pending p))") auto

declare feed_loop.simps [simp del]

definition feed :: "icy_parser \<Rightarrow> string \<Rightarrow> icy_parser \<times> string \<times> string list" where
  "feed p chunk = feed_loop (p\<lparr>pending := pending p @ chunk\<rparr>) [] []"

text \<open>A whole body, chunk by chunk, as the proxy maps it.\<close>

fun feed_all :: "icy_parser \<Rightarrow> string list \<Rightarrow> icy_parser \<times> string \<times> string list" where
  "feed_all p [] = (p, [], [])"
| "feed_all p (chunk # chunks) =
     (let (p', audio, reports) = feed p chunk; (q, audio', reports') = feed_all p' chunks
      in (q, audio @ audio', reports @ reports'))"

subsection \<open>Chunks do not matter\<close>

definition join3 :: "string \<Rightarrow> string list \<Rightarrow> icy_parser \<times> string \<times> string list \<Rightarrow> icy_parser \<times> string \<times> string list" where
  "join3 audio reports r = (case r of (p, a, m) \<Rightarrow> (p, audio @ a, reports @ m))"

lemma join3_simps [simp]:
  "join3 a m (p, b, n) = (p, a @ b, m @ n)" "join3 [] [] r = r"
  "join3 a m (join3 b n r) = join3 (a @ b) (m @ n) r"
  by (simp_all add: join3_def split: prod.split)

lemma feed_loop_audio:
  assumes "0 < remaining p" "pending p \<noteq> []"
  shows "feed_loop p audio reports =
    feed_loop (p\<lparr>pending := drop (remaining p) (pending p), remaining := remaining p - length (pending p)\<rparr>)
      (audio @ take (remaining p) (pending p)) reports"
proof -
  have "min (remaining p) (length (pending p)) \<noteq> 0" using assms by simp
  moreover have "drop (min (remaining p) (length (pending p))) (pending p) = drop (remaining p) (pending p)"
    "take (min (remaining p) (length (pending p))) (pending p) = take (remaining p) (pending p)"
    "remaining p - min (remaining p) (length (pending p)) = remaining p - length (pending p)"
    by (simp_all add: min_def)
  ultimately show ?thesis
    using assms(1) by (subst feed_loop.simps) (simp only: if_True if_False Let_def)
qed

lemma feed_loop_wait: "0 < remaining p \<Longrightarrow> pending p = [] \<Longrightarrow> feed_loop p audio reports = (p, audio, reports)"
  by (subst feed_loop.simps) simp

lemma feed_loop_empty: "pending p = [] \<Longrightarrow> feed_loop p audio reports = (p, audio, reports)"
  by (subst feed_loop.simps) simp

lemma feed_loop_short:
  "remaining p = 0 \<Longrightarrow> pending p = b # rest \<Longrightarrow> length rest < of_char b * 16 \<Longrightarrow> feed_loop p audio reports = (p, audio, reports)"
  by (subst feed_loop.simps) simp

definition report_of :: "string \<Rightarrow> string list" where
  "report_of block = (if block = [] then [] else [from_utf8_lossy block])"

lemma feed_loop_block:
  assumes "remaining p = 0" "pending p = b # rest" "of_char b * 16 \<le> length rest"
  shows "feed_loop p audio reports =
    feed_loop (p\<lparr>pending := drop (of_char b * 16) rest, remaining := metaint p\<rparr>) audio
      (reports @ report_of (take (of_char b * 16) rest))"
  using assms by (subst feed_loop.simps) (auto simp: report_of_def Let_def)

lemma icy_swap: "p\<lparr>remaining := a, pending := b\<rparr> = p\<lparr>pending := b, remaining := a\<rparr>"
  by simp

lemma icy_cases [case_names empty audio short block]:
  fixes P :: "icy_parser \<Rightarrow> bool"
  assumes "\<And>p. pending p = [] \<Longrightarrow> P p"
    and "\<And>p. 0 < remaining p \<Longrightarrow> pending p \<noteq> [] \<Longrightarrow>
      P (p\<lparr>pending := drop (remaining p) (pending p), remaining := remaining p - length (pending p)\<rparr>) \<Longrightarrow> P p"
    and "\<And>p b rest. remaining p = 0 \<Longrightarrow> pending p = b # rest \<Longrightarrow> length rest < of_char b * 16 \<Longrightarrow> P p"
    and "\<And>p b rest. remaining p = 0 \<Longrightarrow> pending p = b # rest \<Longrightarrow> of_char b * 16 \<le> length rest \<Longrightarrow>
      P (p\<lparr>pending := drop (of_char b * 16) rest, remaining := metaint p\<rparr>) \<Longrightarrow> P p"
  shows "P p"
proof (induction "length (pending p)" arbitrary: p rule: less_induct)
  case less
  show ?case
  proof (cases "pending p")
    case (Cons b rest)
    show ?thesis
    proof (cases "remaining p = 0")
      case True
      with Cons less assms(3,4) [of p b rest] show ?thesis by (cases "length rest < of_char b * 16") (simp_all add: not_less)
    qed (use less assms(2) [of p] Cons in simp)
  qed (use assms(1) in simp)
qed

lemma feed_loop_join: "feed_loop p audio reports = join3 audio reports (feed_loop p [] [])"
proof (induction p arbitrary: audio reports rule: icy_cases)
  case (empty p)
  then show ?case by (simp add: feed_loop_empty)
next
  case (audio p)
  show ?case
    unfolding feed_loop_audio [OF audio(1,2)]
    by (subst (1 2) audio(3)) simp
next
  case (short p b rest)
  then show ?case by (simp add: feed_loop_short)
next
  case (block p b rest)
  show ?case
    unfolding feed_loop_block [OF block(1-3)]
    by (subst (1 2) block(4)) simp
qed

text \<open>More bytes after a loop are the same as having had them from the start.\<close>

definition more :: "icy_parser \<Rightarrow> string \<Rightarrow> icy_parser" where
  "more p s = p\<lparr>pending := pending p @ s\<rparr>"

lemma more_simps [simp]: "pending (more p s) = pending p @ s" "remaining (more p s) = remaining p" "metaint (more p s) = metaint p"
  by (simp_all add: more_def)

definition continue_with :: "string \<Rightarrow> icy_parser \<times> string \<times> string list \<Rightarrow> icy_parser \<times> string \<times> string list" where
  "continue_with s r = (case r of (p, a, m) \<Rightarrow> join3 a m (feed_loop (more p s) [] []))"

lemma continue_join: "continue_with s (join3 a m r) = join3 a m (continue_with s r)"
  by (simp add: continue_with_def join3_def split: prod.split)

lemma feed_loop_more: "feed_loop (more p s) [] [] = continue_with s (feed_loop p [] [])"
proof (induction p rule: icy_cases)
  case (empty p)
  then show ?case by (simp add: feed_loop_empty continue_with_def)
next
  case (audio p)
  let ?q = "p\<lparr>pending := drop (remaining p) (pending p), remaining := remaining p - length (pending p)\<rparr>"
  have left: "feed_loop p [] [] = join3 (take (remaining p) (pending p)) [] (feed_loop ?q [] [])"
    unfolding feed_loop_audio [OF audio(1,2)] by (subst feed_loop_join) simp
  have "feed_loop (more p s) [] [] = join3 (take (remaining p) (pending p)) [] (feed_loop (more ?q s) [] [])"
  proof (cases "length (pending p) < remaining p \<and> s \<noteq> []")
    case True
    have m: "0 < remaining (more p s)" "pending (more p s) \<noteq> []" using audio(1) True by simp_all
    have q: "0 < remaining (more ?q s)" "pending (more ?q s) \<noteq> []" using True by simp_all
    show ?thesis
      unfolding feed_loop_audio [OF m] feed_loop_audio [OF q] using True
      by (subst (1 2) feed_loop_join) (simp add: more_def)
  next
    case False
    have m: "0 < remaining (more p s)" "pending (more p s) \<noteq> []" using audio(1,2) by simp_all
    from False show ?thesis
      unfolding feed_loop_audio [OF m] by (subst feed_loop_join) (auto simp: more_def not_less icy_swap)
  qed
  then show ?case unfolding left continue_join audio(3) .
next
  case (short p b rest)
  then show ?case by (simp add: feed_loop_short continue_with_def)
next
  case (block p b rest)
  let ?q = "p\<lparr>pending := drop (of_char b * 16) rest, remaining := metaint p\<rparr>"
  let ?m = "report_of (take (of_char b * 16) rest)"
  have left: "feed_loop p [] [] = join3 [] ?m (feed_loop ?q [] [])"
    unfolding feed_loop_block [OF block(1-3)] by (subst feed_loop_join) simp
  have m: "remaining (more p s) = 0" "pending (more p s) = b # (rest @ s)" "of_char b * 16 \<le> length (rest @ s)"
    using block(1-3) by simp_all
  have "feed_loop (more p s) [] [] = join3 [] ?m (feed_loop (more ?q s) [] [])"
    unfolding feed_loop_block [OF m] using block(3) by (subst feed_loop_join) (simp add: more_def icy_swap)
  then show ?case unfolding left continue_join block(4) .
qed

text \<open>A drained parser is one whose loop has nothing left to do.\<close>

definition drained :: "icy_parser \<Rightarrow> bool" where
  "drained p \<longleftrightarrow> feed_loop p [] [] = (p, [], [])"

lemma feed_is_more: "feed p chunk = feed_loop (more p chunk) [] []"
  by (simp add: feed_def more_def)

lemma feed_loop_fst: "fst (feed_loop p audio reports) = fst (feed_loop p [] [])"
  by (subst feed_loop_join) (simp add: join3_def split: prod.split)

lemma feed_drains: "drained (fst (feed_loop p [] []))"
proof (induction p rule: icy_cases)
  case (empty p)
  then show ?case by (simp add: feed_loop_empty drained_def)
next
  case (audio p)
  show ?case unfolding feed_loop_audio [OF audio(1,2)] by (subst feed_loop_fst) (rule audio(3))
next
  case (short p b rest)
  then show ?case by (simp add: feed_loop_short drained_def)
next
  case (block p b rest)
  show ?case unfolding feed_loop_block [OF block(1-3)] by (subst feed_loop_fst) (rule block(4))
qed

lemma icy_new_drained: "drained (icy_new n)"
  by (simp add: drained_def feed_loop_empty icy_new_def)

lemma feed_append: "feed p (x @ y) = (case feed p x of (q, a, m) \<Rightarrow> join3 a m (feed q y))"
proof -
  have "more p (x @ y) = more (more p x) y" by (simp add: more_def)
  then show ?thesis
    by (simp only: feed_is_more feed_loop_more [of "more p x" y] continue_with_def)
qed

lemma feed_all_concat: "drained p \<Longrightarrow> feed_all p chunks = feed p (concat chunks)"
proof (induction chunks arbitrary: p)
  case Nil
  then show ?case by (simp add: feed_is_more more_def drained_def)
next
  case (Cons chunk chunks)
  obtain q a m where f: "feed p chunk = (q, a, m)" by (cases "feed p chunk") auto
  then have "drained q" using feed_drains [of "more p chunk"] by (simp add: feed_is_more)
  from Cons.IH [OF this] f show ?case
    by (simp add: feed_append join3_def split: prod.split)
qed

subsection \<open>The format\<close>

text \<open>
  What a station sends: after every \<open>metaint\<close> bytes of audio a length byte and that many
  sixteens of metadata; the last piece of audio may be cut short.
\<close>

definition frame_bytes :: "string \<times> string \<Rightarrow> string" where
  "frame_bytes = (\<lambda>(audio, block). audio @ char_of (length block div 16) # block)"

definition icy_frame :: "nat \<Rightarrow> string \<times> string \<Rightarrow> bool" where
  "icy_frame n = (\<lambda>(audio, block). length audio = n \<and> 16 dvd length block \<and> length block < 4096)"

lemma feed_loop_frame:
  assumes p: "remaining p = n" "metaint p = n" "0 < n" and f: "icy_frame n (audio, block)"
  shows "feed_loop (p\<lparr>pending := frame_bytes (audio, block) @ s\<rparr>) [] []
    = join3 audio (report_of block) (feed_loop (p\<lparr>pending := s\<rparr>) [] [])"
proof -
  let ?b = "char_of (length block div 16) :: char"
  have l: "length audio = n" and b: "of_char ?b * 16 = length block"
    using f by (auto simp: icy_frame_def)
  have "feed_loop (p\<lparr>pending := frame_bytes (audio, block) @ s\<rparr>) [] []
    = feed_loop (p\<lparr>pending := ?b # block @ s, remaining := 0\<rparr>) audio []"
    using p l by (subst feed_loop_audio) (simp_all add: frame_bytes_def)
  also have "\<dots> = feed_loop (p\<lparr>pending := s\<rparr>) audio (report_of block)"
  proof -
    let ?q = "p\<lparr>pending := ?b # block @ s, remaining := 0\<rparr>"
    have "feed_loop ?q audio [] = feed_loop (?q\<lparr>pending := drop (of_char ?b * 16) (block @ s), remaining := metaint ?q\<rparr>) audio
        ([] @ report_of (take (of_char ?b * 16) (block @ s)))"
      by (rule feed_loop_block) (simp_all add: b del: of_char_of)
    moreover have "?q\<lparr>pending := s, remaining := n\<rparr> = p\<lparr>pending := s\<rparr>"
      using p(1) by (cases p) simp
    ultimately show ?thesis by (simp add: b p(2) del: of_char_of)
  qed
  finally show ?thesis by (subst (asm) (2) feed_loop_join)
qed

lemma feed_frames:
  assumes p: "remaining p = n" "metaint p = n" "0 < n" and fs: "list_all (icy_frame n) frames" and t: "length tail \<le> n"
  shows "feed_loop (p\<lparr>pending := concat (map frame_bytes frames) @ tail\<rparr>) [] []
    = (p\<lparr>pending := [], remaining := n - length tail\<rparr>, concat (map fst frames) @ tail, concat (map (report_of \<circ> snd) frames))"
  using fs
proof (induction frames)
  case Nil
  show ?case
  proof (cases "tail = []")
    case True
    then show ?thesis using p(1) by (cases p) (simp add: feed_loop_empty)
  next
    case False
    then show ?thesis
      using p t by (subst feed_loop_audio) (simp_all add: feed_loop_empty)
  qed
next
  case (Cons f frames)
  obtain audio block where f: "f = (audio, block)" by (cases f)
  from Cons.prems have "icy_frame n (audio, block)" by (simp add: f)
  from feed_loop_frame [OF p this, of "concat (map frame_bytes frames) @ tail"] Cons show ?case
    by (simp add: f)
qed

text \<open>C25: a listener hears exactly the station's audio. However the network cuts an ICY stream into
chunks, also inside a length byte or a block of metadata, what the proxy passes on is the audio of
every frame in order, the last piece as far as it has come, with no byte of metadata in it; and each
nonempty block of metadata is reported once, in order, as text.\<close>

theorem icy_audio_exact:
  assumes "0 < n" and "list_all (icy_frame n) frames" and "length tail \<le> n"
    and "concat chunks = concat (map frame_bytes frames) @ tail"
    and "feed_all (icy_new n) chunks = (p, audio, reports)"
  shows "audio = concat (map fst frames) @ tail
    \<and> reports = map from_utf8_lossy (filter (\<lambda>block. block \<noteq> []) (map snd frames))
    \<and> pending p = [] \<and> remaining p = n - length tail"
proof -
  have "feed_all (icy_new n) chunks = feed (icy_new n) (concat chunks)"
    by (rule feed_all_concat [OF icy_new_drained])
  also have "\<dots> = feed_loop ((icy_new n)\<lparr>pending := concat (map frame_bytes frames) @ tail\<rparr>) [] []"
    by (simp add: assms(4) feed_def icy_new_def)
  also have "\<dots> = ((icy_new n)\<lparr>pending := [], remaining := n - length tail\<rparr>, concat (map fst frames) @ tail,
      concat (map (report_of \<circ> snd) frames))"
    by (rule feed_frames) (simp_all add: assms icy_new_def)
  finally have r: "(p, audio, reports) = \<dots>" using assms(5) by simp
  moreover have "concat (map (report_of \<circ> snd) frames) = map from_utf8_lossy (filter (\<lambda>block. block \<noteq> []) (map snd frames))"
    by (induction frames) (simp_all add: report_of_def)
  ultimately show ?thesis by simp
qed

lemma icy_audio_exact_witness:
  "fst (snd (feed_all (icy_new 3) [''ab'', ''c'' @ [CHR 0x01] @ ''Strea'', ''mTitle=ABCD'' @ ''de'', ''f'' @ [CHR 0x00] @ ''g'']))
   = ''abcdefg''"
proof -
  let ?chunks = "[''ab'', ''c'' @ [CHR 0x01] @ ''Strea'', ''mTitle=ABCD'' @ ''de'', ''f'' @ [CHR 0x00] @ ''g'']"
  let ?frames = "[(''abc'', ''StreamTitle=ABCD''), (''def'', [])]"
  obtain p audio reports where f: "feed_all (icy_new 3) ?chunks = (p, audio, reports)"
    by (cases "feed_all (icy_new 3) ?chunks") auto
  have "list_all (icy_frame 3) ?frames" "concat ?chunks = concat (map frame_bytes ?frames) @ ''g''"
    by code_simp+
  from icy_audio_exact [OF _ this(1) _ this(2) f] have "audio = ''abcdefg''" by simp
  with f show ?thesis by (simp only: fst_conv snd_conv)
qed

end
