(* ===== verification/Radio_Service.thy ===== *)
theory Radio_Service
  imports Public_Hosts Go_Query Icy_Stream
begin

text \<open>
  Saved stations (\<open>modules/radio/service.rs\<close>, \<open>repository.rs\<close>, \<open>types.rs\<close>). The table
  \<open>radio_stations\<close> is a list of rows in the order they were inserted, and each query of the
  repository is what its SQL does to that list; that the database itself answers is assumed.
  A new identifier (a random UUID) is an argument. URLs are parsed by the parameter \<open>url_parse\<close>.
\<close>

subsection \<open>Data\<close>

record station =
  st_id :: string
  st_name :: string
  st_stream_url :: string
  st_homepage_url :: string
  st_favicon_url :: string
  st_country :: string
  st_language :: string
  st_tags :: "string list"
  st_codec :: string
  st_bitrate :: int
  st_source :: string
  st_external_id :: string
  st_is_favorite :: bool
  st_position :: int
  st_last_now_playing :: "now_playing option"

record station_create =
  sc_name :: string
  sc_stream_url :: string
  sc_homepage_url :: string
  sc_favicon_url :: string
  sc_country :: string
  sc_language :: string
  sc_tags :: "string list"
  sc_codec :: string
  sc_bitrate :: int
  sc_source :: string
  sc_external_id :: string
  sc_is_favorite :: bool

record station_patch =
  sp_name :: "string option"
  sp_stream_url :: "string option"
  sp_homepage_url :: "string option"
  sp_favicon_url :: "string option"
  sp_country :: "string option"
  sp_language :: "string option"
  sp_tags :: "string list option"
  sp_codec :: "string option"
  sp_bitrate :: "int option"
  sp_is_favorite :: "bool option"
  sp_position :: "int option"

record search_result =
  sr_station_uuid :: string
  sr_name :: string
  sr_stream_url :: string
  sr_homepage_url :: string
  sr_favicon_url :: string
  sr_country :: string
  sr_language :: string
  sr_tags :: "string list option"
  sr_codec :: string
  sr_bitrate :: int
  sr_votes :: int
  sr_health_status :: string
  sr_last_checked_at :: "string option"
  sr_last_successful_at :: "string option"

text \<open>\<open>Database\<close>: here, a violated uniqueness constraint.\<close>

datatype radio_error = Not_Found | Database | Invalid_Station string

definition RADIO_BROWSER_SOURCE :: string where
  "RADIO_BROWSER_SOURCE = ''radio-browser''"

definition MANUAL_SOURCE :: string where
  "MANUAL_SOURCE = ''manual''"

subsection \<open>The table\<close>

type_synonym table = "(string \<times> station) list"

definition repo_get :: "table \<Rightarrow> string \<Rightarrow> string \<Rightarrow> radio_error + station" where
  "repo_get t user_id sid =
     ok_or Not_Found (map_option snd (find (\<lambda>(u, s). u = user_id \<and> st_id s = sid) t))"

definition repo_get_by_external_id :: "table \<Rightarrow> string \<Rightarrow> string \<Rightarrow> string \<Rightarrow> radio_error + station" where
  "repo_get_by_external_id t user_id src ext =
     (if ext = [] then Inl Not_Found
      else ok_or Not_Found (map_option snd
             (find (\<lambda>(u, s). u = user_id \<and> st_source s = src \<and> st_external_id s = ext) t)))"

definition next_position :: "table \<Rightarrow> string \<Rightarrow> int" where
  "next_position t user_id =
     (case map (st_position \<circ> snd) (filter (\<lambda>(u, s). u = user_id) t) of
        [] \<Rightarrow> 0
      | p # ps \<Rightarrow> fold max ps p + 1)"

definition new_row :: "table \<Rightarrow> string \<Rightarrow> string \<Rightarrow> station_create \<Rightarrow> station" where
  "new_row t new_id user_id input =
     \<lparr>st_id = new_id, st_name = sc_name input, st_stream_url = sc_stream_url input,
      st_homepage_url = sc_homepage_url input, st_favicon_url = sc_favicon_url input,
      st_country = sc_country input, st_language = sc_language input, st_tags = sc_tags input,
      st_codec = sc_codec input, st_bitrate = sc_bitrate input, st_source = sc_source input,
      st_external_id = sc_external_id input, st_is_favorite = sc_is_favorite input,
      st_position = next_position t user_id, st_last_now_playing = None\<rparr>"

text \<open>The primary key, and the unique index over user, source and external identifier.\<close>

definition clashes :: "string \<times> station \<Rightarrow> string \<times> station \<Rightarrow> bool" where
  "clashes = (\<lambda>(u, s) (v, r). st_id s = st_id r
     \<or> st_external_id s \<noteq> [] \<and> u = v \<and> st_source s = st_source r \<and> st_external_id s = st_external_id r)"

definition repo_insert :: "table \<Rightarrow> string \<Rightarrow> string \<Rightarrow> station_create \<Rightarrow> radio_error + table" where
  "repo_insert t new_id user_id input =
     (let row = (user_id, new_row t new_id user_id input) in
      if list_ex (clashes row) t then Inl Database else Inr (t @ [row]))"

definition set_columns :: "station \<Rightarrow> station \<Rightarrow> station" where
  "set_columns new row = row\<lparr>st_name := st_name new, st_stream_url := st_stream_url new,
     st_homepage_url := st_homepage_url new, st_favicon_url := st_favicon_url new, st_country := st_country new,
     st_language := st_language new, st_tags := st_tags new, st_codec := st_codec new, st_bitrate := st_bitrate new,
     st_is_favorite := st_is_favorite new, st_position := st_position new\<rparr>"

definition repo_update :: "table \<Rightarrow> string \<Rightarrow> station \<Rightarrow> table" where
  "repo_update t user_id new =
     map (\<lambda>(u, s). if u = user_id \<and> st_id s = st_id new then (u, set_columns new s) else (u, s)) t"

definition repo_delete :: "table \<Rightarrow> string \<Rightarrow> string \<Rightarrow> radio_error + table" where
  "repo_delete t user_id sid =
     (let t' = filter (\<lambda>(u, s). \<not> (u = user_id \<and> st_id s = sid)) t
      in if length t' = length t then Inl Not_Found else Inr t')"

definition update_now_playing :: "table \<Rightarrow> string \<Rightarrow> now_playing \<Rightarrow> string option \<Rightarrow> table" where
  "update_now_playing t sid now updated =
     map (\<lambda>(u, s). if st_id s = sid
        then (u, s\<lparr>st_last_now_playing :=
           (if title now \<noteq> [] \<or> artist now \<noteq> [] \<or> raw now \<noteq> [] \<or> updated \<noteq> None
            then Some \<lparr>title = title now, artist = artist now, raw = raw now,
                   updated_at = map_option time_of_stored updated, stale = False\<rparr>
            else None)\<rparr>)
        else (u, s)) t"

subsection \<open>The rules\<close>

definition validate_optional_http_url :: "url_parser \<Rightarrow> string \<Rightarrow> string \<Rightarrow> radio_error + unit" where
  "validate_optional_http_url url_parse field text =
     (if text = [] then Inr ()
      else let absolute = Invalid_Station (''invalid '' @ field @ '': must be an absolute HTTP(S) URI'') in
        (case url_parse text of
           Inr parsed \<Rightarrow>
             if scheme parsed \<in> {''http'', ''https''}
                \<and> (case url_host parsed of Some (Domain d) \<Rightarrow> d \<noteq> [] | Some _ \<Rightarrow> True | None \<Rightarrow> False)
             then Inr () else Inl absolute
         | Inl Relative_Url_Without_Base \<Rightarrow> Inl absolute
         | Inl e \<Rightarrow> Inl (Invalid_Station (''invalid '' @ field @ '': '' @ show_url_error e))))"

definition validate_station :: "url_parser \<Rightarrow> string \<Rightarrow> string \<Rightarrow> string \<Rightarrow> string \<Rightarrow> radio_error + unit" where
  "validate_station url_parse name stream homepage favicon =
     (if name = [] then Inl (Invalid_Station ''station name is required'')
      else if stream = [] then Inl (Invalid_Station ''streamUrl is required'')
      else and_then (map_err (\<lambda>e. Invalid_Station (''invalid streamUrl: '' @ e)) (validate_stream_url url_parse stream)) (\<lambda>_.
           and_then (validate_optional_http_url url_parse ''homepageUrl'' homepage) (\<lambda>_.
             validate_optional_http_url url_parse ''faviconUrl'' favicon)))"

definition trim_fields :: "station_create \<Rightarrow> station_create" where
  "trim_fields input = input\<lparr>sc_name := utrim (sc_name input), sc_stream_url := utrim (sc_stream_url input),
     sc_homepage_url := utrim (sc_homepage_url input), sc_favicon_url := utrim (sc_favicon_url input),
     sc_country := utrim (sc_country input), sc_language := utrim (sc_language input),
     sc_codec := utrim (sc_codec input), sc_source := utrim (sc_source input),
     sc_external_id := utrim (sc_external_id input)\<rparr>"

definition create_station :: "url_parser \<Rightarrow> string \<Rightarrow> table \<Rightarrow> string \<Rightarrow> station_create \<Rightarrow> radio_error + table \<times> station" where
  "create_station url_parse new_id t user_id input =
     (let input = trim_fields input in
      and_then (validate_station url_parse (sc_name input) (sc_stream_url input) (sc_homepage_url input) (sc_favicon_url input)) (\<lambda>_.
        let input = (if sc_source input = [] then input\<lparr>sc_source := MANUAL_SOURCE\<rparr> else input) in
        and_then (repo_insert t new_id user_id input) (\<lambda>t'.
        and_then (repo_get t' user_id new_id) (\<lambda>s. Inr (t', s)))))"

definition apply_text :: "string option \<Rightarrow> string \<Rightarrow> string" where
  "apply_text value old = (case value of Some v \<Rightarrow> utrim v | None \<Rightarrow> old)"

definition apply_value :: "'a option \<Rightarrow> 'a \<Rightarrow> 'a" where
  "apply_value value old = (case value of Some v \<Rightarrow> v | None \<Rightarrow> old)"

definition apply_patch :: "station_patch \<Rightarrow> station \<Rightarrow> station" where
  "apply_patch patch current = current\<lparr>
     st_name := apply_text (sp_name patch) (st_name current),
     st_stream_url := apply_text (sp_stream_url patch) (st_stream_url current),
     st_homepage_url := apply_text (sp_homepage_url patch) (st_homepage_url current),
     st_favicon_url := apply_text (sp_favicon_url patch) (st_favicon_url current),
     st_country := apply_text (sp_country patch) (st_country current),
     st_language := apply_text (sp_language patch) (st_language current),
     st_codec := apply_text (sp_codec patch) (st_codec current),
     st_tags := apply_value (sp_tags patch) (st_tags current),
     st_bitrate := apply_value (sp_bitrate patch) (st_bitrate current),
     st_is_favorite := apply_value (sp_is_favorite patch) (st_is_favorite current),
     st_position := apply_value (sp_position patch) (st_position current)\<rparr>"

definition update_station :: "url_parser \<Rightarrow> table \<Rightarrow> string \<Rightarrow> string \<Rightarrow> station_patch \<Rightarrow> radio_error + table \<times> station" where
  "update_station url_parse t user_id sid patch =
     and_then (repo_get t user_id sid) (\<lambda>current.
       let current = apply_patch patch current in
       and_then (validate_station url_parse (st_name current) (st_stream_url current) (st_homepage_url current) (st_favicon_url current)) (\<lambda>_.
         let t' = repo_update t user_id current
         in and_then (repo_get t' user_id sid) (\<lambda>s. Inr (t', s))))"

definition import_input :: "search_result \<Rightarrow> station_create" where
  "import_input result =
     \<lparr>sc_name = sr_name result, sc_stream_url = sr_stream_url result, sc_homepage_url = sr_homepage_url result,
      sc_favicon_url = sr_favicon_url result, sc_country = sr_country result, sc_language = sr_language result,
      sc_tags = (case sr_tags result of Some ts \<Rightarrow> ts | None \<Rightarrow> []), sc_codec = sr_codec result,
      sc_bitrate = sr_bitrate result, sc_source = RADIO_BROWSER_SOURCE, sc_external_id = sr_station_uuid result,
      sc_is_favorite = False\<rparr>"

definition import_patch :: "search_result \<Rightarrow> station_patch" where
  "import_patch result =
     \<lparr>sp_name = Some (sr_name result), sp_stream_url = Some (sr_stream_url result),
      sp_homepage_url = Some (sr_homepage_url result), sp_favicon_url = Some (sr_favicon_url result),
      sp_country = Some (sr_country result), sp_language = Some (sr_language result), sp_tags = sr_tags result,
      sp_codec = Some (sr_codec result), sp_bitrate = Some (sr_bitrate result), sp_is_favorite = None, sp_position = None\<rparr>"

definition import_station :: "url_parser \<Rightarrow> string \<Rightarrow> table \<Rightarrow> string \<Rightarrow> search_result \<Rightarrow> radio_error + table \<times> station" where
  "import_station url_parse new_id t user_id result =
     (case repo_get_by_external_id t user_id RADIO_BROWSER_SOURCE (sr_station_uuid result) of
        Inl Not_Found \<Rightarrow> create_station url_parse new_id t user_id (import_input result)
      | Inl e \<Rightarrow> Inl e
      | Inr existing \<Rightarrow> update_station url_parse t user_id (st_id existing) (import_patch result))"

subsection \<open>The catalog and the preview\<close>

definition preview_station :: "search_result \<Rightarrow> station" where
  "preview_station result =
     \<lparr>st_id = ''preview:'' @ sr_station_uuid result, st_name = sr_name result, st_stream_url = sr_stream_url result,
      st_homepage_url = sr_homepage_url result, st_favicon_url = sr_favicon_url result, st_country = sr_country result,
      st_language = sr_language result, st_tags = (case sr_tags result of Some ts \<Rightarrow> ts | None \<Rightarrow> []),
      st_codec = sr_codec result, st_bitrate = sr_bitrate result, st_source = RADIO_BROWSER_SOURCE,
      st_external_id = sr_station_uuid result, st_is_favorite = False, st_position = 0, st_last_now_playing = None\<rparr>"

text \<open>The catalog's current record when it answers, else the result the client sent along.\<close>

definition import_result :: "(string \<Rightarrow> string + search_result) \<Rightarrow> string \<Rightarrow> search_result option \<Rightarrow> string + search_result" where
  "import_result lookup station_uuid result =
     (let sent = ok_or ''stationUuid or result is required'' result in
      if station_uuid = [] then sent
      else (case lookup station_uuid of
          Inr r \<Rightarrow> Inr r
        | Inl e \<Rightarrow> if result = None then Inl e else sent))"

definition get_now_playing :: "int \<Rightarrow> now_playing_cache \<Rightarrow> table \<Rightarrow> string \<Rightarrow> string \<Rightarrow> radio_error + now_playing" where
  "get_now_playing clock cache t user_id sid =
     (if starts_with sid ''preview:''
      then Inr (case cache_get clock cache sid of Some now \<Rightarrow> now | None \<Rightarrow> default_now_playing)
      else and_then (repo_get t user_id sid) (\<lambda>s.
        Inr (case cache_get clock cache sid of
            Some now \<Rightarrow> now
          | None \<Rightarrow> (case st_last_now_playing s of Some now \<Rightarrow> now | None \<Rightarrow> default_now_playing))))"

text \<open>The sink of the proxy: the cache at once, the row in the background.\<close>

definition record_now_playing :: "now_playing_cache \<Rightarrow> table \<Rightarrow> string \<Rightarrow> now_playing \<Rightarrow> int option \<Rightarrow> now_playing_cache \<times> table" where
  "record_now_playing cache t sid now updated =
     (cache_set cache sid now updated, update_now_playing t sid now (map_option sqlite_time updated))"

subsection \<open>Every stored station is sound\<close>

definition station_valid :: "url_parser \<Rightarrow> station \<Rightarrow> bool" where
  "station_valid url_parse s \<longleftrightarrow>
     validate_station url_parse (st_name s) (st_stream_url s) (st_homepage_url s) (st_favicon_url s) = Inr ()"

definition table_ok :: "url_parser \<Rightarrow> table \<Rightarrow> bool" where
  "table_ok url_parse t \<longleftrightarrow>
     sorted_wrt (\<lambda>a b. \<not> clashes b a) t \<and> list_all (\<lambda>row. station_valid url_parse (snd row)) t"

lemma table_ok_Nil [simp]: "table_ok url_parse []"
  by (simp add: table_ok_def)

lemma table_ok_append:
  "table_ok url_parse (t @ [row]) \<longleftrightarrow> table_ok url_parse t \<and> \<not> list_ex (clashes row) t \<and> station_valid url_parse (snd row)"
  by (auto simp: table_ok_def sorted_wrt_append list_ex_iff)

lemma table_ok_filter: "table_ok url_parse t \<Longrightarrow> table_ok url_parse (filter P t)"
  by (simp add: table_ok_def sorted_wrt_filter list_all_iff)

text \<open>A change of rows that leaves what identifies them.\<close>

definition same_identity :: "string \<times> station \<Rightarrow> string \<times> station \<Rightarrow> bool" where
  "same_identity a b \<longleftrightarrow> fst a = fst b \<and> st_id (snd a) = st_id (snd b) \<and> st_source (snd a) = st_source (snd b)
     \<and> st_external_id (snd a) = st_external_id (snd b)"

lemma clashes_same: "same_identity a a' \<Longrightarrow> same_identity b b' \<Longrightarrow> clashes a b = clashes a' b'"
  by (cases a; cases a'; cases b; cases b') (simp add: clashes_def same_identity_def)

lemma table_ok_map:
  assumes "table_ok url_parse t" and "\<And>row. row \<in> set t \<Longrightarrow> same_identity (f row) row \<and> station_valid url_parse (snd (f row))"
  shows "table_ok url_parse (map f t)"
  using assms
proof (induction t)
  case (Cons row t)
  have "\<not> clashes (f b) (f row)" if "b \<in> set t" for b
    using Cons.prems(1) Cons.prems(2) [of b] Cons.prems(2) [of row] that clashes_same [of "f b" b "f row" row]
    by (simp add: table_ok_def)
  with Cons show ?case by (simp add: table_ok_def)
qed simp

lemma create_ok:
  assumes "table_ok url_parse t" and "create_station url_parse new_id t user_id input = Inr (t', s)"
  shows "table_ok url_parse t'"
proof -
  let ?i = "trim_fields input"
  let ?j = "if sc_source ?i = [] then ?i\<lparr>sc_source := MANUAL_SOURCE\<rparr> else ?i"
  from assms(2) have v: "validate_station url_parse (sc_name ?i) (sc_stream_url ?i) (sc_homepage_url ?i) (sc_favicon_url ?i) = Inr ()"
    and r: "repo_insert t new_id user_id ?j = Inr t'"
    by (auto simp: create_station_def Let_def and_then_Inr_iff)
  from v have "station_valid url_parse (new_row t new_id user_id ?j)"
    by (simp add: station_valid_def new_row_def)
  with assms(1) r show ?thesis
    by (auto simp: repo_insert_def Let_def table_ok_append split: if_splits)
qed

lemma update_ok:
  assumes "table_ok url_parse t" and "update_station url_parse t user_id sid patch = Inr (t', s)"
  shows "table_ok url_parse t'"
proof -
  from assms(2) obtain current where c: "repo_get t user_id sid = Inr current"
    and v: "station_valid url_parse (apply_patch patch current)"
    and t: "t' = repo_update t user_id (apply_patch patch current)"
    by (auto simp: update_station_def Let_def and_then_Inr_iff station_valid_def)
  show ?thesis
    unfolding t repo_update_def
  proof (rule table_ok_map [OF assms(1)])
    fix row
    assume "row \<in> set t"
    then have "station_valid url_parse (snd row)" using assms(1) by (simp add: table_ok_def list_all_iff)
    with v show "same_identity (case row of (u, s) \<Rightarrow> if u = user_id \<and> st_id s = st_id (apply_patch patch current)
          then (u, set_columns (apply_patch patch current) s) else (u, s)) row
        \<and> station_valid url_parse (snd (case row of (u, s) \<Rightarrow> if u = user_id \<and> st_id s = st_id (apply_patch patch current)
          then (u, set_columns (apply_patch patch current) s) else (u, s)))"
      by (cases row) (simp add: same_identity_def station_valid_def set_columns_def)
  qed
qed

lemma import_ok:
  assumes "table_ok url_parse t" and "import_station url_parse new_id t user_id result = Inr (t', s)"
  shows "table_ok url_parse t'"
proof (cases "repo_get_by_external_id t user_id RADIO_BROWSER_SOURCE (sr_station_uuid result)")
  case (Inl e)
  with assms(2) have "create_station url_parse new_id t user_id (import_input result) = Inr (t', s)"
    by (cases e) (simp_all add: import_station_def)
  with assms(1) show ?thesis by (rule create_ok)
next
  case (Inr existing)
  with assms(2) have "update_station url_parse t user_id (st_id existing) (import_patch result) = Inr (t', s)"
    by (simp add: import_station_def)
  with assms(1) show ?thesis by (rule update_ok)
qed

lemma delete_ok: "table_ok url_parse t \<Longrightarrow> repo_delete t user_id sid = Inr t' \<Longrightarrow> table_ok url_parse t'"
  by (auto simp: repo_delete_def Let_def table_ok_filter split: if_splits)

lemma now_playing_ok: "table_ok url_parse t \<Longrightarrow> table_ok url_parse (update_now_playing t sid now updated)"
  unfolding update_now_playing_def
  by (rule table_ok_map) (auto simp: same_identity_def station_valid_def table_ok_def list_all_iff)

text \<open>The operations that change the table, as steps.\<close>

datatype radio_op =
    Create string string station_create
  | Import string string search_result
  | Update string string station_patch
  | Delete string string
  | Now_Playing string now_playing "int option"

fun radio_step :: "url_parser \<Rightarrow> table \<Rightarrow> radio_op \<Rightarrow> table" where
  "radio_step url_parse t (Create new_id user_id input) =
     (case create_station url_parse new_id t user_id input of Inr (t', _) \<Rightarrow> t' | Inl _ \<Rightarrow> t)"
| "radio_step url_parse t (Import new_id user_id result) =
     (case import_station url_parse new_id t user_id result of Inr (t', _) \<Rightarrow> t' | Inl _ \<Rightarrow> t)"
| "radio_step url_parse t (Update user_id sid patch) =
     (case update_station url_parse t user_id sid patch of Inr (t', _) \<Rightarrow> t' | Inl _ \<Rightarrow> t)"
| "radio_step url_parse t (Delete user_id sid) = (case repo_delete t user_id sid of Inr t' \<Rightarrow> t' | Inl _ \<Rightarrow> t)"
| "radio_step url_parse t (Now_Playing sid now updated) = update_now_playing t sid now (map_option sqlite_time updated)"

lemma radio_step_ok: "table_ok url_parse t \<Longrightarrow> table_ok url_parse (radio_step url_parse t op)"
proof (induction url_parse t op rule: radio_step.induct)
  case (1 url_parse t new_id user_id input)
  then show ?case by (simp split: sum.split prod.split) (use create_ok in blast)
next
  case (2 url_parse t new_id user_id result)
  then show ?case by (simp split: sum.split prod.split) (use import_ok in blast)
next
  case (3 url_parse t user_id sid patch)
  then show ?case by (simp split: sum.split prod.split) (use update_ok in blast)
next
  case (4 url_parse t user_id sid)
  then show ?case by (simp split: sum.split) (use delete_ok in blast)
next
  case (5 url_parse t sid now updated)
  then show ?case by (simp add: now_playing_ok)
qed


subsection \<open>An import updates in place\<close>

lemma clashes_sym: "clashes a b = clashes b a"
  by (cases a; cases b) (auto simp: clashes_def)

lemma table_unique: "table_ok url_parse t \<Longrightarrow> a \<in> set t \<Longrightarrow> b \<in> set t \<Longrightarrow> clashes a b \<Longrightarrow> a = b"
proof (induction t)
  case (Cons row t)
  then show ?case using clashes_sym [of a b] by (auto simp: table_ok_def)
qed simp

lemma find_in_table:
  assumes "table_ok url_parse t" and "row \<in> set t" and "P row" and "\<And>r. r \<in> set t \<Longrightarrow> P r \<Longrightarrow> clashes r row"
  shows "find P t = Some row"
proof -
  have "find P t \<noteq> None" using assms(2,3) by (metis find_None_iff)
  then obtain r where f: "find P t = Some r" by blast
  then have "r \<in> set t" "P r" by (auto simp: find_Some_iff)
  then have "r = row" using table_unique [OF assms(1) _ assms(2)] assms(4) by blast
  with f show ?thesis by simp
qed

lemma get_in_table:
  assumes "table_ok url_parse t" and "(user_id, s) \<in> set t"
  shows "repo_get t user_id (st_id s) = Inr s"
    and "st_external_id s \<noteq> [] \<Longrightarrow> repo_get_by_external_id t user_id (st_source s) (st_external_id s) = Inr s"
proof -
  have "find (\<lambda>(u, r). u = user_id \<and> st_id r = st_id s) t = Some (user_id, s)"
    by (rule find_in_table [OF assms]) (auto simp: clashes_def)
  then show "repo_get t user_id (st_id s) = Inr s" by (simp add: repo_get_def)
  assume e: "st_external_id s \<noteq> []"
  then have "find (\<lambda>(u, r). u = user_id \<and> st_source r = st_source s \<and> st_external_id r = st_external_id s) t = Some (user_id, s)"
    by (intro find_in_table [OF assms]) (auto simp: clashes_def)
  with e show "repo_get_by_external_id t user_id (st_source s) (st_external_id s) = Inr s"
    by (simp add: repo_get_by_external_id_def)
qed

lemma get_by_external_Inr:
  "repo_get_by_external_id t user_id src ext = Inr s \<Longrightarrow> (user_id, s) \<in> set t \<and> st_source s = src \<and> st_external_id s = ext \<and> ext \<noteq> []"
  by (auto simp: repo_get_by_external_id_def find_Some_iff split: if_splits) (metis nth_mem)

lemma update_result:
  assumes "table_ok url_parse t" and "(user_id, e) \<in> set t" and "update_station url_parse t user_id (st_id e) patch = Inr (t', s)"
  shows "s = apply_patch patch e" and "t' = map (\<lambda>(u, r). if u = user_id \<and> st_id r = st_id e then (u, apply_patch patch e) else (u, r)) t"
    and "(user_id, s) \<in> set t'"
proof -
  let ?c = "apply_patch patch e"
  have id: "st_id ?c = st_id e" by (simp add: apply_patch_def)
  have ok: "table_ok url_parse t'" by (rule update_ok [OF assms(1,3)])
  have t: "t' = repo_update t user_id ?c" and g: "repo_get t' user_id (st_id e) = Inr s"
    using assms(3) get_in_table(1) [OF assms(1,2)] by (auto simp: update_station_def Let_def and_then_Inr_iff)
  have "set_columns ?c r = ?c" if "(user_id, r) \<in> set t" "st_id r = st_id e" for r
  proof -
    have "(user_id, r) = (user_id, e)" using table_unique [OF assms(1) that(1) assms(2)] that(2) by (simp add: clashes_def)
    then show ?thesis by (simp add: set_columns_def apply_patch_def)
  qed
  then show t': "t' = map (\<lambda>(u, r). if u = user_id \<and> st_id r = st_id e then (u, ?c) else (u, r)) t"
    unfolding t repo_update_def id by (auto intro!: map_cong)
  then have m: "(user_id, ?c) \<in> set t'" using assms(2) by force
  from get_in_table(1) [OF ok this] g show "s = ?c" by (simp add: id)
  with m show "(user_id, s) \<in> set t'" by simp
qed

lemma import_result_row:
  assumes ok: "table_ok url_parse t" and "import_station url_parse new_id t user_id result = Inr (t', s)"
    and "utrim (sr_station_uuid result) = sr_station_uuid result" and "sr_station_uuid result \<noteq> []"
  shows "(user_id, s) \<in> set t' \<and> st_source s = RADIO_BROWSER_SOURCE \<and> st_external_id s = sr_station_uuid result"
proof (cases "repo_get_by_external_id t user_id RADIO_BROWSER_SOURCE (sr_station_uuid result)")
  case (Inl e)
  let ?i = "trim_fields (import_input result)"
  have rb: "utrim RADIO_BROWSER_SOURCE = RADIO_BROWSER_SOURCE" "RADIO_BROWSER_SOURCE \<noteq> []" by code_simp+
  have i: "sc_source ?i = RADIO_BROWSER_SOURCE" "sc_external_id ?i = sr_station_uuid result"
    using assms(3) by (simp_all add: trim_fields_def import_input_def rb)
  from Inl assms(2) have c: "create_station url_parse new_id t user_id (import_input result) = Inr (t', s)"
    by (cases e) (simp_all add: import_station_def)
  then have r: "repo_insert t new_id user_id ?i = Inr t'" and g: "repo_get t' user_id new_id = Inr s"
    by (auto simp: create_station_def Let_def and_then_Inr_iff i rb)
  have row: "(user_id, new_row t new_id user_id ?i) \<in> set t'"
    using r by (auto simp: repo_insert_def Let_def split: if_splits)
  from get_in_table(1) [OF create_ok [OF ok c] this] g have "s = new_row t new_id user_id ?i"
    by (simp add: new_row_def)
  with row i show ?thesis by (simp add: new_row_def)
next
  case (Inr e)
  from get_by_external_Inr [OF Inr] have e: "(user_id, e) \<in> set t" "st_source e = RADIO_BROWSER_SOURCE"
    "st_external_id e = sr_station_uuid result" by simp_all
  from Inr assms(2) have "update_station url_parse t user_id (st_id e) (import_patch result) = Inr (t', s)"
    by (simp add: import_station_def)
  from update_result [OF ok e(1) this] e show ?thesis by (simp add: apply_patch_def)
qed

text \<open>importing a catalog entry again updates the station instead of duplicating it. Once an entry has
been imported, the next import of it, whatever else it brings, adds no row and changes no other row:
the same station, with its identifier, its place, its favourite mark and what it last played, takes
the name, addresses and codec of the catalog.\<close>

theorem import_updates_in_place:
  assumes "table_ok url_parse t" and "import_station url_parse id1 t user_id first = Inr (t1, s1)"
    and "import_station url_parse id2 t1 user_id again = Inr (t2, s2)"
    and "sr_station_uuid again = sr_station_uuid first"
    and "utrim (sr_station_uuid first) = sr_station_uuid first" and "sr_station_uuid first \<noteq> []"
  shows "s2 = apply_patch (import_patch again) s1
    \<and> t2 = map (\<lambda>(u, s). if u = user_id \<and> st_id s = st_id s1 then (u, s2) else (u, s)) t1
    \<and> st_id s2 = st_id s1 \<and> st_is_favorite s2 = st_is_favorite s1 \<and> st_position s2 = st_position s1
    \<and> st_last_now_playing s2 = st_last_now_playing s1
    \<and> st_name s2 = utrim (sr_name again) \<and> st_stream_url s2 = utrim (sr_stream_url again)"
proof -
  have ok: "table_ok url_parse t1" by (rule import_ok [OF assms(1,2)])
  have m: "(user_id, s1) \<in> set t1" "st_source s1 = RADIO_BROWSER_SOURCE" "st_external_id s1 = sr_station_uuid first"
    using import_result_row [OF assms(1,2,5,6)] by simp_all
  have "repo_get_by_external_id t1 user_id RADIO_BROWSER_SOURCE (sr_station_uuid again) = Inr s1"
    using get_in_table(2) [OF ok m(1)] m(2,3) assms(4,6) by simp
  with assms(3) have "update_station url_parse t1 user_id (st_id s1) (import_patch again) = Inr (t2, s2)"
    by (simp add: import_station_def)
  note u = update_result [OF ok m(1) this]
  have "t2 = map (\<lambda>(u, s). if u = user_id \<and> st_id s = st_id s1 then (u, s2) else (u, s)) t1"
    using u(2) unfolding u(1) .
  moreover have "st_id s2 = st_id s1 \<and> st_is_favorite s2 = st_is_favorite s1 \<and> st_position s2 = st_position s1
    \<and> st_last_now_playing s2 = st_last_now_playing s1
    \<and> st_name s2 = utrim (sr_name again) \<and> st_stream_url s2 = utrim (sr_stream_url again)"
    by (simp add: u(1) apply_patch_def import_patch_def apply_text_def apply_value_def)
  ultimately show ?thesis using u(1) by blast
qed

text \<open>
  The lookup takes the identifier as it was sent, the row the trimmed one: with a blank around
  the identifier a second import meets the unique index instead of the station.
\<close>

definition spaced_result :: search_result where
  "spaced_result = \<lparr>sr_station_uuid = '' 1'', sr_name = ''FIP'', sr_stream_url = ''https://radio.example'', sr_homepage_url = [],
     sr_favicon_url = [], sr_country = [], sr_language = [], sr_tags = None, sr_codec = [], sr_bitrate = 0, sr_votes = 0,
     sr_health_status = [], sr_last_checked_at = None, sr_last_successful_at = None\<rparr>"

definition any_host :: url_parser where
  "any_host s = Inr \<lparr>as_str = s, scheme = ''https'', url_host = Some (Domain ''radio.example''), url_path = []\<rparr>"

lemma second_import_fails:
  "case import_station any_host ''a'' [] ''u'' spaced_result of
     Inl e \<Rightarrow> False
   | Inr (t, s) \<Rightarrow> (case import_station any_host ''b'' t ''u'' spaced_result of Inl e \<Rightarrow> e = Database | Inr r \<Rightarrow> False)"
  by code_simp

lemma import_updates_in_place_witness:
  "\<exists>t1 s1 t2 s2. import_station any_host ''a'' [] ''u'' (spaced_result\<lparr>sr_station_uuid := ''1''\<rparr>) = Inr (t1, s1)
     \<and> import_station any_host ''b'' t1 ''u'' (spaced_result\<lparr>sr_station_uuid := ''1'', sr_name := '' FIP Jazz''\<rparr>) = Inr (t2, s2)
     \<and> st_id s2 = st_id s1 \<and> st_name s2 = ''FIP Jazz''"
proof -
  let ?first = "spaced_result\<lparr>sr_station_uuid := ''1''\<rparr>"
  let ?again = "spaced_result\<lparr>sr_station_uuid := ''1'', sr_name := '' FIP Jazz''\<rparr>"
  have "case import_station any_host ''a'' [] ''u'' ?first of
     Inl e \<Rightarrow> False
   | Inr (t, s) \<Rightarrow> (case import_station any_host ''b'' t ''u'' ?again of Inl e \<Rightarrow> False | Inr r \<Rightarrow> True)"
    by code_simp
  then obtain t1 s1 t2 s2 where f: "import_station any_host ''a'' [] ''u'' ?first = Inr (t1, s1)"
    and a: "import_station any_host ''b'' t1 ''u'' ?again = Inr (t2, s2)"
    by (auto split: sum.splits)
  have "sr_station_uuid ?again = sr_station_uuid ?first" "utrim (sr_station_uuid ?first) = sr_station_uuid ?first"
    "sr_station_uuid ?first \<noteq> []" "utrim (sr_name ?again) = ''FIP Jazz''"
    by code_simp+
  with import_updates_in_place [OF table_ok_Nil f a] f a show ?thesis by auto
qed

end
