(* ===== verification/Radio_Stream.thy ===== *)
theory Radio_Stream
  imports Hls_Playlist Radio_Service
begin

text \<open>
  The radio stream proxy (\<open>StreamProxy\<close> of \<open>modules/radio/stream.rs\<close>): which URL it asks
  for, what it keeps of the answer, playlists rewritten and audio stripped of metadata. The
  upstream fetch is the parameter \<open>upstream\<close>; a body is the list of its chunks, each of which
  may fail. The answer comes with the requests made and the metadata reported.
\<close>

subsection \<open>Headers\<close>

type_synonym header_map = "string \<rightharpoonup> string"

text \<open>\<open>HeaderValue::to_str\<close>.\<close>

definition header_to_str :: "string \<Rightarrow> string option" where
  "header_to_str value =
     (if list_all (\<lambda>c. 32 \<le> (of_char c :: nat) \<and> (of_char c :: nat) < 127 \<or> c = CHR 0x09) value
      then Some value else None)"

definition HLS_CONTENT_TYPE :: string where
  "HLS_CONTENT_TYPE = ''application/vnd.apple.mpegurl''"

definition essence_of :: "string \<Rightarrow> string" where
  "essence_of value = to_ascii_lowercase (utrim (hd (split_char (CHR '';'') value)))"

definition is_stream_content_type :: "string \<Rightarrow> bool" where
  "is_stream_content_type value \<longleftrightarrow>
     (case header_to_str value of
        None \<Rightarrow> False
      | Some v \<Rightarrow> starts_with (essence_of v) ''audio/''
          \<or> essence_of v \<in> {''video/mp2t'', ''application/ogg'', ''application/aac'', ''application/octet-stream'',
              HLS_CONTENT_TYPE, ''application/x-mpegurl''})"

definition kept_headers :: "string list" where
  "kept_headers = [''cache-control'', ''content-range'', ''accept-ranges'', ''icy-name'', ''icy-genre'', ''icy-br'', ''icy-url'']"

definition keep_header :: "header_map \<Rightarrow> string \<Rightarrow> header_map \<Rightarrow> header_map" where
  "keep_header hs name out =
     (case hs name of Some value \<Rightarrow> if value \<noteq> [] then out(name \<mapsto> value) else out | None \<Rightarrow> out)"

definition copy_stream_headers :: "header_map \<Rightarrow> bool \<Rightarrow> header_map" where
  "copy_stream_headers hs keep_content_length =
     (let content_type = (case hs ''content-type'' of
            Some value \<Rightarrow> if is_stream_content_type value then value else ''application/octet-stream''
          | None \<Rightarrow> ''application/octet-stream'');
          out = [''content-type'' \<mapsto> content_type, ''x-content-type-options'' \<mapsto> ''nosniff'',
                 ''content-security-policy'' \<mapsto> ''sandbox''];
          out = fold (keep_header hs) kept_headers out
      in (case hs ''content-length'' of
            Some value \<Rightarrow> if keep_content_length then out(''content-length'' \<mapsto> value) else out
          | None \<Rightarrow> out))"

definition is_hls_content :: "string option \<Rightarrow> url \<Rightarrow> bool" where
  "is_hls_content content_type u \<longleftrightarrow>
     essence_of (case content_type of Some t \<Rightarrow> t | None \<Rightarrow> [])
       \<in> {HLS_CONTENT_TYPE, ''application/x-mpegurl'', ''audio/mpegurl'', ''audio/x-mpegurl''}
     \<or> suffix ''.m3u8'' (to_ascii_lowercase (url_path u))"

subsection \<open>The proxy\<close>

record upstream_response =
  resp_status :: nat
  resp_headers :: header_map
  resp_url :: url
  resp_body :: "(string + string) list"

definition is_hls_playlist :: "upstream_response \<Rightarrow> bool" where
  "is_hls_playlist response \<longleftrightarrow>
     is_hls_content (Option.bind (resp_headers response ''content-type'') header_to_str) (resp_url response)"

type_synonym upstream = "url \<Rightarrow> string option \<Rightarrow> string + upstream_response"

text \<open>An answer: an API error, a playlist, or a stream of chunks.\<close>

datatype answer =
    Api_Error nat string string
  | Playlist header_map string
  | Audio nat header_map "(string + string) list"

record radio_request =
  req_path :: string
  req_query :: go_query
  req_range :: "string option"

type_synonym report = "now_playing \<times> int option"

definition bad_request :: "string \<Rightarrow> answer" where
  "bad_request message = Api_Error 400 ''bad_request'' message"

definition bad_gateway :: "string \<Rightarrow> answer" where
  "bad_gateway message = Api_Error 502 ''bad_gateway'' message"

definition MAX_HLS_PLAYLIST_BYTES :: nat where
  "MAX_HLS_PLAYLIST_BYTES = 2 ^ 20"

fun read_playlist :: "string \<Rightarrow> (string + string) list \<Rightarrow> string + string" where
  "read_playlist playlist [] = Inr playlist"
| "read_playlist playlist (Inl e # chunks) = Inl ''failed to read HLS playlist''"
| "read_playlist playlist (Inr chunk # chunks) =
     (if MAX_HLS_PLAYLIST_BYTES < length (playlist @ chunk) then Inl ''HLS playlist exceeds size limit''
      else read_playlist (playlist @ chunk) chunks)"

text \<open>The parts of the world the proxy calls.\<close>

record proxy =
  proxy_codec :: codec
  url_parse :: url_parser
  url_join :: "url \<Rightarrow> string \<Rightarrow> url_error + url"
  to_upper :: "string \<Rightarrow> string"
  fetch_upstream :: upstream

fun rewritten_answer :: "header_map \<Rightarrow> rewrite_error + string \<Rightarrow> answer" where
  "rewritten_answer hs (Inr rewritten) = Playlist hs rewritten"
| "rewritten_answer hs (Inl Drm) = Api_Error 415 ''unsupported_media_type'' (show_rewrite_error Drm)"
| "rewritten_answer hs (Inl (Invalid message)) = bad_gateway (show_rewrite_error (Invalid message))"

definition answer_playlist :: "proxy \<Rightarrow> int \<Rightarrow> upstream_response \<Rightarrow> string \<Rightarrow> string \<Rightarrow> answer option" where
  "answer_playlist p now response proxy_path sid =
     (let hs = (copy_stream_headers (resp_headers response) False)(''content-type'' \<mapsto> HLS_CONTENT_TYPE) in
      case read_playlist [] (resp_body response) of
        Inl message \<Rightarrow> Some (bad_gateway message)
      | Inr bytes \<Rightarrow>
          map_option (rewritten_answer hs)
            (rewrite_playlist (proxy_codec p) (url_parse p) (url_join p) (to_upper p) now (from_utf8_lossy bytes)
               (resp_url response) proxy_path sid))"

text \<open>\<open>parse::<usize>\<close>.\<close>

definition parse_usize :: "string \<Rightarrow> nat option" where
  "parse_usize s =
     (let v = (case s of [] \<Rightarrow> None | c # rest \<Rightarrow> if c = CHR ''+'' then parse_nat rest else parse_nat s)
      in case v of Some n \<Rightarrow> if n < 2 ^ 64 then Some n else None | None \<Rightarrow> None)"

definition metaint_of :: "header_map \<Rightarrow> nat option" where
  "metaint_of hs =
     (case Option.bind (Option.bind (hs ''icy-metaint'') header_to_str) (\<lambda>v. parse_usize (utrim v)) of
        Some n \<Rightarrow> if 0 < n then Some n else None
      | None \<Rightarrow> None)"

text \<open>The mapped body: a failed chunk passes through, the parser stays where it was. The clock of
  chunk \<open>k\<close> is \<open>clock k\<close>.\<close>

fun strip_body :: "(nat \<Rightarrow> int) \<Rightarrow> nat \<Rightarrow> icy_parser \<Rightarrow> (string + string) list \<Rightarrow> (string + string) list \<times> report list" where
  "strip_body clock k parser [] = ([], [])"
| "strip_body clock k parser (Inl e # chunks) =
     (let (body, reports) = strip_body clock (Suc k) parser chunks in (Inl e # body, reports))"
| "strip_body clock k parser (Inr chunk # chunks) =
     (let (parser', audio, blocks) = feed parser chunk;
          (body, reports) = strip_body clock (Suc k) parser' chunks
      in (Inr audio # body, List.map_filter (parse_icy_metadata (clock k)) blocks @ reports))"

definition answer_audio :: "(nat \<Rightarrow> int) \<Rightarrow> upstream_response \<Rightarrow> answer \<times> report list" where
  "answer_audio clock response =
     (let hs = copy_stream_headers (resp_headers response) False in
      case metaint_of (resp_headers response) of
        None \<Rightarrow> (Audio (resp_status response) hs (resp_body response), [])
      | Some n \<Rightarrow>
          let (body, reports) = strip_body clock 0 (icy_new n) (resp_body response)
          in (Audio (resp_status response) hs body, reports))"

text \<open>The URL to fetch, or the answer that refuses the request.\<close>

definition choose_url :: "proxy \<Rightarrow> int \<Rightarrow> radio_request \<Rightarrow> station \<Rightarrow> answer + url" where
  "choose_url p now request st =
     (if query_values (req_query request) ''url'' \<noteq> None then Inl (bad_request INVALID_TOKEN)
      else
        let token = query_get (req_query request) ''resource'' in
        and_then (if token \<noteq> [] then map_err bad_request (verify (proxy_codec p) (url_parse p) now token (st_id st))
                  else Inr (st_stream_url st)) (\<lambda>target.
        and_then (map_err bad_request (validate_stream_url (url_parse p) target)) (\<lambda>_.
          map_err (bad_request \<circ> show_url_error) (url_parse p target))))"

definition stream :: "proxy \<Rightarrow> (nat \<Rightarrow> int) \<Rightarrow> int \<Rightarrow> radio_request \<Rightarrow> station \<Rightarrow> answer option \<times> url list \<times> report list" where
  "stream p clock now request st =
     (case choose_url p now request st of
        Inl a \<Rightarrow> (Some a, [], [])
      | Inr u \<Rightarrow>
          (case fetch_upstream p u (req_range request) of
             Inl e \<Rightarrow> (Some (bad_gateway e), [u], [])
           | Inr response \<Rightarrow>
               if resp_status response < 200 \<or> 300 \<le> resp_status response
               then (Some (bad_gateway (''stream status '' @ digits (resp_status response))), [u], [])
               else if is_hls_playlist response
               then (answer_playlist p now response (req_path request) (st_id st), [u], [])
               else (case answer_audio clock response of (a, reports) \<Rightarrow> (Some a, [u], reports))))"

subsection \<open>What the proxy asks for\<close>

lemma choose_url_public:
  assumes "choose_url p now request st = Inr u"
  obtains target where "url_parse p target = Inr u" and "validate_stream_url (url_parse p) target = Inr ()"
    and "target = st_stream_url st \<and> query_get (req_query request) ''resource'' = []
      \<or> verify (proxy_codec p) (url_parse p) now (query_get (req_query request) ''resource'') (st_id st) = Inr target"
  using assms that by (auto simp: choose_url_def Let_def and_then_Inr_iff split: if_splits)

text \<open>A URL that may be fetched: HTTP or HTTPS, and its host is a name other than localhost, or an
  address outside the reserved ranges.\<close>

definition public_url :: "url \<Rightarrow> bool" where
  "public_url u \<longleftrightarrow> scheme u \<in> {''http'', ''https''}
     \<and> (case url_host u of
          None \<Rightarrow> False
        | Some (Domain d) \<Rightarrow> to_ascii_lowercase (trim_end_dots d) \<notin> {[], ''localhost''}
        | Some (Host_V4 ip) \<Rightarrow> \<not> v4_reserved (v4_number ip)
        | Some (Host_V6 ip) \<Rightarrow>
            (case to_ipv4_mapped ip of Some mapped \<Rightarrow> \<not> v4_reserved (v4_number mapped) | None \<Rightarrow> \<not> v6_reserved ip))"

lemma check_host_public: "check_host h = Inr () \<longleftrightarrow>
  (case h of
     None \<Rightarrow> False
   | Some (Domain d) \<Rightarrow> to_ascii_lowercase (trim_end_dots d) \<notin> {[], ''localhost''}
   | Some (Host_V4 ip) \<Rightarrow> \<not> v4_reserved (v4_number ip)
   | Some (Host_V6 ip) \<Rightarrow>
       (case to_ipv4_mapped ip of Some mapped \<Rightarrow> \<not> v4_reserved (v4_number mapped) | None \<Rightarrow> \<not> v6_reserved ip))"
  by (cases h rule: check_host.cases)
    (auto simp: Let_def blocked_v4_reserved blocked_v6_reserved split: option.split)

lemma validate_public: "validate_stream_url parse_fn txt = Inr () \<longleftrightarrow> (\<exists>u. parse_fn txt = Inr u \<and> public_url u)"
proof (cases "parse_fn txt")
  case (Inl e)
  then show ?thesis by (cases e) (simp_all add: validate_stream_url_def)
next
  case (Inr u)
  then show ?thesis by (auto simp: validate_stream_url_def public_url_def check_host_public)
qed

definition harmless :: "header_map \<Rightarrow> bool" where
  "harmless hs \<longleftrightarrow>
     (\<exists>t. hs ''content-type'' = Some t \<and> is_stream_content_type t)
     \<and> hs ''x-content-type-options'' = Some ''nosniff'' \<and> hs ''content-security-policy'' = Some ''sandbox''
     \<and> hs ''content-length'' = None \<and> hs ''set-cookie'' = None \<and> hs ''location'' = None"

lemma fold_keep_header:
  "name \<notin> set names \<Longrightarrow> fold (keep_header hs) names out name = out name"
  by (induction names arbitrary: out) (auto simp: keep_header_def split: option.split)

lemma octet_stream: "is_stream_content_type ''application/octet-stream''" "is_stream_content_type HLS_CONTENT_TYPE"
  by code_simp+

lemma not_kept: "''content-type'' \<notin> set kept_headers" "''x-content-type-options'' \<notin> set kept_headers"
  "''content-security-policy'' \<notin> set kept_headers" "''content-length'' \<notin> set kept_headers"
  "''set-cookie'' \<notin> set kept_headers" "''location'' \<notin> set kept_headers"
  by (simp_all add: kept_headers_def)

lemma copied_harmless: "harmless (copy_stream_headers hs False)"
  using octet_stream(1)
  by (simp add: harmless_def copy_stream_headers_def Let_def fold_keep_header not_kept split: option.split)

lemma harmless_type: "harmless hs \<Longrightarrow> is_stream_content_type t \<Longrightarrow> harmless (hs(''content-type'' \<mapsto> t))"
  by (simp add: harmless_def)

definition answer_harmless :: "answer \<Rightarrow> bool" where
  "answer_harmless a = (case a of Api_Error s c m \<Rightarrow> 400 \<le> s | Playlist hs t \<Rightarrow> harmless hs | Audio s hs b \<Rightarrow> 200 \<le> s \<and> s < 300 \<and> harmless hs)"

lemma answer_playlist_harmless:
  assumes "answer_playlist p now response path sid = Some a"
  shows "answer_harmless a"
proof (cases "read_playlist [] (resp_body response)")
  case (Inl message)
  with assms show ?thesis by (auto simp: answer_playlist_def answer_harmless_def bad_gateway_def Let_def)
next
  case (Inr bytes)
  let ?hs = "(copy_stream_headers (resp_headers response) False)(''content-type'' \<mapsto> HLS_CONTENT_TYPE)"
  have h: "harmless ?hs" by (rule harmless_type [OF copied_harmless octet_stream(2)])
  from assms Inr obtain r where a: "a = rewritten_answer ?hs r"
    unfolding answer_playlist_def Let_def by auto
  show ?thesis
    using h unfolding a by (cases "(?hs, r)" rule: rewritten_answer.cases) (auto simp: answer_harmless_def bad_gateway_def)
qed


definition demo_proxy :: proxy where
  "demo_proxy = \<lparr>proxy_codec = demo_codec, url_parse = (\<lambda>s. Inr (demo_url s)), url_join = (\<lambda>_ s. Inr (demo_url s)),
     to_upper = to_ascii_lowercase,
     fetch_upstream = (\<lambda>u range. Inr \<lparr>resp_status = 200, resp_headers = [''content-type'' \<mapsto> ''text/html''],
       resp_url = (demo_url ''x'')\<lparr>url_path := ''/live''\<rparr>, resp_body = [Inr ''ab'']\<rparr>)\<rparr>"

definition demo_station :: "string \<Rightarrow> string \<Rightarrow> station" where
  "demo_station sid u = (preview_station spaced_result)\<lparr>st_id := sid, st_stream_url := u\<rparr>"

definition demo_request :: "string \<Rightarrow> radio_request" where
  "demo_request q = \<lparr>req_path = ''/stream'', req_query = parse_query q, req_range = None\<rparr>"


subsection \<open>From playlist to segment\<close>

text \<open>What the signer's base64 alphabet is made of.\<close>

definition url_safe :: "codec \<Rightarrow> bool" where
  "url_safe c \<longleftrightarrow> (\<forall>s. list_all plain (base64_encode c s))"

lemma token_plain: "url_safe c \<Longrightarrow> list_all plain (sign c now sid u)"
  by (simp add: url_safe_def sign_def Let_def plain_def [of "CHR ''.''"] byte_in_def)

lemma link_query:
  assumes "url_safe c"
  shows "parse_query (''resource='' @ sign c now sid u) = [(''resource'', sign c now sid u)]"
proof -
  have "list_all plain ''resource''" by code_simp
  from parse_one [OF this _ token_plain [OF assms]] show ?thesis by simp
qed

lemma token_ne: "sign c now sid u \<noteq> []"
  by (simp add: sign_def Let_def)

text \<open>C23: a player that follows a link of a rewritten playlist gets that resource. The query the browser
sends back is parsed, the token found in it verified, and for the same station and within the hour the
proxy fetches exactly the URL the playlist named, and nothing else; after the hour, or for another
station, it fetches nothing and answers 400.\<close>

theorem playlist_links_play:
  assumes "codec_laws (proxy_codec p)" and "url_safe (proxy_codec p)" and "in_i64 (now + 3600)"
    and "url_parse p u = Inr parsed" and "public_url parsed"
    and "req_query request = parse_query (''resource='' @ sign (proxy_codec p) now sid u)"
  shows "if st_id st = sid \<and> later < now + 3600
    then fst (snd (stream p clock later request st)) = [parsed]
    else stream p clock later request st = (Some (bad_request INVALID_TOKEN), [], [])"
proof -
  let ?token = "sign (proxy_codec p) now sid u"
  have q: "query_get (req_query request) ''resource'' = ?token" "query_values (req_query request) ''url'' = None"
    unfolding assms(6) link_query [OF assms(2)] by (simp_all add: query_get_def query_values_def)
  have v: "validate_stream_url (url_parse p) u = Inr ()" using assms(4,5) by (auto simp: validate_public)
  have "choose_url p later request st =
      (if st_id st = sid \<and> later < now + 3600 then Inr parsed else Inl (bad_request INVALID_TOKEN))"
    using token_ne verify_signed [OF assms(1,3)] v assms(4) by (simp add: choose_url_def Let_def q)
  then show ?thesis
    by (auto simp: stream_def split: sum.splits prod.splits)
qed

lemma letters_plain: "list_all plain (letters s)"
proof -
  have "plain c" if "c \<in> set (letters s)" for c
    using letters_range [OF that] by (auto simp: plain_def byte_in_def)
  then show ?thesis by (simp add: list_all_iff)
qed

lemma playlist_links_play_witness:
  "fst (snd (stream demo_proxy (\<lambda>_. 0) 4599
     (demo_request (''resource='' @ sign demo_codec 1000 ''fip'' ''https://radio.example/a.ts''))
     (demo_station ''fip'' ''''))) = [demo_url ''https://radio.example/a.ts'']"
proof -
  have c: "proxy_codec demo_proxy = demo_codec" by (simp add: demo_proxy_def)
  have l: "codec_laws (proxy_codec demo_proxy)" "url_safe (proxy_codec demo_proxy)"
    using demo_codec_laws letters_plain by (simp_all add: c) (simp add: url_safe_def demo_codec_def)
  have i: "in_i64 (1000 + 3600)" by code_simp
  have u: "url_parse demo_proxy ''https://radio.example/a.ts'' = Inr (demo_url ''https://radio.example/a.ts'')"
    by (simp add: demo_proxy_def)
  have pu: "public_url (demo_url ''https://radio.example/a.ts'')" by code_simp
  have r: "req_query (demo_request (''resource='' @ sign demo_codec 1000 ''fip'' ''https://radio.example/a.ts''))
      = parse_query (''resource='' @ sign (proxy_codec demo_proxy) 1000 ''fip'' ''https://radio.example/a.ts'')"
    by (simp add: demo_request_def c)
  show ?thesis
    using playlist_links_play [OF l i u pu r, of "demo_station ''fip'' ''''" 4599 "\<lambda>_. 0"]
    by (simp add: demo_station_def)
qed

subsection \<open>The handlers\<close>

definition radio_api_error :: "radio_error \<Rightarrow> answer" where
  "radio_api_error e = (case e of
       Not_Found \<Rightarrow> Api_Error 404 ''not_found'' ''radio station not found''
     | Database \<Rightarrow> Api_Error 500 ''internal_error'' ''database error''
     | Invalid_Station message \<Rightarrow> Api_Error 500 ''internal_error'' message)"

definition stream_station :: "proxy \<Rightarrow> (nat \<Rightarrow> int) \<Rightarrow> int \<Rightarrow> table \<Rightarrow> string \<Rightarrow> string \<Rightarrow> radio_request
    \<Rightarrow> answer option \<times> url list \<times> report list" where
  "stream_station p clock now t user_id sid request =
     (case repo_get t user_id sid of
        Inl e \<Rightarrow> (Some (radio_api_error e), [], [])
      | Inr st \<Rightarrow> stream p clock now request st)"

definition stream_preview :: "proxy \<Rightarrow> (nat \<Rightarrow> int) \<Rightarrow> int \<Rightarrow> (string \<Rightarrow> string + search_result) \<Rightarrow> string \<Rightarrow> radio_request
    \<Rightarrow> answer option \<times> url list \<times> report list" where
  "stream_preview p clock now lookup station_uuid request =
     (case lookup station_uuid of
        Inl e \<Rightarrow> (Some (bad_request e), [], [])
      | Inr result \<Rightarrow> stream p clock now request (preview_station result))"

definition preview_station_stream :: "proxy \<Rightarrow> (nat \<Rightarrow> int) \<Rightarrow> int \<Rightarrow> (string \<Rightarrow> string + search_result) \<Rightarrow> string
    \<Rightarrow> search_result option \<Rightarrow> radio_request \<Rightarrow> answer option \<times> url list \<times> report list" where
  "preview_station_stream p clock now lookup station_uuid result request =
     (case import_result lookup station_uuid result of
        Inl e \<Rightarrow> (Some (bad_request e), [], [])
      | Inr r \<Rightarrow> stream p clock now request (preview_station r))"

lemma read_playlist_bound:
  "read_playlist before chunks = Inr bytes \<Longrightarrow> length before \<le> MAX_HLS_PLAYLIST_BYTES \<Longrightarrow> length bytes \<le> MAX_HLS_PLAYLIST_BYTES"
  by (induction before chunks rule: read_playlist.induct) (auto split: if_splits)

lemma valid_stream_url: "station_valid parse_fn s \<Longrightarrow> validate_stream_url parse_fn (st_stream_url s) = Inr ()"
  by (auto simp: station_valid_def validate_station_def and_then_Inr_iff split: if_splits)

text \<open>a saved station can always be opened. After any history of the user's stations, a request for
the stream of one that is there is never refused by the proxy's own checks: it fetches the station's
stream URL, and that alone, and its answer is the upstream's or an error of the upstream's making.
For a station that is not there, or is another user's, nothing is fetched.\<close>

theorem saved_stations_open:
  assumes "t = foldl (radio_step (url_parse p)) [] ops"
    and "query_values (req_query request) ''url'' = None" and "query_get (req_query request) ''resource'' = []"
  shows "case repo_get t user_id sid of
      Inr st \<Rightarrow> \<exists>u. url_parse p (st_stream_url st) = Inr u \<and> public_url u
        \<and> fst (snd (stream_station p clock now t user_id sid request)) = [u]
    | Inl e \<Rightarrow> e = Not_Found \<and> stream_station p clock now t user_id sid request
        = (Some (Api_Error 404 ''not_found'' ''radio station not found''), [], [])"
proof (cases "repo_get t user_id sid")
  case (Inl e)
  then have "e = Not_Found" by (auto simp: repo_get_def ok_or_def split: option.splits)
  with Inl show ?thesis by (simp add: stream_station_def radio_api_error_def)
next
  case (Inr st)
  have "table_ok (url_parse p) t"
    unfolding assms(1) by (induction ops rule: rev_induct) (simp_all add: radio_step_ok)
  moreover have "(user_id, st) \<in> set t"
    using Inr by (auto simp: repo_get_def find_Some_iff) (metis nth_mem)
  ultimately have "validate_stream_url (url_parse p) (st_stream_url st) = Inr ()"
    by (intro valid_stream_url) (force simp: table_ok_def list_all_iff)
  moreover from this obtain u where u: "url_parse p (st_stream_url st) = Inr u" "public_url u"
    by (auto simp: validate_public)
  ultimately have "choose_url p now request st = Inr u"
    using assms(2,3) by (simp add: choose_url_def Let_def)
  then have "fst (snd (stream p clock now request st)) = [u]"
    by (auto simp: stream_def split: sum.splits prod.splits)
  with Inr u show ?thesis by (simp add: stream_station_def)
qed

lemma saved_stations_open_witness:
  "\<exists>s. repo_get (foldl (radio_step (url_parse demo_proxy)) [] [Import ''a'' ''u'' spaced_result]) ''u'' ''a'' = Inr s
     \<and> fst (snd (stream_station demo_proxy (\<lambda>_. 0) 0 (foldl (radio_step (url_parse demo_proxy)) [] [Import ''a'' ''u'' spaced_result])
          ''u'' ''a'' (demo_request ''''))) = [demo_url ''https://radio.example'']"
proof -
  let ?t = "foldl (radio_step (url_parse demo_proxy)) [] [Import ''a'' ''u'' spaced_result]"
  have "case repo_get ?t ''u'' ''a'' of Inl e \<Rightarrow> False | Inr s \<Rightarrow> st_stream_url s = ''https://radio.example''"
    by code_simp
  then obtain s where s: "repo_get ?t ''u'' ''a'' = Inr s" "st_stream_url s = ''https://radio.example''"
    by (auto split: sum.splits)
  have q: "query_values (req_query (demo_request '''')) ''url'' = None" "query_get (req_query (demo_request '''')) ''resource'' = []"
    by code_simp+
  have d: "url_parse demo_proxy x = Inr (demo_url x)" for x by (simp add: demo_proxy_def)
  from saved_stations_open [OF refl q, where ops = "[Import ''a'' ''u'' spaced_result]" and user_id = "''u''" and sid = "''a''"
      and clock = "\<lambda>_. 0" and now = 0 and p = demo_proxy] s d
  show ?thesis by auto
qed

end
