(* ===== verification/Radio_Catalog.thy ===== *)
theory Radio_Catalog
  imports Complex_Main Radio_Service Json_Value "HOL-Library.List_Lexorder" "HOL-Library.Char_ord"
begin

text \<open>
  The Radio Browser catalog (\<open>modules/radio/browser.rs\<close>): the queries sent, the records read
  and the merged pages of the AAC family. The HTTP request with its JSON decoder is the
  parameter \<open>fetch_json\<close> from a path to the records; a JSON number's value is read by \<open>as_f64\<close>,
  and the Unicode tables are \<open>lower_first\<close>, the first character of a character's lower case.
\<close>

subsection \<open>Records\<close>

record raw_station =
  stationuuid :: string
  rs_name :: string
  rs_url :: string
  url_resolved :: string
  homepage :: string
  favicon :: string
  rs_country :: string
  rs_language :: string
  rs_tags :: string
  rs_codec :: string
  bitrate :: json
  votes :: json
  lastcheckok :: json
  lastchecktime_iso8601 :: string
  lastcheckoktime_iso8601 :: string

record raw_option =
  ro_name :: string
  iso_3166_1 :: string
  stationcount :: json

record catalog_option =
  co_name :: string
  co_code :: string
  co_station_count :: int

datatype browser_error = Browser_Not_Found | Failed string

definition split_tags :: "string \<Rightarrow> string list" where
  "split_tags text = filter (\<lambda>tag. tag \<noteq> []) (map utrim (split_char (CHR '','') text))"

text \<open>A cast of a finite \<open>f64\<close> to \<open>i64\<close>: toward zero, and to the nearest bound.\<close>

definition f64_to_i64 :: "rat \<Rightarrow> int" where
  "f64_to_i64 x = clamp_i64 (if 0 \<le> x then \<lfloor>x\<rfloor> else \<lceil>x\<rceil>)"

fun int_value :: "(string \<Rightarrow> rat option) \<Rightarrow> json \<Rightarrow> int" where
  "int_value as_f64 (JNumber n) = (case as_f64 n of Some x \<Rightarrow> f64_to_i64 x | None \<Rightarrow> 0)"
| "int_value as_f64 (JString text) = (case parse_i64 text of Some i \<Rightarrow> i | None \<Rightarrow> 0)"
| "int_value as_f64 _ = 0"

fun health_status :: "(string \<Rightarrow> rat option) \<Rightarrow> json \<Rightarrow> string" where
  "health_status as_f64 (JBool True) = ''healthy''"
| "health_status as_f64 (JBool False) = ''broken''"
| "health_status as_f64 (JNumber n) = (if as_f64 n = Some 1 then ''healthy'' else ''broken'')"
| "health_status as_f64 (JString text) =
     (if text = ''1'' \<or> eq_ignore_ascii_case text ''true'' then ''healthy''
      else if text = ''0'' \<or> eq_ignore_ascii_case text ''false'' then ''broken'' else ''unknown'')"
| "health_status as_f64 _ = ''unknown''"

definition is_http_url :: "url_parser \<Rightarrow> string \<Rightarrow> bool" where
  "is_http_url url_parse text \<longleftrightarrow>
     (case url_parse text of
        Inl _ \<Rightarrow> False
      | Inr parsed \<Rightarrow> scheme parsed \<in> {''http'', ''https''}
          \<and> (case url_host parsed of Some (Domain d) \<Rightarrow> d \<noteq> [] | Some _ \<Rightarrow> True | None \<Rightarrow> False))"

definition http_url_or_blank :: "url_parser \<Rightarrow> string \<Rightarrow> string" where
  "http_url_or_blank url_parse text = (if is_http_url url_parse text then text else [])"

definition non_blank :: "string \<Rightarrow> string option" where
  "non_blank text = (if utrim text \<noteq> [] then Some text else None)"

definition into_result :: "url_parser \<Rightarrow> (string \<Rightarrow> rat option) \<Rightarrow> raw_station \<Rightarrow> search_result" where
  "into_result url_parse as_f64 s =
     \<lparr>sr_station_uuid = stationuuid s, sr_name = utrim (rs_name s),
      sr_stream_url = (if url_resolved s = [] then rs_url s else url_resolved s),
      sr_homepage_url = http_url_or_blank url_parse (homepage s), sr_favicon_url = http_url_or_blank url_parse (favicon s),
      sr_country = rs_country s, sr_language = rs_language s, sr_tags = Some (split_tags (rs_tags s)),
      sr_codec = rs_codec s, sr_bitrate = int_value as_f64 (bitrate s), sr_votes = int_value as_f64 (votes s),
      sr_health_status = health_status as_f64 (lastcheckok s), sr_last_checked_at = non_blank (lastchecktime_iso8601 s),
      sr_last_successful_at = non_blank (lastcheckoktime_iso8601 s)\<rparr>"

subsection \<open>Queries\<close>

definition bounded :: "string \<Rightarrow> int \<Rightarrow> int \<Rightarrow> int \<Rightarrow> int" where
  "bounded text fallback minimum maximum =
     max minimum (min maximum (case parse_i64 text of Some i \<Rightarrow> i | None \<Rightarrow> fallback))"

definition upper_hex :: "nat \<Rightarrow> char" where
  "upper_hex n = (if n < 10 then char_of (48 + n) else char_of (55 + n))"

definition percent :: "char \<Rightarrow> string" where
  "percent c = [CHR ''%'', upper_hex (of_char c div 16), upper_hex (of_char c mod 16)]"

definition unreserved :: "char \<Rightarrow> bool" where
  "unreserved c \<longleftrightarrow>
     (let n = (of_char c :: nat) in
      65 \<le> n \<and> n \<le> 90 \<or> 97 \<le> n \<and> n \<le> 122 \<or> 48 \<le> n \<and> n \<le> 57 \<or> c \<in> {CHR ''-'', CHR ''_'', CHR ''.'', CHR ''~''})"

definition escape_char :: "char \<Rightarrow> string" where
  "escape_char c = (if unreserved c then [c] else if c = CHR '' '' then [CHR ''+''] else percent c)"

definition query_escape :: "string \<Rightarrow> string" where
  "query_escape text = concat (map escape_char text)"

definition path_escape :: "string \<Rightarrow> string" where
  "path_escape text =
     concat (map (\<lambda>c. if unreserved c \<or> c \<in> {CHR ''$'', CHR ''&'', CHR ''+'', CHR '','', CHR '':'', CHR '';'', CHR ''='', CHR ''@''}
       then [c] else percent c) text)"

text \<open>A \<open>BTreeMap\<close>: its entries by key.\<close>

type_synonym params = "(string \<times> string) list"

definition params_insert :: "string \<Rightarrow> string \<Rightarrow> params \<Rightarrow> params" where
  "params_insert k v ps = insort_key fst (k, v) (filter (\<lambda>p. fst p \<noteq> k) ps)"

definition params_remove :: "string \<Rightarrow> params \<Rightarrow> params" where
  "params_remove k ps = filter (\<lambda>p. fst p \<noteq> k) ps"

definition encode_params :: "params \<Rightarrow> string" where
  "encode_params ps = join_with (CHR ''&'') (map (\<lambda>(k, v). query_escape k @ CHR ''='' # query_escape v) ps)"

definition search_params :: "go_query \<Rightarrow> params" where
  "search_params q =
     (let ps = params_insert ''limit'' (show_int (bounded (query_get q ''limit'') 40 1 100)) [];
          ps = params_insert ''offset'' (show_int (bounded (query_get q ''offset'') 0 0 100000)) ps;
          ps = params_insert ''reverse'' ''false'' (params_insert ''order'' ''name'' ps);
          ps = (if utrim (query_get q ''q'') \<noteq> [] then params_insert ''name'' (utrim (query_get q ''q'')) ps else ps);
          ps = foldl (\<lambda>ps key. if query_get q key \<noteq> [] then params_insert key (query_get q key) ps else ps) ps
                 [''country'', ''language'', ''tag'', ''codec'']
      in if query_get q ''minBitrate'' \<noteq> [] then params_insert ''bitrateMin'' (query_get q ''minBitrate'') ps else ps)"

subsection \<open>Names in order\<close>

function utf8_chars :: "string \<Rightarrow> string list" where
  "utf8_chars s = (if s = [] then [] else take (fst (utf8_step s)) s # utf8_chars (drop (fst (utf8_step s)) s))"
  by pat_completeness auto

termination
  by (relation "measure length") (simp_all add: utf8_step_pos)

declare utf8_chars.simps [simp del]

text \<open>Capital I with a dot above (U+0130) is \<open>i\<close>, as in Go.\<close>

definition go_lower :: "(string \<Rightarrow> string option) \<Rightarrow> string \<Rightarrow> string" where
  "go_lower lower_first text =
     concat (map (\<lambda>c. if c = [CHR 0xC4, CHR 0xB0] then ''i'' else case lower_first c of Some d \<Rightarrow> d | None \<Rightarrow> c) (utf8_chars text))"

subsection \<open>The client\<close>

record catalog =
  cat_url_parse :: url_parser
  cat_as_f64 :: "string \<Rightarrow> rat option"
  cat_lower :: "string \<Rightarrow> string option"
  cat_upper :: "string \<Rightarrow> string"
  fetch_stations :: "string \<Rightarrow> browser_error + raw_station list"
  fetch_options :: "string \<Rightarrow> browser_error + raw_option list"

definition fetch_search :: "catalog \<Rightarrow> string \<Rightarrow> browser_error + search_result list" where
  "fetch_search c path =
     and_then (fetch_stations c path) (\<lambda>found.
       Inr (filter (\<lambda>r. is_http_url (cat_url_parse c) (sr_stream_url r))
              (map (into_result (cat_url_parse c) (cat_as_f64 c)) found)))"

definition search_path :: "params \<Rightarrow> string" where
  "search_path ps = ''/json/stations/search?'' @ encode_params ps"

definition family_path :: "params \<Rightarrow> string \<Rightarrow> int \<Rightarrow> string" where
  "family_path ps codec_name n =
     search_path (params_insert ''offset'' ''0'' (params_insert ''limit'' (show_int n) (params_insert ''codec'' codec_name ps)))"

definition search_aac_family :: "catalog \<Rightarrow> params \<Rightarrow> int \<Rightarrow> int \<Rightarrow> browser_error + search_result list" where
  "search_aac_family c ps limit offset =
     and_then (fetch_search c (family_path ps ''AAC'' (offset + limit))) (\<lambda>aac.
     and_then (fetch_search c (family_path ps ''AAC+'' (offset + limit))) (\<lambda>aac_plus.
       let found = sort_key (\<lambda>r. go_lower (cat_lower c) (sr_name r)) (aac @ aac_plus)
       in Inr (take (nat limit) (drop (nat offset) found))))"

definition search :: "catalog \<Rightarrow> go_query \<Rightarrow> browser_error + search_result list" where
  "search c q =
     (let limit = bounded (query_get q ''limit'') 40 1 100; offset = bounded (query_get q ''offset'') 0 0 100000;
          ps = search_params q
      in if eq_ignore_ascii_case (query_get q ''codec'') ''AAC'' \<or> eq_ignore_ascii_case (query_get q ''codecGroup'') ''aac''
         then search_aac_family c (params_remove ''codec'' ps) limit offset
         else fetch_search c (search_path ps))"

definition catalog_lookup :: "catalog \<Rightarrow> string \<Rightarrow> browser_error + search_result" where
  "catalog_lookup c station_uuid =
     and_then (fetch_search c (''/json/stations/byuuid/'' @ path_escape station_uuid)) (\<lambda>items.
       case items of [] \<Rightarrow> Inl Browser_Not_Found | r # _ \<Rightarrow> Inr r)"

definition countries :: "catalog \<Rightarrow> browser_error + catalog_option list" where
  "countries c =
     and_then (fetch_options c ''/json/countries?order=name&reverse=false'') (\<lambda>found.
       Inr (map (\<lambda>option. \<lparr>co_name = ro_name option, co_code = cat_upper c (iso_3166_1 option),
          co_station_count = int_value (cat_as_f64 c) (stationcount option)\<rparr>) found))"

definition catalog_tags :: "catalog \<Rightarrow> browser_error + catalog_option list" where
  "catalog_tags c =
     and_then (fetch_options c ''/json/tags?order=name&reverse=false'') (\<lambda>found.
       Inr (map (\<lambda>option. \<lparr>co_name = ro_name option, co_code = [],
          co_station_count = int_value (cat_as_f64 c) (stationcount option)\<rparr>) found))"

subsection \<open>What is sent is what is read\<close>

lemma hex_upper: "n < 16 \<Longrightarrow> hex_digit (upper_hex n) = Some n \<and> upper_hex n \<noteq> CHR ''+'' \<and> byte_in 0 0x7F (upper_hex n)"
  by (auto simp: hex_digit_def upper_hex_def Let_def byte_in_def dest: arg_cong [where f = "of_char :: char \<Rightarrow> nat"])

lemma unreserved_ascii: "unreserved c \<Longrightarrow> byte_in 0 0x7F c \<and> c \<notin> {CHR ''%'', CHR ''+'', CHR ''&'', CHR '';'', CHR ''=''}"
  by (auto simp: unreserved_def Let_def byte_in_def)

lemma nibbles: "of_char c div 16 < (16 :: nat)" "of_char c mod 16 < (16 :: nat)"
proof -
  have "of_char c < (256 :: nat)" by simp
  then show "of_char c div 16 < (16 :: nat)" by linarith
qed simp

lemma upper_hex_safe: "n < 16 \<Longrightarrow> upper_hex n \<notin> {CHR ''&'', CHR '';'', CHR ''=''}"
  by (auto simp: upper_hex_def dest: arg_cong [where f = "of_char :: char \<Rightarrow> nat"])

lemma escape_chars:
  assumes "x \<in> set (query_escape s)"
  shows "byte_in 0 0x7F x" and "x \<notin> {CHR ''&'', CHR '';'', CHR ''=''}"
proof -
  obtain c where c: "x \<in> set (escape_char c)" using assms by (auto simp: query_escape_def)
  then consider "unreserved c" "x = c" | "x = CHR ''+''" | "x = CHR ''%''"
    | "x = upper_hex (of_char c div 16)" | "x = upper_hex (of_char c mod 16)"
    by (auto simp: escape_char_def percent_def split: if_splits)
  then have "byte_in 0 0x7F x \<and> x \<notin> {CHR ''&'', CHR '';'', CHR ''=''}"
    using unreserved_ascii [of c] hex_upper [OF nibbles(1), of c] hex_upper [OF nibbles(2), of c]
      upper_hex_safe [OF nibbles(1), of c] upper_hex_safe [OF nibbles(2), of c]
    by cases (auto simp: byte_in_def)
  then show "byte_in 0 0x7F x" "x \<notin> {CHR ''&'', CHR '';'', CHR ''=''}" by simp_all
qed

lemma ascii_not_continuation: "byte_in 0 0x7F x \<Longrightarrow> \<not> byte_in 0x80 0xBF x"
  by (simp add: byte_in_def)

lemma unescape_escape: "unescape_bytes (query_escape s) = Some s"
proof (induction s)
  case Nil
  show ?case by (simp add: query_escape_def)
next
  case (Cons c s)
  have e: "query_escape (c # s) = escape_char c @ query_escape s" by (simp add: query_escape_def)
  consider "unreserved c" | "\<not> unreserved c" "c = CHR '' ''" | "\<not> unreserved c" "c \<noteq> CHR '' ''" by blast
  then show ?case
  proof cases
    case 1
    then show ?thesis using Cons unreserved_ascii [of c] by (simp add: e escape_char_def)
  next
    case 2
    then show ?thesis unfolding e using Cons by (simp add: escape_char_def)
  next
    case 3
    let ?h = "upper_hex (of_char c div 16)" and ?l = "upper_hex (of_char c mod 16)"
    note h = hex_upper [OF nibbles(1), of c] and l = hex_upper [OF nibbles(2), of c]
    have b: "is_char_boundary (?h # ?l # query_escape s) 2"
      using escape_chars(1) [of "hd (query_escape s)" s] ascii_not_continuation
      by (cases "query_escape s") (auto simp: is_char_boundary_def)
    have "is_char_boundary (?h # ?l # query_escape s) 0"
      using h ascii_not_continuation by (auto simp: is_char_boundary_def)
    with b have t: "two_chars (?h # ?l # query_escape s) = Some [?h, ?l]" by (simp add: two_chars_def)
    have n: "(of_char c :: nat) = of_char c div 16 * 16 + of_char c mod 16" by simp
    have "from_str_radix_16 [?h, ?l] = Some (of_char c)"
      using h l of_char_mod_256 [of c] by (simp add: from_str_radix_16_def)
    with t Cons 3 show ?thesis by (simp add: e escape_char_def percent_def)
  qed
qed

lemma unescape_query: "utf8_valid s \<Longrightarrow> unescape (query_escape s) = Some s"
  by (simp add: unescape_def unescape_escape from_utf8_lossy_valid)

text \<open>the catalog is asked exactly what was meant. The query string made of any parameters, whatever
bytes their values hold, names and separators included, reads back as those parameters in their
order, by the server's own reading of query strings.\<close>

theorem query_round_trip:
  assumes "\<forall>(k, v) \<in> set ps. utf8_valid k \<and> utf8_valid v"
  shows "parse_query (encode_params ps) = ps"
proof (cases "ps = []")
  case True
  then show ?thesis by (simp add: encode_params_def parse_query_def List.map_filter_def)
next
  case False
  let ?pair = "\<lambda>(k, v). query_escape k @ CHR ''='' # query_escape v"
  have no: "CHR ''&'' \<notin> set (?pair p) \<and> CHR '';'' \<notin> set (?pair p) \<and> ?pair p \<noteq> []" for p
    using escape_chars(2) by (cases p) fastforce
  have "split_char (CHR ''&'') (encode_params ps) = map ?pair ps"
    unfolding encode_params_def using no False by (intro split_join_with) auto
  moreover have "filter (\<lambda>pair. pair \<noteq> [] \<and> CHR '';'' \<notin> set pair) (map ?pair ps) = map ?pair ps"
    using no by (auto simp: filter_id_conv)
  moreover have "parse_pair (?pair p) = Some p" if "p \<in> set ps" for p
  proof -
    obtain k v where p: "p = (k, v)" by (cases p)
    have "CHR ''='' \<notin> set (query_escape k)" using escape_chars(2) by blast
    then have "split_once (CHR ''='') (?pair p) = Some (query_escape k, query_escape v)"
      by (simp add: p split_once_Some)
    moreover have "unescape (query_escape k) = Some k" "unescape (query_escape v) = Some v"
      using assms that unescape_query by (auto simp: p)
    ultimately show ?thesis by (simp add: parse_pair_def p)
  qed
  then have "List.map_filter parse_pair (map ?pair ps) = ps"
    by (induction ps) (simp_all add: List.map_filter_def)
  ultimately show ?thesis by (simp add: parse_query_def)
qed

lemma query_round_trip_witness:
  "parse_query (encode_params [(''name'', ''rock & roll = 100%''), (''tag'', ''a;b+c'')])
    = [(''name'', ''rock & roll = 100%''), (''tag'', ''a;b+c'')]"
  by (rule query_round_trip) code_simp

end
