(* ===== verification/Tag_Metadata.thy ===== *)
theory Tag_Metadata
  imports Inspect_Common Search_Text F64_Value "HOL-Library.Code_Target_Nat"
begin

text \<open>
  The tags of a file made into metadata (\<open>inspect/metadata.rs\<close> and the splitting of
  \<open>modules/library/genres.rs\<close>). A text is its list of code points. The tables of Unicode and
  NFC are the record \<open>case_tables\<close>. Raw tags are an association list with the keys in the order
  the map yields them.
\<close>

record case_tables =
  nfc :: "utext \<Rightarrow> utext"
  char_upper :: "nat \<Rightarrow> utext"
  char_lower :: "nat \<Rightarrow> utext"
  str_lower :: "utext \<Rightarrow> utext"

type_synonym tags = "(utext \<times> utext list) list"

definition MAX_IDENTITY_VALUE_BYTES :: nat where
  "MAX_IDENTITY_VALUE_BYTES = 200"

definition MAX_MEDIA_POSITION :: int where
  "MAX_MEDIA_POSITION = 9999"

definition INVALID_MARKER :: nat where
  "INVALID_MARKER = 0xFFFE"

definition without_marker :: "utext \<Rightarrow> utext" where
  "without_marker s = (case s of c # t \<Rightarrow> if c = INVALID_MARKER then t else s | [] \<Rightarrow> [])"

subsection \<open>Text\<close>

definition text_trim :: "utext \<Rightarrow> utext" where
  "text_trim s = rev (dropWhile is_whitespace (rev (dropWhile is_whitespace s)))"

definition go_upper :: "case_tables \<Rightarrow> utext \<Rightarrow> utext" where
  "go_upper u s = map (\<lambda>c. case char_upper u c of [single] \<Rightarrow> single | _ \<Rightarrow> c) s"

definition go_lower_text :: "case_tables \<Rightarrow> utext \<Rightarrow> utext" where
  "go_lower_text u s = map (\<lambda>c. case char_lower u c of d # _ \<Rightarrow> d | [] \<Rightarrow> c) s"

definition tag_key :: "case_tables \<Rightarrow> utext \<Rightarrow> utext" where
  "tag_key u s = go_upper u (text_trim s)"

text \<open>The number of bytes in UTF-8.\<close>

definition char_bytes :: "nat \<Rightarrow> nat" where
  "char_bytes c = (if c < 0x80 then 1 else if c < 0x800 then 2 else if c < 0x10000 then 3 else 4)"

definition text_bytes :: "utext \<Rightarrow> nat" where
  "text_bytes s = sum_list (map char_bytes s)"

text \<open>\<open>char::is_control\<close>: the category \<open>Cc\<close>.\<close>

definition is_control :: "nat \<Rightarrow> bool" where
  "is_control c \<longleftrightarrow> c < 0x20 \<or> 0x7F \<le> c \<and> c \<le> 0x9F"

definition is_unsafe_identity_char :: "nat \<Rightarrow> bool" where
  "is_unsafe_identity_char c \<longleftrightarrow>
     is_control c
     \<or> c \<in> {0x061C, 0x200E, 0x200F} \<or> 0x202A \<le> c \<and> c \<le> 0x202E \<or> 0x2066 \<le> c \<and> c \<le> 0x2069
     \<or> 0xFDD0 \<le> c \<and> c \<le> 0xFDEF
     \<or> and c 0xFFFE = 0xFFFE"

definition normalize_value :: "case_tables \<Rightarrow> utext \<Rightarrow> utext option" where
  "normalize_value u value =
     (if list_ex is_unsafe_identity_char value then None
      else let v = nfc u (text_trim value) in
        if MAX_IDENTITY_VALUE_BYTES < text_bytes v \<or> list_ex is_unsafe_identity_char v then None
        else let v = join_spaces (split_whitespace v) in if v = [] then None else Some v)"

subsection \<open>Required and optional tags\<close>

definition tag_values :: "tags \<Rightarrow> string \<Rightarrow> utext list" where
  "tag_values ts key = (case map_of ts (txt_of key) of Some vs \<Rightarrow> vs | None \<Rightarrow> [])"

definition has_values :: "tags \<Rightarrow> string \<Rightarrow> bool" where
  "has_values ts key \<longleftrightarrow> tag_values ts key \<noteq> []"

definition invalid_tag :: "string \<Rightarrow> string \<Rightarrow> failure" where
  "invalid_tag key reason = error InvalidMetadata key reason"

text \<open>\<open>collect\<close> into a result: the first failure, or all values.\<close>

fun collect_values :: "case_tables \<Rightarrow> string \<Rightarrow> utext list \<Rightarrow> failure + utext list" where
  "collect_values u key [] = Inr []"
| "collect_values u key (v # vs) =
     (case normalize_value u v of
        None \<Rightarrow> Inl (invalid_tag key ''tag is empty, too long, or contains unsafe characters'')
      | Some w \<Rightarrow> and_then (collect_values u key vs) (\<lambda>ws. Inr (w # ws)))"

definition required_tags :: "case_tables \<Rightarrow> tags \<Rightarrow> string \<Rightarrow> failure + utext list" where
  "required_tags u ts key =
     (if tag_values ts key = [] then Inl (invalid_tag key ''required tag is missing'')
      else collect_values u key (tag_values ts key))"

definition required_single_tag :: "case_tables \<Rightarrow> tags \<Rightarrow> string \<Rightarrow> failure + utext" where
  "required_single_tag u ts key =
     and_then (required_tags u ts key) (\<lambda>vs.
       case vs of [v] \<Rightarrow> Inr v | _ \<Rightarrow> Inl (invalid_tag key ''expected exactly one value''))"

definition required_artist_credits :: "case_tables \<Rightarrow> tags \<Rightarrow> string \<Rightarrow> failure + utext list" where
  "required_artist_credits u ts key =
     (if map_of ts (txt_of (key @ ''S'')) \<noteq> None then required_tags u ts (key @ ''S'') else required_tags u ts key)"

subsection \<open>Numbers\<close>

definition digit_of :: "nat \<Rightarrow> nat option" where
  "digit_of c = (if 48 \<le> c \<and> c \<le> 57 then Some (c - 48) else None)"

definition digits_only :: "utext \<Rightarrow> bool" where
  "digits_only s \<longleftrightarrow> s \<noteq> [] \<and> list_all (\<lambda>c. digit_of c \<noteq> None) s"

definition strip_sign :: "utext \<Rightarrow> utext" where
  "strip_sign s = (case s of c # t \<Rightarrow> if c = 43 \<or> c = 45 then t else s | [] \<Rightarrow> [])"

definition digits_number :: "utext \<Rightarrow> nat" where
  "digits_number s = foldl (\<lambda>n c. n * 10 + (c - 48)) 0 s"

definition atoi :: "utext \<Rightarrow> int option" where
  "atoi s =
     (let ds = strip_sign s in
      if \<not> digits_only ds then None
      else let n = (if s \<noteq> [] \<and> hd s = 45 then - int (digits_number ds) else int (digits_number ds))
        in if in_i64 n then Some n else None)"

text \<open>The text of an error is a string of bytes.\<close>

definition char_utf8 :: "nat \<Rightarrow> string" where
  "char_utf8 c =
     (if c < 0x80 then [char_of c]
      else if c < 0x800 then [char_of (0xC0 + c div 64), char_of (0x80 + c mod 64)]
      else if c < 0x10000 then [char_of (0xE0 + c div 4096), char_of (0x80 + c div 64 mod 64), char_of (0x80 + c mod 64)]
      else [char_of (0xF0 + c div 262144), char_of (0x80 + c div 4096 mod 64), char_of (0x80 + c div 64 mod 64),
            char_of (0x80 + c mod 64)])"

definition hex_lower :: "nat \<Rightarrow> char" where
  "hex_lower n = (if n < 10 then char_of (48 + n) else char_of (87 + n))"

definition go_quote :: "utext \<Rightarrow> string" where
  "go_quote s = [CHR 0x22] @ concat (map (\<lambda>c.
     if c = 0x22 then [CHR 0x5C, CHR 0x22] else if c = 0x5C then [CHR 0x5C, CHR 0x5C]
     else if c = 10 then [CHR 0x5C, CHR ''n''] else if c = 9 then [CHR 0x5C, CHR ''t''] else if c = 13 then [CHR 0x5C, CHR ''r'']
     else if c < 0x20 \<or> c = 0x7F then [CHR 0x5C, CHR ''x'', hex_lower (c div 16), hex_lower (c mod 16)]
     else char_utf8 c) s) @ [CHR 0x22]"

definition atoi_error :: "utext \<Rightarrow> string" where
  "atoi_error s =
     ''strconv.Atoi: parsing '' @ go_quote s
     @ (if digits_only (strip_sign s) then '': value out of range'' else '': invalid syntax'')"

subsection \<open>Positions and the year\<close>

record media_position =
  number :: int
  total :: int

definition parse_position :: "utext \<Rightarrow> string + media_position" where
  "parse_position value =
     (let parts = split_char 47 value in
      if 2 < length parts then Inl ''too many position parts''
      else let first = text_trim (parts ! 0) in
        (case atoi first of
           None \<Rightarrow> Inl (atoi_error first)
         | Some n \<Rightarrow>
             if n \<le> 0 \<or> MAX_MEDIA_POSITION < n then Inl ''position is outside the supported range''
             else if length parts = 1 \<or> text_trim (parts ! 1) = [] then Inr \<lparr>number = n, total = 0\<rparr>
             else (case atoi (text_trim (parts ! 1)) of
                 Some t \<Rightarrow> if n \<le> t \<and> t \<le> MAX_MEDIA_POSITION then Inr \<lparr>number = n, total = t\<rparr>
                           else Inl ''position total is invalid''
               | None \<Rightarrow> Inl ''position total is invalid'')))"

definition required_position :: "case_tables \<Rightarrow> tags \<Rightarrow> string \<Rightarrow> failure + media_position" where
  "required_position u ts key =
     and_then (required_single_tag u ts key) (\<lambda>value.
       map_err (\<lambda>cause. invalid_tag key (''position must be between 1 and 9999 with an optional total: '' @ cause))
         (parse_position value))"

definition optional_total :: "case_tables \<Rightarrow> tags \<Rightarrow> string \<Rightarrow> failure + int option" where
  "optional_total u ts key =
     (if \<not> has_values ts key then Inr None
      else and_then (required_single_tag u ts key) (\<lambda>value.
        case atoi value of
          Some t \<Rightarrow> if 0 < t \<and> t \<le> MAX_MEDIA_POSITION then Inr (Some t)
                    else Inl (invalid_tag key ''total must be between 1 and 9999'')
        | None \<Rightarrow> Inl (invalid_tag key ''total must be between 1 and 9999'')))"

definition merge_position_total :: "case_tables \<Rightarrow> tags \<Rightarrow> media_position \<Rightarrow> string \<Rightarrow> failure + media_position" where
  "merge_position_total u ts position total_key =
     and_then (optional_total u ts total_key) (\<lambda>r.
       case r of
         None \<Rightarrow> Inr position
       | Some t \<Rightarrow>
           if 0 < total position \<and> total position \<noteq> t then Inl (invalid_tag total_key ''total conflicts with the position tag'')
           else if t < number position then Inl (invalid_tag total_key ''total must not be less than the position'')
           else Inr (position\<lparr>total := t\<rparr>))"

definition track_position_of :: "case_tables \<Rightarrow> tags \<Rightarrow> failure + media_position" where
  "track_position_of u ts =
     and_then (required_position u ts ''TRACKNUMBER'') (\<lambda>p. merge_position_total u ts p ''TOTALTRACKS'')"

definition disc_position_of :: "case_tables \<Rightarrow> tags \<Rightarrow> failure + media_position" where
  "disc_position_of u ts =
     and_then (if has_values ts ''DISCNUMBER'' then required_position u ts ''DISCNUMBER''
               else Inr \<lparr>number = 1, total = 0\<rparr>) (\<lambda>p.
     and_then (merge_position_total u ts p ''TOTALDISCS'') (\<lambda>p.
       if \<not> has_values ts ''DISCNUMBER'' \<and> 1 < total p then Inl (invalid_tag ''DISCNUMBER'' ''required for a multi-disc Album'')
       else Inr p))"

text \<open>The first four bytes of the date: they are characters when all four are ASCII; a longer
  character among them either does not end there or is no digit.\<close>

definition optional_year :: "case_tables \<Rightarrow> tags \<Rightarrow> failure + int" where
  "optional_year u ts =
     (if \<not> has_values ts ''DATE'' then Inr 0
      else and_then (required_single_tag u ts ''DATE'') (\<lambda>value.
        let failed = Inl (invalid_tag ''DATE'' ''date must begin with a four-digit year'') in
        if text_bytes value < 4 \<or> \<not> list_all (\<lambda>c. c < 0x80) (take 4 value) \<or> length value < 4 then failed
        else (case atoi (take 4 value) of
            Some y \<Rightarrow> if 0 < y then Inr y else failed
          | None \<Rightarrow> failed)))"

subsection \<open>Loudness\<close>

text \<open>\<open>f64::from_str\<close> on what is neither an infinity nor a NaN: a sign, digits with at most one
  point among them, and an exponent; the value is rounded to the nearest number.\<close>

definition parse_exponent :: "utext \<Rightarrow> int option" where
  "parse_exponent s =
     (let ds = strip_sign s in
      if digits_only ds then Some (if s \<noteq> [] \<and> hd s = 45 then - int (digits_number ds) else int (digits_number ds)) else None)"

definition parse_decimal :: "utext \<Rightarrow> rat option" where
  "parse_decimal s =
     (let mantissa = takeWhile (\<lambda>c. c \<noteq> 101 \<and> c \<noteq> 69) s;
          exponent = dropWhile (\<lambda>c. c \<noteq> 101 \<and> c \<noteq> 69) s;
          whole = takeWhile (\<lambda>c. c \<noteq> 46) mantissa;
          fract = drop 1 (dropWhile (\<lambda>c. c \<noteq> 46) mantissa)
      in if \<not> digits_only (whole @ fract) then None
         else (case (if exponent = [] then Some 0 else parse_exponent (tl exponent)) of
             None \<Rightarrow> None
           | Some e \<Rightarrow> Some (of_nat (digits_number (whole @ fract)) * 10 powi (e - int (length fract)))))"

definition parse_f64 :: "utext \<Rightarrow> f64 option" where
  "parse_f64 s =
     (let negative = s \<noteq> [] \<and> hd s = 45 in
      map_option (\<lambda>x. f64_of (if negative then - x else x)) (parse_decimal (strip_sign s)))"

definition ascii_lower :: "utext \<Rightarrow> utext" where
  "ascii_lower s = map (\<lambda>c. if 65 \<le> c \<and> c \<le> 90 then c + 32 else c) s"

definition go_parse_float :: "utext \<Rightarrow> f64 option" where
  "go_parse_float value =
     (if dropWhile (\<lambda>c. c = 43 \<or> c = 45) (ascii_lower value) \<in> {txt_of ''inf'', txt_of ''infinity'', txt_of ''nan''} then None
      else (case parse_f64 value of
          Some x \<Rightarrow> if is_finite x then Some x else None
        | None \<Rightarrow> None))"

definition strip_db :: "utext \<Rightarrow> utext" where
  "strip_db s = (if suffix (txt_of ''db'') s then take (length s - 2) s else s)"

definition parse_replay_gain_value :: "case_tables \<Rightarrow> utext \<Rightarrow> f64 option" where
  "parse_replay_gain_value u value = go_parse_float (text_trim (strip_db (str_lower u (text_trim value))))"

definition parse_replay_gain_peak :: "case_tables \<Rightarrow> utext \<Rightarrow> f64 option" where
  "parse_replay_gain_peak u value =
     (case parse_replay_gain_value u value of Some p \<Rightarrow> if f64_le (Fin 0) p then Some p else None | None \<Rightarrow> None)"

record replay_gain =
  track_gain_db :: "f64 option"
  track_peak :: "f64 option"
  album_gain_db :: "f64 option"
  album_peak :: "f64 option"

text \<open>A hash map keeps the last of two entries with one key.\<close>

definition replay_gain_from_strings :: "case_tables \<Rightarrow> (utext \<times> utext) list \<Rightarrow> replay_gain" where
  "replay_gain_from_strings u entries =
     (let get = (\<lambda>key. case map_of (rev (map (\<lambda>(k, v). (go_upper u k, v)) entries)) (txt_of key) of Some v \<Rightarrow> v | None \<Rightarrow> [])
      in \<lparr>track_gain_db = parse_replay_gain_value u (get ''REPLAYGAIN_TRACK_GAIN''),
          track_peak = parse_replay_gain_peak u (get ''REPLAYGAIN_TRACK_PEAK''),
          album_gain_db = parse_replay_gain_value u (get ''REPLAYGAIN_ALBUM_GAIN''),
          album_peak = parse_replay_gain_peak u (get ''REPLAYGAIN_ALBUM_PEAK'')\<rparr>)"

definition replay_gain_from_tags :: "case_tables \<Rightarrow> tags \<Rightarrow> replay_gain" where
  "replay_gain_from_tags u ts =
     replay_gain_from_strings u (List.map_filter (\<lambda>(k, vs). case vs of v # _ \<Rightarrow> Some (k, v) | [] \<Rightarrow> None) ts)"

subsection \<open>Genres and lyrics\<close>

fun split_on :: "('a \<Rightarrow> bool) \<Rightarrow> 'a list \<Rightarrow> 'a list list" where
  "split_on P [] = [[]]"
| "split_on P (x # xs) =
     (if P x then [] # split_on P xs else (case split_on P xs of [] \<Rightarrow> [[x]] | p # ps \<Rightarrow> (x # p) # ps))"

definition is_genre_delimiter :: "nat \<Rightarrow> bool" where
  "is_genre_delimiter c \<longleftrightarrow> c \<in> {59, 47, 124, 44}"

text \<open>The first of every spelling: \<open>filter\<close> with the set of keys seen so far.\<close>

fun keep_first :: "('a \<Rightarrow> 'k) \<Rightarrow> 'k list \<Rightarrow> 'a list \<Rightarrow> 'a list" where
  "keep_first key seen [] = []"
| "keep_first key seen (x # xs) =
     (if key x \<in> set seen then keep_first key seen xs else x # keep_first key (key x # seen) xs)"

definition split_genres :: "case_tables \<Rightarrow> utext \<Rightarrow> utext list" where
  "split_genres u s =
     keep_first (str_lower u) [] (filter (\<lambda>p. p \<noteq> []) (map text_trim (split_on is_genre_delimiter (text_trim s))))"

definition split_genre_tag_values :: "case_tables \<Rightarrow> utext list \<Rightarrow> utext list" where
  "split_genre_tag_values u values =
     keep_first (str_lower u) [] (concat (map (\<lambda>v. split_genres u (without_marker v)) values))"

fun line_feeds :: "utext \<Rightarrow> utext" where
  "line_feeds [] = []"
| "line_feeds (c # s) =
     (if c = 13 then 10 # (if s \<noteq> [] \<and> hd s = 10 then line_feeds (tl s) else line_feeds s) else c # line_feeds s)"

definition optional_lyrics :: "tags \<Rightarrow> utext" where
  "optional_lyrics ts =
     (case filter (\<lambda>v. v \<noteq> []) (map (\<lambda>v. text_trim (line_feeds (without_marker v)))
         (concat (map (tag_values ts) [''LYRICS'', ''UNSYNCEDLYRICS'', ''UNSYNCED LYRICS'']))) of
        v # _ \<Rightarrow> v
      | [] \<Rightarrow> [])"

subsection \<open>The metadata\<close>

record metadata =
  album_identity_key :: utext
  md_title :: utext
  artists :: "utext list"
  album_artists :: "utext list"
  md_album :: utext
  track_position :: media_position
  disc_position :: media_position
  has_disc_number :: bool
  genres :: "utext list"
  year :: int
  md_replay_gain :: replay_gain
  lyrics :: utext

definition normalize :: "case_tables \<Rightarrow> tags \<Rightarrow> replay_gain \<Rightarrow> failure + metadata" where
  "normalize u ts rg =
     (let title_r = required_single_tag u ts ''TITLE'';
          artists_r = required_artist_credits u ts ''ARTIST'';
          album_artists_r = required_artist_credits u ts ''ALBUMARTIST'';
          album_r = required_single_tag u ts ''ALBUM'';
          track = track_position_of u ts;
          disc = disc_position_of u ts;
          yr = optional_year u ts;
          failed = failure_join [err_of title_r, err_of artists_r, err_of album_artists_r, err_of album_r,
            err_of track, err_of disc, err_of yr]
      in if failed \<noteq> [] then Inl failed
         else and_then title_r (\<lambda>t. and_then artists_r (\<lambda>a. and_then album_artists_r (\<lambda>aa. and_then album_r (\<lambda>al.
              and_then track (\<lambda>tp. and_then disc (\<lambda>dp. and_then yr (\<lambda>y.
                Inr \<lparr>album_identity_key = [], md_title = t, artists = a, album_artists = aa, md_album = al,
                     track_position = tp, disc_position = dp, has_disc_number = has_values ts ''DISCNUMBER'',
                     genres = split_genre_tag_values u (tag_values ts ''GENRE''), year = y,
                     md_replay_gain = rg, lyrics = optional_lyrics ts\<rparr>))))))))"

subsection \<open>What accepted metadata is\<close>

definition value_ok :: "utext \<Rightarrow> bool" where
  "value_ok v \<longleftrightarrow> v \<noteq> [] \<and> text_bytes v \<le> MAX_IDENTITY_VALUE_BYTES \<and> \<not> list_ex is_unsafe_identity_char v
     \<and> join_spaces (split_whitespace v) = v"

definition position_ok :: "media_position \<Rightarrow> bool" where
  "position_ok p \<longleftrightarrow> 1 \<le> number p \<and> number p \<le> MAX_MEDIA_POSITION
     \<and> (total p = 0 \<or> number p \<le> total p \<and> total p \<le> MAX_MEDIA_POSITION)"

definition metadata_ok :: "metadata \<Rightarrow> bool" where
  "metadata_ok m \<longleftrightarrow> value_ok (md_title m) \<and> value_ok (md_album m)
     \<and> artists m \<noteq> [] \<and> list_all value_ok (artists m) \<and> album_artists m \<noteq> [] \<and> list_all value_ok (album_artists m)
     \<and> position_ok (track_position m) \<and> position_ok (disc_position m)
     \<and> (1 < total (disc_position m) \<longrightarrow> has_disc_number m)
     \<and> 0 \<le> year m \<and> year m < 10000"

lemma join_split_idem: "join_spaces (split_whitespace (join_spaces (split_whitespace s))) = join_spaces (split_whitespace s)"
  using split_fields [of s] by (simp add: join_fields_def)

lemma char_bytes_pos: "1 \<le> char_bytes c"
  by (simp add: char_bytes_def)

lemma text_bytes_simps [simp]: "text_bytes [] = 0" "text_bytes (c # s) = char_bytes c + text_bytes s"
  "text_bytes (s @ t) = text_bytes s + text_bytes t"
  by (simp_all add: text_bytes_def)

lemma join_spaces_Cons: "join_spaces (w # ws) = (if ws = [] then w else w @ 32 # join_spaces ws)"
  by (cases ws) simp_all

lemma char_bytes_space [simp]: "char_bytes 32 = 1"
  by (simp add: char_bytes_def)

lemma join_words_bytes: "text_bytes (join_spaces (split_words acc s)) \<le> text_bytes acc + text_bytes s"
proof (induction acc s rule: split_words.induct)
  case (2 acc c s)
  then show ?case using char_bytes_pos [of c] by (auto simp: join_spaces_Cons)
qed simp

lemma join_words_chars: "c \<in> set (join_spaces (split_words acc s)) \<Longrightarrow> c = 32 \<or> c \<in> set acc \<or> c \<in> set s"
  by (induction acc s rule: split_words.induct) (auto simp: join_spaces_Cons split: if_splits)

lemma normalize_value_ok: "normalize_value u v = Some w \<Longrightarrow> value_ok w"
proof -
  assume n: "normalize_value u v = Some w"
  define x where "x = nfc u (text_trim v)"
  from n have b: "text_bytes x \<le> MAX_IDENTITY_VALUE_BYTES" and s: "\<not> list_ex is_unsafe_identity_char x"
    and w: "w = join_spaces (split_whitespace x)" "w \<noteq> []"
    by (auto simp: normalize_value_def Let_def x_def split: if_splits)
  have "\<not> is_unsafe_identity_char 32" by (simp add: is_unsafe_identity_char_def is_control_def)
  then have "\<not> list_ex is_unsafe_identity_char w"
    using s join_words_chars [of _ "[]" x] by (auto simp: w(1) split_whitespace_def list_ex_iff)
  moreover have "text_bytes w \<le> text_bytes x" using join_words_bytes [of "[]" x] by (simp add: w(1) split_whitespace_def)
  ultimately show ?thesis using b w join_split_idem by (simp add: value_ok_def)
qed

lemma collect_values_ok: "collect_values u key vs = Inr ws \<Longrightarrow> list_all value_ok ws \<and> length ws = length vs"
  by (induction vs arbitrary: ws) (auto simp: and_then_Inr_iff normalize_value_ok split: option.splits)

lemma required_tags_ok: "required_tags u ts key = Inr ws \<Longrightarrow> ws \<noteq> [] \<and> list_all value_ok ws"
  using collect_values_ok [of u key "tag_values ts key" ws] by (auto simp: required_tags_def split: if_splits)

lemma required_single_tags: "required_single_tag u ts key = Inr v \<Longrightarrow> required_tags u ts key = Inr [v]"
proof -
  assume "required_single_tag u ts key = Inr v"
  then obtain vs where vs: "required_tags u ts key = Inr vs"
    and v: "(case vs of [v] \<Rightarrow> Inr v | _ \<Rightarrow> Inl (invalid_tag key ''expected exactly one value'')) = Inr v"
    by (auto simp: required_single_tag_def and_then_Inr_iff)
  then show ?thesis by (cases vs rule: remdups_adj.cases) simp_all
qed

lemma required_single_ok: "required_single_tag u ts key = Inr v \<Longrightarrow> value_ok v"
  using required_tags_ok [of u ts key "[v]"] by (simp add: required_single_tags)

lemma credits_ok: "required_artist_credits u ts key = Inr ws \<Longrightarrow> ws \<noteq> [] \<and> list_all value_ok ws"
  by (auto simp: required_artist_credits_def split: if_splits dest: required_tags_ok)

lemma parse_position_ok: "parse_position v = Inr p \<Longrightarrow> position_ok p"
  by (auto simp: parse_position_def Let_def position_ok_def split: if_splits option.splits)

lemma required_position_ok: "required_position u ts key = Inr p \<Longrightarrow> position_ok p"
  by (auto simp: required_position_def and_then_Inr_iff dest: parse_position_ok)

lemma optional_total_ok: "optional_total u ts key = Inr (Some t) \<Longrightarrow> 0 < t \<and> t \<le> MAX_MEDIA_POSITION"
  by (auto simp: optional_total_def and_then_Inr_iff split: if_splits option.splits)

lemma merge_total_ok: "merge_position_total u ts p key = Inr q \<Longrightarrow> position_ok p \<Longrightarrow> position_ok q"
  by (auto simp: merge_position_total_def and_then_Inr_iff position_ok_def split: if_splits option.splits
      dest!: optional_total_ok)

lemma track_position_ok: "track_position_of u ts = Inr p \<Longrightarrow> position_ok p"
  by (auto simp: track_position_of_def and_then_Inr_iff dest: merge_total_ok required_position_ok)

lemma disc_position_ok:
  "disc_position_of u ts = Inr p \<Longrightarrow> position_ok p \<and> (1 < total p \<longrightarrow> has_values ts ''DISCNUMBER'')"
proof -
  assume d: "disc_position_of u ts = Inr p"
  have "position_ok \<lparr>number = 1, total = 0\<rparr>" by (simp add: position_ok_def MAX_MEDIA_POSITION_def)
  with d show ?thesis
    by (auto simp: disc_position_of_def and_then_Inr_iff split: if_splits dest: merge_total_ok required_position_ok)
qed

lemma digits_number_bound: "list_all (\<lambda>c. digit_of c \<noteq> None) s \<Longrightarrow> digits_number s < 10 ^ length s"
proof (induction s rule: rev_induct)
  case (snoc c s)
  then have "digits_number s < 10 ^ length s" "c - 48 < 10"
    by (auto simp: digit_of_def split: if_splits)
  then show ?case by (simp add: digits_number_def)
qed (simp add: digits_number_def)

lemma atoi_four: "atoi (take 4 s) = Some y \<Longrightarrow> y < 10000"
proof -
  assume a: "atoi (take 4 s) = Some y"
  let ?d = "strip_sign (take 4 s)"
  have "length ?d \<le> length (take 4 s)" unfolding strip_sign_def by (cases "take 4 s") simp_all
  then have "length ?d \<le> 4" by simp
  moreover have "digits_only ?d" using a by (auto simp: atoi_def Let_def split: if_splits)
  ultimately have "digits_number ?d < 10 ^ 4"
    using digits_number_bound [of ?d] power_increasing [of "length ?d" 4 "10 :: nat"] by (auto simp: digits_only_def)
  with a show ?thesis by (auto simp: atoi_def Let_def split: if_splits)
qed

lemma year_ok: "optional_year u ts = Inr y \<Longrightarrow> 0 \<le> y \<and> y < 10000"
  by (auto simp: optional_year_def and_then_Inr_iff Let_def split: if_splits option.splits dest: atoi_four)

text \<open>C28: metadata that is accepted is fit to name files and rows. Whatever the tags of a file hold,
when they are accepted the title, the album and every credit are nonempty, at most 200 bytes, free of
control characters, direction overrides and noncharacters, and have single spaces only; there is at
least one artist and album artist; the positions lie between 1 and 9999 and within their totals, an
album of several discs has a disc number, and the year has at most four digits.\<close>

theorem accepted_metadata_sound:
  assumes "normalize u ts rg = Inr m"
  shows "metadata_ok m"
  using assms
  by (auto simp: normalize_def Let_def and_then_Inr_iff metadata_ok_def split: if_splits
      dest: required_single_ok credits_ok track_position_ok disc_position_ok year_ok)

definition demo_tables :: case_tables where
  "demo_tables = \<lparr>nfc = (\<lambda>s. s), char_upper = (\<lambda>c. [if 97 \<le> c \<and> c \<le> 122 then c - 32 else c]),
     char_lower = (\<lambda>c. [if 65 \<le> c \<and> c \<le> 90 then c + 32 else c]), str_lower = ascii_lower\<rparr>"

definition demo_tags :: tags where
  "demo_tags = map (\<lambda>(k, vs). (txt_of k, map txt_of vs))
     [(''TITLE'', ['' Song  Title '']), (''ARTIST'', [''Artist'']), (''ALBUMARTIST'', [''Album Artist'']), (''ALBUM'', [''Album'']),
      (''TRACKNUMBER'', [''3/12'']), (''GENRE'', [''Pop, Rock'', ''rock; Jazz'']), (''DATE'', [''2021-04-01''])]"

definition no_replay_gain :: replay_gain where
  "no_replay_gain = \<lparr>track_gain_db = None, track_peak = None, album_gain_db = None, album_peak = None\<rparr>"

lemma demo_normalized:
  "case normalize demo_tables demo_tags no_replay_gain of
     Inl f \<Rightarrow> False
   | Inr m \<Rightarrow> md_title m = txt_of ''Song Title'' \<and> track_position m = \<lparr>number = 3, total = 12\<rparr>
       \<and> disc_position m = \<lparr>number = 1, total = 0\<rparr> \<and> genres m = map txt_of [''Pop'', ''Rock'', ''Jazz''] \<and> year m = 2021"
  by code_simp

lemma accepted_metadata_sound_witness:
  "\<exists>m. normalize demo_tables demo_tags no_replay_gain = Inr m \<and> metadata_ok m \<and> year m = 2021"
proof -
  obtain m where m: "normalize demo_tables demo_tags no_replay_gain = Inr m" and y: "year m = 2021"
    using demo_normalized by (auto split: sum.splits)
  from accepted_metadata_sound [OF m] m y show ?thesis by blast
qed

text \<open>A sign counts among the four digits of the year.\<close>

lemma signed_year: "optional_year demo_tables [(txt_of ''DATE'', [txt_of ''+201-01-01''])] = Inr 201"
  by code_simp

end
