(* ===== verification/Import_Errors.thy ===== *)
theory Import_Errors
  imports Inspect_Common Text_Scan
begin

text \<open>
  The errors of Managed Import (\<open>modules/managed_import/errors.rs\<close>): an error carries every
  sentinel of the errors joined into it, at most one validation error, and a message. The
  display of an inspection failure belongs to \<open>inspect/errors.rs\<close>.
\<close>

record issue =
  issue_code :: string
  issue_field :: string
  issue_reason :: string

datatype sentinel =
    Job_Not_Found | Invalid_State | Revision_Conflict | Exact_Duplicate | Upload_Too_Large | Batch_Too_Large
  | Upload_Interrupted | Invalid_Upload | Insufficient_Storage | Unsafe_Storage_Path | Track_Not_Found
  | Album_Not_Found | Not_Managed_Track | Deletion_Conflict | Replacement_Conflict | Not_Replacement_Job
  | Replacement_Required | Import_Cancelled

fun sentinel_message :: "sentinel \<Rightarrow> string" where
  "sentinel_message Job_Not_Found = ''managed import job not found''"
| "sentinel_message Invalid_State = ''managed import job is not awaiting this operation''"
| "sentinel_message Revision_Conflict = ''managed import revision conflict''"
| "sentinel_message Exact_Duplicate = ''managed import file exactly duplicates a committed Track''"
| "sentinel_message Upload_Too_Large = ''managed import file exceeds upload limit''"
| "sentinel_message Batch_Too_Large = ''managed import batch exceeds upload limit''"
| "sentinel_message Upload_Interrupted = ''managed import upload was interrupted''"
| "sentinel_message Invalid_Upload = ''managed import upload is invalid''"
| "sentinel_message Insufficient_Storage = ''managed storage capacity is insufficient''"
| "sentinel_message Unsafe_Storage_Path = ''managed storage path is unsafe''"
| "sentinel_message Track_Not_Found = ''track not found''"
| "sentinel_message Album_Not_Found = ''album not found''"
| "sentinel_message Not_Managed_Track = ''track is not managed''"
| "sentinel_message Deletion_Conflict = ''permanent track deletion preview changed''"
| "sentinel_message Replacement_Conflict = ''track replacement preview changed''"
| "sentinel_message Not_Replacement_Job = ''managed import job does not replace a track''"
| "sentinel_message Replacement_Required = ''managed import job requires track replacement confirmation''"
| "sentinel_message Import_Cancelled = ''context canceled''"

record validation_error =
  val_issues :: "issue list"
  val_code :: string
  val_field :: string
  val_reason :: string

definition validation_new :: "string \<Rightarrow> string \<Rightarrow> string \<Rightarrow> validation_error" where
  "validation_new c f r = \<lparr>val_issues = [], val_code = c, val_field = f, val_reason = r\<rparr>"

definition strict_reason :: "validation_error \<Rightarrow> string" where
  "strict_reason v = (if val_reason v = [] then ''validation failed'' else val_reason v)"

definition validation_issues :: "validation_error \<Rightarrow> issue list" where
  "validation_issues v =
     (if val_issues v \<noteq> [] then val_issues v
      else [\<lparr>issue_code = val_code v, issue_field = val_field v, issue_reason = strict_reason v\<rparr>])"

record import_error =
  sentinels :: "sentinel list"
  validation :: "validation_error option"
  err_message :: string

definition err_new :: "string \<Rightarrow> import_error" where
  "err_new m = \<lparr>sentinels = [], validation = None, err_message = m\<rparr>"

definition err_sentinel :: "sentinel \<Rightarrow> import_error" where
  "err_sentinel s = \<lparr>sentinels = [s], validation = None, err_message = sentinel_message s\<rparr>"

definition err_wrap :: "sentinel \<Rightarrow> string \<Rightarrow> import_error" where
  "err_wrap s detail = \<lparr>sentinels = [s], validation = None, err_message = sentinel_message s @ '': '' @ detail\<rparr>"

definition err_validation :: "validation_error \<Rightarrow> string \<Rightarrow> import_error" where
  "err_validation v m = \<lparr>sentinels = [], validation = Some v, err_message = m\<rparr>"

definition err_context :: "string \<Rightarrow> import_error \<Rightarrow> import_error" where
  "err_context c e = e\<lparr>err_message := c @ '': '' @ err_message e\<rparr>"

subsection \<open>Inspection failures\<close>

definition show_inspection_error :: "inspection_error \<Rightarrow> string" where
  "show_inspection_error e =
     (if error_field e = [] then ''inspect: '' @ code_text (error_code e) @ '': '' @ error_message e
      else ''inspect '' @ error_field e @ '': '' @ code_text (error_code e) @ '': '' @ error_message e)"

fun show_leaf :: "leaf \<Rightarrow> string" where
  "show_leaf (Inspection e) = show_inspection_error e"
| "show_leaf (Other m) = m"

definition show_failure :: "failure \<Rightarrow> string" where
  "show_failure f = join_with (CHR 0x0A) (map show_leaf f)"

definition err_from_inspection :: "failure \<Rightarrow> import_error" where
  "err_from_inspection f =
     (case failure_first f of
        Some first \<Rightarrow>
          err_validation
            \<lparr>val_issues = map (\<lambda>(c, fld, r). \<lparr>issue_code = code_text c, issue_field = fld, issue_reason = r\<rparr>) (issues f),
             val_code = code_text (error_code first), val_field = error_field first, val_reason = error_reason first\<rparr>
            (show_failure f)
      | None \<Rightarrow> err_new (show_failure f))"

subsection \<open>Joining\<close>

definition join_two :: "import_error \<Rightarrow> import_error \<Rightarrow> import_error" where
  "join_two e part =
     \<lparr>sentinels = sentinels e @ sentinels part,
      validation = (case validation e of None \<Rightarrow> validation part | Some v \<Rightarrow> Some v),
      err_message = err_message e @ [CHR 0x0A] @ err_message part\<rparr>"

fun join_onto :: "import_error option \<Rightarrow> import_error option list \<Rightarrow> import_error option" where
  "join_onto joined [] = joined"
| "join_onto joined (None # parts) = join_onto joined parts"
| "join_onto joined (Some part # parts) =
     join_onto (Some (case joined of None \<Rightarrow> part | Some e \<Rightarrow> join_two e part)) parts"

definition err_join :: "import_error option list \<Rightarrow> import_error option" where
  "err_join parts = join_onto None parts"

text \<open>\<open>Error::join([Some(e), ..]).unwrap()\<close>: the first part is there.\<close>

definition join_with_rest :: "import_error \<Rightarrow> import_error option list \<Rightarrow> import_error" where
  "join_with_rest e parts = (case err_join (Some e # parts) of Some j \<Rightarrow> j | None \<Rightarrow> e)"

definition err_is :: "sentinel \<Rightarrow> import_error \<Rightarrow> bool" where
  "err_is s e \<longleftrightarrow> s \<in> set (sentinels e)"

definition result_of :: "import_error option \<Rightarrow> import_error + unit" where
  "result_of e = (case e of Some e \<Rightarrow> Inl e | None \<Rightarrow> Inr ())"

definition also_failing :: "import_error + 'a \<Rightarrow> import_error option \<Rightarrow> import_error + 'a" where
  "also_failing r extra =
     (case extra of
        None \<Rightarrow> r
      | Some x \<Rightarrow> (case r of Inr _ \<Rightarrow> Inl x | Inl e \<Rightarrow> Inl (join_with_rest e [Some x])))"

definition error_part :: "import_error + 'a \<Rightarrow> import_error option" where
  "error_part r = (case r of Inl e \<Rightarrow> Some e | Inr _ \<Rightarrow> None)"

lemma error_part_simps [simp]: "error_part (Inl e) = Some e" "error_part (Inr x) = None"
  by (simp_all add: error_part_def)

lemma result_of_simps [simp]: "result_of None = Inr ()" "result_of (Some e) = Inl e"
  by (simp_all add: result_of_def)

lemma join_onto_Some: "\<exists>e'. join_onto (Some e) parts = Some e'"
proof (induction parts arbitrary: e)
  case (Cons part parts)
  then show ?case by (cases part) simp_all
qed simp

fun present :: "'a option list \<Rightarrow> 'a list" where
  "present [] = []"
| "present (None # xs) = present xs"
| "present (Some x # xs) = x # present xs"

lemma set_present: "x \<in> set (present xs) \<longleftrightarrow> Some x \<in> set xs"
  by (induction xs rule: present.induct) auto

lemma join_onto_parts:
  "join_onto (Some e) parts = Some j \<Longrightarrow>
     sentinels j = sentinels e @ concat (map sentinels (present parts))
     \<and> validation j = (case validation e of Some v \<Rightarrow> Some v | None \<Rightarrow> find_map validation (present parts))"
proof (induction parts arbitrary: e rule: present.induct)
  case (3 f parts)
  from "3.prems" have "join_onto (Some (join_two e f)) parts = Some j" by simp
  from "3.IH" [OF this] show ?case
    by (auto simp: join_two_def split: option.split)
qed (auto split: option.split)

text \<open>Joining keeps every sentinel.\<close>

lemma join_with_rest_is: "err_is s (join_with_rest e parts) \<longleftrightarrow> err_is s e \<or> (\<exists>f. Some f \<in> set parts \<and> err_is s f)"
proof -
  obtain j where j: "join_onto (Some e) parts = Some j" using join_onto_Some by blast
  have "sentinels j = sentinels e @ concat (map sentinels (present parts))" using join_onto_parts [OF j] by simp
  then show ?thesis
    by (auto simp: join_with_rest_def err_join_def err_is_def j set_present)
qed

end
