(* ===== verification/Crash_Steps.thy ===== *)
theory Crash_Steps
  imports Import_Errors "HOL-Library.Finite_Map"
begin

text \<open>
  Steps on files and a database that may fail and that a crash may cut short. A world is the
  files under one directory, the database, and the fate of every step to come; a step asks for
  its fate. Whoever handles an error cannot handle a crash: it ends the run and leaves the
  files and the database as they are at that moment.

  A tree of files is a map from relative paths, with \<open>/\<close> between their components, to nodes.
  What lies behind a symbolic link is not modelled: looking through one fails. So does moving
  a directory, which the program never does on purpose.
\<close>

datatype io_kind = Not_Found_Kind | Already_Exists_Kind | Other_Kind

record os_error =
  io_kind :: io_kind
  io_text :: string

text \<open>\<open>Fails\<close> is an error from outside, with its text: it has no effect, and it is none of the kinds the
  program looks for, since a path is reported missing or taken only when it is. \<open>Late\<close> is a commit
  that is durable although it reports an error; \<open>Torn\<close> is a crash in the middle of a write, after so
  many bytes.\<close>

datatype fate = Goes | Fails string | Late string | Dies | Torn nat

datatype node = File string | Directory | Link

type_synonym tree = "(string, node) fmap"

record 'd world =
  tree :: tree
  db :: 'd
  fates :: "nat \<Rightarrow> fate"
  ticks :: nat

datatype ('e, 'a) ending = Done 'a | Failed 'e | Crashed

type_synonym ('d, 'e, 'a) steps = "'d world \<Rightarrow> ('e, 'a) ending \<times> 'd world"

subsection \<open>Composition\<close>

definition s_return :: "'a \<Rightarrow> ('d, 'e, 'a) steps" where
  "s_return x w = (Done x, w)"

definition s_fail :: "'e \<Rightarrow> ('d, 'e, 'a) steps" where
  "s_fail e w = (Failed e, w)"

definition s_bind :: "('d, 'e, 'a) steps \<Rightarrow> ('a \<Rightarrow> ('d, 'e, 'b) steps) \<Rightarrow> ('d, 'e, 'b) steps" where
  "s_bind m k w = (case m w of (Done x, w') \<Rightarrow> k x w' | (Failed e, w') \<Rightarrow> (Failed e, w') | (Crashed, w') \<Rightarrow> (Crashed, w'))"

definition s_then :: "('d, 'e, 'a) steps \<Rightarrow> ('d, 'e, 'b) steps \<Rightarrow> ('d, 'e, 'b) steps" where
  "s_then m k = s_bind m (\<lambda>_. k)"

text \<open>A result that is looked at, instead of being handed on with \<open>?\<close>.\<close>

definition s_try :: "('d, 'e, 'a) steps \<Rightarrow> ('d, 'f, 'e + 'a) steps" where
  "s_try m w = (case m w of (Done x, w') \<Rightarrow> (Done (Inr x), w') | (Failed e, w') \<Rightarrow> (Done (Inl e), w') | (Crashed, w') \<Rightarrow> (Crashed, w'))"

definition s_map_err :: "('e \<Rightarrow> 'f) \<Rightarrow> ('d, 'e, 'a) steps \<Rightarrow> ('d, 'f, 'a) steps" where
  "s_map_err f m w = (case m w of (Done x, w') \<Rightarrow> (Done x, w') | (Failed e, w') \<Rightarrow> (Failed (f e), w') | (Crashed, w') \<Rightarrow> (Crashed, w'))"

definition s_result :: "'e + 'a \<Rightarrow> ('d, 'e, 'a) steps" where
  "s_result r = (case r of Inl e \<Rightarrow> s_fail e | Inr x \<Rightarrow> s_return x)"

text \<open>\<open>.err()\<close>: only whether it failed.\<close>

definition s_err :: "('d, import_error, 'a) steps \<Rightarrow> ('d, 'f, import_error option) steps" where
  "s_err m = s_bind (s_try m) (\<lambda>r. s_return (error_part r))"

lemmas steps_defs = s_return_def s_fail_def s_bind_def s_then_def s_try_def s_map_err_def s_result_def s_err_def

subsection \<open>A step and its fate\<close>

definition tick_world :: "'d world \<Rightarrow> 'd world" where
  "tick_world w = w\<lparr>ticks := Suc (ticks w)\<rparr>"

definition fate_of :: "'d world \<Rightarrow> fate" where
  "fate_of w = fates w (ticks w)"

definition other_io :: "string \<Rightarrow> os_error" where
  "other_io m = \<lparr>io_kind = Other_Kind, io_text = m\<rparr>"

text \<open>A call on files has its effect or fails without one.\<close>

definition file_step :: "(tree \<Rightarrow> os_error + 'a \<times> tree) \<Rightarrow> ('d, os_error, 'a) steps" where
  "file_step f w =
     (case fate_of w of
        Goes \<Rightarrow> (case f (tree w) of Inl e \<Rightarrow> (Failed e, tick_world w) | Inr (x, t) \<Rightarrow> (Done x, (tick_world w)\<lparr>tree := t\<rparr>))
      | Fails e \<Rightarrow> (Failed (other_io e), tick_world w)
      | Late e \<Rightarrow> (Failed (other_io e), tick_world w)
      | Dies \<Rightarrow> (Crashed, tick_world w)
      | Torn _ \<Rightarrow> (Crashed, tick_world w))"

text \<open>A transaction has all of its effect or none; it may report an error after it committed.\<close>

definition transact :: "('d \<Rightarrow> tree \<Rightarrow> import_error + 'a \<times> 'd) \<Rightarrow> ('d, import_error, 'a) steps" where
  "transact f w =
     (case fate_of w of
        Goes \<Rightarrow> (case f (db w) (tree w) of Inl e \<Rightarrow> (Failed e, tick_world w) | Inr (x, d) \<Rightarrow> (Done x, (tick_world w)\<lparr>db := d\<rparr>))
      | Fails e \<Rightarrow> (Failed (err_new e), tick_world w)
      | Late e \<Rightarrow>
          (case f (db w) (tree w) of
             Inl e' \<Rightarrow> (Failed e', tick_world w)
           | Inr (x, d) \<Rightarrow> (Failed (err_new e), (tick_world w)\<lparr>db := d\<rparr>))
      | Dies \<Rightarrow> (Crashed, tick_world w)
      | Torn _ \<Rightarrow> (Crashed, tick_world w))"

subsection \<open>Paths\<close>

definition rfind_char :: "'a \<Rightarrow> 'a list \<Rightarrow> nat option" where
  "rfind_char c s = (if c \<in> set s then Some (length s - 1 - length (takeWhile (\<lambda>d. d \<noteq> c) (rev s))) else None)"

definition parent_path :: "string \<Rightarrow> string" where
  "parent_path path = (case rfind_char (CHR ''/'') path of Some i \<Rightarrow> take i path | None \<Rightarrow> ''.'')"

subsection \<open>Calls on files\<close>

definition enoent :: os_error where
  "enoent = \<lparr>io_kind = Not_Found_Kind, io_text = ''No such file or directory (os error 2)''\<rparr>"

definition eexist :: os_error where
  "eexist = \<lparr>io_kind = Already_Exists_Kind, io_text = ''File exists (os error 17)''\<rparr>"

definition is_dir :: "tree \<Rightarrow> string \<Rightarrow> bool" where
  "is_dir t p \<longleftrightarrow> p = ''.'' \<or> fmlookup t p = Some Directory"

definition symlink_metadata :: "string \<Rightarrow> ('d, os_error, node) steps" where
  "symlink_metadata p = file_step (\<lambda>t.
     if p = ''.'' then Inr (Directory, t)
     else case fmlookup t p of None \<Rightarrow> Inl enoent | Some n \<Rightarrow> Inr (n, t))"

definition file_metadata :: "string \<Rightarrow> ('d, os_error, node) steps" where
  "file_metadata p = file_step (\<lambda>t.
     case fmlookup t p of
       None \<Rightarrow> Inl enoent | Some Link \<Rightarrow> Inl (other_io ''symbolic link'') | Some n \<Rightarrow> Inr (n, t))"

definition read_file :: "string \<Rightarrow> ('d, os_error, string) steps" where
  "read_file p = file_step (\<lambda>t.
     case fmlookup t p of
       None \<Rightarrow> Inl enoent
     | Some (File c) \<Rightarrow> Inr (c, t)
     | Some Directory \<Rightarrow> Inl (other_io ''Is a directory (os error 21)'')
     | Some Link \<Rightarrow> Inl (other_io ''symbolic link''))"

definition rename_file :: "string \<Rightarrow> string \<Rightarrow> ('d, os_error, unit) steps" where
  "rename_file p q = file_step (\<lambda>t.
     case fmlookup t p of
       None \<Rightarrow> Inl enoent
     | Some Directory \<Rightarrow> Inl (other_io ''directories are not moved'')
     | Some n \<Rightarrow>
         if fmlookup t q = Some Directory then Inl (other_io ''Is a directory (os error 21)'')
         else if \<not> is_dir t (parent_path q) then Inl enoent
         else if p = q then Inr ((), t)
         else Inr ((), fmupd q n (fmdrop p t)))"

definition remove_file :: "string \<Rightarrow> ('d, os_error, unit) steps" where
  "remove_file p = file_step (\<lambda>t.
     case fmlookup t p of
       None \<Rightarrow> Inl enoent
     | Some Directory \<Rightarrow> Inl (other_io ''Is a directory (os error 21)'')
     | Some _ \<Rightarrow> Inr ((), fmdrop p t))"

definition create_new :: "string \<Rightarrow> ('d, os_error, unit) steps" where
  "create_new p = file_step (\<lambda>t.
     if fmlookup t p \<noteq> None then Inl eexist
     else if \<not> is_dir t (parent_path p) then Inl enoent
     else Inr ((), fmupd p (File []) t))"

text \<open>Writing to the end of a file that was opened before.\<close>

definition append_to :: "string \<Rightarrow> string \<Rightarrow> tree \<Rightarrow> tree" where
  "append_to p bytes t = (case fmlookup t p of Some (File c) \<Rightarrow> fmupd p (File (c @ bytes)) t | _ \<Rightarrow> t)"

definition write_all :: "string \<Rightarrow> string \<Rightarrow> ('d, os_error, unit) steps" where
  "write_all p bytes w =
     (case fate_of w of
        Torn k \<Rightarrow> (Crashed, (tick_world w)\<lparr>tree := append_to p (take k bytes) (tree w)\<rparr>)
      | _ \<Rightarrow> file_step (\<lambda>t. Inr ((), append_to p bytes t)) w)"

definition create_dir :: "string \<Rightarrow> ('d, os_error, unit) steps" where
  "create_dir p = file_step (\<lambda>t.
     if fmlookup t p \<noteq> None then Inl eexist
     else if \<not> is_dir t (parent_path p) then Inl enoent
     else Inr ((), fmupd p Directory t))"

definition set_permissions :: "string \<Rightarrow> ('d, os_error, unit) steps" where
  "set_permissions p = file_step (\<lambda>t. if is_dir t p \<or> fmlookup t p \<noteq> None then Inr ((), t) else Inl enoent)"

definition has_entries :: "tree \<Rightarrow> string \<Rightarrow> bool" where
  "has_entries t d \<longleftrightarrow> fBex (fmdom t) (\<lambda>p. parent_path p = d)"

definition read_dir :: "string \<Rightarrow> ('d, os_error, bool) steps" where
  "read_dir d = file_step (\<lambda>t.
     case fmlookup t d of
       None \<Rightarrow> Inl enoent
     | Some Directory \<Rightarrow> Inr (has_entries t d, t)
     | Some _ \<Rightarrow> Inl (other_io ''Not a directory (os error 20)''))"

definition remove_dir :: "string \<Rightarrow> ('d, os_error, unit) steps" where
  "remove_dir d = file_step (\<lambda>t.
     case fmlookup t d of
       None \<Rightarrow> Inl enoent
     | Some Directory \<Rightarrow> if has_entries t d then Inl (other_io ''Directory not empty (os error 39)'') else Inr ((), fmdrop d t)
     | Some _ \<Rightarrow> Inl (other_io ''Not a directory (os error 20)''))"

subsection \<open>What holds whatever the fates\<close>

text \<open>\<open>always I P m Q E\<close>: from files and a database with \<open>P\<close>, a run that is done has \<open>Q\<close> of its
  value, one that fails has \<open>E\<close> of its error, and one that is cut short leaves \<open>I\<close>, which is what
  recovery will find.\<close>

definition always :: "(tree \<Rightarrow> 'd \<Rightarrow> bool) \<Rightarrow> (tree \<Rightarrow> 'd \<Rightarrow> bool) \<Rightarrow> ('d, 'e, 'a) steps \<Rightarrow> ('a \<Rightarrow> tree \<Rightarrow> 'd \<Rightarrow> bool)
    \<Rightarrow> ('e \<Rightarrow> tree \<Rightarrow> 'd \<Rightarrow> bool) \<Rightarrow> bool" where
  "always I P m Q E \<longleftrightarrow> (\<forall>w. P (tree w) (db w) \<longrightarrow>
     (case m w of
        (Done x, w') \<Rightarrow> Q x (tree w') (db w')
      | (Failed e, w') \<Rightarrow> E e (tree w') (db w')
      | (Crashed, w') \<Rightarrow> I (tree w') (db w')))"

lemma alwaysD: "always I P m Q E \<Longrightarrow> P (tree w) (db w) \<Longrightarrow> m w = (r, w') \<Longrightarrow>
    (case r of Done x \<Rightarrow> Q x (tree w') (db w') | Failed e \<Rightarrow> E e (tree w') (db w') | Crashed \<Rightarrow> I (tree w') (db w'))"
  by (auto simp: always_def split: prod.splits ending.splits)

lemma always_weaken:
  "always I P m Q E \<Longrightarrow> (\<And>t d. P' t d \<Longrightarrow> P t d) \<Longrightarrow> (\<And>x t d. Q x t d \<Longrightarrow> Q' x t d) \<Longrightarrow> (\<And>e t d. E e t d \<Longrightarrow> E' e t d)
    \<Longrightarrow> (\<And>t d. I t d \<Longrightarrow> I' t d) \<Longrightarrow> always I' P' m Q' E'"
  unfolding always_def by (fastforce split: prod.splits ending.splits)

lemma always_pre: "always I P m Q E \<Longrightarrow> (\<And>t d. P' t d \<Longrightarrow> P t d) \<Longrightarrow> always I P' m Q E"
  by (erule always_weaken) auto

lemma always_cases: "always I P m Q E \<Longrightarrow> always I P' m Q E \<Longrightarrow> always I (\<lambda>t d. P t d \<or> P' t d) m Q E"
  unfolding always_def by (fastforce split: prod.splits ending.splits)

lemma always_fact: "(B \<Longrightarrow> always I P m Q E) \<Longrightarrow> always I (\<lambda>t d. B \<and> P t d) m Q E"
  unfolding always_def by (fastforce split: prod.splits ending.splits)

lemma always_return: "(\<And>t d. P t d \<Longrightarrow> Q x t d) \<Longrightarrow> always I P (s_return x) Q E"
  by (simp add: always_def s_return_def)

lemma always_fail: "(\<And>t d. P t d \<Longrightarrow> E e t d) \<Longrightarrow> always I P (s_fail e) Q E"
  by (simp add: always_def s_fail_def)

lemma always_result:
  "(\<And>x t d. r = Inr x \<Longrightarrow> P t d \<Longrightarrow> Q x t d) \<Longrightarrow> (\<And>e t d. r = Inl e \<Longrightarrow> P t d \<Longrightarrow> E e t d) \<Longrightarrow> always I P (s_result r) Q E"
  by (cases r) (auto simp: s_result_def intro: always_return always_fail)

lemma always_bind: "always I P m R E \<Longrightarrow> (\<And>x. always I (R x) (k x) Q E) \<Longrightarrow> always I P (s_bind m k) Q E"
  unfolding always_def s_bind_def by (fastforce split: prod.splits ending.splits)

lemma always_then: "always I P m (\<lambda>_. R) E \<Longrightarrow> always I R k Q E \<Longrightarrow> always I P (s_then m k) Q E"
  unfolding s_then_def by (rule always_bind)

lemma always_try:
  "always I P m (\<lambda>x. Q (Inr x)) (\<lambda>e. Q (Inl e)) \<Longrightarrow> always I P (s_try m) Q E"
  unfolding always_def s_try_def by (fastforce split: prod.splits ending.splits)

lemma always_map_err: "always I P m Q (\<lambda>e. E (f e)) \<Longrightarrow> always I P (s_map_err f m) Q E"
  unfolding always_def s_map_err_def by (fastforce split: prod.splits ending.splits)

lemma always_err:
  "always I P m (\<lambda>_. Q None) (\<lambda>e. Q (Some e)) \<Longrightarrow> always I P (s_err m) Q E"
  unfolding always_def s_err_def s_bind_def s_try_def s_return_def
  by (fastforce split: prod.splits ending.splits)

lemma always_file:
  "(\<And>t d. P t d \<Longrightarrow> I t d) \<Longrightarrow> (\<And>m t d. P t d \<Longrightarrow> E (other_io m) t d)
    \<Longrightarrow> (\<And>t d e. P t d \<Longrightarrow> f t = Inl e \<Longrightarrow> E e t d) \<Longrightarrow> (\<And>t d x t'. P t d \<Longrightarrow> f t = Inr (x, t') \<Longrightarrow> Q x t' d)
    \<Longrightarrow> always I P (file_step f) Q E"
  by (auto simp: always_def file_step_def tick_world_def split: fate.split sum.split)

lemma always_tx:
  "(\<And>t d. P t d \<Longrightarrow> I t d) \<Longrightarrow> (\<And>m t d. P t d \<Longrightarrow> E (err_new m) t d) \<Longrightarrow> (\<And>t d e. P t d \<Longrightarrow> f d t = Inl e \<Longrightarrow> E e t d)
    \<Longrightarrow> (\<And>t d x d'. P t d \<Longrightarrow> f d t = Inr (x, d') \<Longrightarrow> Q x t d')
    \<Longrightarrow> (\<And>t d x d' m. P t d \<Longrightarrow> f d t = Inr (x, d') \<Longrightarrow> E (err_new m) t d') \<Longrightarrow> always I P (transact f) Q E"
  by (auto simp: always_def transact_def tick_world_def split: fate.split sum.split)

subsection \<open>What a run leaves alone\<close>

text \<open>\<open>confined S D m\<close>: whatever happens, \<open>m\<close> changes no path outside \<open>S\<close> and takes the database
  along \<open>D\<close>.\<close>

definition confined :: "string set \<Rightarrow> ('d \<Rightarrow> 'd \<Rightarrow> bool) \<Rightarrow> ('d, 'e, 'a) steps \<Rightarrow> bool" where
  "confined S D m \<longleftrightarrow> (\<forall>w. D (db w) (db (snd (m w)))
     \<and> (\<forall>p. p \<notin> S \<longrightarrow> fmlookup (tree (snd (m w))) p = fmlookup (tree w) p))"

named_theorems confined_rules "what each step leaves alone"

lemma confined_return [confined_rules]: "reflp D \<Longrightarrow> confined S D (s_return x)"
  by (simp add: confined_def s_return_def reflpD)

lemma confined_fail [confined_rules]: "reflp D \<Longrightarrow> confined S D (s_fail e)"
  by (simp add: confined_def s_fail_def reflpD)

lemma confined_result [confined_rules]: "reflp D \<Longrightarrow> confined S D (s_result r)"
  by (cases r) (auto simp: s_result_def intro: confined_return confined_fail)

lemma confined_bind: "transp D \<Longrightarrow> confined S D m \<Longrightarrow> (\<And>x. confined S D (k x)) \<Longrightarrow> confined S D (s_bind m k)"
  unfolding confined_def s_bind_def
  by (auto split: prod.splits ending.splits) (metis snd_conv transpD)+

lemma confined_then: "transp D \<Longrightarrow> confined S D m \<Longrightarrow> confined S D k \<Longrightarrow> confined S D (s_then m k)"
  unfolding s_then_def by (rule confined_bind)

lemma confined_try [confined_rules]: "confined S D m \<Longrightarrow> confined S D (s_try m)"
  unfolding confined_def s_try_def by (auto split: prod.splits ending.splits) (metis snd_conv)+

lemma confined_map_err [confined_rules]: "confined S D m \<Longrightarrow> confined S D (s_map_err f m)"
  unfolding confined_def s_map_err_def by (auto split: prod.splits ending.splits) (metis snd_conv)+

lemma confined_err: "reflp D \<Longrightarrow> transp D \<Longrightarrow> confined S D m \<Longrightarrow> confined S D (s_err m)"
  unfolding s_err_def by (intro confined_bind confined_try confined_return)

lemma confined_mono: "confined S D m \<Longrightarrow> S \<subseteq> T \<Longrightarrow> confined T D m"
  unfolding confined_def by blast

lemma confined_weaken: "confined S D m \<Longrightarrow> (\<And>d d'. D d d' \<Longrightarrow> D' d d') \<Longrightarrow> confined S D' m"
  unfolding confined_def by blast

lemma confined_file:
  "reflp D \<Longrightarrow> (\<And>t x t' p. f t = Inr (x, t') \<Longrightarrow> p \<notin> S \<Longrightarrow> fmlookup t' p = fmlookup t p) \<Longrightarrow> confined S D (file_step f)"
  by (auto simp: confined_def file_step_def tick_world_def reflpD split: fate.split sum.split)

lemma confined_tx:
  "reflp D \<Longrightarrow> (\<And>t d x d'. f d t = Inr (x, d') \<Longrightarrow> D d d') \<Longrightarrow> confined S D (transact f)"
  by (auto simp: confined_def transact_def tick_world_def reflpD split: fate.split sum.split)

lemma always_confined:
  "confined S D m \<Longrightarrow> (\<And>t d. P t d \<Longrightarrow> I t d)
    \<Longrightarrow> (\<And>t d t' d'. P t d \<Longrightarrow> D d d' \<Longrightarrow> (\<And>p. p \<notin> S \<Longrightarrow> fmlookup t' p = fmlookup t p) \<Longrightarrow> P t' d')
    \<Longrightarrow> always I P m (\<lambda>_. P) (\<lambda>_. P)"
  unfolding always_def confined_def by (auto split: prod.splits ending.splits) (metis snd_conv)+

lemma confined_set_permissions [confined_rules]: "reflp D \<Longrightarrow> confined S D (set_permissions p)"
  unfolding set_permissions_def by (rule confined_file) (auto split: if_splits)

lemma confined_symlink_metadata [confined_rules]: "reflp D \<Longrightarrow> confined S D (symlink_metadata p)"
  unfolding symlink_metadata_def by (rule confined_file) (auto split: if_splits option.splits)

lemma confined_file_metadata [confined_rules]: "reflp D \<Longrightarrow> confined S D (file_metadata p)"
  unfolding file_metadata_def by (rule confined_file) (auto split: option.splits node.splits)

lemma confined_read_file [confined_rules]: "reflp D \<Longrightarrow> confined S D (read_file p)"
  unfolding read_file_def by (rule confined_file) (auto split: option.splits node.splits)

lemma confined_read_dir [confined_rules]: "reflp D \<Longrightarrow> confined S D (read_dir p)"
  unfolding read_dir_def by (rule confined_file) (auto split: option.splits node.splits)

lemma confined_rename_file: "reflp D \<Longrightarrow> p \<in> S \<Longrightarrow> q \<in> S \<Longrightarrow> confined S D (rename_file p q)"
  unfolding rename_file_def by (rule confined_file) (auto split: option.splits node.splits if_splits)

lemma confined_remove_file: "reflp D \<Longrightarrow> p \<in> S \<Longrightarrow> confined S D (remove_file p)"
  unfolding remove_file_def by (rule confined_file) (auto split: option.splits node.splits)

lemma confined_create_new: "reflp D \<Longrightarrow> p \<in> S \<Longrightarrow> confined S D (create_new p)"
  unfolding create_new_def by (rule confined_file) (auto split: if_splits)

lemma confined_create_dir: "reflp D \<Longrightarrow> p \<in> S \<Longrightarrow> confined S D (create_dir p)"
  unfolding create_dir_def by (rule confined_file) (auto split: if_splits)

lemma confined_remove_dir: "reflp D \<Longrightarrow> p \<in> S \<Longrightarrow> confined S D (remove_dir p)"
  unfolding remove_dir_def by (rule confined_file) (auto split: option.splits node.splits if_splits)

lemma append_to_elsewhere: "q \<noteq> p \<Longrightarrow> fmlookup (append_to p bytes t) q = fmlookup t q"
  by (auto simp: append_to_def split: option.splits node.splits)

lemma confined_write_all: "reflp D \<Longrightarrow> p \<in> S \<Longrightarrow> confined S D (write_all p bytes)"
proof -
  assume D: "reflp D" and p: "p \<in> S"
  then have "confined S D (file_step (\<lambda>t. Inr ((), append_to p bytes t)))"
    by (intro confined_file) (auto intro!: append_to_elsewhere)
  then show ?thesis
    using D p unfolding confined_def write_all_def
    by (auto simp: tick_world_def reflpD split: fate.split intro!: append_to_elsewhere)
qed

end
