(* ===== verification/Import_Records.thy ===== *)
theory Import_Records
  imports Crash_Steps Tag_Metadata
begin

text \<open>
  What Managed Import works on: identity keys (\<open>identity.rs\<close>), and the records storage, the
  database and the service share (\<open>types.rs\<close>, \<open>model.rs\<close>, \<open>inspect/mod.rs\<close>). Names, titles and
  keys are texts of code points; ids, paths and hashes are strings.
\<close>

record id_tables = case_tables +
  case_fold :: "utext \<Rightarrow> utext"

subsection \<open>Identity\<close>

definition normalize_identity :: "id_tables \<Rightarrow> utext \<Rightarrow> utext" where
  "normalize_identity u s = case_fold u (join_spaces (split_whitespace (nfc u s)))"

definition normalize_credits :: "id_tables \<Rightarrow> utext list \<Rightarrow> utext list" where
  "normalize_credits u credits = map (normalize_identity u) credits"

fun join_text :: "nat \<Rightarrow> utext list \<Rightarrow> utext" where
  "join_text c [] = []"
| "join_text c [t] = t"
| "join_text c (t # v # ts) = t @ c # join_text c (v # ts)"

definition album_key_of :: "id_tables \<Rightarrow> utext list \<Rightarrow> utext \<Rightarrow> utext" where
  "album_key_of u credits title = join_text 0x1E (normalize_credits u credits) @ 0x1F # normalize_identity u title"

definition album_identity :: "id_tables \<Rightarrow> metadata \<Rightarrow> utext" where
  "album_identity u m =
     (if album_identity_key m \<noteq> [] then album_identity_key m else album_key_of u (album_artists m) (md_album m))"

definition track_identity_key :: "id_tables \<Rightarrow> metadata \<Rightarrow> utext" where
  "track_identity_key u m =
     txt_of (show_int (number (disc_position m))) @ 0x1F # txt_of (show_int (number (track_position m)))
     @ 0x1F # normalize_identity u (md_title m)"

subsection \<open>Records\<close>

record media_inspection =
  ins_metadata :: metadata
  ins_artwork :: album_artwork
  ins_audio :: technical_audio
  ins_sha256 :: string

record commit_identity =
  id_album_artist :: string
  id_album :: string
  id_track :: string
  id_artwork_path :: string
  id_artwork_sha256 :: string

datatype commit_phase = C_Prepared | C_Placed | C_Verified | C_Database_Committed | C_Cleaned | C_Completed | C_Rolled_Back

record commit_journal =
  cj_id :: string
  cj_job :: string
  cj_track :: string
  cj_phase :: commit_phase
  cj_staged_path :: string
  cj_audio_path :: string
  cj_artwork_path :: string
  cj_audio_sha256 :: string
  cj_artwork_sha256 :: string
  cj_artwork_created :: bool
  cj_reason :: string

datatype replacement_phase = R_Prepared | R_Placed | R_Verified | R_Swapped | R_Database_Committed | R_Completed | R_Rolled_Back

datatype artwork_mode = Mode_None | Mode_Existing | Mode_Create | Mode_Replace

record replacement_journal =
  rj_id :: string
  rj_job :: string
  rj_track :: string
  rj_phase :: replacement_phase
  rj_staged_path :: string
  rj_pending_audio :: string
  rj_audio_path :: string
  rj_previous_audio :: string
  rj_retired_audio :: string
  rj_audio_sha256 :: string
  rj_previous_sha256 :: string
  rj_artwork_mode :: artwork_mode
  rj_pending_artwork :: string
  rj_artwork_path :: string
  rj_previous_artwork :: string
  rj_retired_artwork :: string
  rj_artwork_sha256 :: string
  rj_previous_artwork_sha256 :: string
  rj_artwork_created :: bool
  rj_previous_album :: string
  rj_reason :: string

record replacement_target =
  rt_track :: string
  rt_album :: string
  rt_relative_path :: string
  rt_artwork_path :: string
  rt_is_sole_track :: bool

datatype job_status = Uploading | Awaiting_Confirmation | Committed | Job_Failed

record import_plan =
  plan_target_revision :: int
  plan_skip_exact :: bool
  plan_album_key :: utext
  plan_artwork_id :: string
  plan_action :: string
  plan_target_id :: string

definition plan_default :: import_plan where
  "plan_default = \<lparr>plan_target_revision = 0, plan_skip_exact = False, plan_album_key = [], plan_artwork_id = [],
     plan_action = [], plan_target_id = []\<rparr>"

definition artwork_extension :: "string \<Rightarrow> string" where
  "artwork_extension media_type =
     (if media_type = ''image/jpeg'' then ''.jpg'' else if media_type = ''image/webp'' then ''.webp'' else ''.png'')"

definition source_extension :: "string \<Rightarrow> (string \<Rightarrow> string) \<Rightarrow> import_error + string" where
  "source_extension fmt debug =
     (if fmt \<in> {''flac'', ''wav'', ''m4a'', ''mp3'', ''ogg'', ''opus''} then Inr (CHR ''.'' # fmt)
      else Inl (err_validation (validation_new ''unsupported_format'' ''format'' [])
             (''validated Source Audio Format '' @ debug fmt @ '' has no canonical extension'')))"

text \<open>The bytes of a picture as the contents of a file.\<close>

definition byte_text :: "bytes \<Rightarrow> string" where
  "byte_text bs = map (\<lambda>b. char_of (unat b)) bs"

subsection \<open>File names\<close>

definition MAX_SLUG_BYTES :: nat where
  "MAX_SLUG_BYTES = 80"

definition trim_hyphens :: "string \<Rightarrow> string" where
  "trim_hyphens s = rev (dropWhile (\<lambda>c. c = CHR ''-'') (rev (dropWhile (\<lambda>c. c = CHR ''-'') s)))"

text \<open>\<open>[^a-z0-9]+\<close>: each run becomes one hyphen.\<close>

definition slug_char :: "nat \<Rightarrow> bool" where
  "slug_char c \<longleftrightarrow> 97 \<le> c \<and> c \<le> 122 \<or> 48 \<le> c \<and> c \<le> 57"

fun hyphenate :: "bool \<Rightarrow> utext \<Rightarrow> string" where
  "hyphenate in_run [] = []"
| "hyphenate in_run (c # s) =
     (if slug_char c then char_of c # hyphenate False s
      else if in_run then hyphenate True s else CHR ''-'' # hyphenate True s)"

definition slug :: "id_tables \<Rightarrow> utext \<Rightarrow> string" where
  "slug u value =
     (let s = trim_hyphens (hyphenate False (go_lower_text (case_tables.truncate u) value));
          s = (if MAX_SLUG_BYTES < length s then trim_hyphens (take MAX_SLUG_BYTES s) else s)
      in if s = [] then ''untitled'' else s)"

definition two_digits :: "int \<Rightarrow> string" where
  "two_digits n = (if 0 \<le> n \<and> n < 10 then CHR ''0'' # show_int n else show_int n)"

definition safe_name_char :: "char \<Rightarrow> bool" where
  "safe_name_char c \<longleftrightarrow> slug_char (of_char c) \<or> c = CHR ''-''"

lemma trim_hyphens_set: "set (trim_hyphens s) \<subseteq> set s"
  unfolding trim_hyphens_def by (metis order_trans set_dropWhileD set_rev subsetI)

lemma hyphenate_safe: "list_all safe_name_char (hyphenate r s)"
proof (induction s arbitrary: r)
  case (Cons c s)
  have "slug_char c \<Longrightarrow> (of_char (char_of c :: char) :: nat) = c" by (auto simp: slug_char_def)
  with Cons show ?case by (simp add: safe_name_char_def)
qed simp

text \<open>A slug names a file in any directory: nonempty, at most 80 bytes, letters, digits and hyphens.\<close>

lemma slug_safe: "slug u v \<noteq> [] \<and> length (slug u v) \<le> MAX_SLUG_BYTES \<and> list_all safe_name_char (slug u v)"
proof -
  have t: "length (trim_hyphens s) \<le> length s" for s
    unfolding trim_hyphens_def by (metis length_dropWhile_le length_rev order_trans)
  have h: "\<forall>c \<in> set (hyphenate False x). safe_name_char c" for x using hyphenate_safe by (simp add: list_all_iff)
  define s where "s = trim_hyphens (hyphenate False (go_lower_text (case_tables.truncate u) v))"
  have s: "\<forall>c \<in> set s. safe_name_char c" unfolding s_def using trim_hyphens_set h by blast
  define r where "r = (if MAX_SLUG_BYTES < length s then trim_hyphens (take MAX_SLUG_BYTES s) else s)"
  have "set r \<subseteq> set s" unfolding r_def using trim_hyphens_set [of "take MAX_SLUG_BYTES s"] set_take_subset [of MAX_SLUG_BYTES s] by auto
  moreover have "length r \<le> MAX_SLUG_BYTES" unfolding r_def using t [of "take MAX_SLUG_BYTES s"] by auto
  moreover have "slug u v = (if r = [] then ''untitled'' else r)" by (simp add: slug_def s_def r_def Let_def)
  moreover have "list_all safe_name_char ''untitled''" "length ''untitled'' \<le> MAX_SLUG_BYTES"
    by (simp_all add: safe_name_char_def slug_char_def MAX_SLUG_BYTES_def)
  ultimately show ?thesis using s by (auto simp: list_all_iff)
qed

end
