(* ===== verification/Import_Database.thy ===== *)
theory Import_Database
  imports Import_Records
begin

text \<open>
  The tables Managed Import reads and writes (\<open>server/migrations\<close>), as lists of rows, and the
  constraints a statement has to keep: keys, unique indexes, foreign keys and the triggers on
  artwork. A statement that would break one fails. NULL in a text column is the empty text, as
  the code reads it. \<open>db_uuids\<close> is the supply of fresh names and \<open>db_now\<close> is \<open>CURRENT_TIMESTAMP\<close>.
\<close>

record job =
  jb_id :: string
  jb_status :: job_status
  jb_revision :: int
  jb_error_code :: string
  jb_track :: string
  jb_replace_track :: string
  jb_plan_json :: string
  jb_issues :: "issue list"
  jb_batch :: string
  jb_client_file :: string
  jb_filename :: string
  jb_staged_path :: string
  jb_sha256 :: string
  jb_preview_json :: string
  jb_error_field :: string
  jb_error_reason :: string
  jb_outcome :: string
  jb_selected :: bool
  jb_position :: int
  jb_created :: string
  jb_updated :: string

record track =
  tr_id :: string
  tr_album :: string
  tr_title :: utext
  tr_title_sort :: utext
  tr_artist_name :: utext
  tr_track_no :: int
  tr_duration_ms :: int
  tr_format :: string
  tr_size :: int
  tr_file_path :: string
  tr_mtime :: int
  tr_genre :: utext
  tr_sample_rate :: int
  tr_bit_depth :: "int option"
  tr_disc_no :: int
  tr_track_total :: "int option"
  tr_disc_total :: "int option"
  tr_channels :: int
  tr_bitrate :: int
  tr_codec :: string
  tr_container :: string
  tr_gain :: replay_gain
  tr_identity_key :: utext
  tr_lyrics :: utext
  tr_revision :: int
  tr_missing :: bool
  tr_pending :: bool

record track_source =
  so_id :: string
  so_track :: string
  so_managed :: bool
  so_path :: string
  so_sha256 :: string
  so_format :: string
  so_size :: int
  so_revision :: int

record artist =
  ar_id :: string
  ar_name :: utext
  ar_sort :: utext
  ar_normalized :: utext

record album =
  al_id :: string
  al_artist :: string
  al_title :: utext
  al_title_sort :: utext
  al_year :: "int option"
  al_release_date :: "string option"
  al_genres :: "utext list"
  al_key :: utext
  al_revision :: int

record credit =
  cr_owner :: string
  cr_artist :: string
  cr_position :: nat

record genre =
  ge_id :: string
  ge_name :: utext
  ge_normalized :: utext

record track_genre =
  tg_track :: string
  tg_genre :: string
  tg_position :: nat

record artwork_row =
  aw_id :: string
  aw_album :: string
  aw_source :: string
  aw_sha256 :: string
  aw_media_type :: string
  aw_width :: nat
  aw_height :: nat
  aw_size :: int
  aw_path :: string
  aw_revision :: int

record playlist_entry =
  pe_playlist :: string
  pe_playlist_name :: utext
  pe_track :: string

record queue_entry =
  qe_user :: string
  qe_track :: string

record queue_state =
  qs_user :: string
  qs_revision :: int
  qs_sequence :: int

record pending_deletion =
  pd_track :: string
  pd_path :: string
  pd_sha256 :: string
  pd_artwork_path :: string
  pd_artwork_sha256 :: string

record history_counts =
  hc_total :: int
  hc_imported :: int
  hc_rejected :: int
  hc_failed :: int
  hc_replaced :: int
  hc_not_attempted :: int
  hc_canceled :: int

record history_file =
  hf_issues :: "issue list"
  hf_file :: string
  hf_job :: string
  hf_filename :: string
  hf_started :: string
  hf_completed :: string
  hf_sha256 :: string
  hf_result :: string
  hf_created_track :: string
  hf_replaced_track :: string

record history_item =
  hi_import :: string
  hi_started :: string
  hi_completed :: string
  hi_result :: string
  hi_counts :: history_counts
  hi_files :: "history_file list"

record db =
  db_jobs :: "job list"
  db_tracks :: "track list"
  db_sources :: "track_source list"
  db_artists :: "artist list"
  db_albums :: "album list"
  db_track_artists :: "credit list"
  db_album_artists :: "credit list"
  db_genres :: "genre list"
  db_track_genres :: "track_genre list"
  db_artwork :: "artwork_row list"
  db_playlists :: "playlist_entry list"
  db_queue :: "queue_entry list"
  db_queue_states :: "queue_state list"
  db_deletions :: "pending_deletion list"
  db_commits :: "commit_journal list"
  db_replacements :: "replacement_journal list"
  db_history :: "history_item list"
  db_uuids :: "nat \<Rightarrow> string"
  db_uuid :: nat
  db_now :: string

subsection \<open>Constraints\<close>

definition active_commit :: "commit_journal \<Rightarrow> bool" where
  "active_commit j \<longleftrightarrow> cj_phase j \<noteq> C_Completed \<and> cj_phase j \<noteq> C_Rolled_Back"

definition active_replacement :: "replacement_journal \<Rightarrow> bool" where
  "active_replacement j \<longleftrightarrow> rj_phase j \<noteq> R_Completed \<and> rj_phase j \<noteq> R_Rolled_Back"

definition active_position :: "track \<Rightarrow> bool" where
  "active_position t \<longleftrightarrow> \<not> tr_missing t \<and> tr_identity_key t \<noteq> []"

definition tracks_ok :: "db \<Rightarrow> bool" where
  "tracks_ok d \<longleftrightarrow>
     distinct (map tr_id (db_tracks d)) \<and> distinct (map tr_file_path (db_tracks d))
     \<and> distinct (map (\<lambda>t. (tr_album t, tr_disc_no t, tr_track_no t)) (filter active_position (db_tracks d)))
     \<and> list_all (\<lambda>t. tr_album t \<in> set (map al_id (db_albums d))
         \<and> (case tr_track_total t of Some n \<Rightarrow> tr_track_no t \<le> n | None \<Rightarrow> True)
         \<and> (case tr_disc_total t of Some n \<Rightarrow> tr_disc_no t \<le> n | None \<Rightarrow> True)) (db_tracks d)"

definition sources_ok :: "db \<Rightarrow> bool" where
  "sources_ok d \<longleftrightarrow>
     distinct (map so_id (db_sources d)) \<and> distinct (map so_track (db_sources d)) \<and> distinct (map so_path (db_sources d))
     \<and> distinct (filter (\<lambda>h. h \<noteq> []) (map so_sha256 (db_sources d)))
     \<and> list_all (\<lambda>s. so_track s \<in> set (map tr_id (db_tracks d)) \<and> (so_managed s \<longrightarrow> so_sha256 s \<noteq> [])) (db_sources d)"

definition names_ok :: "db \<Rightarrow> bool" where
  "names_ok d \<longleftrightarrow>
     distinct (map ar_id (db_artists d)) \<and> distinct (map ar_normalized (db_artists d))
     \<and> distinct (map ge_id (db_genres d)) \<and> distinct (map ge_normalized (db_genres d))
     \<and> distinct (map al_id (db_albums d)) \<and> distinct (map al_key (db_albums d))
     \<and> list_all (\<lambda>a. al_artist a \<in> set (map ar_id (db_artists d))) (db_albums d)"

definition credit_rows_ok :: "string set \<Rightarrow> string set \<Rightarrow> credit list \<Rightarrow> bool" where
  "credit_rows_ok owners names cs \<longleftrightarrow>
     distinct (map (\<lambda>c. (cr_owner c, cr_artist c)) cs) \<and> distinct (map (\<lambda>c. (cr_owner c, cr_position c)) cs)
     \<and> list_all (\<lambda>c. cr_owner c \<in> owners \<and> cr_artist c \<in> names) cs"

definition relations_ok :: "db \<Rightarrow> bool" where
  "relations_ok d \<longleftrightarrow>
     credit_rows_ok (set (map tr_id (db_tracks d))) (set (map ar_id (db_artists d))) (db_track_artists d)
     \<and> credit_rows_ok (set (map al_id (db_albums d))) (set (map ar_id (db_artists d))) (db_album_artists d)
     \<and> distinct (map (\<lambda>g. (tg_track g, tg_genre g)) (db_track_genres d))
     \<and> distinct (map (\<lambda>g. (tg_track g, tg_position g)) (db_track_genres d))
     \<and> list_all (\<lambda>g. tg_track g \<in> set (map tr_id (db_tracks d)) \<and> tg_genre g \<in> set (map ge_id (db_genres d))) (db_track_genres d)"

definition artwork_ok :: "db \<Rightarrow> bool" where
  "artwork_ok d \<longleftrightarrow>
     distinct (map aw_id (db_artwork d)) \<and> distinct (map aw_album (db_artwork d)) \<and> distinct (map aw_path (db_artwork d))
     \<and> list_all (\<lambda>a. \<exists>t \<in> set (db_tracks d). tr_id t = aw_source a \<and> tr_album t = aw_album a) (db_artwork d)"

definition jobs_ok :: "db \<Rightarrow> bool" where
  "jobs_ok d \<longleftrightarrow>
     distinct (map jb_id (db_jobs d)) \<and> distinct (filter (\<lambda>p. p \<noteq> []) (map jb_staged_path (db_jobs d)))
     \<and> list_all (\<lambda>j. (jb_track j \<noteq> [] \<longrightarrow> jb_track j \<in> set (map tr_id (db_tracks d)))
         \<and> (jb_status j = Awaiting_Confirmation \<longrightarrow> jb_filename j \<noteq> [] \<and> jb_staged_path j \<noteq> [] \<and> jb_sha256 j \<noteq> [])
         \<and> (jb_status j = Committed \<longrightarrow> jb_track j \<noteq> [])) (db_jobs d)"

definition journals_ok :: "db \<Rightarrow> bool" where
  "journals_ok d \<longleftrightarrow>
     distinct (map cj_id (db_commits d)) \<and> distinct (map cj_job (filter active_commit (db_commits d)))
     \<and> distinct (map rj_id (db_replacements d)) \<and> distinct (map rj_job (filter active_replacement (db_replacements d)))
     \<and> distinct (map rj_track (filter active_replacement (db_replacements d)))
     \<and> distinct (map pd_track (db_deletions d))
     \<and> list_all (\<lambda>p. pd_track p \<in> set (map tr_id (db_tracks d)) \<and> (pd_artwork_path p = [] \<longleftrightarrow> pd_artwork_sha256 p = [])) (db_deletions d)"

definition references_ok :: "db \<Rightarrow> bool" where
  "references_ok d \<longleftrightarrow>
     list_all (\<lambda>p. pe_track p \<in> set (map tr_id (db_tracks d))) (db_playlists d)
     \<and> list_all (\<lambda>q. qe_track q \<in> set (map tr_id (db_tracks d))) (db_queue d)
     \<and> distinct (map qs_user (db_queue_states d)) \<and> distinct (map hi_import (db_history d))"

definition db_ok :: "db \<Rightarrow> bool" where
  "db_ok d \<longleftrightarrow> tracks_ok d \<and> sources_ok d \<and> names_ok d \<and> relations_ok d \<and> artwork_ok d \<and> jobs_ok d \<and> journals_ok d
     \<and> references_ok d"

subsection \<open>Statements\<close>

text \<open>One statement of a transaction.\<close>

definition sql :: "string \<Rightarrow> (db \<Rightarrow> db) \<Rightarrow> db \<Rightarrow> import_error + db" where
  "sql operation f d =
     (let d' = f d in if db_ok d' then Inr d' else Inl (err_context operation (err_new ''constraint failed'')))"

text \<open>A guarded statement that has to match one row.\<close>

definition require_one :: "nat \<Rightarrow> import_error + unit" where
  "require_one affected = (if affected = 1 then Inr () else Inl (err_sentinel Invalid_State))"

definition sql_one :: "string \<Rightarrow> ('r \<Rightarrow> bool) \<Rightarrow> (db \<Rightarrow> 'r list) \<Rightarrow> (db \<Rightarrow> db) \<Rightarrow> db \<Rightarrow> import_error + db" where
  "sql_one operation P table f d =
     and_then (sql operation f d) (\<lambda>d'. and_then (require_one (length (filter P (table d)))) (\<lambda>_. Inr d'))"

definition update_where :: "('r \<Rightarrow> bool) \<Rightarrow> ('r \<Rightarrow> 'r) \<Rightarrow> 'r list \<Rightarrow> 'r list" where
  "update_where P f rows = map (\<lambda>r. if P r then f r else r) rows"

definition delete_where :: "('r \<Rightarrow> bool) \<Rightarrow> 'r list \<Rightarrow> 'r list" where
  "delete_where P rows = filter (\<lambda>r. \<not> P r) rows"

definition fresh :: "db \<Rightarrow> string \<times> db" where
  "fresh d = (db_uuids d (db_uuid d), d\<lparr>db_uuid := Suc (db_uuid d)\<rparr>)"

text \<open>Deleting a row of \<open>tracks\<close> or \<open>albums\<close> takes what references it with \<open>ON DELETE CASCADE\<close>.\<close>

definition cascade_track :: "string set \<Rightarrow> db \<Rightarrow> db" where
  "cascade_track ids d = d\<lparr>
     db_tracks := delete_where (\<lambda>t. tr_id t \<in> ids) (db_tracks d),
     db_sources := delete_where (\<lambda>s. so_track s \<in> ids) (db_sources d),
     db_track_artists := delete_where (\<lambda>c. cr_owner c \<in> ids) (db_track_artists d),
     db_track_genres := delete_where (\<lambda>g. tg_track g \<in> ids) (db_track_genres d),
     db_playlists := delete_where (\<lambda>p. pe_track p \<in> ids) (db_playlists d),
     db_queue := delete_where (\<lambda>q. qe_track q \<in> ids) (db_queue d),
     db_deletions := delete_where (\<lambda>p. pd_track p \<in> ids) (db_deletions d)\<rparr>"

definition cascade_album :: "string \<Rightarrow> db \<Rightarrow> db" where
  "cascade_album i d = d\<lparr>
     db_albums := delete_where (\<lambda>a. al_id a = i) (db_albums d),
     db_album_artists := delete_where (\<lambda>c. cr_owner c = i) (db_album_artists d),
     db_artwork := delete_where (\<lambda>a. aw_album a = i) (db_artwork d)\<rparr>"

text \<open>A transaction commits what its body leaves, or nothing.\<close>

definition tx :: "(db \<Rightarrow> tree \<Rightarrow> import_error + 'a \<times> db) \<Rightarrow> (db, import_error, 'a) steps" where
  "tx f = transact f"

definition query :: "(db \<Rightarrow> import_error + 'a) \<Rightarrow> (db, import_error, 'a) steps" where
  "query f = transact (\<lambda>d t. and_then (f d) (\<lambda>x. Inr (x, d)))"

definition statement :: "(db \<Rightarrow> import_error + db) \<Rightarrow> (db, import_error, unit) steps" where
  "statement f = transact (\<lambda>d t. and_then (f d) (\<lambda>d'. Inr ((), d')))"

lemma sql_ok: "sql operation f d = Inr d' \<Longrightarrow> db_ok d' \<and> d' = f d"
  by (auto simp: sql_def Let_def split: if_splits)

lemma sql_one_ok: "sql_one operation P table f d = Inr d' \<Longrightarrow> db_ok d' \<and> d' = f d \<and> length (filter P (table d)) = 1"
  by (auto simp: sql_one_def and_then_Inr_iff require_one_def dest: sql_ok split: if_splits)

lemma map_update_where: "(\<And>r. P r \<Longrightarrow> g (f r) = g r) \<Longrightarrow> map g (update_where P f rows) = map g rows"
  by (induction rows) (auto simp: update_where_def)

lemma set_update_where: "r \<in> set (update_where P f rows) \<longleftrightarrow> (\<exists>q \<in> set rows. r = (if P q then f q else q))"
  by (auto simp: update_where_def)

end
