(* ===== verification/Import_History.thy ===== *)
theory Import_History
  imports Import_Database
begin

text \<open>
  The history of imports (\<open>history.rs\<close>): what becomes of each file of an import that ended, and
  the counts. Times are the texts of the database; their form for the API is that of
  \<open>gojson.rs\<close>, a parameter here.
\<close>

fun status_text :: "job_status \<Rightarrow> string" where
  "status_text Uploading = ''uploading''"
| "status_text Awaiting_Confirmation = ''awaiting_confirmation''"
| "status_text Committed = ''committed''"
| "status_text Job_Failed = ''failed''"

definition IMPORT_CANCELED :: string where
  "IMPORT_CANCELED = ''canceled''"

definition IMPORT_HISTORY_LIMIT :: nat where
  "IMPORT_HISTORY_LIMIT = 20"

record history_source =
  hs_file :: history_file
  hs_status :: string
  hs_outcome :: string
  hs_error_code :: string
  hs_track :: string

definition source_of_job :: "(string \<Rightarrow> string) \<Rightarrow> job \<Rightarrow> history_source" where
  "source_of_job time j =
     \<lparr>hs_file = \<lparr>hf_issues = jb_issues j, hf_file = (if jb_client_file j \<noteq> [] then jb_client_file j else jb_id j),
        hf_job = jb_id j, hf_filename = jb_filename j, hf_started = time (jb_created j), hf_completed = time (jb_updated j),
        hf_sha256 = jb_sha256 j, hf_result = [], hf_created_track = [], hf_replaced_track = []\<rparr>,
      hs_status = status_text (jb_status j), hs_outcome = jb_outcome j, hs_error_code = jb_error_code j, hs_track = jb_track j\<rparr>"

definition is_canceled :: "history_source \<Rightarrow> string \<Rightarrow> bool" where
  "is_canceled s terminal \<longleftrightarrow>
     hs_error_code s = IMPORT_CANCELED
     \<or> terminal = ''canceled'' \<and> hs_outcome s = [] \<and> hs_status s \<noteq> ''committed'' \<and> hs_status s \<noteq> ''failed''"

definition apply_result :: "history_source \<Rightarrow> string \<Rightarrow> string \<Rightarrow> history_source" where
  "apply_result s terminal terminal_at =
     (let f = hs_file s in
      if is_canceled s terminal
      then s\<lparr>hs_file := (f\<lparr>hf_result := ''canceled'',
             hf_completed := (if hs_error_code s \<noteq> IMPORT_CANCELED then terminal_at else hf_completed f)\<rparr>)\<rparr>
      else
        let result = (if hs_status s = ''committed'' \<and> hs_outcome s = [] then ''imported''
                      else if hs_outcome s = [] then hs_status s else hs_outcome s);
            result = (if hs_error_code s \<noteq> [] \<and> hs_outcome s \<noteq> ''imported'' \<and> hs_outcome s \<noteq> ''replaced''
                      then hs_error_code s else result);
            f = f\<lparr>hf_result := result\<rparr>;
            f = (if hs_outcome s = ''replaced'' then f\<lparr>hf_replaced_track := hs_track s\<rparr>
                 else if hs_status s = ''committed'' then f\<lparr>hf_created_track := hs_track s\<rparr> else f)
        in s\<lparr>hs_file := f\<rparr>)"

definition counts_default :: history_counts where
  "counts_default = \<lparr>hc_total = 0, hc_imported = 0, hc_rejected = 0, hc_failed = 0, hc_replaced = 0, hc_not_attempted = 0,
     hc_canceled = 0\<rparr>"

definition increment :: "history_counts \<Rightarrow> history_source \<Rightarrow> string \<Rightarrow> history_counts" where
  "increment c s terminal =
     (let c = c\<lparr>hc_total := hc_total c + 1\<rparr> in
      if is_canceled s terminal then c\<lparr>hc_canceled := hc_canceled c + 1\<rparr>
      else if hs_outcome s = ''imported'' \<or> hs_outcome s = [] \<and> hs_status s = ''committed'' then c\<lparr>hc_imported := hc_imported c + 1\<rparr>
      else if hs_outcome s = ''rejected'' then c\<lparr>hc_rejected := hc_rejected c + 1\<rparr>
      else if hs_outcome s = ''replaced'' then c\<lparr>hc_replaced := hc_replaced c + 1\<rparr>
      else if hs_outcome s = ''not_attempted'' then c\<lparr>hc_not_attempted := hc_not_attempted c + 1\<rparr>
      else c\<lparr>hc_failed := hc_failed c + 1\<rparr>)"

definition history_result_code :: "history_counts \<Rightarrow> string \<Rightarrow> string" where
  "history_result_code c terminal =
     (if terminal = ''canceled'' then terminal
      else let succeeded = hc_imported c + hc_replaced c
        in if succeeded = hc_total c then ''completed'' else if 0 < succeeded then ''partially_completed'' else ''failed'')"

text \<open>The first archive of an import is kept; the oldest beyond the limit go. The list is in the order of
  insertion, which is \<open>rowid\<close>; \<open>newer\<close> orders the completion times.\<close>

definition prune_history :: "(string \<Rightarrow> string \<Rightarrow> bool) \<Rightarrow> history_item list \<Rightarrow> history_item list" where
  "prune_history newer items =
     filter (\<lambda>i. length (filter (\<lambda>k. newer (hi_completed k) (hi_completed i)
          \<or> \<not> newer (hi_completed i) (hi_completed k) \<and> hi_import k \<in> set (map hi_import (tl (dropWhile (\<lambda>x. x \<noteq> i) items)))) items)
        < IMPORT_HISTORY_LIMIT) items"

definition insert_history :: "(string \<Rightarrow> string \<Rightarrow> bool) \<Rightarrow> history_item \<Rightarrow> db \<Rightarrow> import_error + db" where
  "insert_history newer item d =
     (if hi_import item \<in> set (map hi_import (db_history d)) then Inr d
      else and_then (sql (''store Import History'') (\<lambda>d. d\<lparr>db_history := db_history d @ [item]\<rparr>) d)
        (sql ''prune Import History'' (\<lambda>d. d\<lparr>db_history := prune_history newer (db_history d)\<rparr>)))"

definition archived_item :: "(string \<Rightarrow> string) \<Rightarrow> job \<Rightarrow> string \<Rightarrow> history_item" where
  "archived_item time j terminal =
     (let s = source_of_job time j;
          s' = apply_result s terminal (hf_completed (hs_file s));
          counts = increment counts_default s' terminal
      in \<lparr>hi_import = jb_id j, hi_started = hf_started (hs_file s'), hi_completed = hf_completed (hs_file s'),
          hi_result = history_result_code counts terminal, hi_counts = counts, hi_files = [hs_file s']\<rparr>)"

definition archive_standalone :: "(string \<Rightarrow> string) \<Rightarrow> (string \<Rightarrow> string \<Rightarrow> bool) \<Rightarrow> string \<Rightarrow> string \<Rightarrow> db \<Rightarrow> import_error + db" where
  "archive_standalone time newer job_id terminal d =
     (case filter (\<lambda>j. jb_id j = job_id \<and> jb_batch j = []) (db_jobs d) of
        [] \<Rightarrow> Inr d
      | j # _ \<Rightarrow>
          and_then (insert_history newer (archived_item time j terminal) d)
            (sql ''clear terminal standalone Import payloads'' (\<lambda>d. d\<lparr>db_jobs := update_where
               (\<lambda>j. jb_id j = job_id \<and> jb_batch j = [] \<and> (jb_status j = Committed \<or> jb_status j = Job_Failed))
               (\<lambda>j. j\<lparr>jb_preview_json := [], jb_staged_path := []\<rparr>) (db_jobs d)\<rparr>)))"

definition counts_sum :: "history_counts \<Rightarrow> bool" where
  "counts_sum c \<longleftrightarrow> hc_total c = hc_imported c + hc_rejected c + hc_failed c + hc_replaced c + hc_not_attempted c + hc_canceled c"

lemma increment_sums: "counts_sum c \<Longrightarrow> counts_sum (increment c s terminal)"
  by (simp add: counts_sum_def increment_def Let_def)

lemma counts_default_sums: "counts_sum counts_default"
  by (simp add: counts_sum_def counts_default_def)

lemma insert_history_frame:
  "insert_history newer item d = Inr d' \<Longrightarrow> \<exists>h. d' = d\<lparr>db_history := h\<rparr>"
proof (cases "hi_import item \<in> set (map hi_import (db_history d))")
  case True
  then show "insert_history newer item d = Inr d' \<Longrightarrow> ?thesis"
    by (auto simp: insert_history_def intro: exI [of _ "db_history d"])
next
  case False
  then show "insert_history newer item d = Inr d' \<Longrightarrow> ?thesis"
    by (auto simp: insert_history_def and_then_Inr_iff dest!: sql_ok)
qed

end
