(* ===== verification/Import_Storage.thy ===== *)
theory Import_Storage
  imports Import_Records
begin

text \<open>
  Managed Storage (\<open>storage.rs\<close>): every operation on files of Managed Import, below the root
  directory. Paths below the root are relative texts, as in the code; what the operating
  system answers, the free space, the digest of a file and the quoted form of a text are
  parameters, in the record \<open>storage\<close>. Opening the root directory is one call that may fail.
\<close>

record limits =
  reserve_bytes :: int
  file_bytes :: int
  batch_bytes :: int

record requirement =
  selected_bytes :: int
  temporary_bytes :: int

record staged_upload =
  up_path :: string
  up_size :: int
  up_sha256 :: string

record placed_files =
  pf_audio_path :: string
  pf_artwork_path :: string
  pf_audio :: string
  pf_artwork :: string
  pf_staged :: string
  pf_artwork_created :: bool

record placement =
  pl_audio_path :: string
  pl_artwork_path :: string
  pl_artwork_mode :: artwork_mode
  pl_staged :: string
  pl_pending_audio :: string
  pl_audio :: string
  pl_previous_audio :: string
  pl_retired_audio :: string
  pl_pending_artwork :: string
  pl_artwork :: string
  pl_previous_artwork :: string
  pl_retired_artwork :: string
  pl_artwork_created :: bool

record storage =
  st_root :: "string list"
  st_init_error :: "import_error option"
  st_reserve :: int
  st_file_limit :: int
  st_batch_limit :: int
  st_cwd :: string
  st_capacity :: "nat \<Rightarrow> os_error + int"
  st_debug :: "string \<Rightarrow> string"
  st_sha256 :: "string \<Rightarrow> string"
  st_ids :: id_tables

definition CANONICAL_LIBRARY_ROOT :: string where
  "CANONICAL_LIBRARY_ROOT = ''library''"

definition STAGING :: string where
  "STAGING = ''.staging''"

definition CAPACITY_CHECK_INTERVAL_BYTES :: int where
  "CAPACITY_CHECK_INTERVAL_BYTES = 4 * 2 ^ 20"

subsection \<open>Paths\<close>

definition path_components :: "string \<Rightarrow> string list" where
  "path_components p = filter (\<lambda>c. c \<noteq> [] \<and> c \<noteq> ''.'') (split_char (CHR ''/'') p)"

fun clean_components :: "string list \<Rightarrow> string list \<Rightarrow> string list" where
  "clean_components acc [] = acc"
| "clean_components acc (c # cs) = clean_components (if c = ''..'' then butlast acc else acc @ [c]) cs"

definition absolute :: "string \<Rightarrow> string \<Rightarrow> string list" where
  "absolute cwd path =
     clean_components [] (path_components (if path \<noteq> [] \<and> hd path = CHR ''/'' then path else cwd @ CHR ''/'' # path))"

definition show_path :: "string list \<Rightarrow> string" where
  "show_path cs = (if cs = [] then ''/'' else concat (map (\<lambda>c. CHR ''/'' # c) cs))"

definition join_paths :: "string list \<Rightarrow> string" where
  "join_paths parts = join_with (CHR ''/'') (filter (\<lambda>p. p \<noteq> []) parts)"

definition join_dir :: "string \<Rightarrow> string \<Rightarrow> string" where
  "join_dir dir name = (if dir = ''.'' then name else dir @ CHR ''/'' # name)"

definition base_name :: "string \<Rightarrow> string" where
  "base_name path = (case rfind_char (CHR ''/'') path of Some i \<Rightarrow> drop (Suc i) path | None \<Rightarrow> path)"

definition path_extension :: "string \<Rightarrow> string" where
  "path_extension path =
     (let name = base_name path in case rfind_char (CHR ''.'') name of Some i \<Rightarrow> drop i name | None \<Rightarrow> [])"

definition io_err :: "string \<Rightarrow> os_error \<Rightarrow> import_error" where
  "io_err context e = err_new (context @ '': '' @ io_text e)"

definition is_enoent :: "os_error \<Rightarrow> bool" where
  "is_enoent e \<longleftrightarrow> io_kind e = Not_Found_Kind"

definition storage_init_error :: "string \<Rightarrow> string list \<Rightarrow> limits \<Rightarrow> import_error option" where
  "storage_init_error path absolute_root l =
     (if trim path = [] then Some (err_new ''managed storage root is not configured'')
      else if absolute_root = [] then Some (err_wrap Unsafe_Storage_Path ''filesystem root cannot be Managed Storage'')
      else if reserve_bytes l < 0 \<or> file_bytes l \<le> 0 \<or> batch_bytes l \<le> 0
        then Some (err_new ''managed storage limits are invalid'')
      else if file_bytes l = i64_max \<or> batch_bytes l = i64_max
        then Some (err_new ''managed import limits exceed supported byte counts'')
      else None)"

definition storage_new :: "storage \<Rightarrow> string \<Rightarrow> limits \<Rightarrow> storage" where
  "storage_new env path l =
     (let absolute_root = absolute (st_cwd env) path
      in env\<lparr>st_root := absolute_root, st_init_error := storage_init_error path absolute_root l,
             st_reserve := reserve_bytes l, st_file_limit := file_bytes l, st_batch_limit := batch_bytes l\<rparr>)"

definition open_root :: "storage \<Rightarrow> ('d, import_error, unit) steps" where
  "open_root st =
     (case st_init_error st of
        Some e \<Rightarrow> s_fail e
      | None \<Rightarrow> s_map_err (io_err ''open Managed Storage root'') (file_step (\<lambda>t. Inr ((), t))))"

definition relative_path :: "storage \<Rightarrow> string \<Rightarrow> import_error + string" where
  "relative_path st path =
     (case strip_prefix (st_root st) (absolute (st_cwd st) path) of
        Some (c # cs) \<Rightarrow> Inr (join_with (CHR ''/'') (c # cs))
      | _ \<Rightarrow> Inl (err_wrap Unsafe_Storage_Path (''path '' @ st_debug st path @ '' escapes Managed Storage'')))"

definition optional_relative_path :: "storage \<Rightarrow> string \<Rightarrow> import_error + string" where
  "optional_relative_path st path = (if path = [] then Inr [] else relative_path st path)"

definition absolute_path :: "storage \<Rightarrow> string \<Rightarrow> string" where
  "absolute_path st relative = show_path (st_root st) @ CHR ''/'' # relative"

definition optional_absolute_path :: "storage \<Rightarrow> string \<Rightarrow> string" where
  "optional_absolute_path st relative = (if relative = [] then [] else absolute_path st relative)"

subsection \<open>Limits and capacity\<close>

definition validate_upload_length :: "storage \<Rightarrow> int \<Rightarrow> import_error + unit" where
  "validate_upload_length st content_length =
     (if st_file_limit st < content_length then Inl (err_sentinel Upload_Too_Large)
      else if st_batch_limit st < content_length then Inl (err_sentinel Batch_Too_Large)
      else Inr ())"

definition upload_reservation_size :: "storage \<Rightarrow> int \<Rightarrow> import_error + int" where
  "upload_reservation_size st content_length =
     and_then (validate_upload_length st content_length) (\<lambda>_. Inr (max content_length 0))"

definition stream_limit :: "storage \<Rightarrow> int \<times> sentinel" where
  "stream_limit st =
     (if st_batch_limit st < st_file_limit st then (st_batch_limit st, Batch_Too_Large)
      else (st_file_limit st, Upload_Too_Large))"

definition checked_add :: "int \<Rightarrow> int \<Rightarrow> int option" where
  "checked_add a b = (if in_i64 (a + b) then Some (a + b) else None)"

definition probe_capacity :: "storage \<Rightarrow> ('d, import_error, int) steps" where
  "probe_capacity st w =
     (case st_capacity st (ticks w) of
        Inl e \<Rightarrow> (Failed (io_err ''inspect Managed Storage capacity'' e), tick_world w)
      | Inr n \<Rightarrow> (Done n, tick_world w))"

definition preflight :: "storage \<Rightarrow> requirement \<Rightarrow> ('d, import_error, unit) steps" where
  "preflight st r =
     (if selected_bytes r < 0 \<or> temporary_bytes r < 0
      then s_fail (err_new ''managed storage preflight byte counts must not be negative'')
      else s_then (open_root st)
        (case Option.bind (checked_add 0 (st_reserve st)) (\<lambda>a. Option.bind (checked_add a (selected_bytes r))
           (\<lambda>b. checked_add b (temporary_bytes r))) of
           None \<Rightarrow> s_fail (err_new ''managed storage preflight byte count overflow'')
         | Some required \<Rightarrow> s_bind (probe_capacity st) (\<lambda>available.
             if available < required
             then s_fail (err_wrap Insufficient_Storage
                    (show_int available @ '' bytes available, '' @ show_int required @ '' bytes required''))
             else s_return ())))"

subsection \<open>Files below the root\<close>

definition remove_rooted_file :: "storage \<Rightarrow> string \<Rightarrow> string \<Rightarrow> ('d, import_error, unit) steps" where
  "remove_rooted_file st path description =
     s_bind (s_try (remove_file path)) (\<lambda>r.
       case r of
         Inl e \<Rightarrow> if is_enoent e then s_return ()
                  else s_fail (io_err (''remove '' @ description @ '' '' @ st_debug st path) e)
       | Inr _ \<Rightarrow> s_return ())"

definition restore_rooted_file :: "storage \<Rightarrow> string \<Rightarrow> string \<Rightarrow> ('d, import_error, unit) steps" where
  "restore_rooted_file st from_path to_path =
     s_map_err (io_err (''restore Managed Import staging file from '' @ st_debug st from_path @ '' to '' @ st_debug st to_path))
       (rename_file from_path to_path)"

definition restore_if_present :: "storage \<Rightarrow> string \<Rightarrow> string \<Rightarrow> ('d, import_error, unit) steps" where
  "restore_if_present st from_path to_path =
     s_bind (s_try (symlink_metadata from_path)) (\<lambda>r.
       case r of
         Inl e \<Rightarrow> if is_enoent e then s_return ()
                  else s_fail (io_err (''inspect '' @ st_debug st from_path @ '' before restore'') e)
       | Inr _ \<Rightarrow>
           s_bind (s_try (symlink_metadata to_path)) (\<lambda>there.
             case there of
               Inr _ \<Rightarrow> s_fail (err_wrap Unsafe_Storage_Path (''restore target '' @ st_debug st to_path @ '' already exists''))
             | Inl _ \<Rightarrow> restore_rooted_file st from_path to_path))"

definition undo_retired_swap :: "storage \<Rightarrow> string \<Rightarrow> string \<Rightarrow> string \<Rightarrow> string \<Rightarrow> ('d, import_error, unit) steps" where
  "undo_retired_swap st retired previous canonical pending =
     s_bind (s_try (symlink_metadata retired)) (\<lambda>r.
       case r of
         Inl e \<Rightarrow> if is_enoent e then s_return ()
                  else s_fail (io_err (''inspect retired Managed Storage file '' @ st_debug st retired) e)
       | Inr _ \<Rightarrow>
           s_bind (s_err (restore_if_present st canonical pending)) (\<lambda>a.
           s_bind (s_err (restore_if_present st retired previous)) (\<lambda>b.
             s_result (result_of (err_join [a, b])))))"

fun reject_links :: "storage \<Rightarrow> string \<Rightarrow> string list \<Rightarrow> ('d, import_error, unit) steps" where
  "reject_links st current [] = s_return ()"
| "reject_links st current (c # cs) =
     (let here = join_paths [current, c] in
      s_bind (s_map_err (io_err (''inspect Managed Storage path '' @ st_debug st here)) (symlink_metadata here)) (\<lambda>n.
        if n = Link then s_fail (err_wrap Unsafe_Storage_Path (''path '' @ st_debug st here @ '' is a symbolic link''))
        else reject_links st here cs))"

definition reject_symlinks :: "storage \<Rightarrow> string \<Rightarrow> ('d, import_error, unit) steps" where
  "reject_symlinks st path = reject_links st [] (path_components path)"

text \<open>A cancellation is asked for at a moment of the run. The loop that reads a file asks before every
  buffer; the model asks once.\<close>

definition s_poll :: "(nat \<Rightarrow> bool) \<Rightarrow> ('d, 'e, bool) steps" where
  "s_poll c w = (Done (c (ticks w)), w)"

definition never :: "nat \<Rightarrow> bool" where
  "never n = False"

definition verify_rooted_file_hash :: "storage \<Rightarrow> string \<Rightarrow> string \<Rightarrow> (nat \<Rightarrow> bool) \<Rightarrow> ('d, import_error, unit) steps" where
  "verify_rooted_file_hash st path expected c =
     s_then (reject_symlinks st path)
       (s_bind (s_map_err (io_err ''open Managed Storage file for verification'') (read_file path)) (\<lambda>content.
        s_bind (s_poll c) (\<lambda>is_cancelled.
         if is_cancelled then s_fail (err_context ''hash Managed Storage file'' (err_sentinel Import_Cancelled))
         else if st_sha256 st content \<noteq> expected
           then s_fail (err_new (''verify Managed Storage file hash: got '' @ st_sha256 st content @ '', want '' @ expected))
         else s_return ())))"

fun ensure_parts :: "storage \<Rightarrow> string \<Rightarrow> string list \<Rightarrow> ('d, import_error, unit) steps" where
  "ensure_parts st current [] = s_return ()"
| "ensure_parts st current (c # cs) =
     (let here = join_paths [current, c] in
      s_bind (s_try (symlink_metadata here)) (\<lambda>r.
        s_then
          (case r of
             Inl e \<Rightarrow>
               if is_enoent e
               then s_map_err (io_err (''create Managed Storage directory '' @ st_debug st here)) (create_dir here)
               else s_fail (io_err (''inspect Managed Storage directory '' @ st_debug st here) e)
           | Inr Link \<Rightarrow> s_fail (err_wrap Unsafe_Storage_Path (''directory '' @ st_debug st here @ '' is a symbolic link''))
           | Inr (File _) \<Rightarrow> s_fail (err_new (''managed storage path '' @ st_debug st here @ '' is not a directory''))
           | Inr Directory \<Rightarrow> s_return ())
          (ensure_parts st here cs)))"

definition ensure_directory :: "storage \<Rightarrow> string \<Rightarrow> ('d, import_error, unit) steps" where
  "ensure_directory st path =
     s_then (ensure_parts st [] (path_components path))
       (s_map_err (io_err (''protect Managed Storage directory '' @ st_debug st path)) (set_permissions path))"

lemma rfind_bound: "rfind_char c s = Some i \<Longrightarrow> i < length s"
  by (cases s) (auto simp: rfind_char_def less_Suc_eq_le simp del: takeWhile.simps rev.simps split: if_splits)

lemma parent_shorter: "parent_path d \<noteq> ''.'' \<Longrightarrow> length (parent_path d) < length d"
  using rfind_bound [of "CHR ''/''" d] by (auto simp: parent_path_def split: option.splits)

text \<open>Every empty directory from \<open>directory\<close> upwards, up to the root or \<open>boundary\<close>.\<close>

function remove_empty_directories_under :: "storage \<Rightarrow> string \<Rightarrow> string \<Rightarrow> ('d, import_error, unit) steps" where
  "remove_empty_directories_under st directory boundary =
     (if directory = ''.'' \<or> directory = [] \<or> directory = boundary then s_return ()
      else s_bind (s_try (read_dir directory)) (\<lambda>r.
        case r of
          Inl e \<Rightarrow>
            if is_enoent e then remove_empty_directories_under st (parent_path directory) boundary
            else s_fail (io_err (''open Managed Storage directory '' @ st_debug st directory @ '' for cleanup'') e)
        | Inr True \<Rightarrow> s_return ()
        | Inr False \<Rightarrow>
            s_bind (s_try (remove_dir directory)) (\<lambda>removed.
              case removed of
                Inl e \<Rightarrow>
                  if is_enoent e then remove_empty_directories_under st (parent_path directory) boundary
                  else s_fail (io_err (''remove empty Managed Storage directory '' @ st_debug st directory) e)
              | Inr _ \<Rightarrow> remove_empty_directories_under st (parent_path directory) boundary)))"
  by pat_completeness auto

termination
  by (relation "measure (\<lambda>(_, d, _). if d = ''.'' then 0 else Suc (length d))") (auto dest: parent_shorter)

declare remove_empty_directories_under.simps [simp del]

subsection \<open>Artwork\<close>

definition ALBUM_ARTWORK_CONFLICT :: string where
  "ALBUM_ARTWORK_CONFLICT = ''album_artwork_conflict''"

definition album_artwork_conflict :: "string \<Rightarrow> import_error" where
  "album_artwork_conflict reason = err_validation (validation_new ALBUM_ARTWORK_CONFLICT ''artwork'' reason) reason"

definition verify_matching_artwork :: "storage \<Rightarrow> string \<Rightarrow> string \<Rightarrow> ('d, import_error, unit) steps" where
  "verify_matching_artwork st path expected =
     s_map_err (\<lambda>e. err_validation (validation_new ALBUM_ARTWORK_CONFLICT ''artwork''
         ''canonical Album Artwork differs from the selected Album'') (err_message e))
       (verify_rooted_file_hash st path expected never)"

definition write_rooted_artwork :: "storage \<Rightarrow> string \<Rightarrow> string \<Rightarrow> string \<Rightarrow> ('d, import_error, unit) steps option
    \<Rightarrow> ('d, import_error, bool) steps" where
  "write_rooted_artwork st path bytes expected created =
     s_bind (s_try (create_new path)) (\<lambda>opened.
       case opened of
         Inl e \<Rightarrow>
           if io_kind e = Already_Exists_Kind
           then s_then (verify_matching_artwork st path expected) (s_return False)
           else s_fail (io_err ''create canonical Album Artwork'' e)
       | Inr _ \<Rightarrow>
           let remove = (\<lambda>e. s_bind (s_err (remove_rooted_file st path ''Canonical Album Artwork'')) (\<lambda>r.
                 s_fail (join_with_rest e [r]))) in
           s_bind (s_err (case created of Some mark \<Rightarrow> mark | None \<Rightarrow> s_return ())) (\<lambda>marked.
             case marked of
               Some e \<Rightarrow> remove e
             | None \<Rightarrow>
                 s_bind (s_err (s_map_err (io_err ''write Album Artwork'') (write_all path bytes))) (\<lambda>written.
                   case written of
                     Some e \<Rightarrow> remove e
                   | None \<Rightarrow>
                       s_bind (s_err (verify_rooted_file_hash st path expected never)) (\<lambda>verified.
                         case verified of Some e \<Rightarrow> remove e | None \<Rightarrow> s_return True))))"

subsection \<open>Uploads\<close>

definition staged_file_size :: "storage \<Rightarrow> string \<Rightarrow> ('d, import_error, int) steps" where
  "staged_file_size st path =
     s_bind (s_result (relative_path st path)) (\<lambda>relative.
     s_then (open_root st)
     (s_then (reject_symlinks st relative)
     (s_bind (s_map_err (io_err ''stat staged Managed Track'') (file_metadata relative)) (\<lambda>n.
        case n of
          File c \<Rightarrow> s_return (int (length c))
        | _ \<Rightarrow> s_fail (err_wrap Unsafe_Storage_Path ''staged Managed Track is not a regular file'')))))"

definition remove_staged :: "storage \<Rightarrow> string \<Rightarrow> ('d, import_error, unit) steps" where
  "remove_staged st path =
     s_bind (s_result (relative_path st path)) (\<lambda>relative.
     s_then (open_root st) (remove_rooted_file st relative ''Managed Import staging file''))"

record upload =
  written :: int
  since_check :: int
  checked :: bool
  landed :: string

datatype upload_end = Body_Ended | Upload_Failed import_error bool | Over_Limit

fun upload_loop :: "storage \<Rightarrow> string \<Rightarrow> int \<Rightarrow> (import_error + string) list \<Rightarrow> upload
    \<Rightarrow> ('d, import_error, upload \<times> upload_end) steps" where
  "upload_loop st relative content_length [] u = s_return (u, Body_Ended)"
| "upload_loop st relative content_length (Inl e # body) u =
     s_return (u, Upload_Failed e (err_is Upload_Interrupted e \<or> err_is Import_Cancelled e))"
| "upload_loop st relative content_length (Inr chunk # body) u =
     (let size = int (length chunk) in
      if fst (stream_limit st) < written u + size then s_return (u, Over_Limit)
      else
        let probing = (\<not> checked u \<or> CAPACITY_CHECK_INTERVAL_BYTES \<le> since_check u + size);
            remaining = (if 0 \<le> content_length then content_length - written u else -1);
            probe = (if 0 \<le> remaining \<and> remaining < CAPACITY_CHECK_INTERVAL_BYTES then remaining else CAPACITY_CHECK_INTERVAL_BYTES)
        in s_bind (if probing then s_err (preflight st \<lparr>selected_bytes = max probe size, temporary_bytes = 0\<rparr>) else s_return None)
             (\<lambda>full. case full of
                Some e \<Rightarrow> s_return (u, Upload_Failed e False)
              | None \<Rightarrow>
                  let u = (if probing then u\<lparr>checked := True, since_check := 0\<rparr> else u) in
                  s_bind (s_err (s_map_err (io_err ''write Managed Import staging file'') (write_all relative chunk))) (\<lambda>failed.
                    case failed of
                      Some e \<Rightarrow> s_return (u, Upload_Failed e False)
                    | None \<Rightarrow> upload_loop st relative content_length body
                        (u\<lparr>written := written u + size, since_check := since_check u + size, landed := landed u @ chunk\<rparr>))))"

text \<open>\<open>flush\<close> at the end is one more call.\<close>

definition close_upload :: "('d, import_error, unit) steps" where
  "close_upload = s_map_err (io_err ''close Managed Import staging file'') (file_step (\<lambda>t. Inr ((), t)))"

definition stage_upload :: "storage \<Rightarrow> string \<Rightarrow> (import_error + string) list \<Rightarrow> int \<Rightarrow> ('d, import_error, staged_upload) steps" where
  "stage_upload st uuid body content_length =
     s_then (s_result (validate_upload_length st content_length))
     (s_then (if 0 < content_length then preflight st \<lparr>selected_bytes = content_length, temporary_bytes = 0\<rparr> else s_return ())
     (s_then (open_root st)
     (s_then (ensure_directory st STAGING)
     (let relative = STAGING @ ''/.import-'' @ uuid @ ''.upload'' in
      s_then (s_map_err (io_err ''create Managed Import staging file'') (create_new relative))
      (s_bind (upload_loop st relative content_length body \<lparr>written = 0, since_check = 0, checked = False, landed = []\<rparr>)
       (\<lambda>(u, finish).
       s_bind (s_err close_upload) (\<lambda>close.
       let short = (0 \<le> content_length \<and> written u < content_length);
           failure = (case finish of Upload_Failed e _ \<Rightarrow> Some e | _ \<Rightarrow> None);
           interrupted = (case finish of Upload_Failed _ b \<Rightarrow> b | _ \<Rightarrow> False)
       in if finish = Over_Limit \<or> failure \<noteq> None \<or> close \<noteq> None \<or> short
          then s_bind (s_err (remove_rooted_file st relative ''Managed Import staging file'')) (\<lambda>removed.
            if finish = Over_Limit then s_fail (join_with_rest (err_sentinel (snd (stream_limit st))) [removed])
            else if short \<or> interrupted
              then s_fail (join_with_rest (err_sentinel Upload_Interrupted)
                     [Some (err_new ''unexpected EOF''), failure, close, removed])
            else s_result (case err_join [failure, close, removed] of Some e \<Rightarrow> Inl e | None \<Rightarrow> Inl (err_new [])))
          else s_return \<lparr>up_path = absolute_path st relative, up_size = written u, up_sha256 = st_sha256 st (landed u)\<rparr>)))))))"

end
