(* ===== verification/Import_Rows.thy ===== *)
theory Import_Rows
  imports Import_History Import_Storage "HOL-Library.List_Lexorder" "HOL-Library.Char_ord"
begin

text \<open>
  The rows a commit writes (\<open>commit.rs\<close>) and those a deletion takes away (\<open>deletion.rs\<close>). Each
  function is the part of a transaction it is in the code: it fails with the first statement
  that fails, and then the whole transaction leaves nothing.
\<close>

text \<open>What these functions ask besides the database: modification times, the form of times in the
  history, the order of those, and the quoted form of a text.\<close>

record service_env =
  se_storage :: storage
  se_mtime :: "string \<Rightarrow> int"
  se_time :: "string \<Rightarrow> string"
  se_newer :: "string \<Rightarrow> string \<Rightarrow> bool"
  se_quote :: "utext \<Rightarrow> string"

record commit_data =
  cd_identity :: commit_identity
  cd_placement :: placed_files
  cd_inspection :: media_inspection
  cd_album_key :: utext

abbreviation ids_of :: "service_env \<Rightarrow> id_tables" where
  "ids_of env \<equiv> st_ids (se_storage env)"

definition positive_of :: "int \<Rightarrow> int option" where
  "positive_of n = (if 0 < n then Some n else None)"

subsection \<open>Artists and albums\<close>

definition upsert_artist :: "service_env \<Rightarrow> utext \<Rightarrow> string \<Rightarrow> utext \<Rightarrow> (utext \<rightharpoonup> string) \<times> db
    \<Rightarrow> import_error + (utext \<rightharpoonup> string) \<times> db" where
  "upsert_artist env primary album_artist_id name s =
     (let (ids, d) = s; normalized = normalize_identity (ids_of env) name in
      if ids normalized \<noteq> None then Inr (ids, d)
      else
        let preferred = (if normalized = primary then album_artist_id else []) in
        case filter (\<lambda>a. ar_normalized a = normalized) (db_artists d) of
          a # _ \<Rightarrow>
            if preferred \<noteq> [] \<and> ar_id a \<noteq> preferred
            then Inl (err_new ''resolved Artist identity changed during Managed Import commit'')
            else Inr (ids(normalized \<mapsto> ar_id a), d)
        | [] \<Rightarrow>
            let (i, d) = (if preferred = [] then fresh d else (preferred, d)) in
            and_then (sql (''create Artist '' @ se_quote env name)
                (\<lambda>d. d\<lparr>db_artists := db_artists d @ [\<lparr>ar_id = i, ar_name = name, ar_sort = normalized, ar_normalized = normalized\<rparr>]\<rparr>) d)
              (\<lambda>d. Inr (ids(normalized \<mapsto> i), d)))"

fun fold_rows :: "('x \<Rightarrow> 's \<Rightarrow> import_error + 's) \<Rightarrow> 'x list \<Rightarrow> 's \<Rightarrow> import_error + 's" where
  "fold_rows f [] s = Inr s"
| "fold_rows f (x # xs) s = and_then (f x s) (fold_rows f xs)"

definition upsert_artists :: "service_env \<Rightarrow> utext list \<Rightarrow> utext list \<Rightarrow> string \<Rightarrow> db \<Rightarrow> import_error + (utext \<rightharpoonup> string) \<times> db" where
  "upsert_artists env albums tracks album_artist_id d =
     fold_rows (upsert_artist env (normalize_identity (ids_of env) (hd albums)) album_artist_id) (albums @ tracks) (Map.empty, d)"

text \<open>Indexing the map with a name that is not there would panic; here it is an error.\<close>

definition artist_of :: "service_env \<Rightarrow> (utext \<rightharpoonup> string) \<Rightarrow> utext \<Rightarrow> import_error + string" where
  "artist_of env ids name =
     (case ids (normalize_identity (ids_of env) name) of Some i \<Rightarrow> Inr i | None \<Rightarrow> Inl (err_new ''panicked: no entry for this name''))"

definition upsert_album_for :: "service_env \<Rightarrow> commit_data \<Rightarrow> (utext \<rightharpoonup> string) \<Rightarrow> db \<Rightarrow> import_error + db" where
  "upsert_album_for env cd ids d =
     (let m = ins_metadata (cd_inspection cd); u = ids_of env in
      case filter (\<lambda>a. al_key a = cd_album_key cd) (db_albums d) of
        a # _ \<Rightarrow>
          if al_id a \<noteq> id_album (cd_identity cd)
          then Inl (err_new ''resolved Album identity changed during Managed Import commit'') else Inr d
      | [] \<Rightarrow> and_then (artist_of env ids (hd (album_artists m))) (\<lambda>artist_id.
          sql ''create Managed Import Album'' (\<lambda>d. d\<lparr>db_albums := db_albums d @
            [\<lparr>al_id = id_album (cd_identity cd), al_artist = artist_id, al_title = md_album m,
              al_title_sort = normalize_identity u (md_album m), al_year = positive_of (year m),
              al_release_date = map_option show_int (positive_of (year m)), al_genres = genres m,
              al_key = cd_album_key cd, al_revision = 1\<rparr>]\<rparr>) d))"

text \<open>The size and modification time of a file by its absolute path.\<close>

definition file_facts :: "service_env \<Rightarrow> tree \<Rightarrow> string \<Rightarrow> import_error + int \<times> int" where
  "file_facts env t path =
     and_then (relative_path (se_storage env) path) (\<lambda>relative.
       case fmlookup t relative of
         Some (File c) \<Rightarrow> Inr (int (length c), se_mtime env path)
       | _ \<Rightarrow> Inl (err_new (''stat '' @ path)))"

definition context_of :: "string \<Rightarrow> import_error + 'a \<Rightarrow> import_error + 'a" where
  "context_of c r = (case r of Inl e \<Rightarrow> Inl (err_context c e) | Inr x \<Rightarrow> Inr x)"

subsection \<open>The Track\<close>

fun join_names :: "utext list \<Rightarrow> utext" where
  "join_names [] = []"
| "join_names [n] = n"
| "join_names (n # m # ns) = n @ txt_of '', '' @ join_names (m # ns)"

text \<open>\<open>BITS_PER_KILOBIT\<close> is a thousand.\<close>

definition track_row :: "service_env \<Rightarrow> commit_data \<Rightarrow> int \<Rightarrow> int \<Rightarrow> track \<Rightarrow> track" where
  "track_row env cd len mtime base =
     (let m = ins_metadata (cd_inspection cd); a = ins_audio (cd_inspection cd); u = ids_of env in
      base\<lparr>tr_album := id_album (cd_identity cd), tr_title := md_title m, tr_title_sort := normalize_identity u (md_title m),
        tr_artist_name := join_names (artists m), tr_track_no := number (track_position m),
        tr_duration_ms := duration_ms a, tr_format := format a, tr_size := len,
        tr_file_path := pf_audio_path (cd_placement cd), tr_mtime := mtime,
        tr_genre := (case genres m of [] \<Rightarrow> [] | g # _ \<Rightarrow> g), tr_sample_rate := sample_rate_hz a,
        tr_bit_depth := positive_of (bit_depth a), tr_disc_no := number (disc_position m),
        tr_track_total := positive_of (total (track_position m)), tr_disc_total := positive_of (total (disc_position m)),
        tr_channels := channel_count a, tr_bitrate := bitrate_kbps a * 1000, tr_codec := codec a, tr_container := container a,
        tr_gain := md_replay_gain m, tr_identity_key := track_identity_key u m\<rparr>)"

definition track_blank :: "string \<Rightarrow> utext \<Rightarrow> track" where
  "track_blank i words = \<lparr>tr_id = i, tr_album = [], tr_title = [], tr_title_sort = [], tr_artist_name = [], tr_track_no = 0,
     tr_duration_ms = 0, tr_format = [], tr_size = 0, tr_file_path = [], tr_mtime = 0, tr_genre = [], tr_sample_rate = 0,
     tr_bit_depth = None, tr_disc_no = 0, tr_track_total = None, tr_disc_total = None, tr_channels = 0, tr_bitrate = 0,
     tr_codec = [], tr_container = [], tr_gain = \<lparr>track_gain_db = None, track_peak = None, album_gain_db = None, album_peak = None\<rparr>,
     tr_identity_key = [], tr_lyrics = words, tr_revision = 1, tr_missing = False, tr_pending = False\<rparr>"

definition insert_track :: "service_env \<Rightarrow> tree \<Rightarrow> commit_data \<Rightarrow> db \<Rightarrow> import_error + db" where
  "insert_track env t cd d =
     (let m = ins_metadata (cd_inspection cd); i = id_track (cd_identity cd); path = pf_audio_path (cd_placement cd) in
      and_then (context_of ''stat canonical Managed Track'' (file_facts env t path)) (\<lambda>(len, mtime).
      and_then (sql ''create Managed Track'' (\<lambda>d. d\<lparr>db_tracks := db_tracks d @ [track_row env cd len mtime (track_blank i (lyrics m))]\<rparr>) d) (\<lambda>d.
        let (source_id, d) = fresh d in
        sql ''create Managed Track source'' (\<lambda>d. d\<lparr>db_sources := db_sources d @
          [\<lparr>so_id = source_id, so_track = i, so_managed = True, so_path = path, so_sha256 = ins_sha256 (cd_inspection cd),
            so_format = format (ins_audio (cd_inspection cd)), so_size = len, so_revision = 1\<rparr>]\<rparr>) d)))"

subsection \<open>Credits, genres and artwork\<close>

definition insert_track_artist_credits :: "service_env \<Rightarrow> string \<Rightarrow> utext list \<Rightarrow> (utext \<rightharpoonup> string) \<Rightarrow> db \<Rightarrow> import_error + db" where
  "insert_track_artist_credits env track_id names ids d =
     fold_rows (\<lambda>(position, name) d. and_then (artist_of env ids name) (\<lambda>a.
         sql (''create ordered Artist credit '' @ se_quote env name)
           (\<lambda>d. d\<lparr>db_track_artists := db_track_artists d @ [\<lparr>cr_owner = track_id, cr_artist = a, cr_position = position\<rparr>]\<rparr>) d))
       (enumerate 0 names) d"

text \<open>\<open>INSERT OR IGNORE\<close>: a row that would break a key is not inserted.\<close>

definition insert_album_artist_credits :: "service_env \<Rightarrow> string \<Rightarrow> utext list \<Rightarrow> (utext \<rightharpoonup> string) \<Rightarrow> db \<Rightarrow> import_error + db" where
  "insert_album_artist_credits env album_id names ids d =
     fold_rows (\<lambda>(position, name) d. and_then (artist_of env ids name) (\<lambda>a.
         if \<exists>c \<in> set (db_album_artists d). cr_owner c = album_id \<and> (cr_artist c = a \<or> cr_position c = position) then Inr d
         else sql (''create ordered Artist credit '' @ se_quote env name)
           (\<lambda>d. d\<lparr>db_album_artists := db_album_artists d @ [\<lparr>cr_owner = album_id, cr_artist = a, cr_position = position\<rparr>]\<rparr>) d))
       (enumerate 0 names) d"

definition upsert_genre :: "service_env \<Rightarrow> utext \<Rightarrow> db \<Rightarrow> import_error + string \<times> db" where
  "upsert_genre env name d =
     (let normalized = normalize_identity (ids_of env) name in
      case filter (\<lambda>g. ge_normalized g = normalized) (db_genres d) of
        g # _ \<Rightarrow> Inr (ge_id g, d)
      | [] \<Rightarrow>
          let (i, d) = fresh d in
          and_then (sql (''create Genre '' @ se_quote env name)
              (\<lambda>d. d\<lparr>db_genres := db_genres d @ [\<lparr>ge_id = i, ge_name = name, ge_normalized = normalized\<rparr>]\<rparr>) d)
            (\<lambda>d. Inr (i, d)))"

definition insert_genres :: "service_env \<Rightarrow> string \<Rightarrow> utext list \<Rightarrow> db \<Rightarrow> import_error + db" where
  "insert_genres env track_id names d =
     fold_rows (\<lambda>(position, name) d. and_then (upsert_genre env name d) (\<lambda>(g, d).
         sql (''create Track Genre '' @ se_quote env name)
           (\<lambda>d. d\<lparr>db_track_genres := db_track_genres d @ [\<lparr>tg_track = track_id, tg_genre = g, tg_position = position\<rparr>]\<rparr>) d))
       (enumerate 0 names) d"

definition insert_relationships :: "service_env \<Rightarrow> commit_data \<Rightarrow> (utext \<rightharpoonup> string) \<Rightarrow> db \<Rightarrow> import_error + db" where
  "insert_relationships env cd ids d =
     (let m = ins_metadata (cd_inspection cd); i = cd_identity cd in
      and_then (insert_album_artist_credits env (id_album i) (album_artists m) ids d) (\<lambda>d.
      and_then (insert_track_artist_credits env (id_track i) (artists m) ids d)
        (insert_genres env (id_track i) (genres m))))"

definition insert_artwork_for :: "commit_data \<Rightarrow> db \<Rightarrow> import_error + db" where
  "insert_artwork_for cd d =
     (let art = ins_artwork (cd_inspection cd); i = cd_identity cd in
      if id_artwork_path i \<noteq> [] \<or> art_sha256 art = [] then Inr d
      else let (aid, d) = fresh d in
        sql ''create Album Artwork'' (\<lambda>d. d\<lparr>db_artwork := db_artwork d @
          [\<lparr>aw_id = aid, aw_album = id_album i, aw_source = id_track i, aw_sha256 = art_sha256 art, aw_media_type = mime_type art,
            aw_width = art_width art, aw_height = art_height art, aw_size = int (length (art_data art)),
            aw_path = pf_artwork_path (cd_placement cd), aw_revision = 1\<rparr>]\<rparr>) d)"

definition write_commit_data :: "service_env \<Rightarrow> tree \<Rightarrow> commit_data \<Rightarrow> db \<Rightarrow> import_error + db" where
  "write_commit_data env t cd d =
     (let m = ins_metadata (cd_inspection cd) in
      and_then (upsert_artists env (album_artists m) (artists m) (id_album_artist (cd_identity cd)) d) (\<lambda>(ids, d).
      and_then (upsert_album_for env cd ids d) (\<lambda>d.
      and_then (insert_track env t cd d) (\<lambda>d.
      and_then (insert_relationships env cd ids d) (insert_artwork_for cd)))))"

subsection \<open>What a Track leaves behind\<close>

definition list_queues :: "string \<Rightarrow> db \<Rightarrow> (string \<times> nat) list" where
  "list_queues track_id d =
     (let users = map qe_user (filter (\<lambda>q. qe_track q = track_id) (db_queue d))
      in map (\<lambda>u. (u, length (filter (\<lambda>v. v = u) users))) (sort (remdups users)))"

record queue_invalidation =
  qi_user :: string
  qi_revision :: int
  qi_sequence :: int

definition advance_queue :: "string \<Rightarrow> queue_invalidation list \<times> db \<Rightarrow> import_error + queue_invalidation list \<times> db" where
  "advance_queue user s =
     (let (acc, d) = s;
          row = (case filter (\<lambda>q. qs_user q = user) (db_queue_states d) of
                   q # _ \<Rightarrow> q\<lparr>qs_revision := qs_revision q + 1, qs_sequence := qs_sequence q + 1\<rparr>
                 | [] \<Rightarrow> \<lparr>qs_user = user, qs_revision = 1, qs_sequence = 1\<rparr>)
      in and_then (sql [] (\<lambda>d. d\<lparr>db_queue_states := delete_where (\<lambda>q. qs_user q = user) (db_queue_states d) @ [row]\<rparr>) d) (\<lambda>d.
           Inr (acc @ [\<lparr>qi_user = user, qi_revision = qs_revision row, qi_sequence = qs_sequence row\<rparr>], d)))"

definition advance_queues :: "(string \<times> nat) list \<Rightarrow> db \<Rightarrow> import_error + queue_invalidation list \<times> db" where
  "advance_queues queues d = fold_rows advance_queue (map fst queues) ([], d)"

definition move_or_delete_artwork_reference :: "string \<Rightarrow> string \<Rightarrow> db \<Rightarrow> import_error + db" where
  "move_or_delete_artwork_reference track_id album_id d =
     sql ''update Album Artwork source after Track deletion''
       (case sort (map tr_id (filter (\<lambda>t. tr_album t = album_id \<and> tr_id t \<noteq> track_id) (db_tracks d))) of
          [] \<Rightarrow> (\<lambda>d. d\<lparr>db_artwork := delete_where (\<lambda>a. aw_album a = album_id) (db_artwork d)\<rparr>)
        | heir # _ \<Rightarrow> (\<lambda>d. d\<lparr>db_artwork := update_where (\<lambda>a. aw_album a = album_id \<and> aw_source a = track_id)
                           (\<lambda>a. a\<lparr>aw_source := heir\<rparr>) (db_artwork d)\<rparr>)) d"

definition track_and_album_artist_ids :: "string \<Rightarrow> string \<Rightarrow> db \<Rightarrow> string list" where
  "track_and_album_artist_ids track_id album_id d =
     remdups (map cr_artist (filter (\<lambda>c. cr_owner c = track_id) (db_track_artists d))
       @ map cr_artist (filter (\<lambda>c. cr_owner c = album_id) (db_album_artists d)))"

definition delete_album_if_empty :: "string \<Rightarrow> db \<Rightarrow> import_error + db" where
  "delete_album_if_empty album_id d =
     sql [] (\<lambda>d. if \<exists>t \<in> set (db_tracks d). tr_album t = album_id then d else cascade_album album_id d) d"

definition delete_unreferenced_artists :: "string list \<Rightarrow> db \<Rightarrow> import_error + db" where
  "delete_unreferenced_artists ids d =
     fold_rows (\<lambda>i. sql [] (\<lambda>d.
         if (\<exists>c \<in> set (db_track_artists d). cr_artist c = i) \<or> (\<exists>c \<in> set (db_album_artists d). cr_artist c = i) then d
         else d\<lparr>db_artists := delete_where (\<lambda>a. ar_id a = i) (db_artists d)\<rparr>)) ids d"

end
