(* ===== verification/Import_Placement.thy ===== *)
theory Import_Placement
  imports Import_Storage
begin

text \<open>
  Where Managed Import puts files (\<open>storage.rs\<close>): the canonical paths, placing a new Track,
  removing a Managed Track, and the moves of a Track Replacement with their way back.
\<close>

subsection \<open>Canonical paths\<close>

definition album_directory :: "storage \<Rightarrow> media_inspection \<Rightarrow> commit_identity \<Rightarrow> string" where
  "album_directory st ins i =
     (let m = ins_metadata ins in
      join_paths [CANONICAL_LIBRARY_ROOT, slug (st_ids st) (hd (album_artists m)) @ ''-'' @ id_album_artist i,
        slug (st_ids st) (md_album m) @ ''-'' @ id_album i])"

definition existing_canonical_album :: "storage \<Rightarrow> commit_identity \<Rightarrow> import_error + string \<times> string" where
  "existing_canonical_album st i =
     and_then (relative_path st (id_artwork_path i)) (\<lambda>artwork.
       let album = parent_path artwork;
           parts = split_char (CHR ''/'') album
       in if length parts = 3 \<and> parts ! 0 = CANONICAL_LIBRARY_ROOT \<and> suffix (CHR ''-'' # id_album_artist i) (parts ! 1)
            \<and> suffix (CHR ''-'' # id_album i) (parts ! 2) \<and> prefix ''cover.'' (base_name artwork)
          then Inr (artwork, album)
          else Inl (err_wrap Unsafe_Storage_Path ''existing Album Artwork path is not canonical''))"

definition audio_filename :: "storage \<Rightarrow> metadata \<Rightarrow> string \<Rightarrow> string \<Rightarrow> string" where
  "audio_filename st m track_id extension =
     two_digits (number (disc_position m)) @ ''-'' @ two_digits (number (track_position m)) @ ''-'' @ slug (st_ids st) (md_title m)
     @ ''-'' @ track_id @ extension"

definition plan_placement_in_album :: "storage \<Rightarrow> string \<Rightarrow> media_inspection \<Rightarrow> string \<Rightarrow> string \<Rightarrow> string
    \<Rightarrow> import_error + placed_files" where
  "plan_placement_in_album st staged_path ins track_id album artwork =
     and_then (relative_path st staged_path) (\<lambda>staged.
     and_then (source_extension (format (ins_audio ins)) (st_debug st)) (\<lambda>extension.
       let audio = album @ ''/'' @ audio_filename st (ins_metadata ins) track_id extension
       in Inr \<lparr>pf_audio_path = absolute_path st audio, pf_artwork_path = optional_absolute_path st artwork,
               pf_audio = audio, pf_artwork = artwork, pf_staged = staged, pf_artwork_created = False\<rparr>))"

definition plan_placement :: "storage \<Rightarrow> string \<Rightarrow> media_inspection \<Rightarrow> commit_identity \<Rightarrow> import_error + placed_files" where
  "plan_placement st staged_path ins i =
     (let album = album_directory st ins i;
          artwork = (if art_sha256 (ins_artwork ins) \<noteq> [] then album @ ''/cover'' @ artwork_extension (mime_type (ins_artwork ins)) else [])
      in and_then (if id_artwork_path i \<noteq> [] then existing_canonical_album st i else Inr (artwork, album)) (\<lambda>(artwork, album).
           plan_placement_in_album st staged_path ins (id_track i) album artwork))"

subsection \<open>Placing a new Track\<close>

definition prepare_artwork :: "storage \<Rightarrow> placed_files \<Rightarrow> media_inspection \<Rightarrow> commit_identity
    \<Rightarrow> ('d, import_error, placed_files \<times> bool) steps" where
  "prepare_artwork st p ins i =
     (if id_artwork_path i \<noteq> [] then
        let p = p\<lparr>pf_artwork_path := id_artwork_path i\<rparr> in
        s_then (s_map_err (err_context ''verify existing Album Artwork'')
                 (verify_rooted_file_hash st (pf_artwork p) (id_artwork_sha256 i) never))
          (s_return (p, False))
      else if pf_artwork p = [] then s_return (p, False)
      else s_bind (s_try (file_metadata (pf_artwork p))) (\<lambda>r.
        case r of
          Inr _ \<Rightarrow> s_then (verify_matching_artwork st (pf_artwork p) (art_sha256 (ins_artwork ins))) (s_return (p, False))
        | Inl e \<Rightarrow> if is_enoent e then s_return (p, True) else s_fail (io_err ''inspect Canonical Album Artwork path'' e)))"

definition place_planned :: "storage \<Rightarrow> placed_files \<Rightarrow> media_inspection \<Rightarrow> commit_identity \<Rightarrow> string
    \<Rightarrow> ('d, import_error, unit) steps option \<Rightarrow> ('d, import_error, placed_files) steps" where
  "place_planned st p ins i audio_operation created =
     s_then (open_root st)
     (s_then (ensure_directory st (parent_path (pf_audio p)))
     (s_bind (prepare_artwork st p ins i) (\<lambda>(p, should_create).
      s_then (s_map_err (io_err audio_operation) (rename_file (pf_staged p) (pf_audio p)))
      (if \<not> should_create then s_return p
       else s_bind (s_try (write_rooted_artwork st (pf_artwork p) (byte_text (art_data (ins_artwork ins)))
                      (art_sha256 (ins_artwork ins)) created)) (\<lambda>r.
         case r of
           Inr made \<Rightarrow> s_return (p\<lparr>pf_artwork_created := made\<rparr>)
         | Inl e \<Rightarrow> s_bind (s_err (restore_rooted_file st (pf_audio p) (pf_staged p))) (\<lambda>restored.
             s_fail (join_with_rest e [restored])))))))"

definition place :: "storage \<Rightarrow> string \<Rightarrow> media_inspection \<Rightarrow> commit_identity \<Rightarrow> ('d, import_error, unit) steps option
    \<Rightarrow> ('d, import_error, placed_files) steps" where
  "place st staged_path ins i created =
     s_bind (s_result (plan_placement st staged_path ins i)) (\<lambda>p.
       place_planned st p ins i ''place Managed Track at Canonical Library Path'' created)"

definition verify_placement :: "storage \<Rightarrow> placed_files \<Rightarrow> string \<Rightarrow> string \<Rightarrow> ('d, import_error, unit) steps" where
  "verify_placement st p audio_sha256 artwork_sha256 =
     s_then (open_root st)
     (s_then (s_map_err (err_context ''verify canonical Managed Track'') (verify_rooted_file_hash st (pf_audio p) audio_sha256 never))
     (if pf_artwork p \<noteq> []
      then s_map_err (err_context ''verify canonical Album Artwork'') (verify_rooted_file_hash st (pf_artwork p) artwork_sha256 never)
      else s_return ()))"

definition cleanup_placement :: "storage \<Rightarrow> placed_files \<Rightarrow> ('d, import_error, unit) steps" where
  "cleanup_placement st p = remove_staged st (absolute_path st (pf_staged p))"

definition placement_from_journal :: "storage \<Rightarrow> commit_journal \<Rightarrow> import_error + placed_files" where
  "placement_from_journal st j =
     and_then (relative_path st (cj_audio_path j)) (\<lambda>audio.
     and_then (optional_relative_path st (cj_artwork_path j)) (\<lambda>artwork.
     and_then (relative_path st (cj_staged_path j)) (\<lambda>staged.
       Inr \<lparr>pf_audio_path = cj_audio_path j, pf_artwork_path = cj_artwork_path j, pf_audio = audio, pf_artwork = artwork,
            pf_staged = staged, pf_artwork_created = cj_artwork_created j\<rparr>)))"

text \<open>The end of both ways back: independent failures together, and the directories that became empty.\<close>

definition drop_empty_directories :: "storage \<Rightarrow> string \<Rightarrow> ('d, 'e, import_error option) steps" where
  "drop_empty_directories st path = s_err (remove_empty_directories_under st (parent_path path) CANONICAL_LIBRARY_ROOT)"

definition rollback_placement :: "storage \<Rightarrow> placed_files \<Rightarrow> ('d, import_error, unit) steps" where
  "rollback_placement st p =
     s_then (open_root st)
     (s_bind (if pf_artwork_created p then s_err (remove_rooted_file st (pf_artwork p) ''Canonical Album Artwork'') else s_return None) (\<lambda>artwork.
      s_bind (s_err (restore_rooted_file st (pf_audio p) (pf_staged p))) (\<lambda>restored.
      s_bind (drop_empty_directories st (pf_audio p)) (\<lambda>directories.
        s_result (result_of (err_join [artwork, restored, directories]))))))"

definition cleanup_prepared_placement :: "storage \<Rightarrow> placed_files \<Rightarrow> ('d, import_error, unit) steps" where
  "cleanup_prepared_placement st p =
     s_then (open_root st)
     (s_bind (if pf_artwork_created p then s_err (remove_rooted_file st (pf_artwork p) ''uncommitted Canonical Album Artwork'') else s_return None) (\<lambda>artwork.
      s_bind (drop_empty_directories st (pf_audio p)) (\<lambda>directories.
        s_result (result_of (err_join [artwork, directories])))))"

subsection \<open>Managed files\<close>

definition resolve_managed_file :: "storage \<Rightarrow> string \<Rightarrow> string \<Rightarrow> ('d, import_error, string \<times> int) steps" where
  "resolve_managed_file st path expected =
     s_bind (s_result (relative_path st path)) (\<lambda>relative.
     s_then (open_root st)
     (s_then (s_map_err (\<lambda>e. err_wrap Unsafe_Storage_Path (''cannot resolve managed Track source: '' @ err_message e)) (reject_symlinks st relative))
     (s_bind (s_try (file_metadata relative)) (\<lambda>r.
       case r of
         Inr (File c) \<Rightarrow>
           s_then (s_map_err (\<lambda>e. err_wrap Unsafe_Storage_Path (''managed Track source identity changed: '' @ err_message e))
               (verify_rooted_file_hash st relative expected never))
             (s_return (relative, int (length c)))
       | _ \<Rightarrow> s_fail (err_wrap Unsafe_Storage_Path ''managed Track source is not a regular file'')))))"

definition remove_managed_file :: "storage \<Rightarrow> (nat \<Rightarrow> bool) \<Rightarrow> string \<Rightarrow> string \<Rightarrow> ('d, import_error, bool) steps" where
  "remove_managed_file st c path expected =
     s_bind (s_poll c) (\<lambda>stop. if stop then s_fail (err_sentinel Import_Cancelled) else
     s_bind (s_result (relative_path st path)) (\<lambda>relative.
     s_then (open_root st)
     (s_then (s_map_err (\<lambda>e. err_wrap Unsafe_Storage_Path (''cannot resolve managed Track directory: '' @ err_message e))
         (reject_symlinks st (parent_path relative)))
     (s_bind (s_try (symlink_metadata relative)) (\<lambda>r.
       case r of
         Inr (File _) \<Rightarrow>
           s_bind (s_err (verify_rooted_file_hash st relative expected c)) (\<lambda>bad.
             case bad of
               Some e \<Rightarrow> s_bind (s_poll c) (\<lambda>stop.
                 if stop then s_fail (err_sentinel Import_Cancelled)
                 else s_fail (err_wrap Unsafe_Storage_Path (''managed Track source identity changed: '' @ err_message e)))
             | None \<Rightarrow> s_bind (s_poll c) (\<lambda>stop.
                 if stop then s_fail (err_sentinel Import_Cancelled)
                 else s_then (s_map_err (io_err ''remove Managed Track source'') (remove_file relative)) (s_return True)))
       | Inr _ \<Rightarrow> s_fail (err_wrap Unsafe_Storage_Path ''managed Track source is not a regular file'')
       | Inl e \<Rightarrow> if is_enoent e then s_return True
                  else s_fail (err_wrap Unsafe_Storage_Path ''managed Track source is not a regular file''))))))"

subsection \<open>Track Replacement\<close>

definition plan_replacement_artwork :: "storage \<Rightarrow> placement \<Rightarrow> placed_files \<Rightarrow> media_inspection \<Rightarrow> commit_identity
    \<Rightarrow> replacement_target \<Rightarrow> string \<Rightarrow> import_error + placement" where
  "plan_replacement_artwork st p planned ins i target album =
     (let p = p\<lparr>pl_artwork_path := pf_artwork_path planned, pl_artwork := pf_artwork planned\<rparr>;
          is_moving_album = (id_album i \<noteq> rt_album target);
          sha = art_sha256 (ins_artwork ins)
      in and_then (if is_moving_album \<and> rt_is_sole_track target \<and> rt_artwork_path target \<noteq> []
                   then and_then (relative_path st (rt_artwork_path target)) (\<lambda>previous. Inr (p\<lparr>pl_previous_artwork := previous\<rparr>))
                   else Inr p) (\<lambda>p.
         if id_artwork_path i = [] \<and> sha = []
         then Inr (p\<lparr>pl_artwork_mode := Mode_None, pl_artwork_path := [], pl_artwork := []\<rparr>)
         else if id_artwork_path i = [] then Inr (p\<lparr>pl_artwork_mode := Mode_Create\<rparr>)
         else and_then (relative_path st (id_artwork_path i)) (\<lambda>existing.
           if id_artwork_sha256 i = sha
           then Inr (p\<lparr>pl_artwork_mode := Mode_Existing, pl_artwork_path := id_artwork_path i, pl_artwork := existing\<rparr>)
           else if is_moving_album \<or> \<not> rt_is_sole_track target
             then Inl (album_artwork_conflict ''embedded Album Artwork differs from the existing Album'')
           else Inr (p\<lparr>pl_artwork_mode := Mode_Replace,
                  pl_pending_artwork := album @ ''/.replacement-cover'' @ artwork_extension (mime_type (ins_artwork ins)),
                  pl_retired_artwork := album @ ''/.retired-cover'' @ path_extension existing,
                  pl_previous_artwork := existing\<rparr>))))"

definition plan_replacement_placement :: "storage \<Rightarrow> string \<Rightarrow> media_inspection \<Rightarrow> commit_identity \<Rightarrow> replacement_target
    \<Rightarrow> import_error + placement" where
  "plan_replacement_placement st staged_path ins i target =
     and_then (if id_artwork_path i = [] then Inr (album_directory st ins i) else and_then (existing_canonical_album st i) (\<lambda>(_, album). Inr album)) (\<lambda>album.
     and_then (source_extension (format (ins_audio ins)) (st_debug st)) (\<lambda>extension.
     and_then (relative_path st staged_path) (\<lambda>staged.
     and_then (plan_placement_in_album st staged_path ins (id_track i) album
         (album @ ''/cover'' @ artwork_extension (mime_type (ins_artwork ins)))) (\<lambda>planned.
       plan_replacement_artwork st
         \<lparr>pl_audio_path = pf_audio_path planned, pl_artwork_path = [], pl_artwork_mode = Mode_None, pl_staged = staged,
          pl_pending_audio = album @ ''/.replacement-'' @ id_track i @ extension, pl_audio = pf_audio planned,
          pl_previous_audio = rt_relative_path target,
          pl_retired_audio = join_dir (parent_path (rt_relative_path target)) (''.retired-'' @ id_track i @ path_extension (rt_relative_path target)),
          pl_pending_artwork = [], pl_artwork = [], pl_previous_artwork = [], pl_retired_artwork = [], pl_artwork_created = False\<rparr>
         planned ins i target album))))"

definition replacement_placement_from_journal :: "storage \<Rightarrow> replacement_journal \<Rightarrow> import_error + placement" where
  "replacement_placement_from_journal st j =
     and_then (optional_relative_path st (rj_staged_path j)) (\<lambda>staged.
     and_then (optional_relative_path st (rj_pending_audio j)) (\<lambda>pending.
     and_then (optional_relative_path st (rj_audio_path j)) (\<lambda>audio.
     and_then (optional_relative_path st (rj_previous_audio j)) (\<lambda>previous.
     and_then (optional_relative_path st (rj_retired_audio j)) (\<lambda>retired.
     and_then (optional_relative_path st (rj_artwork_path j)) (\<lambda>artwork.
     and_then (optional_relative_path st (rj_pending_artwork j)) (\<lambda>pending_artwork.
     and_then (optional_relative_path st (rj_previous_artwork j)) (\<lambda>previous_artwork.
     and_then (optional_relative_path st (rj_retired_artwork j)) (\<lambda>retired_artwork.
       Inr \<lparr>pl_audio_path = rj_audio_path j, pl_artwork_path = rj_artwork_path j, pl_artwork_mode = rj_artwork_mode j,
            pl_staged = staged, pl_pending_audio = pending, pl_audio = audio, pl_previous_audio = previous,
            pl_retired_audio = retired, pl_pending_artwork = pending_artwork, pl_artwork = artwork,
            pl_previous_artwork = previous_artwork, pl_retired_artwork = retired_artwork,
            pl_artwork_created = rj_artwork_created j\<rparr>)))))))))"

definition place_replacement :: "storage \<Rightarrow> placement \<Rightarrow> media_inspection \<Rightarrow> commit_identity \<Rightarrow> ('d, import_error, unit) steps option
    \<Rightarrow> ('d, import_error, placement) steps" where
  "place_replacement st p ins i created =
     s_then (open_root st)
     (s_then (ensure_directory st (parent_path (pl_audio p)))
     (s_then (s_map_err (io_err ''place replacement Managed Track on pending path'') (rename_file (pl_staged p) (pl_pending_audio p)))
     (let art = ins_artwork ins; bytes = byte_text (art_data art) in
      s_bind (s_try (case pl_artwork_mode p of
          Mode_None \<Rightarrow> s_return False
        | Mode_Existing \<Rightarrow> s_then (s_map_err (err_context ''verify existing Album Artwork'')
              (verify_rooted_file_hash st (pl_artwork p) (id_artwork_sha256 i) never)) (s_return False)
        | Mode_Replace \<Rightarrow> write_rooted_artwork st (pl_pending_artwork p) bytes (art_sha256 art) created
        | Mode_Create \<Rightarrow> write_rooted_artwork st (pl_artwork p) bytes (art_sha256 art) created)) (\<lambda>made.
        case made of
          Inr b \<Rightarrow> s_return (p\<lparr>pl_artwork_created := b\<rparr>)
        | Inl e \<Rightarrow> s_bind (s_err (restore_rooted_file st (pl_pending_audio p) (pl_staged p))) (\<lambda>restored.
            s_fail (join_with_rest e [restored]))))))"

definition verify_replacement :: "storage \<Rightarrow> placement \<Rightarrow> string \<Rightarrow> string \<Rightarrow> ('d, import_error, unit) steps" where
  "verify_replacement st p audio_sha256 artwork_sha256 =
     s_then (open_root st)
     (s_then (s_map_err (err_context ''verify pending replacement Managed Track'')
         (verify_rooted_file_hash st (pl_pending_audio p) audio_sha256 never))
     (let artwork = (if pl_artwork_mode p = Mode_Replace then pl_pending_artwork p else pl_artwork p) in
      if artwork = [] then s_return ()
      else s_map_err (err_context ''verify replacement Album Artwork'') (verify_rooted_file_hash st artwork artwork_sha256 never)))"

definition undo_audio_swap :: "storage \<Rightarrow> placement \<Rightarrow> ('d, import_error, unit) steps" where
  "undo_audio_swap st p =
     s_bind (s_err (restore_rooted_file st (pl_audio p) (pl_pending_audio p))) (\<lambda>a.
     s_bind (s_err (restore_rooted_file st (pl_retired_audio p) (pl_previous_audio p))) (\<lambda>b.
       s_result (result_of (err_join [a, b]))))"

text \<open>A rename that on failure runs what undoes the ones before it.\<close>

definition rename_or :: "string \<Rightarrow> string \<Rightarrow> string \<Rightarrow> ('d, import_error, import_error option list) steps
    \<Rightarrow> ('d, import_error, unit) steps" where
  "rename_or operation p q undo =
     s_bind (s_try (rename_file p q)) (\<lambda>r.
       case r of
         Inr _ \<Rightarrow> s_return ()
       | Inl e \<Rightarrow> s_bind undo (\<lambda>extra. s_result (result_of (err_join (Some (io_err operation e) # extra)))))"

definition swap_replacement :: "storage \<Rightarrow> placement \<Rightarrow> ('d, import_error, unit) steps" where
  "swap_replacement st p =
     s_then (open_root st)
     (s_then (s_map_err (io_err ''retire previous Managed Track'') (rename_file (pl_previous_audio p) (pl_retired_audio p)))
     (s_then (rename_or ''place replacement Managed Track at Canonical Library Path'' (pl_pending_audio p) (pl_audio p)
         (s_bind (s_err (restore_rooted_file st (pl_retired_audio p) (pl_previous_audio p))) (\<lambda>r. s_return [r])))
     (if pl_artwork_mode p \<noteq> Mode_Replace then s_return ()
      else s_then (rename_or ''retire previous Album Artwork'' (pl_previous_artwork p) (pl_retired_artwork p)
          (s_bind (s_err (undo_audio_swap st p)) (\<lambda>r. s_return [r])))
        (rename_or ''place replacement Album Artwork'' (pl_pending_artwork p) (pl_artwork p)
          (s_bind (s_err (restore_rooted_file st (pl_retired_artwork p) (pl_previous_artwork p))) (\<lambda>restored.
           s_bind (s_err (undo_audio_swap st p)) (\<lambda>r. s_return [restored, r])))))))"

definition stream_swapped_replacement :: "storage \<Rightarrow> placement \<Rightarrow> string \<Rightarrow> ('d, import_error, unit) steps" where
  "stream_swapped_replacement st p audio_sha256 =
     s_then (open_root st)
     (s_then (s_map_err (err_context ''verify canonical replacement Managed Track'')
         (verify_rooted_file_hash st (pl_audio p) audio_sha256 never))
     (s_then (s_map_err (io_err ''open canonical replacement stream'') (file_metadata (pl_audio p)))
     (s_bind (s_map_err (io_err ''stream canonical replacement Managed Track'') (read_file (pl_audio p))) (\<lambda>_. s_return ()))))"

definition rollback_replacement :: "storage \<Rightarrow> placement \<Rightarrow> ('d, import_error, unit) steps" where
  "rollback_replacement st p =
     s_then (open_root st)
     (s_bind (if pl_artwork_mode p = Mode_Replace
              then s_err (undo_retired_swap st (pl_retired_artwork p) (pl_previous_artwork p) (pl_artwork p) (pl_pending_artwork p))
              else s_return None) (\<lambda>artwork_swap.
      s_bind (s_err (undo_retired_swap st (pl_retired_audio p) (pl_previous_audio p) (pl_audio p) (pl_pending_audio p))) (\<lambda>audio_swap.
      s_bind (s_err (restore_if_present st (pl_pending_audio p) (pl_staged p))) (\<lambda>pending.
      s_bind (if pl_artwork_created p
              then s_err (remove_rooted_file st (if pl_artwork_mode p = Mode_Replace then pl_pending_artwork p else pl_artwork p)
                     ''uncommitted replacement Album Artwork'')
              else s_return None) (\<lambda>artwork.
      s_bind (drop_empty_directories st (pl_audio p)) (\<lambda>directories.
        s_result (result_of (err_join [artwork_swap, audio_swap, pending, artwork, directories]))))))))"

text \<open>The number of files deleted is known also when something failed.\<close>

definition complete_replacement_files :: "storage \<Rightarrow> (nat \<Rightarrow> bool) \<Rightarrow> replacement_journal \<Rightarrow> placement
    \<Rightarrow> ('d, import_error, int \<times> (import_error + unit)) steps" where
  "complete_replacement_files st c j p =
     s_bind (s_try (remove_managed_file st c (rj_retired_audio j) (rj_previous_sha256 j))) (\<lambda>audio.
       let removed = (case audio of Inr b \<Rightarrow> b | Inl _ \<Rightarrow> False);
           failure = error_part audio;
           artwork_path = (if rj_retired_artwork j = [] then rj_previous_artwork j else rj_retired_artwork j);
           directories = (\<lambda>deleted.
             s_bind (s_err (open_root st)) (\<lambda>opened.
               case opened of
                 Some e \<Rightarrow> s_return (deleted, result_of (err_join [failure, Some e]))
               | None \<Rightarrow> s_bind (drop_empty_directories st (pl_previous_audio p)) (\<lambda>d.
                   s_return (deleted, result_of (err_join [failure, d])))))
       in if \<not> removed then s_return (0, result_of failure)
          else if artwork_path = [] then directories 1
          else s_bind (s_try (remove_managed_file st c artwork_path (rj_previous_artwork_sha256 j))) (\<lambda>art.
            case art of
              Inr True \<Rightarrow> directories 2
            | Inr False \<Rightarrow> s_return (1, result_of failure)
            | Inl e \<Rightarrow> s_return (1, result_of (err_join [failure, Some e]))))"

text \<open>
  Which paths each operation of \<open>storage.rs\<close> can change, whatever fails and wherever the run is
  cut short: the files it is given, the directories it makes and the empty ones it removes.
\<close>

text \<open>The directories \<open>ensure_directory\<close> may make, and those \<open>remove_empty_directories_under\<close> may remove.\<close>

fun made_dirs :: "string \<Rightarrow> string list \<Rightarrow> string list" where
  "made_dirs current [] = []"
| "made_dirs current (c # cs) = join_paths [current, c] # made_dirs (join_paths [current, c]) cs"

definition ensured :: "string \<Rightarrow> string list" where
  "ensured path = made_dirs [] (path_components path)"

function ancestors :: "string \<Rightarrow> string list" where
  "ancestors d = (if d = ''.'' \<or> d = [] then [] else d # ancestors (parent_path d))"
  by pat_completeness auto

termination
  by (relation "measure (\<lambda>d. if d = ''.'' then 0 else Suc (length d))") (auto dest: parent_shorter)

declare ancestors.simps [simp del]

lemmas confined_steps = confined_rules confined_bind confined_then confined_err

lemma confined_bind_result:
  "reflp D \<Longrightarrow> (\<And>x. r = Inr x \<Longrightarrow> confined S D (k x)) \<Longrightarrow> confined S D (s_bind (s_result r) k)"
  by (cases r) (simp_all add: confined_def s_bind_def s_result_def s_fail_def s_return_def reflpD)

lemma confined_open_root: "reflp D \<Longrightarrow> confined S D (open_root st)"
  unfolding open_root_def by (auto split: option.split intro!: confined_fail confined_map_err confined_file)

lemma confined_poll: "reflp D \<Longrightarrow> confined S D (s_poll c)"
  by (simp add: confined_def s_poll_def reflpD)

lemma confined_reject_links: "reflp D \<Longrightarrow> transp D \<Longrightarrow> confined S D (reject_links st current cs)"
  by (induction st current cs rule: reject_links.induct)
    (auto simp: Let_def intro!: confined_bind confined_map_err confined_symlink_metadata confined_return confined_fail)

lemma confined_reject_symlinks: "reflp D \<Longrightarrow> transp D \<Longrightarrow> confined S D (reject_symlinks st path)"
  unfolding reject_symlinks_def by (rule confined_reject_links)

lemma confined_verify_hash: "reflp D \<Longrightarrow> transp D \<Longrightarrow> confined S D (verify_rooted_file_hash st path h c)"
  unfolding verify_rooted_file_hash_def
  by (auto intro!: confined_bind confined_then confined_reject_symlinks confined_map_err confined_read_file confined_poll
      confined_fail confined_return)

lemma confined_ensure_parts:
  "reflp D \<Longrightarrow> transp D \<Longrightarrow> set (made_dirs current cs) \<subseteq> S \<Longrightarrow> confined S D (ensure_parts st current cs)"
proof (induction st current cs rule: ensure_parts.induct)
  case (2 st current c cs)
  have "confined S D (ensure_parts st (join_paths [current, c]) cs)"
    using "2.prems" by (intro "2.IH") auto
  then show ?case
    using "2.prems"
    by (auto simp: Let_def split: sum.split node.split
        intro!: confined_bind confined_then confined_try confined_symlink_metadata confined_map_err confined_create_dir
          confined_fail confined_return)
qed (simp add: confined_return)

lemma confined_ensure_directory:
  "reflp D \<Longrightarrow> transp D \<Longrightarrow> set (ensured path) \<subseteq> S \<Longrightarrow> confined S D (ensure_directory st path)"
  unfolding ensure_directory_def ensured_def
  by (auto intro!: confined_then confined_ensure_parts confined_map_err confined_set_permissions)

lemma confined_remove_empty:
  "reflp D \<Longrightarrow> transp D \<Longrightarrow> set (ancestors d) \<subseteq> S \<Longrightarrow> confined S D (remove_empty_directories_under st d b)"
proof (induction d rule: ancestors.induct)
  case (1 d)
  show ?case
  proof (cases "d = ''.'' \<or> d = [] \<or> d = b")
    case True
    with 1 show ?thesis by (subst remove_empty_directories_under.simps) (simp add: confined_return)
  next
    case False
    then have a: "ancestors d = d # ancestors (parent_path d)" by (subst ancestors.simps) simp
    then have d: "d \<in> S" and up: "set (ancestors (parent_path d)) \<subseteq> S" using "1.prems" by auto
    have IH: "confined S D (remove_empty_directories_under st (parent_path d) b)"
      using "1.IH" False "1.prems" up by simp
    show ?thesis using False "1.prems" d IH
      by (subst remove_empty_directories_under.simps)
        (auto split: sum.split bool.split
          intro!: confined_bind confined_try confined_read_dir confined_remove_dir confined_fail confined_return)
  qed
qed

lemma confined_drop_empty:
  "reflp D \<Longrightarrow> transp D \<Longrightarrow> set (ancestors (parent_path path)) \<subseteq> S \<Longrightarrow> confined S D (drop_empty_directories st path)"
  unfolding drop_empty_directories_def by (intro confined_err confined_remove_empty)

lemma confined_remove_rooted: "reflp D \<Longrightarrow> transp D \<Longrightarrow> path \<in> S \<Longrightarrow> confined S D (remove_rooted_file st path what)"
  unfolding remove_rooted_file_def
  by (auto split: sum.split intro!: confined_bind confined_try confined_remove_file confined_return confined_fail)

lemma confined_restore_rooted: "reflp D \<Longrightarrow> p \<in> S \<Longrightarrow> q \<in> S \<Longrightarrow> confined S D (restore_rooted_file st p q)"
  unfolding restore_rooted_file_def by (intro confined_map_err confined_rename_file)

lemma confined_restore_if_present:
  "reflp D \<Longrightarrow> transp D \<Longrightarrow> p \<in> S \<Longrightarrow> q \<in> S \<Longrightarrow> confined S D (restore_if_present st p q)"
  unfolding restore_if_present_def
  by (auto split: sum.split
      intro!: confined_bind confined_try confined_symlink_metadata confined_return confined_fail confined_restore_rooted)

lemma confined_undo_retired:
  "reflp D \<Longrightarrow> transp D \<Longrightarrow> {retired, previous, canonical, pending} \<subseteq> S
    \<Longrightarrow> confined S D (undo_retired_swap st retired previous canonical pending)"
  unfolding undo_retired_swap_def
  by (auto split: sum.split
      intro!: confined_bind confined_try confined_symlink_metadata confined_return confined_fail confined_err confined_result
        confined_restore_if_present)

lemma confined_matching_artwork: "reflp D \<Longrightarrow> transp D \<Longrightarrow> confined S D (verify_matching_artwork st path h)"
  unfolding verify_matching_artwork_def by (intro confined_map_err confined_verify_hash)

lemma confined_write_artwork:
  assumes D: "reflp D" "transp D" and path: "path \<in> S" and mark: "\<And>m. created = Some m \<Longrightarrow> confined S D m"
  shows "confined S D (write_rooted_artwork st path bytes h created)"
proof -
  have m: "confined S D (case created of Some mark \<Rightarrow> mark | None \<Rightarrow> s_return ())"
    using mark D by (cases created) (auto intro: confined_return)
  have r: "confined S D (s_bind (s_err (remove_rooted_file st path what)) (\<lambda>r. s_fail (join_with_rest e [r])))" for what e
    using D path by (auto intro!: confined_bind confined_err confined_remove_rooted confined_fail)
  show ?thesis unfolding write_rooted_artwork_def Let_def using D path m r
    by (auto split: sum.split option.split
        intro!: confined_bind confined_then confined_try confined_err confined_create_new confined_matching_artwork confined_return
          confined_fail confined_map_err confined_write_all confined_verify_hash confined_remove_rooted)
qed

lemma confined_remove_managed:
  assumes D: "reflp D" "transp D" and path: "\<And>r. relative_path st path = Inr r \<Longrightarrow> r \<in> S"
  shows "confined S D (remove_managed_file st c path h)"
  unfolding remove_managed_file_def using D
  by (auto split: sum.split node.split option.split
      intro!: confined_bind_result confined_bind confined_then confined_poll confined_fail confined_open_root confined_map_err
        confined_reject_symlinks confined_try confined_symlink_metadata confined_err confined_verify_hash confined_remove_file
        path confined_return)

end
