(* ===== verification/Track_Replacement.thy ===== *)
theory Track_Replacement
  imports Import_Rows Import_Placement
begin

text \<open>
  Track Replacement (\<open>replacement.rs\<close>): a reviewed file takes the place of a Managed Track. The
  journal of the replacement says how far it is; after a crash, recovery takes it back or
  finishes it. The hooks that tests set to stop after a phase are not there in production.
\<close>

record replacement_target_row =
  tw_track :: string
  tw_album :: string
  tw_file_path :: string
  tw_sha256 :: string
  tw_artwork_path :: string
  tw_artwork_sha256 :: string
  tw_size :: int
  tw_track_revision :: int
  tw_source_revision :: int
  tw_is_sole_track :: bool

record target =
  tg_row :: replacement_target_row
  tg_relative_path :: string
  tg_queues :: "(string \<times> nat) list"

record replacement_state =
  xs_target :: target
  xs_identity :: commit_identity
  xs_placement :: placement
  xs_inspection :: media_inspection
  xs_album_key :: utext

record replacement_result =
  rr_job :: string
  rr_revision :: int
  rr_track :: string
  rr_deleted_files :: int

definition storage_target :: "target \<Rightarrow> replacement_target" where
  "storage_target x = \<lparr>rt_track = tw_track (tg_row x), rt_album = tw_album (tg_row x), rt_relative_path = tg_relative_path x,
     rt_artwork_path = tw_artwork_path (tg_row x), rt_is_sole_track = tw_is_sole_track (tg_row x)\<rparr>"

subsection \<open>The journal\<close>

definition before_commit :: "replacement_phase \<Rightarrow> bool" where
  "before_commit x \<longleftrightarrow> x \<noteq> R_Database_Committed \<and> x \<noteq> R_Completed \<and> x \<noteq> R_Rolled_Back"

fun phase_text :: "replacement_phase \<Rightarrow> string" where
  "phase_text R_Prepared = ''prepared''"
| "phase_text R_Placed = ''placed''"
| "phase_text R_Verified = ''verified''"
| "phase_text R_Swapped = ''swapped''"
| "phase_text R_Database_Committed = ''database_committed''"
| "phase_text R_Completed = ''completed''"
| "phase_text R_Rolled_Back = ''rolled_back''"

definition create_replacement_journal :: "replacement_journal \<Rightarrow> (db, import_error, unit) steps" where
  "create_replacement_journal j =
     statement (sql ''create Track Replacement journal'' (\<lambda>d. d\<lparr>db_replacements := db_replacements d @ [j]\<rparr>))"

text \<open>A guarded update of one journal.\<close>

definition update_journal :: "string \<Rightarrow> string \<Rightarrow> (replacement_journal \<Rightarrow> bool) \<Rightarrow> (replacement_journal \<Rightarrow> replacement_journal)
    \<Rightarrow> db \<Rightarrow> import_error + db" where
  "update_journal operation i P f =
     sql_one operation (\<lambda>j. rj_id j = i \<and> P j) db_replacements
       (\<lambda>d. d\<lparr>db_replacements := update_where (\<lambda>j. rj_id j = i \<and> P j) f (db_replacements d)\<rparr>)"

definition update_replacement_phase :: "string \<Rightarrow> replacement_phase \<Rightarrow> replacement_phase \<Rightarrow> (db, import_error, unit) steps" where
  "update_replacement_phase i from_phase to_phase =
     statement (update_journal (''journal Track Replacement phase '' @ phase_text to_phase) i (\<lambda>j. rj_phase j = from_phase)
       (\<lambda>j. j\<lparr>rj_phase := to_phase\<rparr>))"

definition mark_replacement_artwork_created :: "string \<Rightarrow> (db, import_error, unit) steps" where
  "mark_replacement_artwork_created i =
     statement (update_journal ''journal Track Replacement artwork creation'' i (\<lambda>j. rj_phase j = R_Prepared)
       (\<lambda>j. j\<lparr>rj_artwork_created := True\<rparr>))"

definition rollback_replacement_journal :: "string \<Rightarrow> string \<Rightarrow> (db, import_error, unit) steps" where
  "rollback_replacement_journal i reason =
     statement (update_journal ''roll back Track Replacement journal'' i (\<lambda>j. before_commit (rj_phase j))
       (\<lambda>j. j\<lparr>rj_phase := R_Rolled_Back, rj_reason := reason\<rparr>))"

definition record_replacement_recovery_reason :: "string \<Rightarrow> string \<Rightarrow> (db, import_error, unit) steps" where
  "record_replacement_recovery_reason i reason =
     statement (update_journal ''record Track Replacement recovery reason'' i active_replacement (\<lambda>j. j\<lparr>rj_reason := reason\<rparr>))"

definition incomplete_replacement_journals :: "(db, import_error, replacement_journal list) steps" where
  "incomplete_replacement_journals = query (\<lambda>d. Inr (filter active_replacement (db_replacements d)))"

definition find_incomplete_replacement_journal :: "string \<Rightarrow> (db, import_error, replacement_journal option) steps" where
  "find_incomplete_replacement_journal job_id =
     query (\<lambda>d. Inr (case filter (\<lambda>j. rj_job j = job_id \<and> active_replacement j) (db_replacements d) of
       [] \<Rightarrow> None | j # _ \<Rightarrow> Some j))"

definition get_replacement_journal :: "string \<Rightarrow> (db, import_error, replacement_journal) steps" where
  "get_replacement_journal i =
     query (\<lambda>d. case filter (\<lambda>j. rj_id j = i) (db_replacements d) of [] \<Rightarrow> Inl (err_sentinel Job_Not_Found) | j # _ \<Rightarrow> Inr j)"

definition get_job :: "string \<Rightarrow> (db, import_error, job) steps" where
  "get_job i =
     query (\<lambda>d. case filter (\<lambda>j. jb_id j = i) (db_jobs d) of [] \<Rightarrow> Inl (err_sentinel Job_Not_Found) | j # _ \<Rightarrow> Inr j)"

subsection \<open>Writing the rows\<close>

definition update_replaced_track :: "service_env \<Rightarrow> tree \<Rightarrow> commit_data \<Rightarrow> target \<Rightarrow> db \<Rightarrow> import_error + db" where
  "update_replaced_track env t cd tg d =
     (let row = tg_row tg; path = pf_audio_path (cd_placement cd); a = ins_audio (cd_inspection cd);
          is_track = (\<lambda>x. tr_id x = tw_track row \<and> tr_revision x = tw_track_revision row \<and> \<not> tr_missing x);
          is_source = (\<lambda>s. so_track s = tw_track row \<and> so_revision s = tw_source_revision row \<and> so_managed s)
      in and_then (context_of ''stat replacement Managed Track'' (file_facts env t path)) (\<lambda>(len, mtime).
         and_then (sql ''update replaced Managed Track'' (\<lambda>d. d\<lparr>db_tracks := update_where is_track
             (\<lambda>x. (track_row env cd len mtime x)\<lparr>tr_revision := tr_revision x + 1\<rparr>) (db_tracks d)\<rparr>) d) (\<lambda>d'.
         if length (filter is_track (db_tracks d)) \<noteq> 1
         then Inl (err_wrap Replacement_Conflict ''Track changed during replacement'')
         else and_then (sql ''update replaced Managed Track source'' (\<lambda>d. d\<lparr>db_sources := update_where is_source
               (\<lambda>s. s\<lparr>so_path := path, so_sha256 := ins_sha256 (cd_inspection cd), so_format := format a, so_size := len,
                       so_revision := so_revision s + 1\<rparr>) (db_sources d)\<rparr>) d') (\<lambda>d''.
           if length (filter is_source (db_sources d')) \<noteq> 1
           then Inl (err_wrap Replacement_Conflict ''Track source changed during replacement'')
           else Inr d''))))"

definition write_replacement_artwork :: "commit_data \<Rightarrow> target \<Rightarrow> artwork_mode \<Rightarrow> db \<Rightarrow> import_error + db" where
  "write_replacement_artwork cd tg mode d =
     (let art = ins_artwork (cd_inspection cd); i = cd_identity cd in
      case mode of
        Mode_Create \<Rightarrow> insert_artwork_for (cd\<lparr>cd_identity := i\<lparr>id_artwork_path := []\<rparr>\<rparr>) d
      | Mode_Replace \<Rightarrow>
          sql_one ''replace Album Artwork'' (\<lambda>a. aw_album a = id_album i) db_artwork
            (\<lambda>d. d\<lparr>db_artwork := update_where (\<lambda>a. aw_album a = id_album i)
              (\<lambda>a. a\<lparr>aw_source := tw_track (tg_row tg), aw_sha256 := art_sha256 art, aw_media_type := mime_type art,
                aw_width := art_width art, aw_height := art_height art, aw_size := int (length (art_data art)),
                aw_path := pf_artwork_path (cd_placement cd), aw_revision := aw_revision a + 1\<rparr>) (db_artwork d)\<rparr>) d
      | _ \<Rightarrow> Inr d)"

definition write_replacement_data :: "service_env \<Rightarrow> tree \<Rightarrow> commit_data \<Rightarrow> target \<Rightarrow> artwork_mode \<Rightarrow> db
    \<Rightarrow> import_error + queue_invalidation list \<times> db" where
  "write_replacement_data env t cd tg mode d =
     (let m = ins_metadata (cd_inspection cd); i = cd_identity cd; row = tg_row tg;
          moves_album = (id_album i \<noteq> tw_album row)
      in and_then (upsert_artists env (album_artists m) (artists m) (id_album_artist i) d) (\<lambda>(ids, d).
         and_then (upsert_album_for env cd ids d) (\<lambda>d.
         let previous = track_and_album_artist_ids (tw_track row) (tw_album row) d in
         and_then (if moves_album then move_or_delete_artwork_reference (tw_track row) (tw_album row) d else Inr d) (\<lambda>d.
         and_then (update_replaced_track env t cd tg d) (\<lambda>d.
         and_then (sql ''clear replaced Track relationships''
             (\<lambda>d. d\<lparr>db_track_artists := delete_where (\<lambda>c. cr_owner c = tw_track row) (db_track_artists d)\<rparr>) d) (\<lambda>d.
         and_then (sql ''clear replaced Track relationships''
             (\<lambda>d. d\<lparr>db_track_genres := delete_where (\<lambda>g. tg_track g = tw_track row) (db_track_genres d)\<rparr>) d) (\<lambda>d.
         and_then (insert_relationships env cd ids d) (\<lambda>d.
         and_then (write_replacement_artwork cd tg mode d) (\<lambda>d.
         and_then (if moves_album
                   then context_of ''delete emptied Album after Track Replacement'' (delete_album_if_empty (tw_album row) d)
                   else Inr d) (\<lambda>d.
         and_then (context_of ''delete unreferenced Artist after Track Replacement'' (delete_unreferenced_artists previous d)) (\<lambda>d.
           context_of ''advance Queue revision after Track Replacement'' (advance_queues (tg_queues tg) d))))))))))))"

definition commit_replacement_data :: "service_env \<Rightarrow> commit_data \<Rightarrow> target \<Rightarrow> placement \<Rightarrow> string
    \<Rightarrow> (db, import_error, queue_invalidation list) steps" where
  "commit_replacement_data env cd tg p journal_id =
     tx (\<lambda>d t. and_then (write_replacement_data env t cd tg (pl_artwork_mode p) d) (\<lambda>(invalidations, d).
       and_then (update_journal ''journal Track Replacement database commit'' journal_id (\<lambda>j. rj_phase j = R_Swapped)
           (\<lambda>j. j\<lparr>rj_phase := R_Database_Committed\<rparr>) d) (\<lambda>d. Inr (invalidations, d))))"

definition finalize_replacement :: "service_env \<Rightarrow> job \<Rightarrow> string \<Rightarrow> (db, import_error, replacement_result) steps" where
  "finalize_replacement env jb journal_id =
     (let is_job = (\<lambda>j. jb_id j = jb_id jb \<and> jb_status j = Awaiting_Confirmation \<and> jb_revision j = jb_revision jb) in
      tx (\<lambda>d t.
        and_then (sql_one ''mark Track Replacement committed'' is_job db_jobs
          (\<lambda>d. d\<lparr>db_jobs := update_where is_job (\<lambda>j. j\<lparr>jb_status := Committed, jb_revision := jb_revision j + 1,
            jb_track := jb_replace_track j, jb_outcome := ''replaced'', jb_staged_path := [], jb_updated := db_now d\<rparr>) (db_jobs d)\<rparr>) d) (\<lambda>d.
        and_then (update_journal ''complete Track Replacement journal'' journal_id (\<lambda>j. rj_phase j = R_Database_Committed)
          (\<lambda>j. j\<lparr>rj_phase := R_Completed, rj_reason := (if rj_reason j = [] then ''replacement completed'' else rj_reason j)\<rparr>) d) (\<lambda>d.
        and_then (archive_standalone (se_time env) (se_newer env) (jb_id jb) ''completed'' d) (\<lambda>d.
          Inr (\<lparr>rr_job = jb_id jb, rr_revision = jb_revision jb + 1, rr_track = jb_replace_track jb, rr_deleted_files = 0\<rparr>, d))))))"

subsection \<open>Committing and recovering\<close>

text \<open>An error, with what undoing it added.\<close>

definition fail_after :: "import_error \<Rightarrow> ('d, import_error, unit) steps \<Rightarrow> ('d, import_error, 'a) steps" where
  "fail_after e undo = s_bind (s_err undo) (\<lambda>r. s_fail (join_with_rest e [r]))"

text \<open>\<open>if let Err(error) = step { ... }\<close>\<close>

definition or_else :: "('d, import_error, 'a) steps \<Rightarrow> (import_error \<Rightarrow> ('d, import_error, 'a) steps) \<Rightarrow> ('d, import_error, 'a) steps" where
  "or_else m h = s_bind (s_try m) (\<lambda>r. case r of Inl e \<Rightarrow> h e | Inr x \<Rightarrow> s_return x)"

definition rollback_replacement_files :: "service_env \<Rightarrow> string \<Rightarrow> placement \<Rightarrow> string \<Rightarrow> (db, import_error, unit) steps" where
  "rollback_replacement_files env journal_id p reason =
     s_then (or_else (rollback_replacement (se_storage env) p) (\<lambda>e.
         fail_after e (record_replacement_recovery_reason journal_id (reason @ ''; filesystem rollback failed''))))
       (rollback_replacement_journal journal_id reason)"

definition advance_replacement_phase :: "service_env \<Rightarrow> string \<Rightarrow> placement \<Rightarrow> replacement_phase \<Rightarrow> replacement_phase
    \<Rightarrow> (db, import_error, unit) steps" where
  "advance_replacement_phase env journal_id p from_phase to_phase =
     or_else (update_replacement_phase journal_id from_phase to_phase) (\<lambda>e.
       fail_after e (rollback_replacement_files env journal_id p ''journal update failed''))"

definition replacement_journal_of :: "service_env \<Rightarrow> string \<Rightarrow> job \<Rightarrow> replacement_state \<Rightarrow> replacement_journal" where
  "replacement_journal_of env i jb x =
     (let p = xs_placement x; st = se_storage env; row = tg_row (xs_target x);
          previous_artwork = optional_absolute_path st (pl_previous_artwork p)
      in \<lparr>rj_id = i, rj_job = jb_id jb, rj_track = tw_track row, rj_phase = R_Prepared, rj_staged_path = jb_staged_path jb,
          rj_pending_audio = absolute_path st (pl_pending_audio p), rj_audio_path = pl_audio_path p,
          rj_previous_audio = absolute_path st (pl_previous_audio p), rj_retired_audio = absolute_path st (pl_retired_audio p),
          rj_audio_sha256 = ins_sha256 (xs_inspection x), rj_previous_sha256 = tw_sha256 row,
          rj_artwork_mode = pl_artwork_mode p, rj_pending_artwork = optional_absolute_path st (pl_pending_artwork p),
          rj_artwork_path = pl_artwork_path p, rj_previous_artwork = previous_artwork,
          rj_retired_artwork = optional_absolute_path st (pl_retired_artwork p),
          rj_artwork_sha256 = art_sha256 (ins_artwork (xs_inspection x)),
          rj_previous_artwork_sha256 = (if previous_artwork \<noteq> [] then tw_artwork_sha256 row else []),
          rj_artwork_created = False, rj_previous_album = tw_album row, rj_reason = []\<rparr>)"

definition place_and_verify_replacement :: "service_env \<Rightarrow> replacement_journal \<Rightarrow> replacement_state
    \<Rightarrow> (db, import_error, placement) steps" where
  "place_and_verify_replacement env j x =
     (let st = se_storage env in
      s_bind (or_else (place_replacement st (xs_placement x) (xs_inspection x) (xs_identity x)
                 (Some (mark_replacement_artwork_created (rj_id j))))
               (\<lambda>e. fail_after e (rollback_replacement_journal (rj_id j) ''pending placement failed''))) (\<lambda>p.
      s_then (advance_replacement_phase env (rj_id j) p R_Prepared R_Placed)
      (s_then (or_else (verify_replacement st p (rj_audio_sha256 j) (rj_artwork_sha256 j))
                (\<lambda>e. fail_after e (rollback_replacement_files env (rj_id j) p ''pending verification failed'')))
      (s_then (advance_replacement_phase env (rj_id j) p R_Placed R_Verified) (s_return p)))))"

definition swap_and_stream_replacement :: "service_env \<Rightarrow> replacement_journal \<Rightarrow> placement \<Rightarrow> replacement_state
    \<Rightarrow> (db, import_error, unit) steps" where
  "swap_and_stream_replacement env j p x =
     (let st = se_storage env in
      s_then (or_else (swap_replacement st p) (\<lambda>e. fail_after e (rollback_replacement_files env (rj_id j) p ''canonical swap failed'')))
      (s_then (advance_replacement_phase env (rj_id j) p R_Verified R_Swapped)
        (or_else (stream_swapped_replacement st p (ins_sha256 (xs_inspection x)))
          (\<lambda>e. fail_after e (rollback_replacement_files env (rj_id j) p ''canonical stream verification failed'')))))"

definition complete_replacement :: "service_env \<Rightarrow> job \<Rightarrow> replacement_journal \<Rightarrow> placement \<Rightarrow> (db, import_error, replacement_result) steps" where
  "complete_replacement env jb j p =
     s_bind (complete_replacement_files (se_storage env) never j p) (\<lambda>(deleted, removed).
       case removed of
         Inl e \<Rightarrow> fail_after e (record_replacement_recovery_reason (rj_id j)
                    (''previous file cleanup failed: '' @ err_message e))
       | Inr _ \<Rightarrow> s_bind (finalize_replacement env jb (rj_id j)) (\<lambda>r. s_return (r\<lparr>rr_deleted_files := deleted\<rparr>)))"

text \<open>The id of the journal is fresh; the data names the placement that was found while placing.\<close>

definition commit_data_of :: "replacement_state \<Rightarrow> placement \<Rightarrow> commit_data" where
  "commit_data_of x p =
     \<lparr>cd_identity = xs_identity x,
      cd_placement = \<lparr>pf_audio_path = pl_audio_path p, pf_artwork_path = pl_artwork_path p, pf_audio = [], pf_artwork = [],
        pf_staged = [], pf_artwork_created = False\<rparr>,
      cd_inspection = xs_inspection x, cd_album_key = xs_album_key x\<rparr>"

definition commit_replacement :: "service_env \<Rightarrow> string \<Rightarrow> job \<Rightarrow> replacement_state \<Rightarrow> (db, import_error, replacement_result) steps" where
  "commit_replacement env uuid jb x =
     (let j = replacement_journal_of env uuid jb x in
      s_then (create_replacement_journal j)
      (s_bind (place_and_verify_replacement env j x) (\<lambda>p.
      s_then (swap_and_stream_replacement env j p x)
      (s_then (or_else (s_then (commit_replacement_data env (commit_data_of x p) (xs_target x) p (rj_id j)) (s_return ())) (\<lambda>e.
          s_bind (s_try (get_replacement_journal (rj_id j))) (\<lambda>read.
            case read of
              Inl r \<Rightarrow> s_fail (join_with_rest e [Some r])
            | Inr persisted \<Rightarrow>
                if rj_phase persisted = R_Swapped
                then fail_after e (rollback_replacement_files env (rj_id j) p ''database commit failed'')
                else s_fail e)))
        (complete_replacement env jb j p)))))"

definition recover_replacement :: "service_env \<Rightarrow> replacement_journal \<Rightarrow> (db, import_error, unit) steps" where
  "recover_replacement env j =
     (case replacement_placement_from_journal (se_storage env) j of
        Inl e \<Rightarrow> fail_after e (record_replacement_recovery_reason (rj_id j) ''unsafe journaled storage path'')
      | Inr p \<Rightarrow>
          if before_commit (rj_phase j)
          then rollback_replacement_files env (rj_id j) p
                 (''restart rolled back replacement from '' @ phase_text (rj_phase j) @ '' phase'')
          else if rj_phase j = R_Database_Committed
            then s_bind (get_job (rj_job j)) (\<lambda>jb. s_then (complete_replacement env jb j p) (s_return ()))
          else s_fail (err_new (''unsupported Track Replacement phase '' @ phase_text (rj_phase j))))"

text \<open>Every journal is tried; the failures are reported together.\<close>

fun recover_each :: "service_env \<Rightarrow> replacement_journal list \<Rightarrow> import_error option list \<Rightarrow> (db, import_error, unit) steps" where
  "recover_each env [] failures = s_result (result_of (err_join failures))"
| "recover_each env (j # js) failures =
     s_bind (s_err (s_map_err (err_context (''recover Track Replacement '' @ st_debug (se_storage env) (rj_id j))) (recover_replacement env j))) (\<lambda>f.
       recover_each env js (failures @ [f]))"

definition recover_pending_track_replacements :: "service_env \<Rightarrow> (db, import_error, unit) steps" where
  "recover_pending_track_replacements env = s_bind incomplete_replacement_journals (\<lambda>js. recover_each env js [])"

definition recovered_replacement_job :: "service_env \<Rightarrow> string \<Rightarrow> (db, import_error, job) steps" where
  "recovered_replacement_job env job_id =
     s_bind (get_job job_id) (\<lambda>jb.
       if jb_replace_track jb = [] then s_fail (err_sentinel Not_Replacement_Job)
       else s_bind (find_incomplete_replacement_journal (jb_id jb)) (\<lambda>found.
         case found of
           None \<Rightarrow> s_return jb
         | Some j \<Rightarrow> s_then (recover_replacement env j) (get_job job_id)))"

end
