(* ===== verification/Replacement_Safety.thy ===== *)
theory Replacement_Safety
  imports Track_Replacement Import_Placement
begin

text \<open>
  A Track Replacement never loses the Track's file: whatever fails, and wherever the run is cut
  short, the file the database names is at its path or, while the replacement is not committed, at
  the path it was retired to, from which recovery takes it back.
\<close>

subsection \<open>Where the files are\<close>

definition sha_at :: "storage \<Rightarrow> tree \<Rightarrow> string \<Rightarrow> string \<Rightarrow> bool" where
  "sha_at st t path h \<longleftrightarrow> (case fmlookup t path of Some (File c) \<Rightarrow> st_sha256 st c = h | _ \<Rightarrow> False)"

definition moved_paths :: "placement \<Rightarrow> string list" where
  "moved_paths p = [pl_staged p, pl_pending_audio p, pl_pending_artwork p, pl_artwork p, pl_previous_artwork p, pl_retired_artwork p]"

definition touched_directories :: "placement \<Rightarrow> string list" where
  "touched_directories p =
     ''.'' # [] # ensured (parent_path (pl_audio p)) @ ancestors (parent_path (pl_audio p)) @ ancestors (parent_path (pl_previous_audio p))"

text \<open>The paths of the previous, the retired and the new file are not used for anything else; the
  previous and the new one may be the same.\<close>

definition apart :: "placement \<Rightarrow> bool" where
  "apart p \<longleftrightarrow>
     pl_previous_audio p \<notin> set (pl_retired_audio p # moved_paths p @ touched_directories p)
     \<and> pl_retired_audio p \<notin> set (pl_audio p # moved_paths p @ touched_directories p)
     \<and> pl_audio p \<notin> set (moved_paths p @ touched_directories p)"

definition open_journals :: "db \<Rightarrow> replacement_journal list" where
  "open_journals d = filter active_replacement (db_replacements d)"

definition row_is :: "db \<Rightarrow> string \<Rightarrow> string \<Rightarrow> string \<Rightarrow> bool" where
  "row_is d track_id path h \<longleftrightarrow>
     map (\<lambda>s. (so_path s, so_sha256 s)) (filter (\<lambda>s. so_track s = track_id) (db_sources d)) = [(path, h)]"

text \<open>What never changes in a journal.\<close>

definition journal_core :: "replacement_journal \<Rightarrow> replacement_journal" where
  "journal_core j = j\<lparr>rj_phase := R_Prepared, rj_artwork_created := False, rj_reason := []\<rparr>"

definition same_view :: "db \<Rightarrow> db \<Rightarrow> bool" where
  "same_view d d' \<longleftrightarrow> db_sources d' = db_sources d
     \<and> map (rj_artwork_created_update (\<lambda>_. False)) (open_journals d') = map (rj_artwork_created_update (\<lambda>_. False)) (open_journals d)"

definition journal_in :: "(replacement_phase \<Rightarrow> bool) \<Rightarrow> replacement_journal \<Rightarrow> db \<Rightarrow> bool" where
  "journal_in X j d \<longleftrightarrow> (\<exists>k. open_journals d = [k] \<and> journal_core k = journal_core j \<and> X (rj_phase k))"

definition row_of_old :: "string \<Rightarrow> replacement_journal \<Rightarrow> db \<Rightarrow> bool" where
  "row_of_old path j d \<longleftrightarrow> row_is d (rj_track j) path (rj_previous_sha256 j)"

definition row_of_new :: "replacement_journal \<Rightarrow> db \<Rightarrow> bool" where
  "row_of_new j d \<longleftrightarrow> row_is d (rj_track j) (rj_audio_path j) (rj_audio_sha256 j)"

definition old_in_place :: "storage \<Rightarrow> placement \<Rightarrow> replacement_journal \<Rightarrow> tree \<Rightarrow> bool" where
  "old_in_place st p j t \<longleftrightarrow> sha_at st t (pl_previous_audio p) (rj_previous_sha256 j) \<and> fmlookup t (pl_retired_audio p) = None"

definition old_retired :: "storage \<Rightarrow> placement \<Rightarrow> replacement_journal \<Rightarrow> tree \<Rightarrow> bool" where
  "old_retired st p j t \<longleftrightarrow> sha_at st t (pl_retired_audio p) (rj_previous_sha256 j)"

definition new_in_place :: "storage \<Rightarrow> placement \<Rightarrow> replacement_journal \<Rightarrow> tree \<Rightarrow> bool" where
  "new_in_place st p j t \<longleftrightarrow> sha_at st t (pl_audio p) (rj_audio_sha256 j)"

definition resting :: "storage \<Rightarrow> placement \<Rightarrow> string \<Rightarrow> replacement_journal \<Rightarrow> tree \<Rightarrow> db \<Rightarrow> bool" where
  "resting st p path j t d \<longleftrightarrow> row_of_old path j d \<and> open_journals d = [] \<and> old_in_place st p j t"

definition placing :: "storage \<Rightarrow> placement \<Rightarrow> string \<Rightarrow> replacement_journal \<Rightarrow> tree \<Rightarrow> db \<Rightarrow> bool" where
  "placing st p path j t d \<longleftrightarrow> row_of_old path j d \<and> journal_in before_commit j d \<and> old_in_place st p j t"

definition swapped :: "storage \<Rightarrow> placement \<Rightarrow> string \<Rightarrow> replacement_journal \<Rightarrow> tree \<Rightarrow> db \<Rightarrow> bool" where
  "swapped st p path j t d \<longleftrightarrow> row_of_old path j d \<and> journal_in before_commit j d \<and> old_retired st p j t"

definition readable :: "storage \<Rightarrow> placement \<Rightarrow> string \<Rightarrow> replacement_journal \<Rightarrow> tree \<Rightarrow> db \<Rightarrow> bool" where
  "readable st p path j t d \<longleftrightarrow> swapped st p path j t d \<and> new_in_place st p j t"

definition committed :: "storage \<Rightarrow> placement \<Rightarrow> replacement_journal \<Rightarrow> tree \<Rightarrow> db \<Rightarrow> bool" where
  "committed st p j t d \<longleftrightarrow> row_of_new j d \<and> journal_in (\<lambda>x. x = R_Database_Committed) j d \<and> new_in_place st p j t"

definition finished :: "storage \<Rightarrow> placement \<Rightarrow> replacement_journal \<Rightarrow> tree \<Rightarrow> db \<Rightarrow> bool" where
  "finished st p j t d \<longleftrightarrow> row_of_new j d \<and> open_journals d = [] \<and> new_in_place st p j t"

definition undoable :: "storage \<Rightarrow> placement \<Rightarrow> string \<Rightarrow> replacement_journal \<Rightarrow> tree \<Rightarrow> db \<Rightarrow> bool" where
  "undoable st p path j t d \<longleftrightarrow> placing st p path j t d \<or> swapped st p path j t d"

text \<open>The states a replacement can be found in.\<close>

definition recoverable :: "storage \<Rightarrow> placement \<Rightarrow> string \<Rightarrow> replacement_journal \<Rightarrow> tree \<Rightarrow> db \<Rightarrow> bool" where
  "recoverable st p path j t d \<longleftrightarrow>
     resting st p path j t d \<or> undoable st p path j t d \<or> committed st p j t d \<or> finished st p j t d"

lemmas state_defs = resting_def placing_def swapped_def readable_def committed_def finished_def undoable_def recoverable_def

lemma same_view_refl: "reflp same_view"
  by (simp add: reflp_def same_view_def)

lemma same_view_trans: "transp same_view"
  by (auto simp: transp_def same_view_def)

lemma same_view_journal_in: "same_view d d' \<Longrightarrow> journal_in X j d \<Longrightarrow> journal_in X j d'"
proof -
  assume v: "same_view d d'" and j: "journal_in X j d"
  then obtain k where k: "open_journals d = [k]" "journal_core k = journal_core j" "X (rj_phase k)" by (auto simp: journal_in_def)
  with v obtain k' where k': "open_journals d' = [k']" "k'\<lparr>rj_artwork_created := False\<rparr> = k\<lparr>rj_artwork_created := False\<rparr>"
    by (auto simp: same_view_def)
  have "journal_core k' = journal_core (k'\<lparr>rj_artwork_created := False\<rparr>)" "rj_phase k' = rj_phase (k'\<lparr>rj_artwork_created := False\<rparr>)"
    by (simp_all add: journal_core_def)
  then have "journal_core k' = journal_core k" "rj_phase k' = rj_phase k" using k'(2) by (simp_all add: journal_core_def)
  with k k' show ?thesis by (auto simp: journal_in_def)
qed

lemma same_view_rows: "same_view d d' \<Longrightarrow> row_is d' = row_is d"
  by (auto simp: same_view_def row_is_def fun_eq_iff)

lemma same_view_none: "same_view d d' \<Longrightarrow> open_journals d = [] \<Longrightarrow> open_journals d' = []"
  by (simp add: same_view_def)

subsection \<open>Steps that leave these files alone\<close>

lemma keeps_placing:
  assumes "confined S same_view m" "pl_previous_audio p \<notin> S" "pl_retired_audio p \<notin> S"
  shows "always (recoverable st p path j) (placing st p path j) m (\<lambda>_. placing st p path j) (\<lambda>_. placing st p path j)"
  by (rule always_confined [OF assms(1)])
    (use assms(2, 3) in \<open>auto simp: state_defs row_of_old_def old_in_place_def sha_at_def same_view_rows intro: same_view_journal_in\<close>)

lemma keeps_swapped:
  assumes "confined S same_view m" "pl_retired_audio p \<notin> S"
  shows "always (recoverable st p path j) (swapped st p path j) m (\<lambda>_. swapped st p path j) (\<lambda>_. swapped st p path j)"
  by (rule always_confined [OF assms(1)])
    (use assms(2) in \<open>auto simp: state_defs row_of_old_def old_retired_def sha_at_def same_view_rows intro: same_view_journal_in\<close>)

lemma keeps_undoable:
  assumes "confined S same_view m" "pl_previous_audio p \<notin> S" "pl_retired_audio p \<notin> S"
  shows "always (recoverable st p path j) (undoable st p path j) m (\<lambda>_. undoable st p path j) (\<lambda>_. undoable st p path j)"
  by (rule always_confined [OF assms(1)])
    (use assms(2, 3) in \<open>auto simp: state_defs row_of_old_def old_in_place_def old_retired_def sha_at_def same_view_rows
        intro: same_view_journal_in\<close>)

lemma keeps_committed:
  assumes "confined S same_view m" "pl_audio p \<notin> S"
  shows "always (recoverable st p path j) (committed st p j) m (\<lambda>_. committed st p j) (\<lambda>_. committed st p j)"
  by (rule always_confined [OF assms(1)])
    (use assms(2) in \<open>auto simp: state_defs row_of_new_def new_in_place_def sha_at_def same_view_rows intro: same_view_journal_in\<close>)

subsection \<open>Journal updates\<close>

lemma update_journal_open:
  assumes u: "update_journal operation i P f d = Inr d'" and one: "open_journals d = [k]" and P: "\<And>j. P j \<Longrightarrow> active_replacement j"
  shows "db_sources d' = db_sources d \<and> P k \<and> open_journals d' = (if active_replacement (f k) then [f k] else [])"
proof -
  let ?G = "\<lambda>j. rj_id j = i \<and> P j"
  from u have d': "d' = d\<lparr>db_replacements := update_where ?G f (db_replacements d)\<rparr>"
    and len: "length (filter ?G (db_replacements d)) = 1"
    by (auto simp: update_journal_def dest!: sql_one_ok)
  have sub: "filter ?G (filter active_replacement js) = filter ?G js" for js
    by (induction js) (auto dest: P)
  have "filter ?G (db_replacements d) = filter ?G [k]"
    using one sub [of "db_replacements d"] by (simp add: open_journals_def)
  with len have k: "?G k" by (auto split: if_splits)
  have "filter active_replacement (update_where ?G f js) = filter active_replacement (update_where ?G f (filter active_replacement js))" for js
    by (induction js) (auto simp: update_where_def dest: P)
  from this [of "db_replacements d"] have "open_journals d' = filter active_replacement (update_where ?G f [k])"
    using one by (simp add: d' open_journals_def)
  with k d' show ?thesis by (simp add: update_where_def)
qed

lemma before_active: "before_commit (rj_phase j) \<Longrightarrow> active_replacement j"
  by (auto simp: before_commit_def active_replacement_def)

text \<open>An update that leaves an open journal open, in a phase of the same side of the commit.\<close>

lemma update_journal_in:
  assumes u: "update_journal operation i P f d = Inr d'" and j: "journal_in X j d" and P: "\<And>k. P k \<Longrightarrow> active_replacement k"
    and f: "\<And>k. P k \<Longrightarrow> X (rj_phase k) \<Longrightarrow> Y (rj_phase (f k)) \<and> journal_core (f k) = journal_core k"
    and Y: "\<And>k. Y (rj_phase k) \<Longrightarrow> active_replacement k"
  shows "db_sources d' = db_sources d \<and> journal_in Y j d'"
proof -
  from j obtain k where k: "open_journals d = [k]" "journal_core k = journal_core j" "X (rj_phase k)" by (auto simp: journal_in_def)
  from update_journal_open [OF u k(1) P] have *: "db_sources d' = db_sources d" "P k"
    and o: "open_journals d' = (if active_replacement (f k) then [f k] else [])" by auto
  from f [OF *(2) k(3)] have "Y (rj_phase (f k))" "journal_core (f k) = journal_core k" by auto
  with o Y k(2) * show ?thesis by (auto simp: journal_in_def)
qed

lemma row_is_cong: "db_sources d' = db_sources d \<Longrightarrow> row_is d' = row_is d"
  by (simp add: row_is_def fun_eq_iff)

lemma always_statement:
  assumes "\<And>t d. P t d \<Longrightarrow> I t d" "\<And>e t d. P t d \<Longrightarrow> E e t d"
    and "\<And>t d d'. P t d \<Longrightarrow> f d = Inr d' \<Longrightarrow> Q t d' \<and> (\<forall>e. E e t d')"
  shows "always I P (statement f) (\<lambda>_. Q) E"
  unfolding statement_def by (rule always_tx) (use assms in \<open>auto simp: and_then_Inr_iff\<close>)

lemma always_query:
  assumes "\<And>t d. P t d \<Longrightarrow> I t d" "\<And>e t d. P t d \<Longrightarrow> E e t d"
    and "\<And>t d x. P t d \<Longrightarrow> f d = Inr x \<Longrightarrow> Q x t d"
  shows "always I P (query f) Q E"
  unfolding query_def by (rule always_tx) (use assms in \<open>auto simp: and_then_Inr_iff\<close>)

lemma phase_step:
  assumes "before_commit a" "before_commit b"
  shows "always (recoverable st p path j) (placing st p path j) (update_replacement_phase i a b)
      (\<lambda>_. placing st p path j) (\<lambda>_. placing st p path j)"
    and "always (recoverable st p path j) (swapped st p path j) (update_replacement_phase i a b)
      (\<lambda>_. swapped st p path j) (\<lambda>_. swapped st p path j)"
proof -
  have "journal_in before_commit j d \<Longrightarrow> update_journal op i (\<lambda>j. rj_phase j = a) (rj_phase_update (\<lambda>_. b)) d = Inr d' \<Longrightarrow>
      db_sources d' = db_sources d \<and> journal_in before_commit j d'" for op d d'
    by (erule update_journal_in [where Y = before_commit])
      (use assms in \<open>auto simp: journal_core_def before_active\<close>)
  then have u: "row_of_old path j d \<Longrightarrow> journal_in before_commit j d
      \<Longrightarrow> update_journal op i (\<lambda>j. rj_phase j = a) (rj_phase_update (\<lambda>_. b)) d = Inr d'
      \<Longrightarrow> row_of_old path j d' \<and> journal_in before_commit j d'" for op d d'
    by (fastforce simp: row_of_old_def dest: row_is_cong)
  show "always (recoverable st p path j) (placing st p path j) (update_replacement_phase i a b)
      (\<lambda>_. placing st p path j) (\<lambda>_. placing st p path j)"
    unfolding update_replacement_phase_def by (rule always_statement) (auto simp: state_defs dest: u)
  show "always (recoverable st p path j) (swapped st p path j) (update_replacement_phase i a b)
      (\<lambda>_. swapped st p path j) (\<lambda>_. swapped st p path j)"
    unfolding update_replacement_phase_def by (rule always_statement) (auto simp: state_defs dest: u)
qed

lemma mark_view: "confined {} same_view (mark_replacement_artwork_created i)"
  unfolding mark_replacement_artwork_created_def statement_def
proof (rule confined_tx)
  fix t d x d'
  assume "and_then (update_journal ''journal Track Replacement artwork creation'' i (\<lambda>j. rj_phase j = R_Prepared)
      (rj_artwork_created_update (\<lambda>_. True)) d) (\<lambda>d'. Inr ((), d')) = Inr (x, d')"
  then have d': "d' = d\<lparr>db_replacements := update_where (\<lambda>j. rj_id j = i \<and> rj_phase j = R_Prepared)
      (rj_artwork_created_update (\<lambda>_. True)) (db_replacements d)\<rparr>"
    by (auto simp: and_then_Inr_iff update_journal_def dest!: sql_one_ok)
  have "map (rj_artwork_created_update (\<lambda>_. False)) (filter active_replacement (update_where (\<lambda>j. rj_id j = i \<and> rj_phase j = R_Prepared)
      (rj_artwork_created_update (\<lambda>_. True)) js)) = map (rj_artwork_created_update (\<lambda>_. False)) (filter active_replacement js)" for js
    by (induction js) (auto simp: update_where_def active_replacement_def)
  then show "same_view d d'" by (simp add: same_view_def d' open_journals_def)
qed (rule same_view_refl)


lemma record_step:
  shows "always (recoverable st p path j) (undoable st p path j) (record_replacement_recovery_reason i reason)
      (\<lambda>_. undoable st p path j) (\<lambda>_. undoable st p path j)"
    and "always (recoverable st p path j) (committed st p j) (record_replacement_recovery_reason i reason)
      (\<lambda>_. committed st p j) (\<lambda>_. committed st p j)"
proof -
  have u: "journal_in X j d \<Longrightarrow> update_journal op i active_replacement (rj_reason_update (\<lambda>_. reason)) d = Inr d'
      \<Longrightarrow> (\<And>x. X x \<Longrightarrow> x \<noteq> R_Completed \<and> x \<noteq> R_Rolled_Back) \<Longrightarrow> db_sources d' = db_sources d \<and> journal_in X j d'" for X op d d'
    by (erule update_journal_in [where Y = X]) (auto simp: journal_core_def active_replacement_def)
  have b: "row_of_old path j d \<Longrightarrow> journal_in before_commit j d
      \<Longrightarrow> update_journal op i active_replacement (rj_reason_update (\<lambda>_. reason)) d = Inr d'
      \<Longrightarrow> row_of_old path j d' \<and> journal_in before_commit j d'" for op d d'
    by (drule (1) u) (auto simp: before_commit_def row_of_old_def dest: row_is_cong)
  have c: "row_of_new j d \<Longrightarrow> journal_in (\<lambda>x. x = R_Database_Committed) j d
      \<Longrightarrow> update_journal op i active_replacement (rj_reason_update (\<lambda>_. reason)) d = Inr d'
      \<Longrightarrow> row_of_new j d' \<and> journal_in (\<lambda>x. x = R_Database_Committed) j d'" for op d d'
    by (drule (1) u) (auto simp: row_of_new_def dest: row_is_cong)
  show "always (recoverable st p path j) (undoable st p path j) (record_replacement_recovery_reason i reason)
      (\<lambda>_. undoable st p path j) (\<lambda>_. undoable st p path j)"
    unfolding record_replacement_recovery_reason_def by (rule always_statement) (auto simp: state_defs dest: b)
  show "always (recoverable st p path j) (committed st p j) (record_replacement_recovery_reason i reason)
      (\<lambda>_. committed st p j) (\<lambda>_. committed st p j)"
    unfolding record_replacement_recovery_reason_def by (rule always_statement) (auto simp: state_defs dest: c)
qed

lemma undone_step:
  "always (recoverable st p path j) (placing st p path j) (rollback_replacement_journal i reason)
     (\<lambda>_. resting st p path j) (\<lambda>_. recoverable st p path j)"
proof -
  have "row_of_old path j d' \<and> open_journals d' = []"
    if r: "row_of_old path j d" "journal_in before_commit j d"
      and u: "update_journal op i (\<lambda>j. before_commit (rj_phase j)) (\<lambda>j. j\<lparr>rj_phase := R_Rolled_Back, rj_reason := reason\<rparr>) d = Inr d'"
    for op d d'
  proof -
    from r obtain k where k: "open_journals d = [k]" by (auto simp: journal_in_def)
    have "db_sources d' = db_sources d \<and> open_journals d' = []"
      using update_journal_open [OF u k] by (auto simp: before_active) (auto simp: active_replacement_def)
    with r show ?thesis by (auto simp: row_of_old_def dest: row_is_cong)
  qed
  then show ?thesis
    unfolding rollback_replacement_journal_def
    by (intro always_statement) (auto simp: state_defs)
qed

lemma created_step:
  assumes "rj_phase j = R_Prepared"
  shows "always (recoverable st p path j) (resting st p path j) (create_replacement_journal j)
     (\<lambda>_. placing st p path j) (\<lambda>_. recoverable st p path j)"
proof -
  have "db_sources d' = db_sources d \<and> journal_in before_commit j d'"
    if "open_journals d = []" "sql op (\<lambda>d. d\<lparr>db_replacements := db_replacements d @ [j]\<rparr>) d = Inr d'" for op d d'
    using that assms by (auto dest!: sql_ok simp: open_journals_def journal_in_def active_replacement_def before_commit_def)
  then show ?thesis
    unfolding create_replacement_journal_def
    by (intro always_statement) (fastforce simp: state_defs row_of_old_def dest: row_is_cong)+
qed

subsection \<open>The moves\<close>

lemma always_handle:
  "always I P m R F \<Longrightarrow> (\<And>e. always I (F e) (f e) Q E) \<Longrightarrow> (\<And>x. always I (R x) (g x) Q E)
    \<Longrightarrow> always I P (s_bind (s_try m) (\<lambda>r. case r of Inl e \<Rightarrow> f e | Inr x \<Rightarrow> g x)) Q E"
  by (rule always_bind [where R = "\<lambda>r. case r of Inl e \<Rightarrow> F e | Inr x \<Rightarrow> R x"]) (auto intro: always_try split: sum.split)

lemma always_noted:
  "always I P m (\<lambda>_. R None) (\<lambda>e. R (Some e)) \<Longrightarrow> (\<And>r. always I (R r) (k r) Q E) \<Longrightarrow> always I P (s_bind (s_err m) k) Q E"
  by (rule always_bind [where R = R]) (auto intro: always_err)

lemma always_never: "always I (\<lambda>_ _. False) m Q E"
  by (simp add: always_def)

lemma always_if: "(B \<Longrightarrow> always I P m Q E) \<Longrightarrow> (\<not> B \<Longrightarrow> always I P n Q E) \<Longrightarrow> always I P (if B then m else n) Q E"
  by simp

lemma always_or_else:
  "always I P m Q F \<Longrightarrow> (\<And>e. always I (F e) (h e) Q E) \<Longrightarrow> always I P (or_else m h) Q E"
  unfolding or_else_def
  by (rule always_bind [where R = "\<lambda>r. case r of Inl e \<Rightarrow> F e | Inr x \<Rightarrow> Q x"])
    (auto intro: always_try always_return split: sum.split)

lemma always_fail_after:
  "always I P undo (\<lambda>_. E') (\<lambda>_. E') \<Longrightarrow> (\<And>e t d. E' t d \<Longrightarrow> E e t d) \<Longrightarrow> always I P (fail_after e undo) Q E"
  unfolding fail_after_def by (rule always_bind [where R = "\<lambda>_. E'"]) (auto intro: always_err always_fail)

lemma sha_at_File: "sha_at st t q h \<Longrightarrow> \<exists>c. fmlookup t q = Some (File c) \<and> st_sha256 st c = h"
  by (auto simp: sha_at_def split: option.splits node.splits)

lemma retire_step:
  assumes "apart p"
  shows "always (recoverable st p path j) (placing st p path j) (rename_file (pl_previous_audio p) (pl_retired_audio p))
     (\<lambda>_. swapped st p path j) (\<lambda>_. placing st p path j)"
  unfolding rename_file_def
  by (rule always_file)
    (use assms in \<open>auto simp: state_defs old_in_place_def old_retired_def apart_def sha_at_def split: option.splits node.splits if_splits\<close>)

lemma unretire_step:
  assumes "apart p"
  shows "always (recoverable st p path j) (swapped st p path j) (rename_file (pl_retired_audio p) (pl_previous_audio p))
     (\<lambda>_. placing st p path j) (\<lambda>_. swapped st p path j)"
  unfolding rename_file_def
  by (rule always_file)
    (use assms in \<open>auto simp: state_defs old_in_place_def old_retired_def apart_def sha_at_def split: option.splits node.splits if_splits\<close>)

lemma restore_step:
  assumes "apart p"
  shows "always (recoverable st p path j) (swapped st p path j) (restore_rooted_file st (pl_retired_audio p) (pl_previous_audio p))
     (\<lambda>_. placing st p path j) (\<lambda>_. swapped st p path j)"
  unfolding restore_rooted_file_def by (rule always_map_err) (rule unretire_step [OF assms])

lemma stays_swapped: "swapped st p path j t d \<Longrightarrow> recoverable st p path j t d"
  by (simp add: recoverable_def undoable_def)

lemma look_swapped:
  "always (recoverable st p path j) (swapped st p path j) (symlink_metadata q) (\<lambda>_. swapped st p path j) (\<lambda>_. swapped st p path j)"
  by (rule keeps_swapped [of "{}"]) (auto intro: confined_symlink_metadata same_view_refl)

text \<open>While the previous file is retired, looking for it finds it.\<close>

lemma look_retired:
  assumes "apart p"
  shows "always (recoverable st p path j) (swapped st p path j) (symlink_metadata (pl_retired_audio p))
     (\<lambda>_. swapped st p path j) (\<lambda>e t d. \<not> is_enoent e \<and> swapped st p path j t d)"
  unfolding symlink_metadata_def
  by (rule always_file)
    (use assms in \<open>auto simp: apart_def touched_directories_def stays_swapped is_enoent_def other_io_def swapped_def old_retired_def sha_at_def split: if_splits option.splits\<close>)

text \<open>While it is in its place, looking for a retired file finds nothing.\<close>

lemma look_unretired:
  assumes "apart p"
  shows "always (recoverable st p path j) (placing st p path j) (symlink_metadata (pl_retired_audio p))
     (\<lambda>_ _ _. False) (\<lambda>_. placing st p path j)"
  unfolding symlink_metadata_def
  by (rule always_file)
    (use assms in \<open>auto simp: apart_def touched_directories_def recoverable_def undoable_def placing_def old_in_place_def split: if_splits\<close>)


lemma put_back_step:
  assumes a: "apart p"
  shows "always (recoverable st p path j) (swapped st p path j) (restore_if_present st (pl_retired_audio p) (pl_previous_audio p))
     (\<lambda>_. placing st p path j) (\<lambda>_. swapped st p path j)"
  unfolding restore_if_present_def
proof (rule always_handle [OF look_retired [OF a]])
  show "always (recoverable st p path j) (\<lambda>t d. \<not> is_enoent e \<and> swapped st p path j t d)
      (if is_enoent e then s_return () else s_fail (io_err what e)) (\<lambda>_. placing st p path j) (\<lambda>_. swapped st p path j)" for e what
    by (auto intro: always_fail always_never)
qed (intro always_handle [OF look_swapped] restore_step [OF a] always_fail)

lemma both_done: "result_of (err_join [a, b]) = Inr () \<longleftrightarrow> a = None \<and> b = None"
  by (cases a; cases b) (simp_all add: err_join_def)

lemma undo_step:
  assumes a: "apart p"
  shows "always (recoverable st p path j) (undoable st p path j)
     (undo_retired_swap st (pl_retired_audio p) (pl_previous_audio p) (pl_audio p) (pl_pending_audio p))
     (\<lambda>_. placing st p path j) (\<lambda>_. undoable st p path j)"
proof -
  let ?R = "recoverable st p path j" and ?P = "placing st p path j" and ?S = "swapped st p path j" and ?U = "undoable st p path j"
  have b: "always ?R ?S (s_bind (s_err (restore_if_present st (pl_audio p) (pl_pending_audio p))) (\<lambda>a.
      s_bind (s_err (restore_if_present st (pl_retired_audio p) (pl_previous_audio p))) (\<lambda>b. s_result (result_of (err_join [a, b])))))
      (\<lambda>_. ?P) (\<lambda>_. ?U)"
  proof (rule always_noted [where R = "\<lambda>_. ?S"])
    show "always ?R ?S (restore_if_present st (pl_audio p) (pl_pending_audio p)) (\<lambda>_. ?S) (\<lambda>_. ?S)"
      by (rule keeps_swapped [of "{pl_audio p, pl_pending_audio p}"])
        (use a in \<open>auto simp: apart_def moved_paths_def intro!: confined_restore_if_present same_view_refl same_view_trans\<close>)
    show "always ?R ?S (s_bind (s_err (restore_if_present st (pl_retired_audio p) (pl_previous_audio p)))
        (\<lambda>b. s_result (result_of (err_join [x, b])))) (\<lambda>_. ?P) (\<lambda>_. ?U)" for x
      by (rule always_noted [where R = "\<lambda>b. if b = None then ?P else ?S"])
        (use put_back_step [OF a] in \<open>auto intro!: always_result simp: both_done undoable_def\<close>)
  qed
  have s: "always ?R ?S (undo_retired_swap st (pl_retired_audio p) (pl_previous_audio p) (pl_audio p) (pl_pending_audio p))
      (\<lambda>_. ?P) (\<lambda>_. ?U)"
    unfolding undo_retired_swap_def
  proof (rule always_handle [OF look_retired [OF a]])
    show "always ?R (\<lambda>t d. \<not> is_enoent e \<and> ?S t d) (if is_enoent e then s_return () else s_fail (io_err what e)) (\<lambda>_. ?P) (\<lambda>_. ?U)"
      for e what
      by (auto intro: always_fail always_never simp: undoable_def)
  qed (rule b)
  have q: "always ?R ?P (undo_retired_swap st (pl_retired_audio p) (pl_previous_audio p) (pl_audio p) (pl_pending_audio p))
      (\<lambda>_. ?P) (\<lambda>_. ?U)"
    unfolding undo_retired_swap_def
    by (intro always_handle [OF look_unretired [OF a]] always_never always_if always_return always_fail) (auto simp: undoable_def)
  show ?thesis by (rule always_pre [OF always_cases [OF q s]]) (simp add: undoable_def)
qed


lemma join_onto_None: "join_onto e xs = None \<longleftrightarrow> e = None \<and> (\<forall>x \<in> set xs. x = None)"
  by (induction e xs rule: join_onto.induct) (auto split: option.splits)

lemma all_done: "result_of (err_join xs) = Inr () \<longleftrightarrow> (\<forall>x \<in> set xs. x = None)"
proof -
  have "result_of r = Inr () \<longleftrightarrow> r = None" for r by (cases r) simp_all
  then show ?thesis by (simp add: err_join_def join_onto_None)
qed

lemma keeps_back:
  assumes "confined S same_view m" "pl_previous_audio p \<notin> S" "pl_retired_audio p \<notin> S"
  shows "always (recoverable st p path j) (if b then placing st p path j else undoable st p path j) m
    (\<lambda>_. if b then placing st p path j else undoable st p path j) (\<lambda>_. if b then placing st p path j else undoable st p path j)"
  using keeps_placing [OF assms] keeps_undoable [OF assms] by simp

lemmas confined_view = same_view_refl same_view_trans

lemma rollback_step:
  assumes a: "apart p"
  shows "always (recoverable st p path j) (undoable st p path j) (rollback_replacement st p)
     (\<lambda>_. placing st p path j) (\<lambda>_. undoable st p path j)"
  unfolding rollback_replacement_def
proof (intro always_then [where R = "undoable st p path j"])
  let ?R = "recoverable st p path j" and ?P = "placing st p path j" and ?U = "undoable st p path j"
  let ?B = "\<lambda>r :: import_error option. if r = None then ?P else ?U"
  show "always ?R ?U (open_root st) (\<lambda>_. ?U) (\<lambda>_. ?U)"
    by (rule keeps_undoable [of "{}"]) (auto intro: confined_open_root confined_view)
  have none: "always ?R Z (s_return None) (\<lambda>_. Z) E" for Z E by (rule always_return)
  show "always ?R ?U
     (s_bind (if pl_artwork_mode p = Mode_Replace
              then s_err (undo_retired_swap st (pl_retired_artwork p) (pl_previous_artwork p) (pl_artwork p) (pl_pending_artwork p))
              else s_return None) (\<lambda>artwork_swap.
      s_bind (s_err (undo_retired_swap st (pl_retired_audio p) (pl_previous_audio p) (pl_audio p) (pl_pending_audio p))) (\<lambda>audio_swap.
      s_bind (s_err (restore_if_present st (pl_pending_audio p) (pl_staged p))) (\<lambda>pending.
      s_bind (if pl_artwork_created p
              then s_err (remove_rooted_file st (if pl_artwork_mode p = Mode_Replace then pl_pending_artwork p else pl_artwork p)
                     ''uncommitted replacement Album Artwork'')
              else s_return None) (\<lambda>artwork.
      s_bind (drop_empty_directories st (pl_audio p)) (\<lambda>directories.
        s_result (result_of (err_join [artwork_swap, audio_swap, pending, artwork, directories]))))))))
     (\<lambda>_. ?P) (\<lambda>_. ?U)"
  proof (rule always_bind)
    show "always ?R ?U (if pl_artwork_mode p = Mode_Replace
              then s_err (undo_retired_swap st (pl_retired_artwork p) (pl_previous_artwork p) (pl_artwork p) (pl_pending_artwork p))
              else s_return None) (\<lambda>_. ?U) (\<lambda>_. ?U)"
      by (intro always_if none always_err keeps_undoable [OF confined_undo_retired [OF confined_view subset_refl]])
        (use a in \<open>auto simp: apart_def moved_paths_def\<close>)
    fix x
    show "always ?R ?U
     (s_bind (s_err (undo_retired_swap st (pl_retired_audio p) (pl_previous_audio p) (pl_audio p) (pl_pending_audio p))) (\<lambda>audio_swap.
      s_bind (s_err (restore_if_present st (pl_pending_audio p) (pl_staged p))) (\<lambda>pending.
      s_bind (if pl_artwork_created p
              then s_err (remove_rooted_file st (if pl_artwork_mode p = Mode_Replace then pl_pending_artwork p else pl_artwork p)
                     ''uncommitted replacement Album Artwork'')
              else s_return None) (\<lambda>artwork.
      s_bind (drop_empty_directories st (pl_audio p)) (\<lambda>directories.
        s_result (result_of (err_join [x, audio_swap, pending, artwork, directories])))))))
     (\<lambda>_. ?P) (\<lambda>_. ?U)"
    proof (rule always_noted [where R = ?B])
      fix y :: "import_error option"
      have e: "always ?R (?B y) m (\<lambda>_. ?B y) (\<lambda>_. ?U)" if "always ?R (?B y) m (\<lambda>_. ?B y) (\<lambda>_. ?B y)" for m :: "(db, import_error, import_error option) steps"
        using that by (rule always_weaken) (auto simp: undoable_def split: if_splits)
      show "always ?R (?B y)
       (s_bind (s_err (restore_if_present st (pl_pending_audio p) (pl_staged p))) (\<lambda>pending.
        s_bind (if pl_artwork_created p
              then s_err (remove_rooted_file st (if pl_artwork_mode p = Mode_Replace then pl_pending_artwork p else pl_artwork p)
                     ''uncommitted replacement Album Artwork'')
              else s_return None) (\<lambda>artwork.
        s_bind (drop_empty_directories st (pl_audio p)) (\<lambda>directories.
          s_result (result_of (err_join [x, y, pending, artwork, directories])))))) (\<lambda>_. ?P) (\<lambda>_. ?U)"
        apply (intro always_bind [where R = "\<lambda>_. ?B y"] always_if none always_err)
        subgoal by (rule keeps_back [of "{pl_pending_audio p, pl_staged p}"])
            (use a in \<open>auto simp: apart_def moved_paths_def intro!: confined_restore_if_present confined_view\<close>)
        subgoal by (rule keeps_back [of "{pl_pending_artwork p, pl_artwork p}"])
            (use a in \<open>auto simp: apart_def moved_paths_def intro!: confined_remove_rooted confined_view\<close>)
        subgoal by (rule e, rule keeps_back [of "set (touched_directories p)"])
            (use a in \<open>auto simp: apart_def touched_directories_def intro!: confined_drop_empty confined_view\<close>)
        subgoal by (rule always_result) (auto simp: all_done undoable_def split: if_splits)
        done
    qed (use undo_step [OF a] in simp)
  qed
qed

end
