(* ===== verification/Replacement_Runs.thy ===== *)
theory Replacement_Runs
  imports Replacement_Safety
begin

text \<open>
  The states of a Track Replacement through the operations of the service: placing, swapping,
  committing, completing and recovering.
\<close>

lemma placing_undoable: "placing st p path j t d \<Longrightarrow> undoable st p path j t d"
  by (simp add: undoable_def)

lemma swapped_undoable: "swapped st p path j t d \<Longrightarrow> undoable st p path j t d"
  by (simp add: undoable_def)

lemma undoable_recoverable: "undoable st p path j t d \<Longrightarrow> recoverable st p path j t d"
  by (simp add: recoverable_def)

lemma placing_recoverable: "placing st p path j t d \<Longrightarrow> recoverable st p path j t d"
  by (simp add: recoverable_def undoable_def)

lemma swapped_recoverable: "swapped st p path j t d \<Longrightarrow> recoverable st p path j t d"
  by (simp add: recoverable_def undoable_def)

lemma readable_swapped: "readable st p path j t d \<Longrightarrow> swapped st p path j t d"
  by (simp add: readable_def)

lemma committed_recoverable: "committed st p j t d \<Longrightarrow> recoverable st p path j t d"
  by (simp add: recoverable_def)

lemmas towards_recoverable = placing_undoable swapped_undoable undoable_recoverable placing_recoverable swapped_recoverable
  readable_swapped committed_recoverable

subsection \<open>Taking back\<close>

lemma rollback_files_step:
  assumes a: "apart p" and st: "se_storage env = st"
  shows "always (recoverable st p path j) (undoable st p path j) (rollback_replacement_files env i p reason)
     (\<lambda>_. resting st p path j) (\<lambda>_. recoverable st p path j)"
  unfolding rollback_replacement_files_def st
proof (rule always_then)
  show "always (recoverable st p path j) (undoable st p path j)
     (or_else (rollback_replacement st p) (\<lambda>e. fail_after e (record_replacement_recovery_reason i (reason @ ''; filesystem rollback failed''))))
     (\<lambda>_. placing st p path j) (\<lambda>_. recoverable st p path j)"
    by (intro always_or_else [OF rollback_step [OF a]] always_fail_after [OF record_step(1)] undoable_recoverable)
qed (rule undone_step)

lemma undo_after:
  assumes "apart p" "se_storage env = st" "\<And>t d. P t d \<Longrightarrow> undoable st p path j t d"
  shows "always (recoverable st p path j) P (fail_after e (rollback_replacement_files env i p reason)) Q (\<lambda>_. recoverable st p path j)"
proof (rule always_fail_after)
  show "always (recoverable st p path j) P (rollback_replacement_files env i p reason) (\<lambda>_. recoverable st p path j) (\<lambda>_. recoverable st p path j)"
    by (rule always_weaken [OF rollback_files_step [OF assms(1, 2)]]) (use assms(3) in \<open>auto simp: recoverable_def\<close>)
qed

lemma advance_step:
  assumes "apart p" "se_storage env = st" "before_commit a" "before_commit b"
  shows "always (recoverable st p path j) (placing st p path j) (advance_replacement_phase env i p a b)
      (\<lambda>_. placing st p path j) (\<lambda>_. recoverable st p path j)"
    and "always (recoverable st p path j) (swapped st p path j) (advance_replacement_phase env i p a b)
      (\<lambda>_. swapped st p path j) (\<lambda>_. recoverable st p path j)"
  unfolding advance_replacement_phase_def
   apply (rule always_or_else [OF phase_step(1) [OF assms(3, 4)]], rule undo_after [OF assms(1, 2)], erule placing_undoable)
  apply (rule always_or_else [OF phase_step(2) [OF assms(3, 4)]], rule undo_after [OF assms(1, 2)], erule swapped_undoable)
  done

subsection \<open>Placing\<close>

lemma place_step:
  assumes a: "apart p"
  shows "always (recoverable st p path j) (placing st p path j)
     (place_replacement st p ins i (Some (mark_replacement_artwork_created k)))
     (\<lambda>q t d. (\<exists>b. q = p\<lparr>pl_artwork_created := b\<rparr>) \<and> placing st p path j t d) (\<lambda>_. placing st p path j)"
  unfolding place_replacement_def Let_def
proof (intro always_then)
  let ?R = "recoverable st p path j" and ?P = "placing st p path j"
  show "always ?R ?P (open_root st) (\<lambda>_. ?P) (\<lambda>_. ?P)"
    by (rule keeps_placing [of "{}"]) (auto intro: confined_open_root confined_view)
  show "always ?R ?P (ensure_directory st (parent_path (pl_audio p))) (\<lambda>_. ?P) (\<lambda>_. ?P)"
    by (rule keeps_placing [of "set (touched_directories p)"])
      (use a in \<open>auto simp: apart_def touched_directories_def intro!: confined_ensure_directory confined_view\<close>)
  show "always ?R ?P (s_map_err (io_err ''place replacement Managed Track on pending path'')
      (rename_file (pl_staged p) (pl_pending_audio p))) (\<lambda>_. ?P) (\<lambda>_. ?P)"
    by (rule keeps_placing [of "{pl_staged p, pl_pending_audio p}"])
      (use a in \<open>auto simp: apart_def moved_paths_def intro!: confined_map_err confined_rename_file confined_view\<close>)
  have mark: "\<And>m. Some (mark_replacement_artwork_created k) = Some m \<Longrightarrow> confined {pl_pending_artwork p, pl_artwork p} same_view m"
    using mark_view confined_mono by (metis empty_subsetI option.inject)
  have w: "confined {pl_pending_artwork p, pl_artwork p} same_view (write_rooted_artwork st q bytes h (Some (mark_replacement_artwork_created k)))"
    if "q \<in> {pl_pending_artwork p, pl_artwork p}" for q bytes h
    by (rule confined_write_artwork [OF confined_view that]) (rule mark)
  have art: "always ?R ?P
      (case pl_artwork_mode p of
          Mode_None \<Rightarrow> s_return False
        | Mode_Existing \<Rightarrow> s_then (s_map_err (err_context ''verify existing Album Artwork'')
              (verify_rooted_file_hash st (pl_artwork p) (id_artwork_sha256 i) never)) (s_return False)
        | Mode_Replace \<Rightarrow> write_rooted_artwork st (pl_pending_artwork p) (byte_text (art_data (ins_artwork ins)))
            (art_sha256 (ins_artwork ins)) (Some (mark_replacement_artwork_created k))
        | Mode_Create \<Rightarrow> write_rooted_artwork st (pl_artwork p) (byte_text (art_data (ins_artwork ins)))
            (art_sha256 (ins_artwork ins)) (Some (mark_replacement_artwork_created k))) (\<lambda>_. ?P) (\<lambda>_. ?P)"
    by (rule keeps_placing [of "{pl_pending_artwork p, pl_artwork p}"])
      (use a in \<open>auto simp: apart_def moved_paths_def split: artwork_mode.split
        intro!: confined_return confined_then confined_map_err confined_verify_hash w confined_view\<close>)
  have returned: "always ?R ?P (restore_rooted_file st (pl_pending_audio p) (pl_staged p)) (\<lambda>_. ?P) (\<lambda>_. ?P)"
    by (rule keeps_placing [of "{pl_pending_audio p, pl_staged p}"])
      (use a in \<open>auto simp: apart_def moved_paths_def intro!: confined_restore_rooted confined_view\<close>)
  show "always ?R ?P (s_bind (s_try (case pl_artwork_mode p of
          Mode_None \<Rightarrow> s_return False
        | Mode_Existing \<Rightarrow> s_then (s_map_err (err_context ''verify existing Album Artwork'')
              (verify_rooted_file_hash st (pl_artwork p) (id_artwork_sha256 i) never)) (s_return False)
        | Mode_Replace \<Rightarrow> write_rooted_artwork st (pl_pending_artwork p) (byte_text (art_data (ins_artwork ins)))
            (art_sha256 (ins_artwork ins)) (Some (mark_replacement_artwork_created k))
        | Mode_Create \<Rightarrow> write_rooted_artwork st (pl_artwork p) (byte_text (art_data (ins_artwork ins)))
            (art_sha256 (ins_artwork ins)) (Some (mark_replacement_artwork_created k)))) (\<lambda>made.
        case made of
          Inr b \<Rightarrow> s_return (p\<lparr>pl_artwork_created := b\<rparr>)
        | Inl e \<Rightarrow> s_bind (s_err (restore_rooted_file st (pl_pending_audio p) (pl_staged p))) (\<lambda>restored.
            s_fail (join_with_rest e [restored]))))
      (\<lambda>q t d. (\<exists>b. q = p\<lparr>pl_artwork_created := b\<rparr>) \<and> placing st p path j t d) (\<lambda>_. placing st p path j)"
    by (intro always_handle [OF art] always_noted [OF returned] always_return always_fail) auto
qed

lemma verify_step:
  "always (recoverable st p path j) (placing st p path j) (verify_replacement st q h h')
     (\<lambda>_. placing st p path j) (\<lambda>_. placing st p path j)"
  by (rule keeps_placing [of "{}"])
    (auto simp: verify_replacement_def Let_def intro!: confined_then confined_open_root confined_map_err confined_verify_hash
       confined_return confined_view)

subsection \<open>Swapping\<close>

lemma undo_swap_step:
  assumes a: "apart p"
  shows "always (recoverable st p path j) (swapped st p path j) (undo_audio_swap st p) (\<lambda>_. undoable st p path j) (\<lambda>_. undoable st p path j)"
  unfolding undo_audio_swap_def
proof (rule always_noted)
  show "always (recoverable st p path j) (swapped st p path j) (restore_rooted_file st (pl_audio p) (pl_pending_audio p))
      (\<lambda>_. swapped st p path j) (\<lambda>_. swapped st p path j)"
    by (rule keeps_swapped [of "{pl_audio p, pl_pending_audio p}"])
      (use a in \<open>auto simp: apart_def moved_paths_def intro!: confined_restore_rooted confined_view\<close>)
  show "always (recoverable st p path j) (swapped st p path j)
      (s_bind (s_err (restore_rooted_file st (pl_retired_audio p) (pl_previous_audio p))) (\<lambda>b. s_result (result_of (err_join [x, b]))))
      (\<lambda>_. undoable st p path j) (\<lambda>_. undoable st p path j)" for x
    by (rule always_noted [where R = "\<lambda>_. undoable st p path j"], rule always_weaken [OF restore_step [OF a]])
      (auto intro: always_result simp: undoable_def recoverable_def)
qed

lemma always_rename_or:
  assumes "always I P (rename_file a b) (\<lambda>_. Q) (\<lambda>_. P)" "always I P undo (\<lambda>_. E) (\<lambda>_. E)"
  shows "always I P (rename_or operation a b undo) (\<lambda>_. Q) (\<lambda>_. E)"
  unfolding rename_or_def
proof (rule always_handle [OF assms(1)])
  show "always I P (s_bind undo (\<lambda>extra. s_result (result_of (err_join (Some (io_err operation e) # extra))))) (\<lambda>_. Q) (\<lambda>_. E)" for e
    by (rule always_bind [OF assms(2)])
      (auto intro!: always_result simp: all_done [where xs = "Some _ # _", simplified])
qed (rule always_return)

lemma swap_step:
  assumes a: "apart p"
  shows "always (recoverable st p path j) (placing st p path j) (swap_replacement st p)
     (\<lambda>_. swapped st p path j) (\<lambda>_. undoable st p path j)"
  unfolding swap_replacement_def
proof (intro always_then)
  let ?R = "recoverable st p path j" and ?P = "placing st p path j" and ?S = "swapped st p path j" and ?U = "undoable st p path j"
  show "always ?R ?P (open_root st) (\<lambda>_. ?P) (\<lambda>_. ?U)"
    by (rule always_weaken [OF keeps_placing [of "{}"]]) (auto simp: undoable_def intro: confined_open_root confined_view)
  show "always ?R ?P (s_map_err (io_err ''retire previous Managed Track'') (rename_file (pl_previous_audio p) (pl_retired_audio p)))
      (\<lambda>_. ?S) (\<lambda>_. ?U)"
    by (rule always_map_err, rule always_weaken [OF retire_step [OF a]]) (auto simp: undoable_def)
  have move: "always ?R ?S (rename_file x y) (\<lambda>_. ?S) (\<lambda>_. ?S)" if "pl_retired_audio p \<notin> {x, y}" for x y
    by (rule keeps_swapped [of "{x, y}"]) (use that in \<open>auto intro!: confined_rename_file confined_view\<close>)
  have undone: "always ?R ?S (s_bind (s_err (undo_audio_swap st p)) (\<lambda>r. s_return (f r))) (\<lambda>_. ?U) (\<lambda>_. ?U)"
    for f :: "import_error option \<Rightarrow> import_error option list"
    by (rule always_noted [OF undo_swap_step [OF a]]) (auto intro: always_return)
  show "always ?R ?S (rename_or ''place replacement Managed Track at Canonical Library Path'' (pl_pending_audio p) (pl_audio p)
         (s_bind (s_err (restore_rooted_file st (pl_retired_audio p) (pl_previous_audio p))) (\<lambda>r. s_return [r]))) (\<lambda>_. ?S) (\<lambda>_. ?U)"
  proof (rule always_rename_or [OF move])
    show "always ?R ?S (s_bind (s_err (restore_rooted_file st (pl_retired_audio p) (pl_previous_audio p))) (\<lambda>r. s_return [r]))
        (\<lambda>_. ?U) (\<lambda>_. ?U)"
      by (rule always_noted [where R = "\<lambda>_. ?U"], rule always_weaken [OF restore_step [OF a]])
        (auto intro: always_return simp: undoable_def recoverable_def)
  qed (use a in \<open>auto simp: apart_def moved_paths_def\<close>)
  have returned: "always ?R ?S (s_err (restore_rooted_file st (pl_retired_artwork p) (pl_previous_artwork p))) (\<lambda>_. ?S) (\<lambda>_. ?U)"
    by (rule always_err, rule keeps_swapped [of "{pl_retired_artwork p, pl_previous_artwork p}"])
      (use a in \<open>auto simp: apart_def moved_paths_def intro!: confined_restore_rooted confined_view\<close>)
  have second: "always ?R ?S (s_bind (s_err (restore_rooted_file st (pl_retired_artwork p) (pl_previous_artwork p))) (\<lambda>restored.
           s_bind (s_err (undo_audio_swap st p)) (\<lambda>r. s_return [restored, r]))) (\<lambda>_. ?U) (\<lambda>_. ?U)"
    by (rule always_bind [OF returned]) (rule undone)
  show "always ?R ?S (if pl_artwork_mode p \<noteq> Mode_Replace then s_return ()
      else s_then (rename_or ''retire previous Album Artwork'' (pl_previous_artwork p) (pl_retired_artwork p)
          (s_bind (s_err (undo_audio_swap st p)) (\<lambda>r. s_return [r])))
        (rename_or ''place replacement Album Artwork'' (pl_pending_artwork p) (pl_artwork p)
          (s_bind (s_err (restore_rooted_file st (pl_retired_artwork p) (pl_previous_artwork p))) (\<lambda>restored.
           s_bind (s_err (undo_audio_swap st p)) (\<lambda>r. s_return [restored, r]))))) (\<lambda>_. ?S) (\<lambda>_. ?U)"
    by (intro always_if always_return always_then [where R = ?S] always_rename_or move undone second)
      (use a in \<open>auto simp: apart_def moved_paths_def\<close>)
qed

text \<open>Reading the new file back at its path shows that it is there.\<close>

lemma read_swapped:
  "always (recoverable st p path j) (swapped st p path j) (verify_rooted_file_hash st (pl_audio p) (rj_audio_sha256 j) never)
     (\<lambda>_. readable st p path j) (\<lambda>_. swapped st p path j)"
  unfolding verify_rooted_file_hash_def
proof (rule always_then)
  let ?R = "recoverable st p path j" and ?S = "swapped st p path j"
  show "always ?R ?S (reject_symlinks st (pl_audio p)) (\<lambda>_. ?S) (\<lambda>_. ?S)"
    by (rule keeps_swapped [of "{}"]) (auto intro: confined_reject_symlinks confined_view)
  have r: "always ?R ?S (s_map_err (io_err ''open Managed Storage file for verification'') (read_file (pl_audio p)))
      (\<lambda>c t d. ?S t d \<and> fmlookup t (pl_audio p) = Some (File c)) (\<lambda>_. ?S)"
    unfolding read_file_def
    by (rule always_map_err, rule always_file) (auto dest: swapped_recoverable split: option.splits node.splits)
  show "always ?R ?S (s_bind (s_map_err (io_err ''open Managed Storage file for verification'') (read_file (pl_audio p))) (\<lambda>content.
        s_bind (s_poll never) (\<lambda>is_cancelled.
         if is_cancelled then s_fail (err_context ''hash Managed Storage file'' (err_sentinel Import_Cancelled))
         else if st_sha256 st content \<noteq> rj_audio_sha256 j
           then s_fail (err_new (''verify Managed Storage file hash: got '' @ st_sha256 st content @ '', want '' @ rj_audio_sha256 j))
         else s_return ()))) (\<lambda>_. readable st p path j) (\<lambda>_. ?S)"
    by (rule always_bind [OF r], rule always_bind [where R = "\<lambda>b. if b then (\<lambda>_ _. False) else (\<lambda>t d. ?S t d \<and> fmlookup t (pl_audio p) = Some (File x))" for x])
      (auto simp: always_def s_poll_def never_def s_fail_def s_return_def readable_def new_in_place_def sha_at_def)
qed

text \<open>
  The database side of a Track Replacement: no other statement of the commit touches the row that
  names the file, and the transaction that writes it moves the journal past its commit.
\<close>

subsection \<open>Statements that leave tracks, sources and journals alone\<close>

definition same_rows :: "db \<Rightarrow> db \<Rightarrow> bool" where
  "same_rows d d' \<longleftrightarrow> db_sources d' = db_sources d \<and> db_replacements d' = db_replacements d \<and> db_commits d' = db_commits d
     \<and> db_tracks d' = db_tracks d \<and> db_deletions d' = db_deletions d"

lemma same_rows_refl [simp]: "same_rows d d"
  by (simp add: same_rows_def)

lemma same_rows_trans: "same_rows d d' \<Longrightarrow> same_rows d' d'' \<Longrightarrow> same_rows d d''"
  by (simp add: same_rows_def)

lemma sql_rows: "sql operation f d = Inr d' \<Longrightarrow> (\<And>x. same_rows x (f x)) \<Longrightarrow> same_rows d d'"
  by (auto dest!: sql_ok)

lemma sql_one_rows: "sql_one operation P table f d = Inr d' \<Longrightarrow> (\<And>x. same_rows x (f x)) \<Longrightarrow> same_rows d d'"
  by (auto dest!: sql_one_ok)

lemma fold_rows_keeps:
  assumes "\<And>x s s'. f x s = Inr s' \<Longrightarrow> same_rows (g s) (g s')"
  shows "fold_rows f xs s = Inr s' \<Longrightarrow> same_rows (g s) (g s')"
  by (induction xs arbitrary: s) (auto simp: and_then_Inr_iff dest!: assms intro: same_rows_trans)

lemma fresh_rows: "fresh d = (i, d') \<Longrightarrow> same_rows d d'"
  by (auto simp: fresh_def same_rows_def)

lemma context_of_Inr [simp]: "context_of c r = Inr x \<longleftrightarrow> r = Inr x"
  by (simp add: context_of_def split: sum.split)

lemma upsert_artist_rows: "upsert_artist env pr i name s = Inr s' \<Longrightarrow> same_rows (snd s) (snd s')"
  by (cases s)
    (auto simp: upsert_artist_def Let_def and_then_Inr_iff same_rows_def fresh_def dest!: sql_ok split: if_splits list.splits)

lemma upsert_artists_rows: "upsert_artists env a b i d = Inr (ids, d') \<Longrightarrow> same_rows d d'"
  unfolding upsert_artists_def
  by (drule fold_rows_keeps [where g = snd, rotated]) (auto intro: upsert_artist_rows)

lemma upsert_album_rows: "upsert_album_for env cd ids d = Inr d' \<Longrightarrow> same_rows d d'"
  by (auto simp: upsert_album_for_def Let_def and_then_Inr_iff same_rows_def dest!: sql_ok split: if_splits list.splits)

lemma insert_track_credits_rows: "insert_track_artist_credits env i names ids d = Inr d' \<Longrightarrow> same_rows d d'"
  unfolding insert_track_artist_credits_def
  by (drule fold_rows_keeps [where g = "\<lambda>d. d", rotated]) (auto simp: and_then_Inr_iff same_rows_def dest!: sql_ok)

lemma insert_album_credits_rows: "insert_album_artist_credits env i names ids d = Inr d' \<Longrightarrow> same_rows d d'"
  unfolding insert_album_artist_credits_def
  by (drule fold_rows_keeps [where g = "\<lambda>d. d", rotated]) (auto simp: and_then_Inr_iff same_rows_def dest!: sql_ok split: if_splits)

lemma upsert_genre_rows: "upsert_genre env name d = Inr (g, d') \<Longrightarrow> same_rows d d'"
  by (auto simp: upsert_genre_def Let_def and_then_Inr_iff same_rows_def fresh_def dest!: sql_ok split: list.splits)

lemma insert_genres_rows: "insert_genres env i names d = Inr d' \<Longrightarrow> same_rows d d'"
  unfolding insert_genres_def
  by (drule fold_rows_keeps [where g = "\<lambda>d. d", rotated])
    (auto simp: and_then_Inr_iff same_rows_def dest!: upsert_genre_rows sql_ok)

lemma insert_relationships_rows: "insert_relationships env cd ids d = Inr d' \<Longrightarrow> same_rows d d'"
  by (auto simp: insert_relationships_def Let_def and_then_Inr_iff
      dest!: insert_album_credits_rows insert_track_credits_rows insert_genres_rows intro: same_rows_trans)

lemma insert_artwork_rows: "insert_artwork_for cd d = Inr d' \<Longrightarrow> same_rows d d'"
  by (auto simp: insert_artwork_for_def Let_def same_rows_def fresh_def dest!: sql_ok split: if_splits)

lemma move_artwork_rows: "move_or_delete_artwork_reference i a d = Inr d' \<Longrightarrow> same_rows d d'"
  by (auto simp: move_or_delete_artwork_reference_def same_rows_def dest!: sql_ok split: list.splits)

lemma delete_album_rows: "delete_album_if_empty a d = Inr d' \<Longrightarrow> same_rows d d'"
  by (auto simp: delete_album_if_empty_def cascade_album_def same_rows_def dest!: sql_ok split: if_splits)

lemma delete_artists_rows: "delete_unreferenced_artists ids d = Inr d' \<Longrightarrow> same_rows d d'"
  unfolding delete_unreferenced_artists_def
  by (drule fold_rows_keeps [where g = "\<lambda>d. d", rotated]) (auto simp: same_rows_def dest!: sql_ok split: if_splits)

lemma advance_queues_rows: "advance_queues qs d = Inr (r, d') \<Longrightarrow> same_rows d d'"
  unfolding advance_queues_def
  by (drule fold_rows_keeps [where g = snd, rotated])
    (auto simp: advance_queue_def Let_def and_then_Inr_iff same_rows_def dest!: sql_ok split: prod.splits)

lemma write_artwork_rows: "write_replacement_artwork cd tg mode d = Inr d' \<Longrightarrow> same_rows d d'"
  by (auto simp: write_replacement_artwork_def Let_def same_rows_def dest!: sql_one_ok insert_artwork_rows split: artwork_mode.splits)

lemma archive_rows: "archive_standalone time newer i terminal d = Inr d' \<Longrightarrow> same_rows d d'"
  by (auto simp: archive_standalone_def and_then_Inr_iff same_rows_def dest!: sql_ok insert_history_frame split: list.splits)

lemma same_rows_open: "same_rows d d' \<Longrightarrow> open_journals d' = open_journals d \<and> row_is d' = row_is d"
  by (simp add: same_rows_def open_journals_def row_is_def fun_eq_iff)

lemma one_row_update:
  assumes "filter P xs = [r]" "length (filter G xs) = 1" "\<And>x. G x \<Longrightarrow> P x" "\<And>x. P (f x) = P x"
  shows "filter P (update_where G f xs) = [f r]"
proof -
  have "filter G xs = filter G (filter P xs)" using assms(3) by (induction xs) auto
  with assms(1, 2) have "G r" by (auto split: if_splits)
  have "filter P (update_where G f ys) = update_where G f (filter P ys)" for ys
    using assms(3, 4) by (induction ys) (auto simp: update_where_def)
  with assms(1) \<open>G r\<close> show ?thesis by (simp add: update_where_def)
qed

lemma replaced_row:
  assumes u: "update_replaced_track env t cd tg d = Inr d'" and r: "row_is d (tw_track (tg_row tg)) path h"
  shows "row_is d' (tw_track (tg_row tg)) (pf_audio_path (cd_placement cd)) (ins_sha256 (cd_inspection cd))
    \<and> open_journals d' = open_journals d"
proof -
  let ?row = "tg_row tg"
  let ?P = "\<lambda>s. so_track s = tw_track ?row"
  let ?G = "\<lambda>s. so_track s = tw_track ?row \<and> so_revision s = tw_source_revision ?row \<and> so_managed s"
  let ?f = "\<lambda>len s. s\<lparr>so_path := pf_audio_path (cd_placement cd),
        so_sha256 := ins_sha256 (cd_inspection cd), so_format := format (ins_audio (cd_inspection cd)), so_size := len,
        so_revision := so_revision s + 1\<rparr>"
  from u obtain T len where one: "length (filter ?G (db_sources d)) = 1"
    and d': "d' = d\<lparr>db_tracks := T, db_sources := update_where ?G (?f len) (db_sources d)\<rparr>"
    by (auto simp: update_replaced_track_def Let_def and_then_Inr_iff dest!: sql_ok split: if_splits)
  from r obtain s where s: "filter ?P (db_sources d) = [s]" by (auto simp: row_is_def)
  have "filter ?P (db_sources d') = [?f len s]"
    unfolding d' by (simp add: one_row_update [OF s one])
  then show ?thesis by (simp add: row_is_def open_journals_def d')
qed

lemma written_rows:
  assumes w: "write_replacement_data env t cd tg mode d = Inr (r, d')" and o: "row_is d (tw_track (tg_row tg)) path h"
  shows "row_is d' (tw_track (tg_row tg)) (pf_audio_path (cd_placement cd)) (ins_sha256 (cd_inspection cd))
    \<and> open_journals d' = open_journals d"
proof -
  let ?m = "ins_metadata (cd_inspection cd)" and ?i = "cd_identity cd" and ?row = "tg_row tg"
  let ?moves = "id_album ?i \<noteq> tw_album ?row"
  from w obtain ids a b c e f g h k l where
      a: "upsert_artists env (album_artists ?m) (artists ?m) (id_album_artist ?i) d = Inr (ids, a)"
    and b: "upsert_album_for env cd ids a = Inr b"
    and c: "(if ?moves then move_or_delete_artwork_reference (tw_track ?row) (tw_album ?row) b else Inr b) = Inr c"
    and u: "update_replaced_track env t cd tg c = Inr e"
    and f: "sql ''clear replaced Track relationships''
             (\<lambda>d. d\<lparr>db_track_artists := delete_where (\<lambda>c. cr_owner c = tw_track ?row) (db_track_artists d)\<rparr>) e = Inr f"
    and g: "sql ''clear replaced Track relationships''
             (\<lambda>d. d\<lparr>db_track_genres := delete_where (\<lambda>g. tg_track g = tw_track ?row) (db_track_genres d)\<rparr>) f = Inr g"
    and h: "insert_relationships env cd ids g = Inr h"
    and k: "write_replacement_artwork cd tg mode h = Inr k"
    and l: "(if ?moves then context_of ''delete emptied Album after Track Replacement'' (delete_album_if_empty (tw_album ?row) k) else Inr k) = Inr l"
    and rest: "\<exists>n. delete_unreferenced_artists (track_and_album_artist_ids (tw_track ?row) (tw_album ?row) b) l = Inr n
        \<and> advance_queues (tg_queues tg) n = Inr (r, d')"
    unfolding write_replacement_data_def Let_def and_then_Inr_iff by (auto simp: and_then_Inr_iff)
  have "same_rows b c" using c by (auto dest: move_artwork_rows split: if_splits)
  with upsert_artists_rows [OF a] upsert_album_rows [OF b] have before: "same_rows d c" by (blast intro: same_rows_trans)
  have "same_rows e f" "same_rows f g" using f g by (auto dest!: sql_ok simp: same_rows_def)
  moreover have "same_rows k l" using l by (auto dest: delete_album_rows split: if_splits)
  ultimately have "same_rows e d'"
    using insert_relationships_rows [OF h] write_artwork_rows [OF k] rest
    by (blast dest: delete_artists_rows advance_queues_rows intro: same_rows_trans)
  then show ?thesis using replaced_row [OF u] o same_rows_open [OF before] by (simp add: same_rows_open)
qed

end
