(* ===== verification/Replacement_Recovery.thy ===== *)
theory Replacement_Recovery
  imports Replacement_Runs
begin

text \<open>
  The whole of a Track Replacement: the commit from its journal to its end, any number of
  restarts after it, and what is then true of the Track's file.
\<close>

subsection \<open>Committing\<close>

lemma open_in: "k \<in> set (db_replacements d) \<Longrightarrow> active_replacement k \<Longrightarrow> k \<in> set (open_journals d)"
  by (simp add: open_journals_def)

lemma data_step:
  assumes "pf_audio_path (cd_placement cd) = rj_audio_path j" "ins_sha256 (cd_inspection cd) = rj_audio_sha256 j"
    and "tw_track (tg_row tg) = rj_track j"
  shows "always (recoverable st p path j) (readable st p path j) (commit_replacement_data env cd tg q i)
     (\<lambda>_. committed st p j) (\<lambda>_ t d. readable st p path j t d \<or> committed st p j t d)"
proof -
  have c: "committed st p j t d2"
    if r: "readable st p path j t d" and w: "write_replacement_data env t cd tg (pl_artwork_mode q) d = Inr (inv, d1)"
      and u: "update_journal op i (\<lambda>j. rj_phase j = R_Swapped) (rj_phase_update (\<lambda>_. R_Database_Committed)) d1 = Inr d2"
    for t d d1 d2 op inv
  proof -
    from r have o: "row_is d (tw_track (tg_row tg)) path (rj_previous_sha256 j)" and jn: "journal_in before_commit j d"
      and n: "new_in_place st p j t" by (auto simp: state_defs row_of_old_def assms(3))
    from written_rows [OF w o] have d1: "row_is d1 (rj_track j) (rj_audio_path j) (rj_audio_sha256 j)" "open_journals d1 = open_journals d"
      using assms by simp_all
    from jn d1(2) have "journal_in before_commit j d1" by (simp add: journal_in_def)
    from update_journal_in [OF u this, where Y = "\<lambda>x. x = R_Database_Committed"]
    have "db_sources d2 = db_sources d1 \<and> journal_in (\<lambda>x. x = R_Database_Committed) j d2"
      by (auto simp: journal_core_def active_replacement_def)
    with d1(1) n show ?thesis by (auto simp: committed_def row_of_new_def row_is_def)
  qed
  show ?thesis unfolding commit_replacement_data_def tx_def
    by (rule always_tx) (auto simp: and_then_Inr_iff intro: c swapped_recoverable readable_swapped)
qed

lemma persisted_step:
  "always (recoverable st p path j) (\<lambda>t d. readable st p path j t d \<or> committed st p j t d) (get_replacement_journal i)
     (\<lambda>k t d. if rj_phase k = R_Swapped then readable st p path j t d else recoverable st p path j t d)
     (\<lambda>_. recoverable st p path j)"
proof -
  have r: "readable st p path j t d \<Longrightarrow> recoverable st p path j t d" for t d by (simp add: towards_recoverable)
  have c: "committed st p j t d \<Longrightarrow> filter (\<lambda>j. rj_id j = i) (db_replacements d) = k # ks \<Longrightarrow> rj_phase k \<noteq> R_Swapped" for t d k ks
  proof
    assume c: "committed st p j t d" and f: "filter (\<lambda>j. rj_id j = i) (db_replacements d) = k # ks" and s: "rj_phase k = R_Swapped"
    from f have "k \<in> set (filter (\<lambda>j. rj_id j = i) (db_replacements d))" by simp
    then have "k \<in> set (open_journals d)" using s by (auto intro: open_in simp: active_replacement_def)
    with c s show False by (auto simp: committed_def journal_in_def)
  qed
  show ?thesis unfolding get_replacement_journal_def
    by (rule always_query) (auto dest: r c committed_recoverable split: list.splits)
qed

subsection \<open>Completing\<close>

lemma confined_complete:
  assumes D: "reflp D" "transp D" and audio: "\<And>r. relative_path st (rj_retired_audio k) = Inr r \<Longrightarrow> r \<in> S"
    and art: "\<And>a r. a \<in> {rj_retired_artwork k, rj_previous_artwork k} \<Longrightarrow> a \<noteq> [] \<Longrightarrow> relative_path st a = Inr r \<Longrightarrow> r \<in> S"
    and dirs: "set (ancestors (parent_path (pl_previous_audio p))) \<subseteq> S"
  shows "confined S D (complete_replacement_files st c k p)"
proof -
  have rest: "confined S D (s_bind (s_err (open_root st)) (\<lambda>opened.
        case opened of
          Some e \<Rightarrow> s_return (deleted, result_of (err_join [failure, Some e]))
        | None \<Rightarrow> s_bind (drop_empty_directories st (pl_previous_audio p)) (\<lambda>d. s_return (deleted, result_of (err_join [failure, d])))))"
    for deleted :: int and failure
    using D dirs by (auto intro!: confined_bind confined_err confined_open_root confined_return confined_drop_empty split: option.split)
  have a: "confined S D (remove_managed_file st c a h)"
    if "a = (if rj_retired_artwork k = [] then rj_previous_artwork k else rj_retired_artwork k)" "a \<noteq> []" for a h
    by (rule confined_remove_managed [OF D]) (use that art in \<open>auto split: if_splits\<close>)
  show ?thesis unfolding complete_replacement_files_def Let_def
    by (intro confined_bind confined_try confined_remove_managed D audio)
      (auto intro!: D confined_return rest confined_bind confined_try a split: sum.split bool.split)
qed

lemma core_fields:
  assumes "journal_core k = journal_core j"
  shows "rj_track k = rj_track j" "rj_retired_audio k = rj_retired_audio j" "rj_previous_audio k = rj_previous_audio j"
    "rj_previous_artwork k = rj_previous_artwork j" "rj_retired_artwork k = rj_retired_artwork j"
    "rj_previous_sha256 k = rj_previous_sha256 j" "rj_audio_sha256 k = rj_audio_sha256 j" "rj_audio_path k = rj_audio_path j"
    "rj_staged_path k = rj_staged_path j" "rj_pending_audio k = rj_pending_audio j" "rj_pending_artwork k = rj_pending_artwork j"
    "rj_artwork_path k = rj_artwork_path j" "rj_artwork_mode k = rj_artwork_mode j"
  using assms by (auto simp: journal_core_def dest: arg_cong [where f = rj_track] arg_cong [where f = rj_retired_audio]
      arg_cong [where f = rj_previous_audio] arg_cong [where f = rj_previous_artwork] arg_cong [where f = rj_retired_artwork]
      arg_cong [where f = rj_previous_sha256] arg_cong [where f = rj_audio_sha256] arg_cong [where f = rj_audio_path]
      arg_cong [where f = rj_staged_path] arg_cong [where f = rj_pending_audio] arg_cong [where f = rj_pending_artwork]
      arg_cong [where f = rj_artwork_path] arg_cong [where f = rj_artwork_mode])

lemma journal_placement:
  assumes "replacement_placement_from_journal st j = Inr p" "journal_core k = journal_core j"
  shows "replacement_placement_from_journal st k = Inr (p\<lparr>pl_artwork_created := rj_artwork_created k\<rparr>)"
  using assms(1) by (auto simp: replacement_placement_from_journal_def and_then_Inr_iff core_fields [OF assms(2)])

lemma journal_paths:
  assumes "replacement_placement_from_journal st j = Inr p"
  shows "optional_relative_path st (rj_retired_audio j) = Inr (pl_retired_audio p)"
    "optional_relative_path st (rj_previous_artwork j) = Inr (pl_previous_artwork p)"
    "optional_relative_path st (rj_retired_artwork j) = Inr (pl_retired_artwork p)"
    "optional_relative_path st (rj_audio_path j) = Inr (pl_audio p)"
  using assms by (auto simp: replacement_placement_from_journal_def and_then_Inr_iff)

lemma created_same [simp]:
  "apart (p\<lparr>pl_artwork_created := b\<rparr>) = apart p"
  "placing st (p\<lparr>pl_artwork_created := b\<rparr>) = placing st p" "swapped st (p\<lparr>pl_artwork_created := b\<rparr>) = swapped st p"
  "readable st (p\<lparr>pl_artwork_created := b\<rparr>) = readable st p" "resting st (p\<lparr>pl_artwork_created := b\<rparr>) = resting st p"
  "committed st (p\<lparr>pl_artwork_created := b\<rparr>) = committed st p" "finished st (p\<lparr>pl_artwork_created := b\<rparr>) = finished st p"
  "undoable st (p\<lparr>pl_artwork_created := b\<rparr>) = undoable st p" "recoverable st (p\<lparr>pl_artwork_created := b\<rparr>) = recoverable st p"
  by (simp_all add: fun_eq_iff apart_def moved_paths_def touched_directories_def state_defs old_in_place_def old_retired_def
      new_in_place_def)

lemma finalized_step:
  "always (recoverable st p path j) (committed st p j) (finalize_replacement env jb i)
     (\<lambda>_. finished st p j) (\<lambda>_. recoverable st p path j)"
proof -
  have f: "finished st p j t d3"
    if c: "committed st p j t d" and m: "sql_one op is_job db_jobs (\<lambda>d. d\<lparr>db_jobs := g d\<rparr>) d = Inr d1"
      and u: "update_journal op' i (\<lambda>j. rj_phase j = R_Database_Committed) h d1 = Inr d2"
      and h: "\<And>k. rj_phase (h k) = R_Completed" and a: "archive_standalone time newer x y d2 = Inr d3"
    for t d d1 d2 d3 op op' is_job g h time newer x y
  proof -
    from m have d1: "same_rows d d1" by (auto dest!: sql_one_ok simp: same_rows_def)
    from c obtain k where k: "open_journals d = [k]" by (auto simp: committed_def journal_in_def)
    with d1 have "open_journals d1 = [k]" by (simp add: same_rows_open)
    from update_journal_open [OF u this] have "db_sources d2 = db_sources d1 \<and> open_journals d2 = []"
      using h by (auto simp: active_replacement_def)
    with same_rows_open [OF archive_rows [OF a]] same_rows_open [OF d1] c show ?thesis
      by (auto simp: finished_def committed_def row_of_new_def dest!: row_is_cong)
  qed
  show ?thesis unfolding finalize_replacement_def Let_def tx_def
    by (rule always_tx) (auto simp: and_then_Inr_iff committed_recoverable recoverable_def intro: f)
qed

lemma complete_step:
  assumes a: "apart p" and j: "replacement_placement_from_journal (se_storage env) j = Inr p" and k: "journal_core k = journal_core j"
  shows "always (recoverable (se_storage env) p path j) (committed (se_storage env) p j)
     (complete_replacement env jb k (p\<lparr>pl_artwork_created := b\<rparr>))
     (\<lambda>_. finished (se_storage env) p j) (\<lambda>_. recoverable (se_storage env) p path j)"
  unfolding complete_replacement_def
proof (rule always_bind)
  let ?st = "se_storage env"
  let ?R = "recoverable ?st p path j" and ?C = "committed ?st p j"
  have "confined (set (pl_retired_audio p # moved_paths p @ touched_directories p)) same_view
      (complete_replacement_files ?st never k (p\<lparr>pl_artwork_created := b\<rparr>))"
    using journal_paths [OF j] a
    by (intro confined_complete confined_view)
      (auto simp: apart_def core_fields [OF k] moved_paths_def touched_directories_def optional_relative_path_def split: if_splits)
  then show "always ?R ?C (complete_replacement_files ?st never k (p\<lparr>pl_artwork_created := b\<rparr>)) (\<lambda>_. ?C) (\<lambda>_. ?R)"
    by (rule always_weaken [OF keeps_committed]) (use a in \<open>auto simp: apart_def recoverable_def\<close>)
  fix x
  show "always ?R ?C (case x of (deleted, Inl e) \<Rightarrow> fail_after e (record_replacement_recovery_reason (rj_id k)
                    (''previous file cleanup failed: '' @ err_message e))
       | (deleted, Inr _) \<Rightarrow> s_bind (finalize_replacement env jb (rj_id k)) (\<lambda>r. s_return (r\<lparr>rr_deleted_files := deleted\<rparr>)))
      (\<lambda>_. finished ?st p j) (\<lambda>_. ?R)"
    by (auto split: prod.split sum.split intro!: always_fail_after [OF record_step(2)] always_bind [OF finalized_step] always_return
        simp: recoverable_def)
qed


subsection \<open>A whole replacement\<close>

text \<open>\<open>p\<close> is the placement planned for \<open>x\<close>, \<open>j\<close> the journal that names its paths.\<close>

definition replacing :: "service_env \<Rightarrow> string \<Rightarrow> job \<Rightarrow> replacement_state \<Rightarrow> placement \<Rightarrow> replacement_journal \<Rightarrow> bool" where
  "replacing env uuid jb x p j \<longleftrightarrow> apart p \<and> xs_placement x = p \<and> j = replacement_journal_of env uuid jb x
     \<and> replacement_placement_from_journal (se_storage env) j = Inr p"

lemma replacing_facts:
  assumes "replacing env uuid jb x p j"
  shows "apart p" "xs_placement x = p" "rj_phase j = R_Prepared" "ins_sha256 (xs_inspection x) = rj_audio_sha256 j"
    "pl_audio_path p = rj_audio_path j" "tw_track (tg_row (xs_target x)) = rj_track j"
  using assms by (auto simp: replacing_def replacement_journal_of_def Let_def)

lemma place_and_verify_step:
  assumes r: "replacing env uuid jb x p j" and st: "se_storage env = st"
  shows "always (recoverable st p path j) (placing st p path j) (place_and_verify_replacement env j x)
      (\<lambda>q t d. (\<exists>b. q = p\<lparr>pl_artwork_created := b\<rparr>) \<and> placing st p path j t d) (\<lambda>_. recoverable st p path j)"
  unfolding place_and_verify_replacement_def Let_def st replacing_facts(2) [OF r]
proof (rule always_bind)
  let ?R = "recoverable st p path j" and ?P = "placing st p path j"
  note a = replacing_facts(1) [OF r]
  show "always ?R ?P (or_else (place_replacement st p (xs_inspection x) (xs_identity x) (Some (mark_replacement_artwork_created (rj_id j))))
             (\<lambda>e. fail_after e (rollback_replacement_journal (rj_id j) ''pending placement failed'')))
     (\<lambda>q t d. (\<exists>b. q = p\<lparr>pl_artwork_created := b\<rparr>) \<and> ?P t d) (\<lambda>_. ?R)"
    by (intro always_or_else [OF place_step [OF a]] always_fail_after [where E' = ?R])
      (auto intro: always_weaken [OF undone_step] simp: recoverable_def)
  fix q
  show "always ?R (\<lambda>t d. (\<exists>b. q = p\<lparr>pl_artwork_created := b\<rparr>) \<and> ?P t d)
     (s_then (advance_replacement_phase env (rj_id j) q R_Prepared R_Placed)
       (s_then (or_else (verify_replacement st q (rj_audio_sha256 j) (rj_artwork_sha256 j))
              (\<lambda>e. fail_after e (rollback_replacement_files env (rj_id j) q ''pending verification failed'')))
       (s_then (advance_replacement_phase env (rj_id j) q R_Placed R_Verified) (s_return q))))
     (\<lambda>q t d. (\<exists>b. q = p\<lparr>pl_artwork_created := b\<rparr>) \<and> ?P t d) (\<lambda>_. ?R)"
  proof (rule always_fact)
    assume q: "\<exists>b. q = p\<lparr>pl_artwork_created := b\<rparr>"
    then have aq: "apart q" and eq: "recoverable st q = recoverable st p" "placing st q = placing st p" "undoable st q = undoable st p"
      using a by auto
    have adv: "always ?R ?P (advance_replacement_phase env (rj_id j) q u v) (\<lambda>_. ?P) (\<lambda>_. ?R)"
      if "before_commit u" "before_commit v" for u v
      using advance_step(1) [OF aq st that, of path j "rj_id j"] by (simp add: eq)
    have ver: "always ?R ?P (or_else (verify_replacement st q (rj_audio_sha256 j) (rj_artwork_sha256 j))
              (\<lambda>e. fail_after e (rollback_replacement_files env (rj_id j) q ''pending verification failed''))) (\<lambda>_. ?P) (\<lambda>_. ?R)"
      by (rule always_or_else [OF verify_step])
        (use undo_after [OF aq st, of ?P path j] in \<open>simp add: eq placing_undoable\<close>)
    show "always ?R ?P
     (s_then (advance_replacement_phase env (rj_id j) q R_Prepared R_Placed)
       (s_then (or_else (verify_replacement st q (rj_audio_sha256 j) (rj_artwork_sha256 j))
              (\<lambda>e. fail_after e (rollback_replacement_files env (rj_id j) q ''pending verification failed'')))
       (s_then (advance_replacement_phase env (rj_id j) q R_Placed R_Verified) (s_return q))))
     (\<lambda>q t d. (\<exists>b. q = p\<lparr>pl_artwork_created := b\<rparr>) \<and> ?P t d) (\<lambda>_. ?R)"
      by (intro always_then [OF adv] always_then [OF ver] always_return) (use q in \<open>auto simp: before_commit_def\<close>)
  qed
qed

lemma keeps_readable:
  assumes "confined {} same_view m"
  shows "always (recoverable st p path j) (readable st p path j) m (\<lambda>_. readable st p path j) (\<lambda>_. swapped st p path j)"
  by (rule always_weaken, rule always_confined [OF assms, where P = "readable st p path j" and I = "recoverable st p path j"])
    (auto simp: state_defs row_of_old_def old_retired_def new_in_place_def sha_at_def same_view_rows intro: same_view_journal_in)

lemma stream_step:
  assumes sha: "h = rj_audio_sha256 j"
  shows "always (recoverable st p path j) (swapped st p path j) (stream_swapped_replacement st p h)
     (\<lambda>_. readable st p path j) (\<lambda>_. swapped st p path j)"
proof -
  let ?R = "recoverable st p path j" and ?S = "swapped st p path j" and ?D = "readable st p path j"
  have opened: "always ?R ?S (open_root st) (\<lambda>_. ?S) (\<lambda>_. ?S)"
    by (rule keeps_swapped [of "{}"]) (auto intro: confined_open_root confined_view)
  have verified: "always ?R ?S (s_map_err (err_context ''verify canonical replacement Managed Track'')
     (verify_rooted_file_hash st (pl_audio p) (rj_audio_sha256 j) never)) (\<lambda>_. ?D) (\<lambda>_. ?S)"
    by (rule always_map_err) (rule read_swapped)
  show ?thesis unfolding stream_swapped_replacement_def sha
    by (rule always_then [OF opened], rule always_then [OF verified], rule keeps_readable)
      (intro confined_then confined_map_err confined_file_metadata confined_bind confined_read_file confined_return confined_view)
qed

lemma swap_and_stream_step:
  assumes r: "replacing env uuid jb x p j" and st: "se_storage env = st" and q: "\<exists>b. q = p\<lparr>pl_artwork_created := b\<rparr>"
  shows "always (recoverable st p path j) (placing st p path j) (swap_and_stream_replacement env j q x)
     (\<lambda>_. readable st p path j) (\<lambda>_. recoverable st p path j)"
proof -
  let ?R = "recoverable st p path j" and ?P = "placing st p path j" and ?S = "swapped st p path j"
  from q replacing_facts(1) [OF r] have aq: "apart q" and eq: "recoverable st q = recoverable st p" "placing st q = placing st p"
      "swapped st q = swapped st p" "undoable st q = undoable st p" "readable st q = readable st p" by auto
  have one: "always ?R ?P (or_else (swap_replacement st q)
      (\<lambda>e. fail_after e (rollback_replacement_files env (rj_id j) q ''canonical swap failed''))) (\<lambda>_. ?S) (\<lambda>_. ?R)"
    using always_or_else [OF swap_step [OF aq, of st path j] undo_after [OF aq st]] by (simp add: eq)
  have two: "always ?R ?S (advance_replacement_phase env (rj_id j) q R_Verified R_Swapped) (\<lambda>_. ?S) (\<lambda>_. ?R)"
    using advance_step(2) [OF aq st, of R_Verified R_Swapped path j "rj_id j"] by (simp add: eq before_commit_def)
  have three: "always ?R ?S (stream_swapped_replacement st q (ins_sha256 (xs_inspection x))) (\<lambda>_. readable st p path j) (\<lambda>_. ?S)"
    using stream_step [OF replacing_facts(4) [OF r], of st q path] by (simp add: eq)
  show ?thesis unfolding swap_and_stream_replacement_def Let_def st
    by (intro always_then [OF one] always_then [OF two] always_or_else [OF three])
      (use undo_after [OF aq st, of ?S path j] in \<open>simp add: eq swapped_undoable\<close>)
qed

lemma data_or_undone:
  assumes r: "replacing env uuid jb x p j" and st: "se_storage env = st" and q: "\<exists>b. q = p\<lparr>pl_artwork_created := b\<rparr>"
  shows "always (recoverable st p path j) (readable st p path j)
      (or_else (s_then (commit_replacement_data env (commit_data_of x q) (xs_target x) q (rj_id j)) (s_return ())) (\<lambda>e.
          s_bind (s_try (get_replacement_journal (rj_id j))) (\<lambda>read.
            case read of
              Inl r \<Rightarrow> s_fail (join_with_rest e [Some r])
            | Inr persisted \<Rightarrow>
                if rj_phase persisted = R_Swapped
                then fail_after e (rollback_replacement_files env (rj_id j) q ''database commit failed'')
                else s_fail e))) (\<lambda>_. committed st p j) (\<lambda>_. recoverable st p path j)"
proof -
  let ?R = "recoverable st p path j"
  from q replacing_facts(1) [OF r] have aq: "apart q" and eq: "recoverable st q = recoverable st p" "undoable st q = undoable st p" by auto
  have d: "always ?R (readable st p path j) (s_then (commit_replacement_data env (commit_data_of x q) (xs_target x) q (rj_id j)) (s_return ()))
      (\<lambda>_. committed st p j) (\<lambda>_ t d. readable st p path j t d \<or> committed st p j t d)"
    by (rule always_then [OF data_step]) (use q replacing_facts [OF r] in \<open>auto simp: commit_data_of_def intro: always_return\<close>)
  show ?thesis
  proof (rule always_or_else [OF d], rule always_handle [OF persisted_step])
    show "always ?R ?R (s_fail (join_with_rest e [Some r])) (\<lambda>_. committed st p j) (\<lambda>_. ?R)" for e r by (rule always_fail)
    show "always ?R (\<lambda>t d. if rj_phase k = R_Swapped then readable st p path j t d else ?R t d)
        (if rj_phase k = R_Swapped then fail_after e (rollback_replacement_files env (rj_id j) q ''database commit failed'') else s_fail e)
        (\<lambda>_. committed st p j) (\<lambda>_. ?R)" for e k
      using undo_after [OF aq st, of "readable st p path j" path j] by (auto simp: eq towards_recoverable intro: always_fail)
  qed
qed

lemma committing:
  assumes r: "replacing env uuid jb x p j" and st: "se_storage env = st"
  shows "always (recoverable st p path j) (resting st p path j) (commit_replacement env uuid jb x)
     (\<lambda>_. finished st p j) (\<lambda>_. recoverable st p path j)"
proof -
  note a = replacing_facts(1) [OF r]
  from r have j: "j = replacement_journal_of env uuid jb x" and path: "replacement_placement_from_journal (se_storage env) j = Inr p"
    unfolding replacing_def by blast+
  show ?thesis unfolding commit_replacement_def Let_def j [symmetric]
    apply (rule always_then [OF created_step [OF replacing_facts(3) [OF r]]])
    apply (rule always_bind [OF place_and_verify_step [OF r st]], rule always_fact)
    apply (rule always_then [OF swap_and_stream_step [OF r st]], assumption)
    apply (rule always_then [OF data_or_undone [OF r st]], assumption)
    using complete_step [OF a path, of j path jb] unfolding st by (auto simp: st)
qed

subsection \<open>Recovering\<close>

lemma recoverable_open:
  assumes "recoverable st p path j t d" "open_journals d = [k]"
  shows "before_commit (rj_phase k) \<Longrightarrow> undoable st p path j t d"
    and "rj_phase k = R_Database_Committed \<Longrightarrow> committed st p j t d"
  using assms by (auto simp: state_defs journal_in_def before_commit_def)

lemma resting_recoverable: "resting st p path j t d \<Longrightarrow> recoverable st p path j t d"
  by (simp add: recoverable_def)

lemma recovering:
  assumes a: "apart p" and path: "replacement_placement_from_journal st j = Inr p" and st: "se_storage env = st"
  shows "always (recoverable st p path j) (\<lambda>t d. recoverable st p path j t d \<and> open_journals d = [k]) (recover_replacement env k)
     (\<lambda>_. recoverable st p path j) (\<lambda>_. recoverable st p path j)"
proof (cases "journal_core k = journal_core j \<and> active_replacement k")
  case False
  have "\<not> (recoverable st p path j t d \<and> open_journals d = [k])" for t d
  proof
    assume x: "recoverable st p path j t d \<and> open_journals d = [k]"
    then have "k \<in> set (open_journals d)" by simp
    then have "active_replacement k" by (simp add: open_journals_def)
    with x False show False by (auto simp: state_defs journal_in_def)
  qed
  then show ?thesis by (intro always_pre [OF always_never]) blast
next
  case True
  let ?R = "recoverable st p path j"
  obtain b where q: "replacement_placement_from_journal st k = Inr (p\<lparr>pl_artwork_created := b\<rparr>)"
    using journal_placement [OF path] True by blast
  let ?q = "p\<lparr>pl_artwork_created := b\<rparr>"
  show ?thesis
  proof (cases "before_commit (rj_phase k)")
    case before: True
    have "always ?R (\<lambda>t d. ?R t d \<and> open_journals d = [k]) (rollback_replacement_files env (rj_id k) ?q reason) (\<lambda>_. ?R) (\<lambda>_. ?R)"
      for reason
      by (rule always_weaken [OF rollback_files_step [of ?q env st path j "rj_id k" reason, unfolded created_same]])
        (use a st before in \<open>auto dest: recoverable_open intro: resting_recoverable\<close>)
    then show ?thesis unfolding recover_replacement_def st q using before by simp
  next
    case after: False
    then have ph: "rj_phase k = R_Database_Committed" using True by (auto simp: before_commit_def active_replacement_def)
    have job: "always ?R (committed st p j) (get_job i) (\<lambda>_. committed st p j) (\<lambda>_. ?R)" for i
      unfolding get_job_def by (rule always_query) (auto simp: recoverable_def)
    have comp: "always ?R (committed st p j) (complete_replacement env jb k ?q) (\<lambda>_. finished st p j) (\<lambda>_. ?R)" for jb
      using complete_step [OF a _ conjunct1 [OF True], of env path jb b] path st by simp
    have "always ?R (committed st p j) (s_bind (get_job (rj_job k)) (\<lambda>jb. s_then (complete_replacement env jb k ?q) (s_return ())))
        (\<lambda>_. ?R) (\<lambda>_. ?R)"
      by (intro always_bind [OF job] always_then [OF comp] always_return) (simp add: recoverable_def)
    then show ?thesis unfolding recover_replacement_def st q using ph after
      by (auto elim!: always_pre dest: recoverable_open)
  qed
qed

lemma recovering_all:
  assumes a: "apart p" and path: "replacement_placement_from_journal st j = Inr p" and st: "se_storage env = st"
  shows "always (recoverable st p path j) (recoverable st p path j) (recover_pending_track_replacements env)
     (\<lambda>_. recoverable st p path j) (\<lambda>_. recoverable st p path j)"
  unfolding recover_pending_track_replacements_def
proof (rule always_bind)
  let ?R = "recoverable st p path j"
  show "always ?R ?R incomplete_replacement_journals (\<lambda>js t d. ?R t d \<and> open_journals d = js) (\<lambda>_. ?R)"
    unfolding incomplete_replacement_journals_def by (rule always_query) (auto simp: open_journals_def)
  fix js
  have one: "\<exists>k. js = [] \<or> js = [k]" if "?R t d" "open_journals d = js" for t d
    using that by (auto simp: state_defs journal_in_def)
  show "always ?R (\<lambda>t d. ?R t d \<and> open_journals d = js) (recover_each env js []) (\<lambda>_. ?R) (\<lambda>_. ?R)"
  proof (cases "\<exists>k. js = [] \<or> js = [k]")
    case True
    have "always ?R (\<lambda>t d. ?R t d \<and> open_journals d = [k]) (recover_each env [k] []) (\<lambda>_. ?R) (\<lambda>_. ?R)" for k
      unfolding recover_each.simps
      by (rule always_noted [where R = "\<lambda>_. ?R"], rule always_map_err, rule recovering [OF a path st]) (auto intro: always_result)
    with True show ?thesis by (auto intro: always_result)
  next
    case False
    then have "\<not> (?R t d \<and> open_journals d = js)" for t d using one by blast
    then show ?thesis by (intro always_pre [OF always_never]) blast
  qed
qed

text \<open>
  A small library with one Managed Track and an upload that replaces it, on which the properties of
  Track Replacement are evaluated: the digest of a file is its contents.
\<close>

definition demo_storage :: storage where
  "demo_storage = \<lparr>st_root = [''m''], st_init_error = None, st_reserve = 0, st_file_limit = 1000, st_batch_limit = 1000,
     st_cwd = ''/'', st_capacity = (\<lambda>_. Inr 100000), st_debug = (\<lambda>s. s), st_sha256 = (\<lambda>c. c),
     st_ids = \<lparr>nfc = (\<lambda>s. s), char_upper = (\<lambda>c. [c]), char_lower = (\<lambda>c. [if 65 \<le> c \<and> c \<le> 90 then c + 32 else c]), str_lower = ascii_lower, case_fold = (\<lambda>s. s)\<rparr>\<rparr>"

definition demo_service :: service_env where
  "demo_service = \<lparr>se_storage = demo_storage, se_mtime = (\<lambda>_. 0), se_time = (\<lambda>s. s), se_newer = (\<lambda>_ _. False), se_quote = (\<lambda>_. [])\<rparr>"

definition demo_inspection :: "string \<Rightarrow> media_inspection" where
  "demo_inspection h = \<lparr>
     ins_metadata = \<lparr>album_identity_key = [], md_title = txt_of ''Song'', artists = [txt_of ''A''], album_artists = [txt_of ''A''],
       md_album = txt_of ''B'', track_position = \<lparr>number = 1, total = 0\<rparr>, disc_position = \<lparr>number = 1, total = 0\<rparr>,
       has_disc_number = True, genres = [], year = 0, md_replay_gain = no_replay_gain, lyrics = []\<rparr>,
     ins_artwork = artwork_default,
     ins_audio = \<lparr>format = ''mp3'', container = ''mp3'', codec = ''mp3'', duration_ms = 1000, sample_rate_hz = 44100, channel_count = 2,
       bit_depth = 0, bitrate_kbps = 320\<rparr>,
     ins_sha256 = h\<rparr>"

definition demo_identity :: commit_identity where
  "demo_identity = \<lparr>id_album_artist = ''1'', id_album = ''2'', id_track = ''3'', id_artwork_path = [], id_artwork_sha256 = []\<rparr>"

definition demo_target :: target where
  "demo_target = \<lparr>tg_row = \<lparr>tw_track = ''3'', tw_album = ''2'', tw_file_path = ''/m/library/a-1/old-2/01-01-song-3.flac'', tw_sha256 = ''old'',
     tw_artwork_path = [], tw_artwork_sha256 = [], tw_size = 3, tw_track_revision = 1, tw_source_revision = 1, tw_is_sole_track = True\<rparr>,
     tg_relative_path = ''library/a-1/old-2/01-01-song-3.flac'', tg_queues = []\<rparr>"

definition demo_placement :: placement where
  "demo_placement = (case plan_replacement_placement demo_storage ''/m/.staging/u'' (demo_inspection ''new'') demo_identity
       (storage_target demo_target) of Inr p \<Rightarrow> p)"



definition demo_job :: job where
  "demo_job = \<lparr>jb_id = ''j'', jb_status = Awaiting_Confirmation, jb_revision = 1, jb_error_code = [], jb_track = [],
     jb_replace_track = ''3'', jb_plan_json = [], jb_issues = [], jb_batch = [], jb_client_file = [], jb_filename = ''f.mp3'',
     jb_staged_path = ''/m/.staging/u'', jb_sha256 = ''new'', jb_preview_json = [], jb_error_field = [], jb_error_reason = [],
     jb_outcome = [], jb_selected = False, jb_position = 0, jb_created = ''2024'', jb_updated = ''2024''\<rparr>"

definition demo_track :: track where
  "demo_track = (track_blank ''3'' [])\<lparr>tr_album := ''2'', tr_file_path := ''/m/library/a-1/old-2/01-01-song-3.flac'', tr_disc_no := 1, tr_track_no := 1\<rparr>"

definition demo_db :: db where
  "demo_db = \<lparr>db_jobs = [demo_job], db_tracks = [demo_track],
     db_sources = [\<lparr>so_id = ''s'', so_track = ''3'', so_managed = True, so_path = ''/m/library/a-1/old-2/01-01-song-3.flac'', so_sha256 = ''old'',
       so_format = ''flac'', so_size = 3, so_revision = 1\<rparr>],
     db_artists = [\<lparr>ar_id = ''1'', ar_name = txt_of ''A'', ar_sort = txt_of ''A'', ar_normalized = txt_of ''A''\<rparr>],
     db_albums = [\<lparr>al_id = ''2'', al_artist = ''1'', al_title = txt_of ''B'', al_title_sort = txt_of ''B'', al_year = None, al_release_date = None,
       al_genres = [], al_key = txt_of ''K'', al_revision = 1\<rparr>],
     db_track_artists = [\<lparr>cr_owner = ''3'', cr_artist = ''1'', cr_position = 0\<rparr>],
     db_album_artists = [\<lparr>cr_owner = ''2'', cr_artist = ''1'', cr_position = 0\<rparr>],
     db_genres = [], db_track_genres = [], db_artwork = [], db_playlists = [], db_queue = [], db_queue_states = [], db_deletions = [],
     db_commits = [], db_replacements = [], db_history = [], db_uuids = (\<lambda>n. replicate (Suc n) (CHR ''u'')), db_uuid = 0, db_now = ''now''\<rparr>"

definition demo_state :: replacement_state where
  "demo_state = \<lparr>xs_target = demo_target, xs_identity = demo_identity, xs_placement = demo_placement,
     xs_inspection = demo_inspection ''new'', xs_album_key = txt_of ''K''\<rparr>"

definition demo_tree :: tree where
  "demo_tree = fmap_of_list [(''library'', Directory), (''library/a-1'', Directory), (''library/a-1/old-2'', Directory), (''.staging'', Directory),
     (''.staging/u'', File ''new''), (''library/a-1/old-2/01-01-song-3.flac'', File ''old'')]"

definition demo_world :: "(nat \<Rightarrow> fate) \<Rightarrow> db world" where
  "demo_world f = \<lparr>tree = demo_tree, db = demo_db, fates = f, ticks = 0\<rparr>"

end
