(* ===== verification/Replacement_Claims.thy ===== *)
theory Replacement_Claims
  imports Replacement_Recovery
begin

text \<open>
  What a Track Replacement promises (\<open>types.rs\<close>: a crash at any point leaves either the previous
  managed file or the verified replacement usable), stated over the whole of \<open>replacement.rs\<close> and
  the parts of \<open>storage.rs\<close>, \<open>commit.rs\<close> and \<open>deletion.rs\<close> it calls, and a case where recovery never ends.
\<close>

definition file_holds :: "storage \<Rightarrow> tree \<Rightarrow> string \<Rightarrow> string \<Rightarrow> bool" where
  "file_holds st t path h \<longleftrightarrow> (case relative_path st path of Inr r \<Rightarrow> sha_at st t r h | Inl _ \<Rightarrow> False)"

text \<open>The file the database names for a Track is at its path, with its digest.\<close>

definition track_intact :: "storage \<Rightarrow> string \<Rightarrow> tree \<Rightarrow> db \<Rightarrow> bool" where
  "track_intact st track_id t d \<longleftrightarrow>
     (\<exists>s \<in> set (db_sources d). so_track s = track_id \<and> file_holds st t (so_path s) (so_sha256 s))"

text \<open>Or an open journal that is not committed names the path it was moved to.\<close>

definition track_retrievable :: "storage \<Rightarrow> string \<Rightarrow> tree \<Rightarrow> db \<Rightarrow> bool" where
  "track_retrievable st track_id t d \<longleftrightarrow>
     (\<exists>s \<in> set (db_sources d). \<exists>j \<in> set (db_replacements d).
        so_track s = track_id \<and> rj_track j = track_id \<and> before_commit (rj_phase j)
        \<and> rj_previous_sha256 j = so_sha256 s \<and> file_holds st t (rj_retired_audio j) (so_sha256 s))"

text \<open>A confirmed replacement: the placement is the planned one, no replacement is open, the row of the
  Track is the one that was read, its file is there and nothing is at the retired path.\<close>

definition replacement_ready :: "service_env \<Rightarrow> string \<Rightarrow> job \<Rightarrow> replacement_state \<Rightarrow> tree \<Rightarrow> db \<Rightarrow> bool" where
  "replacement_ready env uuid jb x t d \<longleftrightarrow>
     (let st = se_storage env; p = xs_placement x; row = tg_row (xs_target x); j = replacement_journal_of env uuid jb x
      in replacing env uuid jb x p j \<and> open_journals d = [] \<and> row_is d (tw_track row) (tw_file_path row) (tw_sha256 row)
         \<and> relative_path st (tw_file_path row) = Inr (pl_previous_audio p) \<and> old_in_place st p j t)"

text \<open>Restarts, each with fates of its own.\<close>

fun restarts :: "service_env \<Rightarrow> (nat \<Rightarrow> fate) list \<Rightarrow> db world \<Rightarrow> db world" where
  "restarts env [] w = w"
| "restarts env (f # fs) w = restarts env fs (snd (recover_pending_track_replacements env (w\<lparr>fates := f, ticks := 0\<rparr>)))"

lemma row_source: "row_is d i path h \<Longrightarrow> \<exists>s \<in> set (db_sources d). so_track s = i \<and> so_path s = path \<and> so_sha256 s = h"
proof -
  assume "row_is d i path h"
  then obtain s where s: "filter (\<lambda>s. so_track s = i) (db_sources d) = [s]" "so_path s = path" "so_sha256 s = h"
    by (auto simp: row_is_def)
  then have "s \<in> set (filter (\<lambda>s. so_track s = i) (db_sources d))" by simp
  with s(2, 3) show ?thesis by (intro bexI [of _ s]) auto
qed

lemma recoverable_claim:
  assumes r: "recoverable st p path j t d" and path: "relative_path st path = Inr (pl_previous_audio p)"
    and j: "replacement_placement_from_journal st j = Inr p" and a: "apart p"
  shows "(track_intact st (rj_track j) t d \<or> track_retrievable st (rj_track j) t d)
    \<and> (open_journals d = [] \<longrightarrow> track_intact st (rj_track j) t d)"
proof -
  have ne: "pl_retired_audio p \<noteq> []" "pl_audio p \<noteq> []" using a by (auto simp: apart_def touched_directories_def)
  with journal_paths [OF j] have ret: "relative_path st (rj_retired_audio j) = Inr (pl_retired_audio p)"
    and aud: "relative_path st (rj_audio_path j) = Inr (pl_audio p)"
    by (auto simp: optional_relative_path_def split: if_splits)
  have intact: "row_is d (rj_track j) q h \<Longrightarrow> file_holds st t q h \<Longrightarrow> track_intact st (rj_track j) t d" for q h
    by (drule row_source) (auto simp: track_intact_def)
  have old: "row_of_old path j d \<Longrightarrow> old_in_place st p j t \<Longrightarrow> track_intact st (rj_track j) t d"
    by (rule intact) (auto simp: row_of_old_def old_in_place_def file_holds_def path)
  have new: "row_of_new j d \<Longrightarrow> new_in_place st p j t \<Longrightarrow> track_intact st (rj_track j) t d"
    by (rule intact) (auto simp: row_of_new_def new_in_place_def file_holds_def aud)
  have gone: "track_retrievable st (rj_track j) t d \<and> open_journals d \<noteq> []" if s: "swapped st p path j t d"
  proof -
    from s obtain k where k: "open_journals d = [k]" "journal_core k = journal_core j" "before_commit (rj_phase k)"
      by (auto simp: swapped_def journal_in_def)
    then have "k \<in> set (open_journals d)" by simp
    then have m: "k \<in> set (db_replacements d)" by (simp add: open_journals_def)
    from s obtain c where c: "c \<in> set (db_sources d)" "so_track c = rj_track j" "so_sha256 c = rj_previous_sha256 j"
      by (auto simp: swapped_def row_of_old_def dest!: row_source)
    have "file_holds st t (rj_retired_audio k) (so_sha256 c)"
      using s by (simp add: swapped_def old_retired_def file_holds_def core_fields [OF k(2)] ret c(3))
    then show ?thesis unfolding track_retrievable_def
      using c m k by (auto simp: core_fields [OF k(2)] intro!: bexI [of _ c] bexI [of _ k])
  qed
  show ?thesis using r old new gone by (auto simp: state_defs dest: gone [unfolded swapped_def])
qed

lemma always_world:
  assumes "always I P m (\<lambda>_. I) (\<lambda>_. I)" "P (tree w) (db w)"
  shows "I (tree (snd (m w))) (db (snd (m w)))"
  using alwaysD [OF assms, of "fst (m w)" "snd (m w)"] by (auto split: ending.splits)

lemma restarts_recoverable:
  "apart p \<Longrightarrow> replacement_placement_from_journal (se_storage env) j = Inr p
    \<Longrightarrow> recoverable (se_storage env) p path j (tree w) (db w)
    \<Longrightarrow> recoverable (se_storage env) p path j (tree (restarts env fs w)) (db (restarts env fs w))"
proof (induction env fs w rule: restarts.induct)
  case (2 env f fs w)
  then show ?case
    using always_world [OF recovering_all [OF _ _ refl], of p env j path "w\<lparr>fates := f, ticks := 0\<rparr>"] by simp
qed simp

text \<open>C1: \<open>commit_replacement\<close> and \<open>recover_pending_track_replacements\<close> (\<open>replacement.rs\<close>) never lose the
  Track's file: whatever fails, wherever the commit and any number of restarts after it are cut
  short, the file the database names is at its path with its digest, or, while the journal is not
  committed, at the retired path the journal names; and it is at its path when no journal is open.\<close>

theorem replacement_never_loses_the_file:
  assumes "replacement_ready env uuid jb x (tree w) (db w)"
    and "w' = restarts env restarted (snd (commit_replacement env uuid jb x w))"
    and "i = tw_track (tg_row (xs_target x))"
  shows "(track_intact (se_storage env) i (tree w') (db w') \<or> track_retrievable (se_storage env) i (tree w') (db w'))
    \<and> (open_journals (db w') = [] \<longrightarrow> track_intact (se_storage env) i (tree w') (db w'))"
proof -
  let ?p = "xs_placement x" and ?j = "replacement_journal_of env uuid jb x" and ?path = "tw_file_path (tg_row (xs_target x))"
  let ?R = "recoverable (se_storage env) ?p ?path ?j"
  from assms(1) have r: "replacing env uuid jb x ?p ?j" and rest: "resting (se_storage env) ?p ?path ?j (tree w) (db w)"
    and path: "relative_path (se_storage env) ?path = Inr (pl_previous_audio ?p)"
    by (auto simp: replacement_ready_def Let_def resting_def row_of_old_def replacement_journal_of_def)
  note a = replacing_facts(1) [OF r]
  have j: "replacement_placement_from_journal (se_storage env) ?j = Inr ?p" using r by (simp add: replacing_def)
  have "always ?R (resting (se_storage env) ?p ?path ?j) (commit_replacement env uuid jb x) (\<lambda>_. ?R) (\<lambda>_. ?R)"
    by (rule always_weaken [OF committing [OF r refl]]) (auto simp: recoverable_def)
  from always_world [OF this rest]
  have "?R (tree w') (db w')" using restarts_recoverable [OF a j] by (simp add: assms(2))
  from recoverable_claim [OF this path j a] show ?thesis
    using replacing_facts(6) [OF r] assms(3) by simp
qed

lemma demo_ready: "replacement_ready demo_service ''r'' demo_job demo_state (tree (demo_world f)) (db (demo_world f))"
proof -
  have "replacement_ready demo_service ''r'' demo_job demo_state demo_tree demo_db" by code_simp
  then show ?thesis by (simp add: demo_world_def)
qed

theorem replacement_never_loses_the_file_witness:
  "replacement_ready demo_service ''r'' demo_job demo_state demo_tree demo_db
   \<and> (\<forall>n restarted. let w' = restarts demo_service restarted (snd (commit_replacement demo_service ''r'' demo_job demo_state
         (demo_world (\<lambda>i. if i = n then Dies else Goes)))) in
       (track_intact demo_storage ''3'' (tree w') (db w') \<or> track_retrievable demo_storage ''3'' (tree w') (db w'))
       \<and> (open_journals (db w') = [] \<longrightarrow> track_intact demo_storage ''3'' (tree w') (db w')))"
proof -
  have i: "tw_track (tg_row (xs_target demo_state)) = ''3''" by (simp add: demo_state_def demo_target_def)
  have s: "se_storage demo_service = demo_storage" by (simp add: demo_service_def)
  show ?thesis
    using demo_ready replacement_never_loses_the_file [OF demo_ready refl refl, unfolded i s]
    unfolding Let_def by (simp add: demo_world_def)
qed



text \<open>A journal after its commit whose retired file lies under a directory that is not there.\<close>

definition blocked :: "storage \<Rightarrow> replacement_journal \<Rightarrow> tree \<Rightarrow> bool" where
  "blocked st k t \<longleftrightarrow> rj_phase k = R_Database_Committed
     \<and> (case replacement_placement_from_journal st k of Inl _ \<Rightarrow> False | Inr _ \<Rightarrow> True)
     \<and> (case relative_path st (rj_retired_audio k) of
          Inl _ \<Rightarrow> False
        | Inr r \<Rightarrow> list_ex (\<lambda>q. q \<noteq> ''.'' \<and> fmlookup t q = None) (ensured (parent_path r)))"

definition stuck :: "replacement_journal \<Rightarrow> tree \<Rightarrow> tree \<Rightarrow> db \<Rightarrow> bool" where
  "stuck k t0 t d \<longleftrightarrow> t = t0 \<and> journal_in (\<lambda>x. x = R_Database_Committed) k d"

lemma stuck_confined:
  assumes "confined {} (=) m"
  shows "always (stuck k t0) (stuck k t0) m (\<lambda>_. stuck k t0) (\<lambda>_. stuck k t0)"
  by (rule always_confined [OF assms]) (auto simp: stuck_def intro: fmap_ext)

lemma missing_link:
  assumes "q \<in> set (made_dirs current cs)" "q \<noteq> ''.''" "fmlookup t0 q = None"
  shows "always (stuck k t0) (stuck k t0) (reject_links st current cs) (\<lambda>_ _ _. False) (\<lambda>_. stuck k t0)"
  using assms(1)
proof (induction cs arbitrary: current)
  case (Cons c cs)
  let ?here = "join_paths [current, c]"
  have look: "always (stuck k t0) (stuck k t0) (s_map_err f (symlink_metadata ?here))
      (\<lambda>_ t d. ?here \<noteq> q \<and> stuck k t0 t d) (\<lambda>_. stuck k t0)" for f :: "os_error \<Rightarrow> import_error"
    unfolding symlink_metadata_def
    by (rule always_map_err, rule always_file) (use assms in \<open>auto simp: stuck_def split: option.splits if_splits\<close>)
  show ?case unfolding reject_links.simps Let_def
    by (intro always_bind [OF look] always_fact always_if always_fail Cons.IH) (use Cons.prems in auto)
qed simp

lemma stuck_removal:
  assumes "relative_path st path = Inr r" "q \<in> set (ensured (parent_path r))" "q \<noteq> ''.''" "fmlookup t0 q = None"
  shows "always (stuck k t0) (stuck k t0) (remove_managed_file st c path h) (\<lambda>_ _ _. False) (\<lambda>_. stuck k t0)"
proof -
  let ?S = "stuck k t0"
  have poll: "always ?S ?S (s_poll c) (\<lambda>_. ?S) (\<lambda>_. ?S)"
    by (rule stuck_confined) (auto intro!: confined_poll simp: reflp_def)
  have opened: "always ?S ?S (open_root st) (\<lambda>_. ?S) (\<lambda>_. ?S)"
    by (rule stuck_confined) (auto intro!: confined_open_root simp: reflp_def)
  have links: "always ?S ?S (s_map_err f (reject_symlinks st (parent_path r))) (\<lambda>_ _ _. False) (\<lambda>_. ?S)"
    for f :: "import_error \<Rightarrow> import_error"
    unfolding reject_symlinks_def
    by (rule always_map_err, rule missing_link) (use assms in \<open>auto simp: ensured_def\<close>)
  have named: "always ?S ?S (s_result (Inr r)) (\<lambda>x t d. x = r \<and> ?S t d) (\<lambda>_. ?S)" by (rule always_result) auto
  show ?thesis unfolding remove_managed_file_def assms(1)
    apply (rule always_bind [OF poll], rule always_if, rule always_fail, assumption)
    apply (rule always_bind [OF named], rule always_fact, hypsubst)
    apply (rule always_then [OF opened], rule always_then [OF links], rule always_never)
    done
qed

lemma stuck_recovery:
  assumes b: "blocked (se_storage env) k t0" and core: "journal_core k' = journal_core k" and ph: "rj_phase k' = R_Database_Committed"
  shows "always (stuck k t0) (stuck k t0) (recover_replacement env k') (\<lambda>_ _ _. False) (\<lambda>_. stuck k t0)"
proof -
  let ?st = "se_storage env" and ?S = "stuck k t0"
  from b obtain p r q where p: "replacement_placement_from_journal ?st k = Inr p" and r: "relative_path ?st (rj_retired_audio k) = Inr r"
    and q: "q \<in> set (ensured (parent_path r))" "q \<noteq> ''.''" "fmlookup t0 q = None"
    by (auto simp: blocked_def list_ex_iff split: sum.splits)
  note r' = r [folded core_fields(2) [OF core]]
  have files: "always ?S ?S (complete_replacement_files ?st never k' x)
      (\<lambda>y t d. (case snd y of Inl _ \<Rightarrow> True | Inr _ \<Rightarrow> False) \<and> ?S t d) (\<lambda>_. ?S)" for x
    unfolding complete_replacement_files_def Let_def
    by (rule always_bind [where R = "\<lambda>a t d. (case a of Inl _ \<Rightarrow> True | Inr _ \<Rightarrow> False) \<and> ?S t d"])
      (auto intro!: always_try always_weaken [OF stuck_removal [OF r' q]] always_fact always_return always_never split: sum.splits)
  have noted: "always ?S ?S (record_replacement_recovery_reason i reason) (\<lambda>_. ?S) (\<lambda>_. ?S)" for i reason
    unfolding record_replacement_recovery_reason_def
    by (rule always_statement)
      (auto simp: stuck_def journal_core_def active_replacement_def
        dest!: update_journal_in [where X = "\<lambda>x. x = R_Database_Committed" and Y = "\<lambda>x. x = R_Database_Committed"])
  have comp: "always ?S ?S (complete_replacement env jb k' x) (\<lambda>_ _ _. False) (\<lambda>_. ?S)" for jb x
    unfolding complete_replacement_def
    by (rule always_bind [OF files], rule always_fact)
      (auto split: prod.splits sum.splits intro!: always_fail_after [OF noted])
  have job: "always ?S ?S (get_job i) (\<lambda>_. ?S) (\<lambda>_. ?S)" for i
    unfolding get_job_def by (rule always_query) auto
  have "\<not> before_commit (rj_phase k')" using ph by (simp add: before_commit_def)
  then show ?thesis unfolding recover_replacement_def journal_placement [OF p core] using ph
    by (auto intro!: always_bind [OF job] always_then [OF comp] always_never)
qed

text \<open>C34: the cleanup of \<open>complete_replacement_files\<close> (\<open>storage.rs\<close>) cannot be repeated: it removes the emptied
  directory of the previous file before the job is finalized, and \<open>remove_managed_file\<close> then refuses
  the missing directory. After a crash between the two, no number of restarts completes the job.\<close>

theorem replacement_recovery_stays_blocked:
  assumes "open_journals (db w) = [k]" and "blocked (se_storage env) k (tree w)"
  shows "\<exists>k'. open_journals (db (restarts env restarted w)) = [k'] \<and> rj_phase k' = R_Database_Committed"
proof -
  have step: "always (stuck k (tree w)) (stuck k (tree w)) (recover_pending_track_replacements env) (\<lambda>_. stuck k (tree w)) (\<lambda>_. stuck k (tree w))"
    unfolding recover_pending_track_replacements_def
  proof (rule always_bind)
    let ?S = "stuck k (tree w)"
    show "always ?S ?S incomplete_replacement_journals
        (\<lambda>js t d. (\<exists>k'. js = [k'] \<and> journal_core k' = journal_core k \<and> rj_phase k' = R_Database_Committed) \<and> ?S t d) (\<lambda>_. ?S)"
      unfolding incomplete_replacement_journals_def
      by (rule always_query) (auto simp: stuck_def journal_in_def open_journals_def)
    fix js
    have "always ?S ?S (recover_each env [k'] []) (\<lambda>_. ?S) (\<lambda>_. ?S)"
      if "journal_core k' = journal_core k" "rj_phase k' = R_Database_Committed" for k'
      unfolding recover_each.simps
      by (rule always_noted [where R = "\<lambda>_. ?S"], rule always_map_err,
          rule always_weaken [OF stuck_recovery [OF assms(2) that]]) (auto intro: always_result)
    then show "always ?S (\<lambda>t d. (\<exists>k'. js = [k'] \<and> journal_core k' = journal_core k \<and> rj_phase k' = R_Database_Committed) \<and> ?S t d)
        (recover_each env js []) (\<lambda>_. ?S) (\<lambda>_. ?S)"
      by (intro always_fact) auto
  qed
  have "stuck k (tree w) (tree v) (db v) \<Longrightarrow> stuck k (tree w) (tree (restarts env restarted v)) (db (restarts env restarted v))" for v
  proof (induction restarted arbitrary: v)
    case (Cons f fs)
    then show ?case using always_world [OF step, of "v\<lparr>fates := f, ticks := 0\<rparr>"] by simp
  qed simp
  moreover have "stuck k (tree w) (tree w) (db w)"
    using assms by (auto simp: stuck_def journal_in_def blocked_def)
  ultimately show ?thesis by (fastforce simp: stuck_def journal_in_def)
qed

theorem replacement_recovery_stays_blocked_witness:
  "\<forall>restarted. \<exists>k'. rj_phase k' = R_Database_Committed
     \<and> open_journals (db (restarts demo_service restarted (snd (commit_replacement demo_service ''r'' demo_job demo_state
         (demo_world (\<lambda>i. if i = 44 then Dies else Goes)))))) = [k']"
proof -
  let ?w = "snd (commit_replacement demo_service ''r'' demo_job demo_state (demo_world (\<lambda>i. if i = 44 then Dies else Goes)))"
  have "let w = ?w in (case open_journals (db w) of [k] \<Rightarrow> blocked demo_storage k (tree w) | _ \<Rightarrow> False)" by code_simp
  then obtain k where k: "open_journals (db ?w) = [k]" "blocked demo_storage k (tree ?w)"
    by (auto simp: Let_def split: list.splits)
  have "se_storage demo_service = demo_storage" by (simp add: demo_service_def)
  then show ?thesis using replacement_recovery_stays_blocked [of ?w k demo_service] k by fastforce
qed

end
