(* ===== verification/Track_Commit.thy ===== *)
theory Track_Commit
  imports Track_Replacement
begin

text \<open>
  Committing an import (\<open>service.rs\<close>, \<open>commit.rs\<close>): the journal, the files, the rows of a Track that
  stays hidden until its journal is finished, and what recovery does with a journal that was left
  open. The hooks that tests set to stop after a phase are not there in production.
\<close>

record import_result =
  ir_job :: string
  ir_revision :: int
  ir_track :: string

fun commit_phase_text :: "commit_phase \<Rightarrow> string" where
  "commit_phase_text C_Prepared = ''prepared''"
| "commit_phase_text C_Placed = ''placed''"
| "commit_phase_text C_Verified = ''verified''"
| "commit_phase_text C_Database_Committed = ''database_committed''"
| "commit_phase_text C_Cleaned = ''cleaned''"
| "commit_phase_text C_Completed = ''completed''"
| "commit_phase_text C_Rolled_Back = ''rolled_back''"

subsection \<open>The identity\<close>

definition resolve_commit_identity :: "service_env \<Rightarrow> utext list \<Rightarrow> utext \<Rightarrow> (db, import_error, commit_identity) steps" where
  "resolve_commit_identity env credits album_key =
     s_bind (tx (\<lambda>d t.
       let (track_id, d) = fresh d;
           (artist_id, d) = (case filter (\<lambda>a. ar_normalized a = normalize_identity (ids_of env) (hd credits)) (db_artists d) of
              a # _ \<Rightarrow> (ar_id a, d) | [] \<Rightarrow> fresh d)
       in Inr ((track_id, artist_id), d))) (\<lambda>(track_id, artist_id).
     tx (\<lambda>d t. case filter (\<lambda>a. al_key a = album_key) (db_albums d) of
            [] \<Rightarrow> (let (album_id, d) = fresh d in
              Inr (\<lparr>id_album_artist = artist_id, id_album = album_id, id_track = track_id, id_artwork_path = [], id_artwork_sha256 = []\<rparr>, d))
          | a # _ \<Rightarrow>
              (let (path, sha) = (case filter (\<lambda>w. aw_album w = al_id a) (db_artwork d) of w # _ \<Rightarrow> (aw_path w, aw_sha256 w) | [] \<Rightarrow> ([], [])) in
               Inr (\<lparr>id_album_artist = artist_id, id_album = al_id a, id_track = track_id, id_artwork_path = path, id_artwork_sha256 = sha\<rparr>, d))))"

subsection \<open>The journal\<close>

definition update_commit :: "string \<Rightarrow> string \<Rightarrow> (commit_journal \<Rightarrow> bool) \<Rightarrow> (commit_journal \<Rightarrow> commit_journal) \<Rightarrow> db \<Rightarrow> import_error + db" where
  "update_commit operation i P f =
     sql_one operation (\<lambda>j. cj_id j = i \<and> P j) db_commits
       (\<lambda>d. d\<lparr>db_commits := update_where (\<lambda>j. cj_id j = i \<and> P j) f (db_commits d)\<rparr>)"

definition create_commit_journal :: "commit_journal \<Rightarrow> (db, import_error, unit) steps" where
  "create_commit_journal j = statement (sql ''create Managed Import commit journal'' (\<lambda>d. d\<lparr>db_commits := db_commits d @ [j]\<rparr>))"

definition mark_commit_placed :: "string \<Rightarrow> bool \<Rightarrow> (db, import_error, unit) steps" where
  "mark_commit_placed i created =
     statement (update_commit ''journal canonical Managed Import placement'' i (\<lambda>j. cj_phase j = C_Prepared)
       (\<lambda>j. j\<lparr>cj_phase := C_Placed, cj_artwork_created := created\<rparr>))"

definition mark_commit_artwork_created :: "string \<Rightarrow> (db, import_error, unit) steps" where
  "mark_commit_artwork_created i =
     statement (update_commit ''journal Canonical Album Artwork creation'' i (\<lambda>j. cj_phase j = C_Prepared)
       (\<lambda>j. j\<lparr>cj_artwork_created := True\<rparr>))"

definition update_commit_phase :: "string \<Rightarrow> commit_phase \<Rightarrow> (db, import_error, unit) steps" where
  "update_commit_phase i phase =
     statement (update_commit (''update Managed Import commit journal to '' @ commit_phase_text phase) i active_commit
       (\<lambda>j. j\<lparr>cj_phase := phase\<rparr>))"

definition reset_open_journal :: "string \<Rightarrow> string \<Rightarrow> commit_phase \<Rightarrow> string \<Rightarrow> db \<Rightarrow> import_error + db" where
  "reset_open_journal operation i phase reason =
     update_commit operation i active_commit (\<lambda>j. j\<lparr>cj_phase := phase, cj_reason := reason\<rparr>)"

definition rollback_commit_journal :: "string \<Rightarrow> string \<Rightarrow> (db, import_error, unit) steps" where
  "rollback_commit_journal i reason = statement (reset_open_journal ''roll back Managed Import commit journal'' i C_Rolled_Back reason)"

definition record_commit_recovery_reason :: "string \<Rightarrow> string \<Rightarrow> (db, import_error, unit) steps" where
  "record_commit_recovery_reason i reason =
     statement (update_commit ''record Managed Import recovery reason'' i active_commit (\<lambda>j. j\<lparr>cj_reason := reason\<rparr>))"

definition list_incomplete_commit_journals :: "(db, import_error, commit_journal list) steps" where
  "list_incomplete_commit_journals = query (\<lambda>d. Inr (filter active_commit (db_commits d)))"

definition get_commit_journal :: "string \<Rightarrow> (db, import_error, commit_journal) steps" where
  "get_commit_journal i =
     query (\<lambda>d. case filter (\<lambda>j. cj_id j = i) (db_commits d) of [] \<Rightarrow> Inl (err_sentinel Job_Not_Found) | j # _ \<Rightarrow> Inr j)"

subsection \<open>The rows\<close>

text \<open>The Track is written hidden, with the journal.\<close>

definition commit_pending :: "service_env \<Rightarrow> commit_data \<Rightarrow> string \<Rightarrow> (db, import_error, unit) steps" where
  "commit_pending env cd journal_id =
     tx (\<lambda>d t. and_then (write_commit_data env t cd d) (\<lambda>d.
       and_then (sql ''hide pending Managed Track'' (\<lambda>d. d\<lparr>db_tracks :=
           update_where (\<lambda>x. tr_id x = id_track (cd_identity cd)) (\<lambda>x. x\<lparr>tr_pending := True\<rparr>) (db_tracks d)\<rparr>) d) (\<lambda>d.
       and_then (update_commit ''journal Managed Import database commit'' journal_id (\<lambda>j. cj_phase j = C_Verified)
           (\<lambda>j. j\<lparr>cj_phase := C_Database_Committed\<rparr>) d) (\<lambda>d. Inr ((), d)))))"

definition mark_committed :: "job \<Rightarrow> string \<Rightarrow> db \<Rightarrow> import_error + import_result \<times> db" where
  "mark_committed jb track_id d =
     (let is_job = (\<lambda>j. jb_id j = jb_id jb \<and> jb_status j = Awaiting_Confirmation \<and> jb_revision j = jb_revision jb) in
      and_then (sql_one ''mark Managed Import committed'' is_job db_jobs
        (\<lambda>d. d\<lparr>db_jobs := update_where is_job (\<lambda>j. j\<lparr>jb_status := Committed, jb_revision := jb_revision j + 1, jb_track := track_id,
          jb_staged_path := [], jb_outcome := (if jb_batch j = [] then [] else ''imported''), jb_updated := db_now d\<rparr>) (db_jobs d)\<rparr>) d)
        (\<lambda>d. Inr (\<lparr>ir_job = jb_id jb, ir_revision = jb_revision jb + 1, ir_track = track_id\<rparr>, d)))"

definition finalize_commit :: "service_env \<Rightarrow> job \<Rightarrow> string \<Rightarrow> string \<Rightarrow> (db, import_error, import_result) steps" where
  "finalize_commit env jb track_id journal_id =
     (let is_track = (\<lambda>x. tr_id x = track_id \<and> tr_pending x) in
      tx (\<lambda>d t.
        and_then (sql_one ''publish committed Managed Track'' is_track db_tracks
          (\<lambda>d. d\<lparr>db_tracks := update_where is_track (\<lambda>x. x\<lparr>tr_pending := False\<rparr>) (db_tracks d)\<rparr>) d) (\<lambda>d.
        and_then (mark_committed jb track_id d) (\<lambda>(result, d).
        and_then (update_commit ''complete Managed Import commit journal'' journal_id (\<lambda>j. cj_phase j = C_Cleaned)
          (\<lambda>j. j\<lparr>cj_phase := C_Completed, cj_reason := (if cj_reason j = [] then ''commit completed'' else cj_reason j)\<rparr>) d) (\<lambda>d.
        and_then (archive_standalone (se_time env) (se_newer env) (jb_id jb) ''completed'' d) (\<lambda>d. Inr (result, d)))))))"

definition rollback_pending_commit :: "commit_journal \<Rightarrow> string \<Rightarrow> (db, import_error, unit) steps" where
  "rollback_pending_commit j reason =
     statement (\<lambda>d.
       and_then (sql ''delete pending Album Artwork''
         (\<lambda>d. d\<lparr>db_artwork := delete_where (\<lambda>a. aw_source a = cj_track j) (db_artwork d)\<rparr>) d) (\<lambda>d.
       and_then (sql ''delete pending Managed Track''
         (\<lambda>d. cascade_track (set (map tr_id (filter (\<lambda>x. tr_id x = cj_track j \<and> tr_pending x) (db_tracks d)))) d) d)
         (reset_open_journal ''journal pending Managed Import rollback'' (cj_id j) C_Verified reason)))"

subsection \<open>The commit\<close>

definition record_reason_with :: "string \<Rightarrow> string \<Rightarrow> import_error \<Rightarrow> (db, import_error, 'a) steps" where
  "record_reason_with journal_id reason e = fail_after e (record_commit_recovery_reason journal_id reason)"

definition rollback_filesystem_commit :: "service_env \<Rightarrow> commit_journal \<Rightarrow> placed_files \<Rightarrow> string \<Rightarrow> (db, import_error, unit) steps" where
  "rollback_filesystem_commit env j p reason =
     s_then (or_else (rollback_placement (se_storage env) p) (record_reason_with (cj_id j) (reason @ ''; filesystem rollback failed'')))
       (rollback_commit_journal (cj_id j) reason)"

definition place_and_verify_commit :: "service_env \<Rightarrow> job \<Rightarrow> media_inspection \<Rightarrow> commit_identity \<Rightarrow> commit_journal
    \<Rightarrow> (db, import_error, placed_files) steps" where
  "place_and_verify_commit env jb ins i j =
     (let st = se_storage env in
      s_bind (or_else (place st (jb_staged_path jb) ins i (Some (mark_commit_artwork_created (cj_id j))))
               (\<lambda>e. fail_after e (rollback_commit_journal (cj_id j) ''canonical placement failed''))) (\<lambda>p.
      s_then (mark_commit_placed (cj_id j) (pf_artwork_created p))
      (s_then (or_else (verify_placement st p (cj_audio_sha256 j) (cj_artwork_sha256 j))
                (\<lambda>e. fail_after e (rollback_filesystem_commit env j p ''canonical verification failed'')))
      (s_then (update_commit_phase (cj_id j) C_Verified) (s_return p)))))"

definition persist_and_finalize_commit :: "service_env \<Rightarrow> job \<Rightarrow> media_inspection \<Rightarrow> commit_identity \<Rightarrow> commit_journal \<Rightarrow> placed_files
    \<Rightarrow> utext \<Rightarrow> (db, import_error, import_result) steps" where
  "persist_and_finalize_commit env jb ins i j p album_key =
     s_then (or_else (commit_pending env \<lparr>cd_identity = i, cd_placement = p, cd_inspection = ins, cd_album_key = album_key\<rparr> (cj_id j)) (\<lambda>e.
         s_bind (s_try (get_commit_journal (cj_id j))) (\<lambda>read.
           case read of
             Inl r \<Rightarrow> s_fail (join_with_rest e [Some r])
           | Inr persisted \<Rightarrow>
               if cj_phase persisted = C_Verified
               then fail_after e (rollback_filesystem_commit env persisted p ''database commit failed'')
               else s_fail e)))
     (s_then (cleanup_placement (se_storage env) p)
     (s_then (update_commit_phase (cj_id j) C_Cleaned)
       (finalize_commit env jb (id_track i) (cj_id j))))"

definition commit_journal_of :: "string \<Rightarrow> job \<Rightarrow> media_inspection \<Rightarrow> commit_identity \<Rightarrow> placed_files \<Rightarrow> commit_journal" where
  "commit_journal_of uuid jb ins i planned =
     \<lparr>cj_id = uuid, cj_job = jb_id jb, cj_track = id_track i, cj_phase = C_Prepared, cj_staged_path = jb_staged_path jb,
      cj_audio_path = pf_audio_path planned, cj_artwork_path = pf_artwork_path planned, cj_audio_sha256 = ins_sha256 ins,
      cj_artwork_sha256 = art_sha256 (ins_artwork ins), cj_artwork_created = False, cj_reason = []\<rparr>"

text \<open>The commit once the identity is known; the id of the journal is fresh.\<close>

definition commit_as :: "service_env \<Rightarrow> string \<Rightarrow> job \<Rightarrow> media_inspection \<Rightarrow> utext \<Rightarrow> commit_identity
    \<Rightarrow> (db, import_error, import_result) steps" where
  "commit_as env uuid jb ins album_key i =
     s_bind (s_result (plan_placement (se_storage env) (jb_staged_path jb) ins i)) (\<lambda>planned.
     let j = commit_journal_of uuid jb ins i planned in
     s_then (create_commit_journal j)
     (s_bind (place_and_verify_commit env jb ins i j) (\<lambda>p.
       persist_and_finalize_commit env jb ins i j p album_key)))"

definition commit_import :: "service_env \<Rightarrow> string \<Rightarrow> job \<Rightarrow> media_inspection \<Rightarrow> utext \<Rightarrow> (db, import_error, import_result) steps" where
  "commit_import env uuid jb ins album_key =
     s_bind (resolve_commit_identity env (album_artists (ins_metadata ins)) album_key) (commit_as env uuid jb ins album_key)"

subsection \<open>Recovery\<close>

definition rollback_uncommitted_journal :: "service_env \<Rightarrow> commit_journal \<Rightarrow> placed_files \<Rightarrow> (db, import_error, unit) steps" where
  "rollback_uncommitted_journal env j p =
     (let st = se_storage env; reason = ''restart rolled back commit from '' @ commit_phase_text (cj_phase j) @ '' phase'' in
      s_then (s_bind (s_try (file_metadata (pf_audio p))) (\<lambda>r.
        case r of
          Inr _ \<Rightarrow> or_else (rollback_placement st p) (record_reason_with (cj_id j) (reason @ ''; canonical rollback failed''))
        | Inl e \<Rightarrow>
            if \<not> is_enoent e
            then record_reason_with (cj_id j) (reason @ ''; canonical state unreadable'') (io_err (''stat '' @ cj_audio_path j) e)
            else or_else (cleanup_prepared_placement st p)
                   (record_reason_with (cj_id j) (reason @ ''; prepared placement cleanup failed''))))
        (rollback_commit_journal (cj_id j) reason))"

definition complete_pending_journal :: "service_env \<Rightarrow> commit_journal \<Rightarrow> placed_files \<Rightarrow> (db, import_error, unit) steps" where
  "complete_pending_journal env j p =
     (let st = se_storage env in
      s_bind (s_err (verify_placement st p (cj_audio_sha256 j) (cj_artwork_sha256 j))) (\<lambda>bad.
        case bad of
          Some verification \<Rightarrow>
            (let reason = ''restart rolled back commit because canonical verification failed: '' @ err_message verification in
             s_then (rollback_pending_commit j reason)
             (s_then (or_else (rollback_placement st p) (record_reason_with (cj_id j) (reason @ ''; filesystem rollback failed'')))
               (rollback_commit_journal (cj_id j) reason)))
        | None \<Rightarrow>
            s_then (if cj_phase j = C_Database_Committed
                    then s_then (cleanup_placement st p) (update_commit_phase (cj_id j) C_Cleaned) else s_return ())
              (s_bind (get_job (cj_job j)) (\<lambda>jb. s_then (finalize_commit env jb (cj_track j) (cj_id j)) (s_return ())))))"

definition recover_commit :: "service_env \<Rightarrow> commit_journal \<Rightarrow> (db, import_error, unit) steps" where
  "recover_commit env j =
     (case placement_from_journal (se_storage env) j of
        Inl e \<Rightarrow> fail_after e (record_commit_recovery_reason (cj_id j) ''unsafe journaled storage path'')
      | Inr p \<Rightarrow>
          if cj_phase j \<in> {C_Prepared, C_Placed, C_Verified} then rollback_uncommitted_journal env j p
          else if cj_phase j \<in> {C_Database_Committed, C_Cleaned} then complete_pending_journal env j p
          else s_fail (err_new (''unsupported Managed Import commit phase '' @ commit_phase_text (cj_phase j))))"

fun recover_commits_of :: "service_env \<Rightarrow> commit_journal list \<Rightarrow> import_error option list \<Rightarrow> (db, import_error, unit) steps" where
  "recover_commits_of env [] failures = s_result (result_of (err_join failures))"
| "recover_commits_of env (j # js) failures =
     s_bind (s_err (s_map_err (err_context (''recover Managed Import commit '' @ st_debug (se_storage env) (cj_id j))) (recover_commit env j))) (\<lambda>f.
       recover_commits_of env js (failures @ [f]))"

definition recover_commits :: "service_env \<Rightarrow> (db, import_error, unit) steps" where
  "recover_commits env = s_bind list_incomplete_commit_journals (\<lambda>js. recover_commits_of env js [])"

end
