(* ===== verification/Commit_Safety.thy ===== *)
theory Commit_Safety
  imports Track_Commit Replacement_Claims
begin

text \<open>
  A Track of an import is seen only when its file is in place: until its journal is finished the
  Track is hidden, whatever fails and wherever the run is cut short.
\<close>

subsection \<open>States of a commit\<close>

definition track_hidden :: "string \<Rightarrow> db \<Rightarrow> bool" where
  "track_hidden i d \<longleftrightarrow> (\<forall>x \<in> set (db_tracks d). tr_id x = i \<longrightarrow> tr_pending x)"

definition track_shown :: "string \<Rightarrow> db \<Rightarrow> bool" where
  "track_shown i d \<longleftrightarrow> (\<exists>x \<in> set (db_tracks d). tr_id x = i \<and> \<not> tr_pending x)"

definition open_commits :: "db \<Rightarrow> commit_journal list" where
  "open_commits d = filter active_commit (db_commits d)"

definition commit_core :: "commit_journal \<Rightarrow> commit_journal" where
  "commit_core j = j\<lparr>cj_phase := C_Prepared, cj_artwork_created := False, cj_reason := []\<rparr>"

definition held :: "commit_journal \<Rightarrow> db \<Rightarrow> bool" where
  "held j d \<longleftrightarrow> track_hidden (cj_track j) d \<and> length (open_commits d) \<le> 1
     \<and> list_all (\<lambda>k. commit_core k = commit_core j) (open_commits d)"

definition holding :: "commit_journal \<Rightarrow> tree \<Rightarrow> db \<Rightarrow> bool" where
  "holding j t d \<longleftrightarrow> held j d"

definition holding_file :: "storage \<Rightarrow> string \<Rightarrow> commit_journal \<Rightarrow> tree \<Rightarrow> db \<Rightarrow> bool" where
  "holding_file st audio j t d \<longleftrightarrow> held j d \<and> sha_at st t audio (cj_audio_sha256 j)"

definition published :: "storage \<Rightarrow> string \<Rightarrow> commit_journal \<Rightarrow> tree \<Rightarrow> db \<Rightarrow> bool" where
  "published st audio j t d \<longleftrightarrow> track_shown (cj_track j) d \<and> open_commits d = [] \<and> sha_at st t audio (cj_audio_sha256 j)"

definition hidden_or_placed :: "storage \<Rightarrow> string \<Rightarrow> commit_journal \<Rightarrow> tree \<Rightarrow> db \<Rightarrow> bool" where
  "hidden_or_placed st audio j t d \<longleftrightarrow> holding j t d \<or> published st audio j t d"

definition holds_on :: "commit_journal \<Rightarrow> db \<Rightarrow> db \<Rightarrow> bool" where
  "holds_on j d d' \<longleftrightarrow> (held j d \<longrightarrow> held j d')"

lemmas commit_states = holding_def holding_file_def published_def hidden_or_placed_def

lemma holds_on_order: "reflp (holds_on j)" "transp (holds_on j)"
  by (auto simp: reflp_def transp_def holds_on_def)

lemma keeps_holding:
  assumes "confined UNIV (holds_on j) m"
  shows "always (hidden_or_placed st audio j) (holding j) m (\<lambda>_. holding j) (\<lambda>_. holding j)"
  by (rule always_confined [OF assms]) (auto simp: commit_states holds_on_def)

lemma keeps_holding_file:
  assumes "confined S (holds_on j) m" "audio \<notin> S"
  shows "always (hidden_or_placed st audio j) (holding_file st audio j) m (\<lambda>_. holding_file st audio j) (\<lambda>_. holding_file st audio j)"
  by (rule always_confined [OF assms(1)]) (use assms(2) in \<open>auto simp: commit_states holds_on_def sha_at_def\<close>)

lemma forget_file:
  assumes "always (hidden_or_placed st audio j) (holding j) m Q E"
  shows "always (hidden_or_placed st audio j) (holding_file st audio j) m Q E"
  by (rule always_pre [OF assms]) (simp add: commit_states)

subsection \<open>Updates of the journal\<close>

lemma update_commit_held:
  assumes u: "update_commit operation i P f d = Inr d'" and P: "\<And>k. P k \<Longrightarrow> active_commit k"
    and f: "\<And>k. commit_core (f k) = commit_core k" and h: "held j d"
  shows "held j d'"
proof -
  let ?G = "\<lambda>j. cj_id j = i \<and> P j"
  from u have d': "d' = d\<lparr>db_commits := update_where ?G f (db_commits d)\<rparr>" by (auto simp: update_commit_def dest!: sql_one_ok)
  have "length (filter active_commit (update_where ?G f js)) \<le> length (filter active_commit js)" for js
    by (induction js) (auto simp: update_where_def dest: P)
  then have "length (open_commits d') \<le> length (open_commits d)" by (simp add: open_commits_def d')
  moreover have "list_all (\<lambda>k. commit_core k = commit_core j) (filter active_commit js)
      \<Longrightarrow> list_all (\<lambda>k. commit_core k = commit_core j) (filter active_commit (update_where ?G f js))" for js
    by (induction js) (auto simp: update_where_def f dest: P)
  ultimately show ?thesis using h by (auto simp: held_def track_hidden_def open_commits_def d')
qed

lemma confined_statement: "reflp D \<Longrightarrow> (\<And>d d'. f d = Inr d' \<Longrightarrow> D d d') \<Longrightarrow> confined S D (statement f)"
  unfolding statement_def by (rule confined_tx) (auto simp: and_then_Inr_iff)

lemma confined_query: "reflp D \<Longrightarrow> confined S D (query f)"
  unfolding query_def by (rule confined_tx) (auto simp: and_then_Inr_iff reflpD)

lemma commit_core_same [simp]:
  "commit_core (k\<lparr>cj_phase := a\<rparr>) = commit_core k" "commit_core (k\<lparr>cj_artwork_created := b\<rparr>) = commit_core k"
  "commit_core (k\<lparr>cj_reason := r\<rparr>) = commit_core k"
  by (simp_all add: commit_core_def)

lemma journal_updates_hold:
  "confined S (holds_on j) (mark_commit_placed i b)" "confined S (holds_on j) (mark_commit_artwork_created i)"
  "confined S (holds_on j) (update_commit_phase i a)" "confined S (holds_on j) (rollback_commit_journal i reason)"
  "confined S (holds_on j) (record_commit_recovery_reason i reason)"
  unfolding mark_commit_placed_def mark_commit_artwork_created_def update_commit_phase_def rollback_commit_journal_def
    reset_open_journal_def record_commit_recovery_reason_def
  by (rule confined_statement [OF holds_on_order(1)], unfold holds_on_def, intro impI, erule update_commit_held;
      simp add: active_commit_def; fail)+

lemma rollback_placement_holds: "confined UNIV (holds_on j) (rollback_placement st p)"
  unfolding rollback_placement_def
  by (auto intro!: confined_then confined_bind holds_on_order confined_open_root confined_err confined_remove_rooted confined_return
      confined_restore_rooted confined_drop_empty confined_result)

lemma cleanup_prepared_holds: "confined UNIV (holds_on j) (cleanup_prepared_placement st p)"
  unfolding cleanup_prepared_placement_def
  by (auto intro!: confined_then confined_bind holds_on_order confined_open_root confined_err confined_remove_rooted confined_return
      confined_drop_empty confined_result)

lemma verify_placement_holds: "confined {} (holds_on j) (verify_placement st p h h')"
  unfolding verify_placement_def
  by (auto intro!: confined_then holds_on_order confined_open_root confined_map_err confined_verify_hash confined_return)

lemma confined_or_else: "transp D \<Longrightarrow> reflp D \<Longrightarrow> confined S D m \<Longrightarrow> (\<And>e. confined S D (h e)) \<Longrightarrow> confined S D (or_else m h)"
  unfolding or_else_def by (auto intro!: confined_bind confined_try confined_return split: sum.split)

lemma confined_fail_after: "transp D \<Longrightarrow> reflp D \<Longrightarrow> confined S D m \<Longrightarrow> confined S D (fail_after e m)"
  unfolding fail_after_def by (auto intro!: confined_bind confined_err confined_fail)

lemma rollback_commit_holds: "confined UNIV (holds_on j) (rollback_filesystem_commit env k p reason)"
  unfolding rollback_filesystem_commit_def record_reason_with_def
  by (auto intro!: confined_then confined_or_else confined_fail_after rollback_placement_holds journal_updates_hold holds_on_order)

lemma rollback_uncommitted_holds: "confined UNIV (holds_on j) (rollback_uncommitted_journal env k p)"
  unfolding rollback_uncommitted_journal_def record_reason_with_def Let_def
  by (auto intro!: confined_then confined_bind confined_or_else confined_fail_after rollback_placement_holds cleanup_prepared_holds
      journal_updates_hold holds_on_order confined_try confined_file_metadata split: sum.split)


subsection \<open>The steps\<close>

text \<open>A file whose digest was verified is there with it.\<close>

lemma verified_file:
  assumes P: "\<And>t d. P t d \<Longrightarrow> I t d" and E: "\<And>e t d. P t d \<Longrightarrow> E e t d"
  shows "always I P (verify_rooted_file_hash st path h never) (\<lambda>_ t d. P t d \<and> sha_at st t path h) E"
  unfolding verify_rooted_file_hash_def
proof (rule always_then)
  have c: "confined {} (=) (reject_symlinks st path)" by (rule confined_reject_symlinks) (auto simp: reflp_def transp_def)
  have "always I P (reject_symlinks st path) (\<lambda>_. P) (\<lambda>_. P)"
  proof (rule always_confined [OF c])
    show "P t' d'" if "P t d" "d = d'" "\<And>p. p \<notin> {} \<Longrightarrow> fmlookup t' p = fmlookup t p" for t d t' d'
      using that by (metis empty_iff fmap_ext)
  qed (rule P)
  then show "always I P (reject_symlinks st path) (\<lambda>_. P) E" by (rule always_weaken) (auto intro: P E)
  have r: "always I P (s_map_err (io_err ''open Managed Storage file for verification'') (read_file path))
      (\<lambda>c t d. P t d \<and> fmlookup t path = Some (File c)) E"
    unfolding read_file_def
    by (rule always_map_err, rule always_file) (auto intro: P E split: option.splits node.splits)
  show "always I P (s_bind (s_map_err (io_err ''open Managed Storage file for verification'') (read_file path)) (\<lambda>content.
        s_bind (s_poll never) (\<lambda>is_cancelled.
         if is_cancelled then s_fail (err_context ''hash Managed Storage file'' (err_sentinel Import_Cancelled))
         else if st_sha256 st content \<noteq> h
           then s_fail (err_new (''verify Managed Storage file hash: got '' @ st_sha256 st content @ '', want '' @ h))
         else s_return ()))) (\<lambda>_ t d. P t d \<and> sha_at st t path h) E"
    by (rule always_bind [OF r], rule always_bind [where R = "\<lambda>b. if b then (\<lambda>_ _. False) else (\<lambda>t d. P t d \<and> fmlookup t path = Some (File x))" for x])
      (auto simp: always_def s_poll_def never_def s_fail_def s_return_def sha_at_def intro: E)
qed

lemma verify_placement_step:
  assumes h: "h = cj_audio_sha256 j" and audio: "pf_audio p = audio"
  shows "always (hidden_or_placed st audio j) (holding j) (verify_placement st p h h')
     (\<lambda>_. holding_file st audio j) (\<lambda>_. holding j)"
  unfolding verify_placement_def h audio
proof (rule always_then)
  show "always (hidden_or_placed st audio j) (holding j) (open_root st) (\<lambda>_. holding j) (\<lambda>_. holding j)"
    by (rule keeps_holding) (auto intro: confined_open_root holds_on_order)
  have v: "always (hidden_or_placed st audio j) (holding j) (s_map_err (err_context ''verify canonical Managed Track'')
      (verify_rooted_file_hash st audio (cj_audio_sha256 j) never)) (\<lambda>_. holding_file st audio j) (\<lambda>_. holding j)"
    by (rule always_map_err, rule always_weaken [OF verified_file]) (auto simp: commit_states)
  have w: "always (hidden_or_placed st audio j) (holding_file st audio j)
      (if pf_artwork p \<noteq> [] then s_map_err (err_context ''verify canonical Album Artwork'') (verify_rooted_file_hash st (pf_artwork p) h' never)
       else s_return ()) (\<lambda>_. holding_file st audio j) (\<lambda>_. holding j)"
    by (rule always_weaken, rule keeps_holding_file [of "{}"])
      (auto intro!: confined_map_err confined_verify_hash confined_return holds_on_order simp: commit_states)
  show "always (hidden_or_placed st audio j) (holding j)
      (s_then (s_map_err (err_context ''verify canonical Managed Track'') (verify_rooted_file_hash st audio (cj_audio_sha256 j) never))
        (if pf_artwork p \<noteq> [] then s_map_err (err_context ''verify canonical Album Artwork'') (verify_rooted_file_hash st (pf_artwork p) h' never)
         else s_return ())) (\<lambda>_. holding_file st audio j) (\<lambda>_. holding j)"
    by (rule always_then [OF v w])
qed

text \<open>The paths of the new file and of the upload differ, so that removing the upload keeps the file.\<close>

definition staged_apart :: "storage \<Rightarrow> placed_files \<Rightarrow> bool" where
  "staged_apart st p \<longleftrightarrow> (case relative_path st (absolute_path st (pf_staged p)) of Inr r \<Rightarrow> r \<noteq> pf_audio p | Inl _ \<Rightarrow> True)"

lemma cleanup_step:
  assumes "staged_apart st p" "pf_audio p = audio"
  shows "always (hidden_or_placed st audio j) (holding_file st audio j) (cleanup_placement st p)
     (\<lambda>_. holding_file st audio j) (\<lambda>_. holding_file st audio j)"
proof (rule keeps_holding_file)
  show "confined {r. relative_path st (absolute_path st (pf_staged p)) = Inr r} (holds_on j) (cleanup_placement st p)"
    unfolding cleanup_placement_def remove_staged_def
    by (intro confined_bind_result confined_then confined_open_root confined_remove_rooted holds_on_order) simp
qed (use assms in \<open>auto simp: staged_apart_def\<close>)

lemma insert_track_commits: "insert_track env t cd d = Inr d' \<Longrightarrow> db_commits d' = db_commits d"
  by (auto simp: insert_track_def Let_def and_then_Inr_iff fresh_def dest!: sql_ok)

lemma write_commit_rows: "write_commit_data env t cd d = Inr d' \<Longrightarrow> db_commits d' = db_commits d"
  by (auto simp: write_commit_data_def Let_def and_then_Inr_iff same_rows_def
      dest!: upsert_artists_rows upsert_album_rows insert_track_commits insert_relationships_rows insert_artwork_rows)

lemma pending_step:
  assumes "id_track (cd_identity cd) = cj_track j"
  shows "confined S (holds_on j) (commit_pending env cd i)"
  unfolding commit_pending_def tx_def
proof (rule confined_tx [OF holds_on_order(1)])
  fix t d x d'
  assume "and_then (write_commit_data env t cd d) (\<lambda>d.
       and_then (sql ''hide pending Managed Track'' (\<lambda>d. d\<lparr>db_tracks :=
           update_where (\<lambda>x. tr_id x = id_track (cd_identity cd)) (\<lambda>x. x\<lparr>tr_pending := True\<rparr>) (db_tracks d)\<rparr>) d) (\<lambda>d.
       and_then (update_commit ''journal Managed Import database commit'' i (\<lambda>j. cj_phase j = C_Verified)
           (\<lambda>j. j\<lparr>cj_phase := C_Database_Committed\<rparr>) d) (\<lambda>d. Inr ((), d)))) = Inr (x, d')"
  then obtain d1 d2 where w: "write_commit_data env t cd d = Inr d1"
    and s: "d2 = d1\<lparr>db_tracks := update_where (\<lambda>x. tr_id x = cj_track j) (\<lambda>x. x\<lparr>tr_pending := True\<rparr>) (db_tracks d1)\<rparr>"
    and u: "update_commit ''journal Managed Import database commit'' i (\<lambda>j. cj_phase j = C_Verified)
           (\<lambda>j. j\<lparr>cj_phase := C_Database_Committed\<rparr>) d2 = Inr d'"
    using assms by (auto simp: and_then_Inr_iff dest!: sql_ok)
  have "held j d2" if "held j d"
    using that write_commit_rows [OF w] by (auto simp: held_def open_commits_def s track_hidden_def set_update_where)
  with update_commit_held [OF u] show "holds_on j d d'" by (auto simp: holds_on_def active_commit_def)
qed

lemma closed_journal:
  assumes "length (filter A js) \<le> 1" "length (filter G js) = 1" "\<And>x. G x \<Longrightarrow> A x" "\<And>x. \<not> A (g x)"
  shows "filter A (update_where G g js) = []"
proof -
  have "filter A (update_where G g xs) = filter (\<lambda>x. A x \<and> \<not> G x) xs" for xs
    by (induction xs) (auto simp: update_where_def assms(4))
  moreover have "length (filter A xs) = length (filter G xs) + length (filter (\<lambda>x. A x \<and> \<not> G x) xs)" for xs
    by (induction xs) (auto dest: assms(3))
  ultimately show ?thesis using assms(1, 2) by (metis add_le_same_cancel1 le_zero_eq length_0_conv)
qed

lemma publish_step:
  assumes i: "i = cj_track j"
  shows "always (hidden_or_placed st audio j) (holding_file st audio j) (finalize_commit env jb i k)
     (\<lambda>_. published st audio j) (\<lambda>_. hidden_or_placed st audio j)"
proof -
  have f: "published st audio j t d4"
    if h: "holding_file st audio j t d"
      and a: "sql_one op1 (\<lambda>x. tr_id x = i \<and> tr_pending x) db_tracks
          (\<lambda>d. d\<lparr>db_tracks := update_where (\<lambda>x. tr_id x = i \<and> tr_pending x) (\<lambda>x. x\<lparr>tr_pending := False\<rparr>) (db_tracks d)\<rparr>) d = Inr d1"
      and b: "mark_committed jb i d1 = Inr (r, d2)"
      and c: "update_commit op2 k (\<lambda>j. cj_phase j = C_Cleaned) g d2 = Inr d3" and g: "\<And>x. cj_phase (g x) = C_Completed"
      and e: "archive_standalone time newer x y d3 = Inr d4"
    for t d d1 d2 d3 d4 op1 op2 r g time newer x y
  proof -
    from a have d1: "d1 = d\<lparr>db_tracks := update_where (\<lambda>x. tr_id x = i \<and> tr_pending x) (\<lambda>x. x\<lparr>tr_pending := False\<rparr>) (db_tracks d)\<rparr>"
      and one: "length (filter (\<lambda>x. tr_id x = i \<and> tr_pending x) (db_tracks d)) = 1" by (auto dest!: sql_one_ok)
    from one have "filter (\<lambda>x. tr_id x = i \<and> tr_pending x) (db_tracks d) \<noteq> []" by auto
    then obtain v where "v \<in> set (db_tracks d)" "tr_id v = i" "tr_pending v"
      using last_in_set [of "filter (\<lambda>x. tr_id x = i \<and> tr_pending x) (db_tracks d)"] by auto
    then have shown: "track_shown i d1" unfolding track_shown_def d1
      by (intro bexI [of _ "v\<lparr>tr_pending := False\<rparr>"]) (auto simp: set_update_where intro!: bexI [of _ v])
    from b have d2: "db_tracks d2 = db_tracks d1" "db_commits d2 = db_commits d1"
      by (auto simp: mark_committed_def Let_def and_then_Inr_iff dest!: sql_one_ok)
    let ?G = "\<lambda>j. cj_id j = k \<and> cj_phase j = C_Cleaned"
    from c have d3: "d3 = d2\<lparr>db_commits := update_where ?G g (db_commits d2)\<rparr>"
      and one': "length (filter ?G (db_commits d2)) = 1" by (auto simp: update_commit_def dest!: sql_one_ok)
    from h have "length (filter active_commit (db_commits d2)) \<le> 1"
      by (simp add: holding_file_def held_def open_commits_def d2 d1)
    then have "filter active_commit (update_where ?G g (db_commits d2)) = []"
      by (rule closed_journal [OF _ one']) (simp_all add: active_commit_def g)
    then have "open_commits d3 = []" by (simp add: open_commits_def d3)
    with shown e h show ?thesis
      by (auto simp: published_def holding_file_def i d3 d2 open_commits_def track_shown_def same_rows_def dest!: archive_rows)
  qed
  show ?thesis unfolding finalize_commit_def Let_def tx_def
  proof (rule always_tx)
    fix t d x d'
    assume h: "holding_file st audio j t d"
      and r: "and_then (sql_one ''publish committed Managed Track'' (\<lambda>x. tr_id x = i \<and> tr_pending x) db_tracks
          (\<lambda>d. d\<lparr>db_tracks := update_where (\<lambda>x. tr_id x = i \<and> tr_pending x) (\<lambda>x. x\<lparr>tr_pending := False\<rparr>) (db_tracks d)\<rparr>) d) (\<lambda>d.
        and_then (mark_committed jb i d) (\<lambda>(result, d).
        and_then (update_commit ''complete Managed Import commit journal'' k (\<lambda>j. cj_phase j = C_Cleaned)
          (\<lambda>j. j\<lparr>cj_phase := C_Completed, cj_reason := (if cj_reason j = [] then ''commit completed'' else cj_reason j)\<rparr>) d) (\<lambda>d.
        and_then (archive_standalone (se_time env) (se_newer env) (jb_id jb) ''completed'' d) (\<lambda>d. Inr (result, d))))) = Inr (x, d')"
    from r obtain d1 y d2 d3 where
      "sql_one ''publish committed Managed Track'' (\<lambda>x. tr_id x = i \<and> tr_pending x) db_tracks
          (\<lambda>d. d\<lparr>db_tracks := update_where (\<lambda>x. tr_id x = i \<and> tr_pending x) (\<lambda>x. x\<lparr>tr_pending := False\<rparr>) (db_tracks d)\<rparr>) d = Inr d1"
      "mark_committed jb i d1 = Inr (y, d2)"
      "update_commit ''complete Managed Import commit journal'' k (\<lambda>j. cj_phase j = C_Cleaned)
          (\<lambda>j. j\<lparr>cj_phase := C_Completed, cj_reason := (if cj_reason j = [] then ''commit completed'' else cj_reason j)\<rparr>) d2 = Inr d3"
      "archive_standalone (se_time env) (se_newer env) (jb_id jb) ''completed'' d3 = Inr d'"
      by (auto simp: and_then_Inr_iff)
    from f [OF h this(1-3) _ this(4)] show "published st audio j t d'" by simp
    then show "hidden_or_placed st audio j t d'" for m by (simp add: hidden_or_placed_def)
  qed (auto simp: commit_states)
qed

text \<open>
  The runs of a commit and of its recovery: each phase, from the states it starts in to the states it
  can end in.
\<close>

subsection \<open>Placing\<close>

definition same_paths :: "placed_files \<Rightarrow> placed_files \<Rightarrow> bool" where
  "same_paths p q \<longleftrightarrow> pf_audio q = pf_audio p \<and> pf_staged q = pf_staged p"

lemma same_paths_update [simp]:
  "same_paths p (p\<lparr>pf_artwork_path := a\<rparr>)" "same_paths p p" "same_paths p (q\<lparr>pf_artwork_created := b\<rparr>) = same_paths p q"
  by (simp_all add: same_paths_def)

lemma place_commit_step:
  assumes plan: "plan_placement st sp ins i = Inr p"
  shows "always (hidden_or_placed st audio j) (holding j) (place st sp ins i (Some (mark_commit_artwork_created k)))
     (\<lambda>q t d. same_paths p q \<and> holding j t d) (\<lambda>_. holding j)"
proof -
  let ?H = "hidden_or_placed st audio j"
  have keep: "always ?H (holding j) m (\<lambda>_. holding j) (\<lambda>_. holding j)" if "confined UNIV (holds_on j) m" for m :: "(db, import_error, 'b) steps"
    by (rule keeps_holding [OF that])
  have stat: "always ?H (holding j) (file_metadata q) (\<lambda>_. holding j) (\<lambda>_. holding j)" for q
    by (rule keeps_holding [OF confined_file_metadata [OF holds_on_order(1)]])
  have prepare: "always ?H (holding j) (prepare_artwork st p ins i) (\<lambda>r t d. same_paths p (fst r) \<and> holding j t d) (\<lambda>_. holding j)"
    unfolding prepare_artwork_def Let_def
    by (intro always_if always_then [where R = "holding j"] always_handle [OF stat] always_return always_fail keeps_holding
        confined_map_err [of UNIV] confined_mono [OF confined_verify_hash, of _ "{}"] confined_mono [OF confined_matching_artwork, of _ "{}"] holds_on_order)
      auto
  have "always ?H (\<lambda>t d. same_paths p q \<and> holding j t d)
      (s_then (s_map_err (io_err ''place Managed Track at Canonical Library Path'') (rename_file (pf_staged q) (pf_audio q)))
      (if \<not> b then s_return q
       else s_bind (s_try (write_rooted_artwork st (pf_artwork q) (byte_text (art_data (ins_artwork ins)))
                      (art_sha256 (ins_artwork ins)) (Some (mark_commit_artwork_created k)))) (\<lambda>r.
         case r of
           Inr made \<Rightarrow> s_return (q\<lparr>pf_artwork_created := made\<rparr>)
         | Inl e \<Rightarrow> s_bind (s_err (restore_rooted_file st (pf_audio q) (pf_staged q))) (\<lambda>restored.
             s_fail (join_with_rest e [restored])))))
      (\<lambda>q t d. same_paths p q \<and> holding j t d) (\<lambda>_. holding j)" for q b
  proof (rule always_fact, rule always_then)
    show "always ?H (holding j) (s_map_err (io_err ''place Managed Track at Canonical Library Path'') (rename_file (pf_staged q) (pf_audio q)))
        (\<lambda>_. holding j) (\<lambda>_. holding j)"
      by (rule keeps_holding) (auto intro!: confined_map_err confined_rename_file holds_on_order)
    have w: "always ?H (holding j) (write_rooted_artwork st (pf_artwork q) (byte_text (art_data (ins_artwork ins)))
        (art_sha256 (ins_artwork ins)) (Some (mark_commit_artwork_created k))) (\<lambda>_. holding j) (\<lambda>_. holding j)"
      by (rule keeps_holding, rule confined_write_artwork) (auto intro: holds_on_order journal_updates_hold)
    have r: "always ?H (holding j) (restore_rooted_file st (pf_audio q) (pf_staged q)) (\<lambda>_. holding j) (\<lambda>_. holding j)"
      by (rule keeps_holding) (auto intro: confined_restore_rooted holds_on_order)
    assume "same_paths p q"
    then show "always ?H (holding j) (if \<not> b then s_return q
       else s_bind (s_try (write_rooted_artwork st (pf_artwork q) (byte_text (art_data (ins_artwork ins)))
                      (art_sha256 (ins_artwork ins)) (Some (mark_commit_artwork_created k)))) (\<lambda>r.
         case r of
           Inr made \<Rightarrow> s_return (q\<lparr>pf_artwork_created := made\<rparr>)
         | Inl e \<Rightarrow> s_bind (s_err (restore_rooted_file st (pf_audio q) (pf_staged q))) (\<lambda>restored.
             s_fail (join_with_rest e [restored])))) (\<lambda>q t d. same_paths p q \<and> holding j t d) (\<lambda>_. holding j)"
      by (intro always_if always_handle [OF w] always_noted [OF r] always_return always_fail) auto
  qed
  note place = this
  show ?thesis unfolding place_def place_planned_def plan
    apply (rule always_bind [where R = "\<lambda>q t d. q = p \<and> holding j t d"], rule always_result, simp, simp)
    apply (rule always_fact, simp only:)
    apply (rule always_then [where R = "holding j"], rule keeps_holding, rule confined_open_root, rule holds_on_order)
    apply (rule always_then [where R = "holding j"], rule keeps_holding, rule confined_ensure_directory, (rule holds_on_order)+, simp)
    apply (rule always_bind [OF prepare])
    using place by (auto split: prod.split)
qed

subsection \<open>Committing\<close>

lemma hop: "holding j t d \<Longrightarrow> hidden_or_placed st audio j t d" "published st audio j t d \<Longrightarrow> hidden_or_placed st audio j t d"
  "holding_file st audio j t d \<Longrightarrow> hidden_or_placed st audio j t d" "holding_file st audio j t d \<Longrightarrow> holding j t d"
  by (auto simp: commit_states)

lemma create_step:
  assumes "active_commit j"
  shows "always (hidden_or_placed st audio j) (\<lambda>t d. track_hidden (cj_track j) d \<and> open_commits d = [])
     (create_commit_journal j) (\<lambda>_. holding j) (\<lambda>_. holding j)"
  unfolding create_commit_journal_def
  by (rule always_statement) (use assms in \<open>auto simp: commit_states held_def open_commits_def track_hidden_def dest!: sql_ok\<close>)

lemma undo_commit_step:
  "always (hidden_or_placed st audio j) (holding j) (rollback_filesystem_commit env k p reason) (\<lambda>_. holding j) (\<lambda>_. holding j)"
  by (rule keeps_holding [OF rollback_commit_holds])

lemma journal_steps:
  "always (hidden_or_placed st audio j) (holding j) (mark_commit_placed i b) (\<lambda>_. holding j) (\<lambda>_. holding j)"
  "always (hidden_or_placed st audio j) (holding j) (rollback_commit_journal i reason) (\<lambda>_. holding j) (\<lambda>_. holding j)"
  "always (hidden_or_placed st audio j) (holding_file st audio j) (update_commit_phase i a) (\<lambda>_. holding_file st audio j) (\<lambda>_. holding_file st audio j)"
  by (auto intro!: keeps_holding keeps_holding_file [of "{}"] journal_updates_hold)

lemma place_and_verify_commit_step:
  assumes plan: "plan_placement (se_storage env) (jb_staged_path jb) ins i = Inr p" and j: "cj_audio_sha256 j = cj_audio_sha256 k"
    and st: "se_storage env = st"
  shows "always (hidden_or_placed st (pf_audio p) j) (holding j) (place_and_verify_commit env jb ins i k)
     (\<lambda>q t d. same_paths p q \<and> holding_file st (pf_audio p) j t d) (\<lambda>_. holding j)"
  unfolding place_and_verify_commit_def Let_def st
proof (rule always_bind)
  let ?H = "hidden_or_placed st (pf_audio p) j"
  show "always ?H (holding j) (or_else (place st (jb_staged_path jb) ins i (Some (mark_commit_artwork_created (cj_id k))))
      (\<lambda>e. fail_after e (rollback_commit_journal (cj_id k) ''canonical placement failed'')))
      (\<lambda>q t d. same_paths p q \<and> holding j t d) (\<lambda>_. holding j)"
    using plan by (intro always_or_else [OF place_commit_step] always_fail_after [OF journal_steps(2)]) (auto simp: st)
  have v: "always ?H (holding j) (or_else (verify_placement st q (cj_audio_sha256 k) (cj_artwork_sha256 k))
      (\<lambda>e. fail_after e (rollback_filesystem_commit env k q ''canonical verification failed''))) (\<lambda>_. holding_file st (pf_audio p) j) (\<lambda>_. holding j)"
    if "same_paths p q" for q
    by (intro always_or_else [OF verify_placement_step] always_fail_after [OF undo_commit_step]) (use that j in \<open>auto simp: same_paths_def\<close>)
  have u: "always ?H (holding_file st (pf_audio p) j) (update_commit_phase (cj_id k) C_Verified) (\<lambda>_. holding_file st (pf_audio p) j) (\<lambda>_. holding j)"
    by (rule always_weaken [OF journal_steps(3)]) (auto intro: hop)
  show "always ?H (\<lambda>t d. same_paths p q \<and> holding j t d)
      (s_then (mark_commit_placed (cj_id k) (pf_artwork_created q))
      (s_then (or_else (verify_placement st q (cj_audio_sha256 k) (cj_artwork_sha256 k))
                (\<lambda>e. fail_after e (rollback_filesystem_commit env k q ''canonical verification failed'')))
      (s_then (update_commit_phase (cj_id k) C_Verified) (s_return q))))
      (\<lambda>q t d. same_paths p q \<and> holding_file st (pf_audio p) j t d) (\<lambda>_. holding j)" for q
    by (rule always_fact, rule always_then [OF journal_steps(1)], rule always_then [OF v], assumption, rule always_then [OF u], rule always_return) simp
qed

lemma persist_step:
  assumes i: "id_track i = cj_track j" and apart: "staged_apart st p" and same: "same_paths p q" and st: "se_storage env = st"
  shows "always (hidden_or_placed st (pf_audio p) j) (holding_file st (pf_audio p) j) (persist_and_finalize_commit env jb ins i k q album_key)
     (\<lambda>_. published st (pf_audio p) j) (\<lambda>_. hidden_or_placed st (pf_audio p) j)"
  unfolding persist_and_finalize_commit_def st
proof (rule always_then)
  let ?H = "hidden_or_placed st (pf_audio p) j" and ?F = "holding_file st (pf_audio p) j"
  have c: "always ?H ?F (commit_pending env \<lparr>cd_identity = i, cd_placement = q, cd_inspection = ins, cd_album_key = album_key\<rparr> l) (\<lambda>_. ?F) (\<lambda>_. ?F)" for l
    by (rule keeps_holding_file [of "{}"], rule pending_step) (auto simp: i)
  have r: "always ?H ?F (get_commit_journal l) (\<lambda>_. ?F) (\<lambda>_. ?F)" for l
    unfolding get_commit_journal_def by (rule keeps_holding_file [of "{}"]) (auto intro: confined_query holds_on_order)
  have f: "always ?H ?F (s_fail x) Q (\<lambda>_. ?H)" for x :: import_error and Q :: "unit \<Rightarrow> tree \<Rightarrow> db \<Rightarrow> bool"
    by (rule always_fail) (auto intro: hop)
  show "always ?H ?F (or_else (commit_pending env \<lparr>cd_identity = i, cd_placement = q, cd_inspection = ins, cd_album_key = album_key\<rparr> (cj_id k)) (\<lambda>e.
         s_bind (s_try (get_commit_journal (cj_id k))) (\<lambda>read.
           case read of
             Inl r \<Rightarrow> s_fail (join_with_rest e [Some r])
           | Inr persisted \<Rightarrow>
               if cj_phase persisted = C_Verified
               then fail_after e (rollback_filesystem_commit env persisted q ''database commit failed'')
               else s_fail e))) (\<lambda>_. ?F) (\<lambda>_. ?H)"
    by (intro always_or_else [OF c] always_handle [where F = "\<lambda>_. ?F" and R = "\<lambda>_. ?F"] always_weaken [OF r] always_if f
        forget_file always_fail_after [OF undo_commit_step]) (auto intro: hop)
  have cl: "always ?H ?F (cleanup_placement st q) (\<lambda>_. ?F) (\<lambda>_. ?H)"
    by (rule always_weaken [OF cleanup_step]) (use apart same in \<open>auto simp: staged_apart_def same_paths_def intro: hop split: sum.splits\<close>)
  have u: "always ?H ?F (update_commit_phase (cj_id k) C_Cleaned) (\<lambda>_. ?F) (\<lambda>_. ?H)"
    by (rule always_weaken [OF journal_steps(3)]) (auto intro: hop)
  show "always ?H ?F (s_then (cleanup_placement st q) (s_then (update_commit_phase (cj_id k) C_Cleaned)
       (finalize_commit env jb (id_track i) (cj_id k)))) (\<lambda>_. published st (pf_audio p) j) (\<lambda>_. ?H)"
    by (rule always_then [OF cl], rule always_then [OF u], rule publish_step [OF i])
qed

text \<open>An import that is ready to run: no import is open and no row has the id of the new Track.\<close>

definition import_ready :: "service_env \<Rightarrow> string \<Rightarrow> job \<Rightarrow> media_inspection \<Rightarrow> commit_identity \<Rightarrow> db \<Rightarrow> bool" where
  "import_ready env uuid jb ins i d \<longleftrightarrow>
     open_commits d = [] \<and> (\<forall>x \<in> set (db_tracks d). tr_id x \<noteq> id_track i)
     \<and> (case plan_placement (se_storage env) (jb_staged_path jb) ins i of
          Inr p \<Rightarrow> staged_apart (se_storage env) p
            \<and> (case placement_from_journal (se_storage env) (commit_journal_of uuid jb ins i p) of Inr q \<Rightarrow> same_paths p q | Inl _ \<Rightarrow> False)
        | Inl _ \<Rightarrow> False)"

lemma commit_step:
  assumes plan: "plan_placement (se_storage env) (jb_staged_path jb) ins i = Inr p" and apart: "staged_apart st p"
    and st: "se_storage env = st" and j: "j = commit_journal_of uuid jb ins i p"
  shows "always (hidden_or_placed st (pf_audio p) j) (\<lambda>t d. track_hidden (id_track i) d \<and> open_commits d = [])
     (commit_as env uuid jb ins album_key i) (\<lambda>_. published st (pf_audio p) j) (\<lambda>_. hidden_or_placed st (pf_audio p) j)"
proof -
  let ?H = "hidden_or_placed st (pf_audio p) j"
  have t: "cj_track j = id_track i" "active_commit j" by (simp_all add: j commit_journal_of_def active_commit_def)
  have c: "always ?H (\<lambda>t d. track_hidden (id_track i) d \<and> open_commits d = []) (create_commit_journal j) (\<lambda>_. holding j) (\<lambda>_. ?H)"
    using create_step [OF t(2), of st "pf_audio p"] by (rule always_weaken) (auto simp: t intro: hop)
  have v: "always ?H (holding j) (place_and_verify_commit env jb ins i j)
     (\<lambda>q t d. same_paths p q \<and> holding_file st (pf_audio p) j t d) (\<lambda>_. ?H)"
    by (rule always_weaken [OF place_and_verify_commit_step [OF plan refl st]]) (auto intro: hop)
  show ?thesis unfolding commit_as_def plan s_result_def Let_def j [symmetric]
    apply (simp add: j [symmetric])
    apply (rule always_bind [where R = "\<lambda>q t d. q = p \<and> track_hidden (id_track i) d \<and> open_commits d = []"], rule always_return, simp)
    apply (rule always_fact, simp only: j [symmetric])
    apply (rule always_then [OF c], rule always_bind [OF v], rule always_fact, rule persist_step [OF _ apart _ st], simp add: t, assumption)
    done
qed

end
