(* ===== verification/Commit_Claims.thy ===== *)
theory Commit_Claims
  imports Commit_Safety Replacement_Recovery
begin

text \<open>
  What an import promises: a Track that can be seen has its file, with its digest, whatever fails and
  wherever the commit or a recovery after it is cut short.
\<close>

subsection \<open>Recovery\<close>

lemma cascade_shrinks: "db_commits (cascade_track ids d) = db_commits d \<and> set (db_tracks (cascade_track ids d)) \<subseteq> set (db_tracks d)"
  by (auto simp: cascade_track_def delete_where_def)

lemma pending_rolled_back_holds:
  assumes k: "commit_core k = commit_core j"
  shows "confined S (holds_on j) (rollback_pending_commit k reason)"
  unfolding rollback_pending_commit_def
proof (rule confined_statement [OF holds_on_order(1)])
  fix d d' :: db
  let ?ids = "set (map tr_id (filter (\<lambda>x. tr_id x = cj_track k \<and> tr_pending x) (db_tracks d)))"
  assume r: "and_then (sql ''delete pending Album Artwork'' (\<lambda>d. d\<lparr>db_artwork := delete_where (\<lambda>a. aw_source a = cj_track k) (db_artwork d)\<rparr>) d) (\<lambda>d.
       and_then (sql ''delete pending Managed Track''
         (\<lambda>d. cascade_track (set (map tr_id (filter (\<lambda>x. tr_id x = cj_track k \<and> tr_pending x) (db_tracks d)))) d) d)
         (reset_open_journal ''journal pending Managed Import rollback'' (cj_id k) C_Verified reason)) = Inr d'"
  then obtain d0 d1 where d0: "sql ''delete pending Album Artwork'' (\<lambda>d. d\<lparr>db_artwork := delete_where (\<lambda>a. aw_source a = cj_track k) (db_artwork d)\<rparr>) d = Inr d0"
    and d1: "sql ''delete pending Managed Track''
         (\<lambda>d. cascade_track (set (map tr_id (filter (\<lambda>x. tr_id x = cj_track k \<and> tr_pending x) (db_tracks d)))) d) d0 = Inr d1"
    and u: "reset_open_journal ''journal pending Managed Import rollback'' (cj_id k) C_Verified reason d1 = Inr d'"
    by (auto simp: and_then_Inr_iff)
  have d1: "db_commits d1 = db_commits d" "set (db_tracks d1) \<subseteq> set (db_tracks d)"
    using sql_ok [OF d0] sql_ok [OF d1] cascade_shrinks [of _ d0] by (auto dest!: subsetD [OF conjunct2 [OF cascade_shrinks]])
  have "held j d \<Longrightarrow> held j d1" using d1 by (auto simp: held_def open_commits_def track_hidden_def)
  with update_commit_held [OF u [unfolded reset_open_journal_def]] show "holds_on j d d'"
    by (auto simp: holds_on_def active_commit_def)
qed

lemma journal_core_fields:
  "commit_core k = commit_core j \<Longrightarrow> cj_track k = cj_track j \<and> cj_audio_sha256 k = cj_audio_sha256 j \<and> cj_id k = cj_id j
     \<and> cj_audio_path k = cj_audio_path j \<and> cj_artwork_path k = cj_artwork_path j \<and> cj_staged_path k = cj_staged_path j"
  by (cases k; cases j) (simp add: commit_core_def)

lemma core_placement:
  assumes "commit_core k = commit_core j" "placement_from_journal st j = Inr q" "placement_from_journal st k = Inr q'"
  shows "same_paths q q'"
  using assms(2, 3) journal_core_fields [OF assms(1)] by (auto simp: placement_from_journal_def and_then_Inr_iff same_paths_def)

lemma complete_pending_step:
  assumes k: "commit_core k = commit_core j" and apart: "staged_apart st p" and same: "same_paths p q" and st: "se_storage env = st"
  shows "always (hidden_or_placed st (pf_audio p) j) (holding j) (complete_pending_journal env k q)
     (\<lambda>_. hidden_or_placed st (pf_audio p) j) (\<lambda>_. hidden_or_placed st (pf_audio p) j)"
  unfolding complete_pending_journal_def Let_def st
proof (rule always_noted)
  let ?H = "hidden_or_placed st (pf_audio p) j" and ?F = "holding_file st (pf_audio p) j"
  have audio: "pf_audio q = pf_audio p" using same by (simp add: same_paths_def)
  show "always ?H (holding j) (verify_placement st q (cj_audio_sha256 k) (cj_artwork_sha256 k))
      (\<lambda>_. case None of None \<Rightarrow> ?F | Some _ \<Rightarrow> holding j) (\<lambda>e. case Some e of None \<Rightarrow> ?F | Some _ \<Rightarrow> holding j)"
    using verify_placement_step [OF _ audio, of "cj_audio_sha256 k" j st "cj_artwork_sha256 k"] journal_core_fields [OF k] by simp
  fix bad
  have roll: "always ?H (holding j) (s_then (rollback_pending_commit k reason)
             (s_then (or_else (rollback_placement st q) (record_reason_with (cj_id k) reason'))
               (rollback_commit_journal (cj_id k) reason))) (\<lambda>_. ?H) (\<lambda>_. ?H)" for reason reason'
  proof -
    have "confined UNIV (holds_on j) (s_then (rollback_pending_commit k reason)
             (s_then (or_else (rollback_placement st q) (record_reason_with (cj_id k) reason'))
               (rollback_commit_journal (cj_id k) reason)))"
      unfolding record_reason_with_def
      by (intro confined_then confined_or_else confined_fail_after pending_rolled_back_holds k rollback_placement_holds journal_updates_hold holds_on_order)
    from keeps_holding [OF this, of st "pf_audio p"] show ?thesis by (rule always_weaken) (auto intro: hop)
  qed
  have clean: "always ?H ?F (if cj_phase k = C_Database_Committed
        then s_then (cleanup_placement st q) (update_commit_phase (cj_id k) C_Cleaned) else s_return ()) (\<lambda>_. ?F) (\<lambda>_. ?F)"
    using apart same
    by (intro always_if always_then [OF cleanup_step journal_steps(3)] always_return)
      (auto simp: staged_apart_def same_paths_def split: sum.splits)
  have job: "always ?H ?F (get_job i) (\<lambda>_. ?F) (\<lambda>_. ?H)" for i
    unfolding get_job_def by (rule always_query) (auto intro: hop)
  have "always ?H ?F (s_then (if cj_phase k = C_Database_Committed
        then s_then (cleanup_placement st q) (update_commit_phase (cj_id k) C_Cleaned) else s_return ())
      (s_bind (get_job (cj_job k)) (\<lambda>jb. s_then (finalize_commit env jb (cj_track k) (cj_id k)) (s_return ())))) (\<lambda>_. ?H) (\<lambda>_. ?H)"
  proof (rule always_then [where R = ?F], rule always_weaken [OF clean])
    show "always ?H ?F (s_bind (get_job (cj_job k)) (\<lambda>jb. s_then (finalize_commit env jb (cj_track k) (cj_id k)) (s_return ()))) (\<lambda>_. ?H) (\<lambda>_. ?H)"
      by (rule always_bind [OF job], rule always_then [OF publish_step], simp add: journal_core_fields [OF k], rule always_return, erule hop)
  qed (auto intro: hop)
  with roll show "always ?H ((case bad of None \<Rightarrow> ?F | Some _ \<Rightarrow> holding j))
      (case bad of
          Some verification \<Rightarrow>
             s_then (rollback_pending_commit k (''restart rolled back commit because canonical verification failed: '' @ err_message verification))
             (s_then (or_else (rollback_placement st q) (record_reason_with (cj_id k)
                 ((''restart rolled back commit because canonical verification failed: '' @ err_message verification) @ ''; filesystem rollback failed'')))
               (rollback_commit_journal (cj_id k) (''restart rolled back commit because canonical verification failed: '' @ err_message verification)))
        | None \<Rightarrow>
            s_then (if cj_phase k = C_Database_Committed
                    then s_then (cleanup_placement st q) (update_commit_phase (cj_id k) C_Cleaned) else s_return ())
              (s_bind (get_job (cj_job k)) (\<lambda>jb. s_then (finalize_commit env jb (cj_track k) (cj_id k)) (s_return ()))))
      (\<lambda>_. ?H) (\<lambda>_. ?H)"
    by (cases bad) simp_all
qed

lemma recover_commit_step:
  assumes k: "commit_core k = commit_core j" and apart: "staged_apart st p" and st: "se_storage env = st"
    and q: "placement_from_journal st j = Inr q" "same_paths p q"
  shows "always (hidden_or_placed st (pf_audio p) j) (holding j) (recover_commit env k)
     (\<lambda>_. hidden_or_placed st (pf_audio p) j) (\<lambda>_. hidden_or_placed st (pf_audio p) j)"
proof (cases "placement_from_journal st k")
  case (Inl e)
  have "confined UNIV (holds_on j) (recover_commit env k)"
    unfolding recover_commit_def st Inl by (auto intro!: confined_fail_after journal_updates_hold holds_on_order)
  from keeps_holding [OF this, of st "pf_audio p"] show ?thesis by (rule always_weaken) (auto intro: hop)
next
  case (Inr q')
  have same: "same_paths p q'" using core_placement [OF k q(1) Inr] q(2) by (simp add: same_paths_def)
  have u: "always (hidden_or_placed st (pf_audio p) j) (holding j) (rollback_uncommitted_journal env k q')
     (\<lambda>_. hidden_or_placed st (pf_audio p) j) (\<lambda>_. hidden_or_placed st (pf_audio p) j)"
    by (rule always_weaken [OF keeps_holding [OF rollback_uncommitted_holds]]) (auto intro: hop)
  show ?thesis unfolding recover_commit_def st Inr
    by (auto intro!: always_if u complete_pending_step [OF k apart same st] always_fail intro: hop)
qed

lemma recover_commits_step:
  assumes apart: "staged_apart st p" and st: "se_storage env = st" and q: "placement_from_journal st j = Inr q" "same_paths p q"
  shows "always (hidden_or_placed st (pf_audio p) j) (hidden_or_placed st (pf_audio p) j) (recover_commits env)
     (\<lambda>_. hidden_or_placed st (pf_audio p) j) (\<lambda>_. hidden_or_placed st (pf_audio p) j)"
  unfolding recover_commits_def
proof (rule always_bind)
  let ?H = "hidden_or_placed st (pf_audio p) j"
  let ?G = "\<lambda>js t d. js = [] \<and> ?H t d \<or> (\<exists>k. js = [k] \<and> commit_core k = commit_core j) \<and> holding j t d"
  show "always ?H ?H list_incomplete_commit_journals ?G (\<lambda>_. ?H)"
    unfolding list_incomplete_commit_journals_def
  proof (rule always_query)
    fix t d x
    assume h: "?H t d" and "Inr (filter active_commit (db_commits d)) = Inr x"
    then have x: "x = open_commits d" by (simp add: open_commits_def)
    show "?G x t d"
    proof (cases "x = []")
      case False
      with h x have d: "held j d" by (auto simp: commit_states)
      then obtain k where "open_commits d = [k]" using False x by (cases "open_commits d") (auto simp: held_def)
      with d x show ?thesis by (auto simp: commit_states held_def)
    qed (simp add: h)
  qed auto
  fix js
  have fin: "always ?H ?H (recover_commits_of env [] fs) (\<lambda>_. ?H) (\<lambda>_. ?H)" for fs
    by (auto intro: always_result)
  have one: "always ?H (holding j) (recover_commits_of env [k] []) (\<lambda>_. ?H) (\<lambda>_. ?H)" if "commit_core k = commit_core j" for k
    unfolding recover_commits_of.simps(2)
    by (rule always_noted [where R = "\<lambda>_. ?H"], rule always_map_err, rule recover_commit_step [OF that apart st q], rule fin)
  show "always ?H (?G js) (recover_commits_of env js []) (\<lambda>_. ?H) (\<lambda>_. ?H)"
  proof (cases "\<exists>k. js = [k] \<and> commit_core k = commit_core j")
    case True
    then show ?thesis using one by (auto elim: always_pre)
  next
    case False
    show ?thesis
    proof (cases "js = []")
      case True
      with fin show ?thesis by simp
    next
      case none: False
      show ?thesis by (rule always_pre [OF always_never]) (use False none in auto)
    qed
  qed
qed

text \<open>Restarts, each with fates of its own.\<close>

fun commit_restarts :: "service_env \<Rightarrow> (nat \<Rightarrow> fate) list \<Rightarrow> db world \<Rightarrow> db world" where
  "commit_restarts env [] w = w"
| "commit_restarts env (f # fs) w = commit_restarts env fs (snd (recover_commits env (w\<lparr>fates := f, ticks := 0\<rparr>)))"

lemma restarts_placed:
  assumes "staged_apart st p" "se_storage env = st" "placement_from_journal st j = Inr q" "same_paths p q"
  shows "hidden_or_placed st (pf_audio p) j (tree w) (db w)
    \<Longrightarrow> hidden_or_placed st (pf_audio p) j (tree (commit_restarts env fs w)) (db (commit_restarts env fs w))"
proof (induction fs arbitrary: w)
  case (Cons f fs)
  have "hidden_or_placed st (pf_audio p) j (tree (w\<lparr>fates := f, ticks := 0\<rparr>)) (db (w\<lparr>fates := f, ticks := 0\<rparr>))" using Cons.prems by simp
  from always_world [OF recover_commits_step [OF assms] this] Cons.IH show ?case by simp
qed simp

subsection \<open>The properties\<close>

definition import_job :: job where
  "import_job = demo_job\<lparr>jb_replace_track := []\<rparr>"

definition import_identity :: commit_identity where
  "import_identity = demo_identity\<lparr>id_track := ''4''\<rparr>"

definition import_world :: "(nat \<Rightarrow> fate) \<Rightarrow> db world" where
  "import_world f = (demo_world f)\<lparr>db := demo_db\<lparr>db_jobs := [import_job]\<rparr>\<rparr>"

definition import_run :: "(nat \<Rightarrow> fate) \<Rightarrow> (import_error, import_result) ending \<times> db world" where
  "import_run f = commit_as demo_service ''c'' import_job (demo_inspection ''new'') (txt_of ''K'') import_identity (import_world f)"

lemma import_demo_ready: "import_ready demo_service ''c'' import_job (demo_inspection ''new'') import_identity (db (import_world f))"
proof -
  have "import_ready demo_service ''c'' import_job (demo_inspection ''new'') import_identity (demo_db\<lparr>db_jobs := [import_job]\<rparr>)" by code_simp
  then show ?thesis by (simp add: import_world_def demo_world_def)
qed

lemma ready_facts:
  assumes "import_ready env uuid jb ins i d"
  obtains p q where "plan_placement (se_storage env) (jb_staged_path jb) ins i = Inr p" "staged_apart (se_storage env) p"
    "placement_from_journal (se_storage env) (commit_journal_of uuid jb ins i p) = Inr q" "same_paths p q"
    "track_hidden (id_track i) d" "open_commits d = []"
  using assms by (auto simp: import_ready_def track_hidden_def split: sum.splits)

text \<open>C2: for a ready import, after \<open>commit_as\<close> with any fates of its steps and any number of restarts
  with any fates, every row of the new Track is hidden, or no journal is open and the file is at the
  planned path with the digest the inspection found.\<close>

theorem import_shows_only_placed_tracks:
  assumes "import_ready env uuid jb ins i (db w)"
    and "w' = commit_restarts env fs (snd (commit_as env uuid jb ins album_key i w))"
    and "x \<in> set (db_tracks (db w'))" "tr_id x = id_track i" "\<not> tr_pending x"
    and "plan_placement (se_storage env) (jb_staged_path jb) ins i = Inr p"
  shows "open_commits (db w') = [] \<and> sha_at (se_storage env) (tree w') (pf_audio p) (ins_sha256 ins)"
proof -
  let ?j = "commit_journal_of uuid jb ins i p" and ?st = "se_storage env"
  obtain q where p: "staged_apart ?st p" "placement_from_journal ?st ?j = Inr q" "same_paths p q"
    and w: "track_hidden (id_track i) (db w) \<and> open_commits (db w) = []"
    using ready_facts [OF assms(1)] assms(6) by (metis sum.inject(2))
  have "always (hidden_or_placed ?st (pf_audio p) ?j) (\<lambda>t d. track_hidden (id_track i) d \<and> open_commits d = [])
     (commit_as env uuid jb ins album_key i) (\<lambda>_. hidden_or_placed ?st (pf_audio p) ?j) (\<lambda>_. hidden_or_placed ?st (pf_audio p) ?j)"
    by (rule always_weaken [OF commit_step [OF assms(6) p(1) refl refl]]) (auto intro: hop)
  from always_world [OF this w] have "hidden_or_placed ?st (pf_audio p) ?j (tree w') (db w')"
    using restarts_placed [OF p(1) refl p(2, 3)] by (simp add: assms(2))
  then show ?thesis using assms(3-5)
    by (auto simp: commit_states held_def track_hidden_def commit_journal_of_def)
qed

theorem import_shows_only_placed_tracks_witness:
  "\<exists>x p. plan_placement demo_storage (jb_staged_path import_job) (demo_inspection ''new'') import_identity = Inr p
     \<and> x \<in> set (db_tracks (db (commit_restarts demo_service [\<lambda>_. Goes] (snd (import_run (\<lambda>n. if n = 17 then Dies else Goes))))))
     \<and> tr_id x = ''4'' \<and> \<not> tr_pending x
     \<and> sha_at demo_storage (tree (commit_restarts demo_service [\<lambda>_. Goes] (snd (import_run (\<lambda>n. if n = 17 then Dies else Goes))))) (pf_audio p) ''new''"
proof -
  let ?w = "commit_restarts demo_service [\<lambda>_. Goes] (snd (import_run (\<lambda>n. if n = 17 then Dies else Goes)))"
  have "list_ex (\<lambda>x. tr_id x = ''4'' \<and> \<not> tr_pending x) (db_tracks (db ?w))" by code_simp
  then obtain x where x: "x \<in> set (db_tracks (db ?w))" "tr_id x = ''4''" "\<not> tr_pending x" by (auto simp: list_ex_iff)
  have s: "se_storage demo_service = demo_storage" "id_track import_identity = ''4''" "ins_sha256 (demo_inspection ''new'') = ''new''"
    by (simp_all add: demo_service_def import_identity_def demo_identity_def demo_inspection_def)
  obtain p q where p: "plan_placement (se_storage demo_service) (jb_staged_path import_job) (demo_inspection ''new'') import_identity = Inr p"
    by (rule ready_facts [OF import_demo_ready])
  have "sha_at demo_storage (tree ?w) (pf_audio p) ''new''"
    using import_shows_only_placed_tracks [OF import_demo_ready refl x(1) [unfolded import_run_def] _ x(3) p] x(2) by (simp add: s import_run_def)
  with x p show ?thesis by (auto simp: s)
qed

text \<open>C32: when \<open>commit_as\<close> succeeds for a ready import, the new Track can be seen, its file is at the
  planned path with the digest the inspection found, and no journal is open.\<close>

theorem import_done_publishes_the_track:
  assumes "import_ready env uuid jb ins i (db w)" and "commit_as env uuid jb ins album_key i w = (Done r, w')"
    and "plan_placement (se_storage env) (jb_staged_path jb) ins i = Inr p"
  shows "track_shown (id_track i) (db w') \<and> open_commits (db w') = []
    \<and> sha_at (se_storage env) (tree w') (pf_audio p) (ins_sha256 ins)"
proof -
  let ?j = "commit_journal_of uuid jb ins i p" and ?st = "se_storage env"
  have p: "staged_apart ?st p" and w: "track_hidden (id_track i) (db w) \<and> open_commits (db w) = []"
    using ready_facts [OF assms(1)] assms(3) by (metis sum.inject(2))+
  from alwaysD [OF commit_step [OF assms(3) p refl refl] w assms(2)] show ?thesis
    by (simp add: published_def commit_journal_of_def)
qed

theorem import_done_publishes_the_track_witness:
  "\<exists>r w' p. plan_placement demo_storage (jb_staged_path import_job) (demo_inspection ''new'') import_identity = Inr p
     \<and> import_run (\<lambda>_. Goes) = (Done r, w') \<and> track_shown ''4'' (db w') \<and> sha_at demo_storage (tree w') (pf_audio p) ''new''"
proof -
  have "case fst (import_run (\<lambda>_. Goes)) of Done _ \<Rightarrow> True | _ \<Rightarrow> False" by code_simp
  then obtain r w' where r: "import_run (\<lambda>_. Goes) = (Done r, w')" by (cases "import_run (\<lambda>_. Goes)") (auto split: ending.splits)
  have s: "se_storage demo_service = demo_storage" "id_track import_identity = ''4''" "ins_sha256 (demo_inspection ''new'') = ''new''"
    by (simp_all add: demo_service_def import_identity_def demo_identity_def demo_inspection_def)
  obtain p q where p: "plan_placement (se_storage demo_service) (jb_staged_path import_job) (demo_inspection ''new'') import_identity = Inr p"
    by (rule ready_facts [OF import_demo_ready])
  from import_done_publishes_the_track [OF import_demo_ready r [unfolded import_run_def] p] r p show ?thesis by (auto simp: s)
qed

end
