(* ===== verification/Track_Deletion.thy ===== *)
theory Track_Deletion
  imports Track_Replacement
begin

text \<open>
  Permanent deletion of a Track and of an Album (\<open>deletion.rs\<close>): the deletion is journaled and the
  Track hidden before its files are removed, and its rows go when they are. The JSON text of the
  payload of a token is an argument (\<open>serde_json\<close>), as are the times the journal is ordered by: the
  rows are kept in that order.
\<close>

record deletion_state =
  ds_track :: string
  ds_title :: utext
  ds_file :: string
  ds_size :: int
  ds_playlists :: "(string \<times> utext) list"
  ds_queues :: "(string \<times> nat) list"
  ds_token :: string
  ds_album :: string
  ds_path :: string
  ds_sha256 :: string
  ds_artwork_path :: string
  ds_artwork_sha256 :: string
  ds_track_revision :: int
  ds_source_revision :: int

definition deletion_blank :: deletion_state where
  "deletion_blank = \<lparr>ds_track = [], ds_title = [], ds_file = [], ds_size = 0, ds_playlists = [], ds_queues = [], ds_token = [], ds_album = [],
     ds_path = [], ds_sha256 = [], ds_artwork_path = [], ds_artwork_sha256 = [], ds_track_revision = 0, ds_source_revision = 0\<rparr>"

record album_deletion_track =
  at_track :: string
  at_title :: utext
  at_size :: int

record album_deletion =
  ad_album :: string
  ad_title :: utext
  ad_count :: int
  ad_size :: int
  ad_tracks :: "album_deletion_track list"
  ad_playlists :: "(string \<times> utext) list"
  ad_queues :: "(string \<times> nat) list"
  ad_token :: string

record album_result =
  ab_deleted :: "album_deletion_track list"
  ab_stopped :: "(string \<times> utext \<times> string) option"
  ab_files :: int

text \<open>The JSON texts of the two payloads.\<close>

record payload_texts =
  track_payload :: "deletion_state \<Rightarrow> string"
  album_payload :: "string \<Rightarrow> int \<Rightarrow> string list \<Rightarrow> string"

subsection \<open>Tokens\<close>

definition byte_of :: "char \<Rightarrow> 8 word" where
  "byte_of c = of_nat (of_char c)"

definition tokens_equal :: "string \<Rightarrow> string \<Rightarrow> bool" where
  "tokens_equal expected actual =
     (length expected = length actual
      \<and> fold (\<lambda>(a, b) difference. or difference (xor (byte_of a) (byte_of b))) (zip expected actual) 0 = 0)"

definition deletion_token :: "storage \<Rightarrow> payload_texts \<Rightarrow> deletion_state \<Rightarrow> string" where
  "deletion_token st texts s = st_sha256 st (track_payload texts s)"

subsection \<open>What a deletion would take\<close>

definition list_playlists :: "string \<Rightarrow> db \<Rightarrow> (string \<times> utext) list" where
  "list_playlists track_id d =
     sort_key snd (sort_key fst (map (\<lambda>p. (pe_playlist p, pe_playlist_name p)) (filter (\<lambda>p. pe_track p = track_id) (db_playlists d))))"

definition final_artwork :: "string \<Rightarrow> string \<Rightarrow> db \<Rightarrow> artwork_row option" where
  "final_artwork track_id album_id d =
     (if \<exists>x \<in> set (db_tracks d). tr_album x = album_id \<and> tr_id x \<noteq> track_id then None
      else find (\<lambda>a. aw_album a = album_id) (db_artwork d))"

definition deletion_row :: "string \<Rightarrow> db \<Rightarrow> import_error + track \<times> track_source" where
  "deletion_row track_id d =
     (case find (\<lambda>x. tr_id x = track_id \<and> \<not> tr_missing x) (db_tracks d) of
        None \<Rightarrow> Inl (err_sentinel Track_Not_Found)
      | Some x \<Rightarrow> (case find (\<lambda>s. so_track s = track_id) (db_sources d) of
          None \<Rightarrow> Inl (err_sentinel Track_Not_Found)
        | Some s \<Rightarrow> Inr (x, s)))"

definition load_track_deletion :: "storage \<Rightarrow> payload_texts \<Rightarrow> string \<Rightarrow> (db, import_error, deletion_state) steps" where
  "load_track_deletion st texts track_id =
     s_bind (query (deletion_row track_id)) (\<lambda>(x, s).
       if \<not> so_managed s then s_fail (err_sentinel Not_Managed_Track) else
       s_bind (resolve_managed_file st (so_path s) (so_sha256 s)) (\<lambda>(relative, size).
       if so_size s \<noteq> size then s_fail (err_wrap Deletion_Conflict ''managed file size changed'') else
       s_bind (query (\<lambda>d. Inr (list_playlists track_id d))) (\<lambda>playlists.
       s_bind (query (\<lambda>d. Inr (list_queues track_id d))) (\<lambda>queues.
       s_bind (query (\<lambda>d. Inr (final_artwork track_id (tr_album x) d))) (\<lambda>artwork.
       s_bind (case artwork of
                 None \<Rightarrow> s_return ([], [])
               | Some a \<Rightarrow> s_then (s_map_err (err_context ''validate final-Album Artwork'') (resolve_managed_file st (aw_path a) (aw_sha256 a)))
                   (s_return (aw_path a, aw_sha256 a))) (\<lambda>(artwork_path, artwork_sha256).
         let state = deletion_blank\<lparr>ds_track := track_id, ds_title := tr_title x, ds_file := relative, ds_size := size, ds_playlists := playlists,
               ds_queues := queues, ds_album := tr_album x, ds_path := so_path s, ds_sha256 := so_sha256 s, ds_artwork_path := artwork_path,
               ds_artwork_sha256 := artwork_sha256, ds_track_revision := tr_revision x, ds_source_revision := so_revision s\<rparr>
         in s_return (state\<lparr>ds_token := deletion_token st texts state\<rparr>)))))))"

subsection \<open>The journal\<close>

definition journal_deletion :: "string \<Rightarrow> deletion_state \<Rightarrow> db \<Rightarrow> import_error + db" where
  "journal_deletion track_id s d =
     and_then (sql ''journal Permanent Track Deletion'' (\<lambda>d. d\<lparr>db_deletions := db_deletions d
         @ [\<lparr>pd_track = track_id, pd_path = ds_path s, pd_sha256 = ds_sha256 s, pd_artwork_path = ds_artwork_path s,
             pd_artwork_sha256 = ds_artwork_sha256 s\<rparr>]\<rparr>) d)
       (sql ''hide pending Permanent Track Deletion''
         (\<lambda>d. d\<lparr>db_tracks := update_where (\<lambda>x. tr_id x = track_id) (\<lambda>x. x\<lparr>tr_missing := True\<rparr>) (db_tracks d)\<rparr>))"

definition prepare_track_deletion :: "storage \<Rightarrow> payload_texts \<Rightarrow> string \<Rightarrow> string \<Rightarrow> (db, import_error, deletion_state) steps" where
  "prepare_track_deletion st texts track_id token =
     s_bind (load_track_deletion st texts track_id) (\<lambda>s.
       if \<not> tokens_equal (ds_token s) token then s_fail (err_sentinel Deletion_Conflict)
       else s_then (statement (journal_deletion track_id s)) (s_return s))"

definition cancel_track_deletion :: "string \<Rightarrow> (db, import_error, unit) steps" where
  "cancel_track_deletion track_id = statement (\<lambda>d.
     and_then (sql ''restore Managed Track after failed deletion''
         (\<lambda>d. d\<lparr>db_tracks := update_where (\<lambda>x. tr_id x = track_id) (\<lambda>x. x\<lparr>tr_missing := False\<rparr>) (db_tracks d)\<rparr>) d)
       (sql ''clear failed Permanent Track Deletion journal''
         (\<lambda>d. d\<lparr>db_deletions := delete_where (\<lambda>p. pd_track p = track_id) (db_deletions d)\<rparr>)))"

definition delete_track_rows :: "string \<Rightarrow> string \<Rightarrow> db \<Rightarrow> import_error + db" where
  "delete_track_rows track_id album_id d =
     and_then (sql ''delete Queue references'' (\<lambda>d. d\<lparr>db_queue := delete_where (\<lambda>q. qe_track q = track_id) (db_queue d)\<rparr>) d) (\<lambda>d.
     and_then (sql ''delete Playlist references'' (\<lambda>d. d\<lparr>db_playlists := delete_where (\<lambda>p. pe_track p = track_id) (db_playlists d)\<rparr>) d) (\<lambda>d.
     and_then (sql ''archive terminal Managed Import Jobs before Track deletion''
         (\<lambda>d. d\<lparr>db_jobs := delete_where (\<lambda>j. jb_track j = track_id) (db_jobs d)\<rparr>) d) (\<lambda>d.
     and_then (move_or_delete_artwork_reference track_id album_id d) (\<lambda>d.
       sql ''delete Managed Track'' (cascade_track {track_id}) d))))"

definition finalize_rows :: "string \<Rightarrow> db \<Rightarrow> import_error + queue_invalidation list \<times> db" where
  "finalize_rows track_id d =
     (if track_id \<notin> set (map pd_track (db_deletions d)) then Inl (err_sentinel Track_Not_Found)
      else case find (\<lambda>x. tr_id x = track_id) (db_tracks d) of
        None \<Rightarrow> Inl (err_sentinel Track_Not_Found)
      | Some x \<Rightarrow>
          let artists = track_and_album_artist_ids track_id (tr_album x) d in
          and_then (context_of ''advance affected Queue revision'' (advance_queues (list_queues track_id d) d)) (\<lambda>(invalidations, d).
          and_then (delete_track_rows track_id (tr_album x) d) (\<lambda>d.
          and_then (context_of ''delete empty Album'' (delete_album_if_empty (tr_album x) d)) (\<lambda>d.
          and_then (context_of ''delete inactive Artist'' (delete_unreferenced_artists artists d)) (\<lambda>d. Inr (invalidations, d))))))"

definition finalize_track_deletion :: "string \<Rightarrow> (db, import_error, queue_invalidation list) steps" where
  "finalize_track_deletion track_id = tx (\<lambda>d t. finalize_rows track_id d)"

definition deletion_of_row :: "pending_deletion \<Rightarrow> deletion_state" where
  "deletion_of_row p = deletion_blank\<lparr>ds_track := pd_track p, ds_path := pd_path p, ds_sha256 := pd_sha256 p,
     ds_artwork_path := pd_artwork_path p, ds_artwork_sha256 := pd_artwork_sha256 p\<rparr>"

definition list_pending_deletions :: "(db, import_error, deletion_state list) steps" where
  "list_pending_deletions = query (\<lambda>d. Inr (map deletion_of_row (db_deletions d)))"

subsection \<open>Deleting a Track\<close>

text \<open>Whether any file was removed, whether all were, and what failed.\<close>

definition remove_prepared_deletion_files :: "storage \<Rightarrow> deletion_state
    \<Rightarrow> (db, import_error, bool \<times> bool \<times> import_error option) steps" where
  "remove_prepared_deletion_files st s =
     s_bind (s_try (remove_managed_file st never (ds_path s) (ds_sha256 s))) (\<lambda>audio.
       case audio of
         Inl e \<Rightarrow> s_return (False, False, Some e)
       | Inr False \<Rightarrow> s_return (False, False, None)
       | Inr True \<Rightarrow>
           if ds_artwork_path s = [] then s_return (True, True, None)
           else s_bind (s_try (remove_managed_file st never (ds_artwork_path s) (ds_artwork_sha256 s))) (\<lambda>artwork.
             case artwork of
               Inr removed \<Rightarrow> s_return (True, removed, None)
             | Inl e \<Rightarrow> s_return (True, False, Some e)))"

definition not_removed :: import_error where
  "not_removed = err_new ''managed file was not removed''"

definition delete_track_locked :: "storage \<Rightarrow> payload_texts \<Rightarrow> string \<Rightarrow> string \<Rightarrow> (db, import_error, int) steps" where
  "delete_track_locked st texts track_id token =
     s_bind (prepare_track_deletion st texts track_id token) (\<lambda>s.
     s_bind (remove_prepared_deletion_files st s) (\<lambda>(has_removed, all_removed, removed).
       if removed \<noteq> None \<and> \<not> has_removed
       then s_bind (s_err (cancel_track_deletion track_id)) (\<lambda>cancelled. s_fail (join_with_rest (the removed) [cancelled]))
       else if \<not> all_removed then s_fail (case removed of Some e \<Rightarrow> e | None \<Rightarrow> not_removed)
       else s_then (or_else (finalize_track_deletion track_id) (\<lambda>e.
              s_fail (case removed of Some r \<Rightarrow> join_with_rest r [Some e] | None \<Rightarrow> e)))
         (case removed of
            Some e \<Rightarrow> s_fail e
          | None \<Rightarrow> s_return (if ds_artwork_path s = [] then 1 else 2))))"

text \<open>What recovery does with one deletion that was left open, and with all, up to the first that fails.\<close>

definition recover_deletion :: "storage \<Rightarrow> deletion_state \<Rightarrow> (db, import_error, unit) steps" where
  "recover_deletion st s =
     s_bind (remove_prepared_deletion_files st s) (\<lambda>(_, all_removed, removed).
       if \<not> all_removed
       then s_fail (err_context (''recover pending Permanent Track Deletion '' @ st_debug st (ds_track s))
              (case removed of Some e \<Rightarrow> e | None \<Rightarrow> not_removed))
       else s_then (s_map_err (\<lambda>e. err_context (''finalize recovered Permanent Track Deletion '' @ st_debug st (ds_track s))
              (case removed of Some r \<Rightarrow> join_with_rest r [Some e] | None \<Rightarrow> e)) (finalize_track_deletion (ds_track s)))
         (s_return ()))"

fun recover_deletions :: "storage \<Rightarrow> deletion_state list \<Rightarrow> (db, import_error, unit) steps" where
  "recover_deletions st [] = s_return ()"
| "recover_deletions st (s # ss) = s_then (recover_deletion st s) (recover_deletions st ss)"

definition recover_pending_track_deletions :: "storage \<Rightarrow> (db, import_error, unit) steps" where
  "recover_pending_track_deletions st = s_bind list_pending_deletions (recover_deletions st)"

subsection \<open>Deleting an Album\<close>

definition album_order :: "track list \<Rightarrow> track list" where
  "album_order xs = sort_key tr_disc_no (sort_key tr_track_no (sort_key tr_title_sort (sort_key tr_id xs)))"

definition album_track_ids :: "string \<Rightarrow> db \<Rightarrow> string list" where
  "album_track_ids album_id d =
     map tr_id (album_order (filter (\<lambda>x. tr_album x = album_id \<and> \<not> tr_missing x \<and> \<not> tr_pending x) (db_tracks d)))"

text \<open>The Queue items of the Tracks so far, in the order the users were first met.\<close>

fun add_queue_items :: "(string \<times> nat) list \<Rightarrow> (string \<times> nat) list \<Rightarrow> (string \<times> nat) list" where
  "add_queue_items known [] = known"
| "add_queue_items known ((user, n) # queues) =
     add_queue_items (if user \<in> set (map fst known) then map (\<lambda>(u, k). if u = user then (u, k + n) else (u, k)) known
                      else known @ [(user, n)]) queues"

fun add_playlists :: "(string \<times> utext) list \<Rightarrow> (string \<times> utext) list \<Rightarrow> (string \<times> utext) list" where
  "add_playlists known [] = known"
| "add_playlists known (p # ps) = add_playlists (if fst p \<in> set (map fst known) then known else known @ [p]) ps"

definition add_track :: "album_deletion \<Rightarrow> deletion_state \<Rightarrow> album_deletion" where
  "add_track v s = v\<lparr>
     ad_tracks := ad_tracks v @ [\<lparr>at_track = ds_track s, at_title = ds_title s, at_size = ds_size s\<rparr>],
     ad_size := ad_size v + ds_size s,
     ad_playlists := add_playlists (ad_playlists v) (ds_playlists s),
     ad_queues := add_queue_items (ad_queues v) (ds_queues s)\<rparr>"

fun load_tracks :: "storage \<Rightarrow> payload_texts \<Rightarrow> string list \<Rightarrow> album_deletion \<Rightarrow> deletion_state list
    \<Rightarrow> (db, import_error, album_deletion \<times> deletion_state list) steps" where
  "load_tracks st texts [] v states = s_return (v, states)"
| "load_tracks st texts (i # ids) v states =
     s_bind (load_track_deletion st texts i) (\<lambda>s. load_tracks st texts ids (add_track v s) (states @ [s]))"

definition load_album_deletion :: "storage \<Rightarrow> payload_texts \<Rightarrow> string
    \<Rightarrow> (db, import_error, album_deletion \<times> deletion_state list) steps" where
  "load_album_deletion st texts album_id =
     s_bind (query (\<lambda>d. case find (\<lambda>a. al_id a = album_id) (db_albums d) of
         None \<Rightarrow> Inl (err_sentinel Album_Not_Found) | Some a \<Rightarrow> Inr a)) (\<lambda>a.
     s_bind (query (\<lambda>d. Inr (album_track_ids album_id d))) (\<lambda>ids.
     if ids = [] then s_fail (err_sentinel Album_Not_Found)
     else s_bind (load_tracks st texts ids
            \<lparr>ad_album = album_id, ad_title = al_title a, ad_count = 0, ad_size = 0, ad_tracks = [], ad_playlists = [], ad_queues = [], ad_token = []\<rparr> [])
          (\<lambda>(v, states). s_return (v\<lparr>ad_count := int (length (ad_tracks v)),
             ad_token := st_sha256 st (album_payload texts album_id (al_revision a) (map ds_token states))\<rparr>, states))))"

text \<open>One deletion per Track in Album order; a failure stops the run and keeps what was deleted.\<close>

fun delete_tracks :: "storage \<Rightarrow> payload_texts \<Rightarrow> album_deletion_track list \<Rightarrow> album_result \<Rightarrow> (db, import_error, album_result) steps" where
  "delete_tracks st texts [] r = s_return r"
| "delete_tracks st texts (x # xs) r =
     s_bind (s_try (s_bind (load_track_deletion st texts (at_track x)) (\<lambda>s. delete_track_locked st texts (at_track x) (ds_token s)))) (\<lambda>deleted.
       case deleted of
         Inr n \<Rightarrow> delete_tracks st texts xs (r\<lparr>ab_deleted := ab_deleted r @ [x], ab_files := ab_files r + n\<rparr>)
       | Inl e \<Rightarrow> s_return (r\<lparr>ab_stopped := Some (at_track x, at_title x, err_message e)\<rparr>))"

definition delete_album :: "storage \<Rightarrow> payload_texts \<Rightarrow> string \<Rightarrow> string \<Rightarrow> (db, import_error, album_result) steps" where
  "delete_album st texts album_id token =
     s_bind (load_album_deletion st texts album_id) (\<lambda>(v, _).
       if \<not> tokens_equal (ad_token v) token then s_fail (err_wrap Deletion_Conflict ''album deletion preview changed'')
       else delete_tracks st texts (ad_tracks v) \<lparr>ab_deleted = [], ab_stopped = None, ab_files = 0\<rparr>)"

end
