(* ===== verification/Deletion_Safety.thy ===== *)
theory Deletion_Safety
  imports Track_Deletion Commit_Safety
begin

text \<open>
  A Track that is not hidden has its file, whatever fails during its deletion and wherever that or a
  recovery is cut short; and a recovery that ends leaves no deletion and nothing of the Tracks that
  were to be deleted.
\<close>

subsection \<open>Tokens\<close>

lemma byte_of_inject: "byte_of a = byte_of b \<longleftrightarrow> a = b"
proof
  assume "byte_of a = byte_of b"
  then have "unat (byte_of a) = unat (byte_of b)" by simp
  moreover have "unat (byte_of c) = of_char c" for c
    by (simp add: byte_of_def unat_of_nat take_bit_eq_mod [symmetric])
  ultimately show "a = b" by simp
qed simp

lemma difference_zero: "fold (\<lambda>(a, b) difference. or difference (xor (byte_of a) (byte_of b))) zs (x :: 8 word) = 0
    \<longleftrightarrow> x = 0 \<and> (\<forall>(a, b) \<in> set zs. a = b)"
proof (induction zs arbitrary: x)
  case (Cons z zs)
  obtain a b where z: "z = (a, b)" by (cases z)
  have "xor (byte_of a) (byte_of b) = 0 \<longleftrightarrow> byte_of a = byte_of b"
    by (metis xor_self_eq xor.assoc xor.left_neutral xor.right_neutral)
  then have "or x (xor (byte_of a) (byte_of b)) = 0 \<longleftrightarrow> x = 0 \<and> a = b"
    by (simp add: or_eq_0_iff byte_of_inject)
  then show ?case using Cons.IH by (auto simp: z)
qed simp

lemma tokens_equal_eq: "tokens_equal a b \<longleftrightarrow> a = b"
  unfolding tokens_equal_def difference_zero
  by (induction a b rule: list_induct2') (auto simp: zip_same)

subsection \<open>Steps that only take away\<close>

text \<open>What every step of a run preserves, from one state to a later one.\<close>

definition steady :: "(tree \<Rightarrow> 'd \<Rightarrow> tree \<Rightarrow> 'd \<Rightarrow> bool) \<Rightarrow> ('d, 'e, 'a) steps \<Rightarrow> bool" where
  "steady R m \<longleftrightarrow> (\<forall>w. R (tree w) (db w) (tree (snd (m w))) (db (snd (m w))))"

definition ordered :: "(tree \<Rightarrow> 'd \<Rightarrow> tree \<Rightarrow> 'd \<Rightarrow> bool) \<Rightarrow> bool" where
  "ordered R \<longleftrightarrow> (\<forall>t d. R t d t d) \<and> (\<forall>t d t' d' t'' d''. R t d t' d' \<longrightarrow> R t' d' t'' d'' \<longrightarrow> R t d t'' d'')"

lemma steady_return: "ordered R \<Longrightarrow> steady R (s_return x)"
  by (simp add: steady_def s_return_def ordered_def)

lemma steady_fail: "ordered R \<Longrightarrow> steady R (s_fail x)"
  by (simp add: steady_def s_fail_def ordered_def)

lemma steady_result: "ordered R \<Longrightarrow> steady R (s_result r)"
  by (cases r) (auto simp: s_result_def intro: steady_return steady_fail)

lemma steady_bind:
  assumes R: "ordered R" and m: "steady R m" and k: "\<And>x. steady R (k x)"
  shows "steady R (s_bind m k)"
  unfolding steady_def
proof
  fix w
  have f: "R (tree w) (db w) (tree (snd (m w))) (db (snd (m w)))" using m by (simp add: steady_def)
  show "R (tree w) (db w) (tree (snd (s_bind m k w))) (db (snd (s_bind m k w)))"
  proof (cases "fst (m w)")
    case (Done x)
    then have e: "s_bind m k w = k x (snd (m w))" by (cases "m w") (simp add: s_bind_def)
    have "R (tree (snd (m w))) (db (snd (m w))) (tree (snd (k x (snd (m w))))) (db (snd (k x (snd (m w)))))"
      using k by (simp add: steady_def)
    with f e R show ?thesis unfolding ordered_def by metis
  qed (cases "m w"; use f in \<open>simp add: s_bind_def\<close>)+
qed

lemma steady_then: "ordered R \<Longrightarrow> steady R m \<Longrightarrow> steady R k \<Longrightarrow> steady R (s_then m k)"
  unfolding s_then_def by (rule steady_bind)

lemma steady_try: "steady R m \<Longrightarrow> steady R (s_try m)"
  unfolding steady_def s_try_def by (auto split: prod.splits ending.splits) (metis snd_conv)+

lemma steady_map_err: "steady R m \<Longrightarrow> steady R (s_map_err f m)"
  unfolding steady_def s_map_err_def by (auto split: prod.splits ending.splits) (metis snd_conv)+

lemma steady_err: "ordered R \<Longrightarrow> steady R m \<Longrightarrow> steady R (s_err m)"
  unfolding s_err_def by (intro steady_bind steady_try steady_return)

lemma steady_file: "ordered R \<Longrightarrow> (\<And>t d x t'. f t = Inr (x, t') \<Longrightarrow> R t d t' d) \<Longrightarrow> steady R (file_step f)"
  by (auto simp: steady_def ordered_def file_step_def tick_world_def split: fate.split sum.split)

lemma steady_tx: "ordered R \<Longrightarrow> (\<And>t d x d'. f d t = Inr (x, d') \<Longrightarrow> R t d t d') \<Longrightarrow> steady R (transact f)"
  by (auto simp: steady_def ordered_def transact_def tick_world_def split: fate.split sum.split)

lemma steady_always:
  assumes "steady R m" "\<And>t d. P t d \<Longrightarrow> I t d" "\<And>t d t' d'. P t d \<Longrightarrow> R t d t' d' \<Longrightarrow> P t' d'"
  shows "always I P m (\<lambda>_. P) (\<lambda>_. P)"
  using assms unfolding always_def steady_def by (auto split: prod.splits ending.splits) (metis snd_conv)+

lemma confined_steady: "confined {} (=) m \<Longrightarrow> ordered R \<Longrightarrow> steady R m"
proof -
  assume c: "confined {} (=) m" and R: "ordered R"
  have "tree (snd (m w)) = tree w" for w using c by (intro fmap_ext) (simp add: confined_def)
  then show ?thesis using c R by (simp add: steady_def confined_def ordered_def)
qed

lemma same_order: "reflp ((=) :: 'a \<Rightarrow> 'a \<Rightarrow> bool)" "transp ((=) :: 'a \<Rightarrow> 'a \<Rightarrow> bool)"
  by (auto simp: reflp_def transp_def)

lemma steady_remove_managed:
  assumes R: "ordered R" and d: "\<And>t d p. R t d (fmdrop p t) d"
  shows "steady R (remove_managed_file st c path h)"
proof -
  have rm: "steady R (remove_file p)" for p
    unfolding remove_file_def by (rule steady_file [OF R]) (auto simp: d split: option.splits node.splits)
  have look: "steady R (symlink_metadata p)" "steady R (open_root st)" "steady R (s_poll c)" "steady R (reject_symlinks st p)"
      "steady R (verify_rooted_file_hash st p h c)" for p
    by (auto intro!: confined_steady R confined_symlink_metadata confined_open_root confined_poll confined_reject_symlinks
        confined_verify_hash same_order)
  show ?thesis unfolding remove_managed_file_def
    by (auto intro!: steady_bind steady_then steady_try steady_err steady_map_err steady_return steady_fail steady_result R look rm
        split: sum.split node.split option.split)
qed

lemma always_same:
  assumes c: "confined {} (=) m" and i: "\<And>t d. P t d \<Longrightarrow> I t d"
  shows "always I P m (\<lambda>_. P) (\<lambda>_. P)"
proof -
  have "ordered (\<lambda>t d t' d'. t' = t \<and> d' = d)" by (simp add: ordered_def)
  from confined_steady [OF c this] show ?thesis by (rule steady_always [OF _ i]) simp_all
qed

subsection \<open>States of a deletion\<close>

definition source_is :: "string \<Rightarrow> string \<Rightarrow> string \<Rightarrow> db \<Rightarrow> bool" where
  "source_is i path h d \<longleftrightarrow> (\<forall>s \<in> set (db_sources d). so_track s = i \<longrightarrow> so_path s = path \<and> so_sha256 s = h)"

definition track_gone :: "string \<Rightarrow> db \<Rightarrow> bool" where
  "track_gone i d \<longleftrightarrow> (\<forall>x \<in> set (db_tracks d). tr_id x = i \<longrightarrow> tr_missing x)"

definition undeleted :: "storage \<Rightarrow> string \<Rightarrow> string \<Rightarrow> string \<Rightarrow> tree \<Rightarrow> db \<Rightarrow> bool" where
  "undeleted st i path h t d \<longleftrightarrow> db_deletions d = [] \<and> source_is i path h d \<and> file_holds st t path h"

definition hiding :: "storage \<Rightarrow> string \<Rightarrow> string \<Rightarrow> string \<Rightarrow> tree \<Rightarrow> db \<Rightarrow> bool" where
  "hiding st i path h t d \<longleftrightarrow> track_gone i d \<and> list_all (\<lambda>p. pd_track p = i) (db_deletions d) \<and> source_is i path h d \<and> file_holds st t path h"

definition gone :: "string \<Rightarrow> tree \<Rightarrow> db \<Rightarrow> bool" where
  "gone i t d \<longleftrightarrow> track_gone i d"

definition shown_or_gone :: "storage \<Rightarrow> string \<Rightarrow> string \<Rightarrow> string \<Rightarrow> tree \<Rightarrow> db \<Rightarrow> bool" where
  "shown_or_gone st i path h t d \<longleftrightarrow> undeleted st i path h t d \<or> gone i t d"

lemma deletion_states:
  "undeleted st i path h t d \<Longrightarrow> shown_or_gone st i path h t d" "gone i t d \<Longrightarrow> shown_or_gone st i path h t d"
  "hiding st i path h t d \<Longrightarrow> gone i t d" "hiding st i path h t d \<Longrightarrow> shown_or_gone st i path h t d"
  by (auto simp: shown_or_gone_def hiding_def gone_def)

subsection \<open>Preparing\<close>

lemma confined_resolve: "confined {} (=) (resolve_managed_file st path h)"
  unfolding resolve_managed_file_def
  by (auto intro!: confined_bind confined_then confined_map_err confined_try confined_result confined_return confined_fail confined_open_root
      confined_reject_symlinks confined_file_metadata confined_verify_hash same_order split: sum.split node.split)

lemma keeps_undeleted:
  "confined {} (=) m \<Longrightarrow> always (shown_or_gone st i path h) (undeleted st i path h) m (\<lambda>_. undeleted st i path h) (\<lambda>_. undeleted st i path h)"
  by (erule always_same) (rule deletion_states)

lemma loading:
  "always (shown_or_gone st i path h) (undeleted st i path h) (query f) (\<lambda>_. undeleted st i path h) (\<lambda>_. undeleted st i path h)"
  "always (shown_or_gone st i path h) (undeleted st i path h) (resolve_managed_file st p g) (\<lambda>_. undeleted st i path h) (\<lambda>_. undeleted st i path h)"
  "always (shown_or_gone st i path h) (undeleted st i path h)
     (case artwork of None \<Rightarrow> s_return ([], [])
      | Some a \<Rightarrow> s_then (s_map_err (err_context c) (resolve_managed_file st (aw_path a) (aw_sha256 a))) (s_return (aw_path a, aw_sha256 a)))
     (\<lambda>_. undeleted st i path h) (\<lambda>_. undeleted st i path h)"
  by (auto intro!: keeps_undeleted confined_query confined_resolve confined_then confined_map_err confined_return same_order split: option.split)

lemma load_step:
  "always (shown_or_gone st i path h) (undeleted st i path h) (load_track_deletion st texts i)
     (\<lambda>s t d. ds_path s = path \<and> ds_sha256 s = h \<and> undeleted st i path h t d) (\<lambda>_. undeleted st i path h)"
proof -
  let ?U = "undeleted st i path h" and ?J = "shown_or_gone st i path h"
  show ?thesis unfolding load_track_deletion_def
  proof (rule always_bind)
    show "always ?J ?U (query (deletion_row i)) (\<lambda>(x, s) t d. (so_path s = path \<and> so_sha256 s = h) \<and> ?U t d) (\<lambda>_. ?U)"
      by (rule always_query)
        (auto simp: deletion_row_def undeleted_def source_is_def find_Some_iff shown_or_gone_def split: option.splits dest!: nth_mem)
    show "always ?J (case xs of (x, s) \<Rightarrow> \<lambda>t d. (so_path s = path \<and> so_sha256 s = h) \<and> ?U t d)
       (case xs of (x, s) \<Rightarrow>
       if \<not> so_managed s then s_fail (err_sentinel Not_Managed_Track) else
       s_bind (resolve_managed_file st (so_path s) (so_sha256 s)) (\<lambda>(relative, size).
       if so_size s \<noteq> size then s_fail (err_wrap Deletion_Conflict ''managed file size changed'') else
       s_bind (query (\<lambda>d. Inr (list_playlists i d))) (\<lambda>playlists.
       s_bind (query (\<lambda>d. Inr (list_queues i d))) (\<lambda>queues.
       s_bind (query (\<lambda>d. Inr (final_artwork i (tr_album x) d))) (\<lambda>artwork.
       s_bind (case artwork of
                 None \<Rightarrow> s_return ([], [])
               | Some a \<Rightarrow> s_then (s_map_err (err_context ''validate final-Album Artwork'') (resolve_managed_file st (aw_path a) (aw_sha256 a)))
                   (s_return (aw_path a, aw_sha256 a))) (\<lambda>(artwork_path, artwork_sha256).
         let state = deletion_blank\<lparr>ds_track := i, ds_title := tr_title x, ds_file := relative, ds_size := size, ds_playlists := playlists,
               ds_queues := queues, ds_album := tr_album x, ds_path := so_path s, ds_sha256 := so_sha256 s, ds_artwork_path := artwork_path,
               ds_artwork_sha256 := artwork_sha256, ds_track_revision := tr_revision x, ds_source_revision := so_revision s\<rparr>
         in s_return (state\<lparr>ds_token := deletion_token st texts state\<rparr>)))))))
       (\<lambda>s t d. ds_path s = path \<and> ds_sha256 s = h \<and> ?U t d) (\<lambda>_. ?U)" for xs
      by (cases xs, simp only: prod.case, rule always_fact)
        (auto intro!: always_if always_fail always_return always_bind [OF loading(1)] always_bind [OF loading(2)] always_bind [OF loading(3)] simp: Let_def split: prod.split)
  qed
qed

lemma hide_step:
  "always (shown_or_gone st i path h) (undeleted st i path h) (statement (journal_deletion i s)) (\<lambda>_. hiding st i path h) (\<lambda>_. shown_or_gone st i path h)"
proof (rule always_statement)
  fix t d d'
  assume u: "undeleted st i path h t d" and "journal_deletion i s d = Inr d'"
  then obtain r where "db_tracks d' = update_where (\<lambda>x. tr_id x = i) (\<lambda>x. x\<lparr>tr_missing := True\<rparr>) (db_tracks d)"
      "db_sources d' = db_sources d" "db_deletions d' = db_deletions d @ [r]" "pd_track r = i"
    by (auto simp: journal_deletion_def and_then_Inr_iff dest!: sql_ok)
  with u have "hiding st i path h t d'"
    by (auto simp: undeleted_def hiding_def track_gone_def source_is_def set_update_where)
  then show "hiding st i path h t d' \<and> (\<forall>e. shown_or_gone st i path h t d')" by (simp add: deletion_states)
qed (auto intro: deletion_states)

lemma prepare_step:
  "always (shown_or_gone st i path h) (undeleted st i path h) (prepare_track_deletion st texts i token)
     (\<lambda>s t d. (ds_path s = path \<and> ds_sha256 s = h) \<and> hiding st i path h t d) (\<lambda>_. shown_or_gone st i path h)"
  unfolding prepare_track_deletion_def
proof (rule always_bind)
  show "always (shown_or_gone st i path h) (undeleted st i path h) (load_track_deletion st texts i)
     (\<lambda>s t d. (ds_path s = path \<and> ds_sha256 s = h) \<and> undeleted st i path h t d) (\<lambda>_. shown_or_gone st i path h)"
    by (rule always_weaken [OF load_step]) (auto intro: deletion_states)
  show "always (shown_or_gone st i path h) (\<lambda>t d. (ds_path s = path \<and> ds_sha256 s = h) \<and> undeleted st i path h t d)
     (if \<not> tokens_equal (ds_token s) token then s_fail (err_sentinel Deletion_Conflict)
       else s_then (statement (journal_deletion i s)) (s_return s))
     (\<lambda>s t d. (ds_path s = path \<and> ds_sha256 s = h) \<and> hiding st i path h t d) (\<lambda>_. shown_or_gone st i path h)" for s
    by (rule always_fact, rule always_if, rule always_fail, erule deletion_states, rule always_then [OF hide_step], rule always_return) simp
qed

lemma cancel_step:
  "always (shown_or_gone st i path h) (hiding st i path h) (cancel_track_deletion i) (\<lambda>_. shown_or_gone st i path h) (\<lambda>_. shown_or_gone st i path h)"
  unfolding cancel_track_deletion_def
proof (rule always_statement)
  fix t d d'
  assume u: "hiding st i path h t d" and "and_then (sql ''restore Managed Track after failed deletion''
         (\<lambda>d. d\<lparr>db_tracks := update_where (\<lambda>x. tr_id x = i) (\<lambda>x. x\<lparr>tr_missing := False\<rparr>) (db_tracks d)\<rparr>) d)
       (sql ''clear failed Permanent Track Deletion journal''
         (\<lambda>d. d\<lparr>db_deletions := delete_where (\<lambda>p. pd_track p = i) (db_deletions d)\<rparr>)) = Inr d'"
  then have "undeleted st i path h t d'"
    by (auto simp: and_then_Inr_iff undeleted_def hiding_def source_is_def delete_where_def filter_empty_conv list_all_iff dest!: sql_ok)
  then show "shown_or_gone st i path h t d' \<and> (\<forall>e. shown_or_gone st i path h t d')" by (simp add: deletion_states)
qed (auto intro: deletion_states)

subsection \<open>Finalizing\<close>

text \<open>The rows that refer to a Track only go.\<close>

definition rows_shrink :: "db \<Rightarrow> db \<Rightarrow> bool" where
  "rows_shrink d d' \<longleftrightarrow> set (db_tracks d') \<subseteq> set (db_tracks d) \<and> set (db_queue d') \<subseteq> set (db_queue d)
     \<and> set (db_playlists d') \<subseteq> set (db_playlists d) \<and> set (db_deletions d') \<subseteq> set (db_deletions d)"

lemma rows_shrink_refl [simp]: "rows_shrink d d"
  by (simp add: rows_shrink_def)

lemma rows_shrink_trans: "rows_shrink d d' \<Longrightarrow> rows_shrink d' d'' \<Longrightarrow> rows_shrink d d''"
  by (auto simp: rows_shrink_def)

lemma rows_shrink_order: "reflp rows_shrink" "transp rows_shrink"
  by (auto simp: reflp_def transp_def intro: rows_shrink_trans)

lemma sql_shrinks: "sql operation f d = Inr d' \<Longrightarrow> (\<And>x. rows_shrink x (f x)) \<Longrightarrow> rows_shrink d d'"
  by (auto dest!: sql_ok)

lemma fold_rows_shrinks:
  assumes "\<And>x s s'. f x s = Inr s' \<Longrightarrow> rows_shrink (g s) (g s')"
  shows "fold_rows f xs s = Inr s' \<Longrightarrow> rows_shrink (g s) (g s')"
  by (induction xs arbitrary: s) (auto simp: and_then_Inr_iff dest!: assms intro: rows_shrink_trans)

lemma advance_queue_shrinks: "advance_queue user s = Inr s' \<Longrightarrow> rows_shrink (snd s) (snd s')"
  by (cases s) (auto simp: advance_queue_def Let_def and_then_Inr_iff rows_shrink_def dest!: sql_ok)

lemma advance_queues_shrinks: "advance_queues qs d = Inr (x, d') \<Longrightarrow> rows_shrink d d'"
  using fold_rows_shrinks [where g = snd and f = advance_queue and xs = "map fst qs" and s = "([], d)" and s' = "(x, d')", OF advance_queue_shrinks] by (simp add: advance_queues_def)

lemma move_artwork_shrinks: "move_or_delete_artwork_reference i a d = Inr d' \<Longrightarrow> rows_shrink d d'"
  unfolding move_or_delete_artwork_reference_def by (erule sql_shrinks) (auto simp: rows_shrink_def split: list.split)

lemma delete_album_shrinks: "delete_album_if_empty a d = Inr d' \<Longrightarrow> rows_shrink d d'"
  unfolding delete_album_if_empty_def by (erule sql_shrinks) (auto simp: rows_shrink_def cascade_album_def)

lemma delete_artists_shrinks: "delete_unreferenced_artists ids d = Inr d' \<Longrightarrow> rows_shrink d d'"
  unfolding delete_unreferenced_artists_def
  by (erule fold_rows_shrinks [where g = "\<lambda>d. d", rotated]) (auto simp: rows_shrink_def split: if_splits dest!: sql_ok)

lemma cascade_track_shrinks: "rows_shrink d (cascade_track ids d)"
  by (auto simp: rows_shrink_def cascade_track_def delete_where_def)

text \<open>Nothing refers to the Track, and it is not there.\<close>

definition erased :: "string \<Rightarrow> db \<Rightarrow> bool" where
  "erased i d \<longleftrightarrow> (\<forall>x \<in> set (db_tracks d). tr_id x \<noteq> i) \<and> (\<forall>q \<in> set (db_queue d). qe_track q \<noteq> i)
     \<and> (\<forall>p \<in> set (db_playlists d). pe_track p \<noteq> i) \<and> (\<forall>p \<in> set (db_deletions d). pd_track p \<noteq> i)"

lemma erased_shrink: "rows_shrink d d' \<Longrightarrow> erased i d \<Longrightarrow> erased i d'"
  by (auto simp: rows_shrink_def erased_def)

lemma cascade_track_erases: "erased i (cascade_track {i} d)"
  by (auto simp: erased_def cascade_track_def delete_where_def)

lemma delete_track_rows_erases: "delete_track_rows i a d = Inr d' \<Longrightarrow> rows_shrink d d' \<and> erased i d'"
proof -
  assume "delete_track_rows i a d = Inr d'"
  then obtain d1 d2 d3 d4 where
    q: "sql ''delete Queue references'' (\<lambda>d. d\<lparr>db_queue := delete_where (\<lambda>q. qe_track q = i) (db_queue d)\<rparr>) d = Inr d1"
    and p: "sql ''delete Playlist references'' (\<lambda>d. d\<lparr>db_playlists := delete_where (\<lambda>p. pe_track p = i) (db_playlists d)\<rparr>) d1 = Inr d2"
    and j: "sql ''archive terminal Managed Import Jobs before Track deletion''
         (\<lambda>d. d\<lparr>db_jobs := delete_where (\<lambda>j. jb_track j = i) (db_jobs d)\<rparr>) d2 = Inr d3"
    and m: "move_or_delete_artwork_reference i a d3 = Inr d4" and c: "sql ''delete Managed Track'' (cascade_track {i}) d4 = Inr d'"
    by (auto simp: delete_track_rows_def and_then_Inr_iff)
  have "rows_shrink d d1" "rows_shrink d1 d2" "rows_shrink d2 d3"
    using sql_ok [OF q] sql_ok [OF p] sql_ok [OF j] by (auto simp: rows_shrink_def delete_where_def)
  moreover have "d' = cascade_track {i} d4" using sql_ok [OF c] by simp
  ultimately show ?thesis
    using move_artwork_shrinks [OF m] cascade_track_shrinks cascade_track_erases by (blast intro: rows_shrink_trans)
qed

lemma finalize_rows_erases: "finalize_rows i d = Inr (x, d') \<Longrightarrow> rows_shrink d d' \<and> erased i d'"
proof -
  assume "finalize_rows i d = Inr (x, d')"
  then obtain q a as d1 d2 d3 where "advance_queues q d = Inr (x, d1)" and r: "delete_track_rows i a d1 = Inr d2"
    and "delete_album_if_empty a d2 = Inr d3" "delete_unreferenced_artists as d3 = Inr d'"
    by (auto simp: finalize_rows_def Let_def and_then_Inr_iff split: if_splits option.splits)
  with delete_track_rows_erases [OF r] show ?thesis
    by (meson advance_queues_shrinks delete_album_shrinks delete_artists_shrinks rows_shrink_trans erased_shrink)
qed

text \<open>
  The runs of a deletion and of its recovery, from the states they start in to those they can end in.
\<close>

subsection \<open>Removing the files\<close>

text \<open>A file that is gone stays gone, and rows only go.\<close>

definition takes_away :: "tree \<Rightarrow> db \<Rightarrow> tree \<Rightarrow> db \<Rightarrow> bool" where
  "takes_away t d t' d' \<longleftrightarrow> (\<forall>p. fmlookup t p = None \<longrightarrow> fmlookup t' p = None) \<and> rows_shrink d d'"

lemma takes_away_ordered: "ordered takes_away"
  by (auto simp: ordered_def takes_away_def intro: rows_shrink_trans)

lemma remove_takes_away: "steady takes_away (remove_managed_file st c path h)"
  by (rule steady_remove_managed [OF takes_away_ordered]) (auto simp: takes_away_def)

lemma finalize_takes_away: "steady takes_away (finalize_track_deletion i)"
  unfolding finalize_track_deletion_def tx_def
  by (rule steady_tx [OF takes_away_ordered]) (auto simp: takes_away_def dest: finalize_rows_erases)

lemma remove_files_takes_away: "steady takes_away (remove_prepared_deletion_files st s)"
  unfolding remove_prepared_deletion_files_def
  by (auto intro!: steady_bind [OF takes_away_ordered] steady_try remove_takes_away steady_return takes_away_ordered split: sum.split bool.split)

lemma recover_takes_away: "steady takes_away (recover_deletion st s)"
  unfolding recover_deletion_def
  by (auto intro!: steady_bind [OF takes_away_ordered] steady_then steady_map_err remove_files_takes_away finalize_takes_away
      steady_return steady_fail takes_away_ordered)

definition absent :: "storage \<Rightarrow> string \<Rightarrow> tree \<Rightarrow> bool" where
  "absent st path t \<longleftrightarrow> (case relative_path st path of Inr r \<Rightarrow> fmlookup t r = None | Inl _ \<Rightarrow> False)"

text \<open>Removing a managed file: done means that it is gone, and a failure leaves what was there.\<close>

lemma look_step:
  assumes P: "\<And>t d. P t d \<Longrightarrow> I t d"
  shows "always I P (symlink_metadata q) (\<lambda>_. P) (\<lambda>e t d. P t d \<and> (is_enoent e \<longrightarrow> fmlookup t q = None))"
  unfolding symlink_metadata_def
  by (rule always_file) (auto simp: is_enoent_def enoent_def other_io_def P split: if_splits option.splits)

lemma unlink_step:
  assumes P: "\<And>t d. P t d \<Longrightarrow> I t d" and Q: "\<And>t d. P t d \<Longrightarrow> Q (fmdrop q t) d"
  shows "always I P (remove_file q) (\<lambda>_ t d. fmlookup t q = None \<and> Q t d) (\<lambda>_. P)"
  unfolding remove_file_def by (rule always_file) (auto simp: P Q split: option.splits node.splits)

lemma remove_managed_step:
  assumes P: "\<And>t d. P t d \<Longrightarrow> I t d" and Q: "\<And>t d p. P t d \<Longrightarrow> Q (fmdrop p t) d" and PQ: "\<And>t d. P t d \<Longrightarrow> Q t d"
  shows "always I P (remove_managed_file st never path h) (\<lambda>b t d. (b \<longrightarrow> absent st path t) \<and> Q t d) (\<lambda>_. P)"
proof -
  let ?R = "\<lambda>b t d. (b \<longrightarrow> absent st path t) \<and> Q t d"
  have poll: "always I P (s_poll never) (\<lambda>b t d. \<not> b \<and> P t d) (\<lambda>_. P)"
    by (simp add: always_def s_poll_def never_def)
  have fails: "always I P (s_fail e) ?R (\<lambda>_. P)" for e by (rule always_fail)
  have drop: "always I P (s_then (s_map_err f (remove_file q)) (s_return True)) ?R (\<lambda>_. P)" if "relative_path st path = Inr q" for q f
    by (rule always_then, rule always_map_err, rule unlink_step [where Q = Q, OF P Q], assumption, assumption, rule always_return)
      (simp add: absent_def that)
  have polled: "always I P (s_bind (s_poll never) (\<lambda>stop. if stop then m else n)) ?R (\<lambda>_. P)" if "always I P n ?R (\<lambda>_. P)" for m n
    by (rule always_bind [OF poll], rule always_fact) (use that in simp)
  have verified: "always I P (s_bind (s_err (verify_rooted_file_hash st q h never)) (\<lambda>bad. case bad of Some e \<Rightarrow> m e | None \<Rightarrow> n)) ?R (\<lambda>_. P)"
    if "\<And>e. always I P (m e) ?R (\<lambda>_. P)" "always I P n ?R (\<lambda>_. P)" for q m n
    by (rule always_noted [where R = "\<lambda>_. P"], rule always_same [OF confined_verify_hash])
      (use that in \<open>auto intro: P same_order split: option.split\<close>)
  have root: "always I P (open_root st) (\<lambda>_. P) (\<lambda>_. P)"
    by (rule always_same [OF confined_open_root]) (auto intro: P same_order)
  have links: "always I P (s_map_err f (reject_symlinks st q)) (\<lambda>_. P) (\<lambda>_. P)" for f q
    by (rule always_map_err, rule always_same [OF confined_reject_symlinks]) (auto intro: P same_order)
  show ?thesis unfolding remove_managed_file_def
  proof (rule polled, rule always_bind [where R = "\<lambda>q t d. relative_path st path = Inr q \<and> P t d"])
    show "always I P (s_result (relative_path st path)) (\<lambda>q t d. relative_path st path = Inr q \<and> P t d) (\<lambda>_. P)"
      by (rule always_result) auto
    fix q
    show "always I (\<lambda>t d. relative_path st path = Inr q \<and> P t d)
      (s_then (open_root st)
       (s_then (s_map_err (\<lambda>e. err_wrap Unsafe_Storage_Path (''cannot resolve managed Track directory: '' @ err_message e))
         (reject_symlinks st (parent_path q)))
       (s_bind (s_try (symlink_metadata q)) (\<lambda>r.
         case r of
           Inr (File _) \<Rightarrow>
             s_bind (s_err (verify_rooted_file_hash st q h never)) (\<lambda>bad.
               case bad of
                 Some e \<Rightarrow> s_bind (s_poll never) (\<lambda>stop.
                   if stop then s_fail (err_sentinel Import_Cancelled)
                   else s_fail (err_wrap Unsafe_Storage_Path (''managed Track source identity changed: '' @ err_message e)))
               | None \<Rightarrow> s_bind (s_poll never) (\<lambda>stop.
                   if stop then s_fail (err_sentinel Import_Cancelled)
                   else s_then (s_map_err (io_err ''remove Managed Track source'') (remove_file q)) (s_return True)))
         | Inr _ \<Rightarrow> s_fail (err_wrap Unsafe_Storage_Path ''managed Track source is not a regular file'')
         | Inl e \<Rightarrow> if is_enoent e then s_return True
                    else s_fail (err_wrap Unsafe_Storage_Path ''managed Track source is not a regular file''))))) ?R (\<lambda>_. P)"
    proof (rule always_fact, rule always_then [OF root], rule always_then [OF links], rule always_handle [OF look_step [OF P]])
      assume q: "relative_path st path = Inr q"
      show "always I (\<lambda>t d. P t d \<and> (is_enoent e \<longrightarrow> fmlookup t q = None)) (if is_enoent e then s_return True
          else s_fail (err_wrap Unsafe_Storage_Path ''managed Track source is not a regular file'')) ?R (\<lambda>_. P)" for e
        by (rule always_if) (auto intro!: always_return always_fail simp: absent_def q PQ)
      show "always I P (case n of
           File _ \<Rightarrow>
             s_bind (s_err (verify_rooted_file_hash st q h never)) (\<lambda>bad.
               case bad of
                 Some e \<Rightarrow> s_bind (s_poll never) (\<lambda>stop.
                   if stop then s_fail (err_sentinel Import_Cancelled)
                   else s_fail (err_wrap Unsafe_Storage_Path (''managed Track source identity changed: '' @ err_message e)))
               | None \<Rightarrow> s_bind (s_poll never) (\<lambda>stop.
                   if stop then s_fail (err_sentinel Import_Cancelled)
                   else s_then (s_map_err (io_err ''remove Managed Track source'') (remove_file q)) (s_return True)))
         | _ \<Rightarrow> s_fail (err_wrap Unsafe_Storage_Path ''managed Track source is not a regular file'')) ?R (\<lambda>_. P)" for n
        by (cases n) (auto intro!: verified polled fails drop q)
    qed
  qed
qed

text \<open>The files of a deletion are gone.\<close>

definition files_gone :: "storage \<Rightarrow> deletion_state \<Rightarrow> tree \<Rightarrow> bool" where
  "files_gone st s t \<longleftrightarrow> absent st (ds_path s) t \<and> (ds_artwork_path s \<noteq> [] \<longrightarrow> absent st (ds_artwork_path s) t)"

lemma remove_files_step:
  assumes PI: "\<And>t d. P t d \<Longrightarrow> I t d" and QI: "\<And>t d. Q t d \<Longrightarrow> I t d" and PQ: "\<And>t d. P t d \<Longrightarrow> Q t d" and Q: "\<And>t d p. Q t d \<Longrightarrow> Q (fmdrop p t) d"
  shows "always I P (remove_prepared_deletion_files st s)
     (\<lambda>(has, done, e) t d. Q t d \<and> (done \<longrightarrow> has \<and> files_gone st s t) \<and> (\<not> has \<and> e \<noteq> None \<longrightarrow> P t d)) (\<lambda>_. I)"
  unfolding remove_prepared_deletion_files_def
proof (rule always_handle)
  let ?G = "\<lambda>(has, done, e) t d. Q t d \<and> (done \<longrightarrow> has \<and> files_gone st s t) \<and> (\<not> has \<and> e \<noteq> None \<longrightarrow> P t d)"
  show "always I P (remove_managed_file st never (ds_path s) (ds_sha256 s)) (\<lambda>b t d. (b \<longrightarrow> absent st (ds_path s) t) \<and> Q t d) (\<lambda>_. P)"
    by (rule remove_managed_step) (auto intro: PI PQ Q)
  show "always I P (s_return (False, False, Some e)) ?G (\<lambda>_. I)" for e by (rule always_return) (simp add: PQ)
  have drop: "absent st path t \<Longrightarrow> absent st path (fmdrop p t)" for path t p by (auto simp: absent_def split: sum.splits)
  have a: "always I (\<lambda>t d. absent st (ds_path s) t \<and> Q t d) (remove_managed_file st never (ds_artwork_path s) (ds_artwork_sha256 s))
      (\<lambda>b t d. (b \<longrightarrow> absent st (ds_artwork_path s) t) \<and> absent st (ds_path s) t \<and> Q t d) (\<lambda>_ t d. absent st (ds_path s) t \<and> Q t d)"
    by (rule remove_managed_step) (auto intro: QI Q drop)
  have b: "always I (\<lambda>t d. absent st (ds_path s) t \<and> Q t d) (s_bind (s_try (remove_managed_file st never (ds_artwork_path s) (ds_artwork_sha256 s)))
      (\<lambda>artwork. case artwork of Inr removed \<Rightarrow> s_return (True, removed, None) | Inl e \<Rightarrow> s_return (True, False, Some e))) ?G (\<lambda>_. I)"
    by (rule always_handle [OF a]) (auto intro!: always_return simp: files_gone_def)
  show "always I (\<lambda>t d. (b \<longrightarrow> absent st (ds_path s) t) \<and> Q t d) (case b of
         False \<Rightarrow> s_return (False, False, None)
       | True \<Rightarrow> if ds_artwork_path s = [] then s_return (True, True, None)
           else s_bind (s_try (remove_managed_file st never (ds_artwork_path s) (ds_artwork_sha256 s))) (\<lambda>artwork.
             case artwork of Inr removed \<Rightarrow> s_return (True, removed, None) | Inl e \<Rightarrow> s_return (True, False, Some e))) ?G (\<lambda>_. I)" for b
  proof (cases b)
    case True
    then show ?thesis using b by (auto intro!: always_if always_return simp only: simp_thms bool.case, simp add: files_gone_def)
  qed (auto intro!: always_return)
qed

lemma finalize_deletion_step:
  assumes I: "\<And>t d. A t \<Longrightarrow> B t d \<Longrightarrow> I t d" and B: "\<And>t d d'. B t d \<Longrightarrow> rows_shrink d d' \<Longrightarrow> B t d'"
  shows "always I (\<lambda>t d. A t \<and> B t d) (finalize_track_deletion i) (\<lambda>_ t d. A t \<and> B t d \<and> erased i d) (\<lambda>_ t d. A t \<and> B t d)"
  unfolding finalize_track_deletion_def tx_def by (rule always_tx) (auto intro: I B dest!: finalize_rows_erases)

subsection \<open>Deleting\<close>

lemma gone_shrinks: "gone i t d \<Longrightarrow> rows_shrink d d' \<Longrightarrow> gone i t' d'"
  by (auto simp: gone_def track_gone_def rows_shrink_def)

lemma delete_step:
  "always (shown_or_gone st i path h) (undeleted st i path h) (delete_track_locked st texts i token)
     (\<lambda>_ t d. absent st path t \<and> erased i d) (\<lambda>_. shown_or_gone st i path h)"
  unfolding delete_track_locked_def
proof (rule always_bind [OF prepare_step], rule always_fact)
  fix s :: deletion_state
  let ?J = "shown_or_gone st i path h" and ?H = "hiding st i path h"
  assume s: "ds_path s = path \<and> ds_sha256 s = h"
  let ?G = "\<lambda>(has, done, e) t d. gone i t d \<and> (done \<longrightarrow> has \<and> files_gone st s t) \<and> (\<not> has \<and> e \<noteq> None \<longrightarrow> ?H t d)"
  have remove: "always ?J ?H (remove_prepared_deletion_files st s) ?G (\<lambda>_. ?J)"
    by (rule remove_files_step) (auto intro: deletion_states simp: gone_def hiding_def)
  have fin: "always ?J (\<lambda>t d. files_gone st s t \<and> gone i t d) (finalize_track_deletion i) (\<lambda>_ t d. files_gone st s t \<and> gone i t d \<and> erased i d)
      (\<lambda>_ t d. files_gone st s t \<and> gone i t d)"
    by (rule finalize_deletion_step) (auto intro: deletion_states gone_shrinks)
  have close: "always ?J (\<lambda>t d. files_gone st s t \<and> gone i t d)
      (s_then (or_else (finalize_track_deletion i) (\<lambda>e. s_fail (case removed of Some r \<Rightarrow> join_with_rest r [Some e] | None \<Rightarrow> e)))
         (case removed of Some e \<Rightarrow> s_fail e | None \<Rightarrow> s_return n)) (\<lambda>_ t d. absent st path t \<and> erased i d) (\<lambda>_. ?J)" for removed and n :: int
    by (rule always_then [where R = "\<lambda>t d. files_gone st s t \<and> gone i t d \<and> erased i d"], rule always_or_else [OF fin])
      (auto intro!: always_fail always_return intro: deletion_states simp: files_gone_def s split: option.split)
  have cancel: "always ?J ?H (s_bind (s_err (cancel_track_deletion i)) (\<lambda>cancelled. s_fail (x cancelled))) Q (\<lambda>_. ?J)"
    for x :: "import_error option \<Rightarrow> import_error" and Q :: "int \<Rightarrow> tree \<Rightarrow> db \<Rightarrow> bool"
    by (rule always_noted [where R = "\<lambda>_. ?J"]) (auto intro: cancel_step always_fail)
  show "always ?J ?H (s_bind (remove_prepared_deletion_files st s) (\<lambda>(has_removed, all_removed, removed).
       if removed \<noteq> None \<and> \<not> has_removed
       then s_bind (s_err (cancel_track_deletion i)) (\<lambda>cancelled. s_fail (join_with_rest (the removed) [cancelled]))
       else if \<not> all_removed then s_fail (case removed of Some e \<Rightarrow> e | None \<Rightarrow> not_removed)
       else s_then (or_else (finalize_track_deletion i) (\<lambda>e.
              s_fail (case removed of Some r \<Rightarrow> join_with_rest r [Some e] | None \<Rightarrow> e)))
         (case removed of
            Some e \<Rightarrow> s_fail e
          | None \<Rightarrow> s_return (if ds_artwork_path s = [] then 1 else 2 :: int)))) (\<lambda>_ t d. absent st path t \<and> erased i d) (\<lambda>_. ?J)"
  proof (rule always_bind [OF remove])
    fix r :: "bool \<times> bool \<times> import_error option"
    obtain has all e where r: "r = (has, all, e)" by (cases r)
    show "always ?J (?G r) (case r of (has_removed, all_removed, removed) \<Rightarrow>
       if removed \<noteq> None \<and> \<not> has_removed
       then s_bind (s_err (cancel_track_deletion i)) (\<lambda>cancelled. s_fail (join_with_rest (the removed) [cancelled]))
       else if \<not> all_removed then s_fail (case removed of Some e \<Rightarrow> e | None \<Rightarrow> not_removed)
       else s_then (or_else (finalize_track_deletion i) (\<lambda>e.
              s_fail (case removed of Some r \<Rightarrow> join_with_rest r [Some e] | None \<Rightarrow> e)))
         (case removed of
            Some e \<Rightarrow> s_fail e
          | None \<Rightarrow> s_return (if ds_artwork_path s = [] then 1 else 2 :: int))) (\<lambda>_ t d. absent st path t \<and> erased i d) (\<lambda>_. ?J)"
      unfolding r prod.case
      apply (intro always_if)
        apply (rule always_pre, rule cancel, simp)
       apply (rule always_fail, rule deletion_states(2), simp)
      apply (rule always_pre, rule close, simp)
      done
  qed
qed

subsection \<open>Recovering\<close>

lemma always_done:
  fixes m :: "('a, 'e, 'b) steps"
  assumes "always I P m Q E" "always I' P' m Q' E'"
  shows "always (\<lambda>_ _. True) (\<lambda>t d. P t d \<and> P' t d) m (\<lambda>x t d. Q x t d \<and> Q' x t d) (\<lambda>_ _ _. True)"
  unfolding always_def
proof (intro allI impI)
  fix w :: "'a world"
  assume w: "P (tree w) (db w) \<and> P' (tree w) (db w)"
  obtain r w' where m: "m w = (r, w')" by (cases "m w")
  show "case m w of (Done x, w') \<Rightarrow> Q x (tree w') (db w') \<and> Q' x (tree w') (db w') | (Failed e, w') \<Rightarrow> True | (Crashed, w') \<Rightarrow> True"
    using alwaysD [OF assms(1) _ m] alwaysD [OF assms(2) _ m] w unfolding m by (cases r) auto
qed

lemma recover_all_takes_away: "steady takes_away (recover_deletions st ss)"
  by (induction ss) (auto intro: steady_return steady_then recover_takes_away takes_away_ordered)

lemma recover_shown_or_gone:
  "always (shown_or_gone st i path h) (shown_or_gone st i path h) (recover_pending_track_deletions st)
     (\<lambda>_. shown_or_gone st i path h) (\<lambda>_. shown_or_gone st i path h)"
  unfolding recover_pending_track_deletions_def
proof (rule always_bind)
  let ?J = "shown_or_gone st i path h"
  show "always ?J ?J list_pending_deletions (\<lambda>ss t d. ?J t d \<and> (ss = [] \<or> gone i t d)) (\<lambda>_. ?J)"
    unfolding list_pending_deletions_def
    by (rule always_query) (auto simp: shown_or_gone_def undeleted_def)
  fix ss
  have g: "always ?J (gone i) (recover_deletions st ss) (\<lambda>_. gone i) (\<lambda>_. gone i)"
    by (rule steady_always [OF recover_all_takes_away]) (auto intro: deletion_states gone_shrinks simp: takes_away_def)
  show "always ?J (\<lambda>t d. ?J t d \<and> (ss = [] \<or> gone i t d)) (recover_deletions st ss) (\<lambda>_. ?J) (\<lambda>_. ?J)"
  proof (cases "ss = []")
    case True
    then show ?thesis by (auto intro: always_return)
  next
    case False
    with g show ?thesis by (elim always_weaken) (auto intro: deletion_states)
  qed
qed

definition recovered :: "storage \<Rightarrow> deletion_state \<Rightarrow> tree \<Rightarrow> db \<Rightarrow> bool" where
  "recovered st s t d \<longleftrightarrow> erased (ds_track s) d \<and> files_gone st s t"

definition remaining :: "deletion_state list \<Rightarrow> db \<Rightarrow> bool" where
  "remaining ss d \<longleftrightarrow> (\<forall>p \<in> set (db_deletions d). \<exists>s \<in> set ss. ds_track s = pd_track p)"

lemma recovered_stays: "recovered st s t d \<Longrightarrow> takes_away t d t' d' \<Longrightarrow> recovered st s t' d'"
  by (auto simp: recovered_def takes_away_def files_gone_def absent_def intro: erased_shrink split: sum.splits)

lemma recover_deletion_step:
  "always (\<lambda>_ _. True) (\<lambda>_ _. True) (recover_deletion st s) (\<lambda>_. recovered st s) (\<lambda>_ _ _. True)"
  unfolding recover_deletion_def
proof (rule always_bind)
  let ?T = "\<lambda>_ _. True"
  show "always ?T ?T (remove_prepared_deletion_files st s) (\<lambda>(has, done, e) t d. done \<longrightarrow> files_gone st s t) (\<lambda>_. ?T)"
    by (rule always_weaken [OF remove_files_step [where P = ?T and Q = ?T and I = ?T]]) auto
  fix r :: "bool \<times> bool \<times> import_error option"
  obtain has all e where r: "r = (has, all, e)" by (cases r)
  have fin: "always ?T (\<lambda>t d. files_gone st s t \<and> True) (finalize_track_deletion (ds_track s))
      (\<lambda>_ t d. files_gone st s t \<and> True \<and> erased (ds_track s) d) (\<lambda>_ t d. files_gone st s t \<and> True)"
    by (rule finalize_deletion_step) auto
  show "always ?T (case r of (has, done, e) \<Rightarrow> \<lambda>t d. done \<longrightarrow> files_gone st s t) (case r of (x, all_removed, removed) \<Rightarrow>
       if \<not> all_removed
       then s_fail (err_context (''recover pending Permanent Track Deletion '' @ st_debug st (ds_track s))
              (case removed of Some e \<Rightarrow> e | None \<Rightarrow> not_removed))
       else s_then (s_map_err (\<lambda>e. err_context (''finalize recovered Permanent Track Deletion '' @ st_debug st (ds_track s))
              (case removed of Some r \<Rightarrow> join_with_rest r [Some e] | None \<Rightarrow> e)) (finalize_track_deletion (ds_track s)))
         (s_return ())) (\<lambda>_. recovered st s) (\<lambda>_. ?T)"
    unfolding r prod.case
  proof (intro always_if)
    assume "\<not> \<not> all"
    have "always ?T (\<lambda>t d. all \<longrightarrow> files_gone st s t) (s_map_err f (finalize_track_deletion (ds_track s))) (\<lambda>_. recovered st s) (\<lambda>_. ?T)" for f
      by (rule always_map_err, rule always_weaken [OF fin]) (use \<open>\<not> \<not> all\<close> in \<open>auto simp: recovered_def\<close>)
    then show "always ?T (\<lambda>t d. all \<longrightarrow> files_gone st s t) (s_then (s_map_err (\<lambda>x. err_context (''finalize recovered Permanent Track Deletion '' @ st_debug st (ds_track s))
              (case e of Some r \<Rightarrow> join_with_rest r [Some x] | None \<Rightarrow> x)) (finalize_track_deletion (ds_track s)))
         (s_return ())) (\<lambda>_. recovered st s) (\<lambda>_. ?T)"
      by (rule always_then) (rule always_return)
  qed (auto intro: always_fail)
qed

lemma recover_deletions_step:
  "always (\<lambda>_ _. True) (\<lambda>t d. remaining todo d \<and> (\<forall>s \<in> set past. recovered st s t d)) (recover_deletions st todo)
     (\<lambda>_ t d. db_deletions d = [] \<and> (\<forall>s \<in> set (past @ todo). recovered st s t d)) (\<lambda>_ _ _. True)"
proof (induction todo arbitrary: past)
  case Nil
  show ?case by (auto intro!: always_return simp: remaining_def)
next
  case (Cons s todo)
  let ?P = "\<lambda>t d. remaining (s # todo) d \<and> (\<forall>s \<in> set past. recovered st s t d)"
  have p: "always (\<lambda>_ _. True) ?P (recover_deletion st s) (\<lambda>_. ?P) (\<lambda>_. ?P)"
  proof (rule steady_always [OF recover_takes_away])
    fix t d t' d'
    assume a: "?P t d" and t: "takes_away t d t' d'"
    then have "remaining (s # todo) d'" by (auto simp: remaining_def takes_away_def rows_shrink_def)
    with a show "?P t' d'" using recovered_stays [OF _ t] by blast
  qed simp
  have "always (\<lambda>_ _. True) ?P (recover_deletion st s) (\<lambda>_ t d. ?P t d \<and> recovered st s t d) (\<lambda>_ _ _. True)"
    by (rule always_pre [OF always_done [OF p recover_deletion_step]]) simp
  then have "always (\<lambda>_ _. True) ?P (recover_deletion st s)
      (\<lambda>_ t d. remaining todo d \<and> (\<forall>x \<in> set (past @ [s]). recovered st x t d)) (\<lambda>_ _ _. True)"
  proof (rule always_weaken)
    fix t d
    assume a: "?P t d \<and> recovered st s t d"
    then have "remaining todo d" unfolding remaining_def recovered_def erased_def by (metis set_ConsD)
    with a show "remaining todo d \<and> (\<forall>x \<in> set (past @ [s]). recovered st x t d)" by auto
  qed simp_all
  from always_then [OF this Cons.IH] show ?case by simp
qed

end
