(* ===== verification/Deletion_Claims.thy ===== *)
theory Deletion_Claims
  imports Deletion_Safety Replacement_Recovery
begin

text \<open>
  What a deletion promises: a Track that is still seen has its file, one that was deleted has left
  nothing, and a recovery that ends has finished every deletion.
\<close>

text \<open>Restarts, each with fates of its own.\<close>

fun deletion_restarts :: "storage \<Rightarrow> (nat \<Rightarrow> fate) list \<Rightarrow> db world \<Rightarrow> db world" where
  "deletion_restarts st [] w = w"
| "deletion_restarts st (f # fs) w = deletion_restarts st fs (snd (recover_pending_track_deletions st (w\<lparr>fates := f, ticks := 0\<rparr>)))"

lemma deletion_restarts_keep:
  "shown_or_gone st i path h (tree w) (db w)
    \<Longrightarrow> shown_or_gone st i path h (tree (deletion_restarts st fs w)) (db (deletion_restarts st fs w))"
proof (induction fs arbitrary: w)
  case (Cons f fs)
  have "shown_or_gone st i path h (tree (w\<lparr>fates := f, ticks := 0\<rparr>)) (db (w\<lparr>fates := f, ticks := 0\<rparr>))" using Cons.prems by simp
  from always_world [OF recover_shown_or_gone this] Cons.IH show ?case by simp
qed simp

subsection \<open>A small library\<close>

definition demo_texts :: payload_texts where
  "demo_texts = \<lparr>track_payload = (\<lambda>s. ds_track s @ '':'' @ ds_path s), album_payload = (\<lambda>i n ts. i @ concat ts)\<rparr>"

definition demo_token :: string where
  "demo_token = ''3:/m/library/a-1/old-2/01-01-song-3.flac''"

definition demo_deletion :: "(nat \<Rightarrow> fate) \<Rightarrow> (import_error, int) ending \<times> db world" where
  "demo_deletion f = delete_track_locked demo_storage demo_texts ''3'' demo_token (demo_world f)"

definition demo_path :: string where
  "demo_path = ''/m/library/a-1/old-2/01-01-song-3.flac''"

lemma demo_undeleted: "undeleted demo_storage ''3'' demo_path ''old'' (tree (demo_world f)) (db (demo_world f))"
proof -
  have "undeleted demo_storage ''3'' demo_path ''old'' demo_tree demo_db" by code_simp
  then show ?thesis by (simp add: demo_world_def)
qed

subsection \<open>The properties\<close>

text \<open>two confirmation tokens pass the constant-time comparison exactly when they are the same.\<close>

theorem tokens_equal_exact: "tokens_equal expected actual \<longleftrightarrow> expected = actual"
  by (rule tokens_equal_eq)

text \<open>C3: when no deletion is open and the file of a Track is at its path with its digest, then after
  \<open>delete_track_locked\<close> with any fates of its steps and any number of restarts with any fates, each row
  of the Track that is not hidden still has that file, and no deletion is open.\<close>

theorem deletion_keeps_the_file_of_a_seen_track:
  assumes "undeleted st i path h (tree w) (db w)"
    and "w' = deletion_restarts st fs (snd (delete_track_locked st texts i token w))"
    and "x \<in> set (db_tracks (db w'))" "tr_id x = i" "\<not> tr_missing x"
  shows "file_holds st (tree w') path h \<and> db_deletions (db w') = []"
proof -
  let ?J = "shown_or_gone st i path h"
  have "always ?J (undeleted st i path h) (delete_track_locked st texts i token) (\<lambda>_. ?J) (\<lambda>_. ?J)"
    by (rule always_weaken [OF delete_step]) (auto simp: shown_or_gone_def gone_def track_gone_def erased_def)
  from always_world [OF this assms(1)] have "?J (tree w') (db w')" unfolding assms(2) by (rule deletion_restarts_keep)
  with assms(3-5) show ?thesis by (auto simp: shown_or_gone_def undeleted_def gone_def track_gone_def)
qed

theorem deletion_keeps_the_file_of_a_seen_track_witness:
  "\<exists>x. x \<in> set (db_tracks (db (snd (demo_deletion (\<lambda>n. if n = 22 then Fails ''busy'' else Goes))))) \<and> tr_id x = ''3'' \<and> \<not> tr_missing x
     \<and> file_holds demo_storage (tree (snd (demo_deletion (\<lambda>n. if n = 22 then Fails ''busy'' else Goes)))) demo_path ''old''"
proof -
  let ?w = "snd (demo_deletion (\<lambda>n. if n = 22 then Fails ''busy'' else Goes))"
  have "list_ex (\<lambda>x. tr_id x = ''3'' \<and> \<not> tr_missing x) (db_tracks (db ?w))" by code_simp
  then obtain x where x: "x \<in> set (db_tracks (db ?w))" "tr_id x = ''3''" "\<not> tr_missing x" by (auto simp: list_ex_iff)
  have w: "?w = deletion_restarts demo_storage []
      (snd (delete_track_locked demo_storage demo_texts ''3'' demo_token (demo_world (\<lambda>n. if n = 22 then Fails ''busy'' else Goes))))"
    by (simp add: demo_deletion_def)
  from deletion_keeps_the_file_of_a_seen_track [OF demo_undeleted w x] x show ?thesis by blast
qed

text \<open>C33: when \<open>delete_track_locked\<close> succeeds from such a state, the file is gone, and so are the row of the
  Track, every Queue item and Playlist entry with it, and the journal of the deletion.\<close>

theorem deletion_done_leaves_nothing:
  assumes "undeleted st i path h (tree w) (db w)" and "delete_track_locked st texts i token w = (Done n, w')"
  shows "absent st path (tree w') \<and> erased i (db w')"
  using alwaysD [OF delete_step assms] by simp

theorem deletion_done_leaves_nothing_witness:
  "\<exists>w'. demo_deletion (\<lambda>_. Goes) = (Done 1, w') \<and> absent demo_storage demo_path (tree w') \<and> erased ''3'' (db w')"
proof -
  have "fst (demo_deletion (\<lambda>_. Goes)) = Done 1" by code_simp
  then obtain w' where w: "demo_deletion (\<lambda>_. Goes) = (Done 1, w')" by (cases "demo_deletion (\<lambda>_. Goes)") auto
  from deletion_done_leaves_nothing [OF demo_undeleted w [unfolded demo_deletion_def]] w show ?thesis by blast
qed

text \<open>C30: when the recovery at a start succeeds, no deletion is open, and for each one that was open the
  files it names are gone, and so are the row of the Track and every reference to it.\<close>

theorem deletion_recovery_finishes:
  assumes "recover_pending_track_deletions st w = (Done r, w')"
  shows "db_deletions (db w') = [] \<and> (\<forall>p \<in> set (db_deletions (db w)). erased (pd_track p) (db w') \<and> absent st (pd_path p) (tree w')
     \<and> (pd_artwork_path p \<noteq> [] \<longrightarrow> absent st (pd_artwork_path p) (tree w')))"
proof -
  let ?T = "\<lambda>_ _. True" and ?ss = "map deletion_of_row (db_deletions (db w))"
  have "always ?T (\<lambda>t d. d = db w) list_pending_deletions (\<lambda>ss t d. ss = ?ss \<and> remaining ss d \<and> (\<forall>s \<in> set []. recovered st s t d)) (\<lambda>_. ?T)"
    unfolding list_pending_deletions_def
    by (rule always_query) (auto simp: remaining_def deletion_of_row_def)
  moreover have "always ?T (\<lambda>t d. ss = ?ss \<and> remaining ss d \<and> (\<forall>s \<in> set []. recovered st s t d)) (recover_deletions st ss)
      (\<lambda>_ t d. db_deletions d = [] \<and> (\<forall>s \<in> set ?ss. recovered st s t d)) (\<lambda>_. ?T)" for ss
    by (rule always_fact, rule always_weaken [OF recover_deletions_step [where past = "[]"]]) auto
  ultimately have "always ?T (\<lambda>t d. d = db w) (recover_pending_track_deletions st)
      (\<lambda>_ t d. db_deletions d = [] \<and> (\<forall>s \<in> set ?ss. recovered st s t d)) (\<lambda>_. ?T)"
    unfolding recover_pending_track_deletions_def by (rule always_bind)
  from alwaysD [OF this refl assms] show ?thesis
    by (auto simp: recovered_def files_gone_def deletion_of_row_def)
qed

definition demo_crashed :: "db world" where
  "demo_crashed = (snd (demo_deletion (\<lambda>n. if n = 18 then Dies else Goes)))\<lparr>fates := \<lambda>_. Goes, ticks := 0\<rparr>"

theorem deletion_recovery_finishes_witness:
  "\<exists>r w'. recover_pending_track_deletions demo_storage demo_crashed = (Done r, w') \<and> map pd_track (db_deletions (db demo_crashed)) = [''3'']
     \<and> db_deletions (db w') = [] \<and> erased ''3'' (db w')"
proof -
  let ?r = "recover_pending_track_deletions demo_storage demo_crashed"
  have "case fst ?r of Done _ \<Rightarrow> True | _ \<Rightarrow> False" by code_simp
  then obtain r w' where w: "?r = (Done r, w')" by (cases ?r) (auto split: ending.splits)
  have m: "map pd_track (db_deletions (db demo_crashed)) = [''3'']" by code_simp
  then obtain p where "p \<in> set (db_deletions (db demo_crashed))" "pd_track p = ''3''" by (auto simp: map_eq_Cons_conv)
  with deletion_recovery_finishes [OF w] have "db_deletions (db w') = []" "erased ''3'' (db w')" by auto
  with w m show ?thesis by (intro exI conjI)
qed

end
