(* ===== verification/Spec2Isabelle.thy ===== *)
theory Spec2Isabelle
  imports
    Room_Contract
    Guest_Handlers
    Serve_File
    Playback_Navigation
    Playback_Lifecycle
    Queue_Events
    Adaptive_Rate
    Mp3_Inspector
    Search_Rank
    Ogg_Stream
    Playback_Reconnect
    Playback_Advance
    Playback_Recovery
    Playback_Fades
    Radio_Stream
    Radio_Catalog
    Tag_Metadata
    Go_Time
    Replacement_Claims
    Commit_Claims
    Deletion_Claims
begin

text \<open>
  Harmony, a self-hosted music server with a web and a desktop client: a development on
  the parts of its Rust code that decide something. The rest of the repository moves data
  between HTTP, SQLite, the file system, subprocesses and the player.

  \<^bold>\<open>The program and the theories.\<close>

  Listen Together (\<open>server/src/modules/listen_together\<close>) opens a Room that Guests join with
  an invite and hear the Owner's music in. \<open>Guest_Limits\<close> is \<open>limits.rs\<close>: token buckets over
  IEEE doubles, whose rounding is \<open>F64_Rounding\<close>. \<open>Room_State\<close> is \<open>room_state.rs\<close>: the
  playback state machine of a Room, one function per command. \<open>Room_Service\<close> is \<open>service.rs\<close>:
  the record \<open>service\<close> is what the mutex guards, and each operation is one critical section,
  a function from the service and its arguments (the clock and fresh random names among
  them) to the answer and the new service. The cells of channels, revocation flags and audio
  streams that handles outside the lock share are maps in the state, so a handle can outlive
  its Room. \<open>Room_Invariant\<close> has the invariant, the interface \<open>room_action\<close> of what runs
  inside \<open>with_room\<close>, and the step relation \<open>service_step\<close> with the reachable states;
  \<open>Room_Properties\<close> has what follows for all of them and \<open>Room_Contract\<close> the abstract
  specification that the service refines. \<open>Guest_Gate\<close> is \<open>gate.rs\<close> with the error values of
  \<open>respond.rs\<close>: what a request on the Guest listener meets before the application sees it.
  \<open>Guest_Handlers\<close> is \<open>handlers.rs\<close>: joining, leaving and the event stream.

  Media files (\<open>server/src/inspect\<close>) are inspected before they enter the library.
  \<open>Media_Bytes\<close> reads numbers from bytes, \<open>Inspect_Common\<close> is \<open>errors.rs\<close> and the shared part
  of \<open>mod.rs\<close>, \<open>Artwork\<close> is \<open>artwork.rs\<close>, \<open>Flac_Inspector\<close>, \<open>Id3\<close>, \<open>Wav_Inspector\<close> and
  \<open>Mp3_Inspector\<close> are \<open>flac.rs\<close>, \<open>id3.rs\<close>, \<open>wav.rs\<close> and \<open>mp3.rs\<close>. A file is its list of bytes
  and a reader a position in it.

  \<open>Ogg_Stream\<close> is the page and packet layer of \<open>ogg.rs\<close> over the checksum of \<open>Ogg_Crc\<close>.

  \<open>Tag_Metadata\<close> is \<open>metadata.rs\<close> with the genres of \<open>library/genres.rs\<close>: the tags that any
  inspector reads, checked and made into metadata.

  Internet radio (\<open>server/src/modules/radio\<close>) plays stations of other people through the server.
  \<open>Public_Hosts\<close> is the part of \<open>stream.rs\<close> that keeps requests out of private networks,
  \<open>Icy_Stream\<close> its parser of titles inside the audio, \<open>Hls_Playlist\<close> the rewriting of playlists
  with signed links, \<open>Radio_Stream\<close> the proxy itself with its handlers. \<open>Radio_Service\<close> is
  \<open>service.rs\<close> over the table of \<open>repository.rs\<close>, a list of rows, and \<open>Radio_Catalog\<close> is
  \<open>browser.rs\<close>, the queries to the public catalogue. \<open>Go_Query\<close> (\<open>query.rs\<close>) parses query
  strings and \<open>Go_Time\<close> (\<open>gojson.rs\<close>) reads and writes times the way the database has them.
  \<open>Text_Scan\<close> has the searching and slicing of texts they share.

  Search (\<open>server/src/modules/search\<close>, \<open>searchdata.rs\<close>): \<open>Search_Text\<close> prepares names and
  queries, \<open>Edit_Distance\<close> bounds typos, \<open>Search_Rank\<close> matches, orders and groups.

  Managed import (\<open>server/src/modules/managed_import\<close>) moves an uploaded file into the library,
  replaces the file of a Track or deletes one, over a file system and a database that have no
  transaction in common: a journal in the database says how far it is, and recovery at the next
  start finishes it or takes it back. \<open>Crash_Steps\<close> has the world these run in: a tree of files,
  the database, and for each call a fate (it goes, it fails, it reports a failure after it
  committed, the process dies there, a write is torn). A run is a function on the world;
  \<open>always\<close> says what holds after a run whatever the fates, \<open>confined\<close> and \<open>steady\<close> what a run
  leaves alone. \<open>Import_Errors\<close> is \<open>errors.rs\<close>, \<open>Import_Records\<close> the types and identities,
  \<open>Import_Storage\<close> and \<open>Import_Placement\<close> are \<open>storage.rs\<close>, \<open>Import_Database\<close> the tables with their
  constraints (each statement fails that would break one, or a trigger of the migrations),
  \<open>Import_History\<close> is \<open>history.rs\<close>, \<open>Import_Rows\<close> the rows that \<open>commit.rs\<close> writes and \<open>deletion.rs\<close>
  takes away. \<open>Track_Commit\<close>, \<open>Track_Replacement\<close> and \<open>Track_Deletion\<close> are the three operations
  with their recovery (\<open>commit.rs\<close> with the commit in \<open>service.rs\<close>, \<open>replacement.rs\<close>,
  \<open>deletion.rs\<close>). What each call on files leaves alone stands at the end of
  \<open>Import_Placement\<close>. The states of each operation, its runs and what follows are \<open>Commit_Safety\<close>
  and \<open>Commit_Claims\<close>; \<open>Replacement_Safety\<close>, \<open>Replacement_Runs\<close>, \<open>Replacement_Recovery\<close> (with
  the small library of the witnesses) and \<open>Replacement_Claims\<close>; \<open>Deletion_Safety\<close> and
  \<open>Deletion_Claims\<close>.

  Serving (\<open>server/src/modules/playback/serve_file.rs\<close>): \<open>Serve_File\<close> answers conditional
  and range requests.

  The desktop client (\<open>desktop/core/src\<close>): \<open>Playback_Navigation\<close> is the queue,
  \<open>Queue_Events\<close> the decoder of the server's event stream, \<open>Playback_Lifecycle\<close> what is
  saved and restored and what happens when the player dies, \<open>Adaptive_Rate\<close> the forcing of
  the system's sample rate, \<open>Processing\<close> (\<open>processing.rs\<close>) the profiles with volume,
  ReplayGain and equalizer, \<open>Playback_Telemetry\<close> (\<open>telemetry.rs\<close>) what is observed of the audio
  path, \<open>Output_Device\<close> (\<open>output_device.rs\<close>) the list of devices. The player itself,
  \<open>playback.rs\<close>, is a state \<open>player\<close> that the controller and its event thread share, with the
  fallible steps of \<open>Effects\<close> over it: \<open>Mpv_Process\<close> is the adapter to mpv, \<open>Playback_Session\<close> the
  state and its pure changes, \<open>Playback_Controller\<close> the commands, \<open>Playback_Outputs\<close> the output
  modes and devices, \<open>Playback_Events\<close> the handlers of mpv's events, \<open>Playback_Loop\<close> reconnecting,
  recovery and a turn of the event thread. \<open>Playback_Invariant\<close> and \<open>Playback_Reach\<close> have the
  invariant and the reachable states, \<open>Playback_Reconnect\<close>, \<open>Playback_Advance\<close>,
  \<open>Playback_Recovery\<close> and \<open>Playback_Fades\<close> what follows about live sources, the end of a source,
  a death of mpv and the volume. \<open>F64_Value\<close> has all the doubles, with subnormal numbers,
  infinities and NaN, \<open>Json_Value\<close> JSON values and how they are looked into. \<open>Rust_Text\<close> has the string functions of Rust's library that the
  components use, \<open>Harmony_Prelude\<close> results as sums and the shared rules.

  \<^bold>\<open>What the theorems show.\<close>

  Of Listen Together: the number of Guests stays within the limit and is the number shown;
  revocation signals, event channels and audio streams say exactly what the Room's state is
  in every reachable state; no command panics inside the lock; the Invite Link never reaches
  a Guest; an expired Room is never used again; joining, rejoining and leaving do what their
  answers say; a burst is worth its size and a bucket stays in bounds under rounding; every
  critical section is a step of the abstract specification. Of the gate: it denies by
  default, what it lets through has paid, a revoked body ends, file paths do not leave the
  server. Of the inspectors: what a FLAC writer or an ID3 writer puts down is read back, the
  frames of an accepted MP3 cover its audio exactly and well-formed streams are accepted, the
  numbers of an accepted WAV follow from its bytes and its samples can be read to the end.
  Of serving: a range never reaches outside the file, what is declared is what is sent, a seek
  gets its bytes. Of the desktop client: the queue's order is always a permutation and walking
  it visits everything, a shuffle avoids the old successor, chunking of the event stream does
  not matter, what was saved is restored, crashes are bounded, the forced rate is given back.
  Of search: the order of results and the bound on typos. Of the player: a session that makes
  sense in every reachable state, whatever mpv and the system answer; a reconnect never
  overrides a command and never gives up; the right source follows; a death of mpv ends in the
  restored session or an error; a fade gives the volume back; the Direct Profile changes nothing.
  Of radio: no request leaves for a reserved address, through redirects and names included; a
  rewritten playlist names nothing but signed links of the proxy, and each of them plays what
  stood there; titles are taken out of the audio exactly; the table of stations stays sound.
  Of managed import: whatever fails and wherever a run or a restart is cut short, a Track that can
  be seen has its file with its digest, or an open journal names where it is; an operation that
  ends has done what it says; a recovery of deletions that ends has finished all of them; and a
  replacement whose recovery can never end, because its last steps cannot be repeated.

  \<^bold>\<open>Parameters.\<close> Code outside the repository is an argument of the definitions that call it:
  JSON codecs, the HTTP date parser, the image and audio codecs, the
  parser and joiner of URLs, the resolver of names, hashes and signatures, random numbers, the
  clock, and the outcome of each call to the system. Unicode tables (letter case, the debug
  escaping of text) are arguments too. So are the free space, modification times, the JSON text a
  confirmation token is the digest of, and the supply of fresh identifiers of managed import.

  \<^bold>\<open>Numbers, bounds and termination.\<close> Rust's \<open>i64\<close> is \<open>int\<close> with its wrap-around or saturation
  written out where the code can reach it; unsigned offsets whose subtraction can underflow
  wrap at 64 bits (\<open>usub\<close>); counts the code bounds are \<open>nat\<close>; bit fields are words. The doubles of the
  budgets are rationals rounded to 53 bits, without exponent bounds, which their values never
  reach; those of the player are complete. The player's revisions, 64 bits wide, are \<open>nat\<close>. No
  definition uses fuel: every loop is a total function with a measure, mostly the bytes left,
  except the rewriting of a playlist's line, a partial function that is shown to return.

  \<^bold>\<open>Interleaving.\<close> The service's mutex makes each critical section one step. \<open>close()\<close> signals
  its Guests just after it releases the lock; the model signals in the same step. The player's
  commands and events are atomic, in any order, except where a reconnect waits for the lock on
  mpv: there any commands may run. Locks are never poisoned, since that takes a panic under one.
  mpv answers any request from everything it was told before, with a value or an error, a
  time-out being an error; the variants for Windows are left out.

  The server's repositories are SQL; where one is modelled, a query is a function on the list of
  rows, with its order and the unique indexes. The proxy reads the clock once for a playlist.

  Managed import holds its locks for a whole operation, so each runs alone; its crashes can come at
  every call. A call on files has its effect or fails without one, an injected failure is never
  one of the two kinds the code looks for (not found, exists), a process that dies may leave part of
  a write. The tests' hooks and the publishing of changed queues are left out.

  \<^bold>\<open>Not modelled.\<close> The TypeScript clients; the other repositories; of managed import the
  handlers, uploads, previews, batches and the repair of credits; external sources, artist information and lyrics, which are I/O around
  small decisions; start-up, configuration and logging; the MP4 inspector, the comments of Ogg streams and the
  values of ID3 text frames; spawning mpv and its IPC threads, the timing of loads for the log.
\<close>

end
